(* ===== verification/Spc_Prelude.thy ===== *)
theory Spc_Prelude
imports Main "HOL-Library.Word" "HOL-Library.Monad_Syntax"
begin

text \<open>
  What the components of the Spacenode signer share: the machine integers, byte buffers read
  and written through a pointer, the little-endian layout of integers in memory, and the
  allocator.

  A C function of the program is a HOL function into \<^verbatim>\<open>option\<close>: \<^verbatim>\<open>None\<close> is
  \<^emph>\<open>undefined behaviour\<close> (a read or write outside an object, a double free, a use after
  free), and \<^verbatim>\<open>Some\<close> holds the returned \<^verbatim>\<open>int\<close>, the values left in the out
  parameters, and the heap.  Out parameters are the address of a local of the caller at every
  call site, so the tests of the code that they are not \<^verbatim>\<open>NULL\<close> have no counterpart; the
  tests on buffers that can be \<^verbatim>\<open>NULL\<close> are kept.
\<close>

section \<open>Machine integers and buffers\<close>

type_synonym byte = "8 word"
type_synonym u16 = "16 word"
type_synonym u32 = "32 word"
type_synonym u64 = "64 word"

text \<open>A pointer to bytes is what can be read from it up to the end of its object;
  \<^verbatim>\<open>None\<close> is \<^verbatim>\<open>NULL\<close>.\<close>

type_synonym buf = "byte list option"

text \<open>Facts on buffers, on the heap, and on the layout of encoded data.\<close>

named_theorems buf_simps
named_theorems heap_simps
named_theorems wire_simps

text \<open>\<^verbatim>\<open>buffer + counter\<close>.\<close>

definition adv :: "u64 \<Rightarrow> byte list \<Rightarrow> byte list"
  where "adv c b = drop (unat c) b"

text \<open>\<^verbatim>\<open>memcpy(dst, buffer, n)\<close>, read side.\<close>

definition rd :: "nat \<Rightarrow> byte list \<Rightarrow> byte list option"
  where "rd n b = (if n \<le> length b then Some (take n b) else None)"

text \<open>\<^verbatim>\<open>memcpy(buffer + off, src, len)\<close> with all of \<^verbatim>\<open>src\<close>, write side.\<close>

definition wr :: "nat \<Rightarrow> byte list \<Rightarrow> byte list \<Rightarrow> byte list option"
  where "wr off src dst =
    (if off + length src \<le> length dst
     then Some (take off dst @ src @ drop (off + length src) dst) else None)"

text \<open>The caller's view after a callee wrote through \<^verbatim>\<open>buffer + counter\<close>.\<close>

definition splice :: "u64 \<Rightarrow> byte list \<Rightarrow> byte list \<Rightarrow> byte list"
  where "splice c b tail = take (unat c) b @ tail"

text \<open>Reading and writing one element of an array, undefined out of range.\<close>

definition nth_ub :: "nat \<Rightarrow> 'a list \<Rightarrow> 'a option"
  where "nth_ub i xs = (if i < length xs then Some (xs ! i) else None)"

definition upd_ub :: "nat \<Rightarrow> 'a \<Rightarrow> 'a list \<Rightarrow> 'a list option"
  where "upd_ub i x xs = (if i < length xs then Some (xs[i := x]) else None)"

text \<open>The conversion of an unsigned 64-bit value to the \<^verbatim>\<open>int\<close> a function returns.\<close>

definition int_of_u64 :: "u64 \<Rightarrow> int"
  where "int_of_u64 w = sint (ucast w :: 32 word)"

lemma int_of_u64_small:
  assumes "unat w < 2 ^ 31"
  shows "int_of_u64 w = int (unat w)"
proof -
  have *: "int (unat w) < int (2 ^ 31)" using assms by (simp only: of_nat_less_iff)
  have "0 \<le> uint w" by simp
  then have "- 2147483648 \<le> uint w" by linarith
  with * have "signed_take_bit 31 (uint w) = uint w"
    by (intro signed_take_bit_int_eq_self) simp_all
  then show ?thesis unfolding int_of_u64_def ucast_eq sint_sbintrunc' by simp
qed

lemma rd_app [buf_simps]: "n = length xs \<Longrightarrow> rd n (xs @ ys) = Some xs"
  by (simp add: rd_def)

lemma rd_0 [simp]: "rd 0 b = Some []"
  by (simp add: rd_def)

lemma rd_Some_iff: "rd n b = Some xs \<longleftrightarrow> n \<le> length b \<and> xs = take n b"
  by (auto simp: rd_def)

lemma rd_None_iff: "rd n b = None \<longleftrightarrow> length b < n"
  by (auto simp: rd_def)

lemma rd_split: "rd n b = Some xs \<longleftrightarrow> (\<exists>ys. b = xs @ ys \<and> length xs = n)"
  by (auto simp: rd_Some_iff intro: exI [of _ "drop n b"])

lemma wr_0 [buf_simps]:
  "length src \<le> length dst \<Longrightarrow> wr 0 src dst = Some (src @ drop (length src) dst)"
  by (simp add: wr_def)

lemma wr_app [buf_simps]:
  "\<lbrakk>length pre = off; length src \<le> length dst\<rbrakk>
   \<Longrightarrow> wr off src (pre @ dst) = Some (pre @ src @ drop (length src) dst)"
  by (simp add: wr_def)

lemma length_wr: "wr off src dst = Some dst' \<Longrightarrow> length dst' = length dst"
  by (auto simp: wr_def split: if_splits)

lemma nth_ub_less: "i < length xs \<Longrightarrow> nth_ub i xs = Some (xs ! i)"
  by (simp add: nth_ub_def)

lemma upd_ub_less: "i < length xs \<Longrightarrow> upd_ub i x xs = Some (xs[i := x])"
  by (simp add: upd_ub_def)

lemma nth_ub_app [buf_simps]: "length pre = i \<Longrightarrow> nth_ub i (pre @ x # xs) = Some x"
  by (auto simp: nth_ub_def nth_append)

lemma upd_ub_app [buf_simps]: "length pre = i \<Longrightarrow> upd_ub i v (pre @ x # xs) = Some (pre @ v # xs)"
  by (auto simp: upd_ub_def)

lemma adv_0 [simp]: "adv 0 b = b"
  by (simp add: adv_def)

lemma adv_app [buf_simps]: "unat c = length xs \<Longrightarrow> adv c (xs @ ys) = ys"
  by (simp add: adv_def)

subsection \<open>Arithmetic of 64-bit counters\<close>

lemma unat_lt2p: "unat (w :: 'a::len word) < 2 ^ LENGTH('a)"
  by (rule unsigned_less)

lemma unat_of_nat_u64: "n < 2 ^ 64 \<Longrightarrow> unat (word_of_nat n :: u64) = n"
  by (simp add: unat_of_nat take_bit_nat_eq_self)

lemma unat_u64_less: "unat (w :: u64) < 2 ^ 64"
  using unat_lt2p [of w] by simp

lemma unat_add_u64:
  "unat a + unat b < 2 ^ 64 \<Longrightarrow> unat (a + b :: u64) = unat a + unat b"
  using unat_add_lem [of a b] by simp

lemma unat_diff_u64: "unat b \<le> unat a \<Longrightarrow> unat (a - b :: u64) = unat a - unat b"
  by (simp add: unat_sub_if')

lemma unat_mult_u64:
  "unat a * unat b < 2 ^ 64 \<Longrightarrow> unat (a * b :: u64) = unat a * unat b"
  using unat_mult_lem [of a b] by simp

section \<open>Integers in memory: little endian\<close>

fun nat_of_le :: "byte list \<Rightarrow> nat" where
  "nat_of_le [] = 0"
| "nat_of_le (b # bs) = unat b + 256 * nat_of_le bs"

fun le_of_nat :: "nat \<Rightarrow> nat \<Rightarrow> byte list" where
  "le_of_nat 0 x = []"
| "le_of_nat (Suc n) x = word_of_nat (x mod 256) # le_of_nat n (x div 256)"

definition u16_le :: "u16 \<Rightarrow> byte list" where "u16_le w = le_of_nat 2 (unat w)"
definition u32_le :: "u32 \<Rightarrow> byte list" where "u32_le w = le_of_nat 4 (unat w)"
definition u64_le :: "u64 \<Rightarrow> byte list" where "u64_le w = le_of_nat 8 (unat w)"

definition le_u16 :: "byte list \<Rightarrow> u16" where "le_u16 bs = word_of_nat (nat_of_le bs)"
definition le_u32 :: "byte list \<Rightarrow> u32" where "le_u32 bs = word_of_nat (nat_of_le bs)"
definition le_u64 :: "byte list \<Rightarrow> u64" where "le_u64 bs = word_of_nat (nat_of_le bs)"

lemma le_of_nat_numeral:
  "le_of_nat (numeral k) x = word_of_nat (x mod 256) # le_of_nat (pred_numeral k) (x div 256)"
  unfolding numeral_eq_Suc [of k] by (rule le_of_nat.simps)

lemma length_le_of_nat [simp]: "length (le_of_nat n x) = n"
  by (induction n arbitrary: x) auto

lemma unat_byte_mod: "unat (word_of_nat (x mod 256) :: byte) = x mod 256"
  by (simp add: unat_of_nat take_bit_eq_mod)

lemma nat_of_le_of_nat: "nat_of_le (le_of_nat n x) = x mod 256 ^ n"
proof (induction n arbitrary: x)
  case (Suc n)
  then show ?case
    by (simp add: unat_byte_mod mod_mult2_eq mult.commute)
qed simp

lemma le_of_nat_of_le: "length bs = n \<Longrightarrow> le_of_nat n (nat_of_le bs) = bs"
proof (induction bs arbitrary: n)
  case (Cons b bs)
  have "unat b < 256" using unat_lt2p [of b] by simp
  with Cons show ?case by (cases n) auto
qed simp

lemma nat_of_le_less: "nat_of_le bs < 256 ^ length bs"
proof (induction bs)
  case (Cons b bs)
  have "unat b < 256" using unat_lt2p [of b] by simp
  with Cons show ?case by simp
qed simp

lemma nat_of_le_zeros [simp]: "nat_of_le (replicate n 0) = 0"
  by (induction n) auto

lemma nat_of_le_append: "nat_of_le (xs @ ys) = nat_of_le xs + 256 ^ length xs * nat_of_le ys"
  by (induction xs) (auto simp: algebra_simps)

lemma length_u_le [simp]:
  "length (u16_le a) = 2" "length (u32_le b) = 4" "length (u64_le c) = 8"
  by (simp_all add: u16_le_def u32_le_def u64_le_def)

lemma le_u16_inv [wire_simps]: "le_u16 (u16_le w) = w"
proof -
  have "unat w < 2 ^ 16" using unat_lt2p [of w] by simp
  then show ?thesis by (simp add: le_u16_def u16_le_def nat_of_le_of_nat)
qed

lemma le_u32_inv [wire_simps]: "le_u32 (u32_le w) = w"
proof -
  have "unat w < 2 ^ 32" using unat_lt2p [of w] by simp
  then show ?thesis by (simp add: le_u32_def u32_le_def nat_of_le_of_nat)
qed

lemma le_u64_inv [wire_simps]: "le_u64 (u64_le w) = w"
proof -
  have "unat w < 2 ^ 64" using unat_lt2p [of w] by simp
  then show ?thesis by (simp add: le_u64_def u64_le_def nat_of_le_of_nat)
qed

lemma u32_le_inv [wire_simps]: "length bs = 4 \<Longrightarrow> u32_le (le_u32 bs) = bs"
  using nat_of_le_less [of bs]
  by (simp add: le_u32_def u32_le_def unat_of_nat take_bit_nat_eq_self le_of_nat_of_le)

lemma u64_le_inv [wire_simps]: "length bs = 8 \<Longrightarrow> u64_le (le_u64 bs) = bs"
  using nat_of_le_less [of bs]
  by (simp add: le_u64_def u64_le_def unat_of_nat take_bit_nat_eq_self le_of_nat_of_le)

lemma u16_le_inv [wire_simps]: "length bs = 2 \<Longrightarrow> u16_le (le_u16 bs) = bs"
  using nat_of_le_less [of bs]
  by (simp add: le_u16_def u16_le_def unat_of_nat take_bit_nat_eq_self le_of_nat_of_le)

lemma le_of_nat_add: "le_of_nat (m + k) x = le_of_nat m x @ le_of_nat k (x div 256 ^ m)"
  by (induction m arbitrary: x) (simp_all add: div_mult2_eq)

lemma le_of_nat_zero: "le_of_nat k 0 = replicate k 0"
  by (induction k) simp_all

lemma le_of_nat_pad: "x < 256 ^ m \<Longrightarrow> le_of_nat (m + k) x = le_of_nat m x @ replicate k 0"
  by (simp add: le_of_nat_add le_of_nat_zero)

lemma unat_ucast_u16: "unat (n :: u64) < 65536 \<Longrightarrow> unat (ucast n :: u16) = unat n"
  by (simp add: unsigned_ucast_eq take_bit_nat_eq_self)

lemma unat_ucast_u32: "unat (n :: u64) < 4294967296 \<Longrightarrow> unat (ucast n :: u32) = unat n"
  by (simp add: unsigned_ucast_eq take_bit_nat_eq_self)

lemma unat_ucast_u8: "unat (n :: u64) < 256 \<Longrightarrow> unat (ucast n :: byte) = unat n"
  by (simp add: unsigned_ucast_eq take_bit_nat_eq_self)

lemma u64_le_u16: "unat n < 65536 \<Longrightarrow> u64_le n = u16_le (ucast n) @ replicate 6 0"
  using le_of_nat_pad [of "unat n" 2 6] by (simp add: u64_le_def u16_le_def unat_ucast_u16)

lemma u64_le_u32: "unat n < 4294967296 \<Longrightarrow> u64_le n = u32_le (ucast n) @ replicate 4 0"
  using le_of_nat_pad [of "unat n" 4 4] by (simp add: u64_le_def u32_le_def unat_ucast_u32)

subsection \<open>Lengths as machine integers\<close>

lemma unat_u16_len: "n < 65536 \<Longrightarrow> unat (word_of_nat n :: u16) = n"
  by (simp add: unat_of_nat take_bit_nat_eq_self)

lemma unat_u32_len: "n < 4294967296 \<Longrightarrow> unat (word_of_nat n :: u32) = n"
  by (simp add: unat_of_nat take_bit_nat_eq_self)

lemma ucast_u16_of_nat: "n < 65536 \<Longrightarrow> (ucast (word_of_nat n :: u16) :: u32) = word_of_nat n"
  by (simp add: word_unat_eq_iff unsigned_ucast_eq unat_of_nat take_bit_nat_eq_self)

lemma ucast_u16_u64: "n < 65536 \<Longrightarrow> (ucast (word_of_nat n :: u16) :: u64) = word_of_nat n"
  by (simp add: word_unat_eq_iff unsigned_ucast_eq unat_of_nat take_bit_nat_eq_self)

lemma ucast_u32_u64: "n < 4294967296 \<Longrightarrow> (ucast (word_of_nat n :: u32) :: u64) = word_of_nat n"
  by (simp add: word_unat_eq_iff unsigned_ucast_eq unat_of_nat take_bit_nat_eq_self)

lemma sint_small32: "m < 2 ^ 31 \<Longrightarrow> sint (word_of_nat m :: u32) = int m"
  by (simp add: signed_of_nat signed_take_bit_int_eq_self)

section \<open>The allocator\<close>

text \<open>
  A pointer to a block carries the name of the block and its contents: every block of the
  program has one owner at a time and is written only through it, so the contents travel with
  the pointer.  The heap holds which blocks are live, so that a double free or a use after
  free is visible, the number of calls of \<^verbatim>\<open>malloc\<close> so far, and which of them fail: an
  arbitrary function of the number of the call and the size.
\<close>

datatype 'a ptr = NULL | Ptr (blk: nat) (obj: 'a)

record heap =
  live :: "nat set"
  calls :: nat
  fails :: "nat \<Rightarrow> u64 \<Rightarrow> bool"

text \<open>\<^verbatim>\<open>malloc(size)\<close>: the name of a new block, or \<^verbatim>\<open>None\<close> for \<^verbatim>\<open>NULL\<close>.\<close>

definition malloc :: "u64 \<Rightarrow> heap \<Rightarrow> nat option \<times> heap" where
  "malloc sz h =
    (if fails h (calls h) sz then (None, h\<lparr>calls := Suc (calls h)\<rparr>)
     else (Some (calls h), h\<lparr>live := insert (calls h) (live h), calls := Suc (calls h)\<rparr>))"

definition free_blk :: "nat \<Rightarrow> heap \<Rightarrow> heap option" where
  "free_blk b h = (if b \<in> live h then Some (h\<lparr>live := live h - {b}\<rparr>) else None)"

text \<open>\<^verbatim>\<open>free(p)\<close>.\<close>

fun free :: "'a ptr \<Rightarrow> heap \<Rightarrow> heap option" where
  "free NULL h = Some h"
| "free (Ptr b x) h = free_blk b h"

text \<open>Following a pointer: undefined for \<^verbatim>\<open>NULL\<close> and for a freed block.\<close>

fun deref :: "'a ptr \<Rightarrow> heap \<Rightarrow> 'a option" where
  "deref NULL h = None"
| "deref (Ptr b x) h = (if b \<in> live h then Some x else None)"

text \<open>Blocks not handed out yet are not live.\<close>

definition heap_ok :: "heap \<Rightarrow> bool"
  where "heap_ok h \<longleftrightarrow> (\<forall>b\<in>live h. b < calls h)"

text \<open>No allocation fails from here on.\<close>

definition no_oom :: "heap \<Rightarrow> bool"
  where "no_oom h \<longleftrightarrow> (\<forall>n sz. \<not> fails h n sz)"

lemma fails_malloc: "malloc n h = (p, h') \<Longrightarrow> fails h' = fails h"
  by (auto simp: malloc_def split: if_splits)

lemma no_oom_fails [simp]: "no_oom h \<Longrightarrow> \<not> fails h n sz"
  by (simp add: no_oom_def)

lemma malloc_no_oom [heap_simps]:
  "no_oom h \<Longrightarrow> malloc sz h = (Some (calls h), h\<lparr>live := insert (calls h) (live h), calls := Suc (calls h)\<rparr>)"
  by (simp add: malloc_def)

lemma no_oom_upd [simp]: "no_oom (h\<lparr>calls := c\<rparr>) = no_oom h" "no_oom (h\<lparr>live := l\<rparr>) = no_oom h"
  by (simp_all add: no_oom_def)

lemma malloc_heap_ok: "\<lbrakk>malloc sz h = (p, h'); heap_ok h\<rbrakk> \<Longrightarrow> heap_ok h'"
  by (auto simp: malloc_def heap_ok_def less_Suc_eq split: if_splits)

lemma free_blk_heap_ok: "\<lbrakk>free_blk b h = Some h'; heap_ok h\<rbrakk> \<Longrightarrow> heap_ok h'"
  by (auto simp: free_blk_def heap_ok_def split: if_splits)

lemma free_heap_ok: "\<lbrakk>free p h = Some h'; heap_ok h\<rbrakk> \<Longrightarrow> heap_ok h'"
  by (cases p) (auto intro: free_blk_heap_ok)

end
