(* ===== verification/Wire_Format.thy ===== *)
theory Wire_Format
imports Spc_Prelude
begin

text \<open>
  The abstract specification of the two byte formats the signer moves between: the
  partially signed transaction it receives (Electrum's \<^verbatim>\<open>EPTF\<close> format, version 0) and the
  signed segregated-witness transaction it returns.  Nothing here is a function of the program;
  the components are proved against these definitions.
\<close>

section \<open>Transactions\<close>

record txin =
  ti_hash :: "byte list"
  ti_index :: "byte list"
  ti_script :: "byte list"
  ti_sequence :: "byte list"

record txout =
  to_value :: "byte list"
  to_script :: "byte list"

record witness =
  w_value :: u64
  w_items :: "byte list list"

record ptx =
  p_version :: u32
  p_ins :: "txin list"
  p_outs :: "txout list"
  p_wits :: "witness list"
  p_locktime :: u32

section \<open>Encoders\<close>

text \<open>Bitcoin's variable length integer.\<close>

definition varint :: "u64 \<Rightarrow> byte list" where
  "varint n =
    (if n < 0xfd then [ucast n]
     else if n \<le> 0xffff then 0xfd # u16_le (ucast n)
     else if n \<le> 0xffffffff then 0xfe # u32_le (ucast n)
     else 0xff # u64_le n)"

abbreviation len64 :: "'a list \<Rightarrow> u64"
  where "len64 xs \<equiv> word_of_nat (length xs)"

definition blob :: "byte list \<Rightarrow> byte list"
  where "blob xs = varint (len64 xs) @ xs"

definition enc_list :: "('a \<Rightarrow> byte list) \<Rightarrow> 'a list \<Rightarrow> byte list"
  where "enc_list f xs = varint (len64 xs) @ concat (map f xs)"

definition enc_txin :: "txin \<Rightarrow> byte list"
  where "enc_txin i = ti_hash i @ ti_index i @ blob (ti_script i) @ ti_sequence i"

definition enc_txout :: "txout \<Rightarrow> byte list"
  where "enc_txout p = to_value p @ blob (to_script p)"

text \<open>A witness of a partial transaction: the marker \<^verbatim>\<open>0xfe ffffffff\<close>, the value of the
  coin spent, the version, and the stack items.\<close>

definition enc_pwit :: "witness \<Rightarrow> byte list"
  where "enc_pwit w =
    0xfe # u32_le 0xffffffff @ u64_le (w_value w) @ u16_le 0 @ enc_list blob (w_items w)"

definition enc_wit :: "witness \<Rightarrow> byte list"
  where "enc_wit w = enc_list blob (w_items w)"

definition partial_magic :: "byte list"
  where "partial_magic = [0x45, 0x50, 0x54, 0x46, 0xff]"

definition enc_ptx :: "ptx \<Rightarrow> byte list" where
  "enc_ptx t =
    partial_magic @ [0] @ u32_le (p_version t) @ [0, 1] @
    enc_list enc_txin (p_ins t) @ enc_list enc_txout (p_outs t) @
    concat (map enc_pwit (p_wits t)) @ u32_le (p_locktime t)"

definition enc_stx :: "ptx \<Rightarrow> byte list" where
  "enc_stx t =
    u32_le (p_version t) @ [0, 1] @
    enc_list enc_txin (p_ins t) @ enc_list enc_txout (p_outs t) @
    concat (map enc_wit (p_wits t)) @ u32_le (p_locktime t)"

section \<open>Well-formed transactions\<close>

text \<open>The fixed fields have their sizes and a script is shorter than \<^verbatim>\<open>2 ^ 32\<close> bytes:
  the program reads a length of nine bytes wrongly (theory \<^verbatim>\<open>Deserialize\<close>).\<close>

definition short_blob :: "byte list \<Rightarrow> bool"
  where "short_blob xs \<longleftrightarrow> length xs < 2 ^ 32"

definition wf_txin :: "txin \<Rightarrow> bool" where
  "wf_txin i \<longleftrightarrow> length (ti_hash i) = 32 \<and> length (ti_index i) = 4 \<and> short_blob (ti_script i)
     \<and> length (ti_sequence i) = 4"

definition wf_txout :: "txout \<Rightarrow> bool" where
  "wf_txout p \<longleftrightarrow> length (to_value p) = 8 \<and> short_blob (to_script p)"

definition wf_witness :: "witness \<Rightarrow> bool" where
  "wf_witness w \<longleftrightarrow> w_items w \<noteq> [] \<and> list_all short_blob (w_items w)"

definition wf_ptx :: "ptx \<Rightarrow> bool" where
  "wf_ptx t \<longleftrightarrow> p_ins t \<noteq> [] \<and> p_outs t \<noteq> [] \<and> length (p_wits t) = length (p_ins t)
     \<and> list_all wf_txin (p_ins t) \<and> list_all wf_txout (p_outs t) \<and> list_all wf_witness (p_wits t)
     \<and> length (enc_ptx t) < 2 ^ 60"

section \<open>Lengths\<close>

lemma length_varint: "length (varint n) \<in> {1, 3, 5, 9}"
  by (simp add: varint_def)

lemma varint_ne [simp]: "varint n \<noteq> []"
  by (simp add: varint_def)

lemma length_concat_ge:
  "(\<And>x. x \<in> set xs \<Longrightarrow> k \<le> length (f x)) \<Longrightarrow> k * length xs \<le> length (concat (map f xs))"
  by (induction xs) (auto simp: add_le_mono)

lemma length_blob_ge: "1 \<le> length (blob xs)"
  by (simp add: blob_def varint_def)

lemma length_blob_ge': "length xs < length (blob xs)"
  by (simp add: blob_def varint_def)

lemma length_enc_txin_ge: "wf_txin i \<Longrightarrow> 41 \<le> length (enc_txin i)"
  using length_blob_ge [of "ti_script i"] by (simp add: wf_txin_def enc_txin_def)

lemma length_enc_txout_ge: "wf_txout p \<Longrightarrow> 9 \<le> length (enc_txout p)"
  using length_blob_ge [of "to_script p"] by (simp add: wf_txout_def enc_txout_def)

lemma length_enc_list_ge: "length xs * 0 < length (enc_list f xs)"
  by (simp add: enc_list_def)

lemma concat_le: "x \<in> set xs \<Longrightarrow> length (f x) \<le> length (concat (map f xs))"
  by (induction xs) auto

end
