(* ===== verification/Spc_Tools.thy ===== *)
theory Spc_Tools
imports Wire_Format
begin

unbundle bit_operations_syntax

text \<open>
  \<^verbatim>\<open>Spacechain_os_part/spc/spctools.c\<close>: hexadecimal conversion, array reversal and the
  Bitcoin variable length integer ("varint"), the helpers every other component calls.
  Characters are their ASCII codes.
\<close>

section \<open>Hexadecimal digits\<close>

definition char_to_hex :: "byte \<Rightarrow> byte" where
  "char_to_hex c =
    (if 48 \<le> c \<and> c \<le> 57 then c - 48
     else if 97 \<le> c \<and> c \<le> 102 then c - 97 + 10
     else if 65 \<le> c \<and> c \<le> 70 then c - 65 + 10
     else 99)"

definition hex_to_char :: "byte \<Rightarrow> byte" where
  "hex_to_char x =
    (if x \<le> 9 then x + 48 else if 10 \<le> x \<and> x \<le> 15 then x - 10 + 97 else 122)"

section \<open>Hexadecimal strings\<close>

text \<open>The loops of \<^verbatim>\<open>array_char_to_hex\<close> and \<^verbatim>\<open>array_hex_to_char\<close>: the number of
  rounds left, then the two indices of the code.\<close>

fun char_to_hex_loop :: "nat \<Rightarrow> nat \<Rightarrow> nat \<Rightarrow> byte list \<Rightarrow> byte list \<Rightarrow> byte list option" where
  "char_to_hex_loop 0 i j cs out = Some out"
| "char_to_hex_loop (Suc k) i j cs out = do {
     c \<leftarrow> nth_ub i cs;
     x \<leftarrow> nth_ub j out;
     if i mod 2 = 0 then do {
       out' \<leftarrow> upd_ub j (x OR push_bit 4 (char_to_hex c)) out;
       char_to_hex_loop k (Suc i) j cs out'
     } else do {
       out' \<leftarrow> upd_ub j (x OR char_to_hex c) out;
       char_to_hex_loop k (Suc i) (Suc j) cs out'
     }
   }"

definition array_char_to_hex :: "u64 \<Rightarrow> buf \<Rightarrow> u64 \<Rightarrow> buf \<Rightarrow> (int \<times> buf) option" where
  "array_char_to_hex in_len inp out_len out =
    (case (inp, out) of
       (Some cs, Some bs) \<Rightarrow>
         if 2 * out_len < in_len then Some (-1, out)
         else do {
           bs0 \<leftarrow> wr 0 (replicate (unat out_len) 0) bs;
           bs1 \<leftarrow> char_to_hex_loop (unat in_len) 0 0 cs bs0;
           Some (int_of_u64 in_len, Some bs1)
         }
     | _ \<Rightarrow> Some (-1, out))"

fun hex_to_char_loop :: "nat \<Rightarrow> nat \<Rightarrow> nat \<Rightarrow> byte list \<Rightarrow> byte list \<Rightarrow> byte list option" where
  "hex_to_char_loop 0 i j bs out = Some out"
| "hex_to_char_loop (Suc k) i j bs out = do {
     b \<leftarrow> nth_ub i bs;
     out1 \<leftarrow> upd_ub j (hex_to_char (drop_bit 4 (b AND 0xF0))) out;
     out2 \<leftarrow> upd_ub (Suc j) (hex_to_char (b AND 0x0F)) out1;
     hex_to_char_loop k (Suc i) (Suc (Suc j)) bs out2
   }"

definition array_hex_to_char :: "u64 \<Rightarrow> buf \<Rightarrow> u64 \<Rightarrow> buf \<Rightarrow> (int \<times> buf) option" where
  "array_hex_to_char in_len inp out_len out =
    (case (inp, out) of
       (Some bs, Some cs) \<Rightarrow>
         if out_len < 2 * in_len then Some (-1, out)
         else do {
           cs1 \<leftarrow> hex_to_char_loop (unat in_len) 0 0 bs cs;
           Some (int_of_u64 (2 * in_len), Some cs1)
         }
     | _ \<Rightarrow> Some (-1, out))"

section \<open>Reversal\<close>

text \<open>\<^verbatim>\<open>array_reverse\<close>: by bytes (step 1) or by pairs of hexadecimal digits (step 2).
  The loop takes the rounds left and the index \<^verbatim>\<open>i\<close>.\<close>

fun reverse1_loop :: "nat \<Rightarrow> nat \<Rightarrow> nat \<Rightarrow> byte list \<Rightarrow> byte list \<Rightarrow> byte list option" where
  "reverse1_loop 0 i n inp out = Some out"
| "reverse1_loop (Suc k) i n inp out = do {
     x \<leftarrow> nth_ub i inp;
     out' \<leftarrow> upd_ub (n - 1 - i) x out;
     reverse1_loop k (Suc i) n inp out'
   }"

fun reverse2_loop :: "nat \<Rightarrow> nat \<Rightarrow> nat \<Rightarrow> byte list \<Rightarrow> byte list \<Rightarrow> byte list option" where
  "reverse2_loop 0 i n inp out = Some out"
| "reverse2_loop (Suc k) i n inp out = do {
     x \<leftarrow> nth_ub i inp;
     out1 \<leftarrow> upd_ub (n - 1 - 1 - i) x out;
     y \<leftarrow> nth_ub (i + 1) inp;
     out2 \<leftarrow> upd_ub (n - 1 - i) y out1;
     reverse2_loop k (i + 2) n inp out2
   }"

definition array_reverse :: "u64 \<Rightarrow> buf \<Rightarrow> u64 \<Rightarrow> buf \<Rightarrow> u64 \<Rightarrow> (int \<times> buf) option" where
  "array_reverse in_len inp out_len out step =
    (case (inp, out) of
       (Some xs, Some ys) \<Rightarrow>
         if out_len < in_len then Some (-1, out)
         else if step = 2 \<and> in_len mod 2 \<noteq> 0 then Some (-1, out)
         else if step = 1 then do {
           ys1 \<leftarrow> reverse1_loop (unat in_len) 0 (unat in_len) xs ys;
           Some (0, Some ys1)
         }
         else if step = 2 then do {
           ys1 \<leftarrow> reverse2_loop (unat in_len div 2) 0 (unat in_len) xs ys;
           Some (0, Some ys1)
         }
         else Some (-1, out)
     | _ \<Rightarrow> Some (-1, out))"

section \<open>Variable length integers\<close>

definition read_varint_len :: "buf \<Rightarrow> byte option" where
  "read_varint_len buffer =
    (case buffer of None \<Rightarrow> Some 0
     | Some b \<Rightarrow> do {
         head \<leftarrow> nth_ub 0 b;
         if head < 0xfd then Some head
         else if head = 0xfd then Some 0xfd
         else if head = 0xfe then Some 0xfe
         else if head = 0xff then Some 0xff
         else Some 0
       })"

text \<open>The destination of \<^verbatim>\<open>read_varint\<close> is the memory of an integer of the caller, so it
  is a list of bytes here: 2, 4 or 8 of them.\<close>

definition read_varint :: "buf \<Rightarrow> byte \<Rightarrow> buf \<Rightarrow> (int \<times> buf) option" where
  "read_varint buffer varint_len varint_ptr =
    (case (buffer, varint_ptr) of
       (Some b, Some dst) \<Rightarrow>
         if varint_len = 2 then do {
           v \<leftarrow> rd 2 b;
           if le_u16 v < 0xfd then Some (-1, varint_ptr)
           else do { dst' \<leftarrow> wr 0 v dst; Some (0, Some dst') }
         }
         else if varint_len = 4 then do {
           v \<leftarrow> rd 4 b;
           if le_u32 v > 0xffffffff \<or> le_u32 v \<le> 0xffff then Some (-1, varint_ptr)
           else do { dst' \<leftarrow> wr 0 v dst; Some (0, Some dst') }
         }
         else if varint_len = 8 then do {
           v \<leftarrow> rd 8 b;
           if le_u64 v \<le> 0xffffffff then Some (-1, varint_ptr)
           else do { dst' \<leftarrow> wr 0 v dst; Some (0, Some dst') }
         }
         else Some (-1, varint_ptr)
     | _ \<Rightarrow> Some (-1, varint_ptr))"

definition gen_varint_len :: "u64 \<Rightarrow> byte" where
  "gen_varint_len num =
    (if num < 0xfd then 1 else if num \<le> 0xffff then 3 else if num \<le> 0xffffffff then 5 else 9)"

definition gen_varint :: "u64 \<Rightarrow> byte \<Rightarrow> buf \<Rightarrow> (int \<times> buf) option" where
  "gen_varint num varint_len buffer =
    (case buffer of None \<Rightarrow> Some (-1, buffer)
     | Some b \<Rightarrow>
         if varint_len = 1 then
           (if num \<ge> 0xfd then Some (-1, buffer)
            else do { b' \<leftarrow> wr 0 [ucast num] b; Some (0, Some b') })
         else if varint_len = 3 then
           (if num > 0xffff \<or> num < 0xfd then Some (-1, buffer)
            else do {
              b1 \<leftarrow> upd_ub 0 0xfd b;
              b2 \<leftarrow> wr 1 (u16_le (ucast num)) b1;
              Some (0, Some b2)
            })
         else if varint_len = 5 then
           (if num > 0xffffffff \<or> num \<le> 0xffff then Some (-1, buffer)
            else do {
              b1 \<leftarrow> upd_ub 0 0xfe b;
              b2 \<leftarrow> wr 1 (u32_le (ucast num)) b1;
              Some (0, Some b2)
            })
         else if varint_len = 9 then
           (if num \<le> 0xffffffff then Some (-1, buffer)
            else do {
              b1 \<leftarrow> upd_ub 0 0xff b;
              b2 \<leftarrow> wr 1 (u64_le num) b1;
              Some (0, Some b2)
            })
         else Some (-1, buffer))"

section \<open>What the hexadecimal conversions compute\<close>

definition hex_of_bytes :: "byte list \<Rightarrow> byte list" where
  "hex_of_bytes bs =
    concat (map (\<lambda>b. [hex_to_char (drop_bit 4 (b AND 0xF0)), hex_to_char (b AND 0x0F)]) bs)"

fun bytes_of_hex :: "byte list \<Rightarrow> byte list" where
  "bytes_of_hex (a # b # cs) = (push_bit 4 (char_to_hex a) OR char_to_hex b) # bytes_of_hex cs"
| "bytes_of_hex [a] = [push_bit 4 (char_to_hex a)]"
| "bytes_of_hex [] = []"

lemma hex_digit_inv: 
  assumes "(x::byte) \<le> 15" shows "char_to_hex (hex_to_char x) = x"
proof (cases "x \<le> 9")
  case True
  then have "unat (x + 48) = unat x + 48" by (simp add: word_le_nat_alt unat_word_ariths)
  with True show ?thesis by (simp add: char_to_hex_def hex_to_char_def word_le_nat_alt)
next
  case False
  with assms have b: "10 \<le> unat x" "unat x \<le> 15" by (simp_all add: word_le_nat_alt)
  have e: "x - 10 + 97 = x + 87" by simp
  from b have u: "unat (x + 87) = unat x + 87" by (simp add: word_le_nat_alt unat_word_ariths)
  from b show ?thesis by (simp add: char_to_hex_def hex_to_char_def word_le_nat_alt e u)
qed

lemma hi_nib: "drop_bit 4 (b AND 0xF0) \<le> (15::byte)"
proof -
  have "unat (drop_bit 4 (b AND 0xF0)) = unat (b AND 0xF0) div 16"
    by (simp add: drop_bit_eq_div unat_div)
  moreover have "unat (b AND 0xF0) < 256" using unat_lt2p [of "b AND 0xF0"] by simp
  ultimately show ?thesis by (simp add: word_le_nat_alt)
qed


lemma lo_nib: "b AND 0xF \<le> (15::byte)"
proof -
  have "uint (b AND mask 4) < 2 ^ 4" by (rule and_mask_lt_2p)
  then have "uint (b AND 0xF) < 16" by (simp add: mask_eq_exp_minus_1)
  then show ?thesis by (simp add: word_le_def)
qed

lemma nib_join: "push_bit 4 (drop_bit 4 (b AND 0xF0)) OR (b AND 0xF) = (b::byte)"
proof (rule bit_word_eqI)
  fix n assume "n < LENGTH(8)"
  then have "n \<in> {0,1,2,3,4,5,6,7}" by auto
  then show "bit (push_bit 4 (drop_bit 4 (b AND 0xF0)) OR (b AND 0xF)) n = bit b n"
    by (auto simp: bit_simps)
qed

lemma nibbles_roundtrip:
  "push_bit 4 (char_to_hex (hex_to_char (drop_bit 4 (b AND 0xF0))))
   OR char_to_hex (hex_to_char (b AND 0x0F)) = b"
  unfolding hex_digit_inv [OF hi_nib] hex_digit_inv [OF lo_nib] by (rule nib_join)

lemma nibbles_roundtrip' [simp]:
  "push_bit 4 (char_to_hex (hex_to_char (drop_bit 4 b AND 15))) OR char_to_hex (hex_to_char (b AND 15)) = b"
  using nibbles_roundtrip [of b] by simp

lemma length_hex_of_bytes [simp]: "length (hex_of_bytes bs) = 2 * length bs"
  by (induction bs) (simp_all add: hex_of_bytes_def)

lemma length_bytes_of_hex [simp]: "length (bytes_of_hex cs) = (length cs + 1) div 2"
  by (induction cs rule: bytes_of_hex.induct) simp_all

lemma bytes_of_hex_of_bytes: "bytes_of_hex (hex_of_bytes bs) = bs"
  by (induction bs) (simp_all add: hex_of_bytes_def)

lemma hex_to_char_loop_eq:
  "\<lbrakk>length pre = i; length opre = j; 2 * length bs \<le> length dst\<rbrakk> \<Longrightarrow>
   hex_to_char_loop (length bs) i j (pre @ bs @ post) (opre @ dst) =
   Some (opre @ hex_of_bytes bs @ drop (2 * length bs) dst)"
proof (induction bs arbitrary: i j pre opre dst)
  case (Cons b bs)
  then obtain x y dst' where dst: "dst = x # y # dst'"
    by (cases dst rule: remdups_adj.cases) auto
  let ?h = "[hex_to_char (drop_bit 4 (b AND 0xF0)), hex_to_char (b AND 0x0F)]"
  have e: "opre @ a # y # dst' = (opre @ [a]) @ y # dst'" for a by simp
  have "upd_ub (Suc j) v (opre @ a # y # dst') = Some (opre @ a # v # dst')" for a v
    using Cons.prems unfolding e by (subst upd_ub_app) simp_all
  then have "hex_to_char_loop (length (b # bs)) i j (pre @ (b # bs) @ post) (opre @ dst) =
      hex_to_char_loop (length bs) (Suc i) (Suc (Suc j)) ((pre @ [b]) @ bs @ post) ((opre @ ?h) @ dst')"
    using Cons.prems by (simp add: dst buf_simps)
  also have "\<dots> = Some ((opre @ ?h) @ hex_of_bytes bs @ drop (2 * length bs) dst')"
    using Cons.prems dst by (intro Cons.IH) simp_all
  finally show ?case by (simp add: dst hex_of_bytes_def)
qed (simp add: hex_of_bytes_def)

lemma char_to_hex_loop_eq:
  "\<lbrakk>length pre = i; i mod 2 = 0; length opre = j; k = (length cs + 1) div 2\<rbrakk> \<Longrightarrow>
   char_to_hex_loop (length cs) i j (pre @ cs @ post) (opre @ replicate k 0 @ rest) =
   Some (opre @ bytes_of_hex cs @ rest)"
proof (induction cs arbitrary: i j pre opre k rule: bytes_of_hex.induct)
  case (1 a b cs)
  let ?x = "push_bit 4 (char_to_hex a) OR char_to_hex b"
  from 1 have k: "replicate k 0 = (0::byte) # replicate ((length cs + 1) div 2) 0" by simp
  have e: "pre @ a # b # cs @ post = (pre @ [a]) @ b # cs @ post" by simp
  have b: "nth_ub (Suc i) (pre @ a # b # cs @ post) = Some b"
    using 1 unfolding e by (subst nth_ub_app) simp_all
  have odd: "Suc i mod 2 \<noteq> 0" using \<open>i mod 2 = 0\<close> by presburger
  have "char_to_hex_loop (length (a # b # cs)) i j (pre @ (a # b # cs) @ post) (opre @ replicate k 0 @ rest) =
      char_to_hex_loop (length cs) (Suc (Suc i)) (Suc j) ((pre @ [a, b]) @ cs @ post)
        ((opre @ [?x]) @ replicate ((length cs + 1) div 2) 0 @ rest)"
    using 1 b odd by (simp add: buf_simps k)
  also have "\<dots> = Some ((opre @ [?x]) @ bytes_of_hex cs @ rest)"
    using 1(2-) by (intro 1(1)) (simp_all)
  finally show ?case by simp
qed (simp_all add: buf_simps)
section \<open>What the reversals compute\<close>

fun rev_pairs :: "byte list \<Rightarrow> byte list" where
  "rev_pairs (a # b # xs) = rev_pairs xs @ [a, b]"
| "rev_pairs xs = xs"

lemma length_rev_pairs [simp]: "length (rev_pairs xs) = length xs"
  by (induction xs rule: rev_pairs.induct) simp_all

lemma rev_pairs_app: "even (length xs) \<Longrightarrow> rev_pairs (xs @ ys) = rev_pairs ys @ rev_pairs xs"
  by (induction xs rule: rev_pairs.induct) simp_all

lemma rev_pairs_hex: "rev_pairs (hex_of_bytes bs) = hex_of_bytes (rev bs)"
  by (induction bs) (simp_all add: hex_of_bytes_def)

lemma reverse1_loop_eq:
  "\<lbrakk>length pre = i; length o1 = length xs; n = i + length xs\<rbrakk> \<Longrightarrow>
   reverse1_loop (length xs) i n (pre @ xs @ post) (o1 @ o2) = Some (rev xs @ o2)"
proof (induction xs arbitrary: pre i o1 o2)
  case (Cons x xs)
  then obtain o' y where o1: "o1 = o' @ [y]" by (cases o1 rule: rev_cases) auto
  have "reverse1_loop (length (x # xs)) i n (pre @ (x # xs) @ post) (o1 @ o2) =
      reverse1_loop (length xs) (Suc i) n ((pre @ [x]) @ xs @ post) (o' @ (x # o2))"
    using Cons.prems o1 by (simp add: buf_simps)
  also have "\<dots> = Some (rev xs @ x # o2)"
    using Cons.prems o1 by (intro Cons.IH) simp_all
  finally show ?case by simp
qed simp

lemma reverse2_loop_eq:
  "\<lbrakk>length pre = i; length o1 = length xs; n = i + length xs; even (length xs)\<rbrakk> \<Longrightarrow>
   reverse2_loop (length xs div 2) i n (pre @ xs @ post) (o1 @ o2) = Some (rev_pairs xs @ o2)"
proof (induction xs arbitrary: pre i o1 o2 rule: rev_pairs.induct)
  case (1 a b xs)
  then obtain o' y where "o1 = o' @ [y]" by (cases o1 rule: rev_cases) auto
  moreover from this 1 obtain o'' x where "o' = o'' @ [x]" by (cases o' rule: rev_cases) auto
  ultimately have o1: "o1 = o'' @ [x, y]" by simp
  have e: "pre @ a # b # xs @ post = (pre @ [a]) @ b # xs @ post" by simp
  have b: "nth_ub (Suc i) (pre @ a # b # xs @ post) = Some b"
    using 1 unfolding e by (subst nth_ub_app) simp_all
  have e': "o'' @ a # y # o2 = (o'' @ [a]) @ y # o2" by simp
  have u: "upd_ub (Suc (length xs)) v (o'' @ a # y # o2) = Some (o'' @ a # v # o2)" for v
    using 1 o1 unfolding e' by (subst upd_ub_app) simp_all
  have "reverse2_loop (length (a # b # xs) div 2) i n (pre @ (a # b # xs) @ post) (o1 @ o2) =
      reverse2_loop (length xs div 2) (i + 2) n ((pre @ [a, b]) @ xs @ post) (o'' @ (a # b # o2))"
    using 1(2-) o1 b u by (simp add: buf_simps)
  also have "\<dots> = Some (rev_pairs xs @ a # b # o2)"
    using 1(2-) o1 by (intro 1(1)) simp_all
  finally show ?case by simp
qed auto

section \<open>What the variable length integers compute\<close>

lemma unat_gen_varint_len: "unat (gen_varint_len n) = length (varint n)"
  by (simp add: gen_varint_len_def varint_def)

lemma varint_cases:
  obtains (one) "unat n < 0xfd" "varint n = [ucast n]" "gen_varint_len n = 1"
  | (three) "0xfd \<le> unat n" "unat n \<le> 0xffff" "varint n = 0xfd # u16_le (ucast n)" "gen_varint_len n = 3"
  | (five) "0xffff < unat n" "unat n \<le> 0xffffffff" "varint n = 0xfe # u32_le (ucast n)" "gen_varint_len n = 5"
  | (nine) "0xffffffff < unat n" "varint n = 0xff # u64_le n" "gen_varint_len n = 9"
  by (cases "n < 0xfd"; cases "n \<le> 0xffff"; cases "n \<le> 0xffffffff")
    (simp_all add: varint_def gen_varint_len_def word_less_nat_alt word_le_nat_alt)

lemma gen_varint_eq:
  assumes "length (varint n) \<le> length b"
  shows "gen_varint n (gen_varint_len n) (Some b) = Some (0, Some (varint n @ drop (length (varint n)) b))"
  using assms
  by (cases n rule: varint_cases; cases b)
    (simp_all add: gen_varint_def upd_ub_def wr_def word_less_nat_alt word_le_nat_alt flip: numeral_2_eq_2)

lemma read_varint_len_head: "read_varint_len (Some (x # xs)) = Some x"
proof -
  have "x = 0xff" if "\<not> x < 0xfd" "x \<noteq> 0xfd" "x \<noteq> 0xfe"
  proof -
    have "unat x < 256" using unat_lt2p [of x] by simp
    moreover have "unat x \<ge> 253" using that by (simp add: word_less_nat_alt)
    moreover have "unat x \<noteq> unat (253 :: byte)" "unat x \<noteq> unat (254 :: byte)"
      using that by (auto simp only: word_unat_eq_iff)
    ultimately have "unat x = unat (0xff :: byte)" by simp
    then show ?thesis by (simp only: word_unat_eq_iff)
  qed
  then show ?thesis by (auto simp: read_varint_len_def nth_ub_def)
qed

lemma read_varint_2:
  "2 \<le> length dst \<Longrightarrow> read_varint (Some (u16_le w @ rest)) 2 (Some dst) =
   (if unat w < 0xfd then Some (-1, Some dst) else Some (0, Some (u16_le w @ drop 2 dst)))"
  by (simp add: read_varint_def buf_simps wire_simps word_less_nat_alt)

lemma read_varint_4:
  "4 \<le> length dst \<Longrightarrow> read_varint (Some (u32_le w @ rest)) 4 (Some dst) =
   (if unat w \<le> 0xffff then Some (-1, Some dst) else Some (0, Some (u32_le w @ drop 4 dst)))"
proof -
  have "\<not> 0xffffffff < w" using unat_lt2p [of w] by (simp add: word_less_nat_alt)
  moreover assume "4 \<le> length dst"
  ultimately show ?thesis by (simp add: read_varint_def buf_simps wire_simps word_le_nat_alt)
qed

lemma read_varint_8:
  "8 \<le> length dst \<Longrightarrow> read_varint (Some (u64_le w @ rest)) 8 (Some dst) =
   (if unat w \<le> 0xffffffff then Some (-1, Some dst) else Some (0, Some (u64_le w @ drop 8 dst)))"
  by (simp add: read_varint_def buf_simps wire_simps word_le_nat_alt)

lemma read_varint_tail:
  assumes "0xfd \<le> unat n"
  shows "read_varint (Some (tl (varint n) @ rest)) (gen_varint_len n - 1) (Some (replicate 8 0)) =
    Some (0, Some (u64_le n))"
  using assms
  by (cases n rule: varint_cases)
    (simp_all add: read_varint_2 read_varint_4 read_varint_8 u64_le_u16 u64_le_u32
      unat_ucast_u16 unat_ucast_u32)

section \<open>Properties\<close>

text \<open>Writing bytes as hexadecimal text with \<^verbatim>\<open>array_hex_to_char\<close> and reading the text
  back with \<^verbatim>\<open>array_char_to_hex\<close> returns the bytes, for every content and every length
  that fits the buffers; the return values are the number of characters written and read.\<close>

theorem hex_text_roundtrip:
  assumes "length bs < 2 ^ 30" "length cs = 2 * length bs" "length ds = length bs"
  shows "array_hex_to_char (len64 bs) (Some bs) (2 * len64 bs) (Some cs) =
      Some (int (2 * length bs), Some (hex_of_bytes bs)) \<and>
    array_char_to_hex (2 * len64 bs) (Some (hex_of_bytes bs)) (len64 bs) (Some ds) =
      Some (int (2 * length bs), Some bs)"
proof -
  have n: "unat (len64 bs) = length bs" using assms by (simp add: unat_of_nat_u64)
  then have n2: "unat (2 * len64 bs) = 2 * length bs" using assms by (simp add: unat_mult_u64)
  then have i: "int_of_u64 (2 * len64 bs) = int (2 * length bs)"
    using assms by (simp add: int_of_u64_small)
  have "hex_to_char_loop (length bs) 0 0 bs cs = Some (hex_of_bytes bs)"
    using hex_to_char_loop_eq [of "[]" 0 "[]" 0 bs cs "[]"] assms by simp
  moreover have "char_to_hex_loop (2 * length bs) 0 0 (hex_of_bytes bs) (replicate (length bs) 0) = Some bs"
    using char_to_hex_loop_eq [of "[]" 0 "[]" 0 "length bs" "hex_of_bytes bs" "[]" "[]"]
    by (simp add: bytes_of_hex_of_bytes)
  ultimately show ?thesis
    using assms by (simp add: array_hex_to_char_def array_char_to_hex_def n n2 i buf_simps)
qed

lemma hex_text_roundtrip_witness:
  "array_hex_to_char 2 (Some [0x1f, 0xa0]) 4 (Some [0, 0, 0, 0]) =
     Some (4, Some [0x31, 0x66, 0x61, 0x30]) \<and>
   array_char_to_hex 4 (Some [0x31, 0x66, 0x61, 0x30]) 2 (Some [7, 7]) = Some (4, Some [0x1f, 0xa0])"
  using hex_text_roundtrip [of "[0x1f, 0xa0]" "[0, 0, 0, 0]" "[7, 7]"]
  by (simp add: hex_of_bytes_def hex_to_char_def)

text \<open>Reversing the hexadecimal text of some bytes pair by pair (step 2) gives the text of
  the bytes reversed one by one (step 1): the two modes of \<^verbatim>\<open>array_reverse\<close> agree.\<close>

theorem array_reverse_modes_agree:
  assumes "length bs < 2 ^ 62" "length ys = length bs" "length zs = 2 * length bs"
  shows "array_reverse (len64 bs) (Some bs) (len64 bs) (Some ys) 1 = Some (0, Some (rev bs)) \<and>
    array_reverse (2 * len64 bs) (Some (hex_of_bytes bs)) (2 * len64 bs) (Some zs) 2 =
      Some (0, Some (hex_of_bytes (rev bs)))"
proof -
  have n: "unat (len64 bs) = length bs" using assms by (simp add: unat_of_nat_u64)
  then have n2: "unat (2 * len64 bs) = 2 * length bs" using assms by (simp add: unat_mult_u64)
  have even: "2 * len64 bs mod 2 = 0"
    by (rule word_unat_eq_iff [THEN iffD2]) (simp add: n2 unat_mod)
  have "reverse1_loop (length bs) 0 (length bs) bs ys = Some (rev bs)"
    using reverse1_loop_eq [of "[]" 0 ys bs "length bs" "[]" "[]"] assms by simp
  moreover have "reverse2_loop (length (hex_of_bytes bs) div 2) 0 (length (hex_of_bytes bs))
      ([] @ hex_of_bytes bs @ []) (zs @ []) = Some (rev_pairs (hex_of_bytes bs) @ [])"
    using assms(3) by (intro reverse2_loop_eq) simp_all
  ultimately show ?thesis
    by (simp add: array_reverse_def n n2 even rev_pairs_hex)
qed

lemma array_reverse_modes_agree_witness:
  "array_reverse 2 (Some [0x1f, 0xa0]) 2 (Some [0, 0]) 1 = Some (0, Some [0xa0, 0x1f]) \<and>
   array_reverse 4 (Some [0x31, 0x66, 0x61, 0x30]) 4 (Some [0, 0, 0, 0]) 2 =
     Some (0, Some [0x61, 0x30, 0x31, 0x66])"
  using array_reverse_modes_agree [of "[0x1f, 0xa0]" "[0, 0]" "[0, 0, 0, 0]"]
  by (simp add: hex_of_bytes_def hex_to_char_def)

text \<open>The length announced by \<^verbatim>\<open>gen_varint_len\<close> is the one \<^verbatim>\<open>gen_varint\<close> writes,
  the bytes written are the variable length integer of the format whatever the number and the
  buffer, and \<^verbatim>\<open>read_varint_len\<close> with \<^verbatim>\<open>read_varint\<close> read the number back: the first
  byte alone when it is below 253, the following bytes otherwise.\<close>

theorem varint_roundtrip:
  assumes "length (varint n) \<le> length b"
  shows "unat (gen_varint_len n) = length (varint n) \<and>
    gen_varint n (gen_varint_len n) (Some b) = Some (0, Some (varint n @ drop (length (varint n)) b)) \<and>
    read_varint_len (Some (varint n @ drop (length (varint n)) b)) = Some (hd (varint n)) \<and>
    (if unat n < 0xfd then unat (hd (varint n)) = unat n
     else read_varint (Some (tl (varint n) @ drop (length (varint n)) b)) (gen_varint_len n - 1)
       (Some (replicate 8 0)) = Some (0, Some (u64_le n)))"
proof -
  have "read_varint_len (Some (varint n @ r)) = Some (hd (varint n))" for r
    by (cases "varint n") (simp_all add: read_varint_len_head del: varint_ne, metis varint_ne)
  moreover have "unat (hd (varint n)) = unat n" if "unat n < 0xfd"
    using that by (cases n rule: varint_cases) (simp_all add: unat_ucast_u8)
  ultimately show ?thesis
    using gen_varint_eq [OF assms] read_varint_tail [of n]
    by (simp add: unat_gen_varint_len not_less)
qed

lemma varint_roundtrip_witness:
  "gen_varint 515 (gen_varint_len 515) (Some [0, 0, 0, 9]) = Some (0, Some [0xfd, 3, 2, 9]) \<and>
   read_varint (Some [3, 2, 9]) 2 (Some (replicate 8 0)) = Some (0, Some [3, 2, 0, 0, 0, 0, 0, 0])"
  using varint_roundtrip [of 515 "[0, 0, 0, 9]"]
  by (simp add: varint_def u16_le_def u64_le_def gen_varint_len_def le_of_nat_numeral)

end
