(* ===== verification/Deserialize.thy ===== *)
theory Deserialize
imports Spc_Tools
begin

text \<open>
  \<^verbatim>\<open>Spacechain_os_part/spc/spcdeserialize.c\<close> and its header: the parser that turns the
  bytes of a partial transaction into the structures the signer works on, and the functions that
  free them.  A structure is a record, an array of structures the list of them behind a pointer.
  The three functions that read a counter, the three blocks that read the length of a script or
  item and the three loops over structures have the same text up to names; each is one
  definition here, used where the code repeats it.
\<close>

section \<open>The structures\<close>

record spc_input =
  prev_tx_hash :: "byte list"
  prev_tx_index :: "byte list"
  txin_script_len :: u64
  txin_script :: "byte list ptr"
  sequence_no :: "byte list"

record spc_output =
  txout_value :: "byte list"
  txout_script_len :: u64
  txout_script :: "byte list ptr"

record op_item_st =
  op_item_len :: u64
  op_item :: "byte list ptr"

record spc_witness =
  wit_value :: u64
  wit_version :: u16
  op_items_counter :: u64
  op_items_list :: "op_item_st list ptr"

record spc_tx =
  partial_label :: "byte list"
  partial_version :: byte
  nversion :: u32
  segwit_flag :: byte
  inputs_list :: "spc_input list ptr"
  inputs_counter :: u64
  outputs_list :: "spc_output list ptr"
  outputs_counter :: u64
  witnesses_list :: "spc_witness list ptr"
  witnesses_counter :: u64
  lock_time :: u32

text \<open>The structures after \<^verbatim>\<open>memset(&st, 0, sizeof st)\<close>.\<close>

definition zero_input :: spc_input where
  "zero_input = \<lparr>prev_tx_hash = replicate 32 0, prev_tx_index = replicate 4 0,
     txin_script_len = 0, txin_script = NULL, sequence_no = replicate 4 0\<rparr>"

definition zero_output :: spc_output where
  "zero_output = \<lparr>txout_value = replicate 8 0, txout_script_len = 0, txout_script = NULL\<rparr>"

definition zero_op_item :: op_item_st where
  "zero_op_item = \<lparr>op_item_len = 0, op_item = NULL\<rparr>"

definition zero_witness :: spc_witness where
  "zero_witness = \<lparr>wit_value = 0, wit_version = 0, op_items_counter = 0, op_items_list = NULL\<rparr>"

definition zero_tx :: spc_tx where
  "zero_tx = \<lparr>partial_label = replicate 5 0, partial_version = 0, nversion = 0, segwit_flag = 0,
     inputs_list = NULL, inputs_counter = 0, outputs_list = NULL, outputs_counter = 0,
     witnesses_list = NULL, witnesses_counter = 0, lock_time = 0\<rparr>"

section \<open>Counters and lengths\<close>

text \<open>\<^verbatim>\<open>get_inputs_counter\<close> and its two copies: the value and the number of bytes it takes,
  as out parameters.  A counter of zero is refused.\<close>

definition get_counter :: "buf \<Rightarrow> u64 \<Rightarrow> byte \<Rightarrow> (int \<times> u64 \<times> byte) option" where
  "get_counter buffer cnt cnt_len =
    (case buffer of None \<Rightarrow> Some (-1, cnt, cnt_len)
     | Some b \<Rightarrow> do {
         head \<leftarrow> read_varint_len (Some b);
         if head = 0 then Some (-1, cnt, cnt_len)
         else if head < 0xfd then Some (0, ucast head, 1)
         else if head = 0xfd then do {
           (ret, v) \<leftarrow> read_varint (Some (adv 1 b)) 2 (Some (replicate 8 0));
           if ret \<noteq> 0 then Some (-1, cnt, 3) else do { m \<leftarrow> v; Some (0, le_u64 m, 3) }
         }
         else if head = 0xfe then do {
           (ret, v) \<leftarrow> read_varint (Some (adv 1 b)) 4 (Some (replicate 8 0));
           if ret \<noteq> 0 then Some (-1, cnt, 5) else do { m \<leftarrow> v; Some (0, le_u64 m, 5) }
         }
         else if head = 0xff then do {
           (ret, v) \<leftarrow> read_varint (Some (adv 1 b)) 8 (Some (replicate 8 0));
           if ret \<noteq> 0 then Some (-1, cnt, 9) else do { m \<leftarrow> v; Some (0, le_u64 m, 9) }
         }
         else Some (-1, cnt, cnt_len)
       })"

definition get_inputs_counter :: "buf \<Rightarrow> u64 \<Rightarrow> byte \<Rightarrow> (int \<times> u64 \<times> byte) option"
  where "get_inputs_counter = get_counter"

definition get_outputs_counter :: "buf \<Rightarrow> u64 \<Rightarrow> byte \<Rightarrow> (int \<times> u64 \<times> byte) option"
  where "get_outputs_counter = get_counter"

definition get_op_items_counter :: "buf \<Rightarrow> u64 \<Rightarrow> byte \<Rightarrow> (int \<times> u64 \<times> byte) option"
  where "get_op_items_counter = get_counter"

text \<open>The length of a script or stack item at \<^verbatim>\<open>buffer + counter\<close>: the return code, the
  length and the counter behind it.  In the branch of nine bytes the code reads two bytes of the
  length and skips eight.\<close>

definition read_len :: "byte list \<Rightarrow> u64 \<Rightarrow> (int \<times> u64 \<times> u64) option" where
  "read_len b counter = do {
     head \<leftarrow> read_varint_len (Some (adv counter b));
     let counter = counter + 1;
     if head < 0xfd then Some (0, ucast head, counter)
     else if head = 0xfd then do {
       (ret, v) \<leftarrow> read_varint (Some (adv counter b)) 2 (Some (replicate 2 0));
       if ret = -1 then Some (-1, 0, counter)
       else do { m \<leftarrow> v; Some (0, ucast (le_u16 m), counter + 2) }
     }
     else if head = 0xfe then do {
       (ret, v) \<leftarrow> read_varint (Some (adv counter b)) 4 (Some (replicate 4 0));
       if ret = -1 then Some (-1, 0, counter)
       else do { m \<leftarrow> v; Some (0, ucast (le_u32 m), counter + 4) }
     }
     else if head = 0xff then do {
       (ret, v) \<leftarrow> read_varint (Some (adv counter b)) 2 (Some (replicate 8 0));
       if ret = -1 then Some (-1, 0, counter)
       else do { m \<leftarrow> v; Some (0, le_u64 m, counter + 8) }
     }
     else Some (0, 0, counter)
   }"

section \<open>Single structures\<close>

definition get_single_input :: "buf \<Rightarrow> spc_input \<Rightarrow> u64 \<Rightarrow> heap \<Rightarrow> (int \<times> spc_input \<times> u64 \<times> heap) option"
  where
  "get_single_input buffer st cnt h =
    (case buffer of None \<Rightarrow> Some (-1, st, cnt, h)
     | Some b \<Rightarrow> do {
         hash \<leftarrow> rd 32 b;
         index \<leftarrow> rd 4 (adv 32 b);
         (ret, len, counter) \<leftarrow> read_len b 36;
         if ret = -1 then Some (-1, zero_input, cnt, h)
         else (case malloc len h of
             (None, h1) \<Rightarrow> Some (-1, zero_input, cnt, h1)
           | (Some p, h1) \<Rightarrow> do {
               script \<leftarrow> rd (unat len) (adv counter b);
               let counter = counter + len;
               seq \<leftarrow> rd 4 (adv counter b);
               Some (0, st\<lparr>prev_tx_hash := hash, prev_tx_index := index, txin_script_len := len,
                           txin_script := Ptr p script, sequence_no := seq\<rparr>, counter + 4, h1)
             })
       })"

definition get_single_output :: "buf \<Rightarrow> spc_output \<Rightarrow> u64 \<Rightarrow> heap \<Rightarrow> (int \<times> spc_output \<times> u64 \<times> heap) option"
  where
  "get_single_output buffer st cnt h =
    (case buffer of None \<Rightarrow> Some (-1, st, cnt, h)
     | Some b \<Rightarrow> do {
         val \<leftarrow> rd 8 b;
         (ret, len, counter) \<leftarrow> read_len b 8;
         if ret = -1 then Some (-1, zero_output, cnt, h)
         else (case malloc len h of
             (None, h1) \<Rightarrow> Some (-1, zero_output, cnt, h1)
           | (Some p, h1) \<Rightarrow> do {
               script \<leftarrow> rd (unat len) (adv counter b);
               Some (0, st\<lparr>txout_value := val, txout_script_len := len, txout_script := Ptr p script\<rparr>,
                     counter + len, h1)
             })
       })"

definition get_single_op_item :: "buf \<Rightarrow> op_item_st \<Rightarrow> u64 \<Rightarrow> heap \<Rightarrow> (int \<times> op_item_st \<times> u64 \<times> heap) option"
  where
  "get_single_op_item buffer st cnt h =
    (case buffer of None \<Rightarrow> Some (-1, st, cnt, h)
     | Some b \<Rightarrow> do {
         (ret, len, counter) \<leftarrow> read_len b 0;
         if ret = -1 then Some (-1, zero_op_item, cnt, h)
         else (case malloc len h of
             (None, h1) \<Rightarrow> Some (-1, zero_op_item, cnt, h1)
           | (Some p, h1) \<Rightarrow> do {
               item \<leftarrow> rd (unat len) (adv counter b);
               Some (0, st\<lparr>op_item_len := len, op_item := Ptr p item\<rparr>, counter + len, h1)
             })
       })"

section \<open>Arrays of structures\<close>

text \<open>The loop that fills an array: the rounds left, the index \<^verbatim>\<open>i\<close>, the array, the local
  structure and its length, the counter.  It stops at the first structure that does not parse,
  with return code -3 and the index in the out parameter.\<close>

type_synonym 'a decoder = "buf \<Rightarrow> 'a \<Rightarrow> u64 \<Rightarrow> heap \<Rightarrow> (int \<times> 'a \<times> u64 \<times> heap) option"

fun item_loop :: "'a decoder \<Rightarrow> byte list \<Rightarrow> nat \<Rightarrow> nat \<Rightarrow> 'a list \<Rightarrow> 'a \<Rightarrow> u64 \<Rightarrow> u64 \<Rightarrow> heap
    \<Rightarrow> (int \<times> nat \<times> 'a list \<times> u64 \<times> heap) option" where
  "item_loop get b 0 i arr st each counter h = Some (0, i, arr, counter, h)"
| "item_loop get b (Suc k) i arr st each counter h = do {
     (ret, st', each', h') \<leftarrow> get (Some (adv counter b)) st each h;
     if ret \<noteq> 0 \<or> each' = 0 then Some (-3, i, arr, counter, h')
     else do {
       arr' \<leftarrow> upd_ub i st' arr;
       item_loop get b k (Suc i) arr' st' each' (counter + each') h'
     }
   }"

text \<open>The out parameters are the counter, the list and the length, with the values they have
  before the call.  An array of \<^verbatim>\<open>n * sizeof\<close> bytes, a product of 64 bits, has room for
  that many bytes divided by the size of a structure.\<close>

definition init_inputs :: "buf \<Rightarrow> u64 \<Rightarrow> u64 \<Rightarrow> spc_input list ptr \<Rightarrow> u64 \<Rightarrow> heap
    \<Rightarrow> (int \<times> u64 \<times> spc_input list ptr \<times> u64 \<times> heap) option" where
  "init_inputs buffer buffer_len cnt lst len h =
    (case buffer of None \<Rightarrow> Some (-1, cnt, lst, len, h)
     | Some b \<Rightarrow>
       if buffer_len < 6 then Some (-1, cnt, lst, len, h)
       else do {
         (ret, inputs_num, counter_len) \<leftarrow> get_inputs_counter (Some b) 0 0;
         if ret \<noteq> 0 then Some (-1, 0, NULL, len, h)
         else if buffer_len < inputs_num * (32 + 4 + 1 + 4) then Some (-1, 0, NULL, len, h)
         else (case malloc (inputs_num * 56) h of
             (None, h1) \<Rightarrow> Some (-2, 0, NULL, len, h1)
           | (Some p, h1) \<Rightarrow> do {
               (ret, i, arr, counter, h2) \<leftarrow>
                 item_loop get_single_input b (unat inputs_num) 0
                   (replicate (unat (inputs_num * 56) div 56) zero_input) zero_input 0 (ucast counter_len) h1;
               if ret \<noteq> 0 then Some (-3, word_of_nat i, Ptr p arr, len, h2)
               else Some (0, inputs_num, Ptr p arr, counter, h2)
             })
       })"

definition init_outputs :: "buf \<Rightarrow> u64 \<Rightarrow> u64 \<Rightarrow> spc_output list ptr \<Rightarrow> u64 \<Rightarrow> heap
    \<Rightarrow> (int \<times> u64 \<times> spc_output list ptr \<times> u64 \<times> heap) option" where
  "init_outputs buffer buffer_len cnt lst len h =
    (case buffer of None \<Rightarrow> Some (-1, cnt, lst, len, h)
     | Some b \<Rightarrow>
       if buffer_len < 6 then Some (-1, cnt, lst, len, h)
       else do {
         (ret, outputs_num, counter_len) \<leftarrow> get_outputs_counter (Some b) 0 0;
         if ret \<noteq> 0 then Some (-1, 0, NULL, len, h)
         else if buffer_len < outputs_num * (8 + 1) then Some (-1, 0, NULL, len, h)
         else (case malloc (outputs_num * 24) h of
             (None, h1) \<Rightarrow> Some (-2, 0, NULL, len, h1)
           | (Some p, h1) \<Rightarrow> do {
               (ret, i, arr, counter, h2) \<leftarrow>
                 item_loop get_single_output b (unat outputs_num) 0
                   (replicate (unat (outputs_num * 24) div 24) zero_output) zero_output 0 (ucast counter_len) h1;
               if ret \<noteq> 0 then Some (-3, word_of_nat i, Ptr p arr, len, h2)
               else Some (0, outputs_num, Ptr p arr, counter, h2)
             })
       })"

definition init_single_witness :: "buf \<Rightarrow> u64 \<Rightarrow> spc_witness \<Rightarrow> u64 \<Rightarrow> heap
    \<Rightarrow> (int \<times> spc_witness \<times> u64 \<times> heap) option" where
  "init_single_witness buffer buffer_len st len h =
    (case buffer of None \<Rightarrow> Some (-1, st, len, h)
     | Some b \<Rightarrow>
       if buffer_len = 0 then Some (-1, st, len, h)
       else do {
         label_len \<leftarrow> nth_ub 0 b;
         if label_len \<noteq> 0xfe then Some (-1, st, len, h)
         else do {
           label \<leftarrow> rd 4 (adv 1 b);
           if le_u32 label \<noteq> 0xffffffff then Some (-1, st, len, h)
           else do {
             val \<leftarrow> rd 8 (adv 5 b);
             let st = st\<lparr>wit_value := le_u64 val\<rparr>;
             version \<leftarrow> rd 2 (adv 13 b);
             if le_u16 version \<noteq> 0 then Some (-1, st, len, h)
             else do {
               let st = st\<lparr>wit_version := le_u16 version\<rparr>;
               (ret, op_items_num, counter_len) \<leftarrow> get_op_items_counter (Some (adv 15 b)) 0 0;
               if ret \<noteq> 0 then Some (-1, st\<lparr>op_items_counter := 0, op_items_list := NULL\<rparr>, len, h)
               else (case malloc (op_items_num * 16) h of
                   (None, h1) \<Rightarrow> Some (-2, st\<lparr>op_items_counter := 0, op_items_list := NULL\<rparr>, len, h1)
                 | (Some p, h1) \<Rightarrow> do {
                     (ret, i, arr, counter, h2) \<leftarrow>
                       item_loop get_single_op_item b (unat op_items_num) 0
                         (replicate (unat (op_items_num * 16) div 16) zero_op_item) zero_op_item 0
                         (15 + ucast counter_len) h1;
                     if ret \<noteq> 0
                     then Some (-3, st\<lparr>op_items_counter := word_of_nat i, op_items_list := Ptr p arr\<rparr>, len, h2)
                     else Some (0, st\<lparr>op_items_counter := op_items_num, op_items_list := Ptr p arr\<rparr>, counter, h2)
                   })
             }
           }
         }
       })"

text \<open>The loop of \<^verbatim>\<open>init_witnesses\<close> also stops when the counter has passed the end of the
  buffer; the witness read last is then in the array but not counted.\<close>

fun witness_loop :: "byte list \<Rightarrow> u64 \<Rightarrow> nat \<Rightarrow> nat \<Rightarrow> spc_witness list \<Rightarrow> spc_witness \<Rightarrow> u64 \<Rightarrow> u64 \<Rightarrow> heap
    \<Rightarrow> (int \<times> nat \<times> spc_witness list \<times> u64 \<times> heap) option" where
  "witness_loop b buffer_len 0 i arr st each counter h = Some (0, i, arr, counter, h)"
| "witness_loop b buffer_len (Suc k) i arr st each counter h = do {
     (ret, st', each', h') \<leftarrow> init_single_witness (Some (adv counter b)) (buffer_len - counter) st each h;
     if ret \<noteq> 0 then Some (-3, i, arr, counter, h')
     else do {
       arr' \<leftarrow> upd_ub i st' arr;
       if buffer_len < counter + each' then Some (-3, i, arr', counter + each', h')
       else witness_loop b buffer_len k (Suc i) arr' st' each' (counter + each') h'
     }
   }"

definition init_witnesses :: "buf \<Rightarrow> u64 \<Rightarrow> u64 \<Rightarrow> spc_witness list ptr \<Rightarrow> u64 \<Rightarrow> heap
    \<Rightarrow> (int \<times> u64 \<times> spc_witness list ptr \<times> u64 \<times> heap) option" where
  "init_witnesses buffer buffer_len cnt lst len h =
    (case buffer of None \<Rightarrow> Some (-1, cnt, lst, len, h)
     | Some b \<Rightarrow>
       if buffer_len < cnt then Some (-1, cnt, NULL, len, h)
       else (case malloc (cnt * 26) h of
           (None, h1) \<Rightarrow> Some (-2, cnt, NULL, len, h1)
         | (Some p, h1) \<Rightarrow> do {
             (ret, i, arr, counter, h2) \<leftarrow>
               witness_loop b buffer_len (unat cnt) 0
                 (replicate (unat (cnt * 26) div 26) zero_witness) zero_witness 0 0 h1;
             if ret \<noteq> 0 then Some (-3, word_of_nat i, Ptr p arr, len, h2)
             else Some (0, cnt, Ptr p arr, counter, h2)
           }))"

section \<open>Freeing\<close>

text \<open>The loop of \<^verbatim>\<open>free_inputs\<close> and its copies: the script of a structure is freed when its
  length is not zero.\<close>

fun free_loop :: "('a \<Rightarrow> u64) \<Rightarrow> ('a \<Rightarrow> byte list ptr) \<Rightarrow> nat \<Rightarrow> nat \<Rightarrow> 'a list ptr \<Rightarrow> heap \<Rightarrow> heap option"
  where
  "free_loop lenf ptrf 0 i lst h = Some h"
| "free_loop lenf ptrf (Suc k) i lst h = do {
     arr \<leftarrow> deref lst h;
     st \<leftarrow> nth_ub i arr;
     if lenf st = 0 then free_loop lenf ptrf k (Suc i) lst h
     else do {
       h' \<leftarrow> free (ptrf st) h;
       free_loop lenf ptrf k (Suc i) lst h'
     }
   }"

definition free_inputs :: "spc_input list ptr \<Rightarrow> u64 \<Rightarrow> heap \<Rightarrow> heap option" where
  "free_inputs lst cnt h =
    (if lst = NULL then Some h
     else do {
       h' \<leftarrow> free_loop txin_script_len txin_script (unat cnt) 0 lst h;
       free lst h'
     })"

definition free_outputs :: "spc_output list ptr \<Rightarrow> u64 \<Rightarrow> heap \<Rightarrow> heap option" where
  "free_outputs lst cnt h =
    (if lst = NULL then Some h
     else do {
       h' \<leftarrow> free_loop txout_script_len txout_script (unat cnt) 0 lst h;
       free lst h'
     })"

definition free_single_witness :: "spc_witness \<Rightarrow> heap \<Rightarrow> heap option" where
  "free_single_witness st h = do {
     h' \<leftarrow> free_loop op_item_len op_item (unat (op_items_counter st)) 0 (op_items_list st) h;
     free (op_items_list st) h'
   }"

fun free_witness_loop :: "nat \<Rightarrow> nat \<Rightarrow> spc_witness list ptr \<Rightarrow> heap \<Rightarrow> heap option" where
  "free_witness_loop 0 i lst h = Some h"
| "free_witness_loop (Suc k) i lst h = do {
     arr \<leftarrow> deref lst h;
     st \<leftarrow> nth_ub i arr;
     h' \<leftarrow> free_single_witness st h;
     free_witness_loop k (Suc i) lst h'
   }"

definition free_witnesses :: "spc_witness list ptr \<Rightarrow> u64 \<Rightarrow> heap \<Rightarrow> heap option" where
  "free_witnesses lst cnt h =
    (if lst = NULL then Some h
     else do {
       h' \<leftarrow> free_witness_loop (unat cnt) 0 lst h;
       free lst h'
     })"

section \<open>The whole transaction\<close>

definition label_check :: "byte list"
  where "label_check = [0x45, 0x50, 0x54, 0x46, 0xff]"

text \<open>The three early returns after each list, as in the code: the parse error counts only when
  it left a non-empty list, and the counter must stay inside the buffer.\<close>

definition init_tx_lists :: "byte list \<Rightarrow> u64 \<Rightarrow> spc_tx \<Rightarrow> u64 \<Rightarrow> heap \<Rightarrow> ((spc_tx \<times> u64) option \<times> heap) option"
  where
  "init_tx_lists b buffer_len tx counter h = do {
     (ret, ic, il, inputs_len, h1) \<leftarrow>
       init_inputs (Some (adv counter b)) (buffer_len - counter) (inputs_counter tx) (inputs_list tx) 0 h;
     let tx = tx\<lparr>inputs_counter := ic, inputs_list := il\<rparr>;
     if ret \<noteq> 0 \<and> ic \<noteq> 0 \<and> il \<noteq> NULL then do { h2 \<leftarrow> free_inputs il ic h1; Some (None, h2) }
     else do {
       let counter = counter + inputs_len;
       if buffer_len \<le> counter then do { h2 \<leftarrow> free_inputs il ic h1; Some (None, h2) }
       else do {
         (ret, oc, ol, outputs_len, h3) \<leftarrow>
           init_outputs (Some (adv counter b)) (buffer_len - counter) (outputs_counter tx) (outputs_list tx) 0 h1;
         let tx = tx\<lparr>outputs_counter := oc, outputs_list := ol\<rparr>;
         if ret \<noteq> 0 \<and> oc \<noteq> 0 \<and> ol \<noteq> NULL then do {
           h4 \<leftarrow> free_outputs ol oc h3; h5 \<leftarrow> free_inputs il ic h4; Some (None, h5)
         }
         else do {
           let counter = counter + outputs_len;
           if buffer_len \<le> counter then do {
             h4 \<leftarrow> free_inputs il ic h3; h5 \<leftarrow> free_outputs ol oc h4; Some (None, h5)
           }
           else do {
             (ret, wc, wl, witnesses_len, h6) \<leftarrow>
               init_witnesses (Some (adv counter b)) (buffer_len - counter) ic (witnesses_list tx) 0 h3;
             let tx = tx\<lparr>witnesses_counter := wc, witnesses_list := wl\<rparr>;
             if ret \<noteq> 0 \<and> wc \<noteq> 0 \<and> wl \<noteq> NULL \<or> wc \<noteq> ic then do {
               h7 \<leftarrow> free_witnesses wl wc h6; h8 \<leftarrow> free_outputs ol oc h7; h9 \<leftarrow> free_inputs il ic h8;
               Some (None, h9)
             }
             else do {
               let counter = counter + witnesses_len;
               if buffer_len \<le> counter then do {
                 h7 \<leftarrow> free_inputs il ic h6; h8 \<leftarrow> free_outputs ol oc h7; h9 \<leftarrow> free_witnesses wl wc h8;
                 Some (None, h9)
               }
               else Some (Some (tx, counter), h6)
             }
           }
         }
       }
     }
   }"

definition init_tx :: "buf \<Rightarrow> u64 \<Rightarrow> spc_tx \<Rightarrow> heap \<Rightarrow> (int \<times> spc_tx \<times> heap) option" where
  "init_tx buffer buffer_len out h =
    (case buffer of None \<Rightarrow> Some (-1, out, h)
     | Some b \<Rightarrow>
       if buffer_len = 0 then Some (-1, out, h)
       else do {
         label \<leftarrow> rd 5 b;
         if label_check \<noteq> label then Some (-1, out, h)
         else do {
           pversion \<leftarrow> nth_ub 0 (adv 5 b);
           if pversion \<noteq> 0 then Some (-1, out, h)
           else do {
             nv \<leftarrow> rd 4 (adv 6 b);
             mark \<leftarrow> nth_ub 0 (adv 10 b);
             if mark \<noteq> 0 then Some (-1, out, h)
             else do {
               flag \<leftarrow> nth_ub 0 (adv 11 b);
               if flag \<noteq> 1 then Some (-1, out, h)
               else if buffer_len \<le> 12 then Some (-1, out, h)
               else do {
                 let tx = zero_tx\<lparr>partial_label := label, partial_version := pversion,
                            nversion := le_u32 nv, segwit_flag := flag\<rparr>;
                 (res, h1) \<leftarrow> init_tx_lists b buffer_len tx 12 h;
                 (case res of None \<Rightarrow> Some (-1, out, h1)
                  | Some (tx, counter) \<Rightarrow> do {
                      lt \<leftarrow> rd 4 (adv counter b);
                      let tx = tx\<lparr>lock_time := le_u32 lt\<rparr>;
                      if buffer_len < counter + 4 then do {
                        h2 \<leftarrow> free_inputs (inputs_list tx) (inputs_counter tx) h1;
                        h3 \<leftarrow> free_outputs (outputs_list tx) (outputs_counter tx) h2;
                        h4 \<leftarrow> free_witnesses (witnesses_list tx) (witnesses_counter tx) h3;
                        Some (-1, out, h4)
                      }
                      else Some (0, tx, h1)
                    })
               }
             }
           }
         }
       })"

definition free_tx :: "spc_tx \<Rightarrow> heap \<Rightarrow> heap option" where
  "free_tx tx h = do {
     h1 \<leftarrow> (if inputs_list tx \<noteq> NULL then free_inputs (inputs_list tx) (inputs_counter tx) h else Some h);
     h2 \<leftarrow> (if outputs_list tx \<noteq> NULL then free_outputs (outputs_list tx) (outputs_counter tx) h1 else Some h1);
     (if witnesses_list tx \<noteq> NULL then free_witnesses (witnesses_list tx) (witnesses_counter tx) h2 else Some h2)
   }"

end
