(* ===== verification/Serialize.thy ===== *)
theory Serialize
imports Deserialize
begin

text \<open>
  \<^verbatim>\<open>Spacechain_os_part/spc/spcserialize.c\<close>: the length of the serialized transaction and its
  bytes.  The functions on one structure are separate, as in the code; the loops over arrays and
  the block that writes a variable length integer through a temporary have the same text wherever
  they occur and are one definition each.
\<close>

section \<open>Lengths\<close>

text \<open>The four lengths \<^verbatim>\<open>gen_varint_len\<close> can answer, as the code tests them.\<close>

definition known_len :: "byte \<Rightarrow> bool"
  where "known_len v \<longleftrightarrow> v = 1 \<or> v = 3 \<or> v = 5 \<or> v = 9"

definition get_single_input_hex_len :: "spc_input \<Rightarrow> u64 \<Rightarrow> heap \<Rightarrow> (int \<times> u64) option" where
  "get_single_input_hex_len st out h =
    (let counter = 32 + 4 + 4 + txin_script_len st; v = gen_varint_len (txin_script_len st)
     in if known_len v then Some (0, counter + ucast v) else Some (-1, out))"

definition get_single_output_hex_len :: "spc_output \<Rightarrow> u64 \<Rightarrow> heap \<Rightarrow> (int \<times> u64) option" where
  "get_single_output_hex_len st out h =
    (let counter = 8 + txout_script_len st; v = gen_varint_len (txout_script_len st)
     in if known_len v then Some (0, counter + ucast v) else Some (-1, out))"

definition get_single_op_item_hex_len :: "op_item_st \<Rightarrow> u64 \<Rightarrow> heap \<Rightarrow> (int \<times> u64) option" where
  "get_single_op_item_hex_len st out h =
    (let counter = op_item_len st; v = gen_varint_len (op_item_len st)
     in if known_len v then Some (0, counter + ucast v) else Some (-1, out))"

text \<open>The loop that adds the lengths of the structures of an array.\<close>

type_synonym 'a sizer = "'a \<Rightarrow> u64 \<Rightarrow> heap \<Rightarrow> (int \<times> u64) option"

fun hex_len_loop :: "'a sizer \<Rightarrow> nat \<Rightarrow> nat \<Rightarrow> 'a list ptr \<Rightarrow> heap \<Rightarrow> u64 \<Rightarrow> (int \<times> u64) option" where
  "hex_len_loop f 0 i lst h counter = Some (0, counter)"
| "hex_len_loop f (Suc k) i lst h counter = do {
     arr \<leftarrow> deref lst h;
     st \<leftarrow> nth_ub i arr;
     (ret, l) \<leftarrow> f st 0 h;
     if ret = -1 then Some (-1, counter) else hex_len_loop f k (Suc i) lst h (counter + l)
   }"

definition get_inputs_hex_len :: "spc_input list ptr \<Rightarrow> u64 \<Rightarrow> u64 \<Rightarrow> heap \<Rightarrow> (int \<times> u64) option" where
  "get_inputs_hex_len lst cnt out h =
    (if lst = NULL \<or> cnt = 0 then Some (-1, out)
     else if known_len (gen_varint_len cnt) then do {
       (ret, counter) \<leftarrow> hex_len_loop get_single_input_hex_len (unat cnt) 0 lst h (ucast (gen_varint_len cnt));
       if ret = -1 then Some (-1, out) else Some (0, counter)
     }
     else Some (-1, out))"

definition get_outputs_hex_len :: "spc_output list ptr \<Rightarrow> u64 \<Rightarrow> u64 \<Rightarrow> heap \<Rightarrow> (int \<times> u64) option" where
  "get_outputs_hex_len lst cnt out h =
    (if lst = NULL \<or> cnt = 0 then Some (-1, out)
     else if known_len (gen_varint_len cnt) then do {
       (ret, counter) \<leftarrow> hex_len_loop get_single_output_hex_len (unat cnt) 0 lst h (ucast (gen_varint_len cnt));
       if ret = -1 then Some (-1, out) else Some (0, counter)
     }
     else Some (-1, out))"

definition get_single_witness_hex_len :: "spc_witness \<Rightarrow> u64 \<Rightarrow> heap \<Rightarrow> (int \<times> u64) option" where
  "get_single_witness_hex_len st out h =
    (if known_len (gen_varint_len (op_items_counter st)) then do {
       (ret, counter) \<leftarrow> hex_len_loop get_single_op_item_hex_len (unat (op_items_counter st)) 0 (op_items_list st) h
         (ucast (gen_varint_len (op_items_counter st)));
       if ret = -1 then Some (-1, out) else Some (0, counter)
     }
     else Some (-1, out))"

definition get_witnesses_hex_len :: "spc_witness list ptr \<Rightarrow> u64 \<Rightarrow> u64 \<Rightarrow> heap \<Rightarrow> (int \<times> u64) option" where
  "get_witnesses_hex_len lst cnt out h =
    (if lst = NULL \<or> cnt = 0 then Some (-1, out)
     else do {
       (ret, counter) \<leftarrow> hex_len_loop get_single_witness_hex_len (unat cnt) 0 lst h 0;
       if ret = -1 then Some (-1, out) else Some (0, counter)
     })"

definition get_tx_hex_len :: "spc_tx \<Rightarrow> u64 \<Rightarrow> heap \<Rightarrow> (int \<times> u64) option" where
  "get_tx_hex_len tx out h = do {
     let counter = 4 + 2;
     (ret, inputs_len) \<leftarrow> get_inputs_hex_len (inputs_list tx) (inputs_counter tx) 0 h;
     if ret \<noteq> 0 then Some (-1, out)
     else do {
       (ret, outputs_len) \<leftarrow> get_outputs_hex_len (outputs_list tx) (outputs_counter tx) 0 h;
       if ret \<noteq> 0 then Some (-1, out)
       else do {
         (ret, witnesses_len) \<leftarrow> get_witnesses_hex_len (witnesses_list tx) (witnesses_counter tx) 0 h;
         if ret \<noteq> 0 then Some (-1, out)
         else Some (0, counter + inputs_len + outputs_len + witnesses_len + 4)
       }
     }
   }"

section \<open>Bytes\<close>

text \<open>\<^verbatim>\<open>memcpy(dst, p, n)\<close>: nothing is read when \<^verbatim>\<open>n\<close> is 0.\<close>

definition mem_read :: "byte list ptr \<Rightarrow> nat \<Rightarrow> heap \<Rightarrow> byte list option" where
  "mem_read p n h = (if n = 0 then Some [] else do { bs \<leftarrow> deref p h; rd n bs })"

text \<open>A variable length integer written at \<^verbatim>\<open>buffer + counter\<close> through a temporary block of
  its length, freed on both paths: return code, buffer, counter and heap.\<close>

definition put_varint :: "u64 \<Rightarrow> u64 \<Rightarrow> byte list \<Rightarrow> heap \<Rightarrow> (int \<times> byte list \<times> u64 \<times> heap) option" where
  "put_varint n counter b h =
    (let varint_len = gen_varint_len n
     in case malloc (ucast varint_len) h of
         (None, h1) \<Rightarrow> Some (-1, b, counter, h1)
       | (Some p, h1) \<Rightarrow> do {
           (ret, v) \<leftarrow> gen_varint n varint_len (Some (replicate (unat varint_len) 0));
           if ret = -1 then do { h2 \<leftarrow> free_blk p h1; Some (-1, b, counter, h2) }
           else do {
             bytes \<leftarrow> v;
             b' \<leftarrow> wr (unat counter) bytes b;
             h2 \<leftarrow> free_blk p h1;
             Some (0, b', counter + ucast varint_len, h2)
           }
         })"

text \<open>A writer gets the bytes from the pointer on and returns them written to, with the return
  code, the length written (an out parameter) and the heap.\<close>

type_synonym 'a writer = "'a \<Rightarrow> byte list \<Rightarrow> u64 \<Rightarrow> heap \<Rightarrow> (int \<times> byte list \<times> u64 \<times> heap) option"

definition serialize_single_input :: "spc_input writer" where
  "serialize_single_input st b out h = do {
     hash \<leftarrow> rd 32 (prev_tx_hash st);
     b \<leftarrow> wr 0 hash b;
     index \<leftarrow> rd 4 (prev_tx_index st);
     b \<leftarrow> wr 32 index b;
     (ret, b, counter, h) \<leftarrow> put_varint (txin_script_len st) 36 b h;
     if ret = -1 then Some (-1, b, out, h)
     else do {
       script \<leftarrow> mem_read (txin_script st) (unat (txin_script_len st)) h;
       b \<leftarrow> wr (unat counter) script b;
       let counter = counter + txin_script_len st;
       seq \<leftarrow> rd 4 (sequence_no st);
       b \<leftarrow> wr (unat counter) seq b;
       Some (0, b, counter + 4, h)
     }
   }"

definition serialize_single_output :: "spc_output writer" where
  "serialize_single_output st b out h = do {
     val \<leftarrow> rd 8 (txout_value st);
     b \<leftarrow> wr 0 val b;
     (ret, b, counter, h) \<leftarrow> put_varint (txout_script_len st) 8 b h;
     if ret = -1 then Some (-1, b, out, h)
     else do {
       script \<leftarrow> mem_read (txout_script st) (unat (txout_script_len st)) h;
       b \<leftarrow> wr (unat counter) script b;
       Some (0, b, counter + txout_script_len st, h)
     }
   }"

definition serialize_single_op_item :: "op_item_st writer" where
  "serialize_single_op_item st b out h = do {
     (ret, b, counter, h) \<leftarrow> put_varint (op_item_len st) 0 b h;
     if ret = -1 then Some (-1, b, out, h)
     else do {
       item \<leftarrow> mem_read (op_item st) (unat (op_item_len st)) h;
       b \<leftarrow> wr (unat counter) item b;
       Some (0, b, counter + op_item_len st, h)
     }
   }"

text \<open>The loop that writes the structures of an array one behind the other.\<close>

fun serialize_loop :: "'a writer \<Rightarrow> nat \<Rightarrow> nat \<Rightarrow> 'a list ptr \<Rightarrow> byte list \<Rightarrow> u64 \<Rightarrow> heap
    \<Rightarrow> (int \<times> byte list \<times> u64 \<times> heap) option" where
  "serialize_loop w 0 i lst b counter h = Some (0, b, counter, h)"
| "serialize_loop w (Suc k) i lst b counter h = do {
     arr \<leftarrow> deref lst h;
     st \<leftarrow> nth_ub i arr;
     (ret, tail, l, h') \<leftarrow> w st (adv counter b) 0 h;
     let b' = splice counter b tail;
     if ret = 0 then serialize_loop w k (Suc i) lst b' (counter + l) h'
     else Some (-1, b', counter, h')
   }"

definition serialize_inputs :: "spc_input list ptr \<Rightarrow> u64 \<Rightarrow> byte list \<Rightarrow> u64 \<Rightarrow> heap
    \<Rightarrow> (int \<times> byte list \<times> u64 \<times> heap) option" where
  "serialize_inputs lst cnt b out h =
    (if lst = NULL \<or> cnt = 0 then Some (-1, b, out, h)
     else do {
       (ret, b, counter, h) \<leftarrow> put_varint cnt 0 b h;
       if ret = -1 then Some (-1, b, out, h)
       else do {
         (ret, b, counter, h) \<leftarrow> serialize_loop serialize_single_input (unat cnt) 0 lst b counter h;
         if ret = 0 then Some (0, b, counter, h) else Some (-1, b, out, h)
       }
     })"

definition serialize_outputs :: "spc_output list ptr \<Rightarrow> u64 \<Rightarrow> byte list \<Rightarrow> u64 \<Rightarrow> heap
    \<Rightarrow> (int \<times> byte list \<times> u64 \<times> heap) option" where
  "serialize_outputs lst cnt b out h =
    (if lst = NULL \<or> cnt = 0 then Some (-1, b, out, h)
     else do {
       (ret, b, counter, h) \<leftarrow> put_varint cnt 0 b h;
       if ret = -1 then Some (-1, b, out, h)
       else do {
         (ret, b, counter, h) \<leftarrow> serialize_loop serialize_single_output (unat cnt) 0 lst b counter h;
         if ret = 0 then Some (0, b, counter, h) else Some (-1, b, out, h)
       }
     })"

definition serialize_single_witness :: "spc_witness writer" where
  "serialize_single_witness st b out h = do {
     (ret, b, counter, h) \<leftarrow> put_varint (op_items_counter st) 0 b h;
     if ret = -1 then Some (-1, b, out, h)
     else do {
       (ret, b, counter, h) \<leftarrow>
         serialize_loop serialize_single_op_item (unat (op_items_counter st)) 0 (op_items_list st) b counter h;
       if ret = 0 then Some (0, b, counter, h) else Some (-1, b, out, h)
     }
   }"

definition serialize_witnesses :: "spc_witness list ptr \<Rightarrow> u64 \<Rightarrow> byte list \<Rightarrow> u64 \<Rightarrow> heap
    \<Rightarrow> (int \<times> byte list \<times> u64 \<times> heap) option" where
  "serialize_witnesses lst cnt b out h =
    (if lst = NULL \<or> cnt = 0 then Some (-1, b, out, h)
     else do {
       (ret, b, counter, h) \<leftarrow> serialize_loop serialize_single_witness (unat cnt) 0 lst b 0 h;
       if ret = 0 then Some (0, b, counter, h) else Some (-1, b, out, h)
     })"

definition serialize_tx :: "spc_tx \<Rightarrow> buf \<Rightarrow> u64 \<Rightarrow> heap \<Rightarrow> (int \<times> buf \<times> u64 \<times> heap) option" where
  "serialize_tx tx buffer out h =
    (case buffer of None \<Rightarrow> Some (-1, buffer, out, h)
     | Some b \<Rightarrow> do {
         b \<leftarrow> wr 0 (u32_le (nversion tx)) b;
         b \<leftarrow> wr 4 [0] b;
         b \<leftarrow> wr 5 [segwit_flag tx] b;
         let counter = 6;
         (ret, tail, l, h) \<leftarrow> serialize_inputs (inputs_list tx) (inputs_counter tx) (adv counter b) 0 h;
         let b = splice counter b tail;
         if ret = -1 then Some (-1, Some b, out, h)
         else do {
           let counter = counter + l;
           (ret, tail, l, h) \<leftarrow> serialize_outputs (outputs_list tx) (outputs_counter tx) (adv counter b) 0 h;
           let b = splice counter b tail;
           if ret = -1 then Some (-1, Some b, out, h)
           else do {
             let counter = counter + l;
             (ret, tail, l, h) \<leftarrow> serialize_witnesses (witnesses_list tx) (witnesses_counter tx) (adv counter b) 0 h;
             let b = splice counter b tail;
             if ret = -1 then Some (-1, Some b, out, h)
             else do {
               let counter = counter + l;
               b \<leftarrow> wr (unat counter) (u32_le (lock_time tx)) b;
               Some (0, Some b, counter + 4, h)
             }
           }
         }
       })"

end
