(* ===== verification/Deserialize_Correct.thy ===== *)
theory Deserialize_Correct
imports Deserialize
begin

text \<open>
  The parser of theory \<^verbatim>\<open>Deserialize\<close> against the format of theory \<^verbatim>\<open>Wire_Format\<close>: on
  the encoding of a well-formed partial transaction it succeeds and builds the structures of that
  transaction, each script in a block of its own, and the free functions release all blocks but
  those of empty scripts.  The loop over an array is verified once, against the contract of a
  decoder of one structure (locale \<^verbatim>\<open>item_decoder\<close>), and the loop that frees scripts once,
  against the contract of a structure with one script (locale \<^verbatim>\<open>script_struct\<close>).
\<close>

section \<open>Allocation in sequence\<close>

definition alloc :: "nat \<Rightarrow> heap \<Rightarrow> heap"
  where "alloc k h = h\<lparr>live := live h \<union> {calls h..<calls h + k}, calls := calls h + k\<rparr>"

lemma calls_alloc [heap_simps]: "calls (alloc k h) = calls h + k"
  by (simp add: alloc_def)

lemma live_alloc [heap_simps]: "live (alloc k h) = live h \<union> {calls h..<calls h + k}"
  by (simp add: alloc_def)

lemma no_oom_alloc [simp]: "no_oom (alloc k h) = no_oom h"
  by (simp add: alloc_def)

lemma alloc_0 [heap_simps]: "alloc 0 h = h"
  by (simp add: alloc_def)

lemma alloc_alloc [heap_simps]: "alloc b (alloc a h) = alloc (a + b) h"
  by (simp add: alloc_def ivl_disj_un Un_assoc add.assoc)

lemma malloc_alloc: "no_oom h \<Longrightarrow> malloc sz h = (Some (calls h), alloc 1 h)"
  by (simp add: malloc_no_oom alloc_def)

section \<open>Lengths\<close>

lemma unat_len64: "length xs < 2 ^ 64 \<Longrightarrow> unat (len64 xs) = length xs"
  by (rule unat_of_nat_u64)

lemma adv_app2:
  "\<lbrakk>unat c = length pre; unat d = length xs; length pre + length xs < 2 ^ 64\<rbrakk>
   \<Longrightarrow> adv (c + d) (pre @ xs @ ys) = ys"
  by (simp add: adv_def unat_add_u64)

lemma adv_plus:
  "unat c + unat d < 2 ^ 64 \<Longrightarrow> adv (c + d) b = adv d (adv c b)"
  by (simp add: adv_def unat_add_u64 add.commute)

lemma ucast_ucast_u8: "unat (n :: u64) < 256 \<Longrightarrow> ucast (ucast n :: byte) = n"
  by (rule word_unat_eq_iff [THEN iffD2])
    (simp add: unsigned_ucast_eq unsigned_take_bit_eq take_bit_nat_eq_self)

lemma ucast_ucast_u16: "unat (n :: u64) < 65536 \<Longrightarrow> ucast (ucast n :: u16) = n"
  by (rule word_unat_eq_iff [THEN iffD2])
    (simp add: unsigned_ucast_eq unsigned_take_bit_eq take_bit_nat_eq_self)

lemma ucast_ucast_u32: "unat (n :: u64) < 4294967296 \<Longrightarrow> ucast (ucast n :: u32) = n"
  by (rule word_unat_eq_iff [THEN iffD2])
    (simp add: unsigned_ucast_eq unsigned_take_bit_eq take_bit_nat_eq_self)

lemma read_len_varint:
  assumes "unat c = length pre" "unat n < 2 ^ 32" "length (pre @ varint n @ rest) < 2 ^ 64"
  shows "read_len (pre @ varint n @ rest) c = Some (0, n, c + len64 (varint n))"
proof -
  have c1: "adv (c + 1) (pre @ x # ys) = ys" if "length (x # ys) + length pre < 2 ^ 64" for x ys
    using assms(1) that adv_app2 [of c pre 1 "[x]" ys] by simp
  show ?thesis
    using assms(2)
  proof (cases n rule: varint_cases)
    case one
    then show ?thesis using assms
      by (simp add: read_len_def buf_simps read_varint_len_head word_less_nat_alt unat_ucast_u8 ucast_ucast_u8)
  next
    case three
    then show ?thesis using assms
      by (simp add: read_len_def buf_simps read_varint_len_head c1 read_varint_2 unat_ucast_u16
          wire_simps ucast_ucast_u16)
  next
    case five
    then show ?thesis using assms
      by (simp add: read_len_def buf_simps read_varint_len_head c1 read_varint_4 unat_ucast_u32
          wire_simps ucast_ucast_u32)
  qed simp
qed

lemma get_counter_varint:
  assumes "n \<noteq> 0"
  shows "get_counter (Some (varint n @ rest)) cnt cl = Some (0, n, gen_varint_len n)"
proof -
  have c1: "adv 1 (x # ys) = ys" for x ys by (simp add: adv_def)
  show ?thesis
  proof (cases n rule: varint_cases)
    case one
    moreover from one assms have "ucast n \<noteq> (0 :: byte)"
      by (simp add: word_unat_eq_iff unat_ucast_u8)
    ultimately show ?thesis
      by (simp add: get_counter_def read_varint_len_head word_less_nat_alt unat_ucast_u8 ucast_ucast_u8)
  next
    case three
    then show ?thesis using u64_le_u16 [of n]
      by (simp add: get_counter_def read_varint_len_head c1 read_varint_2 unat_ucast_u16 wire_simps
          flip: u64_le_u16)
  next
    case five
    then show ?thesis
      by (simp add: get_counter_def read_varint_len_head c1 read_varint_4 unat_ucast_u32 wire_simps
          flip: u64_le_u32)
  next
    case nine
    then show ?thesis
      by (simp add: get_counter_def read_varint_len_head c1 read_varint_8 wire_simps)
  qed
qed

lemma adv_len64: "length xs < 2 ^ 64 \<Longrightarrow> adv (len64 xs) (xs @ ys) = ys"
  by (simp add: adv_def unat_len64)

lemma read_len_len64:
  assumes "length (pre @ varint n @ rest) < 2 ^ 64" "unat n < 2 ^ 32"
  shows "read_len (pre @ varint n @ rest) (len64 pre) = Some (0, n, len64 (pre @ varint n))"
  using read_len_varint [of "len64 pre" pre n rest] assms by (simp add: unat_len64)

section \<open>Single structures\<close>

text \<open>The structure the parser builds for a component, the blocks being numbered from
  \<^verbatim>\<open>n\<close>.\<close>

definition mk_input :: "nat \<Rightarrow> txin \<Rightarrow> spc_input" where
  "mk_input n i = \<lparr>prev_tx_hash = ti_hash i, prev_tx_index = ti_index i,
     txin_script_len = len64 (ti_script i), txin_script = Ptr n (ti_script i), sequence_no = ti_sequence i\<rparr>"

definition mk_output :: "nat \<Rightarrow> txout \<Rightarrow> spc_output" where
  "mk_output n p = \<lparr>txout_value = to_value p, txout_script_len = len64 (to_script p),
     txout_script = Ptr n (to_script p)\<rparr>"

definition mk_op_item :: "nat \<Rightarrow> byte list \<Rightarrow> op_item_st" where
  "mk_op_item n x = \<lparr>op_item_len = len64 x, op_item = Ptr n x\<rparr>"

lemma get_single_input_enc:
  assumes ok: "wf_txin i" and no_oom: "no_oom h" and len: "length (enc_txin i @ rest) < 2 ^ 64"
  shows "get_single_input (Some (enc_txin i @ rest)) st cnt h =
    Some (0, mk_input (calls h) i, len64 (enc_txin i), alloc 1 h)"
proof -
  let ?h = "ti_hash i" and ?x = "ti_index i" and ?s = "ti_script i" and ?q = "ti_sequence i"
  let ?n = "len64 ?s" and ?hx = "ti_hash i @ ti_index i"
  define c where "c = len64 (?hx @ varint ?n)"
  have w: "length ?h = 32" "length ?x = 4" "length ?q = 4" "length ?s < 2 ^ 32"
    using ok by (auto simp: wf_txin_def short_blob_def)
  have b: "enc_txin i @ rest = ?hx @ varint ?n @ ?s @ ?q @ rest"
    by (simp add: enc_txin_def blob_def)
  have n: "unat ?n = length ?s" using w by (simp add: unat_len64)
  have l: "length (?hx @ varint ?n @ ?s @ ?q @ rest) < 2 ^ 64" using len unfolding b .
  have "read_len (?hx @ varint ?n @ ?s @ ?q @ rest) (len64 ?hx) = Some (0, ?n, len64 (?hx @ varint ?n))"
    using l w n by (intro read_len_len64) simp_all
  then have r: "read_len (enc_txin i @ rest) 36 = Some (0, ?n, c)"
    using w b by (simp add: c_def)
  have a1: "adv c (enc_txin i @ rest) = ?s @ ?q @ rest"
    using adv_len64 [of "?hx @ varint ?n" "?s @ ?q @ rest"] l b by (simp add: c_def)
  have "adv (len64 (?hx @ varint ?n @ ?s)) (enc_txin i @ rest) = ?q @ rest"
    using adv_len64 [of "?hx @ varint ?n @ ?s" "?q @ rest"] l b by simp
  then have a2: "adv (c + ?n) (enc_txin i @ rest) = ?q @ rest"
    by (simp add: add.assoc c_def)
  have a0: "adv 32 (enc_txin i @ rest) = ?x @ varint ?n @ ?s @ ?q @ rest"
    using w by (simp add: b adv_def)
  have r0: "rd 32 (enc_txin i @ rest) = Some ?h" using w by (simp add: b rd_def)
  have e: "len64 (enc_txin i) = c + ?n + 4"
    using w by (simp add: enc_txin_def blob_def c_def)
  show ?thesis
    using no_oom w
    by (simp add: get_single_input_def r r0 a0 a1 a2 n buf_simps malloc_alloc mk_input_def e Let_def del: append_assoc)
qed

lemma get_single_output_enc:
  assumes ok: "wf_txout p" and no_oom: "no_oom h" and len: "length (enc_txout p @ rest) < 2 ^ 64"
  shows "get_single_output (Some (enc_txout p @ rest)) st cnt h =
    Some (0, mk_output (calls h) p, len64 (enc_txout p), alloc 1 h)"
proof -
  let ?v = "to_value p" and ?s = "to_script p"
  let ?n = "len64 ?s"
  define c where "c = len64 (?v @ varint ?n)"
  have w: "length ?v = 8" "length ?s < 2 ^ 32"
    using ok by (auto simp: wf_txout_def short_blob_def)
  have b: "enc_txout p @ rest = ?v @ varint ?n @ ?s @ rest"
    by (simp add: enc_txout_def blob_def)
  have n: "unat ?n = length ?s" using w by (simp add: unat_len64)
  have l: "length (?v @ varint ?n @ ?s @ rest) < 2 ^ 64" using len unfolding b .
  have "read_len (?v @ varint ?n @ ?s @ rest) (len64 ?v) = Some (0, ?n, len64 (?v @ varint ?n))"
    using l w n by (intro read_len_len64) simp_all
  then have r: "read_len (enc_txout p @ rest) 8 = Some (0, ?n, c)"
    using w b by (simp add: c_def)
  have a1: "adv c (enc_txout p @ rest) = ?s @ rest"
    using adv_len64 [of "?v @ varint ?n" "?s @ rest"] l b by (simp add: c_def)
  have r0: "rd 8 (enc_txout p @ rest) = Some ?v" using w by (simp add: b rd_def)
  have e: "len64 (enc_txout p) = c + ?n"
    by (simp add: enc_txout_def blob_def c_def)
  show ?thesis
    using no_oom w
    by (simp add: get_single_output_def r r0 a1 n buf_simps malloc_alloc mk_output_def e Let_def del: append_assoc)
qed

lemma get_single_op_item_enc:
  assumes ok: "short_blob x" and no_oom: "no_oom h" and len: "length (blob x @ rest) < 2 ^ 64"
  shows "get_single_op_item (Some (blob x @ rest)) st cnt h =
    Some (0, mk_op_item (calls h) x, len64 (blob x), alloc 1 h)"
proof -
  let ?n = "len64 x"
  have w: "length x < 2 ^ 32" using ok by (simp add: short_blob_def)
  have n: "unat ?n = length x" using w by (simp add: unat_len64)
  have b: "blob x @ rest = varint ?n @ x @ rest" by (simp add: blob_def)
  have l: "length (varint ?n @ x @ rest) < 2 ^ 64" using len unfolding b .
  have r: "read_len (blob x @ rest) 0 = Some (0, ?n, len64 (varint ?n))"
    using read_len_len64 [of "[]" ?n "x @ rest"] l w n b by simp
  have a1: "adv (len64 (varint ?n)) (blob x @ rest) = x @ rest"
    using adv_len64 [of "varint ?n" "x @ rest"] l b by simp
  have e: "len64 (blob x) = len64 (varint ?n) + ?n" by (simp add: blob_def)
  show ?thesis
    using no_oom
    by (simp add: get_single_op_item_def r a1 n buf_simps malloc_alloc mk_op_item_def e Let_def)
qed

section \<open>Arrays\<close>

text \<open>The structures built for a list of components: each takes \<^verbatim>\<open>nb x\<close> blocks.\<close>

fun mks :: "(nat \<Rightarrow> 'x \<Rightarrow> 'a) \<Rightarrow> ('x \<Rightarrow> nat) \<Rightarrow> nat \<Rightarrow> 'x list \<Rightarrow> 'a list" where
  "mks mk nb n [] = []"
| "mks mk nb n (x # xs) = mk n x # mks mk nb (n + nb x) xs"

lemma length_mks [simp]: "length (mks mk nb n xs) = length xs"
  by (induction xs arbitrary: n) simp_all

text \<open>The contract between a decoder of one structure and the loop over an array: on the
  encoding of an acceptable component it succeeds, with the length of the encoding.\<close>

locale item_decoder =
  fixes get :: "'a decoder"
    and enc :: "'x \<Rightarrow> byte list"
    and ok :: "'x \<Rightarrow> bool"
    and mk :: "nat \<Rightarrow> 'x \<Rightarrow> 'a"
  assumes get_enc: "\<lbrakk>ok x; no_oom h; length (enc x @ rest) < 2 ^ 64\<rbrakk> \<Longrightarrow>
      get (Some (enc x @ rest)) st cnt h = Some (0, mk (calls h) x, len64 (enc x), alloc 1 h)"
    and enc_ne: "ok x \<Longrightarrow> enc x \<noteq> []"
begin

lemma item_loop_enc:
  "\<lbrakk>list_all ok xs; no_oom h; length (pre @ concat (map enc xs) @ rest) < 2 ^ 64;
    length done' = i; length xs \<le> length todo\<rbrakk> \<Longrightarrow>
   item_loop get (pre @ concat (map enc xs) @ rest) (length xs) i (done' @ todo) st each (len64 pre) h =
   Some (0, i + length xs, done' @ mks mk (\<lambda>_. 1) (calls h) xs @ drop (length xs) todo,
         len64 (pre @ concat (map enc xs)), alloc (length xs) h)"
proof (induction xs arbitrary: pre done' todo i st each h)
  case (Cons x xs)
  then obtain t todo' where todo: "todo = t # todo'" by (cases todo) auto
  let ?b = "pre @ enc x @ concat (map enc xs) @ rest"
  have a: "adv (len64 pre) ?b = enc x @ concat (map enc xs) @ rest"
    using Cons.prems by (intro adv_len64) simp
  have g: "get (Some (enc x @ concat (map enc xs) @ rest)) st each h =
      Some (0, mk (calls h) x, len64 (enc x), alloc 1 h)"
    using Cons.prems by (intro get_enc) simp_all
  have ne: "len64 (enc x) \<noteq> (0 :: u64)"
  proof
    assume "len64 (enc x) = (0 :: u64)"
    then have "length (enc x) = 0" using unat_len64 [of "enc x"] Cons.prems by simp
    then show False using enc_ne [of x] Cons.prems by simp
  qed
  have "item_loop get ?b (length xs) (Suc i) (done' @ mk (calls h) x # todo') (mk (calls h) x)
      (len64 (enc x)) (len64 pre + len64 (enc x)) (alloc 1 h) =
    item_loop get ((pre @ enc x) @ concat (map enc xs) @ rest) (length xs) (Suc i)
      ((done' @ [mk (calls h) x]) @ todo') (mk (calls h) x) (len64 (enc x)) (len64 (pre @ enc x)) (alloc 1 h)"
    by simp
  also have "\<dots> = Some (0, Suc i + length xs,
      (done' @ [mk (calls h) x]) @ mks mk (\<lambda>_. 1) (calls (alloc 1 h)) xs @ drop (length xs) todo',
      len64 ((pre @ enc x) @ concat (map enc xs)), alloc (length xs) (alloc 1 h))"
    using Cons.prems todo by (intro Cons.IH) simp_all
  finally show ?case
    using a g ne Cons.prems(4) by (simp add: todo buf_simps heap_simps)
qed (simp add: heap_simps)

end

interpretation input_dec: item_decoder get_single_input enc_txin wf_txin mk_input
proof
  show "enc_txin x \<noteq> []" for x by (simp add: enc_txin_def blob_def)
qed (rule get_single_input_enc)

interpretation output_dec: item_decoder get_single_output enc_txout wf_txout mk_output
proof
  show "enc_txout x \<noteq> []" for x by (simp add: enc_txout_def blob_def)
qed (rule get_single_output_enc)

interpretation op_item_dec: item_decoder get_single_op_item blob short_blob mk_op_item
proof
  show "blob x \<noteq> []" for x by (simp add: blob_def)
qed (rule get_single_op_item_enc)

abbreviation mk_inputs :: "nat \<Rightarrow> txin list \<Rightarrow> spc_input list"
  where "mk_inputs \<equiv> mks mk_input (\<lambda>_. 1)"

abbreviation mk_outputs :: "nat \<Rightarrow> txout list \<Rightarrow> spc_output list"
  where "mk_outputs \<equiv> mks mk_output (\<lambda>_. 1)"

abbreviation mk_op_items :: "nat \<Rightarrow> byte list list \<Rightarrow> op_item_st list"
  where "mk_op_items \<equiv> mks mk_op_item (\<lambda>_. 1)"

definition mk_witness :: "nat \<Rightarrow> witness \<Rightarrow> spc_witness" where
  "mk_witness n w = \<lparr>wit_value = w_value w, wit_version = 0,
     op_items_counter = len64 (w_items w), op_items_list = Ptr n (mk_op_items (Suc n) (w_items w))\<rparr>"

abbreviation wit_blocks :: "witness \<Rightarrow> nat"
  where "wit_blocks w \<equiv> Suc (length (w_items w))"

abbreviation mk_witnesses :: "nat \<Rightarrow> witness list \<Rightarrow> spc_witness list"
  where "mk_witnesses \<equiv> mks mk_witness wit_blocks"

lemma len64_ne_0: "\<lbrakk>xs \<noteq> []; length xs < 2 ^ 64\<rbrakk> \<Longrightarrow> len64 xs \<noteq> (0 :: u64)"
  using unat_len64 [of xs] by auto

lemma ucast_gen_varint_len: "ucast (gen_varint_len n) = len64 (varint n)"
  by (cases n rule: varint_cases) simp_all

lemma array_room:
  assumes "length xs * k < 2 ^ 64" "0 < k"
  shows "unat (len64 xs * word_of_nat k :: u64) div k = length xs"
proof -
  have "unat (word_of_nat (length xs * k) :: u64) = length xs * k"
    using assms by (intro unat_of_nat_u64)
  then show ?thesis using assms by simp
qed

lemma not_len64_less:
  assumes "n \<le> length b" "length b < 2 ^ 64"
  shows "\<not> len64 b < (word_of_nat n :: u64)"
  using assms by (simp add: word_less_nat_alt unat_of_nat_u64)

lemma init_inputs_enc:
  assumes ok: "list_all wf_txin xs" "xs \<noteq> []" and no_oom: "no_oom h"
    and len: "length (enc_list enc_txin xs @ rest) < 2 ^ 60"
  shows "init_inputs (Some (enc_list enc_txin xs @ rest)) (len64 (enc_list enc_txin xs @ rest)) cnt lst l h =
    Some (0, len64 xs, Ptr (calls h) (mk_inputs (Suc (calls h)) xs), len64 (enc_list enc_txin xs),
          alloc (Suc (length xs)) h)"
proof -
  let ?b = "varint (len64 xs) @ concat (map enc_txin xs) @ rest"
  have many: "41 * length xs \<le> length (concat (map enc_txin xs))"
    using ok by (intro length_concat_ge length_enc_txin_ge) (simp add: list_all_iff)
  have small: "length ?b < 2 ^ 60" using len by (simp add: enc_list_def)
  have n: "length xs < 2 ^ 60" using many small by simp
  have b6: "\<not> len64 ?b < (word_of_nat 6 :: u64)"
    using many small ok by (intro not_len64_less) (cases xs, auto)
  have b41: "\<not> len64 ?b < (word_of_nat (41 * length xs) :: u64)"
    using many small by (intro not_len64_less) auto
  have room: "unat (len64 xs * word_of_nat 56 :: u64) div 56 = length xs"
    using n many small by (intro array_room) simp_all
  have loop: "item_loop get_single_input ?b (length xs) 0 ([] @ replicate (length xs) zero_input) zero_input 0
      (len64 (varint (len64 xs))) (alloc 1 h) =
    Some (0, 0 + length xs, [] @ mk_inputs (calls (alloc 1 h)) xs @ drop (length xs) (replicate (length xs) zero_input),
      len64 (varint (len64 xs) @ concat (map enc_txin xs)), alloc (length xs) (alloc 1 h))"
    using ok no_oom small by (intro input_dec.item_loop_enc) simp_all
  show ?thesis
    using b6 b41 room loop no_oom len64_ne_0 [of xs] ok n
    by (simp add: init_inputs_def get_inputs_counter_def get_counter_varint enc_list_def unat_len64
        malloc_alloc ucast_gen_varint_len heap_simps mult.commute)
qed

lemma init_outputs_enc:
  assumes ok: "list_all wf_txout xs" "xs \<noteq> []" and no_oom: "no_oom h"
    and len: "length (enc_list enc_txout xs @ rest) < 2 ^ 60"
  shows "init_outputs (Some (enc_list enc_txout xs @ rest)) (len64 (enc_list enc_txout xs @ rest)) cnt lst l h =
    Some (0, len64 xs, Ptr (calls h) (mk_outputs (Suc (calls h)) xs), len64 (enc_list enc_txout xs),
          alloc (Suc (length xs)) h)"
proof -
  let ?b = "varint (len64 xs) @ concat (map enc_txout xs) @ rest"
  have many: "9 * length xs \<le> length (concat (map enc_txout xs))"
    using ok by (intro length_concat_ge length_enc_txout_ge) (simp add: list_all_iff)
  have small: "length ?b < 2 ^ 60" using len by (simp add: enc_list_def)
  have n: "length xs < 2 ^ 60" using many small by simp
  have b6: "\<not> len64 ?b < (word_of_nat 6 :: u64)"
    using many small ok by (intro not_len64_less) (cases xs, auto)
  have b9: "\<not> len64 ?b < (word_of_nat (9 * length xs) :: u64)"
    using many small by (intro not_len64_less) auto
  have room: "unat (len64 xs * word_of_nat 24 :: u64) div 24 = length xs"
    using n many small by (intro array_room) simp_all
  have loop: "item_loop get_single_output ?b (length xs) 0 ([] @ replicate (length xs) zero_output) zero_output 0
      (len64 (varint (len64 xs))) (alloc 1 h) =
    Some (0, 0 + length xs, [] @ mk_outputs (calls (alloc 1 h)) xs @ drop (length xs) (replicate (length xs) zero_output),
      len64 (varint (len64 xs) @ concat (map enc_txout xs)), alloc (length xs) (alloc 1 h))"
    using ok no_oom small by (intro output_dec.item_loop_enc) simp_all
  show ?thesis
    using b6 b9 room loop no_oom len64_ne_0 [of xs] ok n
    by (simp add: init_outputs_def get_outputs_counter_def get_counter_varint enc_list_def unat_len64
        malloc_alloc ucast_gen_varint_len heap_simps mult.commute)
qed

lemma init_single_witness_enc:
  assumes ok: "wf_witness w" and no_oom: "no_oom h" and bl: "buffer_len \<noteq> 0"
    and len: "length (enc_pwit w @ rest) < 2 ^ 60"
  shows "init_single_witness (Some (enc_pwit w @ rest)) buffer_len st l h =
    Some (0, mk_witness (calls h) w, len64 (enc_pwit w), alloc (wit_blocks w) h)"
proof -
  let ?xs = "w_items w" and ?hd = "0xfe # u32_le 0xffffffff @ u64_le (w_value w) @ u16_le 0"
  let ?v = "varint (len64 (w_items w))"
  have b: "enc_pwit w @ rest = (?hd @ ?v) @ concat (map blob ?xs) @ rest"
    by (simp add: enc_pwit_def enc_list_def)
  have len': "length ((?hd @ ?v) @ concat (map blob ?xs) @ rest) < 2 ^ 60" using len unfolding b .
  have xs: "list_all short_blob ?xs" "?xs \<noteq> []" using ok by (auto simp: wf_witness_def)
  have "1 * length ?xs \<le> length (concat (map blob ?xs))"
    by (intro length_concat_ge length_blob_ge)
  then have n: "length ?xs < 2 ^ 60" using len' by simp
  have room: "unat (len64 ?xs * word_of_nat 16 :: u64) div 16 = length ?xs"
    using n by (intro array_room) simp_all
  have loop: "item_loop get_single_op_item ((?hd @ ?v) @ concat (map blob ?xs) @ rest) (length ?xs) 0
      ([] @ replicate (length ?xs) zero_op_item) zero_op_item 0 (len64 (?hd @ ?v)) (alloc 1 h) =
    Some (0, 0 + length ?xs, [] @ mk_op_items (calls (alloc 1 h)) ?xs @ drop (length ?xs) (replicate (length ?xs) zero_op_item),
      len64 ((?hd @ ?v) @ concat (map blob ?xs)), alloc (length ?xs) (alloc 1 h))"
    using xs no_oom len' by (intro op_item_dec.item_loop_enc) simp_all
  define B where "B = (?hd @ ?v) @ concat (map blob ?xs) @ rest"
  have a: "adv 1 B = u32_le 0xffffffff @ drop 5 B" "adv 5 B = u64_le (w_value w) @ drop 13 B"
    "adv 13 B = u16_le 0 @ drop 15 B" "adv 15 B = ?v @ concat (map blob ?xs) @ rest" "nth_ub 0 B = Some 0xfe"
    by (simp_all add: adv_def B_def nth_ub_def)
  have r: "rd 4 (u32_le x @ ys) = Some (u32_le x)" "rd 8 (u64_le y @ ys) = Some (u64_le y)"
    "rd 2 (u16_le z @ ys) = Some (u16_le z)" for x y z ys
    by (simp_all add: rd_app)
  define c where "c = len64 (?hd @ ?v)"
  have c15: "15 + len64 ?v = c" by (simp add: c_def)
  have e: "len64 (enc_pwit w) = len64 ((?hd @ ?v) @ concat (map blob ?xs))"
    by (simp add: enc_pwit_def enc_list_def)
  have "init_single_witness (Some B) buffer_len st l h =
    Some (0, mk_witness (calls h) w, len64 ((?hd @ ?v) @ concat (map blob ?xs)), alloc (wit_blocks w) h)"
    using loop [folded B_def c_def] room bl no_oom len64_ne_0 [of ?xs] xs n
    by (simp add: init_single_witness_def a r wire_simps get_op_items_counter_def get_counter_varint
        ucast_gen_varint_len c15 malloc_alloc unat_len64 heap_simps mk_witness_def Let_def
        del: append_assoc)
  then show ?thesis unfolding b e B_def .
qed

abbreviation blocks :: "witness list \<Rightarrow> nat"
  where "blocks ws \<equiv> sum_list (map wit_blocks ws)"

lemma length_enc_pwit_ge: "15 \<le> length (enc_pwit w)"
  by (simp add: enc_pwit_def)

lemma witness_loop_enc:
  "\<lbrakk>list_all wf_witness ws; no_oom h; length (pre @ concat (map enc_pwit ws) @ rest) < 2 ^ 60;
    length done' = i; length ws \<le> length todo; bl = len64 (pre @ concat (map enc_pwit ws) @ rest)\<rbrakk> \<Longrightarrow>
   witness_loop (pre @ concat (map enc_pwit ws) @ rest) bl (length ws) i (done' @ todo) st each (len64 pre) h =
   Some (0, i + length ws, done' @ mk_witnesses (calls h) ws @ drop (length ws) todo,
         len64 (pre @ concat (map enc_pwit ws)), alloc (blocks ws) h)"
proof (induction ws arbitrary: pre done' todo i st each h)
  case (Cons w ws)
  then obtain t todo' where todo: "todo = t # todo'" by (cases todo) auto
  let ?b = "pre @ enc_pwit w @ concat (map enc_pwit ws) @ rest"
  have small: "length ?b < 2 ^ 60" using Cons.prems(3) by simp
  have a: "adv (len64 pre) ?b = enc_pwit w @ concat (map enc_pwit ws) @ rest"
    using small by (intro adv_len64) simp
  have "bl - len64 pre = len64 (enc_pwit w @ concat (map enc_pwit ws) @ rest)"
    using Cons.prems(6) by simp
  moreover have "len64 (enc_pwit w @ concat (map enc_pwit ws) @ rest) \<noteq> (0 :: u64)"
    using small length_enc_pwit_ge [of w] by (intro len64_ne_0) auto
  ultimately have "bl - len64 pre \<noteq> 0" by simp
  then have g: "init_single_witness (Some (enc_pwit w @ concat (map enc_pwit ws) @ rest)) (bl - len64 pre) st each h =
      Some (0, mk_witness (calls h) w, len64 (enc_pwit w), alloc (wit_blocks w) h)"
    using Cons.prems small by (intro init_single_witness_enc) simp_all
  have "\<not> len64 ?b < (word_of_nat (length (pre @ enc_pwit w)) :: u64)"
    using small by (intro not_len64_less) simp_all
  then have ge: "\<not> bl < len64 pre + len64 (enc_pwit w)"
    using Cons.prems(6) by simp
  have "witness_loop ?b bl (length ws) (Suc i) (done' @ mk_witness (calls h) w # todo') (mk_witness (calls h) w)
      (len64 (enc_pwit w)) (len64 pre + len64 (enc_pwit w)) (alloc (wit_blocks w) h) =
    witness_loop ((pre @ enc_pwit w) @ concat (map enc_pwit ws) @ rest) bl (length ws) (Suc i)
      ((done' @ [mk_witness (calls h) w]) @ todo') (mk_witness (calls h) w) (len64 (enc_pwit w))
      (len64 (pre @ enc_pwit w)) (alloc (wit_blocks w) h)"
    by simp
  also have "\<dots> = Some (0, Suc i + length ws,
      (done' @ [mk_witness (calls h) w]) @ mk_witnesses (calls (alloc (wit_blocks w) h)) ws @ drop (length ws) todo',
      len64 ((pre @ enc_pwit w) @ concat (map enc_pwit ws)), alloc (blocks ws) (alloc (wit_blocks w) h))"
    using Cons.prems todo by (intro Cons.IH) simp_all
  finally show ?case
    using a g ge Cons.prems(4) by (simp add: todo buf_simps heap_simps)
qed (simp add: heap_simps)

lemma init_witnesses_enc:
  assumes ok: "list_all wf_witness ws" and no_oom: "no_oom h"
    and len: "length (concat (map enc_pwit ws) @ rest) < 2 ^ 60"
  shows "init_witnesses (Some (concat (map enc_pwit ws) @ rest)) (len64 (concat (map enc_pwit ws) @ rest))
      (len64 ws) lst l h =
    Some (0, len64 ws, Ptr (calls h) (mk_witnesses (Suc (calls h)) ws), len64 (concat (map enc_pwit ws)),
          alloc (Suc (blocks ws)) h)"
proof -
  let ?b = "concat (map enc_pwit ws) @ rest"
  have many: "15 * length ws \<le> length (concat (map enc_pwit ws))"
    by (intro length_concat_ge length_enc_pwit_ge)
  then have n: "length ws < 2 ^ 58" using len by simp
  have b: "\<not> len64 ?b < (word_of_nat (length ws) :: u64)"
    using many len by (intro not_len64_less) auto
  have room: "unat (len64 ws * word_of_nat 26 :: u64) div 26 = length ws"
    using n by (intro array_room) simp_all
  have loop: "witness_loop ([] @ ?b) (len64 ?b) (length ws) 0 ([] @ replicate (length ws) zero_witness) zero_witness
      0 (len64 ([] :: byte list)) (alloc 1 h) =
    Some (0, 0 + length ws, [] @ mk_witnesses (calls (alloc 1 h)) ws @ drop (length ws) (replicate (length ws) zero_witness),
      len64 ([] @ concat (map enc_pwit ws)), alloc (blocks ws) (alloc 1 h))"
    using ok no_oom len by (intro witness_loop_enc) simp_all
  show ?thesis
    using b room loop no_oom n
    by (simp add: init_witnesses_def unat_len64 malloc_alloc heap_simps mult.commute)
qed

section \<open>The whole transaction\<close>

definition tx_blocks :: "ptx \<Rightarrow> nat" where
  "tx_blocks t = Suc (length (p_ins t)) + Suc (length (p_outs t)) + Suc (blocks (p_wits t))"

definition mk_tx :: "nat \<Rightarrow> ptx \<Rightarrow> spc_tx" where
  "mk_tx n t =
    (let o1 = n + Suc (length (p_ins t)); w1 = o1 + Suc (length (p_outs t))
     in \<lparr>partial_label = partial_magic, partial_version = 0, nversion = p_version t, segwit_flag = 1,
        inputs_list = Ptr n (mk_inputs (Suc n) (p_ins t)), inputs_counter = len64 (p_ins t),
        outputs_list = Ptr o1 (mk_outputs (Suc o1) (p_outs t)), outputs_counter = len64 (p_outs t),
        witnesses_list = Ptr w1 (mk_witnesses (Suc w1) (p_wits t)), witnesses_counter = len64 (p_wits t),
        lock_time = p_locktime t\<rparr>)"

lemma len64_le: "\<lbrakk>length b < 2 ^ 64; n < length b\<rbrakk> \<Longrightarrow> \<not> len64 b \<le> (word_of_nat n :: u64)"
  by (simp add: word_le_nat_alt unat_of_nat_u64)

lemma init_tx_lists_enc:
  assumes wf: "wf_ptx t" and no_oom: "no_oom h"
    and b: "b = pre @ enc_list enc_txin (p_ins t) @ enc_list enc_txout (p_outs t) @ concat (map enc_pwit (p_wits t)) @ rest"
    and len: "length b < 2 ^ 60" and rest: "rest \<noteq> []"
    and tx: "inputs_counter tx = 0" "outputs_counter tx = 0"
  shows "init_tx_lists b (len64 b) tx (len64 pre) h =
    Some (Some (tx\<lparr>inputs_list := inputs_list (mk_tx (calls h) t), inputs_counter := inputs_counter (mk_tx (calls h) t),
        outputs_list := outputs_list (mk_tx (calls h) t), outputs_counter := outputs_counter (mk_tx (calls h) t),
        witnesses_list := witnesses_list (mk_tx (calls h) t), witnesses_counter := witnesses_counter (mk_tx (calls h) t)\<rparr>,
      len64 (pre @ enc_list enc_txin (p_ins t) @ enc_list enc_txout (p_outs t) @ concat (map enc_pwit (p_wits t)))),
      alloc (tx_blocks t) h)"
proof -
  let ?i = "enc_list enc_txin (p_ins t)" and ?o = "enc_list enc_txout (p_outs t)"
    and ?w = "concat (map enc_pwit (p_wits t))"
  define B where "B = len64 b"
  have ok: "list_all wf_txin (p_ins t)" "p_ins t \<noteq> []" "list_all wf_txout (p_outs t)" "p_outs t \<noteq> []"
      "list_all wf_witness (p_wits t)" "length (p_wits t) = length (p_ins t)"
    using wf by (auto simp: wf_ptx_def)
  have l: "length (pre @ ?i @ ?o @ ?w @ rest) < 2 ^ 60" using len b by simp
  have s: "B - len64 pre = len64 (?i @ ?o @ ?w @ rest)"
    "B - (len64 pre + len64 ?i) = len64 (?o @ ?w @ rest)"
    "B - (len64 pre + len64 ?i + len64 ?o) = len64 (?w @ rest)"
    by (simp_all add: b B_def)
  have a1: "adv (len64 pre) b = ?i @ ?o @ ?w @ rest"
    using l unfolding b by (intro adv_len64) simp
  have "adv (len64 (pre @ ?i)) ((pre @ ?i) @ ?o @ ?w @ rest) = ?o @ ?w @ rest"
    using l by (intro adv_len64) simp
  then have a2: "adv (len64 pre + len64 ?i) b = ?o @ ?w @ rest" by (simp add: b)
  have "adv (len64 (pre @ ?i @ ?o)) ((pre @ ?i @ ?o) @ ?w @ rest) = ?w @ rest"
    using l by (intro adv_len64) simp
  then have a3: "adv (len64 pre + len64 ?i + len64 ?o) b = ?w @ rest" by (simp add: b add.assoc)
  have rl: "0 < length rest" using rest by simp
  have "\<not> len64 b \<le> (word_of_nat (length (pre @ ?i)) :: u64)"
    "\<not> len64 b \<le> (word_of_nat (length (pre @ ?i @ ?o)) :: u64)"
    "\<not> len64 b \<le> (word_of_nat (length (pre @ ?i @ ?o @ ?w)) :: u64)"
    using l rl by (intro len64_le; simp add: b)+
  then have le: "\<not> B \<le> len64 pre + len64 ?i" "\<not> B \<le> len64 pre + len64 ?i + len64 ?o"
      "\<not> B \<le> len64 pre + len64 ?i + len64 ?o + len64 ?w"
    by (simp_all add: add.assoc B_def)
  have i: "init_inputs (Some (?i @ ?o @ ?w @ rest)) (len64 (?i @ ?o @ ?w @ rest)) cnt lst q h =
      Some (0, len64 (p_ins t), Ptr (calls h) (mk_inputs (Suc (calls h)) (p_ins t)), len64 ?i,
        alloc (Suc (length (p_ins t))) h)" for cnt lst q
    using ok no_oom l by (intro init_inputs_enc) simp_all
  have o: "init_outputs (Some (?o @ ?w @ rest)) (len64 (?o @ ?w @ rest)) cnt lst q h' =
      Some (0, len64 (p_outs t), Ptr (calls h') (mk_outputs (Suc (calls h')) (p_outs t)), len64 ?o,
        alloc (Suc (length (p_outs t))) h')" if "no_oom h'" for cnt lst q h'
    using ok that l by (intro init_outputs_enc) simp_all
  have w: "init_witnesses (Some (?w @ rest)) (len64 (?w @ rest)) (len64 (p_ins t)) lst q h' =
      Some (0, len64 (p_ins t), Ptr (calls h') (mk_witnesses (Suc (calls h')) (p_wits t)), len64 ?w,
        alloc (Suc (blocks (p_wits t))) h')" if "no_oom h'" for lst q h'
    using ok that l init_witnesses_enc [of "p_wits t" h' rest lst q] by simp
  have "init_tx_lists b B tx (len64 pre) h =
    Some (Some (tx\<lparr>inputs_list := inputs_list (mk_tx (calls h) t), inputs_counter := inputs_counter (mk_tx (calls h) t),
        outputs_list := outputs_list (mk_tx (calls h) t), outputs_counter := outputs_counter (mk_tx (calls h) t),
        witnesses_list := witnesses_list (mk_tx (calls h) t), witnesses_counter := witnesses_counter (mk_tx (calls h) t)\<rparr>,
      len64 pre + len64 ?i + len64 ?o + len64 ?w),
      alloc (tx_blocks t) h)"
    unfolding init_tx_lists_def a1 s i
    using no_oom ok(6) le
    by (simp add: Let_def s [unfolded add.assoc] a2 a3 [unfolded add.assoc] o w heap_simps mk_tx_def
        tx_blocks_def add.assoc del: length_append of_nat_add)
  then show ?thesis by (simp add: B_def add.assoc)
qed

theorem init_tx_enc:
  assumes wf: "wf_ptx t" and no_oom: "no_oom h" and len: "length (enc_ptx t @ rest) < 2 ^ 60"
  shows "init_tx (Some (enc_ptx t @ rest)) (len64 (enc_ptx t @ rest)) out h =
    Some (0, mk_tx (calls h) t, alloc (tx_blocks t) h)"
proof -
  let ?i = "enc_list enc_txin (p_ins t)" and ?o = "enc_list enc_txout (p_outs t)"
    and ?w = "concat (map enc_pwit (p_wits t))"
  let ?pre = "partial_magic @ [0] @ u32_le (p_version t) @ [0, 1]"
  define b where "b = enc_ptx t @ rest"
  have bs: "b = ?pre @ ?i @ ?o @ ?w @ (u32_le (p_locktime t) @ rest)"
    by (simp add: b_def enc_ptx_def)
  have l: "length (?pre @ ?i @ ?o @ ?w @ (u32_le (p_locktime t) @ rest)) < 2 ^ 60"
    using len unfolding b_def [symmetric] bs .
  have "length (u32_le (p_locktime t) @ rest) \<noteq> 0" by simp
  then have ne: "u32_le (p_locktime t) @ rest \<noteq> []" by blast
  have pl: "length ?pre = 12" by (simp add: partial_magic_def)
  have lists: "init_tx_lists b (len64 b) tx 12 h =
    Some (Some (tx\<lparr>inputs_list := inputs_list (mk_tx (calls h) t), inputs_counter := inputs_counter (mk_tx (calls h) t),
        outputs_list := outputs_list (mk_tx (calls h) t), outputs_counter := outputs_counter (mk_tx (calls h) t),
        witnesses_list := witnesses_list (mk_tx (calls h) t), witnesses_counter := witnesses_counter (mk_tx (calls h) t)\<rparr>,
      len64 (?pre @ ?i @ ?o @ ?w)), alloc (tx_blocks t) h)"
    if "inputs_counter tx = 0" "outputs_counter tx = 0" for tx
    using init_tx_lists_enc [OF wf no_oom bs _ ne that] l pl unfolding bs [symmetric] by simp
  have "adv (len64 (?pre @ ?i @ ?o @ ?w)) ((?pre @ ?i @ ?o @ ?w) @ (u32_le (p_locktime t) @ rest)) =
      u32_le (p_locktime t) @ rest"
    using l by (intro adv_len64) simp
  then have lt: "rd 4 (adv (len64 (?pre @ ?i @ ?o @ ?w)) b) = Some (u32_le (p_locktime t))"
    by (simp add: bs rd_app)
  have hd: "rd 5 b = Some partial_magic" "nth_ub 0 (adv 5 b) = Some 0"
    "rd 4 (adv 6 b) = Some (u32_le (p_version t))" "nth_ub 0 (adv 10 b) = Some 0" "nth_ub 0 (adv 11 b) = Some 1"
    by (simp_all add: bs adv_def rd_def nth_ub_def partial_magic_def)
  have b12: "\<not> len64 b \<le> (word_of_nat 12 :: u64)"
    using l pl by (intro len64_le) (simp_all add: bs)
  then have b0: "len64 b \<noteq> (0 :: u64)" by auto
  have "\<not> len64 b < (word_of_nat (length ((?pre @ ?i @ ?o @ ?w) @ u32_le (p_locktime t))) :: u64)"
    using l by (intro not_len64_less) (simp_all add: bs)
  then have e4: "\<not> len64 b < len64 (?pre @ ?i @ ?o @ ?w) + 4" by (simp add: add_ac)
  define c where "c = len64 (?pre @ ?i @ ?o @ ?w)"
  have "init_tx (Some b) (len64 b) out h = Some (0, mk_tx (calls h) t, alloc (tx_blocks t) h)"
    using hd b12 b0 e4 lt lists unfolding c_def [symmetric]
    by (simp add: init_tx_def label_check_def partial_magic_def wire_simps Let_def zero_tx_def mk_tx_def)
  then show ?thesis by (simp add: b_def)
qed

section \<open>From the structures back to the transaction\<close>

fun contents :: "'a list ptr \<Rightarrow> 'a list" where
  "contents NULL = []"
| "contents (Ptr p xs) = xs"

definition abs_input :: "spc_input \<Rightarrow> txin" where
  "abs_input s = \<lparr>ti_hash = prev_tx_hash s, ti_index = prev_tx_index s,
     ti_script = contents (txin_script s), ti_sequence = sequence_no s\<rparr>"

definition abs_output :: "spc_output \<Rightarrow> txout" where
  "abs_output s = \<lparr>to_value = txout_value s, to_script = contents (txout_script s)\<rparr>"

definition abs_witness :: "spc_witness \<Rightarrow> witness" where
  "abs_witness s = \<lparr>w_value = wit_value s, w_items = map (\<lambda>x. contents (op_item x)) (contents (op_items_list s))\<rparr>"

definition abs_tx :: "spc_tx \<Rightarrow> ptx" where
  "abs_tx s = \<lparr>p_version = nversion s, p_ins = map abs_input (contents (inputs_list s)),
     p_outs = map abs_output (contents (outputs_list s)),
     p_wits = map abs_witness (contents (witnesses_list s)), p_locktime = lock_time s\<rparr>"

lemma map_mks: "(\<And>n x. f (mk n x) = x) \<Longrightarrow> map f (mks mk nb n xs) = xs"
  by (induction xs arbitrary: n) simp_all

lemma abs_mk_input [simp]: "abs_input (mk_input n i) = i"
  by (simp add: abs_input_def mk_input_def)

lemma abs_mk_output [simp]: "abs_output (mk_output n p) = p"
  by (simp add: abs_output_def mk_output_def)

lemma abs_mk_witness [simp]: "abs_witness (mk_witness n w) = w"
proof -
  have "map (\<lambda>x. contents (op_item x)) (mk_op_items k xs) = xs" for k xs
    by (rule map_mks) (simp add: mk_op_item_def)
  then show ?thesis by (simp add: abs_witness_def mk_witness_def)
qed

lemma abs_mk_tx: "abs_tx (mk_tx n t) = t"
  by (simp add: abs_tx_def mk_tx_def Let_def map_mks)

section \<open>Freeing what the parser built\<close>

text \<open>The blocks of empty scripts: the free functions skip them.\<close>

fun leak :: "nat \<Rightarrow> byte list list \<Rightarrow> nat set" where
  "leak n [] = {}"
| "leak n (x # xs) = (if x = [] then {n} else {}) \<union> leak (Suc n) xs"

fun leak_wits :: "nat \<Rightarrow> witness list \<Rightarrow> nat set" where
  "leak_wits n [] = {}"
| "leak_wits n (w # ws) = leak (Suc n) (w_items w) \<union> leak_wits (n + wit_blocks w) ws"

lemma leak_subset: "leak n xs \<subseteq> {n..<n + length xs}"
proof (induction xs arbitrary: n)
  case (Cons x xs)
  have "leak (Suc n) xs \<subseteq> {Suc n..<Suc n + length xs}" by (rule Cons.IH)
  then show ?case by auto
qed simp

lemma leak_wits_subset: "leak_wits n ws \<subseteq> {n..<n + blocks ws}"
proof (induction ws arbitrary: n)
  case (Cons w ws)
  have "leak_wits (n + wit_blocks w) ws \<subseteq> {n + wit_blocks w..<n + wit_blocks w + blocks ws}"
    by (rule Cons.IH)
  moreover have "leak (Suc n) (w_items w) \<subseteq> {Suc n..<Suc n + length (w_items w)}" by (rule leak_subset)
  ultimately show ?case by fastforce
qed simp

definition free_set :: "nat set \<Rightarrow> heap \<Rightarrow> heap"
  where "free_set B h = h\<lparr>live := live h - B\<rparr>"

lemma live_free_set [heap_simps]: "live (free_set B h) = live h - B"
  by (simp add: free_set_def)

lemma free_set_empty [heap_simps]: "free_set {} h = h"
  by (simp add: free_set_def)

lemma free_set_free_set [heap_simps]: "free_set A (free_set B h) = free_set (A \<union> B) h"
  by (simp add: free_set_def Diff_Un Diff_Diff_Int set_diff_eq) (rule arg_cong [where f = "\<lambda>l. h\<lparr>live := l\<rparr>"], auto)

lemma free_blk_live: "b \<in> live h \<Longrightarrow> free_blk b h = Some (free_set {b} h)"
  by (simp add: free_blk_def free_set_def)

lemma free_blk_free_set:
  "\<lbrakk>p \<in> live h; p \<notin> A\<rbrakk> \<Longrightarrow> free_blk p (free_set (A - L) h) = Some (free_set (insert p (A - L)) h)"
  by (simp add: free_blk_live heap_simps)

text \<open>A structure that owns one block with a script: the contract of the free loops.\<close>

locale script_struct =
  fixes mk :: "nat \<Rightarrow> 'x \<Rightarrow> 'a"
    and s :: "'x \<Rightarrow> byte list"
    and lenf :: "'a \<Rightarrow> u64"
    and ptrf :: "'a \<Rightarrow> byte list ptr"
  assumes lenf_mk: "lenf (mk n x) = len64 (s x)"
    and ptrf_mk: "ptrf (mk n x) = Ptr n (s x)"
begin

lemma free_loop_mks:
  "\<lbrakk>p \<in> live h; {n..<n + length xs} \<subseteq> live h; p \<notin> {n..<n + length xs};
    list_all (\<lambda>x. length (s x) < 2 ^ 64) xs; length done' = i\<rbrakk> \<Longrightarrow>
   free_loop lenf ptrf (length xs) i (Ptr p (done' @ mks mk (\<lambda>_. 1) n xs)) h =
   Some (free_set ({n..<n + length xs} - leak n (map s xs)) h)"
proof (induction xs arbitrary: n h done' i)
  case (Cons x xs)
  let ?h = "if s x = [] then h else free_set {n} h"
  have z: "len64 (s x) = (0 :: u64) \<longleftrightarrow> s x = []"
    using Cons.prems(4) len64_ne_0 [of "s x"] by auto
  have n: "n \<in> live h" using Cons.prems(2) by auto
  have one: "free_loop lenf ptrf (length (x # xs)) i (Ptr p (done' @ mks mk (\<lambda>_. 1) n (x # xs))) h =
      free_loop lenf ptrf (length xs) (Suc i) (Ptr p ((done' @ [mk n x]) @ mks mk (\<lambda>_. 1) (Suc n) xs)) ?h"
    using Cons.prems(1,5) z n by (simp add: buf_simps lenf_mk ptrf_mk free_blk_live)
  have "free_loop lenf ptrf (length xs) (Suc i) (Ptr p ((done' @ [mk n x]) @ mks mk (\<lambda>_. 1) (Suc n) xs)) ?h =
      Some (free_set ({Suc n..<Suc n + length xs} - leak (Suc n) (map s xs)) ?h)"
  proof (rule Cons.IH)
    show "{Suc n..<Suc n + length xs} \<subseteq> live ?h"
      using Cons.prems(2) by (auto simp: live_free_set)
  qed (use Cons.prems in \<open>auto simp: live_free_set\<close>)
  moreover have "n \<notin> leak (Suc n) (map s xs)" using leak_subset [of "Suc n" "map s xs"] by auto
  then have "{Suc n..<Suc n + length xs} - leak (Suc n) (map s xs) \<union> (if s x = [] then {} else {n}) =
      {n..<n + length (x # xs)} - leak n (map s (x # xs))"
    by (auto split: if_splits)
  ultimately show ?case
    unfolding one by (auto simp: heap_simps)
qed (simp add: heap_simps)

end

interpretation input_struct: script_struct mk_input ti_script txin_script_len txin_script
  by unfold_locales (simp_all add: mk_input_def)

interpretation output_struct: script_struct mk_output to_script txout_script_len txout_script
  by unfold_locales (simp_all add: mk_output_def)

interpretation op_item_struct: script_struct mk_op_item "\<lambda>x. x" op_item_len op_item
  by unfold_locales (simp_all add: mk_op_item_def)

lemma short_blob_len: "short_blob x \<Longrightarrow> length x < 2 ^ 64"
  by (simp add: short_blob_def)

lemma free_inputs_mks:
  assumes "p \<in> live h" "{n..<n + length xs} \<subseteq> live h" "p \<notin> {n..<n + length xs}"
    "list_all wf_txin xs" "length xs < 2 ^ 64"
  shows "free_inputs (Ptr p (mk_inputs n xs)) (len64 xs) h =
    Some (free_set (insert p ({n..<n + length xs} - leak n (map ti_script xs))) h)"
proof -
  have "list_all (\<lambda>x. length (ti_script x) < 2 ^ 64) xs"
    using assms(4) short_blob_len by (auto simp: list_all_iff wf_txin_def)
  then have "free_loop txin_script_len txin_script (length xs) 0 (Ptr p ([] @ mk_inputs n xs)) h =
      Some (free_set ({n..<n + length xs} - leak n (map ti_script xs)) h)"
    using assms by (intro input_struct.free_loop_mks) simp_all
  then show ?thesis
    using assms(5) free_blk_free_set [OF assms(1,3)] by (simp add: free_inputs_def unat_len64)
qed

lemma free_outputs_mks:
  assumes "p \<in> live h" "{n..<n + length xs} \<subseteq> live h" "p \<notin> {n..<n + length xs}"
    "list_all wf_txout xs" "length xs < 2 ^ 64"
  shows "free_outputs (Ptr p (mk_outputs n xs)) (len64 xs) h =
    Some (free_set (insert p ({n..<n + length xs} - leak n (map to_script xs))) h)"
proof -
  have "list_all (\<lambda>x. length (to_script x) < 2 ^ 64) xs"
    using assms(4) short_blob_len by (auto simp: list_all_iff wf_txout_def)
  then have "free_loop txout_script_len txout_script (length xs) 0 (Ptr p ([] @ mk_outputs n xs)) h =
      Some (free_set ({n..<n + length xs} - leak n (map to_script xs)) h)"
    using assms by (intro output_struct.free_loop_mks) simp_all
  then show ?thesis
    using assms(5) free_blk_free_set [OF assms(1,3)] by (simp add: free_outputs_def unat_len64)
qed

lemma free_single_witness_mk:
  assumes "{n..<n + wit_blocks w} \<subseteq> live h" "wf_witness w" "length (w_items w) < 2 ^ 64"
  shows "free_single_witness (mk_witness n w) h =
    Some (free_set ({n..<n + wit_blocks w} - leak (Suc n) (w_items w)) h)"
proof -
  let ?xs = "w_items w"
  have "list_all (\<lambda>x. length x < 2 ^ 64) ?xs"
    using assms(2) short_blob_len by (auto simp: list_all_iff wf_witness_def)
  then have l: "free_loop op_item_len op_item (length ?xs) 0 (Ptr n ([] @ mk_op_items (Suc n) ?xs)) h =
      Some (free_set ({Suc n..<Suc n + length ?xs} - leak (Suc n) (map (\<lambda>x. x) ?xs)) h)"
    using assms(1) by (intro op_item_struct.free_loop_mks) auto
  have "n \<notin> leak (Suc n) ?xs" using leak_subset [of "Suc n" ?xs] by auto
  then have "insert n ({Suc n..<Suc n + length ?xs} - leak (Suc n) ?xs) =
      {n..<n + wit_blocks w} - leak (Suc n) ?xs"
    by auto
  moreover have "n \<in> live h" using assms(1) by auto
  ultimately show ?thesis using l assms(3)
    by (simp add: free_single_witness_def mk_witness_def unat_len64 free_blk_live heap_simps)
qed

lemma free_witness_loop_mks:
  "\<lbrakk>p \<in> live h; {n..<n + blocks ws} \<subseteq> live h; p \<notin> {n..<n + blocks ws}; list_all wf_witness ws;
    list_all (\<lambda>w. length (w_items w) < 2 ^ 64) ws; length done' = i\<rbrakk> \<Longrightarrow>
   free_witness_loop (length ws) i (Ptr p (done' @ mk_witnesses n ws)) h =
   Some (free_set ({n..<n + blocks ws} - leak_wits n ws) h)"
proof (induction ws arbitrary: n h done' i)
  case (Cons w ws)
  let ?n' = "n + wit_blocks w"
  let ?L = "leak (Suc n) (w_items w)"
  let ?h = "free_set ({n..<?n'} - ?L) h"
  have "free_single_witness (mk_witness n w) h = Some ?h"
    using Cons.prems by (intro free_single_witness_mk) auto
  then have one: "free_witness_loop (length (w # ws)) i (Ptr p (done' @ mk_witnesses n (w # ws))) h =
      free_witness_loop (length ws) (Suc i) (Ptr p ((done' @ [mk_witness n w]) @ mk_witnesses ?n' ws)) ?h"
    using Cons.prems(1,6) by (simp add: buf_simps)
  have "free_witness_loop (length ws) (Suc i) (Ptr p ((done' @ [mk_witness n w]) @ mk_witnesses ?n' ws)) ?h =
      Some (free_set ({?n'..<?n' + blocks ws} - leak_wits ?n' ws) ?h)"
  proof (rule Cons.IH)
    show "p \<in> live ?h" using Cons.prems(1,3) by (auto simp: live_free_set)
    show "{?n'..<?n' + blocks ws} \<subseteq> live ?h" using Cons.prems(2) by (auto simp: live_free_set)
  qed (use Cons.prems in auto)
  moreover have "({?n'..<?n' + blocks ws} - leak_wits ?n' ws) \<union> ({n..<?n'} - ?L) =
      {n..<n + blocks (w # ws)} - leak_wits n (w # ws)"
    using leak_subset [of "Suc n" "w_items w"] leak_wits_subset [of ?n' ws] by auto
  ultimately show ?case
    unfolding one by (simp add: heap_simps)
qed (simp add: heap_simps)

lemma free_witnesses_mks:
  assumes "p \<in> live h" "{n..<n + blocks ws} \<subseteq> live h" "p \<notin> {n..<n + blocks ws}" "list_all wf_witness ws"
    "list_all (\<lambda>w. length (w_items w) < 2 ^ 64) ws" "length ws < 2 ^ 64"
  shows "free_witnesses (Ptr p (mk_witnesses n ws)) (len64 ws) h =
    Some (free_set (insert p ({n..<n + blocks ws} - leak_wits n ws)) h)"
proof -
  have "free_witness_loop (length ws) 0 (Ptr p ([] @ mk_witnesses n ws)) h =
      Some (free_set ({n..<n + blocks ws} - leak_wits n ws) h)"
    using assms by (intro free_witness_loop_mks) simp_all
  then show ?thesis
    using assms(6) free_blk_free_set [OF assms(1,3)] by (simp add: free_witnesses_def unat_len64)
qed

definition tx_leak :: "nat \<Rightarrow> ptx \<Rightarrow> nat set" where
  "tx_leak n t =
    (let o1 = n + Suc (length (p_ins t)); w1 = o1 + Suc (length (p_outs t))
     in leak (Suc n) (map ti_script (p_ins t)) \<union> leak (Suc o1) (map to_script (p_outs t))
        \<union> leak_wits (Suc w1) (p_wits t))"

lemma concat_map_len_le:
  "list_all (\<lambda>w. length (w_items w) \<le> length (concat (map enc_pwit ws))) ws"
proof -
  have "length (w_items w) \<le> length (concat (map enc_pwit ws))" if "w \<in> set ws" for w
  proof -
    have "1 * length (w_items w) \<le> length (concat (map blob (w_items w)))"
      by (intro length_concat_ge length_blob_ge)
    then have "length (w_items w) \<le> length (enc_pwit w)" by (simp add: enc_pwit_def enc_list_def)
    also have "\<dots> \<le> length (concat (map enc_pwit ws))" using that by (rule concat_le)
    finally show ?thesis .
  qed
  then show ?thesis by (simp add: list_all_iff)
qed

lemma wf_ptx_small:
  assumes "wf_ptx t"
  shows "length (p_ins t) < 2 ^ 60" "length (p_outs t) < 2 ^ 60" "length (p_wits t) < 2 ^ 60"
    "list_all (\<lambda>w. length (w_items w) < 2 ^ 64) (p_wits t)"
proof -
  have l: "length (enc_list enc_txin (p_ins t)) + length (enc_list enc_txout (p_outs t))
      + length (concat (map enc_pwit (p_wits t))) < 2 ^ 60"
    using assms by (simp add: wf_ptx_def enc_ptx_def)
  have "41 * length (p_ins t) \<le> length (concat (map enc_txin (p_ins t)))"
    using assms by (intro length_concat_ge length_enc_txin_ge) (simp add: wf_ptx_def list_all_iff)
  then show i: "length (p_ins t) < 2 ^ 60" using l by (simp add: enc_list_def)
  have "9 * length (p_outs t) \<le> length (concat (map enc_txout (p_outs t)))"
    using assms by (intro length_concat_ge length_enc_txout_ge) (simp add: wf_ptx_def list_all_iff)
  then show "length (p_outs t) < 2 ^ 60" using l by (simp add: enc_list_def)
  show "length (p_wits t) < 2 ^ 60" using i assms by (simp add: wf_ptx_def)
  show "list_all (\<lambda>w. length (w_items w) < 2 ^ 64) (p_wits t)"
    using concat_map_len_le [of "p_wits t"] l by (auto simp: list_all_iff)
qed

lemma free_tx_mk_tx:
  assumes wf: "wf_ptx t" and ok: "heap_ok h"
  shows "free_tx (mk_tx (calls h) t) (alloc (tx_blocks t) h) =
    Some (free_set ({calls h..<calls h + tx_blocks t} - tx_leak (calls h) t) (alloc (tx_blocks t) h))"
proof -
  let ?n = "calls h" and ?li = "length (p_ins t)" and ?lo = "length (p_outs t)" and ?bw = "blocks (p_wits t)"
  let ?o1 = "?n + Suc ?li" and ?H = "alloc (tx_blocks t) h"
  let ?w1 = "?o1 + Suc ?lo"
  have wfs: "list_all wf_txin (p_ins t)" "list_all wf_txout (p_outs t)" "list_all wf_witness (p_wits t)"
    using wf by (auto simp: wf_ptx_def)
  note small = wf_ptx_small [OF wf]
  have live: "{?n..<?n + tx_blocks t} \<subseteq> live ?H" by (simp add: live_alloc)
  let ?F1 = "insert ?n ({Suc ?n..<Suc ?n + ?li} - leak (Suc ?n) (map ti_script (p_ins t)))"
  let ?F2 = "insert ?o1 ({Suc ?o1..<Suc ?o1 + ?lo} - leak (Suc ?o1) (map to_script (p_outs t)))"
  let ?F3 = "insert ?w1 ({Suc ?w1..<Suc ?w1 + ?bw} - leak_wits (Suc ?w1) (p_wits t))"
  have 1: "free_inputs (Ptr ?n (mk_inputs (Suc ?n) (p_ins t))) (len64 (p_ins t)) ?H = Some (free_set ?F1 ?H)"
    using live wfs small by (intro free_inputs_mks) (auto simp: tx_blocks_def)
  have 2: "free_outputs (Ptr ?o1 (mk_outputs (Suc ?o1) (p_outs t))) (len64 (p_outs t)) (free_set ?F1 ?H) =
      Some (free_set ?F2 (free_set ?F1 ?H))"
    using live wfs small by (intro free_outputs_mks) (auto simp: tx_blocks_def live_free_set)
  have 3: "free_witnesses (Ptr ?w1 (mk_witnesses (Suc ?w1) (p_wits t))) (len64 (p_wits t))
      (free_set ?F2 (free_set ?F1 ?H)) = Some (free_set ?F3 (free_set ?F2 (free_set ?F1 ?H)))"
    using live wfs small by (intro free_witnesses_mks) (auto simp: tx_blocks_def live_free_set)
  have r1: "leak (Suc ?n) (map ti_script (p_ins t)) \<subseteq> {Suc ?n..<Suc ?n + ?li}"
    using leak_subset [of "Suc ?n" "map ti_script (p_ins t)"] by simp
  have r2: "leak (Suc ?o1) (map to_script (p_outs t)) \<subseteq> {Suc ?o1..<Suc ?o1 + ?lo}"
    using leak_subset [of "Suc ?o1" "map to_script (p_outs t)"] by simp
  have r3: "leak_wits (Suc ?w1) (p_wits t) \<subseteq> {Suc ?w1..<Suc ?w1 + ?bw}"
    by (rule leak_wits_subset)
  have i1: "insert ?n {Suc ?n..<Suc ?n + ?li} = {?n..<?o1}" by auto
  have i2: "insert ?o1 {Suc ?o1..<Suc ?o1 + ?lo} = {?o1..<?w1}" by auto
  have i3: "insert ?w1 {Suc ?w1..<Suc ?w1 + ?bw} = {?w1..<?w1 + Suc ?bw}" by auto
  have F1: "?F1 = {?n..<?o1} - leak (Suc ?n) (map ti_script (p_ins t))" using r1 i1 by auto
  have F2: "?F2 = {?o1..<?w1} - leak (Suc ?o1) (map to_script (p_outs t))" using r2 i2 by auto
  have F3: "?F3 = {?w1..<?w1 + Suc ?bw} - leak_wits (Suc ?w1) (p_wits t)" using r3 i3 by auto
  have "?F3 \<union> (?F2 \<union> ?F1) = {?n..<?n + tx_blocks t} - tx_leak ?n t"
    unfolding F1 F2 F3 tx_leak_def Let_def tx_blocks_def
    using r1 r2 r3 by auto
  then show ?thesis
    using 1 2 3 by (simp add: free_tx_def mk_tx_def Let_def free_set_free_set)
qed

section \<open>Properties\<close>

lemma card_leak: "finite (leak n xs) \<and> card (leak n xs) = length (filter (\<lambda>x. x = []) xs)"
proof (induction xs arbitrary: n)
  case (Cons x xs)
  have "n \<notin> leak (Suc n) xs" using leak_subset [of "Suc n" xs] by auto
  then show ?case using Cons.IH [of "Suc n"] by simp
qed simp

lemma card_leak_wits:
  "finite (leak_wits n ws) \<and>
   card (leak_wits n ws) = length (filter (\<lambda>x. x = []) (concat (map w_items ws)))"
proof (induction ws arbitrary: n)
  case (Cons w ws)
  let ?A = "leak (Suc n) (w_items w)" and ?B = "leak_wits (n + wit_blocks w) ws"
  have "?A \<inter> ?B = {}"
    using leak_subset [of "Suc n" "w_items w"] leak_wits_subset [of "n + wit_blocks w" ws] by fastforce
  then show ?case
    using Cons.IH [of "n + wit_blocks w"] card_leak [of "Suc n" "w_items w"]
    by (simp add: card_Un_disjoint)
qed simp

text \<open>The scripts and stack items of a transaction.\<close>

definition scripts :: "ptx \<Rightarrow> byte list list" where
  "scripts t = map ti_script (p_ins t) @ map to_script (p_outs t) @ concat (map w_items (p_wits t))"

lemma card_tx_leak:
  "finite (tx_leak n t) \<and> card (tx_leak n t) = length (filter (\<lambda>x. x = []) (scripts t))"
proof -
  let ?o1 = "n + Suc (length (p_ins t))"
  let ?w1 = "?o1 + Suc (length (p_outs t))"
  let ?A = "leak (Suc n) (map ti_script (p_ins t))" and ?B = "leak (Suc ?o1) (map to_script (p_outs t))"
    and ?C = "leak_wits (Suc ?w1) (p_wits t)"
  have s: "?A \<subseteq> {Suc n..<?o1}" "?B \<subseteq> {Suc ?o1..<?w1}" "?C \<subseteq> {Suc ?w1..<Suc ?w1 + blocks (p_wits t)}"
    using leak_subset [of "Suc n" "map ti_script (p_ins t)"] leak_subset [of "Suc ?o1" "map to_script (p_outs t)"]
      leak_wits_subset [of "Suc ?w1" "p_wits t"] by simp_all
  then have "?A \<inter> ?B = {}" "(?A \<union> ?B) \<inter> ?C = {}" by fastforce+
  then show ?thesis
    using card_leak [of "Suc n" "map ti_script (p_ins t)"] card_leak [of "Suc ?o1" "map to_script (p_outs t)"]
      card_leak_wits [of "Suc ?w1" "p_wits t"]
    by (simp add: tx_leak_def scripts_def card_Un_disjoint)
qed

lemma tx_leak_subset: "tx_leak n t \<subseteq> {n..<n + tx_blocks t}"
proof -
  let ?o1 = "n + Suc (length (p_ins t))"
  let ?w1 = "?o1 + Suc (length (p_outs t))"
  show ?thesis
    using leak_subset [of "Suc n" "map ti_script (p_ins t)"] leak_subset [of "Suc ?o1" "map to_script (p_outs t)"]
      leak_wits_subset [of "Suc ?w1" "p_wits t"]
    by (fastforce simp: tx_leak_def tx_blocks_def)
qed

text \<open>A transaction used as the example of the witnesses: one input, one output, one stack item.\<close>

definition tiny_ptx :: ptx where
  "tiny_ptx = \<lparr>p_version = 2,
     p_ins = [\<lparr>ti_hash = replicate 32 7, ti_index = [1, 0, 0, 0], ti_script = [], ti_sequence = [255, 255, 255, 255]\<rparr>],
     p_outs = [\<lparr>to_value = [1, 2, 3, 4, 0, 0, 0, 0], to_script = [0x51]\<rparr>],
     p_wits = [\<lparr>w_value = 5, w_items = [[], [9, 9]]\<rparr>], p_locktime = 0\<rparr>"

definition sound_heap :: heap
  where "sound_heap = \<lparr>live = {}, calls = 0, fails = (\<lambda>_ _. False)\<rparr>"

lemma sound_heap [simp]: "no_oom sound_heap" "heap_ok sound_heap"
  by (simp_all add: sound_heap_def no_oom_def heap_ok_def)

lemma short_varint: "length xs < 0xfd \<Longrightarrow> varint (len64 xs) = [word_of_nat (length xs)]"
proof -
  assume l: "length xs < 0xfd"
  then have u: "unat (len64 xs) = length xs" by (simp add: unat_len64)
  then have "ucast (len64 xs) = (word_of_nat (length xs) :: byte)"
    using l by (simp add: word_unat_eq_iff unat_ucast_u8 unat_of_nat take_bit_nat_eq_self)
  then show ?thesis using u l by (simp add: varint_def word_less_nat_alt)
qed

lemma enc_tiny: "length (enc_ptx tiny_ptx) = 89"
  by (simp add: enc_ptx_def tiny_ptx_def enc_list_def enc_txin_def enc_txout_def enc_pwit_def blob_def
      partial_magic_def varint_def)

lemma wf_tiny: "wf_ptx tiny_ptx"
  unfolding wf_ptx_def enc_tiny
  by (simp add: tiny_ptx_def wf_txin_def wf_txout_def wf_witness_def short_blob_def)

text \<open>C34: Parsing is the inverse of the encoder: on the bytes of any well-formed partial
  transaction, whatever follows them, \<^verbatim>\<open>init_tx\<close> returns 0 and the structures it builds hold
  exactly that transaction, with the counters of the three lists; only new blocks are allocated.\<close>

theorem init_tx_parses:
  assumes "wf_ptx t" "no_oom h" "heap_ok h" "length (enc_ptx t @ rest) < 2 ^ 60"
  shows "\<exists>tx h'. init_tx (Some (enc_ptx t @ rest)) (len64 (enc_ptx t @ rest)) out h = Some (0, tx, h') \<and>
    abs_tx tx = t \<and> inputs_counter tx = len64 (p_ins t) \<and> outputs_counter tx = len64 (p_outs t) \<and>
    witnesses_counter tx = len64 (p_wits t) \<and> segwit_flag tx = 1 \<and>
    live h' = live h \<union> {calls h..<calls h'} \<and> live h \<inter> {calls h..<calls h'} = {}"
proof -
  have "inputs_counter (mk_tx n t) = len64 (p_ins t)" "outputs_counter (mk_tx n t) = len64 (p_outs t)"
    "witnesses_counter (mk_tx n t) = len64 (p_wits t)" "segwit_flag (mk_tx n t) = 1" for n
    by (simp_all add: mk_tx_def Let_def)
  moreover have "live h \<inter> {calls h..<calls h + tx_blocks t} = {}"
    using assms(3) by (auto simp: heap_ok_def)
  ultimately show ?thesis
    unfolding init_tx_enc [OF assms(1,2,4)] by (simp add: abs_mk_tx heap_simps)
qed

lemma init_tx_parses_witness:
  "\<exists>tx h'. init_tx (Some (enc_ptx tiny_ptx @ [1, 2])) 91 zero_tx sound_heap = Some (0, tx, h') \<and>
    abs_tx tx = tiny_ptx"
proof -
  have l: "length (enc_ptx tiny_ptx @ [1, 2 :: byte]) = 91" by (simp add: enc_tiny)
  show ?thesis
    using init_tx_parses [OF wf_tiny sound_heap, of "[1, 2]" zero_tx] unfolding l by auto
qed

text \<open>C36: \<^verbatim>\<open>free_tx\<close> after \<^verbatim>\<open>init_tx\<close> frees no block twice and none it does not own, and
  leaves exactly the blocks of the empty scripts and stack items allocated, one for each: the
  empty script of every segregated-witness input is a leak.\<close>

theorem free_tx_after_init_tx:
  assumes "wf_ptx t" "no_oom h" "heap_ok h" "length (enc_ptx t @ rest) < 2 ^ 60"
  shows "\<exists>tx h1 h2. init_tx (Some (enc_ptx t @ rest)) (len64 (enc_ptx t @ rest)) out h = Some (0, tx, h1) \<and>
    free_tx tx h1 = Some h2 \<and> live h \<subseteq> live h2 \<and>
    card (live h2 - live h) = length (filter (\<lambda>x. x = []) (scripts t))"
proof -
  let ?n = "calls h"
  let ?h2 = "free_set ({?n..<?n + tx_blocks t} - tx_leak ?n t) (alloc (tx_blocks t) h)"
  have "live h \<inter> {?n..<?n + tx_blocks t} = {}" using assms(3) by (auto simp: heap_ok_def)
  then have "live ?h2 - live h = tx_leak ?n t" "live h \<subseteq> live ?h2"
    using tx_leak_subset [of ?n t] by (auto simp: heap_simps)
  then show ?thesis
    using init_tx_enc [OF assms(1,2,4)] free_tx_mk_tx [OF assms(1,3)] card_tx_leak [of ?n t]
    by auto
qed

lemma free_tx_after_init_tx_witness:
  "\<exists>tx h1 h2. init_tx (Some (enc_ptx tiny_ptx)) 89 zero_tx sound_heap = Some (0, tx, h1) \<and>
    free_tx tx h1 = Some h2 \<and> card (live h2) = 2"
proof -
  have l: "length (enc_ptx tiny_ptx @ ([] :: byte list)) = 89" by (simp add: enc_tiny)
  have s: "length (filter (\<lambda>x. x = []) (scripts tiny_ptx)) = 2" "live sound_heap = {}"
    by (simp_all add: scripts_def tiny_ptx_def sound_heap_def)
  show ?thesis
    using free_tx_after_init_tx [OF wf_tiny sound_heap, of "[]" zero_tx] unfolding l s by auto
qed

text \<open>A buffer of at least 13 bytes whose first twelve are not the magic, the version 0, a
  version number and the marker and flag of a segregated-witness transaction is refused: nothing
  is allocated and the result structure is left as it was.\<close>

theorem init_tx_rejects_header:
  assumes "12 < length b" "length b < 2 ^ 64"
    and "take 5 b \<noteq> label_check \<or> b ! 5 \<noteq> 0 \<or> b ! 10 \<noteq> 0 \<or> b ! 11 \<noteq> 1"
  shows "init_tx (Some b) (len64 b) out h = Some (-1, out, h)"
proof -
  have r: "rd 5 b = Some (take 5 b)" "nth_ub 0 (adv 5 b) = Some (b ! 5)" "rd 4 (adv 6 b) = Some (take 4 (drop 6 b))"
    "nth_ub 0 (adv 10 b) = Some (b ! 10)" "nth_ub 0 (adv 11 b) = Some (b ! 11)"
    using assms(1) by (simp_all add: rd_def nth_ub_def adv_def)
  have "len64 b \<noteq> (0 :: u64)" using assms by (intro len64_ne_0) auto
  then show ?thesis using assms(3) r by (auto simp: init_tx_def)
qed

lemma init_tx_rejects_header_witness:
  "init_tx (Some (replicate 13 0)) 13 zero_tx sound_heap = Some (-1, zero_tx, sound_heap)"
  using init_tx_rejects_header [of "replicate 13 0" zero_tx sound_heap] by (simp add: label_check_def)

text \<open>When the counter of the inputs does not parse, \<^verbatim>\<open>init_tx\<close> goes on: on a header
  followed by a zero byte and at least five more it returns 0 with a transaction that has no
  inputs, no outputs and no witnesses, and reads the lock time from the position of the
  counters.\<close>

theorem init_tx_accepts_no_inputs:
  assumes "no_oom h" "5 \<le> length rest" "length rest < 2 ^ 60"
  shows "\<exists>tx h'. init_tx (Some (label_check @ 0 # u32_le v @ 0 # 1 # 0 # rest)) (len64 rest + 13) out h = Some (0, tx, h') \<and>
    inputs_counter tx = 0 \<and> inputs_list tx = NULL \<and> outputs_counter tx = 0 \<and> outputs_list tx = NULL \<and>
    witnesses_counter tx = 0 \<and> lock_time tx = le_u32 (0 # take 3 rest)"
proof -
  let ?b = "label_check @ 0 # u32_le v @ 0 # 1 # 0 # rest"
  define B where "B = len64 rest + 13"
  have u: "unat B = length rest + 13"
    using assms(3) unat_add_u64 [of "len64 rest" 13] by (simp add: B_def unat_len64)
  have u12: "unat (B - 12) = length rest + 1" using u by (simp add: unat_diff_u64)
  have f: "B \<noteq> 0" "\<not> B \<le> 12" "\<not> B - 12 < 6" "\<not> B < 16"
    using u u12 assms(2) by (auto simp: word_le_nat_alt word_less_nat_alt)
  have a: "adv 12 ?b = 0 # rest" by (simp add: adv_def label_check_def)
  have hd: "rd 5 ?b = Some label_check" "nth_ub 0 (adv 5 ?b) = Some 0"
    "rd 4 (adv 6 ?b) = Some (u32_le v)" "nth_ub 0 (adv 10 ?b) = Some 0" "nth_ub 0 (adv 11 ?b) = Some 1"
    by (simp_all add: adv_def rd_def nth_ub_def label_check_def)
  have c: "get_counter (Some (0 # rest)) 0 0 = Some (-1, 0, 0)"
    by (simp add: get_counter_def read_varint_len_head)
  have l: "rd 4 (0 # rest) = Some (0 # take 3 rest)" using assms(2) by (simp add: rd_def)
  show ?thesis
    unfolding B_def [symmetric]
    using f assms(1)
    by (simp add: init_tx_def hd init_tx_lists_def zero_tx_def a c init_inputs_def init_outputs_def
        get_inputs_counter_def get_outputs_counter_def init_witnesses_def malloc_alloc l Let_def)
qed

lemma init_tx_accepts_no_inputs_witness:
  "\<exists>tx h'. init_tx (Some [0x45, 0x50, 0x54, 0x46, 0xff, 0, 2, 0, 0, 0, 0, 1, 0, 1, 2, 3, 4, 5]) 18 zero_tx sound_heap
      = Some (0, tx, h') \<and> inputs_counter tx = 0 \<and> outputs_counter tx = 0 \<and> lock_time tx = 0x03020100"
  using init_tx_accepts_no_inputs [of sound_heap "[1, 2, 3, 4, 5]" 2 zero_tx]
  by (auto simp: label_check_def u32_le_def le_of_nat_numeral le_u32_def)

lemma le_of_nat_mod: "le_of_nat n (x mod 256 ^ n) = le_of_nat n x"
  using le_of_nat_of_le [of "le_of_nat n x" n] by (simp add: nat_of_le_of_nat)

text \<open>A script length of nine bytes (a value of \<^verbatim>\<open>2 ^ 32\<close> or more) is not read as the
  format has it: the code looks at its two low bytes only, refuses them below 253, and otherwise
  takes them as the length and goes on behind the nine bytes.\<close>

theorem nine_byte_length_misread:
  assumes "0xffffffff < unat n" "length pre + length rest < 2 ^ 60"
  shows "read_len (pre @ varint n @ rest) (len64 pre) =
    (let m = unat n mod 65536
     in if m < 253 then Some (-1, 0, len64 pre + 1)
        else Some (0, word_of_nat m, len64 (pre @ varint n)))"
proof -
  let ?m = "word_of_nat (unat n mod 65536) :: u16"
  have v: "varint n = 0xff # u64_le n" using assms(1) by (cases n rule: varint_cases) auto
  have mu: "unat ?m = unat n mod 65536" by (simp add: unat_of_nat take_bit_eq_mod)
  have "u64_le n = u16_le ?m @ le_of_nat 6 (unat n div 65536)"
  proof -
    have "u64_le n = le_of_nat 2 (unat n) @ le_of_nat 6 (unat n div 65536)"
      using le_of_nat_add [of 2 6 "unat n"] by (simp add: u64_le_def)
    moreover have "le_of_nat 2 (unat n) = le_of_nat 2 (unat n mod 65536)"
      using le_of_nat_mod [of 2 "unat n"] by simp
    ultimately show ?thesis by (simp add: u16_le_def mu)
  qed
  then have rv: "read_varint (Some (u64_le n @ rest)) 2 (Some (replicate 8 0)) =
      (if unat n mod 65536 < 253 then Some (-1, Some (replicate 8 0))
       else Some (0, Some (u16_le ?m @ replicate 6 0)))"
    by (simp add: read_varint_2 mu)
  have "le_u64 (u16_le ?m @ replicate 6 0) = word_of_nat (unat n mod 65536)"
    by (simp add: le_u64_def nat_of_le_append u16_le_def nat_of_le_of_nat mu)
  moreover have "adv (len64 pre) (pre @ varint n @ rest) = 0xff # u64_le n @ rest"
    using assms(2) by (simp add: v adv_len64)
  moreover have "adv (len64 (pre @ [0xff])) ((pre @ [0xff]) @ u64_le n @ rest) = u64_le n @ rest"
    using assms(2) by (intro adv_len64) simp
  then have "adv (len64 pre + 1) (pre @ varint n @ rest) = u64_le n @ rest"
    by (simp add: v add.commute)
  ultimately show ?thesis
    by (simp add: read_len_def read_varint_len_head rv Let_def v)
qed

lemma nine_byte_length_misread_witness:
  "read_len [0xff, 0, 1, 0, 0, 1, 0, 0, 0] 0 = Some (0, 256, 9)"
  using nine_byte_length_misread [of "0x100000100" "[]" "[]"]
  by (simp add: varint_def u64_le_def le_of_nat_numeral)

text \<open>The length of a script is not compared with what is left of the buffer: on one input
  whose script length \<^verbatim>\<open>k\<close> is larger than the rest of the buffer, \<^verbatim>\<open>init_inputs\<close> reads
  behind the end of the buffer.\<close>

theorem init_inputs_overread:
  assumes "length hash = 32" "length index = 4" "4 \<le> length rest" "length rest < unat k" "k < 0xfd" "no_oom h"
  shows "init_inputs (Some (1 # hash @ index @ k # rest)) (len64 rest + 38) cnt lst l h = None"
proof -
  have kb: "unat k < 256" using unat_lt2p [of k] by simp
  define B where "B = len64 rest + 38"
  have u: "unat B = length rest + 38"
    using assms(4) kb unat_add_u64 [of "len64 rest" 38] by (simp add: B_def unat_len64)
  have f: "\<not> B < 6" "\<not> B < 41"
    using u assms(3) by (auto simp: word_less_nat_alt)
  have c: "get_counter (Some (1 # ys)) 0 0 = Some (0, 1, 1)" for ys
    by (simp add: get_counter_def read_varint_len_head)
  have a: "adv 1 (x # ys) = ys" for x :: byte and ys by (simp add: adv_def)
  have hx: "adv 36 (hash @ index @ k # rest) = k # rest" "adv 37 (hash @ index @ k # rest) = rest"
    "rd 32 (hash @ index @ k # rest) = Some hash" "rd 4 (adv 32 (hash @ index @ k # rest)) = Some index"
    using assms(1,2) by (simp_all add: adv_def rd_def)
  have rl: "read_len (hash @ index @ k # rest) 36 = Some (0, ucast k, 37)"
    using assms(5) by (simp add: read_len_def hx read_varint_len_head)
  have uk: "unat (ucast k :: u64) = unat k"
    using kb by (simp add: unsigned_ucast_eq take_bit_nat_eq_self)
  have ov: "rd (unat k) rest = None" using assms(4) by (simp add: rd_def)
  show ?thesis
    unfolding B_def [symmetric]
    using f assms(6)
    by (simp add: init_inputs_def get_inputs_counter_def c malloc_alloc get_single_input_def a hx rl uk ov)
qed

lemma init_inputs_overread_witness:
  "init_inputs (Some (1 # replicate 32 7 @ [0, 0, 0, 0] @ 9 # [1, 2, 3, 4])) 42 0 NULL 0 sound_heap = None"
  using init_inputs_overread [of "replicate 32 7" "[0, 0, 0, 0]" "[1, 2, 3, 4]" 9 sound_heap 0 NULL 0]
  by simp

end
