(* ===== verification/Serialize_Correct.thy ===== *)
theory Serialize_Correct
imports Serialize Deserialize_Correct
begin

text \<open>
  The serializer of theory \<^verbatim>\<open>Serialize\<close> against the format of theory \<^verbatim>\<open>Wire_Format\<close>.
  When structures in memory represent a transaction (\<^verbatim>\<open>rep_tx\<close>: what the pointers lead to is
  live and holds its scripts) the computed length is the length of the encoding and the bytes
  written are the encoding.  The loops over arrays are verified once each, against the contracts
  of a function that measures (locale \<^verbatim>\<open>item_sizer\<close>) and writes (locale \<^verbatim>\<open>item_writer\<close>)
  one structure.  The structures built by the parser represent the transaction parsed, which
  connects the two components.
\<close>

section \<open>Structures that represent a transaction\<close>

text \<open>The pointer \<^verbatim>\<open>p\<close> leads to the bytes \<^verbatim>\<open>xs\<close>.\<close>

definition holds :: "heap \<Rightarrow> byte list ptr \<Rightarrow> byte list \<Rightarrow> bool"
  where "holds h p xs \<longleftrightarrow> mem_read p (length xs) h = Some xs"

definition rep_input :: "heap \<Rightarrow> spc_input \<Rightarrow> txin \<Rightarrow> bool" where
  "rep_input h st i \<longleftrightarrow> wf_txin i \<and> prev_tx_hash st = ti_hash i \<and> prev_tx_index st = ti_index i \<and>
     txin_script_len st = len64 (ti_script i) \<and> holds h (txin_script st) (ti_script i) \<and>
     sequence_no st = ti_sequence i"

definition rep_output :: "heap \<Rightarrow> spc_output \<Rightarrow> txout \<Rightarrow> bool" where
  "rep_output h st p \<longleftrightarrow> wf_txout p \<and> txout_value st = to_value p \<and>
     txout_script_len st = len64 (to_script p) \<and> holds h (txout_script st) (to_script p)"

definition rep_item :: "heap \<Rightarrow> op_item_st \<Rightarrow> byte list \<Rightarrow> bool" where
  "rep_item h st x \<longleftrightarrow> short_blob x \<and> op_item_len st = len64 x \<and> holds h (op_item st) x"

text \<open>A live array of structures that represent the elements of a list.\<close>

definition rep_array :: "(heap \<Rightarrow> 'a \<Rightarrow> 'x \<Rightarrow> bool) \<Rightarrow> heap \<Rightarrow> 'a list ptr \<Rightarrow> 'x list \<Rightarrow> bool" where
  "rep_array rep h lst xs \<longleftrightarrow> lst \<noteq> NULL \<and> (case deref lst h of None \<Rightarrow> False
     | Some arr \<Rightarrow> list_all2 (rep h) arr xs)"

definition rep_witness :: "heap \<Rightarrow> spc_witness \<Rightarrow> witness \<Rightarrow> bool" where
  "rep_witness h st w \<longleftrightarrow> w_items w \<noteq> [] \<and> wit_value st = w_value w \<and>
     op_items_counter st = len64 (w_items w) \<and> rep_array rep_item h (op_items_list st) (w_items w)"

definition rep_tx :: "heap \<Rightarrow> spc_tx \<Rightarrow> ptx \<Rightarrow> bool" where
  "rep_tx h tx t \<longleftrightarrow> nversion tx = p_version t \<and> segwit_flag tx = 1 \<and> lock_time tx = p_locktime t \<and>
     rep_array rep_input h (inputs_list tx) (p_ins t) \<and> inputs_counter tx = len64 (p_ins t) \<and>
     rep_array rep_output h (outputs_list tx) (p_outs t) \<and> outputs_counter tx = len64 (p_outs t) \<and>
     rep_array rep_witness h (witnesses_list tx) (p_wits t) \<and> witnesses_counter tx = len64 (p_wits t)"

text \<open>Temporaries: after a block was allocated and freed only the number of calls has changed.\<close>

definition tick :: "nat \<Rightarrow> heap \<Rightarrow> heap"
  where "tick k h = h\<lparr>calls := calls h + k\<rparr>"

lemma tick_simps [heap_simps]:
  "live (tick k h) = live h" "calls (tick k h) = calls h + k" "tick 0 h = h"
  "tick b (tick a h) = tick (a + b) h"
  by (simp_all add: tick_def add.assoc)

lemma tick_no_oom [simp]: "no_oom (tick k h) = no_oom h"
  by (simp add: tick_def)

lemma tick_heap_ok [intro]: "heap_ok h \<Longrightarrow> heap_ok (tick k h)"
  by (auto simp: heap_ok_def tick_def)

lemma deref_tick [simp]: "deref p (tick k h) = deref p h"
  by (cases p) (simp_all add: tick_def)

lemma mem_read_tick [simp]: "mem_read p n (tick k h) = mem_read p n h"
  by (simp add: mem_read_def)

lemma rep_tick [simp]:
  "rep_input (tick k h) = rep_input h" "rep_output (tick k h) = rep_output h"
  "rep_item (tick k h) = rep_item h"
  by (simp_all add: fun_eq_iff rep_input_def rep_output_def rep_item_def holds_def)

lemma rep_array_tick: "rep (tick k h) = rep h \<Longrightarrow> rep_array rep (tick k h) = rep_array rep h"
  by (intro ext) (simp add: rep_array_def split: option.split)

lemma rep_witness_tick [simp]: "rep_witness (tick k h) = rep_witness h"
  by (intro ext) (simp add: rep_witness_def rep_array_tick)

lemma malloc_free:
  "\<lbrakk>no_oom h; heap_ok h\<rbrakk> \<Longrightarrow>
   malloc sz h = (Some (calls h), alloc 1 h) \<and> free_blk (calls h) (alloc 1 h) = Some (tick 1 h)"
proof -
  assume "no_oom h" and ok: "heap_ok h"
  have "calls h \<notin> live h" using ok by (auto simp: heap_ok_def)
  then show ?thesis using \<open>no_oom h\<close>
    by (auto simp: malloc_alloc free_blk_def alloc_def tick_def)
qed

section \<open>Lengths\<close>

lemma known_gen_varint_len [simp]: "known_len (gen_varint_len n)"
  by (simp add: known_len_def gen_varint_len_def)

text \<open>The contract of the functions that measure one structure, and the loop over an array.\<close>

locale item_sizer =
  fixes f :: "'a sizer"
    and enc :: "'x \<Rightarrow> byte list"
    and rep :: "heap \<Rightarrow> 'a \<Rightarrow> 'x \<Rightarrow> bool"
  assumes sizer: "rep h st x \<Longrightarrow> f st out h = Some (0, len64 (enc x))"
begin

lemma hex_len_loop_enc:
  "\<lbrakk>deref lst h = Some (done' @ sts); list_all2 (rep h) sts xs; length done' = i\<rbrakk> \<Longrightarrow>
   hex_len_loop f (length xs) i lst h counter = Some (0, counter + len64 (concat (map enc xs)))"
proof (induction xs arbitrary: done' sts i counter)
  case (Cons x xs)
  then obtain st sts' where sts: "sts = st # sts'" "rep h st x" "list_all2 (rep h) sts' xs"
    by (cases sts) auto
  have "hex_len_loop f (length xs) (Suc i) lst h (counter + len64 (enc x)) =
      Some (0, (counter + len64 (enc x)) + len64 (concat (map enc xs)))"
    using Cons.prems sts by (intro Cons.IH [of "done' @ [st]" sts']) simp_all
  then show ?case
    using Cons.prems sts by (simp add: buf_simps sizer add.assoc)
qed simp

lemma hex_len_array:
  "\<lbrakk>rep_array rep h lst xs; length xs < 2 ^ 64\<rbrakk> \<Longrightarrow>
   hex_len_loop f (unat (len64 xs)) 0 lst h counter = Some (0, counter + len64 (concat (map enc xs)))"
  using hex_len_loop_enc [of lst h "[]" _ xs 0 counter]
  by (auto simp: rep_array_def unat_len64 split: option.splits)

end

interpretation input_size: item_sizer get_single_input_hex_len enc_txin rep_input
  by unfold_locales
    (simp add: get_single_input_hex_len_def rep_input_def ucast_gen_varint_len enc_txin_def blob_def wf_txin_def Let_def)

interpretation output_size: item_sizer get_single_output_hex_len enc_txout rep_output
  by unfold_locales
    (simp add: get_single_output_hex_len_def rep_output_def ucast_gen_varint_len enc_txout_def blob_def wf_txout_def Let_def)

interpretation op_item_size: item_sizer get_single_op_item_hex_len blob rep_item
  by unfold_locales
    (simp add: get_single_op_item_hex_len_def rep_item_def ucast_gen_varint_len blob_def Let_def)

lemma single_witness_size:
  assumes "rep_witness h st w" "length (w_items w) < 2 ^ 64"
  shows "get_single_witness_hex_len st out h = Some (0, len64 (enc_wit w))"
  using assms op_item_size.hex_len_array [of h "op_items_list st" "w_items w"]
  by (simp add: get_single_witness_hex_len_def rep_witness_def enc_wit_def enc_list_def ucast_gen_varint_len)

text \<open>A witness whose items can be counted in 64 bits.\<close>

definition rep_witness' :: "heap \<Rightarrow> spc_witness \<Rightarrow> witness \<Rightarrow> bool"
  where "rep_witness' h st w \<longleftrightarrow> rep_witness h st w \<and> length (w_items w) < 2 ^ 64"

lemma rep_witness'_tick [simp]: "rep_witness' (tick k h) = rep_witness' h"
  by (intro ext) (simp add: rep_witness'_def)

interpretation witness_size: item_sizer get_single_witness_hex_len enc_wit rep_witness'
  by unfold_locales (simp add: rep_witness'_def single_witness_size)

section \<open>Bytes\<close>

lemma put_varint_eq:
  assumes "no_oom h" "heap_ok h" "unat c = length pre" "length (varint n) \<le> length dst"
  shows "put_varint n c (pre @ dst) h =
    Some (0, pre @ varint n @ drop (length (varint n)) dst, c + len64 (varint n), tick 1 h)"
proof -
  have "gen_varint n (gen_varint_len n) (Some (replicate (length (varint n)) 0)) = Some (0, Some (varint n))"
    using gen_varint_eq [of n "replicate (length (varint n)) 0"] by simp
  moreover have "malloc sz h = (Some (calls h), alloc 1 h)" "free_blk (calls h) (alloc 1 h) = Some (tick 1 h)" for sz
    using malloc_free [OF assms(1,2)] by simp_all
  moreover have "wr (unat c) (varint n) (pre @ dst) = Some (pre @ varint n @ drop (length (varint n)) dst)"
    using assms by (intro wr_app) simp_all
  ultimately show ?thesis
    by (simp add: put_varint_def unat_gen_varint_len ucast_gen_varint_len Let_def)
qed

text \<open>The contract of the functions that write one structure: enough room in the buffer gives the
  encoding, and only temporaries are allocated.\<close>

locale item_writer =
  fixes w :: "'a writer"
    and enc :: "'x \<Rightarrow> byte list"
    and rep :: "heap \<Rightarrow> 'a \<Rightarrow> 'x \<Rightarrow> bool"
    and nt :: "'x \<Rightarrow> nat"
  assumes writer: "\<lbrakk>rep h st x; no_oom h; heap_ok h; length (enc x) \<le> length b; length b < 2 ^ 64\<rbrakk> \<Longrightarrow>
      w st b out h = Some (0, enc x @ drop (length (enc x)) b, len64 (enc x), tick (nt x) h)"
    and rep_tick': "rep (tick k h) = rep h"
begin

lemma serialize_loop_enc:
  "\<lbrakk>deref lst h = Some (done' @ sts); list_all2 (rep h) sts xs; length done' = i; no_oom h; heap_ok h;
    length (concat (map enc xs)) \<le> length b; length pre + length b < 2 ^ 64\<rbrakk> \<Longrightarrow>
   serialize_loop w (length xs) i lst (pre @ b) (len64 pre) h =
   Some (0, pre @ concat (map enc xs) @ drop (length (concat (map enc xs))) b,
         len64 (pre @ concat (map enc xs)), tick (sum_list (map nt xs)) h)"
proof (induction xs arbitrary: done' sts i pre b h)
  case (Cons x xs)
  then obtain st sts' where sts: "sts = st # sts'" "rep h st x" "list_all2 (rep h) sts' xs"
    by (cases sts) auto
  have a: "adv (len64 pre) (pre @ b) = b" using Cons.prems by (intro adv_len64) simp
  have s: "splice (len64 pre) (pre @ b) tail = pre @ tail" for tail
    using Cons.prems by (simp add: splice_def unat_len64)
  have one: "w st b 0 h = Some (0, enc x @ drop (length (enc x)) b, len64 (enc x), tick (nt x) h)"
    using Cons.prems sts by (intro writer) simp_all
  have "serialize_loop w (length xs) (Suc i) lst ((pre @ enc x) @ drop (length (enc x)) b)
      (len64 (pre @ enc x)) (tick (nt x) h) =
    Some (0, (pre @ enc x) @ concat (map enc xs) @ drop (length (concat (map enc xs))) (drop (length (enc x)) b),
      len64 ((pre @ enc x) @ concat (map enc xs)), tick (sum_list (map nt xs)) (tick (nt x) h))"
    using Cons.prems sts
    by (intro Cons.IH [of _ "done' @ [st]" sts']) (auto simp: rep_tick')
  then show ?case
    using Cons.prems(1,3) sts a one by (simp add: buf_simps s heap_simps add.commute)
qed (simp add: heap_simps)

lemma serialize_array:
  "\<lbrakk>rep_array rep h lst xs; no_oom h; heap_ok h;
    length (concat (map enc xs)) \<le> length b; length pre + length b < 2 ^ 64; length xs < 2 ^ 64\<rbrakk> \<Longrightarrow>
   serialize_loop w (unat (len64 xs)) 0 lst (pre @ b) (len64 pre) h =
   Some (0, pre @ concat (map enc xs) @ drop (length (concat (map enc xs))) b,
         len64 (pre @ concat (map enc xs)), tick (sum_list (map nt xs)) h)"
  using serialize_loop_enc [of lst h "[]" _ xs 0 b pre]
  by (auto simp: rep_array_def unat_len64 split: option.splits)

lemma serialize_list:
  assumes rep: "rep_array rep h lst xs" and h: "no_oom h" "heap_ok h"
    and len: "length (enc_list enc xs) \<le> length b" "length b < 2 ^ 64" and xs: "length xs < 2 ^ 60"
  shows "put_varint (len64 xs) 0 b h = Some (0, varint (len64 xs) @ drop (length (varint (len64 xs))) b, len64 (varint (len64 xs)), tick 1 h) \<and>
    serialize_loop w (unat (len64 xs)) 0 lst (varint (len64 xs) @ drop (length (varint (len64 xs))) b)
      (len64 (varint (len64 xs))) (tick 1 h) =
    Some (0, enc_list enc xs @ drop (length (enc_list enc xs)) b, len64 (enc_list enc xs),
      tick (Suc (sum_list (map nt xs))) h)"
proof
  let ?v = "varint (len64 xs)"
  have l: "length ?v \<le> length b" using len by (simp add: enc_list_def)
  then show "put_varint (len64 xs) 0 b h = Some (0, ?v @ drop (length ?v) b, len64 ?v, tick 1 h)"
    using put_varint_eq [OF h, of 0 "[]" "len64 xs" b] by simp
  have "serialize_loop w (unat (len64 xs)) 0 lst (?v @ drop (length ?v) b) (len64 ?v) (tick 1 h) =
    Some (0, ?v @ concat (map enc xs) @ drop (length (concat (map enc xs))) (drop (length ?v) b),
      len64 (?v @ concat (map enc xs)), tick (sum_list (map nt xs)) (tick 1 h))"
    using assms l by (intro serialize_array) (auto simp: rep_array_tick rep_tick' enc_list_def)
  then show "serialize_loop w (unat (len64 xs)) 0 lst (?v @ drop (length ?v) b) (len64 ?v) (tick 1 h) =
    Some (0, enc_list enc xs @ drop (length (enc_list enc xs)) b, len64 (enc_list enc xs), tick (Suc (sum_list (map nt xs))) h)"
    by (simp add: enc_list_def heap_simps add.commute)
qed

end

lemma wr_fits:
  "\<lbrakk>length pre = off; length src \<le> length dst\<rbrakk> \<Longrightarrow> wr off src (pre @ dst) = Some (pre @ src @ drop (length src) dst)"
  by (rule wr_app)

lemma serialize_single_op_item_enc:
  assumes rep: "rep_item h st x" and h: "no_oom h" "heap_ok h"
    and len: "length (blob x) \<le> length b" "length b < 2 ^ 64"
  shows "serialize_single_op_item st b out h = Some (0, blob x @ drop (length (blob x)) b, len64 (blob x), tick 1 h)"
proof -
  let ?v = "varint (len64 x)"
  have x: "op_item_len st = len64 x" "unat (len64 x) = length x" "mem_read (op_item st) (length x) h = Some x"
    using rep by (auto simp: rep_item_def holds_def short_blob_def unat_len64)
  have v: "length ?v \<le> length b" "length x \<le> length (drop (length ?v) b)" using len by (auto simp: blob_def)
  have uv: "unat (len64 ?v) = length ?v" using len v by (intro unat_len64) simp
  have "wr (length ?v) x (?v @ drop (length ?v) b) = Some (?v @ x @ drop (length x) (drop (length ?v) b))"
    using v by (intro wr_fits) simp_all
  then show ?thesis
    using put_varint_eq [OF h, of 0 "[]" "len64 x" b] v x uv
    by (simp add: serialize_single_op_item_def blob_def add.commute)
qed

lemma serialize_single_input_enc:
  assumes rep: "rep_input h st i" and h: "no_oom h" "heap_ok h"
    and len: "length (enc_txin i) \<le> length b" "length b < 2 ^ 64"
  shows "serialize_single_input st b out h =
    Some (0, enc_txin i @ drop (length (enc_txin i)) b, len64 (enc_txin i), tick 1 h)"
proof -
  let ?s = "ti_script i" and ?q = "ti_sequence i" and ?hx = "ti_hash i @ ti_index i"
  let ?v = "varint (len64 (ti_script i))"
  have w: "length (ti_hash i) = 32" "length (ti_index i) = 4" "length ?q = 4" "unat (len64 ?s) = length ?s"
    using rep by (auto simp: rep_input_def wf_txin_def short_blob_def unat_len64)
  have f: "prev_tx_hash st = ti_hash i" "prev_tx_index st = ti_index i" "txin_script_len st = len64 ?s"
    "sequence_no st = ?q" "mem_read (txin_script st) (length ?s) h = Some ?s"
    using rep by (auto simp: rep_input_def holds_def)
  define b1 where "b1 = drop 36 b"
  define b2 where "b2 = drop (length ?v) b1"
  define b3 where "b3 = drop (length ?s) b2"
  have l: "length ?v \<le> length b1" "length ?s \<le> length b2" "length ?q \<le> length b3" "32 \<le> length b" "36 \<le> length b"
    using len w by (simp_all add: b1_def b2_def b3_def enc_txin_def blob_def)
  have s1: "wr 0 (ti_hash i) b = Some (ti_hash i @ drop 32 b)" using l w by (simp add: wr_def)
  have s2: "wr 32 (ti_index i) (ti_hash i @ drop 32 b) = Some (?hx @ b1)" using l w by (simp add: wr_def b1_def)
  have s3: "put_varint (len64 ?s) 36 (?hx @ b1) h = Some (0, (?hx @ ?v) @ b2, 36 + len64 ?v, tick 1 h)"
    using put_varint_eq [OF h, of 36 ?hx "len64 ?s" b1] l w by (simp add: b2_def)
  define c where "c = 36 + len64 ?v"
  have "len64 (?hx @ ?v) = c" using w by (simp add: c_def)
  moreover have "length (?hx @ ?v) < 2 ^ 64" "length (?hx @ ?v @ ?s) < 2 ^ 64"
    using len w by (auto simp: enc_txin_def blob_def)
  ultimately have uc: "unat c = length (?hx @ ?v)" "unat (c + len64 ?s) = length (?hx @ ?v @ ?s)"
    using unat_len64 [of "?hx @ ?v"] unat_len64 [of "?hx @ ?v @ ?s"]
    by (auto simp flip: add.assoc)
  have s4: "wr (unat c) ?s ((?hx @ ?v) @ b2) = Some ((?hx @ ?v @ ?s) @ b3)"
    using wr_fits [of "?hx @ ?v" "unat c" ?s b2] l uc by (simp add: b3_def)
  have s5: "wr (unat (c + len64 ?s)) ?q ((?hx @ ?v @ ?s) @ b3) = Some ((?hx @ ?v @ ?s @ ?q) @ drop 4 b3)"
    using wr_fits [of "?hx @ ?v @ ?s" "unat (c + len64 ?s)" ?q b3] l uc w by simp
  have r: "rd 32 (ti_hash i) = Some (ti_hash i)" "rd 4 (ti_index i) = Some (ti_index i)" "rd 4 ?q = Some ?q"
    using w by (simp_all add: rd_def)
  have e: "enc_txin i = ?hx @ ?v @ ?s @ ?q" by (simp add: enc_txin_def blob_def)
  have e': "len64 (enc_txin i) = c + len64 ?s + 4" using w by (simp add: e c_def add_ac)
  have d: "drop 4 b3 = drop (length (enc_txin i)) b"
    using w by (simp add: b1_def b2_def b3_def e add_ac)
  show ?thesis
    unfolding d [symmetric] e'
    using s1 s2 s3 [folded c_def] s4 s5 r w f
    by (simp add: serialize_single_input_def Let_def e)
qed

lemma serialize_single_output_enc:
  assumes rep: "rep_output h st p" and h: "no_oom h" "heap_ok h"
    and len: "length (enc_txout p) \<le> length b" "length b < 2 ^ 64"
  shows "serialize_single_output st b out h =
    Some (0, enc_txout p @ drop (length (enc_txout p)) b, len64 (enc_txout p), tick 1 h)"
proof -
  let ?x = "to_value p" and ?s = "to_script p"
  let ?v = "varint (len64 (to_script p))"
  have w: "length ?x = 8" "unat (len64 ?s) = length ?s"
    using rep by (auto simp: rep_output_def wf_txout_def short_blob_def unat_len64)
  have f: "txout_value st = ?x" "txout_script_len st = len64 ?s" "mem_read (txout_script st) (length ?s) h = Some ?s"
    using rep by (auto simp: rep_output_def holds_def)
  define b1 where "b1 = drop 8 b"
  define b2 where "b2 = drop (length ?v) b1"
  have l: "length ?v \<le> length b1" "length ?s \<le> length b2" "8 \<le> length b"
    using len w by (simp_all add: b1_def b2_def enc_txout_def blob_def)
  have s1: "wr 0 ?x b = Some (?x @ b1)" using l w by (simp add: wr_def b1_def)
  have s3: "put_varint (len64 ?s) 8 (?x @ b1) h = Some (0, (?x @ ?v) @ b2, 8 + len64 ?v, tick 1 h)"
    using put_varint_eq [OF h, of 8 ?x "len64 ?s" b1] l w by (simp add: b2_def)
  define c where "c = 8 + len64 ?v"
  have "len64 (?x @ ?v) = c" using w by (simp add: c_def)
  moreover have "length (?x @ ?v) < 2 ^ 64" using len w by (auto simp: enc_txout_def blob_def)
  ultimately have uc: "unat c = length (?x @ ?v)" using unat_len64 [of "?x @ ?v"] by simp
  have s4: "wr (unat c) ?s ((?x @ ?v) @ b2) = Some ((?x @ ?v @ ?s) @ drop (length ?s) b2)"
    using wr_fits [of "?x @ ?v" "unat c" ?s b2] l uc by simp
  have r: "rd 8 ?x = Some ?x" using w by (simp add: rd_def)
  have e: "enc_txout p = ?x @ ?v @ ?s" by (simp add: enc_txout_def blob_def)
  have e': "len64 (enc_txout p) = c + len64 ?s" using w by (simp add: e c_def add_ac)
  have d: "drop (length ?s) b2 = drop (length (enc_txout p)) b"
    using w by (simp add: b1_def b2_def e add_ac)
  show ?thesis
    unfolding d [symmetric] e'
    using s1 s3 [folded c_def] s4 r w f
    by (simp add: serialize_single_output_def Let_def e)
qed

interpretation input_wr: item_writer serialize_single_input enc_txin rep_input "\<lambda>_. 1"
  by unfold_locales (simp_all add: serialize_single_input_enc)

interpretation output_wr: item_writer serialize_single_output enc_txout rep_output "\<lambda>_. 1"
  by unfold_locales (simp_all add: serialize_single_output_enc)

interpretation op_item_wr: item_writer serialize_single_op_item blob rep_item "\<lambda>_. 1"
  by unfold_locales (simp_all add: serialize_single_op_item_enc)

lemma serialize_single_witness_enc:
  assumes rep: "rep_witness' h st w" and h: "no_oom h" "heap_ok h"
    and len: "length (enc_wit w) \<le> length b" "length b < 2 ^ 64"
  shows "serialize_single_witness st b out h =
    Some (0, enc_wit w @ drop (length (enc_wit w)) b, len64 (enc_wit w), tick (Suc (length (w_items w))) h)"
proof -
  let ?xs = "w_items w" and ?v = "varint (len64 (w_items w))"
  let ?c = "concat (map blob (w_items w))"
  have r: "op_items_counter st = len64 ?xs" "rep_array rep_item h (op_items_list st) ?xs" "length ?xs < 2 ^ 64"
    using rep by (auto simp: rep_witness'_def rep_witness_def)
  have e: "enc_wit w = ?v @ ?c" by (simp add: enc_wit_def enc_list_def)
  have l: "length ?v \<le> length b" "length ?c \<le> length (drop (length ?v) b)" using len by (simp_all add: e)
  have s1: "put_varint (len64 ?xs) 0 b h = Some (0, ?v @ drop (length ?v) b, len64 ?v, tick 1 h)"
    using put_varint_eq [OF h, of 0 "[]" "len64 ?xs" b] l by simp
  have s2: "serialize_loop serialize_single_op_item (unat (len64 ?xs)) 0 (op_items_list st) (?v @ drop (length ?v) b)
      (len64 ?v) (tick 1 h) =
    Some (0, ?v @ ?c @ drop (length ?c) (drop (length ?v) b), len64 (?v @ ?c), tick (sum_list (map (\<lambda>_. 1) ?xs)) (tick 1 h))"
    using r h l len by (intro op_item_wr.serialize_array) (auto simp: rep_array_tick)
  show ?thesis
    using s1 s2 r
    by (simp add: serialize_single_witness_def e heap_simps sum_list_triv add.commute)
qed

interpretation witness_wr: item_writer serialize_single_witness enc_wit rep_witness' wit_blocks
  by unfold_locales (simp_all add: serialize_single_witness_enc)

section \<open>The whole transaction\<close>

lemma rep_array_ne_NULL: "rep_array rep h lst xs \<Longrightarrow> lst \<noteq> NULL"
  by (simp add: rep_array_def)

lemma rep_witness'_array:
  assumes "rep_array rep_witness h lst ws" "length (concat (map enc_wit ws)) < 2 ^ 64"
  shows "rep_array rep_witness' h lst ws"
proof -
  have "length (w_items w) < 2 ^ 64" if "w \<in> set ws" for w
  proof -
    have "1 * length (w_items w) \<le> length (concat (map blob (w_items w)))"
      by (intro length_concat_ge length_blob_ge)
    then have "length (w_items w) \<le> length (enc_wit w)" by (simp add: enc_wit_def enc_list_def)
    also have "\<dots> \<le> length (concat (map enc_wit ws))" using that by (rule concat_le)
    finally show ?thesis using assms(2) by simp
  qed
  then have "list_all2 (rep_witness' h) arr ws" if "list_all2 (rep_witness h) arr ws" for arr
    using that by (auto simp: list_all2_conv_all_nth rep_witness'_def)
  then show ?thesis using assms(1) by (auto simp: rep_array_def split: option.splits)
qed

text \<open>The transactions that can be written: the three lists are not empty and the result has
  less than \<^verbatim>\<open>2 ^ 60\<close> bytes.\<close>

definition writable_tx :: "ptx \<Rightarrow> bool" where
  "writable_tx t \<longleftrightarrow> p_ins t \<noteq> [] \<and> p_outs t \<noteq> [] \<and> p_wits t \<noteq> [] \<and> length (enc_stx t) < 2 ^ 60"

lemma length_blob_ge_1: "1 \<le> length (varint n @ xs)"
  by (simp add: varint_def)

lemma rep_array_all:
  "\<lbrakk>rep_array rep h lst xs; \<And>st x. rep h st x \<Longrightarrow> P x\<rbrakk> \<Longrightarrow> list_all P xs"
  by (auto simp: rep_array_def list_all2_conv_all_nth list_all_length split: option.splits)

lemma rep_tx_small:
  assumes "rep_tx h tx t" "length (enc_stx t) < 2 ^ 60"
  shows "length (p_ins t) < 2 ^ 60" "length (p_outs t) < 2 ^ 60" "length (p_wits t) < 2 ^ 60"
    "length (concat (map enc_wit (p_wits t))) < 2 ^ 60"
proof -
  have l: "length (enc_list enc_txin (p_ins t)) + length (enc_list enc_txout (p_outs t))
      + length (concat (map enc_wit (p_wits t))) < 2 ^ 60"
    using assms(2) by (simp add: enc_stx_def)
  have "1 * length (p_ins t) \<le> length (concat (map enc_txin (p_ins t)))"
    by (intro length_concat_ge) (simp add: enc_txin_def blob_def varint_def)
  then show "length (p_ins t) < 2 ^ 60" using l by (simp add: enc_list_def)
  have "1 * length (p_outs t) \<le> length (concat (map enc_txout (p_outs t)))"
    by (intro length_concat_ge) (simp add: enc_txout_def blob_def varint_def)
  then show "length (p_outs t) < 2 ^ 60" using l by (simp add: enc_list_def)
  have "1 * length (p_wits t) \<le> length (concat (map enc_wit (p_wits t)))"
    by (intro length_concat_ge) (simp add: enc_wit_def enc_list_def varint_def)
  then show "length (p_wits t) < 2 ^ 60" using l by simp
  show "length (concat (map enc_wit (p_wits t))) < 2 ^ 60" using l by simp
qed

lemma get_tx_hex_len_enc:
  assumes rep: "rep_tx h tx t" and w: "writable_tx t"
  shows "get_tx_hex_len tx out h = Some (0, len64 (enc_stx t))"
proof -
  have f: "rep_array rep_input h (inputs_list tx) (p_ins t)" "inputs_counter tx = len64 (p_ins t)"
    "rep_array rep_output h (outputs_list tx) (p_outs t)" "outputs_counter tx = len64 (p_outs t)"
    "rep_array rep_witness h (witnesses_list tx) (p_wits t)" "witnesses_counter tx = len64 (p_wits t)"
    using rep by (auto simp: rep_tx_def)
  have ne: "p_ins t \<noteq> []" "p_outs t \<noteq> []" "p_wits t \<noteq> []" and l: "length (enc_stx t) < 2 ^ 60"
    using w by (auto simp: writable_tx_def)
  note small = rep_tx_small [OF rep l]
  have nz: "len64 (p_ins t) \<noteq> (0 :: u64)" "len64 (p_outs t) \<noteq> (0 :: u64)" "len64 (p_wits t) \<noteq> (0 :: u64)"
    using ne small len64_ne_0 [of "p_ins t"] len64_ne_0 [of "p_outs t"] len64_ne_0 [of "p_wits t"] by simp_all
  have i: "get_inputs_hex_len (inputs_list tx) (len64 (p_ins t)) 0 h = Some (0, len64 (enc_list enc_txin (p_ins t)))"
    using f(1) nz(1) small(1) input_size.hex_len_array [OF f(1)]
    by (auto simp: get_inputs_hex_len_def ucast_gen_varint_len enc_list_def rep_array_ne_NULL)
  have o: "get_outputs_hex_len (outputs_list tx) (len64 (p_outs t)) 0 h = Some (0, len64 (enc_list enc_txout (p_outs t)))"
    using f(3) nz(2) small(2) output_size.hex_len_array [OF f(3)]
    by (auto simp: get_outputs_hex_len_def ucast_gen_varint_len enc_list_def rep_array_ne_NULL)
  have r: "rep_array rep_witness' h (witnesses_list tx) (p_wits t)"
    using f(5) small(4) by (intro rep_witness'_array) simp_all
  have w: "get_witnesses_hex_len (witnesses_list tx) (len64 (p_wits t)) 0 h = Some (0, len64 (concat (map enc_wit (p_wits t))))"
    using nz(3) small(3) witness_size.hex_len_array [OF r]
    by (auto simp: get_witnesses_hex_len_def rep_array_ne_NULL [OF f(5)])
  show ?thesis
    by (simp add: get_tx_hex_len_def f i o w enc_stx_def add_ac)
qed

lemma serialize_inputs_enc:
  assumes rep: "rep_array rep_input h lst xs" and ne: "xs \<noteq> []" "length xs < 2 ^ 60" and h: "no_oom h" "heap_ok h"
    and len: "length (enc_list enc_txin xs) \<le> length b" "length b < 2 ^ 64"
  shows "serialize_inputs lst (len64 xs) b out h =
    Some (0, enc_list enc_txin xs @ drop (length (enc_list enc_txin xs)) b, len64 (enc_list enc_txin xs),
      tick (Suc (length xs)) h)"
  using input_wr.serialize_list [OF rep h len ne(2)] len64_ne_0 [OF ne(1)] ne(2) rep_array_ne_NULL [OF rep]
  by (simp add: serialize_inputs_def sum_list_triv)

lemma serialize_outputs_enc:
  assumes rep: "rep_array rep_output h lst xs" and ne: "xs \<noteq> []" "length xs < 2 ^ 60" and h: "no_oom h" "heap_ok h"
    and len: "length (enc_list enc_txout xs) \<le> length b" "length b < 2 ^ 64"
  shows "serialize_outputs lst (len64 xs) b out h =
    Some (0, enc_list enc_txout xs @ drop (length (enc_list enc_txout xs)) b, len64 (enc_list enc_txout xs),
      tick (Suc (length xs)) h)"
  using output_wr.serialize_list [OF rep h len ne(2)] len64_ne_0 [OF ne(1)] ne(2) rep_array_ne_NULL [OF rep]
  by (simp add: serialize_outputs_def sum_list_triv)

lemma serialize_witnesses_enc:
  assumes rep: "rep_array rep_witness' h lst ws" and ne: "ws \<noteq> []" "length ws < 2 ^ 60" and h: "no_oom h" "heap_ok h"
    and len: "length (concat (map enc_wit ws)) \<le> length b" "length b < 2 ^ 64"
  shows "serialize_witnesses lst (len64 ws) b out h =
    Some (0, concat (map enc_wit ws) @ drop (length (concat (map enc_wit ws))) b, len64 (concat (map enc_wit ws)),
      tick (blocks ws) h)"
proof -
  have "serialize_loop serialize_single_witness (unat (len64 ws)) 0 lst ([] @ b) (len64 ([] :: byte list)) h =
    Some (0, [] @ concat (map enc_wit ws) @ drop (length (concat (map enc_wit ws))) b,
         len64 ([] @ concat (map enc_wit ws)), tick (blocks ws) h)"
    using assms by (intro witness_wr.serialize_array) simp_all
  then show ?thesis
    using len64_ne_0 [OF ne(1)] ne(2) rep_array_ne_NULL [OF rep] by (simp add: serialize_witnesses_def)
qed

lemma splice_len64: "length pre < 2 ^ 64 \<Longrightarrow> splice (len64 pre) (pre @ b) tail = pre @ tail"
  by (simp add: splice_def unat_len64)

definition tx_ticks :: "ptx \<Rightarrow> nat" where
  "tx_ticks t = Suc (length (p_ins t)) + Suc (length (p_outs t)) + blocks (p_wits t)"

lemma serialize_tx_enc:
  assumes rep: "rep_tx h tx t" and w: "writable_tx t" and h: "no_oom h" "heap_ok h"
    and len: "length (enc_stx t) \<le> length b" "length b < 2 ^ 64"
  shows "serialize_tx tx (Some b) out h =
    Some (0, Some (enc_stx t @ drop (length (enc_stx t)) b), len64 (enc_stx t), tick (tx_ticks t) h)"
proof -
  let ?i = "enc_list enc_txin (p_ins t)" and ?o = "enc_list enc_txout (p_outs t)"
    and ?w = "concat (map enc_wit (p_wits t))" and ?l = "u32_le (p_locktime t)"
  have f: "rep_array rep_input h (inputs_list tx) (p_ins t)" "inputs_counter tx = len64 (p_ins t)"
    "rep_array rep_output h (outputs_list tx) (p_outs t)" "outputs_counter tx = len64 (p_outs t)"
    "rep_array rep_witness h (witnesses_list tx) (p_wits t)" "witnesses_counter tx = len64 (p_wits t)"
    "nversion tx = p_version t" "segwit_flag tx = 1" "lock_time tx = p_locktime t"
    using rep by (auto simp: rep_tx_def)
  have ne: "p_ins t \<noteq> []" "p_outs t \<noteq> []" "p_wits t \<noteq> []" and l: "length (enc_stx t) < 2 ^ 60"
    using w by (auto simp: writable_tx_def)
  note small = rep_tx_small [OF rep l]
  have r: "rep_array rep_witness' h (witnesses_list tx) (p_wits t)"
    using f(5) small(4) by (intro rep_witness'_array) simp_all
  define hd where "hd = u32_le (p_version t) @ [0, 1]"
  define b1 where "b1 = drop 6 b"
  define b2 where "b2 = drop (length ?i) b1"
  define b3 where "b3 = drop (length ?o) b2"
  define b4 where "b4 = drop (length ?w) b3"
  have e: "enc_stx t = hd @ ?i @ ?o @ ?w @ ?l" by (simp add: enc_stx_def hd_def)
  have hl: "length hd = 6" by (simp add: hd_def)
  have bl: "length ?i \<le> length b1" "length ?o \<le> length b2" "length ?w \<le> length b3" "4 \<le> length b4" "6 \<le> length b"
    "length b1 < 2 ^ 64" "length b2 < 2 ^ 64" "length b3 < 2 ^ 64"
    using len hl by (simp_all add: b1_def b2_def b3_def b4_def e)
  have h6: "len64 hd = (6 :: u64)" using hl by simp
  have s0: "wr 0 (u32_le (p_version t)) b = Some (u32_le (p_version t) @ drop 4 b)"
    "wr 4 [0] (u32_le (p_version t) @ drop 4 b) = Some (u32_le (p_version t) @ 0 # drop 5 b)"
    "wr 5 [1] (u32_le (p_version t) @ 0 # drop 5 b) = Some (hd @ b1)"
    using bl by (simp_all add: wr_def hd_def b1_def)
  have s1: "serialize_inputs (inputs_list tx) (len64 (p_ins t)) b1 0 h =
      Some (0, ?i @ b2, len64 ?i, tick (Suc (length (p_ins t))) h)"
    unfolding b2_def using f(1) ne(1) small(1) h bl by (intro serialize_inputs_enc) simp_all
  have s2: "serialize_outputs (outputs_list tx) (len64 (p_outs t)) b2 0 (tick k h) =
      Some (0, ?o @ b3, len64 ?o, tick (Suc (length (p_outs t))) (tick k h))" for k
    unfolding b3_def using f(3) ne(2) small(2) h bl
    by (intro serialize_outputs_enc) (auto simp: rep_array_tick)
  have s3: "serialize_witnesses (witnesses_list tx) (len64 (p_wits t)) b3 0 (tick k h) =
      Some (0, ?w @ b4, len64 ?w, tick (blocks (p_wits t)) (tick k h))" for k
    unfolding b4_def using r ne(3) small(3) h bl
    by (intro serialize_witnesses_enc) (auto simp: rep_array_tick)
  have pl: "length (hd @ ?i @ ?o @ ?w) < 2 ^ 64" using l by (simp add: e)
  have a: "adv (6 + len64 ?i) (hd @ ?i @ ys) = ys" "adv (6 + len64 ?i + len64 ?o) (hd @ ?i @ ?o @ ys) = ys" "adv 6 (hd @ ys) = ys" for ys
    using adv_len64 [of "hd @ ?i" ys] adv_len64 [of "hd @ ?i @ ?o" ys] adv_len64 [of hd ys] pl hl
    by (simp_all add: add.assoc)
  have sp: "splice 6 (hd @ ys) tl = hd @ tl" "splice (6 + len64 ?i) (hd @ ?i @ ys) tl = hd @ ?i @ tl"
    "splice (6 + len64 ?i + len64 ?o) (hd @ ?i @ ?o @ ys) tl = hd @ ?i @ ?o @ tl" for ys tl
    using splice_len64 [of "hd @ ?i" ys tl] splice_len64 [of "hd @ ?i @ ?o" ys tl] splice_len64 [of hd ys tl] pl hl
    by (simp_all add: add.assoc)
  define c where "c = 6 + len64 ?i + len64 ?o + len64 ?w"
  have "c = len64 (hd @ ?i @ ?o @ ?w)" by (simp add: c_def h6 add.assoc)
  then have uc: "unat c = length (hd @ ?i @ ?o @ ?w)" using pl unat_len64 by metis
  have s4: "wr (unat c) ?l (hd @ ?i @ ?o @ ?w @ b4) = Some (enc_stx t @ drop 4 b4)"
    using wr_fits [of "hd @ ?i @ ?o @ ?w" "unat c" ?l b4] uc bl by (simp add: e)
  have d: "drop 4 b4 = drop (length (enc_stx t)) b"
    using hl by (simp add: b1_def b2_def b3_def b4_def e add_ac)
  have e': "len64 (enc_stx t) = c + 4" by (simp add: e c_def h6 add_ac)
  show ?thesis
    unfolding d [symmetric] e'
    by (simp add: serialize_tx_def f s0 s1 s2 s3 a sp s4 heap_simps tx_ticks_def add.assoc [symmetric]
        flip: c_def)
qed

section \<open>What the parser builds represents the transaction\<close>

lemma list_all2_mks:
  "\<lbrakk>\<And>k x. \<lbrakk>x \<in> set xs; {k..<k + nb x} \<subseteq> L\<rbrakk> \<Longrightarrow> R (mk k x) x; {n..<n + sum_list (map nb xs)} \<subseteq> L\<rbrakk>
   \<Longrightarrow> list_all2 R (mks mk nb n xs) xs"
proof (induction xs arbitrary: n)
  case (Cons x xs)
  have "list_all2 R (mks mk nb (n + nb x) xs) xs"
  proof (rule Cons.IH)
    show "{n + nb x..<n + nb x + sum_list (map nb xs)} \<subseteq> L" using Cons.prems(2) by auto
  qed (use Cons.prems(1) in auto)
  moreover have "{n..<n + nb x} \<subseteq> L" using Cons.prems(2) by auto
  then have "R (mk n x) x" using Cons.prems(1) by auto
  ultimately show ?case by simp
qed simp

lemma mem_read_live: "p \<in> live h \<Longrightarrow> mem_read (Ptr p xs) (length xs) h = Some xs"
  by (simp add: mem_read_def rd_def)

lemma rep_mk_input: "\<lbrakk>n \<in> live h; wf_txin i\<rbrakk> \<Longrightarrow> rep_input h (mk_input n i) i"
  by (simp add: rep_input_def mk_input_def holds_def mem_read_live)

lemma rep_mk_output: "\<lbrakk>n \<in> live h; wf_txout p\<rbrakk> \<Longrightarrow> rep_output h (mk_output n p) p"
  by (simp add: rep_output_def mk_output_def holds_def mem_read_live)

lemma rep_mk_op_item: "\<lbrakk>n \<in> live h; short_blob x\<rbrakk> \<Longrightarrow> rep_item h (mk_op_item n x) x"
  by (simp add: rep_item_def mk_op_item_def holds_def mem_read_live)

lemma rep_mk_witness: "\<lbrakk>{n..<n + wit_blocks w} \<subseteq> live h; wf_witness w\<rbrakk> \<Longrightarrow> rep_witness h (mk_witness n w) w"
proof -
  assume l: "{n..<n + wit_blocks w} \<subseteq> live h" and wf: "wf_witness w"
  have "list_all2 (rep_item h) (mk_op_items (Suc n) (w_items w)) (w_items w)"
    using l wf by (intro list_all2_mks [where L = "live h"] rep_mk_op_item)
      (auto simp: wf_witness_def list_all_iff sum_list_triv)
  moreover have "n \<in> live h" using l by auto
  ultimately show ?thesis using wf by (simp add: rep_witness_def mk_witness_def rep_array_def wf_witness_def)
qed

lemma rep_mk_tx:
  assumes wf: "wf_ptx t"
  shows "rep_tx (alloc (tx_blocks t) h) (mk_tx (calls h) t) t"
proof -
  let ?H = "alloc (tx_blocks t) h" and ?n = "calls h"
  let ?o1 = "?n + Suc (length (p_ins t))"
  let ?w1 = "?o1 + Suc (length (p_outs t))"
  have L: "{?n..<?n + tx_blocks t} \<subseteq> live ?H" by (simp add: live_alloc)
  have wfs: "list_all wf_txin (p_ins t)" "list_all wf_txout (p_outs t)" "list_all wf_witness (p_wits t)"
    "length (p_wits t) = length (p_ins t)"
    using wf by (auto simp: wf_ptx_def)
  have i: "list_all2 (rep_input ?H) (mk_inputs (Suc ?n) (p_ins t)) (p_ins t)"
    using L wfs(1) by (intro list_all2_mks [where L = "live ?H"] rep_mk_input)
      (auto simp: list_all_iff sum_list_triv tx_blocks_def)
  have o: "list_all2 (rep_output ?H) (mk_outputs (Suc ?o1) (p_outs t)) (p_outs t)"
    using L wfs(2) by (intro list_all2_mks [where L = "live ?H"] rep_mk_output)
      (auto simp: list_all_iff sum_list_triv tx_blocks_def)
  have w: "list_all2 (rep_witness ?H) (mk_witnesses (Suc ?w1) (p_wits t)) (p_wits t)"
    using L wfs(3) by (intro list_all2_mks [where L = "live ?H"] rep_mk_witness)
      (auto simp: list_all_iff tx_blocks_def)
  have "{?n, ?o1, ?w1} \<subseteq> live ?H" using L by (auto simp: tx_blocks_def)
  then show ?thesis using i o w
    by (simp add: rep_tx_def mk_tx_def Let_def rep_array_def)
qed

lemma length_enc_wit_le: "length (enc_wit w) \<le> length (enc_pwit w)"
  by (simp add: enc_wit_def enc_pwit_def)

lemma length_enc_stx_le: "length (enc_stx t) \<le> length (enc_ptx t)"
proof -
  have "length (concat (map enc_wit ws)) \<le> length (concat (map enc_pwit ws))" for ws
    using length_enc_wit_le by (induction ws) (auto intro: add_mono)
  from this [of "p_wits t"] show ?thesis by (simp add: enc_stx_def enc_ptx_def)
qed

lemma wf_ptx_writable: "wf_ptx t \<Longrightarrow> writable_tx t"
  using length_enc_stx_le [of t] by (auto simp: wf_ptx_def writable_tx_def)

lemma heap_ok_alloc: "heap_ok h \<Longrightarrow> heap_ok (alloc k h)"
  by (auto simp: heap_ok_def alloc_def)

section \<open>Properties\<close>

text \<open>C35: The length computed by \<^verbatim>\<open>get_tx_hex_len\<close> is the length of the signed transaction in
  the wire format, and \<^verbatim>\<open>serialize_tx\<close> writes exactly its bytes into a buffer of at least
  that length, leaving the rest of the buffer and the live blocks as they were.\<close>

theorem serialize_tx_correct:
  assumes "rep_tx h tx t" "writable_tx t" "no_oom h" "heap_ok h" "length (enc_stx t) \<le> length b" "length b < 2 ^ 64"
  shows "get_tx_hex_len tx 0 h = Some (0, len64 (enc_stx t)) \<and>
    (\<exists>h'. serialize_tx tx (Some b) 0 h =
       Some (0, Some (enc_stx t @ drop (length (enc_stx t)) b), len64 (enc_stx t), h') \<and> live h' = live h)"
  using get_tx_hex_len_enc [OF assms(1,2)] serialize_tx_enc [OF assms]
  by (simp add: heap_simps)

lemma enc_stx_tiny: "length (enc_stx tiny_ptx) = 68"
  by (simp add: enc_stx_def tiny_ptx_def enc_list_def enc_txin_def enc_txout_def enc_wit_def blob_def varint_def)

lemma serialize_tx_correct_witness:
  "get_tx_hex_len (mk_tx 0 tiny_ptx) 0 (alloc (tx_blocks tiny_ptx) sound_heap) = Some (0, 68)"
proof -
  have "rep_tx (alloc (tx_blocks tiny_ptx) sound_heap) (mk_tx 0 tiny_ptx) tiny_ptx"
    using rep_mk_tx [OF wf_tiny, of sound_heap] by (simp add: sound_heap_def)
  then show ?thesis
    using serialize_tx_correct [OF _ wf_ptx_writable [OF wf_tiny],
        of "alloc (tx_blocks tiny_ptx) sound_heap" "mk_tx 0 tiny_ptx" "replicate 68 0"]
    by (simp add: enc_stx_tiny heap_ok_alloc)
qed

text \<open>Parsing a partial transaction and serializing the result gives the transaction in the
  wire format of signed transactions: the same version, inputs, outputs, stack items and lock
  time, without the partial label and the values and versions of the witnesses.\<close>

theorem parse_then_serialize:
  assumes "wf_ptx t" "no_oom h" "heap_ok h" "length b = length (enc_stx t)"
  shows "do {
      (r1, tx, h1) \<leftarrow> init_tx (Some (enc_ptx t)) (len64 (enc_ptx t)) out h;
      (r2, n) \<leftarrow> get_tx_hex_len tx 0 h1;
      (r3, b', n', h2) \<leftarrow> serialize_tx tx (Some b) 0 h1;
      Some (r1, r2, n, r3, b', n') } =
    Some (0, 0, len64 (enc_stx t), 0, Some (enc_stx t), len64 (enc_stx t))"
proof -
  let ?H = "alloc (tx_blocks t) h"
  have w: "writable_tx t" using assms(1) by (rule wf_ptx_writable)
  then have l: "length b < 2 ^ 64" using assms(4) by (simp add: writable_tx_def)
  have "init_tx (Some (enc_ptx t)) (len64 (enc_ptx t)) out h = Some (0, mk_tx (calls h) t, ?H)"
    using init_tx_enc [OF assms(1,2), of "[]" out] assms(1) by (simp add: wf_ptx_def)
  moreover have "no_oom ?H" "heap_ok ?H" using assms(2,3) by (simp_all add: heap_ok_alloc)
  ultimately show ?thesis
    using get_tx_hex_len_enc [OF rep_mk_tx [OF assms(1)] w]
      serialize_tx_enc [OF rep_mk_tx [OF assms(1)] w _ _ _ l] assms(4)
    by simp
qed

lemma parse_then_serialize_witness:
  "\<exists>tx h1. init_tx (Some (enc_ptx tiny_ptx)) 89 zero_tx sound_heap = Some (0, tx, h1) \<and>
    get_tx_hex_len tx 0 h1 = Some (0, 68)"
proof -
  have "length (replicate 68 (0 :: byte)) = length (enc_stx tiny_ptx)" by (simp add: enc_stx_tiny)
  from parse_then_serialize [OF wf_tiny sound_heap this, of zero_tx]
  show ?thesis unfolding enc_tiny enc_stx_tiny
    by (auto simp: bind_eq_Some_conv split: prod.splits)
qed

end
