(* ===== verification/Sha256.thy ===== *)
theory Sha256
imports Spc_Prelude
begin

unbundle bit_operations_syntax

text \<open>
  SHA-256 as the signer runs it: the plain (not unrolled) transform, the buffering update and the
  padding of \<^verbatim>\<open>Spacechain_os_part/sha2.c\<close> for a little-endian machine, and
  \<^verbatim>\<open>Spacechain_os_part/spc/spcsha256d.c\<close>.  The buffer of the context is its memory, 64 bytes.
\<close>

section \<open>Macros and tables\<close>

definition SHR :: "nat \<Rightarrow> u32 \<Rightarrow> u32"
  where "SHR b x = drop_bit b x"

definition ROTR32 :: "nat \<Rightarrow> u32 \<Rightarrow> u32"
  where "ROTR32 b x = drop_bit b x OR push_bit (32 - b) x"

definition Ch :: "u32 \<Rightarrow> u32 \<Rightarrow> u32 \<Rightarrow> u32"
  where "Ch x y z = (x AND y) XOR (NOT x AND z)"

definition Maj :: "u32 \<Rightarrow> u32 \<Rightarrow> u32 \<Rightarrow> u32"
  where "Maj x y z = (x AND y) XOR (x AND z) XOR (y AND z)"

definition Sigma0_256 :: "u32 \<Rightarrow> u32"
  where "Sigma0_256 x = ROTR32 2 x XOR ROTR32 13 x XOR ROTR32 22 x"

definition Sigma1_256 :: "u32 \<Rightarrow> u32"
  where "Sigma1_256 x = ROTR32 6 x XOR ROTR32 11 x XOR ROTR32 25 x"

definition sigma0_256 :: "u32 \<Rightarrow> u32"
  where "sigma0_256 x = ROTR32 7 x XOR ROTR32 18 x XOR SHR 3 x"

definition sigma1_256 :: "u32 \<Rightarrow> u32"
  where "sigma1_256 x = ROTR32 17 x XOR ROTR32 19 x XOR SHR 10 x"

text \<open>The table of the source, in decimal.\<close>

definition K256 :: "u32 list" where
  "K256 = [
    1116352408, 1899447441, 3049323471, 3921009573,
    961987163, 1508970993, 2453635748, 2870763221,
    3624381080, 310598401, 607225278, 1426881987,
    1925078388, 2162078206, 2614888103, 3248222580,
    3835390401, 4022224774, 264347078, 604807628,
    770255983, 1249150122, 1555081692, 1996064986,
    2554220882, 2821834349, 2952996808, 3210313671,
    3336571891, 3584528711, 113926993, 338241895,
    666307205, 773529912, 1294757372, 1396182291,
    1695183700, 1986661051, 2177026350, 2456956037,
    2730485921, 2820302411, 3259730800, 3345764771,
    3516065817, 3600352804, 4094571909, 275423344,
    430227734, 506948616, 659060556, 883997877,
    958139571, 1322822218, 1537002063, 1747873779,
    1955562222, 2024104815, 2227730452, 2361852424,
    2428436474, 2756734187, 3204031479, 3329325298]"

definition sha256_initial_hash_value :: "u32 list" where
  "sha256_initial_hash_value = [
    0x6a09e667, 0xbb67ae85, 0x3c6ef372, 0xa54ff53a,
    0x510e527f, 0x9b05688c, 0x1f83d9ab, 0x5be0cd19]"

section \<open>The transform\<close>

text \<open>The registers \<^verbatim>\<open>a\<close> to \<^verbatim>\<open>h\<close>, and one round.\<close>

type_synonym regs = "u32 \<times> u32 \<times> u32 \<times> u32 \<times> u32 \<times> u32 \<times> u32 \<times> u32"

fun sha_round :: "u32 \<Rightarrow> u32 \<Rightarrow> regs \<Rightarrow> regs" where
  "sha_round k w (a, b, c, d, e, f, g, h) =
    (let T1 = h + Sigma1_256 e + Ch e f g + k + w;
         T2 = Sigma0_256 a + Maj a b c
     in (T1 + T2, a, b, c, d + T1, e, f, g))"

text \<open>Rounds 0 to 15 copy the block into the ring \<^verbatim>\<open>W256\<close> of sixteen words; rounds 16 to 63
  extend the message schedule in place.\<close>

fun first_rounds :: "nat \<Rightarrow> nat \<Rightarrow> u32 list \<Rightarrow> u32 list \<Rightarrow> regs \<Rightarrow> u32 list \<times> regs" where
  "first_rounds 0 j data W r = (W, r)"
| "first_rounds (Suc k) j data W r =
     first_rounds k (Suc j) data (W[j := data ! j]) (sha_round (K256 ! j) (data ! j) r)"

fun later_rounds :: "nat \<Rightarrow> nat \<Rightarrow> u32 list \<Rightarrow> regs \<Rightarrow> u32 list \<times> regs" where
  "later_rounds 0 j W r = (W, r)"
| "later_rounds (Suc k) j W r =
     (let s0 = sigma0_256 (W ! ((j + 1) mod 16));
          s1 = sigma1_256 (W ! ((j + 14) mod 16));
          w = W ! (j mod 16) + (s1 + W ! ((j + 9) mod 16) + s0)
      in later_rounds k (Suc j) (W[j mod 16 := w]) (sha_round (K256 ! j) w r))"

fun regs_of :: "u32 list \<Rightarrow> regs" where
  "regs_of s = (s ! 0, s ! 1, s ! 2, s ! 3, s ! 4, s ! 5, s ! 6, s ! 7)"

fun list_of_regs :: "regs \<Rightarrow> u32 list" where
  "list_of_regs (a, b, c, d, e, f, g, h) = [a, b, c, d, e, f, g, h]"

definition sha256_Transform :: "u32 list \<Rightarrow> u32 list \<Rightarrow> u32 list" where
  "sha256_Transform state_in data =
    (let (W, r) = first_rounds 16 0 data (replicate 16 0) (regs_of state_in);
         (W', r') = later_rounds 48 16 W r
     in map2 (+) state_in (list_of_regs r'))"

section \<open>Hashing in pieces\<close>

record sha256_ctx =
  sha_state :: "u32 list"
  bitcount :: u64
  sha_buffer :: "byte list"

definition sha256_Init :: sha256_ctx where
  "sha256_Init = \<lparr>sha_state = sha256_initial_hash_value, bitcount = 0, sha_buffer = replicate 64 0\<rparr>"

text \<open>\<^verbatim>\<open>REVERSE32\<close> on the first \<^verbatim>\<open>n\<close> words of the buffer, and the words the transform reads.\<close>

fun reverse_words :: "nat \<Rightarrow> byte list \<Rightarrow> byte list" where
  "reverse_words 0 b = b"
| "reverse_words (Suc n) b = rev (take 4 b) @ reverse_words n (drop 4 b)"

fun le_words :: "nat \<Rightarrow> byte list \<Rightarrow> u32 list" where
  "le_words 0 b = []"
| "le_words (Suc n) b = le_u32 (take 4 b) # le_words n (drop 4 b)"

definition used_space :: "sha256_ctx \<Rightarrow> nat"
  where "used_space c = unat (drop_bit 3 (bitcount c)) mod 64"

text \<open>A full buffer is converted to host order and processed.\<close>

definition process_buffer :: "sha256_ctx \<Rightarrow> sha256_ctx" where
  "process_buffer c =
    (let b = reverse_words 16 (sha_buffer c)
     in c\<lparr>sha_buffer := b, sha_state := sha256_Transform (sha_state c) (le_words 16 b)\<rparr>)"

fun update_blocks :: "sha256_ctx \<Rightarrow> byte list \<Rightarrow> sha256_ctx \<times> byte list" where
  "update_blocks c data =
    (if 64 \<le> length data
     then let c1 = process_buffer (c\<lparr>sha_buffer := take 64 data\<rparr>)
          in update_blocks (c1\<lparr>bitcount := bitcount c1 + 512\<rparr>) (drop 64 data)
     else (c, data))"

declare update_blocks.simps [simp del]

definition store_rest :: "sha256_ctx \<times> byte list \<Rightarrow> sha256_ctx" where
  "store_rest cd =
    (let (c, data) = cd
     in if 0 < length data
        then c\<lparr>sha_buffer := data @ drop (length data) (sha_buffer c),
               bitcount := bitcount c + push_bit 3 (word_of_nat (length data))\<rparr>
        else c)"

definition sha256_Update :: "sha256_ctx \<Rightarrow> byte list \<Rightarrow> sha256_ctx" where
  "sha256_Update c data =
    (if data = [] then c
     else let usedspace = used_space c in
       if 0 < usedspace then
         let freespace = 64 - usedspace in
         if freespace \<le> length data then
           let c1 = c\<lparr>sha_buffer := take usedspace (sha_buffer c) @ take freespace data,
                      bitcount := bitcount c + word_of_nat (8 * freespace)\<rparr>
           in store_rest (update_blocks (process_buffer c1) (drop freespace data))
         else c\<lparr>sha_buffer := take usedspace (sha_buffer c) @ data @ drop (usedspace + length data) (sha_buffer c),
                bitcount := bitcount c + push_bit 3 (word_of_nat (length data))\<rparr>
       else store_rest (update_blocks c data))"

definition sha256_Final :: "sha256_ctx \<Rightarrow> byte list" where
  "sha256_Final c =
    (let usedspace = used_space c;
         c1 = c\<lparr>sha_buffer := take usedspace (sha_buffer c) @ 0x80 # drop (usedspace + 1) (sha_buffer c)\<rparr>;
         usedspace = usedspace + 1;
         (c2, usedspace) =
           (if 56 < usedspace
            then (process_buffer (c1\<lparr>sha_buffer := take usedspace (sha_buffer c1) @ replicate (64 - usedspace) 0\<rparr>), 0)
            else (c1, usedspace));
         b = take usedspace (sha_buffer c2) @ replicate (56 - usedspace) 0 @ drop 56 (sha_buffer c2);
         b' = take 56 (reverse_words 14 b) @ u32_le (ucast (drop_bit 32 (bitcount c2)))
              @ u32_le (ucast (bitcount c2 AND 0xffffffff));
         s = sha256_Transform (sha_state c2) (le_words 16 b')
     in concat (map (\<lambda>w. rev (u32_le w)) s))"

definition sha256_Raw :: "byte list \<Rightarrow> byte list"
  where "sha256_Raw data = sha256_Final (sha256_Update sha256_Init data)"

section \<open>Double hashing\<close>

text \<open>\<^verbatim>\<open>sha256d\<close> writes 32 bytes into the buffer \<^verbatim>\<open>hash\<close>, or nothing when an argument is
  refused.\<close>

definition sha256d :: "buf \<Rightarrow> u32 \<Rightarrow> buf \<Rightarrow> u32 \<Rightarrow> buf option" where
  "sha256d inp in_len hash hash_len =
    (case (inp, hash) of
       (Some b, Some dst) \<Rightarrow>
         if in_len = 0 \<or> hash_len < 32 then Some hash
         else do {
           msg \<leftarrow> rd (unat in_len) b;
           let once = sha256_Raw msg;
           let twice = sha256_Raw once;
           dst0 \<leftarrow> wr 0 (replicate 32 0) dst;
           dst1 \<leftarrow> wr 0 twice dst0;
           Some (Some dst1)
         }
     | _ \<Rightarrow> Some hash)"

end
