(* ===== verification/Sha256_Spec.thy ===== *)
theory Sha256_Spec
imports Spc_Prelude
begin

text \<open>
  SHA-256 as FIPS 180-4 defines it, written from the standard alone: this theory does not know the
  implementation (theory \<^verbatim>\<open>Sha256\<close>) and shares none of its functions or tables.  Ch and Maj are
  stated bit by bit as the choice and the majority of three bits, rotation is the library's
  \<^verbatim>\<open>word_rotr\<close>, the constants are the first 32 bits of the fractional parts of the cube roots
  (section 4.2.2) and of the square roots (section 5.3.3) of the first primes, and words are numbers
  of four bytes, the most significant first.  Theory \<^verbatim>\<open>Sha256_Correct\<close> proves the implementation
  equal to \<^verbatim>\<open>fips_sha256\<close>.
\<close>

section \<open>Functions on words (section 4.1.2)\<close>

definition bits_word :: "(nat \<Rightarrow> bool) \<Rightarrow> u32"
  where "bits_word f = horner_sum of_bool 2 (map f [0..<32])"

lemma bit_bits_word [simp]: "bit (bits_word f) n \<longleftrightarrow> n < 32 \<and> f n"
  by (auto simp: bits_word_def bit_horner_sum_bit_iff)

definition fips_Ch :: "u32 \<Rightarrow> u32 \<Rightarrow> u32 \<Rightarrow> u32"
  where "fips_Ch x y z = bits_word (\<lambda>i. if bit x i then bit y i else bit z i)"

definition fips_Maj :: "u32 \<Rightarrow> u32 \<Rightarrow> u32 \<Rightarrow> u32"
  where "fips_Maj x y z = bits_word (\<lambda>i. 2 \<le> length (filter (\<lambda>w. bit w i) [x, y, z]))"

definition fips_SHR :: "nat \<Rightarrow> u32 \<Rightarrow> u32"
  where "fips_SHR n x = word_of_nat (unat x div 2 ^ n)"

definition fips_Sum0 :: "u32 \<Rightarrow> u32"
  where "fips_Sum0 x = fold (\<lambda>n. xor (word_rotr n x)) [2, 13, 22] 0"

definition fips_Sum1 :: "u32 \<Rightarrow> u32"
  where "fips_Sum1 x = fold (\<lambda>n. xor (word_rotr n x)) [6, 11, 25] 0"

definition fips_sig0 :: "u32 \<Rightarrow> u32"
  where "fips_sig0 x = fold (\<lambda>n. xor (word_rotr n x)) [7, 18] (fips_SHR 3 x)"

definition fips_sig1 :: "u32 \<Rightarrow> u32"
  where "fips_sig1 x = fold (\<lambda>n. xor (word_rotr n x)) [17, 19] (fips_SHR 10 x)"

section \<open>Constants (sections 4.2.2 and 5.3.3)\<close>

text \<open>The integral part of the \<^verbatim>\<open>k\<close>th root of \<^verbatim>\<open>x\<close>, found bit by bit from the highest.\<close>

fun root_below :: "nat \<Rightarrow> nat \<Rightarrow> nat \<Rightarrow> nat \<Rightarrow> nat" where
  "root_below k x 0 r = r"
| "root_below k x (Suc n) r = root_below k x n (if (r + 2 ^ n) ^ k \<le> x then r + 2 ^ n else r)"

lemma root_below_floor:
  "\<lbrakk>r ^ k \<le> x; x < (r + 2 ^ n) ^ k\<rbrakk> \<Longrightarrow>
   root_below k x n r ^ k \<le> x \<and> x < (root_below k x n r + 1) ^ k"
  by (induction n arbitrary: r) (auto simp: not_le algebra_simps mult_2)

definition is_prime :: "nat \<Rightarrow> bool"
  where "is_prime p \<longleftrightarrow> 2 \<le> p \<and> list_all (\<lambda>d. p mod d \<noteq> 0) [2..<p]"

definition primes_below :: "nat \<Rightarrow> nat list"
  where "primes_below n = filter is_prime [0..<n]"

text \<open>The first 32 bits of the fractional part of the \<^verbatim>\<open>k\<close>th root of \<^verbatim>\<open>p\<close>: the integral part of
  \<^verbatim>\<open>2 ^ 32\<close> times the root is the root of \<^verbatim>\<open>p * 2 ^ (32 * k)\<close>, and the word drops the integral
  part of the root.  The roots of the primes up to 311 are below \<^verbatim>\<open>2 ^ 5\<close>.\<close>

definition root_bits :: "nat \<Rightarrow> nat \<Rightarrow> u32"
  where "root_bits k p = word_of_nat (root_below k (p * 2 ^ (32 * k)) 37 0)"

lemma root_bits_eqI:
  assumes "0 < k" "r ^ k \<le> p * 2 ^ (32 * k)" "p * 2 ^ (32 * k) < (r + 1) ^ k" "p < 32 ^ k"
  shows "root_bits k p = word_of_nat r"
proof -
  let ?x = "p * 2 ^ (32 * k)"
  let ?q = "root_below k ?x 37 0"
  have "?x < 32 ^ k * 2 ^ (32 * k)" using assms(4) by simp
  also have "(32 :: nat) ^ k * 2 ^ (32 * k) = (0 + 2 ^ 37) ^ k"
    by (simp add: power_mult flip: power_mult_distrib)
  finally have q: "?q ^ k \<le> ?x \<and> ?x < (?q + 1) ^ k"
    using assms(1) by (intro root_below_floor) (auto simp: zero_power)
  have "r < ?q + 1"
    using assms(2) q by (intro power_less_imp_less_base [of r k "?q + 1"]) auto
  moreover have "?q < r + 1"
    using assms(3) q by (intro power_less_imp_less_base [of ?q k "r + 1"]) auto
  ultimately have "?q = r" by simp
  then show ?thesis by (simp add: root_bits_def)
qed

lemma root_bits_list:
  "\<lbrakk>0 < k; list_all2 (\<lambda>p r. r ^ k \<le> p * 2 ^ (32 * k) \<and> p * 2 ^ (32 * k) < (r + 1) ^ k \<and> p < 32 ^ k) ps rs\<rbrakk> \<Longrightarrow>
   map (root_bits k) ps = map word_of_nat rs"
proof (induction ps arbitrary: rs)
  case (Cons p ps)
  then show ?case by (cases rs) (auto intro: root_bits_eqI)
qed simp

definition fips_K :: "u32 list"
  where "fips_K = map (root_bits 3) (primes_below 312)"

definition fips_H0 :: "u32 list"
  where "fips_H0 = map (root_bits 2) (primes_below 20)"

section \<open>Messages (sections 5.1.1 and 5.2.1)\<close>

definition fips_bytes :: "nat \<Rightarrow> nat \<Rightarrow> byte list"
  where "fips_bytes k x = map (\<lambda>i. word_of_nat (x div 256 ^ (k - 1 - i))) [0..<k]"

definition fips_word :: "byte list \<Rightarrow> u32"
  where "fips_word bs = word_of_nat (foldl (\<lambda>x b. 256 * x + unat b) 0 bs)"

text \<open>A one bit, the fewest zero bits that end 64 bits before a multiple of 512, and the number of
  bits of the message.\<close>

definition fips_pad :: "byte list \<Rightarrow> byte list" where
  "fips_pad msg =
    (let zeros = hd (filter (\<lambda>k. (8 * length msg + 8 + 8 * k) mod 512 = 448) [0..<64])
     in msg @ [0x80] @ replicate zeros 0 @ fips_bytes 8 (8 * length msg))"

definition fips_words :: "byte list \<Rightarrow> u32 list"
  where "fips_words bs = map (\<lambda>t. fips_word (take 4 (drop (4 * t) bs))) [0..<16]"

section \<open>The computation (section 6.2.2)\<close>

fun fips_W :: "u32 list \<Rightarrow> nat \<Rightarrow> u32" where
  "fips_W M t =
    (if t < 16 then M ! t
     else fips_sig1 (fips_W M (t - 2)) + fips_W M (t - 7) + fips_sig0 (fips_W M (t - 15)) + fips_W M (t - 16))"

declare fips_W.simps [simp del]

fun fips_step :: "u32 list \<Rightarrow> nat \<Rightarrow> u32 list \<Rightarrow> u32 list" where
  "fips_step M t [a, b, c, d, e, f, g, h] =
    (let T1 = h + fips_Sum1 e + fips_Ch e f g + fips_K ! t + fips_W M t;
         T2 = fips_Sum0 a + fips_Maj a b c
     in [T1 + T2, a, b, c, d + T1, e, f, g])"
| "fips_step M t H = H"

definition fips_block :: "u32 list \<Rightarrow> u32 list \<Rightarrow> u32 list"
  where "fips_block H M = map2 (+) (fold (fips_step M) [0..<64] H) H"

fun fips_hash :: "byte list \<Rightarrow> u32 list \<Rightarrow> u32 list" where
  "fips_hash bs H =
    (if length bs < 64 then H else fips_hash (drop 64 bs) (fips_block H (fips_words (take 64 bs))))"

declare fips_hash.simps [simp del]

definition fips_sha256 :: "byte list \<Rightarrow> byte list"
  where "fips_sha256 msg = concat (map (\<lambda>w. fips_bytes 4 (unat w)) (fips_hash (fips_pad msg) fips_H0))"

end
