(* ===== verification/Sha256_Correct.thy ===== *)
theory Sha256_Correct
imports Sha256 Sha256_Spec
begin

text \<open>
  The hash of theory \<^verbatim>\<open>Sha256\<close> against the standard FIPS 180-4, which theory \<^verbatim>\<open>Sha256_Spec\<close>
  states on its own.  First the functions on words and the tables of the code are those of the
  standard: each table entry is the first 32 bits of the fractional part of a root of a prime.  Then
  \<^verbatim>\<open>sha256_Transform\<close> is the computation of a block, and \<^verbatim>\<open>absorbed c m\<close> is the invariant of a
  context that has been fed the message \<^verbatim>\<open>m\<close>.
\<close>

section \<open>The tables are the roots of the primes\<close>

lemma is_prime_small:
  assumes "p < 324"
  shows "is_prime p \<longleftrightarrow> 2 \<le> p \<and> list_all (\<lambda>d. p \<le> d \<or> p mod d \<noteq> 0) [2..<18]"
proof -
  have "\<exists>d. 2 \<le> d \<and> d < 18 \<and> d < p \<and> p mod d = 0" if e: "2 \<le> e" "e < p" "p mod e = 0" for e
  proof -
    obtain f where f: "p = e * f" using e(3) by (metis dvdE mod_0_imp_dvd)
    have "f \<noteq> 0" "f \<noteq> 1" using e(2) f by auto
    then have f2: "2 \<le> f" by simp
    have "f * 2 \<le> f * e" using e(1) by (rule mult_le_mono2)
    then have f3: "f < p" using f2 f mult.commute [of f e] by linarith
    show ?thesis
    proof (cases "e < 18")
      case True
      then show ?thesis using e by (intro exI [of _ e]) simp
    next
      case False
      have "f < 18"
      proof (rule ccontr)
        assume "\<not> f < 18"
        then have "18 * 18 \<le> e * f" using False by (intro mult_le_mono) simp_all
        then show False using assms f by linarith
      qed
      moreover have "p mod f = 0" by (simp add: f)
      ultimately show ?thesis using f2 f3 by (intro exI [of _ f]) simp
    qed
  qed
  then have "(\<forall>d. 2 \<le> d \<and> d < p \<longrightarrow> p mod d \<noteq> 0) \<longleftrightarrow>
      (\<forall>d. 2 \<le> d \<and> d < 18 \<longrightarrow> p \<le> d \<or> p mod d \<noteq> 0)"
    by (metis not_le)
  then show ?thesis unfolding is_prime_def list_all_iff set_upt atLeastLessThan_iff Ball_def by (simp only:)
qed

lemma primes_small:
  assumes "n \<le> 324"
  shows "primes_below n = filter (\<lambda>p. 2 \<le> p \<and> list_all (\<lambda>d. p \<le> d \<or> p mod d \<noteq> 0) [2..<18]) [0..<n]"
  unfolding primes_below_def using assms by (intro filter_cong) (simp_all add: is_prime_small)

lemma upt_02: "[0..<numeral n] = (if numeral n \<le> (2 :: nat) then [0..<numeral n] else 0 # 1 # [2..<numeral n])"
  by (simp add: upt_conv_Cons numeral_2_eq_2)

lemma primes_312: "primes_below 312 = [2, 3, 5, 7, 11, 13, 17, 19, 23, 29, 31, 37, 41, 43, 47, 53, 59, 61, 67, 71,
      73, 79, 83, 89, 97, 101, 103, 107, 109, 113, 127, 131, 137, 139, 149, 151, 157, 163, 167, 173,
      179, 181, 191, 193, 197, 199, 211, 223, 227, 229, 233, 239, 241, 251, 257, 263, 269, 271, 277, 281,
      283, 293, 307, 311]"
  by (simp add: primes_small upt_02 [of "Num.Bit0 n" for n] upt_rec_numeral del: upt_Suc)

lemma primes_20: "primes_below 20 = [2, 3, 5, 7, 11, 13, 17, 19]"
  by (simp add: primes_small upt_02 upt_rec_numeral del: upt_Suc)

lemma fips_K_eq: "fips_K = K256"
proof -
  have "fips_K = map word_of_nat [
      5411319704, 6194414737, 7344290767, 8215976869, 9551921755, 10098905585, 11043570340, 11460697813,
      12214315672, 13195500289, 13492127166, 14311783875, 14809980276, 15046980094, 15499789991, 16133124468,
      16720292289, 16907126662, 17444216262, 17784676812, 17950125167, 18429019306, 18734950876, 19175934170,
      19734090066, 20001703533, 20132865992, 20390182855, 20516441075, 20764397895, 21588763473, 21813078375,
      22141143685, 22248366392, 22769593852, 22871018771, 23170020180, 23461497531, 23651862830, 23931792517,
      24205322401, 24295138891, 24734567280, 24820601251, 24990902297, 25075189284, 25569408389, 26045227120,
      26200031510, 26276752392, 26428864332, 26653801653, 26727943347, 27092625994, 27306805839, 27517677555,
      27725365998, 27793908591, 27997534228, 28131656200, 28198240250, 28526537963, 28973835255, 29099129074]"
    unfolding fips_K_def primes_312 by (rule root_bits_list) simp_all
  also have "\<dots> = K256" by (simp add: K256_def)
  finally show ?thesis .
qed

lemma fips_H0_eq: "fips_H0 = sha256_initial_hash_value"
proof -
  have "fips_H0 = map word_of_nat [
      6074000999, 7439101573, 9603838834, 11363415354, 14244795007, 15485724812, 17708603819, 18721328409]"
    unfolding fips_H0_def primes_20 by (rule root_bits_list) simp_all
  also have "\<dots> = sha256_initial_hash_value" by (simp add: sha256_initial_hash_value_def)
  finally show ?thesis .
qed

section \<open>The functions on words\<close>

lemma ROTR32_rotr: "n < 32 \<Longrightarrow> ROTR32 n x = word_rotr n x"
proof (rule bit_word_eqI)
  fix i assume n: "n < 32" and "i < LENGTH(32)"
  then have i: "i < 32" by simp
  show "bit (ROTR32 n x) i \<longleftrightarrow> bit (word_rotr n x) i"
  proof (cases "i + n < 32")
    case True
    then show ?thesis using i by (auto simp: ROTR32_def bit_simps add.commute)
  next
    case False
    then have "(i + n) mod 32 = i - (32 - n)" using i n by (simp add: mod_if)
    moreover have "\<not> bit x (n + i)" using False by (auto dest: bit_imp_le_length)
    ultimately show ?thesis using i n False by (auto simp: ROTR32_def bit_simps)
  qed
qed

lemma SHR_fips: "SHR n x = fips_SHR n x"
proof -
  have "unat x div 2 ^ n < 2 ^ 32"
    using le_less_trans [OF div_le_dividend, of "unat x" "2 ^ 32"] unsigned_less [of x] by simp
  then show ?thesis
    by (intro word_unat_eq_iff [THEN iffD2])
       (simp add: SHR_def fips_SHR_def unat_drop_bit_eq unat_of_nat take_bit_nat_eq_self flip: drop_bit_eq_div)
qed

lemma Ch_fips: "Ch x y z = fips_Ch x y z"
  by (rule bit_word_eqI) (simp add: Ch_def fips_Ch_def bit_simps)

lemma Maj_fips: "Maj x y z = fips_Maj x y z"
  by (rule bit_word_eqI) (auto simp: Maj_def fips_Maj_def bit_simps)

lemma Sigma_fips: "Sigma0_256 x = fips_Sum0 x" "Sigma1_256 x = fips_Sum1 x"
  "sigma0_256 x = fips_sig0 x" "sigma1_256 x = fips_sig1 x"
  by (simp_all add: Sigma0_256_def Sigma1_256_def sigma0_256_def sigma1_256_def fips_Sum0_def fips_Sum1_def
      fips_sig0_def fips_sig1_def ROTR32_rotr SHR_fips ac_simps)

section \<open>Bytes, words and padding\<close>

lemma foldl_nat_of_le: "foldl (\<lambda>x b. 256 * x + unat b) 0 (rev bs) = nat_of_le bs"
  by (induction bs) simp_all

lemma fips_word_le: "fips_word bs = le_u32 (rev bs)"
  using foldl_nat_of_le [of "rev bs"] by (simp add: fips_word_def le_u32_def)

lemma nth_le_of_nat: "i < n \<Longrightarrow> le_of_nat n x ! i = word_of_nat (x div 256 ^ i)"
proof (induction n arbitrary: i x)
  case (Suc n)
  have "(word_of_nat (x mod 256) :: byte) = word_of_nat x"
    by (rule word_unat_eq_iff [THEN iffD2]) (simp add: unat_of_nat take_bit_eq_mod)
  then show ?case using Suc by (cases i) (simp_all add: div_mult2_eq)
qed simp

lemma fips_bytes_le: "fips_bytes n x = rev (le_of_nat n x)"
  by (rule nth_equalityI) (simp_all add: fips_bytes_def rev_nth nth_le_of_nat)

lemma hd_filter_upt: "\<lbrakk>k < n; P k; \<And>i. i < k \<Longrightarrow> \<not> P i\<rbrakk> \<Longrightarrow> hd (filter P [0..<n]) = k"
proof -
  assume *: "k < n" "P k" "\<And>i. i < k \<Longrightarrow> \<not> P i"
  have "[0..<n] = [0..<k] @ k # [Suc k..<n]"
    using *(1) upt_add_eq_append [of 0 k "n - k"] upt_conv_Cons [of k n] by simp
  moreover have "filter P [0..<k] = []" using *(3) by (simp add: filter_empty_conv)
  ultimately show ?thesis using *(2) by simp
qed

lemma fips_zeros: "hd (filter (\<lambda>k. (8 * n + 8 + 8 * k) mod 512 = 448) [0..<64]) = (119 - n mod 64) mod 64"
proof -
  define r where "r = n mod 64"
  have r: "r < 64" by (simp add: r_def)
  have e: "(8 * n + 8 + 8 * k) mod 512 = 448 \<longleftrightarrow> (r + (1 + k)) mod 64 = 56" for k
  proof -
    have "(8 * n + 8 + 8 * k) mod 512 = 8 * (n + (1 + k)) mod (8 * 64)" by (simp add: algebra_simps)
    also have "\<dots> = 8 * ((n + (1 + k)) mod 64)" by (rule mult_mod_right [symmetric])
    finally show ?thesis unfolding r_def mod_add_left_eq by simp
  qed
  have small: "s mod 64 = (if s < 64 then s else s - 64)" if "s < 128" for s :: nat
    using that by (auto simp: le_mod_geq not_less)
  show ?thesis
    unfolding e r_def [symmetric]
  proof (rule hd_filter_upt)
    show "(r + (1 + (119 - r) mod 64)) mod 64 = 56" using r by (simp add: small)
    fix i assume i: "i < (119 - r) mod 64"
    then have "i < (if r < 56 then 55 - r else 119 - r)" using r by (simp add: small split: if_splits)
    then show "(r + (1 + i)) mod 64 \<noteq> 56" using r by (subst small) (auto split: if_splits)
  qed simp
qed

lemma fips_pad_eq:
  "fips_pad msg =
    msg @ 0x80 # replicate ((119 - length msg mod 64) mod 64) 0 @ rev (u64_le (word_of_nat (8 * length msg)))"
proof -
  have "le_of_nat 8 (unat (word_of_nat x :: u64)) = le_of_nat 8 x" for x
    using le_of_nat_of_le [of "le_of_nat 8 x" 8] by (simp add: nat_of_le_of_nat unat_of_nat take_bit_eq_mod)
  then show ?thesis by (simp add: fips_pad_def fips_zeros fips_bytes_le u64_le_def del: of_nat_mult)
qed

section \<open>The computation on the registers\<close>

text \<open>The standard's computation with the registers and the words of the code, as the proofs about
  the transform use it.\<close>

lemma fips_W_step:
  "fips_W m t =
    (if t < 16 then m ! t
     else sigma1_256 (fips_W m (t - 2)) + fips_W m (t - 7) + sigma0_256 (fips_W m (t - 15)) + fips_W m (t - 16))"
  by (subst fips_W.simps) (simp add: Sigma_fips)

lemma fips_W_small: "t < 16 \<Longrightarrow> fips_W m t = m ! t"
  by (subst fips_W.simps) simp

definition rounds_of :: "u32 list \<Rightarrow> nat list \<Rightarrow> regs \<Rightarrow> regs"
  where "rounds_of m ts = fold (\<lambda>t. sha_round (K256 ! t) (fips_W m t)) ts"

definition compress :: "u32 list \<Rightarrow> u32 list \<Rightarrow> u32 list"
  where "compress s m = map2 (+) s (list_of_regs (rounds_of m [0..<64] (regs_of s)))"

lemma fips_step_round: "fips_step m t (list_of_regs r) = list_of_regs (sha_round (K256 ! t) (fips_W m t) r)"
  by (cases r rule: list_of_regs.cases) (simp add: fips_K_eq Ch_fips Maj_fips Sigma_fips Let_def add.assoc)

lemma fips_steps_rounds: "fold (fips_step m) ts (list_of_regs r) = list_of_regs (rounds_of m ts r)"
  by (induction ts arbitrary: r) (simp_all add: rounds_of_def fips_step_round)

lemma list_of_regs_of: "length s = 8 \<Longrightarrow> list_of_regs (regs_of s) = s"
  by (rule nth_equalityI) (auto simp: less_Suc_eq numeral_eq_Suc)

lemma map2_plus_commute: "map2 (+) xs ys = map2 (+) ys (xs :: u32 list)"
  by (induction xs ys rule: list_induct2') (simp_all add: add.commute)

lemma fips_block_compress:
  assumes "length s = 8"
  shows "fips_block s m = compress s m"
proof -
  have "fold (fips_step m) [0..<64] (list_of_regs (regs_of s)) = list_of_regs (rounds_of m [0..<64] (regs_of s))"
    by (rule fips_steps_rounds)
  then show ?thesis
    unfolding fips_block_def compress_def list_of_regs_of [OF assms] by (simp only: map2_plus_commute)
qed

lemma length_list_of_regs: "length (list_of_regs r) = 8"
  by (induction r rule: list_of_regs.induct) simp

lemma length_compress: "length s = 8 \<Longrightarrow> length (compress s m) = 8"
  by (simp add: compress_def length_list_of_regs del: regs_of.simps)

text \<open>Blocks of sixteen big-endian words.\<close>

fun be_words :: "nat \<Rightarrow> byte list \<Rightarrow> u32 list" where
  "be_words 0 b = []"
| "be_words (Suc n) b = le_u32 (rev (take 4 b)) # be_words n (drop 4 b)"

lemma map_be_words: "map (\<lambda>t. fips_word (take 4 (drop (4 * t) b))) [0..<n] = be_words n b"
proof (induction n arbitrary: b)
  case (Suc n)
  have "[0..<Suc n] = 0 # map Suc [0..<n]" by (simp add: map_Suc_upt upt_conv_Cons)
  then show ?case using Suc [of "drop 4 b"] by (simp add: fips_word_le comp_def add.commute del: upt_Suc)
qed simp

lemma fips_words_be: "fips_words b = be_words 16 b"
  unfolding fips_words_def by (rule map_be_words)

fun compress_all :: "u32 list \<Rightarrow> byte list \<Rightarrow> u32 list" where
  "compress_all s data =
    (if 64 \<le> length data then compress_all (compress s (be_words 16 (take 64 data))) (drop 64 data) else s)"

declare compress_all.simps [simp del]

lemma fips_hash_compress: "length s = 8 \<Longrightarrow> fips_hash b s = compress_all s b"
proof (induction b s rule: fips_hash.induct)
  case (1 b s)
  then show ?case
    by (subst fips_hash.simps, subst compress_all.simps)
       (simp add: fips_words_be fips_block_compress length_compress)
qed

lemma fips_sha256_eq:
  "fips_sha256 msg = concat (map (\<lambda>w. rev (u32_le w)) (compress_all sha256_initial_hash_value (fips_pad msg)))"
proof -
  have "length sha256_initial_hash_value = 8" by (simp add: sha256_initial_hash_value_def)
  then show ?thesis by (simp add: fips_sha256_def fips_H0_eq fips_hash_compress fips_bytes_le u32_le_def)
qed

section \<open>The transform is the compression function\<close>

lemma first_rounds_eq:
  "\<lbrakk>j + k = 16; length W = 16; length data = 16; \<forall>i<j. W ! i = data ! i\<rbrakk> \<Longrightarrow>
   first_rounds k j data W r = (data, rounds_of data [j..<16] r)"
proof (induction k arbitrary: j W r)
  case 0
  then have "W = data" by (intro nth_equalityI) auto
  then show ?case using 0 by (simp add: rounds_of_def)
next
  case (Suc k)
  have "first_rounds k (Suc j) data (W[j := data ! j]) (sha_round (K256 ! j) (data ! j) r) =
      (data, rounds_of data [Suc j..<16] (sha_round (K256 ! j) (data ! j) r))"
    using Suc.prems by (intro Suc.IH) (auto simp: nth_list_update less_Suc_eq)
  moreover have "[j..<16] = j # [Suc j..<16]" using Suc.prems by (simp add: upt_conv_Cons)
  moreover have "fips_W data j = data ! j" using Suc.prems by (simp add: fips_W_small)
  ultimately show ?case by (simp add: rounds_of_def)
qed

definition ring :: "u32 list \<Rightarrow> nat \<Rightarrow> u32 list \<Rightarrow> bool"
  where "ring m j W \<longleftrightarrow> length W = 16 \<and> (\<forall>t. j \<le> t + 16 \<and> t < j \<longrightarrow> W ! (t mod 16) = fips_W m t)"

lemma ring_step:
  assumes R: "ring m j W" and j: "16 \<le> j"
  shows "W ! (j mod 16) + (sigma1_256 (W ! ((j + 14) mod 16)) + W ! ((j + 9) mod 16)
      + sigma0_256 (W ! ((j + 1) mod 16))) = fips_W m j"
    and "ring m (Suc j) (W[j mod 16 := fips_W m j])"
proof -
  have g: "W ! (t mod 16) = fips_W m t" if "j \<le> t + 16" "t < j" for t
    using R that by (simp add: ring_def)
  obtain i where i: "j = i + 16" using j by (metis le_add_diff_inverse2)
  have s: "(x + 16) mod 16 = x mod 16" for x :: nat by simp
  have m: "j mod 16 = (j - 16) mod 16" "(j + 14) mod 16 = (j - 2) mod 16" "(j + 9) mod 16 = (j - 7) mod 16"
    "(j + 1) mod 16 = (j - 15) mod 16"
    using s [of i] s [of "i + 14"] s [of "i + 9"] s [of "i + 1"] by (simp_all add: i add.commute)
  have gs: "W ! ((j - 16) mod 16) = fips_W m (j - 16)" "W ! ((j - 2) mod 16) = fips_W m (j - 2)"
    "W ! ((j - 7) mod 16) = fips_W m (j - 7)" "W ! ((j - 15) mod 16) = fips_W m (j - 15)"
    by (rule g; use j in simp)+
  have "fips_W m j = sigma1_256 (fips_W m (j - 2)) + fips_W m (j - 7) + sigma0_256 (fips_W m (j - 15)) + fips_W m (j - 16)"
    using j by (subst fips_W_step) simp
  then show "W ! (j mod 16) + (sigma1_256 (W ! ((j + 14) mod 16)) + W ! ((j + 9) mod 16)
      + sigma0_256 (W ! ((j + 1) mod 16))) = fips_W m j"
    unfolding m gs by (simp add: add.assoc add.commute add.left_commute)
  show "ring m (Suc j) (W[j mod 16 := fips_W m j])"
    unfolding ring_def
  proof (intro conjI allI impI)
    show "length (W[j mod 16 := fips_W m j]) = 16" using R by (simp add: ring_def)
    fix t assume t: "Suc j \<le> t + 16 \<and> t < Suc j"
    show "W[j mod 16 := fips_W m j] ! (t mod 16) = fips_W m t"
    proof (cases "t = j")
      case True
      then show ?thesis using R by (simp add: ring_def)
    next
      case False
      then have tj: "t < j" "j - t < 16" using t by auto
      have "t mod 16 \<noteq> j mod 16"
      proof
        assume "t mod 16 = j mod 16"
        then have "16 dvd j - t" using tj by (metis less_imp_le mod_eq_dvd_iff_nat)
        then show False using tj by (auto dest: dvd_imp_le)
      qed
      then show ?thesis using g [of t] t False by simp
    qed
  qed
qed

lemma later_rounds_eq:
  "\<lbrakk>ring m j W; 16 \<le> j\<rbrakk> \<Longrightarrow> snd (later_rounds k j W r) = rounds_of m [j..<j + k] r"
proof (induction k arbitrary: j W r)
  case (Suc k)
  have "[j..<j + Suc k] = j # [Suc j..<Suc j + k]"
    using upt_conv_Cons [of j "j + Suc k"] by simp
  moreover have "later_rounds (Suc k) j W r =
      later_rounds k (Suc j) (W[j mod 16 := fips_W m j]) (sha_round (K256 ! j) (fips_W m j) r)"
    by (simp only: later_rounds.simps Let_def ring_step(1) [OF Suc.prems])
  ultimately show ?case
    using Suc.IH [OF ring_step(2) [OF Suc.prems]] Suc.prems(2)
    by (simp add: rounds_of_def del: later_rounds.simps upt_Suc)
qed (simp add: rounds_of_def)

lemma sha256_Transform_eq:
  assumes "length data = 16"
  shows "sha256_Transform s data = compress s data"
proof -
  have f: "first_rounds 16 0 data (replicate 16 0) r = (data, rounds_of data [0..<16] r)" for r
    using assms by (intro first_rounds_eq) simp_all
  have "ring data 16 data" using assms by (simp add: ring_def fips_W_small)
  then have "snd (later_rounds 48 16 data r) = rounds_of data [16..<64] r" for r
    using later_rounds_eq [of data 16 data 48 r] by simp
  moreover have "[0..<64] = [0..<16] @ [16..<64 :: nat]"
    using upt_add_eq_append [of 0 16 48] by simp
  ultimately show ?thesis
    by (simp add: sha256_Transform_def f compress_def rounds_of_def split_beta)
qed

section \<open>Buffering and padding\<close>

lemma length_reverse_words [simp]: "4 * n \<le> length b \<Longrightarrow> length (reverse_words n b) = length b"
  by (induction n arbitrary: b) simp_all

lemma length_le_words [simp]: "length (le_words n b) = n"
  by (induction n arbitrary: b) simp_all

lemma length_be_words [simp]: "length (be_words n b) = n"
  by (induction n arbitrary: b) simp_all

lemma le_words_reverse: "4 * n \<le> length b \<Longrightarrow> le_words n (reverse_words n b) = be_words n b"
  by (induction n arbitrary: b) simp_all

lemma process_buffer_eq:
  "length (sha_buffer c) = 64 \<Longrightarrow>
   sha_state (process_buffer c) = compress (sha_state c) (be_words 16 (sha_buffer c)) \<and>
   length (sha_buffer (process_buffer c)) = 64 \<and> bitcount (process_buffer c) = bitcount c"
  by (simp add: process_buffer_def Let_def le_words_reverse sha256_Transform_eq)

lemma compress_all_append:
  "64 dvd length a \<Longrightarrow> compress_all s (a @ b) = compress_all (compress_all s a) b"
proof (induction s a rule: compress_all.induct)
  case (1 s a)
  show ?case
  proof (cases "64 \<le> length a")
    case True
    then have "64 dvd length (drop 64 a)" using 1(2) by (simp add: dvd_minus_self)
    then have "compress_all (compress s (be_words 16 (take 64 a))) (drop 64 a @ b) =
        compress_all (compress_all (compress s (be_words 16 (take 64 a))) (drop 64 a)) b"
      using 1(1) True by blast
    then show ?thesis
      using True compress_all.simps [of s "a @ b"] compress_all.simps [of s a] by simp
  next
    case False
    then have "a = []" using 1(2) by (auto dest: dvd_imp_le)
    then show ?thesis by (subst (2) compress_all.simps) simp
  qed
qed

lemma compress_all_short: "length b < 64 \<Longrightarrow> compress_all s b = s"
  by (subst compress_all.simps) simp

lemma compress_all_one: "length b = 64 \<Longrightarrow> compress_all s b = compress s (be_words 16 b)"
  by (subst compress_all.simps) (simp add: compress_all_short)

text \<open>The blocks of a message that are complete, and the bytes left over.\<close>

definition whole :: "byte list \<Rightarrow> byte list" where "whole m = take (length m - length m mod 64) m"
definition left :: "byte list \<Rightarrow> byte list" where "left m = drop (length m - length m mod 64) m"

lemma whole_left: "whole m @ left m = m" "64 dvd length (whole m)" "length (left m) = length m mod 64"
  by (simp_all add: whole_def left_def dvd_minus_mod)

lemma whole_left_unique:
  assumes "64 dvd length a" "length b < 64"
  shows "whole (a @ b) = a" "left (a @ b) = b"
proof -
  have "length (a @ b) mod 64 = length b"
    using assms by (auto simp: mod_add_left_eq dvd_def)
  then show "whole (a @ b) = a" "left (a @ b) = b" by (simp_all add: whole_def left_def)
qed

lemma compress_all_whole: "compress_all s m = compress_all s (whole m)"
  using compress_all_append [OF whole_left(2) [of m], of s "left m"] whole_left [of m]
  by (simp add: compress_all_short)

text \<open>A context that has absorbed the message \<^verbatim>\<open>m\<close>.\<close>

definition absorbed :: "sha256_ctx \<Rightarrow> byte list \<Rightarrow> bool" where
  "absorbed c m \<longleftrightarrow> sha_state c = compress_all sha256_initial_hash_value (whole m) \<and>
     length (sha_buffer c) = 64 \<and> take (length m mod 64) (sha_buffer c) = left m \<and>
     8 * length m < 2 ^ 64 \<and> bitcount c = word_of_nat (8 * length m)"

lemma absorbed_init: "absorbed sha256_Init []"
  by (simp add: absorbed_def sha256_Init_def whole_def left_def compress_all_short)

lemma absorbed_used: "absorbed c m \<Longrightarrow> used_space c = length m mod 64"
proof -
  assume a: "absorbed c m"
  then have "unat (bitcount c) = 8 * length m" unfolding absorbed_def using unat_of_nat_u64 by metis
  then have "unat (drop_bit 3 (bitcount c)) = length m"
    by (simp add: drop_bit_eq_div unat_div)
  then show ?thesis by (simp add: used_space_def)
qed

lemma update_blocks_eq:
  assumes "length (sha_buffer c) = 64"
  shows "\<exists>c'. update_blocks c data = (c', left data) \<and> sha_state c' = compress_all (sha_state c) (whole data) \<and>
    length (sha_buffer c') = 64 \<and> bitcount c' = bitcount c + word_of_nat (8 * length (whole data))"
  using assms
proof (induction c data rule: update_blocks.induct)
  case (1 c data)
  show ?case
  proof (cases "64 \<le> length data")
    case True
    let ?c1 = "process_buffer (c\<lparr>sha_buffer := take 64 data\<rparr>)"
    let ?c2 = "?c1\<lparr>bitcount := bitcount ?c1 + 512\<rparr>"
    have p: "sha_state ?c1 = compress (sha_state c) (be_words 16 (take 64 data))"
      "length (sha_buffer ?c1) = 64" "bitcount ?c1 = bitcount c"
      using True process_buffer_eq [of "c\<lparr>sha_buffer := take 64 data\<rparr>"] by simp_all
    have d: "data = (take 64 data @ whole (drop 64 data)) @ left (drop 64 data)"
      using whole_left(1) [of "drop 64 data"] by simp
    have "64 dvd length (take 64 data @ whole (drop 64 data))"
      using True whole_left(2) [of "drop 64 data"] by simp
    moreover have "length (left (drop 64 data)) < 64" by (simp add: whole_left(3))
    ultimately have w: "whole data = take 64 data @ whole (drop 64 data)" and l: "left (drop 64 data) = left data"
      using whole_left_unique d by metis+
    obtain c' where c': "update_blocks ?c2 (drop 64 data) = (c', left (drop 64 data))"
      "sha_state c' = compress_all (sha_state ?c2) (whole (drop 64 data))" "length (sha_buffer c') = 64"
      "bitcount c' = bitcount ?c2 + word_of_nat (8 * length (whole (drop 64 data)))"
      using 1(1) [OF True refl] p by auto
    have "update_blocks c data = (c', left data)"
      using True c'(1) l by (subst update_blocks.simps) (simp add: Let_def)
    moreover have "compress_all (sha_state c) (whole data) =
        compress_all (compress (sha_state c) (be_words 16 (take 64 data))) (whole (drop 64 data))"
      using True by (simp add: w compress_all_append [of "take 64 data"] compress_all_one)
    ultimately show ?thesis using c' p w True by (simp add: algebra_simps)
  next
    case False
    then have "whole data = []" "left data = data" by (simp_all add: whole_def left_def)
    then show ?thesis using False 1(2) by (subst update_blocks.simps) (simp add: compress_all_short)
  qed
qed

lemma store_rest_absorbed:
  assumes "sha_state c = compress_all sha256_initial_hash_value a" "64 dvd length a" "length b < 64"
    "length (sha_buffer c) = 64" "bitcount c = word_of_nat (8 * length a)" "8 * length (a @ b) < 2 ^ 64"
  shows "absorbed (store_rest (c, b)) (a @ b)"
proof -
  have m: "length (a @ b) mod 64 = length b" using assms(2,3) by (auto simp: mod_add_left_eq dvd_def)
  note u = whole_left_unique [OF assms(2,3)]
  have "push_bit 3 (word_of_nat (length b) :: u64) = word_of_nat (8 * length b)"
    by (simp add: push_bit_eq_mult)
  then show ?thesis
    using assms m u by (cases "b = []") (simp_all add: absorbed_def store_rest_def algebra_simps)
qed

lemma absorbed_update:
  assumes A: "absorbed c m" and len: "8 * length (m @ data) < 2 ^ 64"
  shows "absorbed (sha256_Update c data) (m @ data)"
proof -
  let ?H = sha256_initial_hash_value
  have st: "sha_state c = compress_all ?H (whole m)" "length (sha_buffer c) = 64"
    "take (length m mod 64) (sha_buffer c) = left m" "bitcount c = word_of_nat (8 * length m)"
    using A by (auto simp: absorbed_def)
  note used = absorbed_used [OF A]
  consider "data = []" | "data \<noteq> []" "length m mod 64 = 0"
    | "data \<noteq> []" "0 < length m mod 64" "64 - length m mod 64 \<le> length data"
    | "data \<noteq> []" "0 < length m mod 64" "length data < 64 - length m mod 64"
    by linarith
  then show ?thesis
  proof cases
    case 1
    then show ?thesis using A by (simp add: sha256_Update_def)
  next
    case 2
    then have w: "whole m = m" by (simp add: whole_def)
    obtain c' where c': "update_blocks c data = (c', left data)" "sha_state c' = compress_all (sha_state c) (whole data)"
      "length (sha_buffer c') = 64" "bitcount c' = bitcount c + word_of_nat (8 * length (whole data))"
      using update_blocks_eq [OF st(2)] by blast
    have d: "64 dvd length m" using 2 by auto
    have "absorbed (store_rest (c', left data)) ((m @ whole data) @ left data)"
    proof (rule store_rest_absorbed)
      show "sha_state c' = compress_all ?H (m @ whole data)"
        using c' st w by (simp add: compress_all_append [OF d])
      show "bitcount c' = word_of_nat (8 * length (m @ whole data))" using c' st by (simp add: algebra_simps)
      show "64 dvd length (m @ whole data)" using d whole_left(2) [of data] by simp
      show "8 * length ((m @ whole data) @ left data) < 2 ^ 64"
        using len whole_left(1) [of data] by (simp only: append_assoc)
    qed (use c' whole_left(3) [of data] in simp_all)
    then show ?thesis using 2 used c' whole_left(1) [of data] by (simp add: sha256_Update_def)
  next
    case 3
    let ?u = "length m mod 64"
    let ?x = "take (64 - ?u) data" and ?y = "drop (64 - ?u) data"
    let ?c1 = "c\<lparr>sha_buffer := take ?u (sha_buffer c) @ ?x, bitcount := bitcount c + word_of_nat (8 * (64 - ?u))\<rparr>"
    have b: "sha_buffer ?c1 = left m @ ?x" "length (left m @ ?x) = 64"
      using st 3 by (simp_all add: whole_left(3))
    have mx: "m @ ?x = whole m @ (left m @ ?x)" using whole_left(1) [of m] by simp
    have dmx: "64 dvd length (m @ ?x)"
      unfolding mx using b(2) whole_left(2) [of m] by simp
    have lx: "length ?x = 64 - ?u" using 3 by simp
    have "word_of_nat (8 * length m) + word_of_nat (8 * (64 - ?u)) = (word_of_nat (8 * length (m @ ?x)) :: u64)"
      unfolding length_append lx distrib_left by (rule of_nat_add [symmetric])
    then have bc: "bitcount ?c1 = word_of_nat (8 * length (m @ ?x))" using st(4) by (simp del: of_nat_mult of_nat_add length_append)
    have "compress_all ?H (m @ ?x) = compress (compress_all ?H (whole m)) (be_words 16 (left m @ ?x))"
      unfolding mx by (simp only: compress_all_append [OF whole_left(2)] compress_all_one [OF b(2)])
    then have p: "sha_state (process_buffer ?c1) = compress_all ?H (m @ ?x)"
      "length (sha_buffer (process_buffer ?c1)) = 64"
      "bitcount (process_buffer ?c1) = word_of_nat (8 * length (m @ ?x))"
      using process_buffer_eq [of ?c1] b st(1) bc by (simp_all del: of_nat_mult of_nat_add length_append)
    obtain c' where c': "update_blocks (process_buffer ?c1) ?y = (c', left ?y)"
      "sha_state c' = compress_all (sha_state (process_buffer ?c1)) (whole ?y)"
      "length (sha_buffer c') = 64" "bitcount c' = bitcount (process_buffer ?c1) + word_of_nat (8 * length (whole ?y))"
      using update_blocks_eq [OF p(2)] by blast
    have all: "((m @ ?x) @ whole ?y) @ left ?y = m @ data" using whole_left(1) [of ?y] by simp
    have "absorbed (store_rest (c', left ?y)) (((m @ ?x) @ whole ?y) @ left ?y)"
    proof (rule store_rest_absorbed)
      show "sha_state c' = compress_all ?H ((m @ ?x) @ whole ?y)"
        using c' p by (simp only: compress_all_append [OF dmx])
      show "64 dvd length ((m @ ?x) @ whole ?y)"
        using dmx whole_left(2) [of ?y] by (metis dvd_add length_append)
      show "bitcount c' = word_of_nat (8 * length ((m @ ?x) @ whole ?y))" using c' p by (simp add: algebra_simps)
      show "8 * length (((m @ ?x) @ whole ?y) @ left ?y) < 2 ^ 64" unfolding all by (rule len)
    qed (use c' whole_left(3) [of ?y] in simp_all)
    then show ?thesis unfolding all using 3 used c'(1) by (simp add: sha256_Update_def Let_def)
  next
    case 4
    let ?u = "length m mod 64"
    have l: "length (left m @ data) < 64" using 4 by (simp add: whole_left(3))
    have md: "m @ data = whole m @ (left m @ data)" using whole_left(1) [of m] by simp
    note u = whole_left_unique [OF whole_left(2) l]
    have lm: "left (m @ data) = left m @ data" by (subst md) (rule u(2))
    have wm: "whole (m @ data) = whole m" by (subst md) (rule u(1))
    have "length (m @ data) mod 64 = length (left m @ data)"
      using whole_left(3) [of "m @ data"] unfolding lm by (rule sym)
    moreover have "push_bit 3 (word_of_nat (length data) :: u64) = word_of_nat (8 * length data)"
      by (simp add: push_bit_eq_mult)
    ultimately show ?thesis
      using 4 used st len by (simp add: sha256_Update_def Let_def absorbed_def lm wm algebra_simps whole_left(3))
  qed
qed

lemma reverse_words_app: "length a = 4 * n \<Longrightarrow> reverse_words n (a @ b) = reverse_words n a @ b"
  by (induction n arbitrary: a) simp_all

lemma le_words_app: "length a = 4 * n \<Longrightarrow> le_words (n + k) (a @ b) = le_words n a @ le_words k b"
  by (induction n arbitrary: a) simp_all

lemma be_words_app: "length a = 4 * n \<Longrightarrow> be_words (n + k) (a @ b) = be_words n a @ be_words k b"
  by (induction n arbitrary: a) simp_all

lemma le_of_nat_snoc4: "le_of_nat 8 x = le_of_nat 4 x @ le_of_nat 4 (x div 4294967296)"
  using le_of_nat_add [of 4 4 x] by simp

lemma u64_le_halves: "u64_le w = u32_le (ucast (w AND 0xffffffff)) @ u32_le (ucast (drop_bit 32 w))"
proof -
  have a: "ucast (w AND 0xffffffff) = (ucast w :: u32)"
  proof -
    have "(0xffffffff :: u64) = mask 32" by (simp add: mask_eq_exp_minus_1)
    then have "w AND 0xffffffff = take_bit 32 w" by (simp only: take_bit_eq_mask)
    then show ?thesis by (simp only:) (rule bit_word_eqI, simp add: bit_simps)
  qed
  have b: "unat (ucast w :: u32) = unat w mod 4294967296"
    by (simp add: unsigned_ucast_eq take_bit_eq_mod)
  have "unat w < 2 ^ 64" by (rule unat_u64_less)
  then have "unat (ucast (drop_bit 32 w) :: u32) = unat w div 4294967296"
    by (simp add: unsigned_ucast_eq drop_bit_eq_div unat_div take_bit_nat_eq_self div_less_iff_less_mult)
  moreover have "le_of_nat 4 (unat w mod 4294967296) = le_of_nat 4 (unat w)"
  proof -
    have "le_of_nat 4 (nat_of_le (le_of_nat 4 (unat w))) = le_of_nat 4 (unat w)"
      by (rule le_of_nat_of_le) simp
    then show ?thesis by (simp add: nat_of_le_of_nat)
  qed
  ultimately show ?thesis by (simp add: u64_le_def u32_le_def a b le_of_nat_snoc4)
qed

text \<open>The last block: fifty-six bytes and the bit count.\<close>

lemma last_block:
  assumes "length b = 56"
  shows "le_words 16 (reverse_words 14 b @ u32_le (ucast (drop_bit 32 n)) @ u32_le (ucast (n AND 0xffffffff)))
    = be_words 16 (b @ rev (u64_le n))"
proof -
  have "le_words (14 + 2) (reverse_words 14 b @ u32_le x @ u32_le y) = be_words 14 b @ [x, y]" for x y
    using assms by (subst le_words_app) (simp_all add: le_words_reverse numeral_2_eq_2 wire_simps)
  moreover have "be_words (14 + 2) (b @ rev (u64_le n)) =
      be_words 14 b @ [ucast (drop_bit 32 n), ucast (n AND 0xffffffff)]"
    using assms by (subst be_words_app) (simp_all add: u64_le_halves numeral_2_eq_2 wire_simps)
  ultimately show ?thesis by simp
qed

lemma take_reverse_words: "length x = 56 \<Longrightarrow> take 56 (reverse_words 14 (x @ y)) = reverse_words 14 x"
  by (simp add: reverse_words_app)

lemma sha256_Final_eq:
  assumes A: "absorbed c m"
  shows "sha256_Final c = fips_sha256 m"
proof -
  let ?H = sha256_initial_hash_value and ?u = "length m mod 64"
  let ?n = "word_of_nat (8 * length m) :: u64"
  let ?out = "\<lambda>s. concat (map (\<lambda>w. rev (u32_le w)) s)"
  have st: "sha_state c = compress_all ?H (whole m)" "length (sha_buffer c) = 64"
    "take ?u (sha_buffer c) = left m" "bitcount c = ?n"
    using A by (auto simp: absorbed_def)
  note used = absorbed_used [OF A]
  have u: "?u < 64" and ll: "length (left m) = ?u" by (simp_all add: whole_left(3))
  have pad: "fips_pad m = whole m @ (left m @ 0x80 # replicate ((119 - ?u) mod 64) 0 @ rev (u64_le ?n))"
    unfolding fips_pad_eq using whole_left(1) [of m] by (metis append_assoc)
  have F: "compress_all ?H (fips_pad m) =
      compress_all (sha_state c) (left m @ 0x80 # replicate ((119 - ?u) mod 64) 0 @ rev (u64_le ?n))"
    unfolding pad st(1) by (rule compress_all_append [OF whole_left(2)])
  show ?thesis
  proof (cases "?u < 56")
    case True
    define x where "x = left m @ 0x80 # replicate (55 - ?u) (0 :: byte)"
    have x: "length x = 56" using True ll by (simp add: x_def)
    have z: "(119 - ?u) mod 64 = 55 - ?u"
    proof -
      have e: "119 - ?u = (55 - ?u) + 64" using True by linarith
      have "((55 - ?u) + 64) mod 64 = (55 - ?u) mod 64" by (rule mod_add_self2)
      then show ?thesis unfolding e by simp
    qed
    have blk: "left m @ 0x80 # replicate ((119 - ?u) mod 64) 0 @ rev (u64_le ?n) = x @ rev (u64_le ?n)"
      by (simp add: x_def z)
    have "compress_all (sha_state c) (x @ rev (u64_le ?n)) =
        compress (sha_state c) (be_words 16 (x @ rev (u64_le ?n)))"
      using x by (intro compress_all_one) simp
    moreover have "take 56 (reverse_words 14 (left m @ 0x80 # replicate (55 - ?u) 0 @ zs)) = reverse_words 14 x" for zs
      using take_reverse_words [OF x, of zs] by (simp add: x_def)
    ultimately show ?thesis
      using True st used ll
      by (simp add: sha256_Final_def Let_def fips_sha256_eq F blk last_block [OF x]
          sha256_Transform_eq del: of_nat_mult)
  next
    case False
    define x where "x = left m @ 0x80 # replicate (63 - ?u) (0 :: byte)"
    have x: "length x = 64" using False u ll by (simp add: x_def)
    have z: "(119 - ?u) mod 64 = (63 - ?u) + 56"
    proof -
      have e: "119 - ?u = (63 - ?u) + 56" using u by linarith
      have "(63 - ?u) + 56 < 64" using False by linarith
      then show ?thesis unfolding e by (rule mod_less)
    qed
    have blk: "left m @ 0x80 # replicate ((119 - ?u) mod 64) 0 @ rev (u64_le ?n) =
        x @ replicate 56 0 @ rev (u64_le ?n)"
      unfolding z replicate_add x_def by (simp only: append_assoc append_Cons)
    have d: "64 dvd length x" by (simp add: x)
    have "compress_all (sha_state c) (x @ replicate 56 0 @ rev (u64_le ?n)) =
        compress (compress (sha_state c) (be_words 16 x)) (be_words 16 (replicate 56 0 @ rev (u64_le ?n)))"
      using x by (simp add: compress_all_append [OF d] compress_all_one)
    moreover have xx: "left m @ 0x80 # replicate (63 - ?u) 0 = x" by (simp add: x_def)
    moreover have "sha_state (process_buffer (c\<lparr>sha_buffer := x\<rparr>)) = compress (sha_state c) (be_words 16 x)"
      "length (sha_buffer (process_buffer (c\<lparr>sha_buffer := x\<rparr>))) = 64"
      "bitcount (process_buffer (c\<lparr>sha_buffer := x\<rparr>)) = ?n"
      using process_buffer_eq [of "c\<lparr>sha_buffer := x\<rparr>"] x st by simp_all
    ultimately show ?thesis
      using False st used ll F [unfolded blk]
      by (simp add: sha256_Final_def Let_def fips_sha256_eq take_reverse_words last_block xx
          sha256_Transform_eq del: of_nat_mult)
  qed
qed

section \<open>Properties\<close>

lemma sha256_Raw_fips: "8 * length m < 2 ^ 64 \<Longrightarrow> sha256_Raw m = fips_sha256 m"
  using sha256_Final_eq [OF absorbed_update [OF absorbed_init, of m]] by (simp add: sha256_Raw_def)

text \<open>C39: Hashing a message in one call of \<^verbatim>\<open>sha256_Raw\<close> is the SHA-256 of the standard as
  theory \<^verbatim>\<open>Sha256_Spec\<close> states it without the code, for every message below \<^verbatim>\<open>2 ^ 61\<close> bytes:
  the tables are the roots of the primes, the macros are the functions of the standard, and the
  buffering, the in-place message schedule in a ring of sixteen words, the padding over one or two
  blocks and the bit count in the last two words agree with padding, splitting and compressing.\<close>

theorem sha256_Raw_standard:
  assumes "8 * length m < 2 ^ 64"
  shows "sha256_Raw m = fips_sha256 m"
proof -
  have "absorbed (sha256_Update sha256_Init m) ([] @ m)"
    using absorbed_update [OF absorbed_init] assms by simp
  then show ?thesis by (simp add: sha256_Raw_def sha256_Final_eq)
qed

lemma sha256_Raw_standard_witness: "sha256_Raw [0x61, 0x62, 0x63] = fips_sha256 [0x61, 0x62, 0x63]"
  by (rule sha256_Raw_standard) simp

text \<open>A message may be fed to \<^verbatim>\<open>sha256_Update\<close> in any pieces: the digest is that of the pieces
  put together.\<close>

theorem sha256_Update_pieces:
  assumes "8 * length (concat ds) < 2 ^ 64"
  shows "sha256_Final (foldl sha256_Update sha256_Init ds) = sha256_Raw (concat ds)"
proof -
  have "8 * length (m @ concat ds) < 2 ^ 64 \<Longrightarrow> absorbed c m \<Longrightarrow> absorbed (foldl sha256_Update c ds) (m @ concat ds)" for c m
  proof (induction ds arbitrary: c m)
    case (Cons d ds)
    have "absorbed (sha256_Update c d) (m @ d)" using Cons.prems by (intro absorbed_update) simp_all
    from Cons.IH [OF _ this] Cons.prems(1) show ?case by simp
  qed simp
  from this [of "[]", OF _ absorbed_init] assms
  have "absorbed (foldl sha256_Update sha256_Init ds) (concat ds)" by simp
  then have "sha256_Final (foldl sha256_Update sha256_Init ds) = fips_sha256 (concat ds)" by (rule sha256_Final_eq)
  moreover have "absorbed (sha256_Update sha256_Init (concat ds)) ([] @ concat ds)"
    using assms by (intro absorbed_update absorbed_init) simp
  then have "sha256_Raw (concat ds) = fips_sha256 (concat ds)" by (simp add: sha256_Raw_def sha256_Final_eq)
  ultimately show ?thesis by simp
qed

lemma sha256_Update_pieces_witness:
  "sha256_Final (sha256_Update (sha256_Update sha256_Init [1, 2]) [3]) = sha256_Raw [1, 2, 3]"
  using sha256_Update_pieces [of "[[1, 2], [3]]"] by simp

lemma length_compress_all: "length s = 8 \<Longrightarrow> length (compress_all s m) = 8"
proof (induction s m rule: compress_all.induct)
  case (1 s m)
  then show ?case by (subst compress_all.simps) (simp add: length_compress)
qed

lemma length_digest: "length (concat (map (\<lambda>w. rev (u32_le w)) ws)) = 4 * length ws"
  by (induction ws) simp_all

lemma length_fips_sha256 [simp]: "length (fips_sha256 m) = 32"
  by (simp add: fips_sha256_eq length_digest length_compress_all sha256_initial_hash_value_def)

definition hash256 :: "byte list \<Rightarrow> byte list"
  where "hash256 m = fips_sha256 (fips_sha256 m)"

lemma length_hash256 [simp]: "length (hash256 m) = 32"
  by (simp add: hash256_def)

lemma sha256d_eq:
  assumes "b \<noteq> []" "length b < 2 ^ 32" "32 \<le> length dst" "32 \<le> unat n"
  shows "sha256d (Some (b @ r)) (word_of_nat (length b)) (Some dst) n = Some (Some (hash256 b @ drop 32 dst))"
proof -
  have u: "unat (word_of_nat (length b) :: u32) = length b"
    using assms(2) by (simp add: unat_of_nat take_bit_nat_eq_self)
  then have nz: "word_of_nat (length b) \<noteq> (0 :: u32)" using assms(1) by auto
  have "sha256_Raw b = fips_sha256 b" "sha256_Raw (fips_sha256 b) = hash256 b"
    using sha256_Raw_fips assms(2) by (simp_all add: hash256_def)
  then show ?thesis
    using assms nz u by (simp add: sha256d_def word_less_nat_alt rd_app wr_0)
qed

end
