(* ===== verification/Script.thy ===== *)
theory Script
imports Deserialize
begin

text \<open>
  \<^verbatim>\<open>Spacechain_os_part/spc/spcscript.c\<close>: a script is split into its items, commands of one
  byte and pushed data.  \<^verbatim>\<open>parse_script\<close> goes over the script twice, first to count the items
  and then to copy them.
\<close>

section \<open>The structures\<close>

record script_item =
  si_len :: u32
  si_item :: "byte list ptr"

record spc_script =
  items_num :: u64
  items_list :: "script_item list ptr"

definition zero_script_item :: script_item
  where "zero_script_item = \<lparr>si_len = 0, si_item = NULL\<rparr>"

definition zero_script :: spc_script
  where "zero_script = \<lparr>items_num = 0, items_list = NULL\<rparr>"

section \<open>Items\<close>

text \<open>The opcodes \<^verbatim>\<open>OP_PUSHDATA1\<close>, \<^verbatim>\<open>OP_PUSHDATA2\<close> and \<^verbatim>\<open>OP_PUSHDATA4\<close>.\<close>

abbreviation (input) "OP_PUSHDATA1 \<equiv> (0x4c :: byte)"
abbreviation (input) "OP_PUSHDATA2 \<equiv> (0x4d :: byte)"
abbreviation (input) "OP_PUSHDATA4 \<equiv> (0x4e :: byte)"

definition count_single_item :: "buf \<Rightarrow> (int \<times> u64) option" where
  "count_single_item buffer =
    (case buffer of None \<Rightarrow> Some (-1, 0)
     | Some b \<Rightarrow> do {
         head \<leftarrow> nth_ub 0 b;
         if 0x01 \<le> head \<and> head \<le> 0x4b then Some (0, 1 + ucast head)
         else if head = OP_PUSHDATA1 then do {
           sz \<leftarrow> nth_ub 0 (adv 1 b);
           Some (0, 2 + ucast sz)
         }
         else if head = OP_PUSHDATA2 then do {
           sz \<leftarrow> rd 2 (adv 1 b);
           Some (0, 3 + ucast (le_u16 sz))
         }
         else if head = OP_PUSHDATA4 then do {
           sz \<leftarrow> rd 4 (adv 1 b);
           Some (0, 5 + ucast (le_u32 sz))
         }
         else Some (0, 1)
       })"

text \<open>The common end of the branches of \<^verbatim>\<open>get_single_item\<close> that push data: the item of
  \<^verbatim>\<open>sz\<close> bytes behind \<^verbatim>\<open>counter\<close> is copied to a new block.\<close>

definition copy_item :: "byte list \<Rightarrow> u64 \<Rightarrow> u64 \<Rightarrow> script_item \<Rightarrow> u64 \<Rightarrow> heap
    \<Rightarrow> (int \<times> script_item \<times> u64 \<times> heap) option" where
  "copy_item b counter sz st out h =
    (case malloc sz h of
       (None, h1) \<Rightarrow> Some (-1, st, out, h1)
     | (Some p, h1) \<Rightarrow> do {
         d \<leftarrow> rd (unat sz) (adv counter b);
         Some (0, \<lparr>si_len = ucast sz, si_item = Ptr p d\<rparr>, counter + sz, h1)
       })"

definition get_single_item :: "buf \<Rightarrow> script_item \<Rightarrow> u64 \<Rightarrow> heap \<Rightarrow> (int \<times> script_item \<times> u64 \<times> heap) option"
  where
  "get_single_item buffer st out h =
    (case buffer of None \<Rightarrow> Some (-1, st, 0, h)
     | Some b \<Rightarrow> do {
         head \<leftarrow> nth_ub 0 b;
         if 0x01 \<le> head \<and> head \<le> 0x4b then copy_item b 1 (ucast head) st out h
         else if head = OP_PUSHDATA1 then do {
           sz \<leftarrow> nth_ub 0 (adv 1 b);
           if sz \<le> 0x4b then Some (-1, st, out, h)
           else copy_item b 2 (ucast sz) st out h
         }
         else if head = OP_PUSHDATA2 then do {
           sz \<leftarrow> rd 2 (adv 1 b);
           copy_item b 3 (ucast (le_u16 sz)) st out h
         }
         else if head = OP_PUSHDATA4 then do {
           sz \<leftarrow> rd 4 (adv 1 b);
           copy_item b 5 (ucast (le_u32 sz)) st out h
         }
         else (case malloc 1 h of
             (None, h1) \<Rightarrow> Some (-1, st, out, h1)
           | (Some p, h1) \<Rightarrow> Some (0, \<lparr>si_len = 0, si_item = Ptr p [head]\<rparr>, 1, h1))
       })"

section \<open>Scripts\<close>

text \<open>The loop that counts: the rounds it may take, the script length, the sum and the number of
  items so far.  Every round adds at least one, so the length of the script is enough rounds
  (theory \<^verbatim>\<open>Script_Correct\<close>).\<close>

fun count_items :: "nat \<Rightarrow> byte list \<Rightarrow> u64 \<Rightarrow> u64 \<Rightarrow> u64 \<Rightarrow> (int \<times> u64 \<times> u64) option" where
  "count_items 0 b script_len sm num = (if sm < script_len then None else Some (0, sm, num))"
| "count_items (Suc fuel) b script_len sm num =
    (if sm < script_len then do {
       (ret, counter) \<leftarrow> count_single_item (Some (adv sm b));
       if ret \<noteq> 0 then Some (-1, sm, num)
       else count_items fuel b script_len (sm + counter) (num + 1)
     }
     else Some (0, sm, num))"

text \<open>The loop that copies: rounds left, index, array, sum, local item and heap.\<close>

fun get_items :: "nat \<Rightarrow> nat \<Rightarrow> byte list \<Rightarrow> script_item list \<Rightarrow> u64 \<Rightarrow> script_item \<Rightarrow> u64 \<Rightarrow> heap
    \<Rightarrow> (int \<times> script_item list \<times> u64 \<times> heap) option" where
  "get_items 0 i b arr sm st counter h = Some (0, arr, sm, h)"
| "get_items (Suc k) i b arr sm st counter h = do {
     (ret, st', counter', h') \<leftarrow> get_single_item (Some (adv sm b)) st counter h;
     if ret \<noteq> 0 then Some (-1, arr, sm, h')
     else do {
       arr' \<leftarrow> upd_ub i st' arr;
       get_items k (Suc i) b arr' (sm + counter') st' counter' h'
     }
   }"

definition parse_script :: "buf \<Rightarrow> u64 \<Rightarrow> spc_script \<Rightarrow> heap \<Rightarrow> (int \<times> spc_script \<times> heap) option" where
  "parse_script buffer script_len out h =
    (case buffer of None \<Rightarrow> Some (-1, out, h)
     | Some b \<Rightarrow>
       if script_len = 0 then Some (-1, out, h)
       else do {
         (ret, sm, num) \<leftarrow> count_items (unat script_len) b script_len 0 0;
         if ret \<noteq> 0 then Some (-1, out, h)
         else if sm \<noteq> script_len then Some (-1, out, h)
         else (case malloc (num * 12) h of
             (None, h1) \<Rightarrow> Some (-1, out, h1)
           | (Some p, h1) \<Rightarrow> do {
               (ret, arr, sm, h2) \<leftarrow>
                 get_items (unat num) 0 b (replicate (unat (num * 12) div 12) zero_script_item) 0
                   zero_script_item 0 h1;
               if ret \<noteq> 0 then Some (-1, out, h2)
               else if sm \<noteq> script_len then Some (-1, out, h2)
               else Some (0, \<lparr>items_num = num, items_list = Ptr p arr\<rparr>, h2)
             })
       })"

fun free_items_loop :: "nat \<Rightarrow> nat \<Rightarrow> script_item list ptr \<Rightarrow> heap \<Rightarrow> heap option" where
  "free_items_loop 0 i lst h = Some h"
| "free_items_loop (Suc k) i lst h = do {
     arr \<leftarrow> deref lst h;
     st \<leftarrow> nth_ub i arr;
     h' \<leftarrow> free (si_item st) h;
     free_items_loop k (Suc i) lst h'
   }"

definition free_script :: "spc_script \<Rightarrow> heap \<Rightarrow> (spc_script \<times> heap) option" where
  "free_script s h = do {
     h1 \<leftarrow> free_items_loop (unat (items_num s)) 0 (items_list s) h;
     h2 \<leftarrow> free (items_list s) h1;
     Some (s\<lparr>items_list := NULL\<rparr>, h2)
   }"

end
