(* ===== verification/Script_Correct.thy ===== *)
theory Script_Correct
imports Script Serialize_Correct
begin

text \<open>
  What \<^verbatim>\<open>spcscript.c\<close> computes: the items a script consists of and their bytes, both passes
  of \<^verbatim>\<open>parse_script\<close> on such bytes, and the frees of \<^verbatim>\<open>free_script\<close>.
\<close>

section \<open>Script items and their bytes\<close>

datatype sitem = Cmd byte | Push "byte list" | Push1 "byte list" | Push2 "byte list" | Push4 "byte list"

fun enc_sitem :: "sitem \<Rightarrow> byte list" where
  "enc_sitem (Cmd c) = [c]"
| "enc_sitem (Push d) = word_of_nat (length d) # d"
| "enc_sitem (Push1 d) = 0x4c # word_of_nat (length d) # d"
| "enc_sitem (Push2 d) = 0x4d # u16_le (word_of_nat (length d)) @ d"
| "enc_sitem (Push4 d) = 0x4e # u32_le (word_of_nat (length d)) @ d"

text \<open>What the parser takes: an opcode that pushes nothing, a direct push of 1 to 75 bytes, a
  one-byte length of at least 76, and two- and four-byte lengths of any value.\<close>

fun wf_sitem :: "sitem \<Rightarrow> bool" where
  "wf_sitem (Cmd c) = (c = 0 \<or> 0x4e < c)"
| "wf_sitem (Push d) = (1 \<le> length d \<and> length d \<le> 75)"
| "wf_sitem (Push1 d) = (76 \<le> length d \<and> length d \<le> 255)"
| "wf_sitem (Push2 d) = (length d < 2 ^ 16)"
| "wf_sitem (Push4 d) = (length d < 2 ^ 32)"

fun sitem_data :: "sitem \<Rightarrow> byte list" where
  "sitem_data (Cmd c) = [c]"
| "sitem_data (Push d) = d"
| "sitem_data (Push1 d) = d"
| "sitem_data (Push2 d) = d"
| "sitem_data (Push4 d) = d"

definition mk_sitem :: "nat \<Rightarrow> sitem \<Rightarrow> script_item" where
  "mk_sitem n it = \<lparr>si_len = (case it of Cmd c \<Rightarrow> 0 | _ \<Rightarrow> word_of_nat (length (sitem_data it))),
     si_item = Ptr n (sitem_data it)\<rparr>"

lemma enc_sitem_ne [simp]: "enc_sitem it \<noteq> []"
  by (cases it) simp_all

lemma unat_byte_len: "length d < 256 \<Longrightarrow> unat (word_of_nat (length d) :: byte) = length d"
  by (simp add: unat_of_nat take_bit_nat_eq_self)

lemma ucast_byte_len: "length d < 256 \<Longrightarrow> ucast (word_of_nat (length d) :: byte) = (len64 d :: u64)"
  by (rule word_unat_eq_iff [THEN iffD2])
    (simp add: unsigned_ucast_eq unat_byte_len unat_len64 take_bit_nat_eq_self)

lemma ucast_u16_len: "length d < 2 ^ 16 \<Longrightarrow> ucast (word_of_nat (length d) :: u16) = (len64 d :: u64)"
  by (rule word_unat_eq_iff [THEN iffD2])
    (simp add: unsigned_ucast_eq unat_of_nat unat_len64 take_bit_nat_eq_self)

lemma ucast_u32_len: "length d < 2 ^ 32 \<Longrightarrow> ucast (word_of_nat (length d) :: u32) = (len64 d :: u64)"
  by (rule word_unat_eq_iff [THEN iffD2])
    (simp add: unsigned_ucast_eq unat_of_nat unat_len64 take_bit_nat_eq_self)

lemma ucast_len64_u32: "length d < 2 ^ 32 \<Longrightarrow> ucast (len64 d :: u64) = (word_of_nat (length d) :: u32)"
  by (rule word_unat_eq_iff [THEN iffD2])
    (simp add: unsigned_ucast_eq unat_of_nat unat_len64 take_bit_nat_eq_self)

lemma copy_item_eq:
  assumes "no_oom h" "length d < 2 ^ 32" "adv c b = d @ r"
  shows "copy_item b c (len64 d) st out h =
    Some (0, \<lparr>si_len = word_of_nat (length d), si_item = Ptr (calls h) d\<rparr>, c + len64 d, alloc 1 h)"
  using assms by (simp add: copy_item_def malloc_alloc unat_len64 rd_app ucast_len64_u32)

lemma adv_small:
  "adv 1 (x # ys) = ys" "adv 2 (x # y # ys) = ys" "adv 3 (x # u16_le v @ ys) = ys" "adv 5 (x # u32_le w @ ys) = ys"
  by (simp_all add: adv_def)

lemma direct_push:
  assumes "1 \<le> length d" "length d \<le> 75"
  shows "1 \<le> (word_of_nat (length d) :: byte)" "(word_of_nat (length d) :: byte) \<le> 0x4b"
  using assms by (simp_all add: word_le_nat_alt unat_byte_len)

text \<open>The counting pass also goes over a one-byte length below 76.\<close>

definition counted :: "sitem \<Rightarrow> bool"
  where "counted it \<longleftrightarrow> wf_sitem it \<or> (\<exists>d. it = Push1 d \<and> length d < 256)"

lemma count_single_item_enc:
  "counted it \<Longrightarrow> count_single_item (Some (enc_sitem it @ r)) = Some (0, len64 (enc_sitem it))"
proof (cases it)
  case (Cmd c)
  assume "counted it"
  then have "\<not> (1 \<le> c \<and> c \<le> 0x4b)" "c \<noteq> 0x4c" "c \<noteq> 0x4d" "c \<noteq> 0x4e"
    using Cmd by (auto simp: counted_def word_le_nat_alt word_less_nat_alt)
  then show ?thesis using Cmd by (auto simp: count_single_item_def nth_ub_def)
next
  case (Push d)
  assume "counted it"
  then show ?thesis using Push direct_push [of d]
    by (simp add: counted_def count_single_item_def nth_ub_def ucast_byte_len)
next
  case (Push1 d)
  assume "counted it"
  then show ?thesis using Push1
    by (auto simp: counted_def count_single_item_def nth_ub_def ucast_byte_len adv_small)
next
  case (Push2 d)
  assume "counted it"
  then show ?thesis using Push2
    by (simp add: counted_def count_single_item_def nth_ub_def ucast_u16_len adv_small rd_app wire_simps)
next
  case (Push4 d)
  assume "counted it"
  then show ?thesis using Push4
    by (simp add: counted_def count_single_item_def nth_ub_def ucast_u32_len adv_small rd_app wire_simps)
qed

lemma get_single_item_enc:
  assumes "wf_sitem it" and h: "no_oom h"
  shows "get_single_item (Some (enc_sitem it @ r)) st out h =
    Some (0, mk_sitem (calls h) it, len64 (enc_sitem it), alloc 1 h)"
proof (cases it)
  case (Cmd c)
  then have "\<not> (1 \<le> c \<and> c \<le> 0x4b)" "c \<noteq> 0x4c" "c \<noteq> 0x4d" "c \<noteq> 0x4e"
    using assms by (auto simp: word_le_nat_alt word_less_nat_alt)
  then show ?thesis using Cmd h by (auto simp: get_single_item_def nth_ub_def malloc_alloc mk_sitem_def)
next
  case (Push d)
  then show ?thesis using assms direct_push [of d] copy_item_eq [OF h, of d 1]
    by (simp add: get_single_item_def nth_ub_def ucast_byte_len mk_sitem_def adv_small)
next
  case (Push1 d)
  moreover from this have "\<not> (word_of_nat (length d) :: byte) \<le> 0x4b"
    using assms by (simp add: word_le_nat_alt unat_byte_len)
  ultimately show ?thesis using assms copy_item_eq [OF h, of d 2]
    by (simp add: get_single_item_def nth_ub_def ucast_byte_len mk_sitem_def adv_small)
next
  case (Push2 d)
  then show ?thesis using assms copy_item_eq [OF h, of d 3]
    by (simp add: get_single_item_def nth_ub_def ucast_u16_len mk_sitem_def adv_small rd_app wire_simps)
next
  case (Push4 d)
  then show ?thesis using assms copy_item_eq [OF h, of d 5]
    by (simp add: get_single_item_def nth_ub_def ucast_u32_len mk_sitem_def adv_small rd_app wire_simps)
qed

section \<open>The two passes\<close>

lemma count_items_enc:
  "\<lbrakk>list_all counted its; length its \<le> fuel; length (pre @ concat (map enc_sitem its)) < 2 ^ 64\<rbrakk> \<Longrightarrow>
   count_items fuel (pre @ concat (map enc_sitem its) @ rest) (len64 (pre @ concat (map enc_sitem its))) (len64 pre) num =
   Some (0, len64 (pre @ concat (map enc_sitem its)), num + len64 its)"
proof (induction its arbitrary: pre num fuel)
  case Nil
  then show ?case by (cases fuel) simp_all
next
  case (Cons it its)
  then obtain f where f: "fuel = Suc f" "length its \<le> f" by (cases fuel) auto
  let ?all = "pre @ concat (map enc_sitem (it # its))"
  have "len64 pre < (len64 ?all :: u64)"
    using Cons.prems(3) by (simp add: word_less_nat_alt unat_of_nat_u64 flip: of_nat_add)
  moreover have "adv (len64 pre) (pre @ enc_sitem it @ concat (map enc_sitem its) @ rest) =
      enc_sitem it @ concat (map enc_sitem its) @ rest"
    using Cons.prems(3) by (intro adv_len64) simp
  moreover have "count_items f ((pre @ enc_sitem it) @ concat (map enc_sitem its) @ rest)
      (len64 ((pre @ enc_sitem it) @ concat (map enc_sitem its))) (len64 (pre @ enc_sitem it)) (num + 1) =
    Some (0, len64 ((pre @ enc_sitem it) @ concat (map enc_sitem its)), (num + 1) + len64 its)"
    using Cons.prems f by (intro Cons.IH) simp_all
  ultimately show ?case
    using Cons.prems(1) f by (simp add: count_single_item_enc add.assoc)
qed

lemma get_items_enc:
  "\<lbrakk>list_all wf_sitem its; no_oom h; length (pre @ concat (map enc_sitem its)) < 2 ^ 64;
    length done' = i; length its \<le> length todo\<rbrakk> \<Longrightarrow>
   get_items (length its) i (pre @ concat (map enc_sitem its) @ rest) (done' @ todo) (len64 pre) st c h =
   Some (0, done' @ mks mk_sitem (\<lambda>_. 1) (calls h) its @ drop (length its) todo,
         len64 (pre @ concat (map enc_sitem its)), alloc (length its) h)"
proof (induction its arbitrary: pre done' todo i st c h)
  case (Cons it its)
  then obtain t todo' where todo: "todo = t # todo'" by (cases todo) auto
  have a: "adv (len64 pre) (pre @ enc_sitem it @ concat (map enc_sitem its) @ rest) =
      enc_sitem it @ concat (map enc_sitem its) @ rest"
    using Cons.prems(3) by (intro adv_len64) simp
  have "get_items (length its) (Suc i) ((pre @ enc_sitem it) @ concat (map enc_sitem its) @ rest)
      ((done' @ [mk_sitem (calls h) it]) @ todo') (len64 (pre @ enc_sitem it)) (mk_sitem (calls h) it)
      (len64 (enc_sitem it)) (alloc 1 h) =
    Some (0, (done' @ [mk_sitem (calls h) it]) @ mks mk_sitem (\<lambda>_. 1) (calls (alloc 1 h)) its @ drop (length its) todo',
      len64 ((pre @ enc_sitem it) @ concat (map enc_sitem its)), alloc (length its) (alloc 1 h))"
    using Cons.prems todo by (intro Cons.IH) simp_all
  then show ?case
    using Cons.prems a by (simp add: get_single_item_enc todo buf_simps heap_simps)
qed (simp add: heap_simps)

definition mk_script :: "nat \<Rightarrow> sitem list \<Rightarrow> spc_script" where
  "mk_script n its = \<lparr>items_num = len64 its, items_list = Ptr n (mks mk_sitem (\<lambda>_. 1) (Suc n) its)\<rparr>"

lemma length_script_ge: "length its \<le> length (concat (map enc_sitem its))"
proof -
  have "1 * length its \<le> length (concat (map enc_sitem its))"
    by (intro length_concat_ge) (simp add: Suc_le_eq)
  then show ?thesis by simp
qed

lemma parse_script_enc:
  assumes wf: "list_all wf_sitem its" "its \<noteq> []" and h: "no_oom h"
    and len: "length (concat (map enc_sitem its)) < 2 ^ 60"
  shows "parse_script (Some (concat (map enc_sitem its) @ rest)) (len64 (concat (map enc_sitem its))) out h =
    Some (0, mk_script (calls h) its, alloc (Suc (length its)) h)"
proof -
  let ?b = "concat (map enc_sitem its)"
  have n: "length its < 2 ^ 60" using length_script_ge [of its] len by simp
  have "?b \<noteq> []" using wf(2) by (cases its) simp_all
  then have nz: "len64 ?b \<noteq> (0 :: u64)" using len by (intro len64_ne_0) simp_all
  have c: "count_items (length ?b) ([] @ ?b @ rest) (len64 ([] @ ?b)) (len64 ([] :: byte list)) 0 =
      Some (0, len64 ([] @ ?b), 0 + len64 its)"
    using wf length_script_ge [of its] len
    by (intro count_items_enc) (simp_all add: list_all_iff counted_def)
  have room: "unat (len64 its * word_of_nat 12 :: u64) div 12 = length its"
    using n by (intro array_room) simp_all
  have g: "get_items (length its) 0 ([] @ ?b @ rest) ([] @ replicate (length its) zero_script_item)
      (len64 ([] :: byte list)) zero_script_item 0 (alloc 1 h) =
    Some (0, [] @ mks mk_sitem (\<lambda>_. 1) (calls (alloc 1 h)) its @ drop (length its) (replicate (length its) zero_script_item),
      len64 ([] @ ?b), alloc (length its) (alloc 1 h))"
    using wf h len by (intro get_items_enc) simp_all
  show ?thesis
    using nz c room g h n len
    by (simp add: parse_script_def unat_len64 malloc_alloc heap_simps mk_script_def)
qed

section \<open>Freeing\<close>

lemma si_item_mk [simp]: "si_item (mk_sitem n it) = Ptr n (sitem_data it)"
  by (simp add: mk_sitem_def)

lemma free_items_loop_mks:
  "\<lbrakk>p \<in> live h; {n..<n + length its} \<subseteq> live h; p \<notin> {n..<n + length its}; length done' = i\<rbrakk> \<Longrightarrow>
   free_items_loop (length its) i (Ptr p (done' @ mks mk_sitem (\<lambda>_. 1) n its)) h =
   Some (free_set {n..<n + length its} h)"
proof (induction its arbitrary: n h done' i)
  case (Cons it its)
  have n: "n \<in> live h" using Cons.prems(2) by auto
  have "free_items_loop (length its) (Suc i) (Ptr p ((done' @ [mk_sitem n it]) @ mks mk_sitem (\<lambda>_. 1) (Suc n) its))
      (free_set {n} h) = Some (free_set {Suc n..<Suc n + length its} (free_set {n} h))"
    using Cons.prems by (intro Cons.IH) (auto simp: live_free_set)
  moreover have "{Suc n..<Suc n + length its} \<union> {n} = {n..<n + length (it # its)}" by auto
  ultimately show ?case
    using Cons.prems(1,4) n
    by (simp add: buf_simps free_blk_live free_set_free_set del: Un_insert_right)
qed (simp add: heap_simps)

lemma free_script_mk:
  assumes "{n..<n + Suc (length its)} \<subseteq> live h" "length its < 2 ^ 64"
  shows "free_script (mk_script n its) h =
    Some ((mk_script n its)\<lparr>items_list := NULL\<rparr>, free_set {n..<n + Suc (length its)} h)"
proof -
  have "free_items_loop (length its) 0 (Ptr n ([] @ mks mk_sitem (\<lambda>_. 1) (Suc n) its)) h =
      Some (free_set {Suc n..<Suc n + length its} h)"
    using assms(1) by (intro free_items_loop_mks) auto
  moreover have "n \<in> live (free_set {Suc n..<Suc n + length its} h)" using assms(1) by (auto simp: live_free_set)
  moreover have "{n} \<union> {Suc n..<Suc n + length its} = {n..<n + Suc (length its)}" by auto
  ultimately show ?thesis
    using assms(2) by (simp add: free_script_def mk_script_def unat_len64 free_blk_live free_set_free_set del: Un_insert_left)
qed

lemma free_alloc_tick:
  assumes "heap_ok h" shows "free_set {calls h..<calls h + k} (alloc k h) = tick k h"
proof -
  have "live h \<union> {calls h..<calls h + k} - {calls h..<calls h + k} = live h"
    using assms by (auto simp: heap_ok_def)
  then show ?thesis by (simp add: free_set_def alloc_def tick_def)
qed
section \<open>What the parser accepts\<close>

lemma nth_ub_hd: "nth_ub 0 b = Some x \<longleftrightarrow> (\<exists>r. b = x # r)"
  by (cases b) (auto simp: nth_ub_def)

lemma unat_byte_less: "unat (x :: byte) < 256"
  using unat_lt2p [of x] by simp

lemma copy_item_Some:
  assumes "copy_item b c sz st out h = Some (0, st', c', h')"
  obtains d where "adv c b = d @ drop (unat sz) (adv c b)" "length d = unat sz" "c' = c + sz" "fails h' = fails h"
  using assms
  by (auto simp: copy_item_def rd_Some_iff split: prod.splits option.splits bind_splits dest: fails_malloc
      intro!: that [of "take (unat sz) (adv c b)"])

lemma rd_adv_Cons: "rd n (adv 1 (x # r)) = Some d \<longleftrightarrow> n \<le> length r \<and> d = take n r"
  by (simp add: adv_def rd_Some_iff)

lemma unat_ucast_up [simp]:
  "unat (ucast (x :: byte) :: u64) = unat x" "unat (ucast (y :: u16) :: u64) = unat y"
  "unat (ucast (z :: u32) :: u64) = unat z"
  using unat_lt2p [of x] unat_lt2p [of y] unat_lt2p [of z]
  by (simp_all add: unsigned_ucast_eq take_bit_nat_eq_self)

lemma get_single_item_Some:
  assumes "get_single_item (Some b) st out h = Some (0, st', c, h')"
  shows "\<exists>it r. wf_sitem it \<and> b = enc_sitem it @ r \<and> c = len64 (enc_sitem it) \<and> fails h' = fails h"
proof -
  obtain x r where b: "b = x # r"
    using assms by (cases b) (auto simp: get_single_item_def nth_ub_def)
  consider (push) "1 \<le> x" "x \<le> 0x4b" | (p1) "x = 0x4c" | (p2) "x = 0x4d" | (p4) "x = 0x4e"
    | (cmd) "\<not> (1 \<le> x \<and> x \<le> 0x4b)" "x \<noteq> 0x4c" "x \<noteq> 0x4d" "x \<noteq> 0x4e"
    by blast
  then show ?thesis
  proof cases
    case push
    then have "copy_item b 1 (ucast x) st out h = Some (0, st', c, h')"
      using assms b by (simp add: get_single_item_def nth_ub_def)
    then obtain d where d: "r = d @ drop (unat x) r" "length d = unat x" "c = 1 + ucast x" "fails h' = fails h"
      by (rule copy_item_Some) (simp add: b adv_def)
    have "wf_sitem (Push d)" using push d(2) by (simp add: word_le_nat_alt)
    moreover have "b = enc_sitem (Push d) @ drop (unat x) r" using b d by simp
    moreover have "c = len64 (enc_sitem (Push d))" using d by (simp add: flip: ucast_byte_len)
    ultimately show ?thesis using d(4) by blast
  next
    case p1
    then obtain y r' where r: "r = y # r'" "\<not> y \<le> 0x4b"
      and "copy_item b 2 (ucast y) st out h = Some (0, st', c, h')"
      using assms b by (cases r) (auto simp: get_single_item_def nth_ub_def adv_def split: if_splits)
    from this(3) obtain d where d: "r' = d @ drop (unat y) r'" "length d = unat y" "c = 2 + ucast y" "fails h' = fails h"
      by (rule copy_item_Some) (simp add: b r adv_def)
    have "wf_sitem (Push1 d)" using r(2) unat_byte_less [of y] d(2) by (simp add: word_le_nat_alt)
    moreover have "b = enc_sitem (Push1 d) @ drop (unat y) r'" using b r p1 d by simp
    moreover have "c = len64 (enc_sitem (Push1 d))" using d unat_byte_less [of y] by (simp flip: ucast_byte_len)
    ultimately show ?thesis using d(4) by blast
  next
    case p2
    define s where "s = le_u16 (take 2 r)"
    have l: "2 \<le> length r" and "copy_item b 3 (ucast s) st out h = Some (0, st', c, h')"
      using assms b p2 by (auto simp: get_single_item_def nth_ub_def rd_adv_Cons s_def split: bind_splits)
    from this(2) obtain d where d: "drop 2 r = d @ drop (unat s) (drop 2 r)" "length d = unat s"
        "c = 3 + ucast s" "fails h' = fails h"
      by (rule copy_item_Some) (simp add: b adv_def)
    have u: "u16_le (word_of_nat (length d)) = take 2 r" using l d(2) by (simp add: s_def wire_simps)
    have lt: "length d < 2 ^ 16" using d(2) unat_lt2p [of s] by simp
    then have "wf_sitem (Push2 d)" by simp
    moreover have "b = enc_sitem (Push2 d) @ drop (unat s) (drop 2 r)"
      using b p2 u d(1) append_take_drop_id [of 2 r] by (metis append.assoc append_Cons enc_sitem.simps(4))
    moreover have "c = len64 (enc_sitem (Push2 d))" using d lt by (simp flip: ucast_u16_len)
    ultimately show ?thesis using d(4) by blast
  next
    case p4
    define s where "s = le_u32 (take 4 r)"
    have l: "4 \<le> length r" and "copy_item b 5 (ucast s) st out h = Some (0, st', c, h')"
      using assms b p4 by (auto simp: get_single_item_def nth_ub_def rd_adv_Cons s_def split: bind_splits)
    from this(2) obtain d where d: "drop 4 r = d @ drop (unat s) (drop 4 r)" "length d = unat s"
        "c = 5 + ucast s" "fails h' = fails h"
      by (rule copy_item_Some) (simp add: b adv_def)
    have u: "u32_le (word_of_nat (length d)) = take 4 r" using l d(2) by (simp add: s_def wire_simps)
    have lt: "length d < 2 ^ 32" using d(2) unat_lt2p [of s] by simp
    then have "wf_sitem (Push4 d)" by simp
    moreover have "b = enc_sitem (Push4 d) @ drop (unat s) (drop 4 r)"
      using b p4 u d(1) append_take_drop_id [of 4 r] by (metis append.assoc append_Cons enc_sitem.simps(5))
    moreover have "c = len64 (enc_sitem (Push4 d))" using d lt by (simp flip: ucast_u32_len)
    ultimately show ?thesis using d(4) by blast
  next
    case cmd
    have "wf_sitem (Cmd x)"
      using cmd by (auto simp: word_le_nat_alt word_less_nat_alt word_unat_eq_iff not_le Suc_le_eq)
    moreover have "c = 1" "fails h' = fails h"
      using assms b cmd
      by (auto simp: get_single_item_def nth_ub_def split: if_splits prod.splits option.splits dest: fails_malloc)
    ultimately show ?thesis using b by (intro exI [of _ "Cmd x"] exI [of _ r]) simp
  qed
qed

lemma get_items_Some:
  "\<lbrakk>get_items k i b arr sm st c h = Some (0, arr', sm', h'); unat sm \<le> length b; length b < 2 ^ 60\<rbrakk> \<Longrightarrow>
   \<exists>its r. length its = k \<and> list_all wf_sitem its \<and> adv sm b = concat (map enc_sitem its) @ r \<and>
     sm' = sm + len64 (concat (map enc_sitem its))"
proof (induction k arbitrary: i arr sm st c h)
  case (Suc k)
  obtain st' c' h1 where s: "get_single_item (Some (adv sm b)) st c h = Some (0, st', c', h1)"
    using Suc.prems(1) by (auto split: bind_splits if_splits prod.splits)
  then obtain it r where it: "wf_sitem it" "adv sm b = enc_sitem it @ r" "c' = len64 (enc_sitem it)"
    using get_single_item_Some by blast
  have "unat sm + length (enc_sitem it) \<le> length b"
    using arg_cong [OF it(2), of length] Suc.prems(2) by (simp add: adv_def)
  then have u: "unat (sm + c') = unat sm + length (enc_sitem it)"
    using it(3) Suc.prems(3) by (simp add: unat_add_u64 unat_of_nat_u64)
  have a: "adv (sm + c') b = r"
    using arg_cong [OF it(2), of "drop (length (enc_sitem it))"] unfolding adv_def u
    by (simp add: add.commute)
  obtain arr1 where "get_items k (Suc i) b arr1 (sm + c') st' c' h1 = Some (0, arr', sm', h')"
    using Suc.prems(1) s by (auto split: bind_splits)
  then obtain its r' where "length its = k" "list_all wf_sitem its" "r = concat (map enc_sitem its) @ r'"
      "sm' = sm + c' + len64 (concat (map enc_sitem its))"
    using Suc.IH [of "Suc i" arr1 "sm + c'" st' c' h1] Suc.prems(3) u
      \<open>unat sm + length (enc_sitem it) \<le> length b\<close> a by auto
  then show ?case using it by (intro exI [of _ "it # its"] exI [of _ r']) (simp add: add.assoc)
qed simp

lemma parse_script_Some:
  assumes "parse_script (Some b) n out h = Some (0, s, h')" "unat n \<le> length b" "length b < 2 ^ 60"
  shows "\<exists>its. list_all wf_sitem its \<and> its \<noteq> [] \<and> take (unat n) b = concat (map enc_sitem its)"
proof -
  obtain k arr arr' h1 h2 where n: "n \<noteq> 0"
    and "get_items k 0 b arr 0 zero_script_item 0 h1 = Some (0, arr', n, h2)"
    using assms(1) by (auto simp: parse_script_def split: bind_splits if_splits prod.splits option.splits)
  from get_items_Some [OF this(2)] assms(3) obtain its r where
    its: "list_all wf_sitem its" "b = concat (map enc_sitem its) @ r" "n = len64 (concat (map enc_sitem its))"
    by auto
  then have "unat n = length (concat (map enc_sitem its))"
    using assms(3) by (simp add: unat_of_nat_u64)
  then show ?thesis using its n by (intro exI [of _ its]) auto
qed

lemma get_items_short:
  "\<lbrakk>list_all wf_sitem its; no_oom h; length (pre @ concat (map enc_sitem its)) < 2 ^ 64;
    length done' = i; length its \<le> length todo; length d \<le> 75\<rbrakk> \<Longrightarrow>
   \<exists>arr sm. get_items (Suc (length its)) i (pre @ concat (map enc_sitem its) @ enc_sitem (Push1 d) @ rest)
     (done' @ todo) (len64 pre) st c h = Some (-1, arr, sm, alloc (length its) h)"
proof (induction its arbitrary: pre done' todo i st c h)
  case Nil
  have "(word_of_nat (length d) :: byte) \<le> 0x4b" using Nil.prems(6) by (simp add: word_le_nat_alt unat_byte_len)
  moreover have "adv (len64 pre) (pre @ enc_sitem (Push1 d) @ rest) = enc_sitem (Push1 d) @ rest"
    using Nil.prems(3) by (intro adv_len64) simp
  ultimately show ?case by (simp add: get_single_item_def nth_ub_def adv_small heap_simps)
next
  case (Cons it its)
  then obtain t todo' where todo: "todo = t # todo'" by (cases todo) auto
  have a: "adv (len64 pre) (pre @ enc_sitem it @ concat (map enc_sitem its) @ enc_sitem (Push1 d) @ rest) =
      enc_sitem it @ concat (map enc_sitem its) @ enc_sitem (Push1 d) @ rest"
    using Cons.prems(3) by (intro adv_len64) simp
  have "\<exists>arr sm. get_items (Suc (length its)) (Suc i)
      ((pre @ enc_sitem it) @ concat (map enc_sitem its) @ enc_sitem (Push1 d) @ rest)
      ((done' @ [mk_sitem (calls h) it]) @ todo') (len64 (pre @ enc_sitem it)) (mk_sitem (calls h) it)
      (len64 (enc_sitem it)) (alloc 1 h) = Some (-1, arr, sm, alloc (length its) (alloc 1 h))"
    using Cons.prems todo by (intro Cons.IH) simp_all
  then show ?case
    using Cons.prems a get_items.simps(2) [of "Suc (length its)"]
    by (simp add: get_single_item_enc todo buf_simps heap_simps del: get_items.simps enc_sitem.simps)
qed

section \<open>Properties\<close>

text \<open>C40: \<^verbatim>\<open>parse_script\<close> of the bytes of a list of script items returns these items in
  order, each in a block of its own and with the length the code gives it (0 for a command), and
  \<^verbatim>\<open>free_script\<close> of the result frees every block \<^verbatim>\<open>parse_script\<close> took.\<close>

theorem parse_script_items:
  assumes "list_all wf_sitem its" "its \<noteq> []" "no_oom h" "heap_ok h"
    and "length (concat (map enc_sitem its)) < 2 ^ 60"
  shows "\<exists>p xs h'.
    parse_script (Some (concat (map enc_sitem its) @ rest)) (len64 (concat (map enc_sitem its))) out h =
      Some (0, \<lparr>items_num = len64 its, items_list = Ptr p xs\<rparr>, h') \<and>
    map (\<lambda>x. (si_len x, obj (si_item x))) xs =
      map (\<lambda>it. (case it of Cmd c \<Rightarrow> 0 | _ \<Rightarrow> word_of_nat (length (sitem_data it)), sitem_data it)) its \<and>
    map_option (live \<circ> snd) (free_script \<lparr>items_num = len64 its, items_list = Ptr p xs\<rparr> h') = Some (live h)"
proof -
  have n: "length its < 2 ^ 60" using length_script_ge [of its] assms(5) by simp
  have "free_script (mk_script (calls h) its) (alloc (Suc (length its)) h) =
      Some ((mk_script (calls h) its)\<lparr>items_list := NULL\<rparr>,
        free_set {calls h..<calls h + Suc (length its)} (alloc (Suc (length its)) h))"
    using n by (intro free_script_mk) (auto simp: heap_simps)
  then have f: "map_option (live \<circ> snd) (free_script (mk_script (calls h) its) (alloc (Suc (length its)) h)) = Some (live h)"
    using free_alloc_tick [OF assms(4), of "Suc (length its)"] by (simp add: tick_simps)
  have m: "map (\<lambda>x. (si_len x, obj (si_item x))) (mks mk_sitem (\<lambda>_. 1) k its) =
      map (\<lambda>it. (case it of Cmd c \<Rightarrow> 0 | _ \<Rightarrow> word_of_nat (length (sitem_data it)), sitem_data it)) its" for k
    by (induction its arbitrary: k) (simp_all add: mk_sitem_def)
  show ?thesis using parse_script_enc [OF assms(1-3,5), of rest out] f m
    by (auto simp: mk_script_def)
qed

text \<open>\<^verbatim>\<open>parse_script\<close> accepts exactly the scripts that are a non-empty sequence of
  well-formed items: direct pushes, minimal one-byte lengths, two- and four-byte lengths, and
  commands.  Nothing is accepted that ends inside an item.\<close>

theorem parse_script_accepts:
  assumes "no_oom h" "unat n \<le> length b" "length b < 2 ^ 60"
  shows "(\<exists>s h'. parse_script (Some b) n out h = Some (0, s, h')) \<longleftrightarrow>
    (\<exists>its. list_all wf_sitem its \<and> its \<noteq> [] \<and> take (unat n) b = concat (map enc_sitem its))"
    (is "?L = ?R")
proof
  assume ?L then show ?R using parse_script_Some assms(2,3) by blast
next
  assume ?R
  then obtain its where its: "list_all wf_sitem its" "its \<noteq> []" "take (unat n) b = concat (map enc_sitem its)"
    by blast
  then have b: "b = concat (map enc_sitem its) @ drop (unat n) b" by (metis append_take_drop_id)
  have len: "unat n = length (concat (map enc_sitem its))" using its(3) assms(2) by (metis length_take min.absorb2)
  then have "n = len64 (concat (map enc_sitem its))" by (simp flip: len)
  then show ?L
    using parse_script_enc [OF its(1,2) assms(1), of "drop (unat n) b" out] len assms(2,3) b by auto
qed

text \<open>A script with an \<^verbatim>\<open>OP_PUSHDATA1\<close> whose length is at most 75 passes the counting
  pass and is refused by the copying pass.  The list and the items already copied are then
  neither returned nor freed.\<close>

theorem short_push1_leaks:
  assumes "list_all wf_sitem its" "length d \<le> 75" "no_oom h"
    and "length (concat (map enc_sitem its)) < 2 ^ 59"
  shows "parse_script (Some (concat (map enc_sitem its) @ enc_sitem (Push1 d) @ rest))
      (len64 (concat (map enc_sitem (its @ [Push1 d])))) out h = Some (-1, out, alloc (Suc (length its)) h)"
proof -
  let ?all = "its @ [Push1 d]" and ?b = "concat (map enc_sitem (its @ [Push1 d]))"
  have len: "length ?b < 2 ^ 60" using assms(2,4) by simp
  have n: "length ?all < 2 ^ 60" using length_script_ge [of ?all] len by simp
  have nz: "len64 ?b \<noteq> (0 :: u64)" using len by (intro len64_ne_0) simp_all
  have c: "count_items (length ?b) ([] @ ?b @ rest) (len64 ([] @ ?b)) (len64 ([] :: byte list)) 0 =
      Some (0, len64 ([] @ ?b), 0 + len64 ?all)"
    using assms(1,2) length_script_ge [of ?all] len
    by (intro count_items_enc) (auto simp: list_all_iff counted_def)
  have room: "unat (len64 ?all * word_of_nat 12 :: u64) div 12 = length ?all"
    using n by (intro array_room) simp_all
  have "\<exists>arr sm. get_items (Suc (length its)) 0 ([] @ concat (map enc_sitem its) @ enc_sitem (Push1 d) @ rest)
      ([] @ replicate (Suc (length its)) zero_script_item) (len64 ([] :: byte list)) zero_script_item 0 (alloc 1 h) =
    Some (-1, arr, sm, alloc (length its) (alloc 1 h))"
    using assms by (intro get_items_short) simp_all
  then obtain arr sm where g: "get_items (Suc (length its)) 0 ([] @ concat (map enc_sitem its) @ enc_sitem (Push1 d) @ rest)
      ([] @ replicate (Suc (length its)) zero_script_item) (len64 ([] :: byte list)) zero_script_item 0 (alloc 1 h) =
    Some (-1, arr, sm, alloc (length its) (alloc 1 h))" by blast
  define al where "al = ?all"
  define bb where "bb = concat (map enc_sitem al)"
  have "get_items (length al) 0 (bb @ rest) (replicate (length al) zero_script_item) 0 zero_script_item 0 (alloc 1 h) =
      Some (-1, arr, sm, alloc (length al) h)"
    using g by (simp add: bb_def al_def heap_simps del: get_items.simps replicate_Suc)
  moreover have "count_items (length bb) (bb @ rest) (len64 bb) 0 0 = Some (0, len64 bb, len64 al)"
    using c unfolding al_def [symmetric] bb_def [symmetric] by simp
  ultimately have "parse_script (Some (bb @ rest)) (len64 bb) out h = Some (-1, out, alloc (length al) h)"
    using nz room assms(3) len n unfolding al_def [symmetric] bb_def [symmetric]
    by (simp add: parse_script_def malloc_alloc unat_len64)
  then show ?thesis by (simp add: bb_def al_def)
qed

definition tiny_script :: "sitem list"
  where "tiny_script = [Cmd 0x52, Push [7, 8], Cmd 0xae]"

lemma parse_script_items_witness:
  "\<exists>p xs h'. parse_script (Some [0x52, 2, 7, 8, 0xae, 99]) 5 zero_script sound_heap =
      Some (0, \<lparr>items_num = 3, items_list = Ptr p xs\<rparr>, h') \<and>
    map (\<lambda>x. (si_len x, obj (si_item x))) xs = [(0, [0x52]), (2, [7, 8]), (0, [0xae])] \<and>
    map_option (live \<circ> snd) (free_script \<lparr>items_num = 3, items_list = Ptr p xs\<rparr> h') = Some (live sound_heap)"
  using parse_script_items [of tiny_script sound_heap "[99]" zero_script]
  by (simp add: tiny_script_def)

lemma parse_script_accepts_witness:
  "\<exists>s h'. parse_script (Some [0x52, 2, 7, 8, 0xae, 99]) 5 zero_script sound_heap = Some (0, s, h')"
proof -
  have "list_all wf_sitem tiny_script \<and> tiny_script \<noteq> [] \<and>
      take (unat (5 :: u64)) [0x52, 2, 7, 8, 0xae, 99] = concat (map enc_sitem tiny_script)"
    by (simp add: tiny_script_def)
  then show ?thesis
    using parse_script_accepts [of sound_heap 5 "[0x52, 2, 7, 8, 0xae, 99]" zero_script]
    by auto
qed

lemma short_push1_leaks_witness:
  "parse_script (Some [0x52, 0x4c, 2, 7, 8]) 5 zero_script sound_heap = Some (-1, zero_script, alloc 2 sound_heap)"
  using short_push1_leaks [of "[Cmd 0x52]" "[7, 8]" sound_heap "[]" zero_script]
  by (simp flip: numeral_2_eq_2)

end
