(* ===== verification/Key_Derive.thy ===== *)
theory Key_Derive
imports Sha256
begin

text \<open>
  Keys: the layout of an extended key (\<^verbatim>\<open>hdnode_deserialize\<close> and
  \<^verbatim>\<open>hdnode_deserialize_non_base58\<close> of \<^verbatim>\<open>bip32.c\<close>, the second one added for this
  program), the DER encoding of a signature (\<^verbatim>\<open>ecdsa.c\<close>), and \<^verbatim>\<open>spckeyget.c\<close>, which
  derives a key twice.  The arithmetic of the curve and Base58 are parameters, the record
  \<^verbatim>\<open>curve_ops\<close>; the only curve the program uses is secp256k1.
\<close>

section \<open>The structures\<close>

record hdnode =
  hd_depth :: u32
  hd_child_num :: u32
  chain_code :: "byte list"
  private_key :: "byte list"
  private_key_extension :: "byte list"
  public_key :: "byte list"

definition zero_hdnode :: hdnode where
  "zero_hdnode = \<lparr>hd_depth = 0, hd_child_num = 0, chain_code = replicate 32 0, private_key = replicate 32 0,
     private_key_extension = replicate 32 0, public_key = replicate 33 0\<rparr>"

text \<open>\<^verbatim>\<open>base58_decode_check\<close> gets a C string and the size of the data and returns its result
  and the data; \<^verbatim>\<open>hdnode_public_ckd\<close> and \<^verbatim>\<open>hdnode_private_ckd\<close> return their result and
  the node they change; \<^verbatim>\<open>ecdsa_sign_digest\<close> gets a private key and a digest and returns its
  result and the 64 bytes of the signature.\<close>

record curve_ops =
  base58_decode_check :: "byte list \<Rightarrow> nat \<Rightarrow> int \<times> byte list"
  hdnode_public_ckd :: "hdnode \<Rightarrow> u32 \<Rightarrow> int \<times> hdnode"
  hdnode_private_ckd :: "hdnode \<Rightarrow> u32 \<Rightarrow> int \<times> hdnode"
  ecdsa_sign_digest :: "byte list \<Rightarrow> byte list \<Rightarrow> int \<times> byte list"

section \<open>Extended keys\<close>

definition read_be :: "byte list \<Rightarrow> u32"
  where "read_be b = le_u32 (rev (take 4 b))"

abbreviation (input) "VERSION_P2WSH_XPRV \<equiv> (0x02aa7a99 :: u32)"
abbreviation (input) "VERSION_P2WSH_XPUB \<equiv> (0x02aa7ed3 :: u32)"

text \<open>The part the two functions share: \<^verbatim>\<open>node_data\<close> has 78 bytes.\<close>

definition node_of_data :: "byte list \<Rightarrow> u32 \<Rightarrow> bool \<Rightarrow> u32 \<Rightarrow> int \<times> hdnode \<times> u32" where
  "node_of_data node_data version use_private fp =
    (if read_be node_data \<noteq> version then (-3, zero_hdnode, fp)
     else if use_private \<and> node_data ! 45 \<noteq> 0 then (-2, zero_hdnode, fp)
     else
       (0, zero_hdnode\<lparr>
             private_key := (if use_private then take 32 (drop 46 node_data) else replicate 32 0),
             public_key := (if use_private then replicate 33 0 else take 33 (drop 45 node_data)),
             hd_depth := ucast (node_data ! 4),
             hd_child_num := read_be (drop 9 node_data),
             chain_code := take 32 (drop 13 node_data)\<rparr>,
        read_be (drop 5 node_data)))"

text \<open>A C string in a buffer: the bytes before the first zero.  Reading it without one runs out
  of the buffer.\<close>

definition cstr :: "byte list \<Rightarrow> byte list option"
  where "cstr b = (if 0 \<in> set b then Some (takeWhile (\<lambda>x. x \<noteq> 0) b) else None)"

definition hdnode_deserialize :: "curve_ops \<Rightarrow> byte list \<Rightarrow> u32 \<Rightarrow> bool \<Rightarrow> u32 \<Rightarrow> (int \<times> hdnode \<times> u32) option" where
  "hdnode_deserialize c str version use_private fp = do {
     s \<leftarrow> cstr str;
     let (res, node_data) = base58_decode_check c s 78;
     if res \<noteq> 78 then Some (-1, zero_hdnode, fp)
     else Some (node_of_data node_data version use_private fp)
   }"

definition hdnode_deserialize_non_base58 :: "buf \<Rightarrow> u32 \<Rightarrow> u32 \<Rightarrow> bool \<Rightarrow> hdnode \<Rightarrow> u32 \<Rightarrow> (int \<times> hdnode \<times> u32) option"
  where
  "hdnode_deserialize_non_base58 xkey xkey_buffer_len version use_private node fp =
    (case xkey of None \<Rightarrow> Some (-1, node, fp)
     | Some b \<Rightarrow>
       if xkey_buffer_len \<noteq> 78 then Some (-1, node, fp)
       else do { node_data \<leftarrow> rd 78 b; Some (node_of_data node_data version use_private fp) })"

section \<open>Two derivation steps\<close>

text \<open>The end of the two functions for public keys: both steps, and the key copied to the buffer
  cleared before.\<close>

definition public_steps :: "curve_ops \<Rightarrow> hdnode \<Rightarrow> u32 \<Rightarrow> u32 \<Rightarrow> byte list \<Rightarrow> u32 \<Rightarrow> (int \<times> byte list) option" where
  "public_steps c node path1 path2 buffer buffer_len =
    (let (r1, n1) = hdnode_public_ckd c node path1
     in if r1 \<noteq> 1 then Some (-1, buffer)
     else let (r2, n2) = hdnode_public_ckd c n1 path2
     in if r2 \<noteq> 1 then Some (-1, buffer)
     else do {
       b1 \<leftarrow> wr 0 (replicate (unat buffer_len) 0) buffer;
       b2 \<leftarrow> wr 0 (take 33 (public_key n2)) b1;
       Some (0, b2)
     })"

definition get_pubkey_from_xpub_base58_double_ckd ::
    "curve_ops \<Rightarrow> buf \<Rightarrow> u32 \<Rightarrow> u32 \<Rightarrow> u32 \<Rightarrow> byte list \<Rightarrow> u32 \<Rightarrow> (int \<times> byte list) option" where
  "get_pubkey_from_xpub_base58_double_ckd c xpub_base58 xpub_len path1 path2 buffer buffer_len =
    (case xpub_base58 of None \<Rightarrow> Some (-1, buffer)
     | Some xpub \<Rightarrow>
       if 113 < xpub_len \<or> buffer_len < 33 then Some (-1, buffer)
       else do {
         (ret, node, fp) \<leftarrow> hdnode_deserialize c xpub VERSION_P2WSH_XPUB False 0;
         if ret \<noteq> 0 then Some (-1, buffer)
         else public_steps c node path1 path2 buffer buffer_len
       })"

definition get_pubkey_from_xpub_double_ckd ::
    "curve_ops \<Rightarrow> buf \<Rightarrow> u32 \<Rightarrow> u32 \<Rightarrow> u32 \<Rightarrow> byte list \<Rightarrow> u32 \<Rightarrow> (int \<times> byte list) option" where
  "get_pubkey_from_xpub_double_ckd c xpub_non_base58 xpub_len path1 path2 buffer buffer_len =
    (case xpub_non_base58 of None \<Rightarrow> Some (-1, buffer)
     | Some xpub \<Rightarrow>
       if xpub_len \<noteq> 78 \<or> buffer_len < 33 then Some (-1, buffer)
       else do {
         (ret, node, fp) \<leftarrow> hdnode_deserialize_non_base58 (Some xpub) 78 VERSION_P2WSH_XPUB False zero_hdnode 0;
         if ret \<noteq> 0 then Some (-1, buffer)
         else public_steps c node path1 path2 buffer buffer_len
       })"

definition get_node_from_xprv_double_ckd ::
    "curve_ops \<Rightarrow> buf \<Rightarrow> u32 \<Rightarrow> u32 \<Rightarrow> u32 \<Rightarrow> hdnode \<Rightarrow> (int \<times> hdnode) option" where
  "get_node_from_xprv_double_ckd c xprv xprv_len path1 path2 node_out =
    (case xprv of None \<Rightarrow> Some (-1, node_out)
     | Some b \<Rightarrow>
       if xprv_len < 112 then Some (-1, node_out)
       else do {
         (ret, node, fp) \<leftarrow> hdnode_deserialize c b VERSION_P2WSH_XPRV True 0;
         if ret \<noteq> 0 then Some (-1, node_out)
         else let (r1, n1) = hdnode_private_ckd c node path1
         in if r1 \<noteq> 1 then Some (-1, node_out)
         else let (r2, n2) = hdnode_private_ckd c n1 path2
         in if r2 \<noteq> 1 then Some (-1, node_out)
         else Some (0, n2)
       })"

section \<open>Signatures\<close>

text \<open>\<^verbatim>\<open>hasher_Raw(HASHER_SHA2D, ...)\<close>.\<close>

definition hasher_Raw_SHA2D :: "byte list \<Rightarrow> byte list"
  where "hasher_Raw_SHA2D m = sha256_Raw (sha256_Raw m)"

text \<open>\<^verbatim>\<open>hdnode_sign\<close> and \<^verbatim>\<open>ecdsa_sign\<close> for secp256k1: the result, and the buffer of the
  signature with its first 64 bytes written.\<close>

definition hdnode_sign :: "curve_ops \<Rightarrow> hdnode \<Rightarrow> byte list \<Rightarrow> byte list \<Rightarrow> (int \<times> byte list) option" where
  "hdnode_sign c node msg sig =
    (let (res, s) = ecdsa_sign_digest c (private_key node) (hasher_Raw_SHA2D msg)
     in do { sig' \<leftarrow> wr 0 (take 64 s) sig; Some (res, sig') })"

text \<open>\<^verbatim>\<open>while (sig[i] == 0 && i < hi) i++\<close>, with \<^verbatim>\<open>k = hi - i\<close>.\<close>

fun skip_zeros :: "nat \<Rightarrow> nat \<Rightarrow> byte list \<Rightarrow> nat option" where
  "skip_zeros 0 i sig = do { x \<leftarrow> nth_ub i sig; Some i }"
| "skip_zeros (Suc k) i sig = do {
     x \<leftarrow> nth_ub i sig;
     if x = 0 then skip_zeros k (Suc i) sig else Some i
   }"

text \<open>One integer of the encoding: tag, length, a zero before a byte with its top bit set, and the
  bytes without leading zeros.\<close>

definition der_integer :: "nat \<Rightarrow> nat \<Rightarrow> byte list \<Rightarrow> byte list option" where
  "der_integer lo hi sig = do {
     i \<leftarrow> skip_zeros (hi - lo) lo sig;
     x \<leftarrow> nth_ub i sig;
     bytes \<leftarrow> rd (hi - i) (drop i sig);
     let content = (if 0x80 \<le> x then [0] else []) @ bytes;
     Some (0x02 # word_of_nat (length content) # content)
   }"

definition ecdsa_sig_to_der :: "byte list \<Rightarrow> byte list \<Rightarrow> (int \<times> byte list) option" where
  "ecdsa_sig_to_der sig der = do {
     r \<leftarrow> der_integer 0 32 sig;
     s \<leftarrow> der_integer 32 64 sig;
     let len = word_of_nat (length r - 2) + word_of_nat (length s - 2) + (4 :: byte);
     der' \<leftarrow> wr 0 (0x30 # len # r @ s) der;
     Some (int (unat len) + 2, der')
   }"

end
