(* ===== verification/Key_Correct.thy ===== *)
theory Key_Correct
imports Key_Derive Sha256_Correct
begin

text \<open>
  What the derivation of keys and the encoding of signatures compute: the public and private keys
  as partial functions of the extended key and the path, and the DER form of a signature.
\<close>

section \<open>Derived keys\<close>

text \<open>Two steps of public derivation from the 78 bytes of an extended key.\<close>

definition key33 :: "byte list \<Rightarrow> byte list"
  where "key33 k = take 33 k @ drop (length (take 33 k)) (replicate 33 0)"

definition two_steps :: "(hdnode \<Rightarrow> u32 \<Rightarrow> int \<times> hdnode) \<Rightarrow> hdnode \<Rightarrow> u32 \<Rightarrow> u32 \<Rightarrow> hdnode option" where
  "two_steps ckd n p1 p2 =
    (case ckd n p1 of (r1, n1) \<Rightarrow> if r1 \<noteq> 1 then None
     else case ckd n1 p2 of (r2, n2) \<Rightarrow> if r2 \<noteq> 1 then None else Some n2)"

definition data_key :: "curve_ops \<Rightarrow> byte list \<Rightarrow> u32 \<Rightarrow> u32 \<Rightarrow> byte list option" where
  "data_key c xkey p1 p2 =
    (case node_of_data xkey VERSION_P2WSH_XPUB False 0 of (r, n, fp) \<Rightarrow>
       if r \<noteq> 0 then None else map_option (\<lambda>n. key33 (public_key n)) (two_steps (hdnode_public_ckd c) n p1 p2))"

text \<open>The same from the Base58 text of an extended key, given in a buffer, and the private node.\<close>

definition text_data :: "curve_ops \<Rightarrow> byte list \<Rightarrow> byte list option" where
  "text_data c b =
    (if 0 \<in> set b then
       (case base58_decode_check c (takeWhile (\<lambda>x. x \<noteq> 0) b) 78 of (r, d) \<Rightarrow> if r \<noteq> 78 then None else Some d)
     else None)"

definition text_key :: "curve_ops \<Rightarrow> byte list \<Rightarrow> u32 \<Rightarrow> u32 \<Rightarrow> byte list option"
  where "text_key c b p1 p2 = do { d \<leftarrow> text_data c b; data_key c d p1 p2 }"

definition text_node :: "curve_ops \<Rightarrow> byte list \<Rightarrow> u32 \<Rightarrow> u32 \<Rightarrow> hdnode option" where
  "text_node c b p1 p2 = do {
     d \<leftarrow> text_data c b;
     case node_of_data d VERSION_P2WSH_XPRV True 0 of (r, n, fp) \<Rightarrow>
       if r \<noteq> 0 then None else two_steps (hdnode_private_ckd c) n p1 p2
   }"

lemma length_key33 [simp]: "length (key33 k) = 33"
  by (simp add: key33_def min_def)

lemma public_steps_eq:
  "length buffer = 33 \<Longrightarrow> public_steps c n p1 p2 buffer 33 =
   Some (case two_steps (hdnode_public_ckd c) n p1 p2 of None \<Rightarrow> (-1, buffer)
     | Some n2 \<Rightarrow> (0, key33 (public_key n2)))"
  by (auto simp: public_steps_def two_steps_def key33_def wr_0 Let_def split: prod.splits)

lemma pubkey_of_data:
  assumes "length x = 78" "length buffer = 33"
  shows "get_pubkey_from_xpub_double_ckd c (Some x) 78 p1 p2 buffer 33 =
    Some (case data_key c x p1 p2 of None \<Rightarrow> (-1, buffer) | Some k \<Rightarrow> (0, k))"
  using assms
  by (auto simp: get_pubkey_from_xpub_double_ckd_def hdnode_deserialize_non_base58_def rd_def data_key_def
      public_steps_eq split: prod.splits option.splits)

lemma pubkey_of_text:
  assumes "0 \<in> set x" "n \<le> 113" "length buffer = 33"
  shows "get_pubkey_from_xpub_base58_double_ckd c (Some x) n p1 p2 buffer 33 =
    Some (case text_key c x p1 p2 of None \<Rightarrow> (-1, buffer) | Some k \<Rightarrow> (0, k))"
  using assms
  by (auto simp: get_pubkey_from_xpub_base58_double_ckd_def hdnode_deserialize_def cstr_def text_key_def text_data_def
      data_key_def public_steps_eq not_less Let_def split: prod.splits option.splits if_splits)

lemma node_of_text:
  assumes "0 \<in> set x" "112 \<le> n"
  shows "get_node_from_xprv_double_ckd c (Some x) n p1 p2 nd =
    Some (case text_node c x p1 p2 of None \<Rightarrow> (-1, nd) | Some k \<Rightarrow> (0, k))"
  using assms
  by (auto simp: get_node_from_xprv_double_ckd_def hdnode_deserialize_def cstr_def text_node_def text_data_def
      two_steps_def not_less Let_def split: prod.splits option.splits if_splits)

section \<open>DER\<close>

definition der_int :: "byte list \<Rightarrow> byte list" where
  "der_int b =
    (let m = dropWhile (\<lambda>x. x = 0) b; content = (if 0x80 \<le> hd m then [0] else []) @ m
     in 0x02 # word_of_nat (length content) # content)"

definition der_sig :: "byte list \<Rightarrow> byte list \<Rightarrow> byte list" where
  "der_sig r s = 0x30 # word_of_nat (length (der_int r @ der_int s)) # der_int r @ der_int s"

lemma skip_zeros_eq:
  "\<lbrakk>dropWhile (\<lambda>x. x = 0) b \<noteq> []; length pre = lo; length b = k\<rbrakk> \<Longrightarrow>
   skip_zeros k lo (pre @ b @ r) = Some (lo + length (takeWhile (\<lambda>x. x = 0) b))"
proof (induction k arbitrary: lo pre b)
  case (Suc k)
  then obtain x b' where b: "b = x # b'" by (cases b) auto
  show ?case
  proof (cases "x = 0")
    case True
    then have "skip_zeros k (Suc lo) ((pre @ [0]) @ b' @ r) = Some (Suc lo + length (takeWhile (\<lambda>x. x = 0) b'))"
      using Suc.prems b by (intro Suc.IH) simp_all
    then show ?thesis using b True Suc.prems by (simp add: nth_ub_app)
  next
    case False
    then show ?thesis using b Suc.prems by (simp add: nth_ub_app)
  qed
qed simp

lemma der_integer_eq:
  assumes "dropWhile (\<lambda>x. x = 0) b \<noteq> []" "length pre = lo" "length b = hi - lo" "lo \<le> hi"
  shows "der_integer lo hi (pre @ b @ r) = Some (der_int b)"
proof -
  let ?z = "takeWhile (\<lambda>x. x = 0) b" and ?m = "dropWhile (\<lambda>x. x = 0) b"
  obtain y ys where m: "?m = y # ys" using assms(1) by (cases ?m) auto
  have split: "pre @ b @ r = (pre @ ?z) @ ?m @ r" by simp
  have i: "skip_zeros (hi - lo) lo (pre @ b @ r) = Some (lo + length ?z)"
    using assms by (intro skip_zeros_eq) simp_all
  have n: "nth_ub (lo + length ?z) (pre @ b @ r) = Some y"
    unfolding split m append_Cons using assms(2) by (intro nth_ub_app) simp
  have "length ?z + length ?m = length b" by (metis length_append takeWhile_dropWhile_id)
  then have "hi - (lo + length ?z) = length ?m" using assms(3) by simp
  moreover have "drop (lo + length ?z) (pre @ b @ r) = ?m @ r"
    unfolding split using assms(2) by (simp del: append.assoc append_assoc takeWhile_dropWhile_id)
  ultimately have "rd (hi - (lo + length ?z)) (drop (lo + length ?z) (pre @ b @ r)) = Some ?m"
    by (simp add: rd_app)
  then show ?thesis using i n by (simp add: der_integer_def der_int_def m Let_def)
qed


text \<open>The number a list of bytes stands for, most significant byte first.\<close>

abbreviation be_nat :: "byte list \<Rightarrow> nat"
  where "be_nat b \<equiv> nat_of_le (rev b)"

lemma be_nat_Cons: "be_nat (x # xs) = unat x * 256 ^ length xs + be_nat xs"
  by (simp add: nat_of_le_append)

lemma be_nat_dropWhile: "be_nat (dropWhile (\<lambda>x. x = 0) b) = be_nat b"
  by (induction b) (simp_all add: be_nat_Cons del: rev.simps)

lemma be_nat_pos: "be_nat b \<noteq> 0 \<Longrightarrow> dropWhile (\<lambda>x. x = 0) b \<noteq> []"
  by (metis be_nat_dropWhile nat_of_le.simps(1) rev.simps(1))

lemma length_dropWhile_zeros: "length (dropWhile (\<lambda>x. x = (0 :: byte)) b) \<le> length b"
  by (rule length_dropWhile_le)

lemma length_der_int: "length b = 32 \<Longrightarrow> \<exists>a\<le>33. length (der_int b) = a + 2"
  using length_dropWhile_zeros [of b] by (auto simp: der_int_def Let_def)

lemma ecdsa_sig_to_der_eq:
  assumes len: "length r = 32" "length s = 32" and pos: "be_nat r \<noteq> 0" "be_nat s \<noteq> 0"
  shows "ecdsa_sig_to_der (r @ s @ [z]) (replicate 72 0) =
    Some (int (length (der_sig r s)), der_sig r s @ replicate (72 - length (der_sig r s)) 0)"
proof -
  have r: "der_integer 0 32 (r @ s @ [z]) = Some (der_int r)"
    using der_integer_eq [of r "[]" 0 32 "s @ [z]"] be_nat_pos pos len by simp
  have s: "der_integer 32 64 (r @ s @ [z]) = Some (der_int s)"
    using der_integer_eq [of s r 32 64 "[z]"] be_nat_pos pos len by simp
  obtain a b where ab: "length (der_int r) = a + 2" "length (der_int s) = b + 2" "a \<le> 33" "b \<le> 33"
    using length_der_int [of r] length_der_int [of s] len by blast
  have e: "length (der_int r @ der_int s) = a + b + 4" using ab by simp
  define L where "L = (word_of_nat (length (der_int r @ der_int s)) :: byte)"
  have l: "word_of_nat a + word_of_nat b + (4 :: byte) = L"
    by (simp add: L_def ab)
  have "unat L = a + b + 4"
    unfolding L_def e unat_of_nat take_bit_eq_mod using ab(3,4) by (intro mod_less) simp
  then have u: "uint L = int a + int b + 4" by (simp flip: of_nat_add add: uint_nat)
  have d: "der_sig r s = 0x30 # L # der_int r @ der_int s" by (simp add: der_sig_def L_def)
  have "wr 0 (der_sig r s) (replicate 72 0) = Some (der_sig r s @ replicate (72 - length (der_sig r s)) 0)"
    using ab by (simp add: d wr_0)
  then show ?thesis
    unfolding ecdsa_sig_to_der_def r s by (simp add: l Let_def u d ab(1,2))
qed

section \<open>Properties\<close>

text \<open>The content of a DER integer that is positive and in its shortest form.\<close>

definition der_minimal :: "byte list \<Rightarrow> bool" where
  "der_minimal R \<longleftrightarrow> R \<noteq> [] \<and> length R \<le> 33 \<and> hd R < 0x80 \<and> (hd R = 0 \<longrightarrow> 1 < length R \<and> 0x80 \<le> R ! 1)"

lemma der_int_minimal:
  assumes "length r = 32" "be_nat r \<noteq> 0"
  shows "\<exists>R. der_int r = 0x02 # word_of_nat (length R) # R \<and> der_minimal R \<and> be_nat R = be_nat r"
proof -
  let ?m = "dropWhile (\<lambda>x. x = 0) r"
  obtain y ys where m: "?m = y # ys" using be_nat_pos [OF assms(2)] by (cases ?m) auto
  then have y: "y \<noteq> 0" using hd_dropWhile [of "\<lambda>x. x = 0" r] by auto
  have l: "length ys \<le> 31" using length_dropWhile_zeros [of r] assms(1) by (simp add: m)
  have v: "be_nat (y # ys) = be_nat r" using be_nat_dropWhile [of r] by (simp add: m)
  define R where "R = (if 0x80 \<le> y then [0] else []) @ y # ys"
  have "der_int r = 0x02 # word_of_nat (length R) # R" by (simp add: der_int_def m R_def)
  moreover have "der_minimal R" using y l by (auto simp: der_minimal_def R_def not_le)
  moreover have "be_nat R = be_nat r" using v by (simp add: R_def nat_of_le_append)
  ultimately show ?thesis by blast
qed

text \<open>\<^verbatim>\<open>ecdsa_sig_to_der\<close> writes the DER form of a signature whose two numbers are not
  zero: a sequence of two integers, each with the value of its half and in the shortest form, with
  the lengths of the three headers, and returns the length.  Its buffer of 72 bytes is enough.\<close>

theorem ecdsa_sig_to_der_canonical:
  assumes "length r = 32" "length s = 32" "be_nat r \<noteq> 0" "be_nat s \<noteq> 0"
  shows "\<exists>R S. ecdsa_sig_to_der (r @ s @ [z]) (replicate 72 0) =
      Some (int (length R + length S + 6),
        0x30 # word_of_nat (length R + length S + 4) # 0x02 # word_of_nat (length R) # R @
        0x02 # word_of_nat (length S) # S @ replicate (66 - length R - length S) 0) \<and>
    der_minimal R \<and> be_nat R = be_nat r \<and> der_minimal S \<and> be_nat S = be_nat s"
proof -
  obtain R where R: "der_int r = 0x02 # word_of_nat (length R) # R" "der_minimal R" "be_nat R = be_nat r"
    using der_int_minimal assms(1,3) by blast
  obtain S where S: "der_int s = 0x02 # word_of_nat (length S) # S" "der_minimal S" "be_nat S = be_nat s"
    using der_int_minimal assms(2,4) by blast
  have "length (der_sig r s) = length R + length S + 6" by (simp add: der_sig_def R(1) S(1))
  then have "ecdsa_sig_to_der (r @ s @ [z]) (replicate 72 0) =
      Some (int (length R + length S + 6), der_sig r s @ replicate (72 - (length R + length S + 6)) 0)"
    using ecdsa_sig_to_der_eq [OF assms] by simp
  then show ?thesis using R S
    by (intro exI [of _ R] exI [of _ S]) (simp add: der_sig_def)
qed

lemma ecdsa_sig_to_der_canonical_witness:
  "\<exists>R S. ecdsa_sig_to_der ((replicate 31 0 @ [0x80]) @ (replicate 31 0 @ [5]) @ [0]) (replicate 72 0) =
      Some (int (length R + length S + 6),
        0x30 # word_of_nat (length R + length S + 4) # 0x02 # word_of_nat (length R) # R @
        0x02 # word_of_nat (length S) # S @ replicate (66 - length R - length S) 0) \<and>
    der_minimal R \<and> der_minimal S"
proof -
  have "be_nat (replicate 31 0 @ [0x80]) \<noteq> 0" "be_nat (replicate 31 0 @ [5]) \<noteq> 0"
    by simp_all
  then show ?thesis
    using ecdsa_sig_to_der_canonical [of "replicate 31 0 @ [0x80]" "replicate 31 0 @ [5]" 0] by auto
qed

text \<open>The two ways to derive a public key agree: from the Base58 text of an extended key, and
  from the 78 bytes this text decodes to.\<close>

theorem public_derivations_agree:
  assumes "base58_decode_check c s 78 = (78, d)" "length d = 78" "0 \<notin> set s" "n \<le> 113" "length buffer = 33"
  shows "get_pubkey_from_xpub_base58_double_ckd c (Some (s @ 0 # rest)) n p1 p2 buffer 33 =
    get_pubkey_from_xpub_double_ckd c (Some d) 78 p1 p2 buffer 33"
proof -
  have "takeWhile (\<lambda>x. x \<noteq> 0) (s @ 0 # rest) = s"
    using assms(3) by (induction s) auto
  then have "text_key c (s @ 0 # rest) p1 p2 = data_key c d p1 p2"
    using assms(1) by (simp add: text_key_def text_data_def)
  then show ?thesis using assms(2,4,5) by (simp add: pubkey_of_data pubkey_of_text)
qed

text \<open>An instance of the parameters: derivation adds the path element to the chain code, and the
  text of a key is its bytes in a fixed table of one entry.\<close>

definition toy_curve :: "byte list \<Rightarrow> byte list \<Rightarrow> byte list \<Rightarrow> curve_ops" where
  "toy_curve pubd prvd sg = \<lparr>
     base58_decode_check = (\<lambda>s n. if s = [0x5a] then (78, pubd) else if s = [0x7a] then (78, prvd) else (0, [])),
     hdnode_public_ckd = (\<lambda>n i. (1, n\<lparr>public_key := map (\<lambda>x. x + ucast i) (public_key n)\<rparr>)),
     hdnode_private_ckd = (\<lambda>n i. (1, n\<lparr>hd_child_num := i\<rparr>)),
     ecdsa_sign_digest = (\<lambda>k d. (0, sg))\<rparr>"

lemma public_derivations_agree_witness:
  "get_pubkey_from_xpub_base58_double_ckd (toy_curve (replicate 78 7) [] []) (Some [0x5a, 0, 1]) 113 1 2 (replicate 33 0) 33 =
    get_pubkey_from_xpub_double_ckd (toy_curve (replicate 78 7) [] []) (Some (replicate 78 7)) 78 1 2 (replicate 33 0) 33"
  using public_derivations_agree [of "toy_curve (replicate 78 7) [] []" "[0x5a]" "replicate 78 7" 113 "replicate 33 0" "[1]" 1 2]
  by (simp add: toy_curve_def)

end
