(* ===== verification/Keystore.thy ===== *)
theory Keystore
  imports Spc_Prelude
begin

text \<open>
  The key stores of the node (\<^verbatim>\<open>spckeystore.c\<close>): a file per user, an array of key pairs behind a
  header with the user and their number.
\<close>

section \<open>Files\<close>

text \<open>The calls of the system the program makes.  \<^verbatim>\<open>io_max\<close> gives for the calls in their order how
  many bytes can be transferred, or \<^verbatim>\<open>None\<close> for a failure of the call: any behaviour of a disk.\<close>

record os =
  hp :: heap
  dirs :: "byte list set"
  files :: "byte list \<rightharpoonup> byte list"
  io_calls :: nat
  io_max :: "nat \<Rightarrow> nat option"

record file_desc =
  fd_path :: "byte list"
  fd_off :: nat

definition io_step :: "os \<Rightarrow> nat option \<times> os"
  where "io_step s = (io_max s (io_calls s), s\<lparr>io_calls := Suc (io_calls s)\<rparr>)"

text \<open>\<^verbatim>\<open>malloc\<close> and \<^verbatim>\<open>free\<close> of a temporary block.\<close>

definition os_malloc :: "u64 \<Rightarrow> os \<Rightarrow> nat option \<times> os"
  where "os_malloc n s = (case malloc n (hp s) of (p, h) \<Rightarrow> (p, s\<lparr>hp := h\<rparr>))"

definition os_free :: "nat \<Rightarrow> os \<Rightarrow> os option"
  where "os_free b s = do { h \<leftarrow> free_blk b (hp s); Some (s\<lparr>hp := h\<rparr>) }"

definition c_str :: "byte list \<Rightarrow> byte list"
  where "c_str = takeWhile (\<lambda>x. x \<noteq> 0)"

text \<open>\<^verbatim>\<open>access(path, F_OK)\<close>.\<close>

definition access :: "byte list \<Rightarrow> os \<Rightarrow> int"
  where "access p s = (if p \<in> dirs s \<or> p \<in> dom (files s) then 0 else -1)"

definition mkdir :: "byte list \<Rightarrow> os \<Rightarrow> os" where
  "mkdir p s = (case io_step s of (r, s') \<Rightarrow> if r = None then s' else s'\<lparr>dirs := insert p (dirs s')\<rparr>)"

text \<open>The directory of a path, with its last \<^verbatim>\<open>/\<close>.\<close>

definition dirname :: "byte list \<Rightarrow> byte list"
  where "dirname p = rev (dropWhile (\<lambda>x. x \<noteq> 0x2f) (rev p))"

definition open_trunc :: "byte list \<Rightarrow> os \<Rightarrow> file_desc option \<times> os" where
  "open_trunc p s = (case io_step s of (r, s') \<Rightarrow>
     if r = None \<or> dirname p \<notin> dirs s' then (None, s')
     else (Some \<lparr>fd_path = p, fd_off = 0\<rparr>, s'\<lparr>files := (files s')(p \<mapsto> [])\<rparr>))"

definition open_existing :: "byte list \<Rightarrow> os \<Rightarrow> file_desc option \<times> os" where
  "open_existing p s = (case io_step s of (r, s') \<Rightarrow>
     if r = None \<or> p \<notin> dom (files s') then (None, s') else (Some \<lparr>fd_path = p, fd_off = 0\<rparr>, s'))"

definition lseek :: "file_desc \<Rightarrow> nat \<Rightarrow> file_desc"
  where "lseek fd n = fd\<lparr>fd_off := n\<rparr>"

abbreviation file_of :: "file_desc \<Rightarrow> os \<Rightarrow> byte list"
  where "file_of fd s \<equiv> (case files s (fd_path fd) of None \<Rightarrow> [] | Some b \<Rightarrow> b)"

definition read_fd :: "file_desc \<Rightarrow> nat \<Rightarrow> os \<Rightarrow> byte list option \<times> file_desc \<times> os" where
  "read_fd fd n s = (case io_step s of
     (None, s') \<Rightarrow> (None, fd, s')
   | (Some k, s') \<Rightarrow> (let d = take (min k n) (drop (fd_off fd) (file_of fd s'))
       in (Some d, fd\<lparr>fd_off := fd_off fd + length d\<rparr>, s')))"

definition overlay :: "nat \<Rightarrow> byte list \<Rightarrow> byte list \<Rightarrow> byte list" where
  "overlay off d f = (if d = [] then f else take off (f @ replicate (off - length f) 0) @ d @ drop (off + length d) f)"

definition write_fd :: "file_desc \<Rightarrow> byte list \<Rightarrow> os \<Rightarrow> nat option \<times> file_desc \<times> os" where
  "write_fd fd src s = (case io_step s of
     (None, s') \<Rightarrow> (None, fd, s')
   | (Some k, s') \<Rightarrow> (let d = take k src
       in (Some (length d), fd\<lparr>fd_off := fd_off fd + length d\<rparr>,
           s'\<lparr>files := (files s')(fd_path fd \<mapsto> overlay (fd_off fd) d (file_of fd s'))\<rparr>)))"

section \<open>The file of a key store\<close>

record spc_keystore =
  ks_id :: u32
  key_pairs_num :: u32

definition keystore_bytes :: "spc_keystore \<Rightarrow> byte list"
  where "keystore_bytes k = u32_le (ks_id k) @ u32_le (key_pairs_num k)"

definition keystore_of :: "byte list \<Rightarrow> spc_keystore"
  where "keystore_of b = \<lparr>ks_id = le_u32 (take 4 b), key_pairs_num = le_u32 (drop 4 b)\<rparr>"

record spc_key_pair =
  kp_xpub :: "byte list"
  kp_xprv :: "byte list"

definition pair_bytes :: "spc_key_pair \<Rightarrow> byte list"
  where "pair_bytes k = kp_xpub k @ kp_xprv k"

definition pair_of :: "byte list \<Rightarrow> spc_key_pair"
  where "pair_of b = \<lparr>kp_xpub = take 113 b, kp_xprv = drop 113 b\<rparr>"

definition SPCKEYSTOREPATH :: "byte list" where
  "SPCKEYSTOREPATH = map of_char ''/home/twhite/20200527_trezor_test/trezor-firmware/crypto/tools/spckeystores/''"

abbreviation (input) "SPCKEYSTOREPATHLEN \<equiv> 76"

definition check_keystore_dir :: "os \<Rightarrow> int" where
  "check_keystore_dir s =
    (let ret = access SPCKEYSTOREPATH s in if ret = -1 then 0 else if ret = 0 then 1 else -1)"

section \<open>The path\<close>

text \<open>The loop of \<^verbatim>\<open>get_num_str_len\<close>: the first power of ten not above \<^verbatim>\<open>id\<close>.\<close>

fun num_str_loop :: "nat \<Rightarrow> byte \<Rightarrow> u32 \<Rightarrow> u32 \<Rightarrow> byte option" where
  "num_str_loop 0 i worker uid = None"
| "num_str_loop (Suc k) i worker uid =
    (if uid div worker > 0 then Some i else num_str_loop k (i + 1) (worker div 10) uid)"

definition get_num_str_len :: "u32 \<Rightarrow> byte" where
  "get_num_str_len uid =
    (if uid = 0 then 1
     else (case num_str_loop 10 0 1000000000 uid of None \<Rightarrow> 0 | Some i \<Rightarrow> 9 - i + 1))"

text \<open>\<^verbatim>\<open>sprintf\<close> with \<^verbatim>\<open>%d\<close>.\<close>

fun dec_digits :: "nat \<Rightarrow> byte list" where
  "dec_digits n = (if n < 10 then [word_of_nat (48 + n)] else dec_digits (n div 10) @ [word_of_nat (48 + n mod 10)])"

declare dec_digits.simps [simp del]

definition sprintf_d :: "u32 \<Rightarrow> byte list" where
  "sprintf_d x = (if sint x < 0 then 0x2d # dec_digits (nat (- sint x)) else dec_digits (nat (sint x)))"

definition gen_keystore_path :: "u32 \<Rightarrow> byte list \<Rightarrow> u32 \<Rightarrow> os \<Rightarrow> (int \<times> byte list \<times> u32 \<times> os) option" where
  "gen_keystore_path uid buffer path_len s =
    (if 1000000000 < uid then Some (-1, buffer, path_len, s)
     else let id_str_len = get_num_str_len uid in
       if id_str_len = 0 then Some (-1, buffer, path_len, s)
       else (case os_malloc (ucast id_str_len + 1) s of
           (None, s1) \<Rightarrow> Some (-1, buffer, path_len, s1)
         | (Some p, s1) \<Rightarrow> do {
             id_str \<leftarrow> wr 0 (sprintf_d uid @ [0]) (replicate (unat id_str_len + 1) 0);
             case os_malloc (SPCKEYSTOREPATHLEN + ucast id_str_len + 1) s1 of
               (None, s2) \<Rightarrow> do { s3 \<leftarrow> os_free p s2; Some (-1, buffer, path_len, s3) }
             | (Some q, s2) \<Rightarrow> do {
                 dir \<leftarrow> rd SPCKEYSTOREPATHLEN (SPCKEYSTOREPATH @ [0]);
                 path \<leftarrow> wr 0 dir (replicate (SPCKEYSTOREPATHLEN + unat id_str_len + 1) 0);
                 d \<leftarrow> rd (unat id_str_len) id_str;
                 path \<leftarrow> wr SPCKEYSTOREPATHLEN d path;
                 s3 \<leftarrow> os_free p s2;
                 src \<leftarrow> rd (SPCKEYSTOREPATHLEN + unat id_str_len) path;
                 buffer' \<leftarrow> wr 0 src buffer;
                 s4 \<leftarrow> os_free q s3;
                 Some (0, buffer', SPCKEYSTOREPATHLEN + ucast id_str_len, s4)
               }
           }))"

definition check_keystore_exist :: "u32 \<Rightarrow> byte list \<Rightarrow> u32 \<Rightarrow> os \<Rightarrow> (int \<times> byte list \<times> u32 \<times> os) option" where
  "check_keystore_exist uid buffer keystore_path_len s =
    (if 1000000000 < uid then Some (-1, buffer, keystore_path_len, s)
     else do {
       (ret, path, len, s1) \<leftarrow> gen_keystore_path uid (replicate (SPCKEYSTOREPATHLEN + 11) 0) 0 s;
       if ret = -1 then Some (-1, buffer, keystore_path_len, s1)
       else if len < SPCKEYSTOREPATHLEN then Some (-1, buffer, keystore_path_len, s1)
       else do {
         src \<leftarrow> rd (unat len) path;
         buffer' \<leftarrow> wr 0 src buffer;
         let r = access (c_str path) s1;
         Some (if r = -1 then 0 else if r = 0 then 1 else -1, buffer', len, s1)
       }
     })"

section \<open>The three operations\<close>

definition gen_new_keystore :: "u32 \<Rightarrow> os \<Rightarrow> (int \<times> os) option" where
  "gen_new_keystore uid s =
    (if 1000000000 < uid then Some (-1, s)
     else let ret = check_keystore_dir s in
       if ret = -1 then Some (-1, s)
       else do {
         let s1 = (if ret = 0 then mkdir SPCKEYSTOREPATH s else s);
         (ret, path, len, s2) \<leftarrow> check_keystore_exist uid (replicate (SPCKEYSTOREPATHLEN + 11) 0) 0 s1;
         if ret \<noteq> 0 then Some (-1, s2)
         else if len < SPCKEYSTOREPATHLEN then Some (-1, s2)
         else (case open_trunc (c_str path) s2 of
             (None, s3) \<Rightarrow> Some (-1, s3)
           | (Some fd, s3) \<Rightarrow>
               (case write_fd (lseek fd 0) (keystore_bytes \<lparr>ks_id = uid, key_pairs_num = 0\<rparr>) s3 of (ret, fd, s4) \<Rightarrow>
                  if ret \<noteq> Some 8 then Some (-1, s4) else Some (0, s4)))
       })"

text \<open>The offset of a pair in its file, and the \<^verbatim>\<open>int\<close> it is stored in.\<close>

definition pair_pos :: "nat \<Rightarrow> nat"
  where "pair_pos i = 8 + i * 226"

abbreviation as_int :: "nat \<Rightarrow> u32"
  where "as_int n \<equiv> word_of_nat n"

text \<open>\<^verbatim>\<open>save_key_pair\<close> once the file is open.\<close>

definition save_opened :: "u32 \<Rightarrow> spc_key_pair \<Rightarrow> u16 \<Rightarrow> file_desc \<Rightarrow> os \<Rightarrow> (int \<times> u16 \<times> os) option" where
  "save_opened uid kp index fd s2 =
    (case read_fd (lseek fd 0) 8 s2 of
       (None, fd, s3) \<Rightarrow> Some (-1, index, s3)
     | (Some b, fd, s3) \<Rightarrow>
         if length b \<noteq> 8 then Some (-1, index, s3)
         else let ks = keystore_of b in
           if ks_id ks \<noteq> uid then Some (-1, index, s3)
           else let get_index = key_pairs_num ks; index' = ucast get_index; pos = pair_pos (unat get_index);
                    fd = lseek fd pos in
             if as_int (fd_off fd) \<noteq> as_int pos then Some (-1, index', s3)
             else (case write_fd fd (pair_bytes kp) s3 of (ret, fd, s4) \<Rightarrow>
               if ret \<noteq> Some 226 then Some (-1, index', s4)
               else (case write_fd (lseek fd 0) (keystore_bytes (ks\<lparr>key_pairs_num := key_pairs_num ks + 1\<rparr>)) s4 of
                   (ret, fd, s5) \<Rightarrow> Some (if ret \<noteq> Some 8 then -1 else 0, index', s5))))"

definition save_key_pair :: "u32 \<Rightarrow> spc_key_pair \<Rightarrow> u16 \<Rightarrow> os \<Rightarrow> (int \<times> u16 \<times> os) option" where
  "save_key_pair uid kp index s = do {
     (ret, path, len, s1) \<leftarrow> check_keystore_exist uid (replicate (SPCKEYSTOREPATHLEN + 11) 0) 0 s;
     if ret = -1 then Some (-1, index, s1)
     else if ret = 0 then Some (-1, index, s1)
     else if len < SPCKEYSTOREPATHLEN then Some (-1, index, s1)
     else (case open_existing (c_str path) s1 of
         (None, s2) \<Rightarrow> Some (-1, index, s2)
       | (Some fd, s2) \<Rightarrow> save_opened uid kp index fd s2)
   }"

definition get_key_pair :: "u32 \<Rightarrow> u16 \<Rightarrow> spc_key_pair \<Rightarrow> os \<Rightarrow> (int \<times> spc_key_pair \<times> os) option" where
  "get_key_pair uid index kp s = do {
     (ret, path, len, s1) \<leftarrow> check_keystore_exist uid (replicate (SPCKEYSTOREPATHLEN + 11) 0) 0 s;
     if ret = -1 then Some (-1, kp, s1)
     else if ret = 0 then Some (-1, kp, s1)
     else if len < SPCKEYSTOREPATHLEN then Some (-1, kp, s1)
     else (case open_existing (c_str path) s1 of
         (None, s2) \<Rightarrow> Some (-1, kp, s2)
       | (Some fd, s2) \<Rightarrow>
         (case read_fd (lseek fd 0) 8 s2 of
            (None, fd, s3) \<Rightarrow> Some (-1, kp, s3)
          | (Some b, fd, s3) \<Rightarrow>
              if length b \<noteq> 8 then Some (-1, kp, s3)
              else let ks = keystore_of b in
                if ks_id ks \<noteq> uid then Some (-1, kp, s3)
                else if key_pairs_num ks \<le> ucast index then Some (-1, kp, s3)
                else let pos = pair_pos (unat index); fd = lseek fd pos in
                  if as_int (fd_off fd) \<noteq> as_int pos then Some (-1, kp, s3)
                  else (case read_fd fd 226 s3 of
                      (None, fd, s4) \<Rightarrow> Some (-1, kp, s4)
                    | (Some d, fd, s4) \<Rightarrow>
                        let kp' = pair_of (overlay 0 d (pair_bytes kp))
                        in Some (if length d \<noteq> 226 then -1 else 0, kp', s4))))
   }"

end
