(* ===== verification/Key_Gen.thy ===== *)
theory Key_Gen
  imports Key_Derive Keystore
begin

text \<open>
  The generation of a key pair (\<^verbatim>\<open>spcxkeygen.c\<close>).  The functions of the wallet library
  it calls are a parameter; what \<^verbatim>\<open>mnemonic_generate\<close> draws at random is an argument.
\<close>

record keygen_ops =
  mnemonic_to_seed :: "byte list \<Rightarrow> byte list \<Rightarrow> byte list"
  hdnode_from_seed :: "byte list \<Rightarrow> int \<times> hdnode"
  hdnode_fingerprint :: "hdnode \<Rightarrow> u32"
  hdnode_private_ckd_prime :: "hdnode \<Rightarrow> u32 \<Rightarrow> int \<times> hdnode"
  hdnode_fill_public_key :: "hdnode \<Rightarrow> hdnode"
  hdnode_serialize_private :: "hdnode \<Rightarrow> u32 \<Rightarrow> u32 \<Rightarrow> int \<Rightarrow> int \<times> byte list"
  hdnode_serialize_public :: "hdnode \<Rightarrow> u32 \<Rightarrow> u32 \<Rightarrow> int \<Rightarrow> int \<times> byte list"

abbreviation (input) "spacechain_pass \<equiv> map of_char ''spacechain'' :: byte list"

text \<open>The loop that prints the words reads 24 times 10 characters.\<close>

definition spc_seed_gen :: "keygen_ops \<Rightarrow> buf \<Rightarrow> byte list \<Rightarrow> int \<Rightarrow> (int \<times> byte list) option" where
  "spc_seed_gen g mnemonic seed seed_len =
    (if seed_len \<noteq> 64 then Some (-1, seed)
     else do {
       m \<leftarrow> mnemonic;
       printed \<leftarrow> rd (24 * 10) m;
       seed' \<leftarrow> wr 0 (mnemonic_to_seed g (c_str m) spacechain_pass) seed;
       Some (0, seed')
     })"

definition spc_hdnode_gen_from_seed :: "keygen_ops \<Rightarrow> byte list \<Rightarrow> int \<Rightarrow> hdnode \<Rightarrow> int \<times> hdnode" where
  "spc_hdnode_gen_from_seed g seed seed_len node =
    (if seed_len \<noteq> 64 then (-1, node)
     else case hdnode_from_seed g seed of (ret, node') \<Rightarrow> if ret \<noteq> 1 then (-1, node') else (0, node'))"

definition spc_node_from_rootnode :: "keygen_ops \<Rightarrow> hdnode \<Rightarrow> hdnode \<Rightarrow> u32 \<Rightarrow> int \<times> hdnode \<times> u32" where
  "spc_node_from_rootnode g root node fingerprint =
    (let node = root; fp = hdnode_fingerprint g root
     in case hdnode_private_ckd_prime g node 1 of (ret, node') \<Rightarrow> if ret \<noteq> 1 then (-1, node', fp) else (0, node', fp))"

definition spc_serialize_private :: "keygen_ops \<Rightarrow> hdnode \<Rightarrow> byte list \<Rightarrow> int \<Rightarrow> u32 \<Rightarrow> u32 \<Rightarrow> (int \<times> byte list) option" where
  "spc_serialize_private g node xprv_buf xprv_buf_len fingerprint version =
    (if xprv_buf_len < 112 \<or> fingerprint = 0 \<or> version = 0 then Some (-1, xprv_buf)
     else case hdnode_serialize_private g node fingerprint version xprv_buf_len of (ret, text) \<Rightarrow> do {
       b \<leftarrow> wr 0 text xprv_buf;
       Some (if ret = 0 then -1 else ret, b)
     })"

definition spc_serialize_public :: "keygen_ops \<Rightarrow> hdnode \<Rightarrow> byte list \<Rightarrow> int \<Rightarrow> u32 \<Rightarrow> u32 \<Rightarrow> (int \<times> byte list) option" where
  "spc_serialize_public g node xpub_buf xpub_buf_len fingerprint version =
    (if xpub_buf_len < 112 \<or> fingerprint = 0 \<or> version = 0 then Some (-1, xpub_buf)
     else case hdnode_serialize_public g (hdnode_fill_public_key g node) fingerprint version xpub_buf_len of (ret, text) \<Rightarrow> do {
       b \<leftarrow> wr 0 text xpub_buf;
       Some (if ret = 0 then -1 else ret, b)
     })"

text \<open>The result and the two buffers of the caller.\<close>

definition create_single_key_pair ::
    "keygen_ops \<Rightarrow> buf \<Rightarrow> byte list \<Rightarrow> u32 \<Rightarrow> byte list \<Rightarrow> u32 \<Rightarrow> (int \<times> byte list \<times> byte list) option" where
  "create_single_key_pair g mnemonic xpub_buffer xpub_buffer_len xprv_buffer xprv_buffer_len =
    (if xpub_buffer_len < 112 \<or> xprv_buffer_len < 112 then Some (-1, xpub_buffer, xprv_buffer)
     else do {
       (ret, seed) \<leftarrow> spc_seed_gen g mnemonic (replicate 64 0) 64;
       if ret < 0 then Some (-1, xpub_buffer, xprv_buffer)
       else case spc_hdnode_gen_from_seed g seed 64 zero_hdnode of (ret, root) \<Rightarrow>
         if ret < 0 then Some (-1, xpub_buffer, xprv_buffer)
         else case spc_node_from_rootnode g root zero_hdnode 0 of (ret, node, fingerprint) \<Rightarrow>
           if ret < 0 then Some (-1, xpub_buffer, xprv_buffer)
           else do {
             (ret, xprv) \<leftarrow> spc_serialize_private g node (replicate 113 0) 112 fingerprint VERSION_P2WSH_XPRV;
             if ret < 0 then Some (-1, xpub_buffer, xprv_buffer)
             else if 112 < ret then Some (-1, xpub_buffer, xprv_buffer)
             else do {
               src \<leftarrow> rd (nat ret) xprv;
               xprv_buffer \<leftarrow> wr 0 src xprv_buffer;
               (ret, xpub) \<leftarrow> spc_serialize_public g node (replicate 113 0) 112 fingerprint VERSION_P2WSH_XPUB;
               if ret < 0 then Some (-1, xpub_buffer, xprv_buffer)
               else if 112 < ret then Some (-1, xpub_buffer, xprv_buffer)
               else do {
                 src \<leftarrow> rd (nat ret) xpub;
                 xpub_buffer \<leftarrow> wr 0 src xpub_buffer;
                 Some (0, xpub_buffer, xprv_buffer)
               }
             }
           }
     })"

end
