(* ===== verification/Moscp.thy ===== *)
theory Moscp
  imports Spc_Prelude
begin

text \<open>
  The messages between the node and its clients (\<^verbatim>\<open>spcmoscp.c\<close>): commands of 16 bytes and data
  of a length known to both sides, over a stream socket.

  In this theory \<^verbatim>\<open>None\<close> also stands for a call that does not return: the receiving loops repeat
  \<^verbatim>\<open>read\<close> until all bytes are there, and \<^verbatim>\<open>read\<close> gives no bytes at the end of the stream.
\<close>

section \<open>The socket\<close>

text \<open>\<^verbatim>\<open>inq\<close> are the bytes the peer sends before it closes; \<^verbatim>\<open>rd_max\<close> and \<^verbatim>\<open>wr_max\<close> say for the
  calls of \<^verbatim>\<open>read\<close> and \<^verbatim>\<open>write\<close> in their order whether they fail (\<^verbatim>\<open>None\<close>) and how many bytes they
  transfer at most.  A call that does not fail transfers at least one byte, unless the stream is at
  its end.\<close>

record conn =
  inq :: "byte list"
  rd_calls :: nat
  rd_max :: "nat \<Rightarrow> nat option"
  outq :: "byte list"
  wr_calls :: nat
  wr_max :: "nat \<Rightarrow> nat option"

definition sock_read :: "nat \<Rightarrow> conn \<Rightarrow> byte list option \<times> conn" where
  "sock_read n c =
    (let c' = c\<lparr>rd_calls := Suc (rd_calls c)\<rparr> in
     case rd_max c (rd_calls c) of None \<Rightarrow> (None, c')
     | Some k \<Rightarrow> let m = min (max 1 k) n in (Some (take m (inq c)), c'\<lparr>inq := drop m (inq c)\<rparr>))"

definition sock_write :: "byte list \<Rightarrow> conn \<Rightarrow> nat option \<times> conn" where
  "sock_write d c =
    (let c' = c\<lparr>wr_calls := Suc (wr_calls c)\<rparr> in
     case wr_max c (wr_calls c) of None \<Rightarrow> (None, c')
     | Some k \<Rightarrow> let m = min (max 1 k) (length d) in (Some m, c'\<lparr>outq := outq c @ take m d\<rparr>))"

section \<open>Commands\<close>

record moscp_cmd =
  m_cmd :: byte
  m_id :: u32
  m_index :: u16
  m_data_len :: u64
  m_ret :: byte

definition zero_cmd :: moscp_cmd
  where "zero_cmd = \<lparr>m_cmd = 0, m_id = 0, m_index = 0, m_data_len = 0, m_ret = 0\<rparr>"

definition cmd_bytes :: "moscp_cmd \<Rightarrow> byte list"
  where "cmd_bytes m = m_cmd m # u32_le (m_id m) @ u16_le (m_index m) @ u64_le (m_data_len m) @ [m_ret m]"

definition cmd_of :: "byte list \<Rightarrow> moscp_cmd" where
  "cmd_of b = \<lparr>m_cmd = b ! 0, m_id = le_u32 (take 4 (drop 1 b)), m_index = le_u16 (take 2 (drop 5 b)),
     m_data_len = le_u64 (take 8 (drop 7 b)), m_ret = b ! 15\<rparr>"

section \<open>The loops\<close>

text \<open>\<^verbatim>\<open>while (last > 0)\<close>, with \<^verbatim>\<open>last\<close> (here \<^verbatim>\<open>todo\<close>) a signed integer and \<^verbatim>\<open>sum\<close> the bytes transferred so far.\<close>

partial_function (option) recv_loop :: "int \<Rightarrow> nat \<Rightarrow> byte list \<Rightarrow> conn \<Rightarrow> (int \<times> nat \<times> byte list \<times> conn) option" where
  "recv_loop todo got buffer c =
    (if todo \<le> 0 then Some (0, got, buffer, c)
     else (case sock_read (nat todo) c of
         (None, c') \<Rightarrow> Some (-1, got, buffer, c')
       | (Some d, c') \<Rightarrow> do {
           buffer' \<leftarrow> wr got d buffer;
           recv_loop (todo - int (length d)) (got + length d) buffer' c'
         }))"

function send_loop :: "int \<Rightarrow> nat \<Rightarrow> byte list \<Rightarrow> conn \<Rightarrow> (int \<times> nat \<times> conn) option" where
  "send_loop todo got buffer c =
    (if todo \<le> 0 then Some (0, got, c)
     else (case rd (nat todo) (drop got buffer) of
         None \<Rightarrow> None
       | Some d \<Rightarrow> (case sock_write d c of
           (None, c') \<Rightarrow> Some (-1, got, c')
         | (Some m, c') \<Rightarrow> send_loop (todo - int m) (got + m) buffer c')))"
  by pat_completeness auto
termination
  by (relation "measure (\<lambda>(todo, got, buffer, c). nat todo)")
    (auto simp: sock_write_def rd_def Let_def split: if_splits option.splits)

section \<open>The functions\<close>

definition spc_recv_cmd_from_sock :: "int \<Rightarrow> moscp_cmd \<Rightarrow> conn \<Rightarrow> (int \<times> moscp_cmd \<times> conn) option" where
  "spc_recv_cmd_from_sock sfd cmd_st c =
    (if sfd < 0 then Some (-1, cmd_st, c)
     else do {
       (ret, got, buffer, c') \<leftarrow> recv_loop 16 0 (cmd_bytes zero_cmd) c;
       if ret = -1 then Some (-1, cmd_st, c')
       else if got \<noteq> 16 then Some (-1, cmd_st, c')
       else Some (0, cmd_of buffer, c')
     })"

definition spc_send_cmd_to_sock :: "int \<Rightarrow> moscp_cmd \<Rightarrow> conn \<Rightarrow> (int \<times> conn) option" where
  "spc_send_cmd_to_sock sfd cmd_st c =
    (if sfd < 0 then Some (-1, c)
     else do {
       (ret, got, c') \<leftarrow> send_loop 16 0 (cmd_bytes cmd_st) c;
       if ret = -1 then Some (-1, c') else if got \<noteq> 16 then Some (-1, c') else Some (0, c')
     })"

definition spc_send_error_to_sock :: "int \<Rightarrow> conn \<Rightarrow> (int \<times> conn) option" where
  "spc_send_error_to_sock sfd c =
    (if sfd < 0 then Some (-1, c)
     else do {
       (ret, got, c') \<leftarrow> send_loop 16 0 (cmd_bytes (zero_cmd\<lparr>m_cmd := 0xee\<rparr>)) c;
       if ret = -1 then Some (-1, c') else if got \<noteq> 16 then Some (-1, c') else Some (0, c')
     })"

definition spc_send_finish_to_sock :: "int \<Rightarrow> conn \<Rightarrow> (int \<times> conn) option" where
  "spc_send_finish_to_sock sfd c =
    (if sfd < 0 then Some (-1, c)
     else do {
       (ret, got, c') \<leftarrow> send_loop 16 0 (cmd_bytes (zero_cmd\<lparr>m_cmd := 0xff\<rparr>)) c;
       if ret = -1 then Some (-1, c') else if got \<noteq> 16 then Some (-1, c') else Some (0, c')
     })"

text \<open>\<^verbatim>\<open>int last = buffer_len\<close>, and \<^verbatim>\<open>uint64_t sum_64 = sum\<close>.\<close>

definition spc_recv_data_from_sock :: "int \<Rightarrow> buf \<Rightarrow> u64 \<Rightarrow> conn \<Rightarrow> (int \<times> buf \<times> conn) option" where
  "spc_recv_data_from_sock sfd buffer buffer_len c =
    (case buffer of None \<Rightarrow> Some (-1, buffer, c)
     | Some b \<Rightarrow>
         if sfd < 0 \<or> buffer_len = 0 then Some (-1, buffer, c)
         else do {
           (ret, got, b', c') \<leftarrow> recv_loop (int_of_u64 buffer_len) 0 b c;
           if ret = -1 then Some (-1, Some b', c')
           else if word_of_nat got \<noteq> buffer_len then Some (-1, Some b', c')
           else Some (0, Some b', c')
         })"

definition spc_send_data_to_sock :: "int \<Rightarrow> buf \<Rightarrow> u64 \<Rightarrow> conn \<Rightarrow> (int \<times> conn) option" where
  "spc_send_data_to_sock sfd buffer buffer_len c =
    (case buffer of None \<Rightarrow> Some (-1, c)
     | Some b \<Rightarrow>
         if sfd < 0 \<or> buffer_len = 0 then Some (-1, c)
         else do {
           (ret, got, c') \<leftarrow> send_loop (int_of_u64 buffer_len) 0 b c;
           if ret = -1 then Some (-1, c')
           else if word_of_nat got \<noteq> buffer_len then Some (-1, c')
           else Some (0, c')
         })"

end
