(* ===== verification/Sign.thy ===== *)
theory Sign
imports Key_Derive Script Serialize
begin

text \<open>
  \<^verbatim>\<open>Spacechain_os_part/spc/spcsign.c\<close>: the signature of every input of a partial
  transaction.  For each input the signer finds its position among the three public keys of the
  last stack item, hashes the transaction for the signature (BIP 143), signs, and replaces the
  partial witness of five items by a witness of four: nothing, two signatures, the script.
  The calls of \<^verbatim>\<open>printf\<close> and of \<^verbatim>\<open>debug_print_sigs_list\<close> are left out.
\<close>

section \<open>The structures\<close>

record spc_sig =
  sig_len :: u64
  sig_ptr :: "byte list ptr"

record spc_sigs_list =
  sigs_counter :: u64
  sigs :: "spc_sig list ptr"

definition zero_sig :: spc_sig
  where "zero_sig = \<lparr>sig_len = 0, sig_ptr = NULL\<rparr>"

definition zero_sigs_list :: spc_sigs_list
  where "zero_sigs_list = \<lparr>sigs_counter = 0, sigs = NULL\<rparr>"

section \<open>Hashes over all inputs and outputs\<close>

text \<open>The loops that fill \<^verbatim>\<open>hash_in\<close>: rounds left, index, array, heap and buffer.\<close>

fun prevouts_loop :: "nat \<Rightarrow> nat \<Rightarrow> spc_input list ptr \<Rightarrow> heap \<Rightarrow> byte list \<Rightarrow> byte list option" where
  "prevouts_loop 0 i lst h b = Some b"
| "prevouts_loop (Suc k) i lst h b = do {
     arr \<leftarrow> deref lst h;
     st \<leftarrow> nth_ub i arr;
     b1 \<leftarrow> wr (i * 36) (prev_tx_hash st) b;
     b2 \<leftarrow> wr (i * 36 + 32) (prev_tx_index st) b1;
     prevouts_loop k (Suc i) lst h b2
   }"

text \<open>The end of the three functions: the length is tested, the buffer hashed and freed.\<close>

definition hash_and_free :: "u64 \<Rightarrow> byte list \<Rightarrow> nat \<Rightarrow> byte list \<Rightarrow> heap \<Rightarrow> (int \<times> byte list \<times> heap) option" where
  "hash_and_free len hash_in p out h =
    (if 0xffffffff < len then do { h' \<leftarrow> free_blk p h; Some (-1, out, h') }
     else do {
       res \<leftarrow> sha256d (Some hash_in) (ucast len) (Some out) 32;
       out' \<leftarrow> res;
       h' \<leftarrow> free_blk p h;
       Some (0, out', h')
     })"

definition gen_hashprevouts :: "spc_input list ptr \<Rightarrow> u64 \<Rightarrow> byte list \<Rightarrow> u32 \<Rightarrow> heap \<Rightarrow> (int \<times> byte list \<times> heap) option"
  where
  "gen_hashprevouts lst inputs_num hashprevouts buffer_len h =
    (if lst = NULL \<or> inputs_num = 0 \<or> buffer_len \<noteq> 32 then Some (-1, hashprevouts, h)
     else (case malloc (inputs_num * 36) h of
         (None, h1) \<Rightarrow> Some (-1, hashprevouts, h1)
       | (Some p, h1) \<Rightarrow> do {
           hash_in \<leftarrow> prevouts_loop (unat inputs_num) 0 lst h1 (replicate (unat (inputs_num * 36)) 0);
           hash_and_free (inputs_num * 36) hash_in p hashprevouts h1
         }))"

fun sequences_loop :: "nat \<Rightarrow> nat \<Rightarrow> spc_input list ptr \<Rightarrow> heap \<Rightarrow> byte list \<Rightarrow> byte list option" where
  "sequences_loop 0 i lst h b = Some b"
| "sequences_loop (Suc k) i lst h b = do {
     arr \<leftarrow> deref lst h;
     st \<leftarrow> nth_ub i arr;
     b1 \<leftarrow> wr (i * 4) (sequence_no st) b;
     sequences_loop k (Suc i) lst h b1
   }"

definition gen_hashsequences :: "spc_input list ptr \<Rightarrow> u64 \<Rightarrow> byte list \<Rightarrow> u32 \<Rightarrow> heap \<Rightarrow> (int \<times> byte list \<times> heap) option"
  where
  "gen_hashsequences lst inputs_num hashsequences buffer_len h =
    (if lst = NULL \<or> inputs_num = 0 \<or> buffer_len \<noteq> 32 then Some (-1, hashsequences, h)
     else (case malloc (inputs_num * 4) h of
         (None, h1) \<Rightarrow> Some (-1, hashsequences, h1)
       | (Some p, h1) \<Rightarrow> do {
           hash_in \<leftarrow> sequences_loop (unat inputs_num) 0 lst h1 (replicate (unat (inputs_num * 4)) 0);
           hash_and_free (inputs_num * 4) hash_in p hashsequences h1
         }))"

fun outputs_sum :: "nat \<Rightarrow> nat \<Rightarrow> spc_output list ptr \<Rightarrow> heap \<Rightarrow> u64 \<Rightarrow> u64 option" where
  "outputs_sum 0 i lst h sm = Some sm"
| "outputs_sum (Suc k) i lst h sm = do {
     arr \<leftarrow> deref lst h;
     st \<leftarrow> nth_ub i arr;
     outputs_sum k (Suc i) lst h (sm + 8 + ucast (gen_varint_len (txout_script_len st)) + txout_script_len st)
   }"

text \<open>A variable length integer written through one of the arrays on the stack.\<close>

definition stack_varint :: "u64 \<Rightarrow> u64 \<Rightarrow> byte list \<Rightarrow> (int \<times> byte list \<times> u64) option" where
  "stack_varint n counter b =
    (let varint_len = gen_varint_len n
     in if varint_len \<in> {1, 3, 5, 9} then do {
       (ret, v) \<leftarrow> gen_varint n varint_len (Some (replicate (unat varint_len) 0));
       if ret = -1 then Some (-1, b, counter)
       else do {
         bytes \<leftarrow> v;
         b' \<leftarrow> wr (unat counter) bytes b;
         Some (0, b', counter + ucast varint_len)
       }
     }
     else Some (-1, b, counter))"

text \<open>The result tells the normal end of the loop from a return out of it; the code frees
  \<^verbatim>\<open>hash_in\<close> and returns -1 there.\<close>

fun outputs_loop :: "nat \<Rightarrow> nat \<Rightarrow> spc_output list ptr \<Rightarrow> heap \<Rightarrow> byte list \<Rightarrow> u64 \<Rightarrow> (int \<times> byte list \<times> u64) option" where
  "outputs_loop 0 i lst h b counter = Some (0, b, counter)"
| "outputs_loop (Suc k) i lst h b counter = do {
     arr \<leftarrow> deref lst h;
     st \<leftarrow> nth_ub i arr;
     b1 \<leftarrow> wr (unat counter) (txout_value st) b;
     (ret, b2, counter2) \<leftarrow> stack_varint (txout_script_len st) (counter + 8) b1;
     if ret = -1 then Some (-1, b2, counter2)
     else do {
       scr \<leftarrow> mem_read (txout_script st) (unat (txout_script_len st)) h;
       b3 \<leftarrow> wr (unat counter2) scr b2;
       outputs_loop k (Suc i) lst h b3 (counter2 + txout_script_len st)
     }
   }"

definition gen_hashoutputs :: "spc_output list ptr \<Rightarrow> u64 \<Rightarrow> byte list \<Rightarrow> u32 \<Rightarrow> heap \<Rightarrow> (int \<times> byte list \<times> heap) option"
  where
  "gen_hashoutputs lst outputs_num hashoutputs buffer_len h =
    (if lst = NULL \<or> outputs_num = 0 \<or> buffer_len \<noteq> 32 then Some (-1, hashoutputs, h)
     else do {
       sm \<leftarrow> outputs_sum (unat outputs_num) 0 lst h 0;
       case malloc sm h of
         (None, h1) \<Rightarrow> Some (-1, hashoutputs, h1)
       | (Some p, h1) \<Rightarrow> do {
           (ret, hash_in, counter) \<leftarrow> outputs_loop (unat outputs_num) 0 lst h1 (replicate (unat sm) 0) 0;
           if ret = -1 then do { h2 \<leftarrow> free_blk p h1; Some (-1, hashoutputs, h2) }
           else if sm \<noteq> counter then do { h2 \<leftarrow> free_blk p h1; Some (-1, hashoutputs, h2) }
           else hash_and_free counter hash_in p hashoutputs h1
         }
     })"

section \<open>The script\<close>

text \<open>The pointer \<^verbatim>\<open>p\<close> as an argument of type \<^verbatim>\<open>uint8_t *\<close>.\<close>

definition as_buf :: "byte list ptr \<Rightarrow> heap \<Rightarrow> buf option"
  where "as_buf p h = (if p = NULL then Some None else map_option Some (deref p h))"

text \<open>The last stack item parsed, in both functions that read the public keys: the return code
  and the script, which the caller frees when the code is 0.\<close>

definition last_script :: "spc_witness \<Rightarrow> heap \<Rightarrow> (int \<times> spc_script \<times> heap) option" where
  "last_script w h =
    (if op_items_counter w \<noteq> 5 then Some (-1, zero_script, h)
     else do {
       arr \<leftarrow> deref (op_items_list w) h;
       st \<leftarrow> nth_ub 4 arr;
       b \<leftarrow> as_buf (op_item st) h;
       (ret, script, h1) \<leftarrow> parse_script b (op_item_len st) zero_script h;
       if ret \<noteq> 0 then Some (-1, script, h1)
       else if items_num script \<noteq> 6 then do {
         (s, h2) \<leftarrow> free_script script h1;
         Some (-1, s, h2)
       }
       else Some (0, script, h1)
     })"

text \<open>The body of the loop over the three keys: item \<^verbatim>\<open>i + 1\<close> of the script is a type byte, an
  extended key of 78 bytes and two 16-bit path elements.\<close>

definition script_key :: "curve_ops \<Rightarrow> spc_script \<Rightarrow> nat \<Rightarrow> byte list \<Rightarrow> heap \<Rightarrow> (int \<times> u32 \<times> u32 \<times> byte list) option" where
  "script_key c script i pubkey h = do {
     arr \<leftarrow> deref (items_list script) h;
     st \<leftarrow> nth_ub (i + 1) arr;
     item \<leftarrow> deref (si_item st) h;
     x_pubkey \<leftarrow> rd 78 (drop 1 item);
     path_1 \<leftarrow> rd 2 (drop 79 item);
     path_2 \<leftarrow> rd 2 (drop 81 item);
     (ret, pub) \<leftarrow> get_pubkey_from_xpub_double_ckd c (Some x_pubkey) 78 (ucast (le_u16 path_1)) (ucast (le_u16 path_2))
       pubkey 33;
     Some (ret, ucast (le_u16 path_1), ucast (le_u16 path_2), pub)
   }"

fun scriptcode_loop :: "curve_ops \<Rightarrow> spc_script \<Rightarrow> nat \<Rightarrow> nat \<Rightarrow> byte list \<Rightarrow> byte list \<Rightarrow> heap \<Rightarrow> (int \<times> byte list) option" where
  "scriptcode_loop c script 0 i pubkey acc h = Some (0, acc)"
| "scriptcode_loop c script (Suc k) i pubkey acc h = do {
     (ret, path1, path2, pub) \<leftarrow> script_key c script i pubkey h;
     if ret \<noteq> 0 then Some (-1, acc)
     else scriptcode_loop c script k (Suc i) pub (acc @ 0x21 # pub) h
   }"

definition gen_scriptcode :: "curve_ops \<Rightarrow> spc_witness \<Rightarrow> byte list \<Rightarrow> u64 \<Rightarrow> heap \<Rightarrow> (int \<times> byte list \<times> heap) option" where
  "gen_scriptcode c w scriptcode_buffer scriptcode_buffer_len h =
    (if scriptcode_buffer_len \<noteq> 106 then Some (-1, scriptcode_buffer, h)
     else do {
       (ret, script, h1) \<leftarrow> last_script w h;
       if ret \<noteq> 0 then Some (-1, scriptcode_buffer, h1)
       else do {
         (ret, acc) \<leftarrow> scriptcode_loop c script 3 0 (replicate 33 0) [0x69, 0x52] h1;
         (s, h2) \<leftarrow> free_script script h1;
         if ret \<noteq> 0 then Some (-1, scriptcode_buffer, h2)
         else do {
           let scriptcode = acc @ [0x53, 0xae];
           if length scriptcode \<noteq> 106 then Some (-1, scriptcode_buffer, h2)
           else do { b \<leftarrow> wr 0 scriptcode scriptcode_buffer; Some (0, b, h2) }
         }
       }
     })"

section \<open>The message that is signed\<close>

definition gen_preimage :: "curve_ops \<Rightarrow> byte list \<Rightarrow> spc_input list ptr \<Rightarrow> u64 \<Rightarrow> spc_output list ptr \<Rightarrow> u64 \<Rightarrow> spc_witness
    \<Rightarrow> u64 \<Rightarrow> byte list \<Rightarrow> byte list \<Rightarrow> u64 \<Rightarrow> heap \<Rightarrow> (int \<times> byte list \<times> heap) option" where
  "gen_preimage c version ins inputs_num outs outputs_num w input_no locktime buffer buffer_len h =
    (if ins = NULL \<or> inputs_num = 0 \<or> outs = NULL \<or> outputs_num = 0 \<or> inputs_num \<le> input_no \<or> buffer_len < 262
     then Some (-1, buffer, h)
     else do {
       v \<leftarrow> rd 4 version;
       (ret, prevouts, h1) \<leftarrow> gen_hashprevouts ins inputs_num (replicate 32 0) 32 h;
       if ret \<noteq> 0 then Some (-1, buffer, h1)
       else do {
         (ret, sequences, h2) \<leftarrow> gen_hashsequences ins inputs_num (replicate 32 0) 32 h1;
         if ret \<noteq> 0 then Some (-1, buffer, h2)
         else do {
           arr \<leftarrow> deref ins h2;
           st \<leftarrow> nth_ub (unat input_no) arr;
           (ret, scriptcode, h3) \<leftarrow> gen_scriptcode c w (replicate 106 0) 106 h2;
           if ret \<noteq> 0 then Some (-1, buffer, h3)
           else do {
             (ret, outputs, h4) \<leftarrow> gen_hashoutputs outs outputs_num (replicate 32 0) 32 h3;
             if ret \<noteq> 0 then Some (-1, buffer, h4)
             else do {
               lt \<leftarrow> rd 4 locktime;
               let pre_image = v @ prevouts @ sequences @ prev_tx_hash st @ prev_tx_index st @ scriptcode @
                 u64_le (wit_value w) @ sequence_no st @ outputs @ lt @ u32_le 1;
               b \<leftarrow> wr 0 pre_image buffer;
               Some (0, b, h4)
             }
           }
         }
       }
     })"

section \<open>The position of the signer\<close>

text \<open>The arrays of public keys and of path elements are one list of triples.\<close>

fun publist_loop :: "curve_ops \<Rightarrow> spc_script \<Rightarrow> nat \<Rightarrow> nat \<Rightarrow> byte list \<Rightarrow> (byte list \<times> u32 \<times> u32) list \<Rightarrow> heap
    \<Rightarrow> (int \<times> (byte list \<times> u32 \<times> u32) list) option" where
  "publist_loop c script 0 i pubkey acc h = Some (0, acc)"
| "publist_loop c script (Suc k) i pubkey acc h = do {
     (ret, path1, path2, pub) \<leftarrow> script_key c script i pubkey h;
     if ret \<noteq> 0 then Some (-1, acc)
     else publist_loop c script k (Suc i) pub (acc @ [(pub, path1, path2)]) h
   }"

definition get_publist_and_paths :: "curve_ops \<Rightarrow> spc_witness \<Rightarrow> heap \<Rightarrow> (int \<times> (byte list \<times> u32 \<times> u32) list \<times> heap) option"
  where
  "get_publist_and_paths c w h = do {
     (ret, script, h1) \<leftarrow> last_script w h;
     if ret \<noteq> 0 then Some (-1, [], h1)
     else do {
       (ret, keys) \<leftarrow> publist_loop c script 3 0 (replicate 33 0) [] h1;
       (s, h2) \<leftarrow> free_script script h1;
       if ret \<noteq> 0 then Some (-1, keys, h2) else Some (0, keys, h2)
     }
   }"

text \<open>The loop that looks for the own key: the code that ends the function, the position (3 for
  none) and the last paths.\<close>

fun find_key :: "curve_ops \<Rightarrow> buf \<Rightarrow> u32 \<Rightarrow> byte \<Rightarrow> (byte list \<times> u32 \<times> u32) list \<Rightarrow> u32 \<Rightarrow> u32
    \<Rightarrow> (int \<times> byte \<times> u32 \<times> u32) option" where
  "find_key c xpub xpub_len i [] p1 p2 = Some (0, 3, p1, p2)"
| "find_key c xpub xpub_len i ((pub, path1, path2) # keys) p1 p2 = do {
     (ret, pub_get) \<leftarrow> get_pubkey_from_xpub_base58_double_ckd c xpub xpub_len path1 path2 (replicate 33 0) 33;
     if ret = -1 then Some (-1, 3, path1, path2)
     else if pub_get = pub then Some (0, i, path1, path2)
     else find_key c xpub xpub_len (i + 1) keys path1 path2
   }"

definition get_order_and_paths :: "curve_ops \<Rightarrow> buf \<Rightarrow> u32 \<Rightarrow> spc_witness \<Rightarrow> byte \<Rightarrow> u32 \<Rightarrow> u32 \<Rightarrow> heap
    \<Rightarrow> (int \<times> byte \<times> u32 \<times> u32 \<times> heap) option" where
  "get_order_and_paths c xpub xpub_len w order path1 path2 h =
    (if xpub = None \<or> 113 < xpub_len then Some (-1, order, path1, path2, h)
     else do {
       (ret, keys, h1) \<leftarrow> get_publist_and_paths c w h;
       if ret = -1 then Some (-1, order, path1, path2, h1)
       else do {
         (ret, order_flag, p1, p2) \<leftarrow> find_key c xpub xpub_len 0 keys 0 0;
         if ret = -1 then Some (-1, order, path1, path2, h1)
         else if 2 < order_flag then Some (-1, order, path1, path2, h1)
         else Some (0, order_flag, p1, p2, h1)
       }
     })"

section \<open>The signature\<close>

definition gen_sig :: "curve_ops \<Rightarrow> hdnode \<Rightarrow> byte list \<Rightarrow> u32 \<Rightarrow> byte list \<Rightarrow> u32 \<Rightarrow> (int \<times> byte list \<times> u32) option" where
  "gen_sig c node pre_image pre_image_len sig siglen =
    (if pre_image_len = 0 then Some (-1, sig, siglen)
     else do {
       msg \<leftarrow> rd (unat pre_image_len) pre_image;
       (ret, sig_raw) \<leftarrow> hdnode_sign c node msg (replicate 65 0);
       if ret = 1 \<or> 65 < ret then Some (-1, sig, siglen)
       else do {
         (ret, sig_der) \<leftarrow> ecdsa_sig_to_der sig_raw (replicate 72 0);
         if ret = 1 \<or> 72 < ret then Some (-1, sig, siglen)
         else do {
           der \<leftarrow> rd (nat ret) sig_der;
           s1 \<leftarrow> wr 0 der sig;
           s2 \<leftarrow> upd_ub (nat ret) 1 s1;
           Some (0, s2, word_of_int (ret + 1))
         }
       }
     })"

section \<open>The signatures of a witness\<close>

fun count_long :: "nat \<Rightarrow> nat \<Rightarrow> op_item_st list ptr \<Rightarrow> heap \<Rightarrow> int \<Rightarrow> int option" where
  "count_long 0 i lst h flag = Some flag"
| "count_long (Suc k) i lst h flag = do {
     arr \<leftarrow> deref lst h;
     st \<leftarrow> nth_ub (i + 1) arr;
     count_long k (Suc i) lst h (if 1 < op_item_len st then flag + 1 else flag)
   }"

text \<open>The loop that copies three items; it stops at an allocation that fails.\<close>

fun sigs_loop :: "nat \<Rightarrow> nat \<Rightarrow> op_item_st list ptr \<Rightarrow> spc_sig list \<Rightarrow> u64 \<Rightarrow> heap \<Rightarrow> (spc_sig list \<times> u64 \<times> heap) option" where
  "sigs_loop 0 i lst arr cnt h = Some (arr, cnt, h)"
| "sigs_loop (Suc k) i lst arr cnt h = do {
     items \<leftarrow> deref lst h;
     st \<leftarrow> nth_ub (i + 1) items;
     case malloc (op_item_len st) h of
       (None, h1) \<Rightarrow> Some (arr, cnt, h1)
     | (Some p, h1) \<Rightarrow> do {
         d \<leftarrow> mem_read (op_item st) (unat (op_item_len st)) h1;
         arr' \<leftarrow> upd_ub i \<lparr>sig_len = op_item_len st, sig_ptr = Ptr p d\<rparr> arr;
         sigs_loop k (Suc i) lst arr' (cnt + 1) h1
       }
   }"

definition get_sigs_list :: "spc_witness \<Rightarrow> heap \<Rightarrow> (int \<times> spc_sigs_list \<times> heap) option" where
  "get_sigs_list w h =
    (if op_items_counter w \<noteq> 5 then Some (-1, zero_sigs_list, h)
     else do {
       check_flag \<leftarrow> count_long 3 0 (op_items_list w) h 0;
       if check_flag \<noteq> 1 then Some (-1, zero_sigs_list, h)
       else (case malloc 48 h of
           (None, h1) \<Rightarrow> Some (-1, zero_sigs_list, h1)
         | (Some p, h1) \<Rightarrow> do {
             (arr, cnt, h2) \<leftarrow> sigs_loop 3 0 (op_items_list w) (replicate 3 zero_sig) 0 h1;
             Some (if cnt \<noteq> 3 then -1 else 0, \<lparr>sigs_counter = cnt, sigs = Ptr p arr\<rparr>, h2)
           })
     })"

fun free_sigs_loop :: "nat \<Rightarrow> nat \<Rightarrow> spc_sig list ptr \<Rightarrow> heap \<Rightarrow> heap option" where
  "free_sigs_loop 0 i lst h = Some h"
| "free_sigs_loop (Suc k) i lst h = do {
     arr \<leftarrow> deref lst h;
     st \<leftarrow> nth_ub i arr;
     h1 \<leftarrow> free (sig_ptr st) h;
     free_sigs_loop k (Suc i) lst h1
   }"

definition free_sigs_list :: "spc_sigs_list \<Rightarrow> heap \<Rightarrow> heap option" where
  "free_sigs_list sl h =
    (if 3 < sigs_counter sl then Some h
     else do {
       h1 \<leftarrow> free_sigs_loop (unat (sigs_counter sl)) 0 (sigs sl) h;
       free (sigs sl) h1
     })"

text \<open>Writing through a pointer to an array.\<close>

fun store :: "'a ptr \<Rightarrow> 'a \<Rightarrow> 'a ptr" where
  "store NULL x = NULL"
| "store (Ptr b y) x = Ptr b x"

definition insert_new_sig_to_list :: "byte list \<Rightarrow> u64 \<Rightarrow> spc_sigs_list \<Rightarrow> byte \<Rightarrow> heap \<Rightarrow> (int \<times> spc_sigs_list \<times> heap) option"
  where
  "insert_new_sig_to_list new_sig new_sig_len sl order h =
    (if 72 < new_sig_len \<or> new_sig_len < 71 \<or> 2 < order then Some (-1, sl, h)
     else do {
       arr \<leftarrow> deref (sigs sl) h;
       st \<leftarrow> nth_ub (unat order) arr;
       if sig_len st \<noteq> 1 then Some (-1, sl, h)
       else (case malloc new_sig_len h of
           (None, h1) \<Rightarrow> Some (-1, sl, h1)
         | (Some p, h1) \<Rightarrow> do {
             d \<leftarrow> rd (unat new_sig_len) new_sig;
             arr' \<leftarrow> upd_ub (unat order) \<lparr>sig_len = new_sig_len, sig_ptr = Ptr p d\<rparr> arr;
             Some (0, sl\<lparr>sigs := store (sigs sl) arr'\<rparr>, h1)
           })
     })"

section \<open>The new witness\<close>

text \<open>The block of code repeated for every position: a signature of the list becomes a stack
  item, unless it is the single byte of a missing one.\<close>

datatype copied = NoSig | NoMem | Copied op_item_st

definition copy_sig :: "spc_sigs_list \<Rightarrow> nat \<Rightarrow> heap \<Rightarrow> (copied \<times> heap) option" where
  "copy_sig sl i h = do {
     arr \<leftarrow> deref (sigs sl) h;
     st \<leftarrow> nth_ub i arr;
     if sig_len st \<noteq> 1 \<and> sig_ptr st \<noteq> NULL then
       (case malloc (sig_len st) h of
          (None, h1) \<Rightarrow> Some (NoMem, h1)
        | (Some p, h1) \<Rightarrow> do {
            d \<leftarrow> mem_read (sig_ptr st) (unat (sig_len st)) h1;
            Some (Copied \<lparr>op_item_len = sig_len st, op_item = Ptr p d\<rparr>, h1)
          })
     else Some (NoSig, h)
   }"

text \<open>The first signature comes from position 0 or 1; \<^verbatim>\<open>next_sig\<close> is 1 or 2.\<close>

definition first_sig :: "spc_sigs_list \<Rightarrow> heap \<Rightarrow> (copied \<times> nat \<times> heap) option" where
  "first_sig sl h = do {
     (c0, h1) \<leftarrow> copy_sig sl 0 h;
     if c0 \<noteq> NoSig then Some (c0, 1, h1)
     else do {
       (c1, h2) \<leftarrow> copy_sig sl 1 h1;
       Some (c1, 2, h2)
     }
   }"

definition second_sig :: "spc_sigs_list \<Rightarrow> nat \<Rightarrow> heap \<Rightarrow> (copied \<times> heap) option" where
  "second_sig sl next_sig h =
    (if next_sig = 1 then do {
       (c1, h1) \<leftarrow> copy_sig sl 1 h;
       if c1 \<noteq> NoSig then Some (c1, h1) else copy_sig sl 2 h1
     }
     else copy_sig sl 2 h)"

definition gen_new_witness :: "curve_ops \<Rightarrow> byte list \<Rightarrow> u64 \<Rightarrow> byte \<Rightarrow> spc_witness \<Rightarrow> heap \<Rightarrow> (int \<times> spc_witness \<times> heap) option"
  where
  "gen_new_witness c new_sig new_sig_len order old h =
    (if 113 < new_sig_len \<or> 2 < order then Some (-1, zero_witness, h)
     else do {
       (ret, sl0, h1) \<leftarrow> get_sigs_list old h;
       if ret = -1 then do { h2 \<leftarrow> free_sigs_list sl0 h1; Some (-1, zero_witness, h2) }
       else do {
         (ret, sl, h2) \<leftarrow> insert_new_sig_to_list new_sig new_sig_len sl0 order h1;
         if ret = -1 then do { h3 \<leftarrow> free_sigs_list sl h2; Some (-1, zero_witness, h3) }
         else do {
           (ret, scriptcode_buf, h3) \<leftarrow> gen_scriptcode c old (replicate 106 0) 106 h2;
           if ret = -1 then do { h4 \<leftarrow> free_sigs_list sl h3; Some (-1, zero_witness, h4) }
           else (case malloc 64 h3 of
               (None, h4) \<Rightarrow> do { h5 \<leftarrow> free_sigs_list sl h4; Some (-1, zero_witness, h5) }
             | (Some items, h4) \<Rightarrow> do {
                 (c1, next_sig, h5) \<leftarrow> first_sig sl h4;
                 case c1 of
                   Copied sig1 \<Rightarrow> do {
                     (c2, h6) \<leftarrow> second_sig sl next_sig h5;
                     case c2 of
                       Copied sig2 \<Rightarrow> do {
                         h7 \<leftarrow> free_sigs_list sl h6;
                         case malloc 105 h7 of
                           (None, h8) \<Rightarrow> do {
                             h9 \<leftarrow> free_sigs_list sl h8;
                             h10 \<leftarrow> free (op_item sig1) h9;
                             h11 \<leftarrow> free (op_item sig2) h10;
                             h12 \<leftarrow> free_blk items h11;
                             Some (-1, zero_witness, h12)
                           }
                         | (Some q, h8) \<Rightarrow> do {
                             script_code \<leftarrow> rd 105 (drop 1 scriptcode_buf);
                             Some (0, zero_witness\<lparr>op_items_counter := 4, op_items_list := Ptr items
                               [\<lparr>op_item_len = 0, op_item = NULL\<rparr>, sig1, sig2,
                                \<lparr>op_item_len = 105, op_item = Ptr q script_code\<rparr>]\<rparr>, h8)
                           }
                       }
                     | _ \<Rightarrow> do {
                         h7 \<leftarrow> free_sigs_list sl h6;
                         h8 \<leftarrow> free (op_item sig1) h7;
                         h9 \<leftarrow> free_blk items h8;
                         Some (-1, zero_witness, h9)
                       }
                   }
                 | _ \<Rightarrow> do {
                     h6 \<leftarrow> free_sigs_list sl h5;
                     h7 \<leftarrow> free_blk items h6;
                     Some (-1, zero_witness, h7)
                   }
               })
         }
       }
     })"

section \<open>Updating the transaction\<close>

fun count_sigs :: "nat \<Rightarrow> nat \<Rightarrow> op_item_st list ptr \<Rightarrow> heap \<Rightarrow> int \<Rightarrow> int option" where
  "count_sigs 0 i lst h n = Some n"
| "count_sigs (Suc k) i lst h n = do {
     arr \<leftarrow> deref lst h;
     st \<leftarrow> nth_ub (i + 1) arr;
     count_sigs k (Suc i) lst h (if 70 < op_item_len st \<and> op_item_len st < 105 then n + 1 else n)
   }"

definition get_sigs_num_from_witness :: "spc_witness \<Rightarrow> heap \<Rightarrow> int option" where
  "get_sigs_num_from_witness w h =
    (if op_items_counter w = 5 then count_sigs 3 0 (op_items_list w) h 0
     else if op_items_counter w = 4 then count_sigs 2 0 (op_items_list w) h 0
     else Some (-1))"

definition update_tx_witness :: "spc_tx \<Rightarrow> spc_witness \<Rightarrow> u64 \<Rightarrow> heap \<Rightarrow> (int \<times> spc_tx) option" where
  "update_tx_witness tx w witness_index h =
    (if inputs_counter tx - 1 < witness_index then Some (-1, tx)
     else do {
       arr \<leftarrow> deref (witnesses_list tx) h;
       arr' \<leftarrow> upd_ub (unat witness_index) w arr;
       Some (0, tx\<lparr>witnesses_list := store (witnesses_list tx) arr'\<rparr>)
     })"

definition free_partial_witness :: "spc_witness \<Rightarrow> heap \<Rightarrow> (int \<times> heap) option" where
  "free_partial_witness w h =
    (if op_items_counter w \<noteq> 5 then Some (-1, h)
     else do { h' \<leftarrow> free_single_witness w h; Some (0, h') })"

definition update_tx_after_signed :: "spc_tx \<Rightarrow> spc_witness \<Rightarrow> u64 \<Rightarrow> heap \<Rightarrow> (int \<times> spc_tx \<times> heap) option" where
  "update_tx_after_signed tx new_witness witness_index h = do {
     arr \<leftarrow> deref (witnesses_list tx) h;
     old_witness \<leftarrow> nth_ub (unat witness_index) arr;
     sigs_num \<leftarrow> get_sigs_num_from_witness old_witness h;
     if sigs_num \<noteq> 1 then Some (-1, tx, h)
     else do {
       sigs_num \<leftarrow> get_sigs_num_from_witness new_witness h;
       if sigs_num \<noteq> 2 then Some (-1, tx, h)
       else do {
         (ret, tx') \<leftarrow> update_tx_witness tx new_witness witness_index h;
         if ret = -1 then Some (-1, tx', h)
         else do {
           (ret, h') \<leftarrow> free_partial_witness old_witness h;
           Some (if ret = -1 then -1 else 0, tx', h')
         }
       }
     }
   }"

section \<open>Signing\<close>

definition sign_single_input :: "curve_ops \<Rightarrow> buf \<Rightarrow> u32 \<Rightarrow> buf \<Rightarrow> u32 \<Rightarrow> spc_tx \<Rightarrow> u64 \<Rightarrow> heap \<Rightarrow> (int \<times> spc_tx \<times> heap) option"
  where
  "sign_single_input c xpub xpub_len xprv xprv_len tx witness_index h =
    (if xpub = None \<or> 113 < xpub_len \<or> xprv = None \<or> 113 < xprv_len then Some (-1, tx, h)
     else if inputs_counter tx - 1 < witness_index then Some (-1, tx, h)
     else do {
       arr \<leftarrow> deref (witnesses_list tx) h;
       w \<leftarrow> nth_ub (unat witness_index) arr;
       (ret, order, path1, path2, h1) \<leftarrow> get_order_and_paths c xpub xpub_len w 3 0 0 h;
       if ret = -1 then Some (-1, tx, h1)
       else do {
         (ret, pre_image, h2) \<leftarrow> gen_preimage c (u32_le (nversion tx)) (inputs_list tx) (inputs_counter tx)
            (outputs_list tx) (outputs_counter tx) w witness_index (u32_le (lock_time tx)) (replicate 262 0) 262 h1;
         if ret = -1 then Some (-1, tx, h2)
         else do {
           (ret, node) \<leftarrow> get_node_from_xprv_double_ckd c xprv xprv_len path1 path2 zero_hdnode;
           if ret = -1 then Some (-1, tx, h2)
           else do {
             (ret, sig_buffer, siglen) \<leftarrow> gen_sig c node pre_image 262 (replicate 73 0) 0;
             if ret = -1 then Some (-1, tx, h2)
             else if siglen < 70 then Some (-1, tx, h2)
             else do {
               (ret, new_witness, h3) \<leftarrow> gen_new_witness c sig_buffer (ucast siglen) order w h2;
               if ret = -1 then Some (-1, tx, h3)
               else do {
                 (ret, tx', h4) \<leftarrow> update_tx_after_signed tx new_witness witness_index h3;
                 Some (if ret = -1 then -1 else 0, tx', h4)
               }
             }
           }
         }
       }
     })"

fun sign_loop :: "curve_ops \<Rightarrow> buf \<Rightarrow> u32 \<Rightarrow> buf \<Rightarrow> u32 \<Rightarrow> nat \<Rightarrow> nat \<Rightarrow> spc_tx \<Rightarrow> heap \<Rightarrow> (int \<times> spc_tx \<times> heap) option" where
  "sign_loop c xpub xpub_len xprv xprv_len 0 i tx h = Some (0, tx, h)"
| "sign_loop c xpub xpub_len xprv xprv_len (Suc k) i tx h = do {
     (ret, tx', h') \<leftarrow> sign_single_input c xpub xpub_len xprv xprv_len tx (word_of_nat i) h;
     if ret = -1 then Some (-1, tx', h')
     else sign_loop c xpub xpub_len xprv xprv_len k (Suc i) tx' h'
   }"

definition sign_tx :: "curve_ops \<Rightarrow> buf \<Rightarrow> u32 \<Rightarrow> buf \<Rightarrow> u32 \<Rightarrow> spc_tx \<Rightarrow> heap \<Rightarrow> (int \<times> spc_tx \<times> heap) option" where
  "sign_tx c xpub xpub_len xprv xprv_len tx h =
    (if xpub = None \<or> 113 < xpub_len \<or> xprv = None \<or> 113 < xprv_len then Some (-1, tx, h)
     else sign_loop c xpub xpub_len xprv xprv_len (unat (inputs_counter tx)) 0 tx h)"

end
