(* ===== verification/Server.thy ===== *)
theory Server
  imports Key_Gen Moscp Sign Serialize Deserialize
begin

text \<open>
  The server of the node: the handlers of its three commands (\<^verbatim>\<open>spcserverops_s.c\<close>,
  \<^verbatim>\<open>spctxops_s.c\<close>) and one turn of the loop of \<^verbatim>\<open>server.c\<close>, which accepts a connection, reads a
  command and runs its handler.
\<close>

section \<open>New key stores and key pairs\<close>

definition s_do_gen_new_keystore :: "int \<Rightarrow> u32 \<Rightarrow> os \<Rightarrow> conn \<Rightarrow> (int \<times> os \<times> conn) option" where
  "s_do_gen_new_keystore sfd uid s c =
    (if sfd < 0 then Some (-1, s, c)
     else do {
       (ret, s1) \<leftarrow> gen_new_keystore uid s;
       (e, c1) \<leftarrow> (if ret = -1 then spc_send_error_to_sock sfd c else Some (0, c));
       (ret, c2) \<leftarrow> spc_send_cmd_to_sock sfd (zero_cmd\<lparr>m_cmd := 0x12, m_id := uid\<rparr>) c1;
       Some (if ret = -1 then -1 else 0, s1, c2)
     })"

text \<open>Reporting an error and giving up.\<close>

definition give_up :: "int \<Rightarrow> os \<Rightarrow> conn \<Rightarrow> (int \<times> os \<times> conn) option"
  where "give_up sfd s c = do { (e, c') \<leftarrow> spc_send_error_to_sock sfd c; Some (-1, s, c') }"

definition s_do_gen_new_keypair :: "keygen_ops \<Rightarrow> buf \<Rightarrow> int \<Rightarrow> u32 \<Rightarrow> os \<Rightarrow> conn \<Rightarrow> (int \<times> os \<times> conn) option" where
  "s_do_gen_new_keypair g mnemonic sfd uid s c =
    (if sfd < 0 then Some (-1, s, c)
     else do {
       (ret, xpub, xprv) \<leftarrow> create_single_key_pair g mnemonic (replicate 113 0) 113 (replicate 113 0) 113;
       (e, c1) \<leftarrow> (if ret = -1 then spc_send_error_to_sock sfd c else Some (0, c));
       let keypair = \<lparr>kp_xpub = xpub, kp_xprv = xprv\<rparr>;
       (ret, index, s1) \<leftarrow> save_key_pair uid keypair 0 s;
       if ret = -1 then give_up sfd s1 c1
       else do {
         (ret, c2) \<leftarrow> spc_send_cmd_to_sock sfd
           (zero_cmd\<lparr>m_cmd := 0x22, m_id := uid, m_index := index, m_data_len := 113\<rparr>) c1;
         if ret = -1 then give_up sfd s1 c2
         else do {
           (ret, c3) \<leftarrow> spc_send_data_to_sock sfd (Some (kp_xpub keypair)) 113 c2;
           if ret = -1 then give_up sfd s1 c3 else Some (0, s1, c3)
         }
       }
     })"

section \<open>Signing a transaction\<close>

definition os_heap :: "os \<Rightarrow> (heap \<Rightarrow> (int \<times> 'a \<times> heap) option) \<Rightarrow> (int \<times> 'a \<times> os) option"
  where "os_heap s f = do { (r, x, h) \<leftarrow> f (hp s); Some (r, x, s\<lparr>hp := h\<rparr>) }"

definition os_free_tx :: "spc_tx \<Rightarrow> os \<Rightarrow> os option"
  where "os_free_tx tx s = do { h \<leftarrow> free_tx tx (hp s); Some (s\<lparr>hp := h\<rparr>) }"

text \<open>The end of \<^verbatim>\<open>s_do_sign_tx\<close>: the signed transaction is written and sent.\<close>

definition sign_tx_reply :: "int \<Rightarrow> u32 \<Rightarrow> u16 \<Rightarrow> spc_tx \<Rightarrow> os \<Rightarrow> conn \<Rightarrow> (int \<times> os \<times> conn) option" where
  "sign_tx_reply sfd uid index tx s c = do {
     (ret, res_len) \<leftarrow> get_tx_hex_len tx 0 (hp s);
     if ret = -1 \<or> res_len = 0 then do { (e, c1) \<leftarrow> spc_send_error_to_sock sfd c; s1 \<leftarrow> os_free_tx tx s; Some (-1, s1, c1) }
     else (case os_malloc (ucast (ucast res_len :: u32)) s of
         (None, s1) \<Rightarrow> do { (e, c1) \<leftarrow> spc_send_error_to_sock sfd c; s2 \<leftarrow> os_free_tx tx s1; Some (-1, s2, c1) }
       | (Some q, s1) \<Rightarrow>
           if unat res_len \<noteq> unat (ucast res_len :: u32) then None
           else do {
             (ret, res_data, res_len, h) \<leftarrow> serialize_tx tx (Some (replicate (unat res_len) 0)) res_len (hp s1);
             let s2 = s1\<lparr>hp := h\<rparr>;
             if ret = -1 then do {
               (e, c1) \<leftarrow> spc_send_error_to_sock sfd c;
               s3 \<leftarrow> os_free q s2;
               s4 \<leftarrow> os_free_tx tx s3;
               Some (-1, s4, c1)
             }
             else do {
               s3 \<leftarrow> os_free_tx tx s2;
               (ret, c1) \<leftarrow> spc_send_cmd_to_sock sfd
                 (zero_cmd\<lparr>m_cmd := 0x52, m_id := uid, m_index := index, m_data_len := res_len\<rparr>) c;
               if ret = -1 then do { (r, s3, c2) \<leftarrow> give_up sfd s3 c1; s4 \<leftarrow> os_free q s3; Some (r, s4, c2) }
               else do {
                 (ret, c2) \<leftarrow> spc_send_data_to_sock sfd res_data res_len c1;
                 if ret = -1 then do { (r, s3, c3) \<leftarrow> give_up sfd s3 c2; s4 \<leftarrow> os_free q s3; Some (r, s4, c3) }
                 else do { s4 \<leftarrow> os_free q s3; Some (0, s4, c2) }
               }
             }
           })
   }"

text \<open>The middle part: from the block for the data on.  \<^verbatim>\<open>memset(tx_data, 0, data_len)\<close> fills the
  block.\<close>

definition sign_tx_data :: "curve_ops \<Rightarrow> int \<Rightarrow> u32 \<Rightarrow> u16 \<Rightarrow> spc_key_pair \<Rightarrow> u64 \<Rightarrow> nat \<Rightarrow> os \<Rightarrow> conn \<Rightarrow> (int \<times> os \<times> conn) option" where
  "sign_tx_data cv sfd uid index keypair data_len p s c = do {
     (ret, tx_data, c1) \<leftarrow> spc_recv_data_from_sock sfd (Some (replicate (unat data_len) 0)) data_len c;
     if ret = -1 then do { (r, s, c2) \<leftarrow> give_up sfd s c1; s1 \<leftarrow> os_free p s; Some (r, s1, c2) }
     else do {
       (ret, c2) \<leftarrow> spc_send_cmd_to_sock sfd
         (zero_cmd\<lparr>m_cmd := 0x42, m_id := uid, m_index := index, m_data_len := data_len\<rparr>) c1;
       if ret = -1 then do { (r, s, c3) \<leftarrow> give_up sfd s c2; s1 \<leftarrow> os_free p s; Some (r, s1, c3) }
       else do {
         (ret, cmd, c3) \<leftarrow> spc_recv_cmd_from_sock sfd zero_cmd c2;
         if ret = -1 then do { (r, s, c4) \<leftarrow> give_up sfd s c3; s1 \<leftarrow> os_free p s; Some (r, s1, c4) }
         else if m_cmd cmd \<noteq> 0x51 \<or> m_id cmd \<noteq> uid \<or> m_index cmd \<noteq> index
         then do { (r, s, c4) \<leftarrow> give_up sfd s c3; s1 \<leftarrow> os_free p s; Some (r, s1, c4) }
         else do {
           (ret, tx, s1) \<leftarrow> os_heap s (init_tx tx_data data_len zero_tx);
           if ret = -1 then do { (r, s, c4) \<leftarrow> give_up sfd s1 c3; s2 \<leftarrow> os_free p s; Some (r, s2, c4) }
           else do {
             s2 \<leftarrow> os_free p s1;
             (ret, tx, s3) \<leftarrow> os_heap s2 (sign_tx cv (Some (kp_xpub keypair)) 113 (Some (kp_xprv keypair)) 113 tx);
             if ret = -1 then do { (r, s, c4) \<leftarrow> give_up sfd s3 c3; s4 \<leftarrow> os_free_tx tx s; Some (r, s4, c4) }
             else sign_tx_reply sfd uid index tx s3 c3
           }
         }
       }
     }
   }"

definition s_do_sign_tx :: "curve_ops \<Rightarrow> int \<Rightarrow> u32 \<Rightarrow> u16 \<Rightarrow> os \<Rightarrow> conn \<Rightarrow> (int \<times> os \<times> conn) option" where
  "s_do_sign_tx cv sfd uid index s c =
    (if sfd < 0 then Some (-1, s, c)
     else do {
       (ret, keypair, s1) \<leftarrow> get_key_pair uid index \<lparr>kp_xpub = replicate 113 0, kp_xprv = replicate 113 0\<rparr> s;
       if ret = -1 then give_up sfd s1 c
       else do {
         (ret, c1) \<leftarrow> spc_send_cmd_to_sock sfd (zero_cmd\<lparr>m_cmd := 0x32, m_id := uid, m_index := index\<rparr>) c;
         if ret = -1 then give_up sfd s1 c1
         else do {
           (ret, cmd, c2) \<leftarrow> spc_recv_cmd_from_sock sfd zero_cmd c1;
           if ret = -1 then give_up sfd s1 c2
           else if m_cmd cmd \<noteq> 0x41 \<or> m_id cmd \<noteq> uid \<or> m_index cmd \<noteq> index then give_up sfd s1 c2
           else let data_len = m_data_len cmd in
             if data_len = 0 then give_up sfd s1 c2
             else if 102400 < data_len then give_up sfd s1 c2
             else (case os_malloc (ucast (ucast data_len :: u32)) s1 of
                 (None, s2) \<Rightarrow> give_up sfd s2 c2
               | (Some p, s2) \<Rightarrow> sign_tx_data cv sfd uid index keypair data_len p s2 c2)
         }
       }
     })"

section \<open>One turn of the server\<close>

text \<open>The handlers get the socket even when \<^verbatim>\<open>accept\<close> failed; their results are not used.  The
  command received last stays in its variable when reading fails.\<close>

definition server_turn :: "keygen_ops \<Rightarrow> curve_ops \<Rightarrow> buf \<Rightarrow> int \<Rightarrow> conn \<Rightarrow> moscp_cmd \<Rightarrow> os \<Rightarrow> (moscp_cmd \<times> os \<times> conn) option" where
  "server_turn g cv mnemonic connfd c recv_cmd s = do {
     (ret, recv_cmd, c1) \<leftarrow> spc_recv_cmd_from_sock connfd recv_cmd c;
     if ret = -1 then Some (recv_cmd, s, c1)
     else if m_cmd recv_cmd = 0x11 then do {
       (r, s1, c2) \<leftarrow> s_do_gen_new_keystore connfd (m_id recv_cmd) s c1;
       Some (recv_cmd, s1, c2)
     }
     else if m_cmd recv_cmd = 0x21 then do {
       (r, s1, c2) \<leftarrow> s_do_gen_new_keypair g mnemonic connfd (m_id recv_cmd) s c1;
       Some (recv_cmd, s1, c2)
     }
     else if m_cmd recv_cmd = 0x31 then do {
       (r, s1, c2) \<leftarrow> s_do_sign_tx cv connfd (m_id recv_cmd) (m_index recv_cmd) s c1;
       Some (recv_cmd, s1, c2)
     }
     else Some (recv_cmd, s, c1)
   }"

text \<open>The loop, over the connections that clients make; each comes with the random words drawn for it.\<close>

fun server_turns :: "keygen_ops \<Rightarrow> curve_ops \<Rightarrow> (int \<times> buf \<times> conn) list \<Rightarrow> moscp_cmd \<Rightarrow> os \<Rightarrow> (os \<times> conn list) option" where
  "server_turns g cv [] recv_cmd s = Some (s, [])"
| "server_turns g cv ((connfd, mnemonic, c) # cs) recv_cmd s = do {
     (recv_cmd', s1, c1) \<leftarrow> server_turn g cv mnemonic connfd c recv_cmd s;
     (s2, cs') \<leftarrow> server_turns g cv cs recv_cmd' s1;
     Some (s2, c1 # cs')
   }"

end
