(* ===== verification/Moscp_Correct.thy ===== *)
theory Moscp_Correct
  imports Moscp Serialize_Correct
begin

text \<open>Messages arrive as they were sent, however the transfers are cut; which calls return.\<close>

section \<open>Commands as bytes\<close>

lemma length_cmd_bytes [simp]: "length (cmd_bytes m) = 16"
  by (simp add: cmd_bytes_def)

lemma cmd_of_bytes [simp]: "cmd_of (cmd_bytes m) = m"
proof -
  let ?a = "u32_le (m_id m)" and ?b = "u16_le (m_index m)" and ?c = "u64_le (m_data_len m)"
  have "take 4 (drop 1 (cmd_bytes m)) = ?a" "take 2 (drop 5 (cmd_bytes m)) = ?b" "take 8 (drop 7 (cmd_bytes m)) = ?c"
    "cmd_bytes m ! 0 = m_cmd m" "cmd_bytes m ! 15 = m_ret m"
    by (simp_all add: cmd_bytes_def nth_append)
  then show ?thesis by (simp add: cmd_of_def wire_simps)
qed

section \<open>Sending\<close>

definition wr_ok :: "conn \<Rightarrow> bool"
  where "wr_ok c \<longleftrightarrow> (\<forall>n. wr_max c n \<noteq> None)"

definition rd_ok :: "conn \<Rightarrow> bool"
  where "rd_ok c \<longleftrightarrow> (\<forall>n. rd_max c n \<noteq> None)"

declare send_loop.simps [simp del]

lemma sock_write_ok:
  assumes "wr_ok c" "d \<noteq> []"
  obtains m where "sock_write d c = (Some m, c\<lparr>outq := outq c @ take m d, wr_calls := Suc (wr_calls c)\<rparr>)" "0 < m" "m \<le> length d"
proof -
  obtain k where k: "wr_max c (wr_calls c) = Some k" using assms(1) by (auto simp: wr_ok_def)
  have "0 < length d" using assms(2) by simp
  then show ?thesis using k by (intro that [of "min (max 1 k) (length d)"]) (auto simp: sock_write_def Let_def)
qed

lemma send_loop_ok:
  "\<lbrakk>wr_ok c; length pre = got\<rbrakk> \<Longrightarrow> \<exists>k. send_loop (int (length d)) got (pre @ d @ r) c =
     Some (0, got + length d, c\<lparr>outq := outq c @ d, wr_calls := k\<rparr>)"
proof (induction "length d" arbitrary: d pre got c rule: less_induct)
  case less
  show ?case
  proof (cases "d = []")
    case True
    then show ?thesis by (intro exI [of _ "wr_calls c"]) (simp add: send_loop.simps)
  next
    case False
    obtain m where m: "sock_write d c = (Some m, c\<lparr>outq := outq c @ take m d, wr_calls := Suc (wr_calls c)\<rparr>)" "0 < m" "m \<le> length d"
      using sock_write_ok [OF less.prems(1) False] by blast
    let ?c = "c\<lparr>outq := outq c @ take m d, wr_calls := Suc (wr_calls c)\<rparr>"
    have "length (drop m d) < length d" "wr_ok ?c" "length (pre @ take m d) = got + m"
      using m less.prems by (simp_all add: wr_ok_def)
    from less.hyps [OF this] obtain k where k: "send_loop (int (length (drop m d))) (got + m) ((pre @ take m d) @ drop m d @ r) ?c =
        Some (0, got + m + length (drop m d), ?c\<lparr>outq := outq ?c @ drop m d, wr_calls := k\<rparr>)" by blast
    have b: "(pre @ take m d) @ drop m d @ r = pre @ d @ r" by (metis append.assoc append_take_drop_id)
    have "rd (length d) (drop got (pre @ d @ r)) = Some d" using less.prems(2) by (simp add: rd_app)
    then have "send_loop (int (length d)) got (pre @ d @ r) c = send_loop (int (length (drop m d))) (got + m) (pre @ d @ r) ?c"
      using False m by (subst send_loop.simps) (simp add: of_nat_diff)
    then show ?thesis using k [unfolded b] m(3) by auto
  qed
qed

lemma send_cmd_ok:
  "\<lbrakk>wr_ok c; 0 \<le> sfd\<rbrakk> \<Longrightarrow> \<exists>k. spc_send_cmd_to_sock sfd m c = Some (0, c\<lparr>outq := outq c @ cmd_bytes m, wr_calls := k\<rparr>)"
  using send_loop_ok [of c "[]" 0 "cmd_bytes m" "[]"] by (auto simp: spc_send_cmd_to_sock_def)

lemma send_error_ok:
  "\<lbrakk>wr_ok c; 0 \<le> sfd\<rbrakk> \<Longrightarrow> \<exists>k. spc_send_error_to_sock sfd c =
     Some (0, c\<lparr>outq := outq c @ cmd_bytes (zero_cmd\<lparr>m_cmd := 0xee\<rparr>), wr_calls := k\<rparr>)"
  using send_loop_ok [of c "[]" 0 "cmd_bytes (zero_cmd\<lparr>m_cmd := 0xee\<rparr>)" "[]"] by (auto simp: spc_send_error_to_sock_def)

lemma int_of_len64: "length d < 2 ^ 31 \<Longrightarrow> int_of_u64 (word_of_nat (length d)) = int (length d)"
  by (subst int_of_u64_small) (simp_all add: unat_of_nat_u64)

lemma send_data_ok:
  assumes "wr_ok c" "0 \<le> sfd" "d \<noteq> []" "length d < 2 ^ 31"
  shows "\<exists>k. spc_send_data_to_sock sfd (Some (d @ r)) (word_of_nat (length d)) c =
    Some (0, c\<lparr>outq := outq c @ d, wr_calls := k\<rparr>)"
proof -
  have "(word_of_nat (length d) :: u64) \<noteq> 0" using assms(3,4) by (intro len64_ne_0) auto
  then show ?thesis
    using send_loop_ok [OF assms(1), of "[]" 0 d r] assms(2) int_of_len64 [OF assms(4)] by (auto simp: spc_send_data_to_sock_def)
qed

section \<open>Receiving\<close>

lemma sock_read_ok:
  assumes "rd_ok c" "0 < n"
  obtains m where "sock_read n c = (Some (take m (inq c)), c\<lparr>inq := drop m (inq c), rd_calls := Suc (rd_calls c)\<rparr>)" "0 < m" "m \<le> n"
proof -
  obtain k where k: "rd_max c (rd_calls c) = Some k" using assms(1) by (auto simp: rd_ok_def)
  then show ?thesis using assms(2) by (intro that [of "min (max 1 k) n"]) (auto simp: sock_read_def Let_def)
qed

lemma recv_loop_ok:
  "\<lbrakk>rd_ok c; length pre = got; n \<le> length (inq c); n \<le> length r\<rbrakk> \<Longrightarrow> \<exists>k. recv_loop (int n) got (pre @ r) c =
     Some (0, got + n, pre @ take n (inq c) @ drop n r, c\<lparr>inq := drop n (inq c), rd_calls := k\<rparr>)"
proof (induction n arbitrary: pre got r c rule: less_induct)
  case (less n)
  show ?case
  proof (cases "n = 0")
    case True
    then show ?thesis by (intro exI [of _ "rd_calls c"]) (simp add: recv_loop.simps)
  next
    case False
    obtain m where m: "sock_read n c = (Some (take m (inq c)), c\<lparr>inq := drop m (inq c), rd_calls := Suc (rd_calls c)\<rparr>)" "0 < m" "m \<le> n"
      using sock_read_ok [OF less.prems(1)] False by blast
    let ?c = "c\<lparr>inq := drop m (inq c), rd_calls := Suc (rd_calls c)\<rparr>" and ?d = "take m (inq c)"
    have d: "length ?d = m" using m less.prems(3) by simp
    have "n - m < n" "rd_ok ?c" "length (pre @ ?d) = got + m" "n - m \<le> length (inq ?c)" "n - m \<le> length (drop m r)"
      using m less.prems d by (simp_all add: rd_ok_def)
    from less.IH [OF this] obtain k where k: "recv_loop (int (n - m)) (got + m) ((pre @ ?d) @ drop m r) ?c =
        Some (0, got + m + (n - m), (pre @ ?d) @ take (n - m) (inq ?c) @ drop (n - m) (drop m r),
          ?c\<lparr>inq := drop (n - m) (inq ?c), rd_calls := k\<rparr>)" by blast
    have "wr got ?d (pre @ r) = Some (pre @ ?d @ drop m r)"
      using less.prems(2,4) m(3) d by (simp add: wr_app del: length_take)
    then have "recv_loop (int n) got (pre @ r) c = recv_loop (int (n - m)) (got + m) ((pre @ ?d) @ drop m r) ?c"
      using False m d by (subst recv_loop.simps) (simp add: of_nat_diff del: length_take)
    moreover have "take m (inq c) @ take (n - m) (drop m (inq c)) = take n (inq c)"
      using m(3) by (metis le_add_diff_inverse take_add)
    ultimately show ?thesis using k m(3) by (intro exI [of _ k]) simp
  qed
qed

text \<open>With fewer bytes the loop does not end.\<close>

lemma recv_loop_stuck_aux:
  assumes "recv_loop todo got buffer c = Some res"
  shows "\<not> (rd_ok c \<and> int (length (inq c)) < todo)"
proof (rule recv_loop.raw_induct [where P = "\<lambda>todo got buffer c res. \<not> (rd_ok c \<and> int (length (inq c)) < todo)", OF _ assms])
  fix rec :: "int \<Rightarrow> nat \<Rightarrow> byte list \<Rightarrow> conn \<Rightarrow> (int \<times> nat \<times> byte list \<times> conn) option" and todo got buffer c res
  assume IH: "\<And>todo got buffer c res. rec todo got buffer c = Some res \<Longrightarrow> \<not> (rd_ok c \<and> int (length (inq c)) < todo)"
    and body: "(if todo \<le> 0 then Some (0, got, buffer, c)
      else (case sock_read (nat todo) c of (None, c') \<Rightarrow> Some (- 1, got, buffer, c')
        | (Some d, c') \<Rightarrow> wr got d buffer \<bind> (\<lambda>buffer'. rec (todo - int (length d)) (got + length d) buffer' c'))) = Some res"
  show "\<not> (rd_ok c \<and> int (length (inq c)) < todo)"
  proof
    assume s: "rd_ok c \<and> int (length (inq c)) < todo"
    then have t: "0 < todo" by linarith
    then obtain m where m: "sock_read (nat todo) c =
        (Some (take m (inq c)), c\<lparr>inq := drop m (inq c), rd_calls := Suc (rd_calls c)\<rparr>)"
      using sock_read_ok [of c "nat todo"] s by (metis zero_less_nat_eq)
    let ?c = "c\<lparr>inq := drop m (inq c), rd_calls := Suc (rd_calls c)\<rparr>"
    have "rd_ok ?c \<and> int (length (inq ?c)) < todo - int (length (take m (inq c)))"
      using s by (auto simp: rd_ok_def min_def)
    moreover obtain b where "rec (todo - int (length (take m (inq c)))) (got + length (take m (inq c))) b ?c = Some res"
      using body t m by (auto split: bind_splits)
    ultimately show False using IH by blast
  qed
qed

lemma recv_loop_stuck: "\<lbrakk>rd_ok c; length (inq c) < n\<rbrakk> \<Longrightarrow> recv_loop (int n) got buffer c = None"
  using recv_loop_stuck_aux [of "int n" got buffer c] by (cases "recv_loop (int n) got buffer c") auto

lemma recv_cmd_ok:
  assumes "rd_ok c" "0 \<le> sfd" "inq c = cmd_bytes m @ rest"
  shows "\<exists>k. spc_recv_cmd_from_sock sfd m0 c = Some (0, m, c\<lparr>inq := rest, rd_calls := k\<rparr>)"
  using recv_loop_ok [OF assms(1), of "[]" 0 16 "cmd_bytes zero_cmd"] assms(2,3)
  by (auto simp: spc_recv_cmd_from_sock_def)

lemma recv_data_ok:
  assumes "rd_ok c" "0 \<le> sfd" "inq c = d @ rest" "length b = length d" "d \<noteq> []" "length d < 2 ^ 31"
  shows "\<exists>k. spc_recv_data_from_sock sfd (Some b) (word_of_nat (length d)) c = Some (0, Some d, c\<lparr>inq := rest, rd_calls := k\<rparr>)"
proof -
  have "(word_of_nat (length d) :: u64) \<noteq> 0" using assms(5,6) by (intro len64_ne_0) auto
  then show ?thesis
    using recv_loop_ok [OF assms(1), of "[]" 0 "length d" b] assms(2-4) int_of_len64 [OF assms(6)]
    by (auto simp: spc_recv_data_from_sock_def)
qed

section \<open>Properties\<close>

definition demo_conn :: "byte list \<Rightarrow> conn" where
  "demo_conn b = \<lparr>inq = b, rd_calls = 0, rd_max = \<lambda>n. Some (n mod 3), outq = [], wr_calls = 0, wr_max = \<lambda>n. Some (n mod 5)\<rparr>"

lemma demo_conn_ok: "wr_ok (demo_conn b)" "rd_ok (demo_conn b)" "inq (demo_conn b) = b" "outq (demo_conn b) = []"
  by (simp_all add: demo_conn_def wr_ok_def rd_ok_def)

text \<open>C31: A command arrives as it was sent: however the system cuts the transfers on both sides into
  pieces, the 16 bytes that sending adds to the stream are read back as the same command, and
  the bytes behind them stay for the next call.\<close>

theorem command_arrives:
  assumes "wr_ok c" "rd_ok d" "0 \<le> sfd" "0 \<le> sfd'"
  shows "\<exists>c' b. spc_send_cmd_to_sock sfd m c = Some (0, c') \<and> outq c' = outq c @ b \<and> length b = 16 \<and>
    (\<forall>rest. inq d = b @ rest \<longrightarrow> (\<exists>d'. spc_recv_cmd_from_sock sfd' m0 d = Some (0, m, d') \<and> inq d' = rest))"
proof -
  obtain k where "spc_send_cmd_to_sock sfd m c = Some (0, c\<lparr>outq := outq c @ cmd_bytes m, wr_calls := k\<rparr>)"
    using send_cmd_ok [OF assms(1,3)] by blast
  moreover have "\<exists>d'. spc_recv_cmd_from_sock sfd' m0 d = Some (0, m, d') \<and> inq d' = rest" if "inq d = cmd_bytes m @ rest" for rest
    using recv_cmd_ok [OF assms(2,4) that, of m0] by auto
  ultimately show ?thesis by (intro exI [of _ "c\<lparr>outq := outq c @ cmd_bytes m, wr_calls := k\<rparr>"] exI [of _ "cmd_bytes m"]) simp
qed

lemma command_arrives_witness:
  "\<exists>c' b. spc_send_cmd_to_sock 3 (zero_cmd\<lparr>m_cmd := 0x11, m_id := 9\<rparr>) (demo_conn []) = Some (0, c') \<and> outq c' = b \<and> length b = 16"
  using command_arrives [OF demo_conn_ok(1) [of "[]"] demo_conn_ok(2) [of "[]"], where sfd = 3 and sfd' = 3
      and m = "zero_cmd\<lparr>m_cmd := 0x11, m_id := 9\<rparr>"]
  by (auto simp: demo_conn_ok)

text \<open>Receiving a command returns exactly when the peer sends all of its 16 bytes.  If the peer
  closes the connection before, every further \<^verbatim>\<open>read\<close> gives 0 bytes and the loop repeats for ever: a
  client that connects and closes stops the server, which has one thread.\<close>

theorem recv_cmd_returns:
  assumes "rd_ok c" "0 \<le> sfd"
  shows "(\<exists>r. spc_recv_cmd_from_sock sfd m c = Some r) = (16 \<le> length (inq c))"
proof (cases "16 \<le> length (inq c)")
  case True
  then show ?thesis
    using recv_loop_ok [OF assms(1), of "[]" 0 16 "cmd_bytes zero_cmd"] assms(2) by (auto simp: spc_recv_cmd_from_sock_def)
next
  case False
  then show ?thesis
    using recv_loop_stuck [OF assms(1), of 16 0 "cmd_bytes zero_cmd"] assms(2) by (simp add: spc_recv_cmd_from_sock_def)
qed

lemma recv_cmd_returns_witness:
  "spc_recv_cmd_from_sock 3 zero_cmd (demo_conn []) = None \<and> (\<exists>r. spc_recv_cmd_from_sock 3 zero_cmd (demo_conn (replicate 20 1)) = Some r)"
  using recv_cmd_returns [OF demo_conn_ok(2), of 3 zero_cmd "[]"]
    recv_cmd_returns [OF demo_conn_ok(2), of 3 zero_cmd "replicate 20 1"]
  by (cases "spc_recv_cmd_from_sock 3 zero_cmd (demo_conn [])") (auto simp: demo_conn_ok)

lemma sock_write_any:
  assumes "d \<noteq> []"
  obtains "sock_write d c = (None, c\<lparr>wr_calls := Suc (wr_calls c)\<rparr>)"
  | m where "sock_write d c = (Some m, c\<lparr>outq := outq c @ take m d, wr_calls := Suc (wr_calls c)\<rparr>)" "0 < m" "m \<le> length d"
proof (cases "wr_max c (wr_calls c)")
  case (Some k)
  have "0 < length d" using assms by simp
  then show ?thesis using Some by (intro that(2) [of "min (max 1 k) (length d)"]) (auto simp: sock_write_def Let_def)
qed (use that(1) in \<open>simp add: sock_write_def Let_def\<close>)

lemma send_loop_any:
  "length pre = got \<Longrightarrow> \<exists>m c'. send_loop (int (length d)) got (pre @ d) c = Some (if m = length d then 0 else -1, got + m, c') \<and>
     m \<le> length d \<and> outq c' = outq c @ take m d"
proof (induction "length d" arbitrary: d pre got c rule: less_induct)
  case less
  show ?case
  proof (cases "d = []")
    case True
    then show ?thesis by (simp add: send_loop.simps)
  next
    case False
    have r: "rd (length d) (drop got (pre @ d)) = Some d" using less.prems by (simp add: rd_def)
    show ?thesis
    proof (rule sock_write_any [OF False, of c])
      assume "sock_write d c = (None, c\<lparr>wr_calls := Suc (wr_calls c)\<rparr>)"
      then have "send_loop (int (length d)) got (pre @ d) c = Some (-1, got, c\<lparr>wr_calls := Suc (wr_calls c)\<rparr>)"
        using False r by (subst send_loop.simps) simp
      then show ?thesis using False by (intro exI [of _ 0]) simp
    next
      fix m
      let ?c = "c\<lparr>outq := outq c @ take m d, wr_calls := Suc (wr_calls c)\<rparr>"
      assume w: "sock_write d c = (Some m, ?c)" "0 < m" "m \<le> length d"
      then have "length (drop m d) < length d" "length (pre @ take m d) = got + m" using less.prems by simp_all
      from less.hyps [OF this, of ?c] obtain n c' where n: "send_loop (int (length (drop m d))) (got + m) ((pre @ take m d) @ drop m d) ?c =
          Some (if n = length (drop m d) then 0 else -1, got + m + n, c')" "n \<le> length (drop m d)" "outq c' = outq ?c @ take n (drop m d)"
        by blast
      have "(pre @ take m d) @ drop m d = pre @ d" by simp
      then have "send_loop (int (length d)) got (pre @ d) c = Some (if n = length (drop m d) then 0 else -1, got + m + n, c')"
        using False r w n(1) by (subst send_loop.simps) (simp add: of_nat_diff)
      then show ?thesis using n w(3) by (intro exI [of _ "m + n"]) (auto simp: take_add)
    qed
  qed
qed

text \<open>C32: Sending always comes to an end, with at most the bytes asked for: whatever the writes do, the
  call returns, and the stream has been extended by a prefix of the 16 bytes of the command, by all
  of them when it returns 0.\<close>

theorem send_cmd_terminates:
  assumes "0 \<le> sfd"
  shows "\<exists>r c' n. spc_send_cmd_to_sock sfd m c = Some (r, c') \<and> outq c' = outq c @ take n (cmd_bytes m) \<and>
    n \<le> 16 \<and> (r = 0 \<longleftrightarrow> n = 16)"
  using send_loop_any [of "[]" 0 "cmd_bytes m" c] assms by (auto simp: spc_send_cmd_to_sock_def)

lemma send_cmd_terminates_witness:
  "\<exists>r c'. spc_send_cmd_to_sock 3 zero_cmd ((demo_conn [])\<lparr>wr_max := \<lambda>n. if n = 1 then None else Some 5\<rparr>) = Some (r, c')"
  using send_cmd_terminates [of 3 zero_cmd "(demo_conn [])\<lparr>wr_max := \<lambda>n. if n = 1 then None else Some 5\<rparr>"] by auto

end
