(* ===== verification/Bip143.thy ===== *)
theory Bip143
imports Sign Key_Correct Script_Correct
begin

text \<open>
  The message that is signed for an input: the hashes over all inputs and outputs, the script of
  the public keys and the whole message, against their definition by concatenation (BIP 143).
\<close>

section \<open>The message\<close>

definition prevout :: "txin \<Rightarrow> byte list"
  where "prevout i = ti_hash i @ ti_index i"

definition bip143 :: "ptx \<Rightarrow> nat \<Rightarrow> byte list \<Rightarrow> byte list" where
  "bip143 t i scriptcode =
    u32_le (p_version t) @
    hash256 (concat (map prevout (p_ins t))) @
    hash256 (concat (map ti_sequence (p_ins t))) @
    prevout (p_ins t ! i) @
    scriptcode @
    u64_le (w_value (p_wits t ! i)) @
    ti_sequence (p_ins t ! i) @
    hash256 (concat (map enc_txout (p_outs t))) @
    u32_le (p_locktime t) @
    u32_le 1"

section \<open>Hashes\<close>

lemma length_prevouts: "list_all wf_txin ins \<Longrightarrow> length (concat (map prevout ins)) = length ins * 36"
  by (induction ins) (simp_all add: prevout_def wf_txin_def)

lemma length_sequences: "list_all wf_txin ins \<Longrightarrow> length (concat (map ti_sequence ins)) = length ins * 4"
  by (induction ins) (simp_all add: wf_txin_def)

lemma rep_inputs_wf: "list_all2 (rep_input h) sts ins \<Longrightarrow> list_all wf_txin ins"
  by (induction rule: list_all2_induct) (simp_all add: rep_input_def)

lemma prevouts_loop_eq:
  "\<lbrakk>deref lst h = Some (done' @ sts); list_all2 (rep_input h) sts ins; length done' = i; length pre = i * 36;
    length b = length ins * 36\<rbrakk> \<Longrightarrow>
   prevouts_loop (length ins) i lst h (pre @ b) = Some (pre @ concat (map prevout ins))"
proof (induction ins arbitrary: done' sts i pre b)
  case (Cons x ins)
  then obtain st sts' where sts: "sts = st # sts'" "rep_input h st x" "list_all2 (rep_input h) sts' ins"
    by (cases sts) auto
  have f: "prev_tx_hash st = ti_hash x" "prev_tx_index st = ti_index x" "length (ti_hash x) = 32" "length (ti_index x) = 4"
    using sts(2) by (auto simp: rep_input_def wf_txin_def)
  have "prevouts_loop (length ins) (Suc i) lst h ((pre @ prevout x) @ drop 36 b) =
      Some ((pre @ prevout x) @ concat (map prevout ins))"
    using Cons.prems sts f by (intro Cons.IH [of "done' @ [st]" sts']) (simp_all add: prevout_def)
  moreover have "wr (i * 36) (ti_hash x) (pre @ b) = Some (pre @ ti_hash x @ drop 32 b)"
    using Cons.prems f wr_app [of pre "i * 36" "ti_hash x" b] by simp
  moreover have "wr (i * 36 + 32) (ti_index x) ((pre @ ti_hash x) @ drop 32 b) =
      Some ((pre @ ti_hash x) @ ti_index x @ drop 36 b)"
    using Cons.prems f wr_app [of "pre @ ti_hash x" "i * 36 + 32" "ti_index x" "drop 32 b"] by simp
  ultimately show ?case
    using Cons.prems(1,3) sts f by (simp add: buf_simps prevout_def [of x])
qed simp

lemma sequences_loop_eq:
  "\<lbrakk>deref lst h = Some (done' @ sts); list_all2 (rep_input h) sts ins; length done' = i; length pre = i * 4;
    length b = length ins * 4\<rbrakk> \<Longrightarrow>
   sequences_loop (length ins) i lst h (pre @ b) = Some (pre @ concat (map ti_sequence ins))"
proof (induction ins arbitrary: done' sts i pre b)
  case (Cons x ins)
  then obtain st sts' where sts: "sts = st # sts'" "rep_input h st x" "list_all2 (rep_input h) sts' ins"
    by (cases sts) auto
  have f: "sequence_no st = ti_sequence x" "length (ti_sequence x) = 4"
    using sts(2) by (auto simp: rep_input_def wf_txin_def)
  have "sequences_loop (length ins) (Suc i) lst h ((pre @ ti_sequence x) @ drop 4 b) =
      Some ((pre @ ti_sequence x) @ concat (map ti_sequence ins))"
    using Cons.prems sts f by (intro Cons.IH [of "done' @ [st]" sts']) simp_all
  moreover have "wr (i * 4) (ti_sequence x) (pre @ b) = Some (pre @ ti_sequence x @ drop 4 b)"
    using Cons.prems f wr_app [of pre "i * 4" "ti_sequence x" b] by simp
  ultimately show ?case
    using Cons.prems(1,3) sts f by (simp add: buf_simps)
qed simp

lemma hash_and_free_eq:
  assumes "no_oom h" "heap_ok h" "m \<noteq> []" "length m < 2 ^ 32" "length out = 32"
  shows "hash_and_free (len64 m) m (calls h) out (alloc 1 h) = Some (0, hash256 m, tick 1 h)"
proof -
  have c: "ucast (len64 m) = (word_of_nat (length m) :: u32)" using assms(4) by (rule ucast_len64_u32)
  have "\<not> 0xffffffff < (len64 m :: u64)" using assms(4) by (simp add: word_less_nat_alt unat_len64)
  moreover have "sha256d (Some m) (word_of_nat (length m)) (Some out) 32 = Some (Some (hash256 m))"
    using sha256d_eq [of m out 32 "[]"] assms by simp
  ultimately show ?thesis
    using malloc_free [OF assms(1,2)] by (simp add: hash_and_free_def c)
qed

lemma rep_array_obtain:
  assumes "rep_array rep h lst xs"
  obtains arr where "lst \<noteq> NULL" "deref lst h = Some arr" "list_all2 (rep h) arr xs"
  using assms by (auto simp: rep_array_def split: option.splits)

text \<open>What a structure represents depends on the blocks it reads only.\<close>

fun blks :: "'a ptr \<Rightarrow> nat set" where
  "blks NULL = {}"
| "blks (Ptr b x) = {b}"

lemma deref_frame: "\<lbrakk>deref p h = Some x; blks p \<subseteq> live h'\<rbrakk> \<Longrightarrow> deref p h' = Some x"
  by (cases p) (auto split: if_splits)

lemma deref_blks: "deref p h = Some x \<Longrightarrow> blks p \<subseteq> live h"
  by (cases p) (auto split: if_splits)

lemma holds_frame: "\<lbrakk>holds h p xs; xs = [] \<or> blks p \<subseteq> live h'\<rbrakk> \<Longrightarrow> holds h' p xs"
  by (cases p) (auto simp: holds_def mem_read_def split: if_splits)

lemma holds_mono: "\<lbrakk>holds h p xs; live h \<subseteq> live h'\<rbrakk> \<Longrightarrow> holds h' p xs"
  by (cases p) (auto simp: holds_def mem_read_def split: if_splits)

lemma rep_input_mono: "\<lbrakk>rep_input h st x; live h \<subseteq> live h'\<rbrakk> \<Longrightarrow> rep_input h' st x"
  by (auto simp: rep_input_def intro: holds_mono)

lemma rep_output_mono: "\<lbrakk>rep_output h st x; live h \<subseteq> live h'\<rbrakk> \<Longrightarrow> rep_output h' st x"
  by (auto simp: rep_output_def intro: holds_mono)

lemma deref_mono: "\<lbrakk>deref p h = Some x; live h \<subseteq> live h'\<rbrakk> \<Longrightarrow> deref p h' = Some x"
  by (rule deref_frame [OF _ subset_trans [OF deref_blks]])

lemma live_alloc_mono: "live h \<subseteq> live (alloc k h)"
  by (simp add: live_alloc)

lemma gen_hashprevouts_eq:
  assumes rep: "rep_array rep_input h lst ins" and h: "no_oom h" "heap_ok h"
    and n: "ins \<noteq> []" "length ins * 36 < 2 ^ 32" and out: "length out = 32"
  shows "gen_hashprevouts lst (len64 ins) out 32 h = Some (0, hash256 (concat (map prevout ins)), tick 1 h)"
proof -
  obtain arr where arr: "lst \<noteq> NULL" "deref lst h = Some arr" "list_all2 (rep_input h) arr ins"
    using rep by (rule rep_array_obtain)
  let ?m = "concat (map prevout ins)"
  have wf: "list_all wf_txin ins" using arr(3) by (rule rep_inputs_wf)
  have lm: "length ?m = length ins * 36" using wf by (rule length_prevouts)
  then have m2: "length ?m < 2 ^ 32" and p: "0 < length ?m" using n by (simp_all del: length_concat)
  from p have m1: "?m \<noteq> []" by (rule length_greater_0_conv [THEN iffD1])
  note m = m1 m2
  have l: "len64 ins * 36 = (len64 ?m :: u64)" using lm by (simp del: length_concat)
  have "list_all2 (rep_input (alloc 1 h)) arr ins"
    using arr(3) by (rule list_all2_mono) (rule rep_input_mono [OF _ live_alloc_mono])
  then have "prevouts_loop (length ins) 0 lst (alloc 1 h) ([] @ replicate (length ?m) 0) = Some ([] @ ?m)"
    using arr lm by (intro prevouts_loop_eq [of _ _ "[]" arr] deref_mono [OF _ live_alloc_mono]) (simp_all del: length_concat)
  moreover have "unat (len64 ins :: u64) = length ins" "unat (len64 ?m :: u64) = length ?m"
    using n m by (simp_all add: unat_len64)
  moreover have "len64 ins \<noteq> (0 :: u64)" using n by (intro len64_ne_0) simp_all
  moreover have "hash_and_free (len64 ?m) ?m (calls h) out (alloc 1 h) = Some (0, hash256 ?m, tick 1 h)"
    using h m out by (rule hash_and_free_eq)
  ultimately show ?thesis
    using arr(1) h(1) unfolding gen_hashprevouts_def l by (simp add: malloc_alloc)
qed

lemma gen_hashsequences_eq:
  assumes rep: "rep_array rep_input h lst ins" and h: "no_oom h" "heap_ok h"
    and n: "ins \<noteq> []" "length ins * 36 < 2 ^ 32" and out: "length out = 32"
  shows "gen_hashsequences lst (len64 ins) out 32 h = Some (0, hash256 (concat (map ti_sequence ins)), tick 1 h)"
proof -
  obtain arr where arr: "lst \<noteq> NULL" "deref lst h = Some arr" "list_all2 (rep_input h) arr ins"
    using rep by (rule rep_array_obtain)
  let ?m = "concat (map ti_sequence ins)"
  have wf: "list_all wf_txin ins" using arr(3) by (rule rep_inputs_wf)
  have lm: "length ?m = length ins * 4" using wf by (rule length_sequences)
  then have m2: "length ?m < 2 ^ 32" and p: "0 < length ?m" using n by (simp_all del: length_concat)
  from p have m1: "?m \<noteq> []" by (rule length_greater_0_conv [THEN iffD1])
  note m = m1 m2
  have l: "len64 ins * 4 = (len64 ?m :: u64)" using lm by (simp del: length_concat)
  have "list_all2 (rep_input (alloc 1 h)) arr ins"
    using arr(3) by (rule list_all2_mono) (rule rep_input_mono [OF _ live_alloc_mono])
  then have "sequences_loop (length ins) 0 lst (alloc 1 h) ([] @ replicate (length ?m) 0) = Some ([] @ ?m)"
    using arr lm by (intro sequences_loop_eq [of _ _ "[]" arr] deref_mono [OF _ live_alloc_mono]) (simp_all del: length_concat)
  moreover have "unat (len64 ins :: u64) = length ins" "unat (len64 ?m :: u64) = length ?m"
    using n m by (simp_all add: unat_len64)
  moreover have "len64 ins \<noteq> (0 :: u64)" using n by (intro len64_ne_0) simp_all
  moreover have "hash_and_free (len64 ?m) ?m (calls h) out (alloc 1 h) = Some (0, hash256 ?m, tick 1 h)"
    using h m out by (rule hash_and_free_eq)
  ultimately show ?thesis
    using arr(1) h(1) unfolding gen_hashsequences_def l by (simp add: malloc_alloc)
qed


lemma stack_varint_eq:
  assumes "unat c = length pre" "length (varint n) \<le> length dst"
  shows "stack_varint n c (pre @ dst) =
    Some (0, pre @ varint n @ drop (length (varint n)) dst, c + len64 (varint n))"
proof -
  have "gen_varint n (gen_varint_len n) (Some (replicate (length (varint n)) 0)) = Some (0, Some (varint n))"
    using gen_varint_eq [of n "replicate (length (varint n)) 0"] by simp
  moreover have "wr (unat c) (varint n) (pre @ dst) = Some (pre @ varint n @ drop (length (varint n)) dst)"
    using assms by (intro wr_app) simp_all
  moreover have "gen_varint_len n \<in> {1, 3, 5, 9}" by (simp add: gen_varint_len_def)
  ultimately show ?thesis
    by (simp only: stack_varint_def Let_def unat_gen_varint_len ucast_gen_varint_len) simp
qed

lemma outputs_sum_eq:
  "\<lbrakk>deref lst h = Some (done' @ sts); list_all2 (rep_output h) sts outs; length done' = i\<rbrakk> \<Longrightarrow>
   outputs_sum (length outs) i lst h sm = Some (sm + len64 (concat (map enc_txout outs)))"
proof (induction outs arbitrary: done' sts i sm)
  case (Cons x outs)
  then obtain st sts' where sts: "sts = st # sts'" "rep_output h st x" "list_all2 (rep_output h) sts' outs"
    by (cases sts) auto
  have f: "txout_script_len st = len64 (to_script x)" "length (to_value x) = 8"
    using sts(2) by (auto simp: rep_output_def wf_txout_def)
  have "outputs_sum (length outs) (Suc i) lst h (sm + len64 (enc_txout x)) =
      Some ((sm + len64 (enc_txout x)) + len64 (concat (map enc_txout outs)))"
    using Cons.prems sts by (intro Cons.IH [of "done' @ [st]" sts']) simp_all
  then show ?case
    using Cons.prems(1,3) sts f
    by (simp add: buf_simps ucast_gen_varint_len enc_txout_def [of x] blob_def add_ac)
qed simp

lemma outputs_loop_eq:
  "\<lbrakk>deref lst h = Some (done' @ sts); list_all2 (rep_output h) sts outs; length done' = i;
    length b = length (concat (map enc_txout outs)); length pre + length b < 2 ^ 64\<rbrakk> \<Longrightarrow>
   outputs_loop (length outs) i lst h (pre @ b) (len64 pre) =
   Some (0, pre @ concat (map enc_txout outs), len64 (pre @ concat (map enc_txout outs)))"
proof (induction outs arbitrary: done' sts i pre b)
  case (Cons x outs)
  then obtain st sts' where sts: "sts = st # sts'" "rep_output h st x" "list_all2 (rep_output h) sts' outs"
    by (cases sts) auto
  let ?v = "varint (len64 (to_script x))"
  have f: "txout_value st = to_value x" "txout_script_len st = len64 (to_script x)" "length (to_value x) = 8"
    "unat (len64 (to_script x) :: u64) = length (to_script x)"
    "mem_read (txout_script st) (length (to_script x)) h = Some (to_script x)"
    using sts(2) by (auto simp: rep_output_def wf_txout_def short_blob_def holds_def unat_len64)
  have e: "enc_txout x = to_value x @ ?v @ to_script x" by (simp add: enc_txout_def blob_def)
  have lb: "length b = 8 + length ?v + length (to_script x) + length (concat (map enc_txout outs))"
    using Cons.prems(4) f(3) by (simp add: e del: length_concat)
  define b1 where "b1 = drop 8 b"
  define b2 where "b2 = drop (length ?v) b1"
  define b3 where "b3 = drop (length (to_script x)) b2"
  have l: "length ?v \<le> length b1" "length (to_script x) \<le> length b2" "8 \<le> length b"
    "length b3 = length (concat (map enc_txout outs))"
    using lb by (simp_all add: b1_def b2_def b3_def del: length_concat)
  have u: "unat (len64 pre) = length pre" "unat (len64 pre + 8) = length (pre @ to_value x)"
    "unat (len64 pre + 8 + len64 ?v) = length (pre @ to_value x @ ?v)"
    using Cons.prems(5) lb f(3) unat_len64 [of pre] unat_len64 [of "pre @ to_value x"]
      unat_len64 [of "pre @ to_value x @ ?v"] by (simp_all add: add_ac)
  have w1: "wr (unat (len64 pre)) (to_value x) (pre @ b) = Some ((pre @ to_value x) @ b1)"
    using wr_app [of pre _ "to_value x" b] u(1) f(3) l(3) by (simp add: b1_def)
  have w2: "stack_varint (len64 (to_script x)) (len64 pre + 8) ((pre @ to_value x) @ b1) =
      Some (0, (pre @ to_value x @ ?v) @ b2, len64 pre + 8 + len64 ?v)"
    using stack_varint_eq [OF u(2) l(1)] by (simp add: b2_def)
  have w3: "wr (unat (len64 pre + 8 + len64 ?v)) (to_script x) ((pre @ to_value x @ ?v) @ b2) =
      Some ((pre @ enc_txout x) @ b3)"
    using wr_app [of "pre @ to_value x @ ?v" _ "to_script x" b2] u(3) l(2) by (simp add: b3_def e)
  have c: "len64 pre + 8 + len64 ?v + len64 (to_script x) = len64 (pre @ enc_txout x)"
    using f(3) by (simp add: e add_ac)
  have "outputs_loop (length outs) (Suc i) lst h ((pre @ enc_txout x) @ b3) (len64 (pre @ enc_txout x)) =
      Some (0, (pre @ enc_txout x) @ concat (map enc_txout outs), len64 ((pre @ enc_txout x) @ concat (map enc_txout outs)))"
    using Cons.prems sts lb l(4) f(3) by (intro Cons.IH [of "done' @ [st]" sts']) (simp_all add: e del: length_concat)
  then show ?case
    using Cons.prems(1,3) sts(1) f w1 w2 w3 c by (simp add: buf_simps del: of_nat_add length_append length_concat)
qed simp

lemma gen_hashoutputs_eq:
  assumes rep: "rep_array rep_output h lst outs" and h: "no_oom h" "heap_ok h"
    and n: "outs \<noteq> []" "length (concat (map enc_txout outs)) < 2 ^ 32" and out: "length out = 32"
  shows "gen_hashoutputs lst (len64 outs) out 32 h = Some (0, hash256 (concat (map enc_txout outs)), tick 1 h)"
proof -
  obtain arr where arr: "lst \<noteq> NULL" "deref lst h = Some arr" "list_all2 (rep_output h) arr outs"
    using rep by (rule rep_array_obtain)
  define m where "m = concat (map enc_txout outs)"
  have "1 * length outs \<le> length m" unfolding m_def
    by (intro length_concat_ge) (simp add: enc_txout_def blob_def Suc_le_eq)
  then have lo: "length outs \<le> length m" by simp
  have mne: "m \<noteq> []" using n(1) by (cases outs) (simp_all add: m_def enc_txout_def blob_def)
  have sum: "outputs_sum (length outs) 0 lst h 0 = Some (len64 m)"
    using outputs_sum_eq [of lst h "[]" arr outs 0 0] arr by (simp add: m_def del: length_concat)
  have "list_all2 (rep_output (alloc 1 h)) arr outs"
    using arr(3) by (rule list_all2_mono) (rule rep_output_mono [OF _ live_alloc_mono])
  then have loop: "outputs_loop (length outs) 0 lst (alloc 1 h) ([] @ replicate (length m) 0) (len64 ([] :: byte list)) =
      Some (0, [] @ m, len64 ([] @ m))"
    unfolding m_def using arr n
    by (intro outputs_loop_eq [of _ _ "[]" arr] deref_mono [OF _ live_alloc_mono]) (simp_all del: length_concat)
  have u: "unat (len64 outs :: u64) = length outs" "unat (len64 m :: u64) = length m" "len64 outs \<noteq> (0 :: u64)"
    using n lo by (simp_all add: unat_len64 len64_ne_0 flip: m_def)
  have "hash_and_free (len64 m) m (calls h) out (alloc 1 h) = Some (0, hash256 m, tick 1 h)"
    using h mne n out by (intro hash_and_free_eq) (simp_all flip: m_def)
  then show ?thesis
    using arr(1) h(1) sum loop u by (simp add: gen_hashoutputs_def malloc_alloc flip: m_def)
qed

section \<open>The script\<close>

text \<open>A key of the script: a type byte, the extended key, and the two elements of the path.  The
  script has six items, the keys are the second to the fourth.\<close>

record xkey =
  xk_type :: byte
  xk_data :: "byte list"
  xk_path1 :: u16
  xk_path2 :: u16

definition xkey_bytes :: "xkey \<Rightarrow> byte list"
  where "xkey_bytes k = xk_type k # xk_data k @ u16_le (xk_path1 k) @ u16_le (xk_path2 k)"

definition redeem_items :: "sitem \<Rightarrow> xkey list \<Rightarrow> sitem \<Rightarrow> sitem \<Rightarrow> sitem list"
  where "redeem_items a ks b d = a # map (\<lambda>k. Push1 (xkey_bytes k)) ks @ [b, d]"

definition redeem_bytes :: "sitem \<Rightarrow> xkey list \<Rightarrow> sitem \<Rightarrow> sitem \<Rightarrow> byte list"
  where "redeem_bytes a ks b d = concat (map enc_sitem (redeem_items a ks b d))"

definition wf_redeem :: "sitem \<Rightarrow> xkey list \<Rightarrow> sitem \<Rightarrow> sitem \<Rightarrow> bool" where
  "wf_redeem a ks b d \<longleftrightarrow> wf_sitem a \<and> wf_sitem b \<and> wf_sitem d \<and> length ks = 3 \<and>
     list_all (\<lambda>k. length (xk_data k) = 78) ks \<and> length (redeem_bytes a ks b d) < 2 ^ 32"

definition xkey_pub :: "curve_ops \<Rightarrow> xkey \<Rightarrow> byte list option"
  where "xkey_pub c k = data_key c (xk_data k) (ucast (xk_path1 k)) (ucast (xk_path2 k))"

text \<open>The script of a two-of-three signature, with its length in front.\<close>

definition multisig_code :: "byte list list \<Rightarrow> byte list"
  where "multisig_code pubs = 0x69 # 0x52 # concat (map (\<lambda>p. 0x21 # p) pubs) @ [0x53, 0xae]"

lemma length_redeem_items: "length ks = 3 \<Longrightarrow> length (redeem_items a ks b d) = 6"
  by (simp add: redeem_items_def)

lemma wf_redeem_items: "wf_redeem a ks b d \<Longrightarrow> list_all wf_sitem (redeem_items a ks b d)"
  by (auto simp: wf_redeem_def redeem_items_def xkey_bytes_def list_all_iff)

lemma length_xkey_pub: "xkey_pub c k = Some p \<Longrightarrow> length p = 33"
  by (auto simp: xkey_pub_def data_key_def split: prod.splits if_splits)

lemma nth_mks1: "j < length xs \<Longrightarrow> mks mk (\<lambda>_. Suc 0) n xs ! j = mk (n + j) (xs ! j)"
proof (induction xs arbitrary: n j)
  case (Cons x xs)
  then show ?case by (cases j) simp_all
qed simp

lemma last_script_eq:
  assumes rep: "rep_witness h w \<lparr>w_value = v, w_items = xs @ [redeem_bytes a ks b d]\<rparr>" and xs: "length xs = 4"
    and wf: "wf_redeem a ks b d" and h: "no_oom h"
  shows "last_script w h = Some (0, mk_script (calls h) (redeem_items a ks b d), alloc 7 h)"
proof -
  let ?b = "redeem_bytes a ks b d" and ?its = "redeem_items a ks b d"
  have n: "op_items_counter w = 5" using rep xs by (simp add: rep_witness_def)
  obtain arr where arr: "deref (op_items_list w) h = Some arr" "list_all2 (rep_item h) arr (xs @ [?b])"
    using rep by (auto simp: rep_witness_def elim: rep_array_obtain)
  then have l: "length arr = 5" using xs by (auto dest: list_all2_lengthD)
  have "rep_item h (arr ! 4) ?b"
    using arr(2) xs l by (auto simp: list_all2_conv_all_nth nth_append dest: spec [of _ 4])
  then have st: "op_item_len (arr ! 4) = len64 ?b" "holds h (op_item (arr ! 4)) ?b" by (auto simp: rep_item_def)
  have ls: "length ?its = 6" using wf by (simp add: wf_redeem_def length_redeem_items)
  have ne: "?its \<noteq> []" by (simp add: redeem_items_def)
  then have "?b \<noteq> []" by (simp add: redeem_bytes_def redeem_items_def)
  then obtain p r where p: "op_item (arr ! 4) = Ptr p (?b @ r)" "p \<in> live h"
    using st(2) by (cases "op_item (arr ! 4)") (auto simp: holds_def mem_read_def rd_split split: if_splits)
  have "parse_script (Some (?b @ r)) (len64 ?b) zero_script h = Some (0, mk_script (calls h) ?its, alloc (Suc (length ?its)) h)"
    using parse_script_enc [OF wf_redeem_items [OF wf] ne h, of r zero_script] wf
    by (simp add: redeem_bytes_def wf_redeem_def)
  then show ?thesis
    using n arr(1) l st(1) p ls by (simp add: last_script_def nth_ub_def as_buf_def mk_script_def)
qed

lemma free_last_script:
  assumes "heap_ok h" "length its = 6"
  shows "free_script (mk_script (calls h) its) (alloc 7 h) =
    Some ((mk_script (calls h) its)\<lparr>items_list := NULL\<rparr>, tick 7 h)"
proof -
  have "free_script (mk_script (calls h) its) (alloc 7 h) =
      Some ((mk_script (calls h) its)\<lparr>items_list := NULL\<rparr>, free_set {calls h..<calls h + Suc (length its)} (alloc 7 h))"
    using assms by (intro free_script_mk) (auto simp: live_alloc)
  then show ?thesis using free_alloc_tick [OF assms(1), of 7] assms(2) by simp
qed

lemma script_key_eq:
  assumes its: "its ! (i + 1) = Push1 (xkey_bytes k)" "i + 1 < length its" and k: "length (xk_data k) = 78"
    and live: "n \<in> live h" "n + i + 2 \<in> live h" and pk: "length pubkey = 33"
  shows "script_key c (mk_script n its) i pubkey h =
    Some (case xkey_pub c k of None \<Rightarrow> (-1, ucast (xk_path1 k), ucast (xk_path2 k), pubkey)
      | Some p \<Rightarrow> (0, ucast (xk_path1 k), ucast (xk_path2 k), p))"
proof -
  have r: "rd 78 (drop 1 (xkey_bytes k)) = Some (xk_data k)" "rd 2 (drop 79 (xkey_bytes k)) = Some (u16_le (xk_path1 k))"
    "rd 2 (drop 81 (xkey_bytes k)) = Some (u16_le (xk_path2 k))"
    using k by (simp_all add: xkey_bytes_def rd_def)
  have "get_pubkey_from_xpub_double_ckd c (Some (xk_data k)) 78 (ucast (xk_path1 k)) (ucast (xk_path2 k)) pubkey 33 =
      Some (case xkey_pub c k of None \<Rightarrow> (-1, pubkey) | Some p \<Rightarrow> (0, p))"
    unfolding xkey_pub_def using k pk by (rule pubkey_of_data)
  then show ?thesis
    using its live r
    by (simp add: script_key_def mk_script_def nth_ub_def nth_mks1 le_u16_inv split: option.split)
qed


lemma three:
  assumes "length xs = 3" obtains x y z where "xs = [x, y, z]"
  using assms by (auto simp: numeral_3_eq_3 length_Suc_conv)

lemma map_Some_three:
  "map f [x, y, z] = map Some ps \<Longrightarrow> \<exists>p q r. ps = [p, q, r] \<and> f x = Some p \<and> f y = Some q \<and> f z = Some r"
  by (auto simp: map_eq_Cons_conv Cons_eq_map_conv)

lemma redeem_script_key:
  assumes wf: "wf_redeem a ks b d" and i: "i < 3" and h: "{n..<n + 7} \<subseteq> live h" and pk: "length pubkey = 33"
    and p: "xkey_pub c (ks ! i) = Some q"
  shows "script_key c (mk_script n (redeem_items a ks b d)) i pubkey h =
    Some (0, ucast (xk_path1 (ks ! i)), ucast (xk_path2 (ks ! i)), q)"
proof -
  have ks: "length ks = 3" "list_all (\<lambda>k. length (xk_data k) = 78) ks" using wf by (auto simp: wf_redeem_def)
  have "redeem_items a ks b d ! (i + 1) = Push1 (xkey_bytes (ks ! i))" "i + 1 < length (redeem_items a ks b d)"
    using ks(1) i by (simp_all add: redeem_items_def nth_append)
  moreover have "length (xk_data (ks ! i)) = 78" using ks i by (simp add: list_all_length)
  moreover have "n \<in> live h" "n + i + 2 \<in> live h" using h i by auto
  ultimately show ?thesis using script_key_eq [OF _ _ _ _ _ pk, of _ i "ks ! i" n h c] p by simp
qed

lemma scriptcode_loop_eq:
  assumes wf: "wf_redeem a ks b d" and h: "{n..<n + 7} \<subseteq> live h" and p: "map (xkey_pub c) ks = map Some pubs"
  shows "scriptcode_loop c (mk_script n (redeem_items a ks b d)) 3 0 (replicate 33 0) acc h =
    Some (0, acc @ concat (map (\<lambda>p. 0x21 # p) pubs))"
proof -
  have "length ks = 3" using wf by (simp add: wf_redeem_def)
  then obtain x y z where ks: "ks = [x, y, z]" by (rule three)
  then obtain p q r where ps: "pubs = [p, q, r]" "xkey_pub c x = Some p" "xkey_pub c y = Some q" "xkey_pub c z = Some r"
    using map_Some_three [of "xkey_pub c" x y z pubs] p by auto
  have l: "length p = 33" "length q = 33" using ps length_xkey_pub by blast+
  show ?thesis
    using redeem_script_key [OF wf _ h, of 0 "replicate 33 0" c p]
      redeem_script_key [OF wf _ h, of 1 p c q] redeem_script_key [OF wf _ h, of 2 q c r] ps l
    by (simp add: ks numeral_3_eq_3 numeral_2_eq_2)
qed

definition key_triples :: "xkey list \<Rightarrow> byte list list \<Rightarrow> (byte list \<times> u32 \<times> u32) list"
  where "key_triples ks pubs = map (\<lambda>(k, p). (p, ucast (xk_path1 k), ucast (xk_path2 k))) (zip ks pubs)"

lemma publist_loop_eq:
  assumes wf: "wf_redeem a ks b d" and h: "{n..<n + 7} \<subseteq> live h" and p: "map (xkey_pub c) ks = map Some pubs"
  shows "publist_loop c (mk_script n (redeem_items a ks b d)) 3 0 (replicate 33 0) [] h = Some (0, key_triples ks pubs)"
proof -
  have "length ks = 3" using wf by (simp add: wf_redeem_def)
  then obtain x y z where ks: "ks = [x, y, z]" by (rule three)
  then obtain p q r where ps: "pubs = [p, q, r]" "xkey_pub c x = Some p" "xkey_pub c y = Some q" "xkey_pub c z = Some r"
    using map_Some_three [of "xkey_pub c" x y z pubs] p by auto
  have l: "length p = 33" "length q = 33" using ps length_xkey_pub by blast+
  show ?thesis
    using redeem_script_key [OF wf _ h, of 0 "replicate 33 0" c p]
      redeem_script_key [OF wf _ h, of 1 p c q] redeem_script_key [OF wf _ h, of 2 q c r] ps l
    by (simp add: ks numeral_3_eq_3 numeral_2_eq_2 key_triples_def)
qed

lemma length_multisig_code:
  assumes "map (xkey_pub c) ks = map Some pubs" "length ks = 3" shows "length (multisig_code pubs) = 106"
proof -
  obtain x y z where ks: "ks = [x, y, z]" using assms(2) by (rule three)
  then obtain p q r where "pubs = [p, q, r]" "length p = 33" "length q = 33" "length r = 33"
    using map_Some_three [of "xkey_pub c" x y z pubs] assms(1) length_xkey_pub by force
  then show ?thesis by (simp add: multisig_code_def)
qed

text \<open>The witness of an input that can be signed: four items and the script of three keys with
  their public keys.\<close>

definition redeem_wit :: "curve_ops \<Rightarrow> witness \<Rightarrow> byte list list \<Rightarrow> xkey list \<Rightarrow> byte list list \<Rightarrow> bool" where
  "redeem_wit c aw xs ks pubs \<longleftrightarrow> length xs = 4 \<and> map (xkey_pub c) ks = map Some pubs \<and>
     (\<exists>a b d. wf_redeem a ks b d \<and> w_items aw = xs @ [redeem_bytes a ks b d])"

lemma gen_scriptcode_eq:
  assumes rep: "rep_witness h w aw" and r: "redeem_wit c aw xs ks pubs" and h: "no_oom h" "heap_ok h"
    and buf: "length buf = 106"
  shows "gen_scriptcode c w buf 106 h = Some (0, multisig_code pubs, tick 7 h)"
proof -
  obtain a b d where r': "length xs = 4" "map (xkey_pub c) ks = map Some pubs" "wf_redeem a ks b d"
      "w_items aw = xs @ [redeem_bytes a ks b d]"
    using r by (auto simp: redeem_wit_def)
  let ?its = "redeem_items a ks b d"
  have aw: "aw = \<lparr>w_value = w_value aw, w_items = xs @ [redeem_bytes a ks b d]\<rparr>" using r'(4) by simp
  have ls: "length ?its = 6" "length ks = 3" using r'(3) by (simp_all add: wf_redeem_def length_redeem_items)
  have s: "last_script w h = Some (0, mk_script (calls h) ?its, alloc 7 h)"
    using rep [unfolded aw [symmetric]] aw r'(1,3) h(1) by (metis last_script_eq)
  have "{calls h..<calls h + 7} \<subseteq> live (alloc 7 h)" by (auto simp: live_alloc)
  then have l: "scriptcode_loop c (mk_script (calls h) ?its) 3 0 (replicate 33 0) [0x69, 0x52] (alloc 7 h) =
      Some (0, [0x69, 0x52] @ concat (map (\<lambda>p. 0x21 # p) pubs))"
    using r'(2,3) by (intro scriptcode_loop_eq)
  have e: "([0x69, 0x52] @ concat (map (\<lambda>p. 0x21 # p) pubs)) @ [0x53, 0xae] = multisig_code pubs"
    by (simp add: multisig_code_def)
  have len: "length (multisig_code pubs) = 106" using r'(2) ls(2) by (rule length_multisig_code)
  then have w: "wr 0 (multisig_code pubs) buf = Some (multisig_code pubs)" using buf by (simp add: wr_0)
  show ?thesis
    unfolding gen_scriptcode_def using s l free_last_script [OF h(2) ls(1)] w len
    by (simp add: e [symmetric] del: length_concat)
qed

lemma get_publist_eq:
  assumes rep: "rep_witness h w aw" and r: "redeem_wit c aw xs ks pubs" and h: "no_oom h" "heap_ok h"
  shows "get_publist_and_paths c w h = Some (0, key_triples ks pubs, tick 7 h)"
proof -
  obtain a b d where r': "length xs = 4" "map (xkey_pub c) ks = map Some pubs" "wf_redeem a ks b d"
      "w_items aw = xs @ [redeem_bytes a ks b d]"
    using r by (auto simp: redeem_wit_def)
  let ?its = "redeem_items a ks b d"
  have aw: "aw = \<lparr>w_value = w_value aw, w_items = xs @ [redeem_bytes a ks b d]\<rparr>" using r'(4) by simp
  have ls: "length ?its = 6" using r'(3) by (simp add: wf_redeem_def length_redeem_items)
  have s: "last_script w h = Some (0, mk_script (calls h) ?its, alloc 7 h)"
    using rep aw r'(1,3) h(1) by (metis last_script_eq)
  have "{calls h..<calls h + 7} \<subseteq> live (alloc 7 h)" by (auto simp: live_alloc)
  then have "publist_loop c (mk_script (calls h) ?its) 3 0 (replicate 33 0) [] (alloc 7 h) = Some (0, key_triples ks pubs)"
    using r'(2,3) by (intro publist_loop_eq)
  then show ?thesis
    unfolding get_publist_and_paths_def using s free_last_script [OF h(2) ls] by simp
qed

section \<open>The message\<close>

text \<open>Transactions small enough for the 32-bit lengths of the hashes.\<close>

definition hashable :: "ptx \<Rightarrow> bool" where
  "hashable t \<longleftrightarrow> p_ins t \<noteq> [] \<and> p_outs t \<noteq> [] \<and> length (p_ins t) * 36 < 2 ^ 32 \<and>
     length (concat (map enc_txout (p_outs t))) < 2 ^ 32"

lemma length_bip143:
  assumes "list_all wf_txin (p_ins t)" "i < length (p_ins t)" "length sc = 106"
  shows "length (bip143 t i sc) = 262"
proof -
  have "wf_txin (p_ins t ! i)" using assms by (simp add: list_all_length)
  then show ?thesis using assms(3) by (simp add: bip143_def prevout_def wf_txin_def)
qed

lemma gen_preimage_eq:
  assumes rep: "rep_tx h tx t" and t: "hashable t" "i < length (p_ins t)"
    and w: "rep_witness h w (p_wits t ! i)" "redeem_wit c (p_wits t ! i) xs ks pubs"
    and h: "no_oom h" "heap_ok h" and buf: "length buf = 262"
  shows "gen_preimage c (u32_le (nversion tx)) (inputs_list tx) (inputs_counter tx) (outputs_list tx) (outputs_counter tx)
      w (word_of_nat i) (u32_le (lock_time tx)) buf 262 h =
    Some (0, bip143 t i (multisig_code pubs), tick 10 h)"
proof -
  have r: "rep_array rep_input h (inputs_list tx) (p_ins t)" "rep_array rep_output h (outputs_list tx) (p_outs t)"
    and f: "inputs_counter tx = len64 (p_ins t)" "outputs_counter tx = len64 (p_outs t)"
      "nversion tx = p_version t" "lock_time tx = p_locktime t"
    using rep by (auto simp: rep_tx_def)
  obtain arr where arr: "inputs_list tx \<noteq> NULL" "deref (inputs_list tx) h = Some arr" "list_all2 (rep_input h) arr (p_ins t)"
    using r(1) by (rule rep_array_obtain)
  have outs: "outputs_list tx \<noteq> NULL" using r(2) by (auto elim: rep_array_obtain)
  have n: "length (p_ins t) < 2 ^ 32" "p_ins t \<noteq> []" "p_outs t \<noteq> []" using t by (auto simp: hashable_def)
  have "1 * length (p_outs t) \<le> length (concat (map enc_txout (p_outs t)))"
    by (intro length_concat_ge) (simp add: enc_txout_def blob_def Suc_le_eq)
  then have no: "length (p_outs t) < 2 ^ 32" using t(1) by (simp add: hashable_def)
  have nz: "len64 (p_ins t) \<noteq> (0 :: u64)" "len64 (p_outs t) \<noteq> (0 :: u64)" "\<not> len64 (p_ins t) \<le> (word_of_nat i :: u64)"
    "unat (word_of_nat i :: u64) = i"
    using n no t(2) by (simp_all add: len64_ne_0 word_le_nat_alt unat_of_nat_u64)
  have st: "rep_input h (arr ! i) (p_ins t ! i)" and li: "i < length arr"
    using arr(3) t(2) by (auto simp: list_all2_conv_all_nth)
  then have sf: "prev_tx_hash (arr ! i) = ti_hash (p_ins t ! i)" "prev_tx_index (arr ! i) = ti_index (p_ins t ! i)"
    "sequence_no (arr ! i) = ti_sequence (p_ins t ! i)"
    by (auto simp: rep_input_def)
  have v: "wit_value w = w_value (p_wits t ! i)" using w(1) by (simp add: rep_witness_def)
  have tick_rep: "rep_array rep_input (tick k h) = rep_array rep_input h"
      "rep_array rep_output (tick k h) = rep_array rep_output h" for k
    by (simp_all add: rep_array_tick)
  have s1: "gen_hashprevouts (inputs_list tx) (len64 (p_ins t)) (replicate 32 0) 32 h =
      Some (0, hash256 (concat (map prevout (p_ins t))), tick 1 h)"
    using r h t(1) by (intro gen_hashprevouts_eq) (auto simp: hashable_def)
  have s2: "gen_hashsequences (inputs_list tx) (len64 (p_ins t)) (replicate 32 0) 32 (tick 1 h) =
      Some (0, hash256 (concat (map ti_sequence (p_ins t))), tick 1 (tick 1 h))"
    using r h t(1) by (intro gen_hashsequences_eq) (auto simp: hashable_def tick_rep)
  have s3: "gen_scriptcode c w (replicate 106 0) 106 (tick 2 h) = Some (0, multisig_code pubs, tick 7 (tick 2 h))"
    using w h by (intro gen_scriptcode_eq) auto
  have s4: "gen_hashoutputs (outputs_list tx) (len64 (p_outs t)) (replicate 32 0) 32 (tick 9 h) =
      Some (0, hash256 (concat (map enc_txout (p_outs t))), tick 1 (tick 9 h))"
    using r h t(1) by (intro gen_hashoutputs_eq) (auto simp: hashable_def tick_rep)
  have "list_all wf_txin (p_ins t)" using arr(3) by (rule rep_inputs_wf)
  moreover have "length (multisig_code pubs) = 106"
    using w(2) by (auto simp: redeem_wit_def wf_redeem_def intro: length_multisig_code)
  ultimately have "length (bip143 t i (multisig_code pubs)) = 262" using t(2) by (intro length_bip143)
  then have wr: "wr 0 (bip143 t i (multisig_code pubs)) buf = Some (bip143 t i (multisig_code pubs))"
    using buf by (simp add: wr_0)
  have rd: "rd 4 (u32_le x) = Some (u32_le x)" for x by (simp add: rd_def)
  show ?thesis
    unfolding gen_preimage_def f
    using arr outs nz li sf s1 s2 s3 s4 rd wr v
    by (simp add: nth_ub_def tick_simps Let_def bip143_def prevout_def [of "p_ins t ! i"] del: length_concat
        flip: numeral_2_eq_2)
qed

end
