(* ===== verification/Sign_Witness.thy ===== *)
theory Sign_Witness
  imports Bip143
begin

text \<open>The witness a signer leaves behind: how \<^verbatim>\<open>gen_new_witness\<close> and its helpers
  (\<^verbatim>\<open>spcsign.c\<close>) place the new signature among the ones already in the witness stack, on the
  heap cells of the items.\<close>

section \<open>The list of signatures\<close>

definition slot :: "nat \<Rightarrow> byte list \<Rightarrow> spc_sig"
  where "slot n s = \<lparr>sig_len = len64 s, sig_ptr = Ptr n s\<rparr>"

lemma slot_simps [simp]: "sig_len (slot n s) = len64 s" "sig_ptr (slot n s) = Ptr n s"
  by (simp_all add: slot_def)

lemma rep_item_mono: "\<lbrakk>rep_item h st x; live h \<subseteq> live h'\<rbrakk> \<Longrightarrow> rep_item h' st x"
  by (auto simp: rep_item_def intro: holds_mono)

lemma rep_array_mono:
  assumes "rep_array rep h lst xs" "\<And>st x. rep h st x \<Longrightarrow> rep h' st x" "live h \<subseteq> live h'"
  shows "rep_array rep h' lst xs"
  using assms(1)
proof (rule rep_array_obtain)
  fix arr assume a: "lst \<noteq> NULL" "deref lst h = Some arr" "list_all2 (rep h) arr xs"
  then have "deref lst h' = Some arr" using assms(3) by (blast intro: deref_mono)
  then show ?thesis using a assms(2) by (auto simp: rep_array_def elim: list_all2_mono)
qed

lemma rep_witness_mono: "\<lbrakk>rep_witness h w aw; live h \<subseteq> live h'\<rbrakk> \<Longrightarrow> rep_witness h' w aw"
  by (auto simp: rep_witness_def intro: rep_array_mono rep_item_mono)

lemma rep_item_read:
  assumes "rep_item h st x" "live h \<subseteq> live h'"
  shows "op_item_len st = len64 x" "mem_read (op_item st) (unat (op_item_len st)) h' = Some x"
proof -
  have "rep_item h' st x" using assms by (rule rep_item_mono)
  then show "op_item_len st = len64 x" "mem_read (op_item st) (unat (op_item_len st)) h' = Some x"
    by (auto simp: rep_item_def holds_def short_blob_def unat_len64)
qed

lemma rep_item_short: "rep_item h st x \<Longrightarrow> length x < 2 ^ 32"
  by (simp add: rep_item_def short_blob_def)

text \<open>The stack of a partial witness: the three signatures are the second to the fourth item.\<close>

lemma stack_items:
  assumes "rep_witness h w aw" "w_items aw = x0 # s1 # s2 # s3 # rest"
  obtains o0 o1 o2 o3 os where "deref (op_items_list w) h = Some (o0 # o1 # o2 # o3 # os)"
    "rep_item h o1 s1" "rep_item h o2 s2" "rep_item h o3 s3" "list_all2 (rep_item h) (o0 # o1 # o2 # o3 # os) (w_items aw)"
  using assms by (auto simp: rep_witness_def list_all2_Cons2 elim!: rep_array_obtain)

definition long_sigs :: "byte list list \<Rightarrow> nat"
  where "long_sigs ss = length (filter (\<lambda>s. 1 < length s) ss)"

lemma one_less_len64: "length s < 2 ^ 64 \<Longrightarrow> (1 < (len64 s :: u64)) = (1 < length s)"
  by (simp add: word_less_nat_alt unat_len64)

lemma alloc4: "alloc (Suc (Suc (Suc (Suc 0)))) h = alloc 4 h"
  by (simp add: eval_nat_numeral)

lemma get_sigs_list_eq:
  assumes rep: "rep_witness h w aw" and aw: "w_items aw = [x0, s1, s2, s3, sc]" and one: "long_sigs [s1, s2, s3] = 1"
    and h: "no_oom h"
  shows "get_sigs_list w h =
    Some (0, \<lparr>sigs_counter = 3, sigs = Ptr (calls h) [slot (calls h + 1) s1, slot (calls h + 2) s2, slot (calls h + 3) s3]\<rparr>,
      alloc 4 h)"
proof -
  obtain o0 o1 o2 o3 os where arr: "deref (op_items_list w) h = Some (o0 # o1 # o2 # o3 # os)"
    and r: "rep_item h o1 s1" "rep_item h o2 s2" "rep_item h o3 s3"
    using stack_items [OF rep aw] by metis
  have l: "length s1 < 2 ^ 64" "length s2 < 2 ^ 64" "length s3 < 2 ^ 64"
    using r [THEN rep_item_short] by simp_all
  have n: "op_items_counter w = 5" using rep aw by (simp add: rep_witness_def)
  have d: "deref (op_items_list w) (alloc k h) = Some (o0 # o1 # o2 # o3 # os)" for k
    using arr by (rule deref_mono) (rule live_alloc_mono)
  have m: "mem_read (op_item o1) (unat (op_item_len o1)) (alloc k h) = Some s1"
    "mem_read (op_item o2) (unat (op_item_len o2)) (alloc k h) = Some s2"
    "mem_read (op_item o3) (unat (op_item_len o3)) (alloc k h) = Some s3"
    "op_item_len o1 = len64 s1" "op_item_len o2 = len64 s2" "op_item_len o3 = len64 s3" for k
    using r [THEN rep_item_read(2), OF live_alloc_mono] r [THEN rep_item_read(1), OF subset_refl] by auto
  have c: "count_long 3 0 (op_items_list w) h 0 = Some 1"
    using one arr by (auto simp: numeral_3_eq_3 nth_ub_def m(4-6) one_less_len64 [OF l(1)] one_less_len64 [OF l(2)]
        one_less_len64 [OF l(3)] long_sigs_def split: if_splits)
  have s: "sigs_loop 3 0 (op_items_list w) (replicate 3 zero_sig) 0 (alloc 1 h) =
      Some ([slot (calls h + 1) s1, slot (calls h + 2) s2, slot (calls h + 3) s3], 3, alloc 4 h)"
    using d m h by (simp add: numeral_3_eq_3 nth_ub_def upd_ub_def malloc_alloc heap_simps slot_def alloc4)
  show ?thesis using n c s h by (simp add: get_sigs_list_def malloc_alloc)
qed

lemma insert_new_sig_eq:
  assumes sl: "sigs sl = Ptr p arr" "p \<in> live h" and j: "j < 3" "length arr = 3" "sig_len (arr ! j) = 1"
    and sg: "length sg = 71 \<or> length sg = 72" and h: "no_oom h"
  shows "insert_new_sig_to_list (sg @ r) (len64 sg) sl (word_of_nat j) h =
    Some (0, sl\<lparr>sigs := Ptr p (arr[j := slot (calls h) sg])\<rparr>, alloc 1 h)"
proof -
  have u: "unat (word_of_nat j :: byte) = j" using j(1) by (simp add: unat_of_nat take_bit_nat_eq_self)
  then have "\<not> 2 < (word_of_nat j :: byte)" using j(1) by (simp add: word_less_nat_alt)
  moreover have "\<not> 72 < (len64 sg :: u64)" "\<not> len64 sg < (71 :: u64)" "unat (len64 sg :: u64) = length sg"
    using sg by (auto simp: word_less_nat_alt unat_len64)
  ultimately show ?thesis
    using sl j h u by (simp add: insert_new_sig_to_list_def nth_ub_def upd_ub_def malloc_alloc rd_app slot_def)
qed

lemma copy_sig_eq:
  assumes "sigs sl = Ptr p arr" "p \<in> live h" "i < length arr" "arr ! i = slot b s" "b \<in> live h" "length s < 2 ^ 64"
    and "no_oom h"
  shows "copy_sig sl i h =
    (if length s = 1 then Some (NoSig, h) else Some (Copied (mk_op_item (calls h) s), alloc 1 h))"
proof -
  have "(len64 s = (1 :: u64)) = (length s = 1)"
    using assms(6) unat_len64 [of s] by (auto simp: word_unat_eq_iff)
  moreover have "b \<in> live (alloc 1 h)" using assms(5) by (simp add: live_alloc)
  then have "mem_read (Ptr b s) (length s) (alloc 1 h) = Some s" by (rule mem_read_live)
  ultimately show ?thesis
    using assms by (simp add: copy_sig_def nth_ub_def malloc_alloc unat_len64 mk_op_item_def)
qed

text \<open>Two of the three signatures are there: they are copied in their order.\<close>

lemma pick_sigs:
  assumes sl: "sigs sl = Ptr p [slot a A, slot b B, slot c C]" "{p, a, b, c} \<subseteq> live h"
    and len: "length A < 2 ^ 64" "length B < 2 ^ 64" "length C < 2 ^ 64"
    and two: "filter (\<lambda>s. length s \<noteq> 1) [A, B, C] = [P, Q]" and h: "no_oom h"
  shows "\<exists>k. first_sig sl h = Some (Copied (mk_op_item (calls h) P), k, alloc 1 h) \<and>
    second_sig sl k (alloc 1 h) = Some (Copied (mk_op_item (calls h + 1) Q), alloc 2 h)"
proof -
  have cp: "copy_sig sl 0 h' = (if length A = 1 then Some (NoSig, h') else Some (Copied (mk_op_item (calls h') A), alloc 1 h'))"
    "copy_sig sl 1 h' = (if length B = 1 then Some (NoSig, h') else Some (Copied (mk_op_item (calls h') B), alloc 1 h'))"
    "copy_sig sl 2 h' = (if length C = 1 then Some (NoSig, h') else Some (Copied (mk_op_item (calls h') C), alloc 1 h'))"
    if "live h \<subseteq> live h'" "no_oom h'" for h'
  proof -
    have l: "p \<in> live h'" "a \<in> live h'" "b \<in> live h'" "c \<in> live h'" using that sl(2) by auto
    show "copy_sig sl 0 h' = (if length A = 1 then Some (NoSig, h') else Some (Copied (mk_op_item (calls h') A), alloc 1 h'))"
      using copy_sig_eq [OF sl(1) l(1), of 0 a A] l len that(2) by simp
    show "copy_sig sl 1 h' = (if length B = 1 then Some (NoSig, h') else Some (Copied (mk_op_item (calls h') B), alloc 1 h'))"
      using copy_sig_eq [OF sl(1) l(1), of 1 b B] l len that(2) by simp
    show "copy_sig sl 2 h' = (if length C = 1 then Some (NoSig, h') else Some (Copied (mk_op_item (calls h') C), alloc 1 h'))"
      using copy_sig_eq [OF sl(1) l(1), of 2 c C] l len that(2) by simp
  qed
  note c0 = cp [OF subset_refl h]
  have "no_oom (alloc 1 h)" using h by simp
  note c1 = cp [OF live_alloc_mono this]
  show ?thesis
    using two c0 c1 by (auto simp: first_sig_def second_sig_def heap_simps simp flip: numeral_2_eq_2 split: if_splits)
qed

lemma free_sigs_list_eq:
  assumes sl: "sigs_counter sl = 3" "sigs sl = Ptr p [slot a A, slot b B, slot c C]"
    and l: "{p, a, b, c} \<subseteq> live h" "distinct [p, a, b, c]"
  shows "free_sigs_list sl h = Some (free_set {p, a, b, c} h)"
proof -
  have "free_sigs_loop 3 0 (sigs sl) h = Some (free_set {a, b, c} h)"
    using sl(2) l by (simp add: numeral_3_eq_3 nth_ub_def free_blk_live live_free_set free_set_free_set insert_commute)
  moreover have "free (sigs sl) (free_set {a, b, c} h) = Some (free_set {p, a, b, c} h)"
    using sl(2) l by (simp add: free_blk_live live_free_set free_set_free_set insert_commute)
  ultimately show ?thesis using sl(1) by (simp add: free_sigs_list_def)
qed

section \<open>The new witness\<close>

definition new_witness :: "nat \<Rightarrow> byte list \<Rightarrow> byte list \<Rightarrow> byte list \<Rightarrow> spc_witness" where
  "new_witness n P Q code = zero_witness\<lparr>op_items_counter := 4, op_items_list := Ptr n
     [\<lparr>op_item_len = 0, op_item = NULL\<rparr>, mk_op_item (n + 1) P, mk_op_item (n + 2) Q, mk_op_item (n + 3) code]\<rparr>"

lemma slots_updated:
  assumes "j < 3"
  obtains a b c A B C where
    "[slot (n + 1) s1, slot (n + 2) s2, slot (n + 3) s3][j := slot (n + 4) sg] = [slot a A, slot b B, slot c C]"
    "[A, B, C] = [s1, s2, s3][j := sg]" "{a, b, c} = {n + 1, n + 2, n + 3, n + 4} - {n + 1 + j}" "distinct [n, a, b, c]"
proof -
  consider "j = 0" | "j = 1" | "j = 2" using assms by linarith
  then show ?thesis
  proof cases
    case 1 show ?thesis by (rule that [of "n + 4" sg "n + 2" s2 "n + 3" s3]) (auto simp: 1)
  next
    case 2 show ?thesis by (rule that [of "n + 1" s1 "n + 4" sg "n + 3" s3]) (auto simp: 2)
  next
    case 3 show ?thesis by (rule that [of "n + 1" s1 "n + 2" s2 "n + 4" sg]) (auto simp: 3)
  qed
qed

lemma live_alloc1: "live (alloc 1 h) = insert (calls h) (live h)"
  by (auto simp: live_alloc)

lemma gen_new_witness_eq:
  assumes rep: "rep_witness h w aw" and r: "redeem_wit c aw [x0, s1, s2, s3] ks pubs" and h: "no_oom h" "heap_ok h"
    and one: "long_sigs [s1, s2, s3] = 1" and j: "j < 3" "length ([s1, s2, s3] ! j) = 1"
    and sg: "length sg = 71 \<or> length sg = 72" and two: "filter (\<lambda>s. length s \<noteq> 1) ([s1, s2, s3][j := sg]) = [P, Q]"
  shows "\<exists>h'. gen_new_witness c (sg @ t) (len64 sg) (word_of_nat j) w h =
      Some (0, new_witness (calls h + 12) P Q (tl (multisig_code pubs)), h') \<and>
    live h' = live h \<union> {calls h + 1 + j, calls h + 12, calls h + 13, calls h + 14, calls h + 15} \<and>
    calls h' = calls h + 16 \<and> no_oom h'"
proof -
  let ?n = "calls h"
  obtain sc where aw: "w_items aw = [x0, s1, s2, s3, sc]" using r by (auto simp: redeem_wit_def)
  define sl0 where "sl0 = \<lparr>sigs_counter = 3, sigs = Ptr ?n [slot (?n + 1) s1, slot (?n + 2) s2, slot (?n + 3) s3]\<rparr>"
  have g1: "get_sigs_list w h = Some (0, sl0, alloc 4 h)"
    unfolding sl0_def by (rule get_sigs_list_eq [OF rep aw one h(1)])
  obtain a b cc A B C where s: "[slot (?n + 1) s1, slot (?n + 2) s2, slot (?n + 3) s3][j := slot (?n + 4) sg] = [slot a A, slot b B, slot cc C]"
    "[A, B, C] = [s1, s2, s3][j := sg]" "{a, b, cc} = {?n + 1, ?n + 2, ?n + 3, ?n + 4} - {?n + 1 + j}" "distinct [?n, a, b, cc]"
    using slots_updated [OF j(1)] by metis
  define sl where "sl = \<lparr>sigs_counter = 3, sigs = Ptr ?n [slot a A, slot b B, slot cc C]\<rparr>"
  have jl: "length ([s1, s2, s3] ! j) = 1 \<Longrightarrow> sig_len ([slot (?n + 1) s1, slot (?n + 2) s2, slot (?n + 3) s3] ! j) = 1"
    using j(1) by (auto simp: less_Suc_eq numeral_3_eq_3)
  have g2: "insert_new_sig_to_list (sg @ t) (len64 sg) sl0 (word_of_nat j) (alloc 4 h) = Some (0, sl, alloc 5 h)"
    using insert_new_sig_eq [of sl0 ?n _ "alloc 4 h" j sg t] j jl sg h s(1)
    by (simp add: sl0_def sl_def heap_simps)
  have "rep_witness (alloc 5 h) w aw" using rep live_alloc_mono by (rule rep_witness_mono)
  then have g3: "gen_scriptcode c w (replicate 106 0) 106 (alloc 5 h) = Some (0, multisig_code pubs, tick 7 (alloc 5 h))"
    using r h by (intro gen_scriptcode_eq) (auto simp: heap_ok_alloc)
  define H where "H = alloc 1 (tick 7 (alloc 5 h))"
  have g4: "malloc 64 (tick 7 (alloc 5 h)) = (Some (?n + 12), H)"
    using h by (simp add: malloc_alloc H_def tick_simps heap_simps)
  have HL: "live H = live h \<union> {?n..<?n + 5} \<union> {?n + 12}" "calls H = ?n + 13" "no_oom H"
    unfolding H_def live_alloc1 using h by (simp_all add: heap_simps add.commute)
  have "{a, b, cc} \<subseteq> {?n..<?n + 5}" unfolding s(3) by auto
  moreover have "?n \<in> {?n..<?n + 5}" by simp
  ultimately have sub: "{?n, a, b, cc} \<subseteq> live H" unfolding HL by blast
  have "length s1 < 2 ^ 64" "length s2 < 2 ^ 64" "length s3 < 2 ^ 64" "length sg < 2 ^ 64"
  proof -
    obtain o0 o1 o2 o3 os where "rep_item h o1 s1" "rep_item h o2 s2" "rep_item h o3 s3"
      using stack_items [OF rep aw] by metis
    then show "length s1 < 2 ^ 64" "length s2 < 2 ^ 64" "length s3 < 2 ^ 64" by (auto dest: rep_item_short)
  qed (use sg in auto)
  moreover have "set [A, B, C] \<subseteq> {sg, s1, s2, s3}"
    unfolding s(2) by (rule subset_trans [OF set_update_subset_insert]) auto
  ultimately have len: "length A < 2 ^ 64" "length B < 2 ^ 64" "length C < 2 ^ 64" by auto
  have slf: "sigs sl = Ptr ?n [slot a A, slot b B, slot cc C]" "sigs_counter sl = 3" by (simp_all add: sl_def)
  obtain k where g5: "first_sig sl H = Some (Copied (mk_op_item (?n + 13) P), k, alloc 1 H)"
    "second_sig sl k (alloc 1 H) = Some (Copied (mk_op_item (?n + 14) Q), alloc 2 H)"
    using pick_sigs [OF slf(1) sub len two [folded s(2)] HL(3)] unfolding HL(2) by (auto simp: add.commute)
  have sub2: "{?n, a, b, cc} \<subseteq> live (alloc 2 H)" using sub live_alloc_mono by blast
  have g6: "free_sigs_list sl (alloc 2 H) = Some (free_set {?n, a, b, cc} (alloc 2 H))"
    by (rule free_sigs_list_eq [OF slf(2,1) sub2 s(4)])
  define H2 where "H2 = free_set {?n, a, b, cc} (alloc 2 H)"
  have H2: "calls H2 = ?n + 15" "no_oom H2" "live H2 = live h \<union> {?n..<?n + 5} \<union> {?n + 12, ?n + 13, ?n + 14} - {?n, a, b, cc}"
    using HL by (auto simp: H2_def free_set_def heap_simps alloc_def no_oom_def)
  have g7: "malloc 105 H2 = (Some (?n + 15), alloc 1 H2)" using H2 by (simp add: malloc_alloc)
  have lc: "length (multisig_code pubs) = 106"
    using r by (auto simp: redeem_wit_def wf_redeem_def intro: length_multisig_code)
  then have g8: "rd 105 (drop 1 (multisig_code pubs)) = Some (tl (multisig_code pubs))" by (simp add: rd_def drop_Suc)
  have o: "\<not> 113 < (len64 sg :: u64)" "\<not> 2 < (word_of_nat j :: byte)"
    using sg j(1) by (auto simp: word_less_nat_alt unat_len64 unat_of_nat take_bit_nat_eq_self)
  have "gen_new_witness c (sg @ t) (len64 sg) (word_of_nat j) w h =
      Some (0, new_witness (?n + 12) P Q (tl (multisig_code pubs)), alloc 1 H2)"
    using o g1 g2 g3 g4 g5 g6 [folded H2_def] g7 g8 lc
    by (simp add: gen_new_witness_def new_witness_def mk_op_item_def)
  moreover have "?n + 1 + j \<in> {?n..<?n + 5}" using j(1) by auto
  then have "live (alloc 1 H2) = live h \<union> {?n + 1 + j, ?n + 12, ?n + 13, ?n + 14, ?n + 15}"
  proof -
    have D: "{?n, a, b, cc} = {?n..<?n + 5} - {?n + 1 + j}"
    proof -
      have "{?n..<?n + 5} = {?n, ?n + 1, ?n + 2, ?n + 3, ?n + 4}" by auto
      then show ?thesis using s(3) by auto
    qed
    have "live h \<inter> {?n..} = {}" using h(2) by (auto simp: heap_ok_def)
    then show ?thesis using \<open>?n + 1 + j \<in> {?n..<?n + 5}\<close> unfolding live_alloc H2 D by auto
  qed
  ultimately show ?thesis using H2 by (intro exI [of _ "alloc 1 H2"]) (simp add: heap_simps)
qed

end
