(* ===== verification/Sign_Correct.thy ===== *)
theory Sign_Correct
  imports Sign_Witness
begin

text \<open>Signing a whole transaction: \<^verbatim>\<open>sign_tx\<close> replaces the witness of every input by the signed
  one, and leaves the rest of the parsed transaction on its heap cells as it was.\<close>

section \<open>Blocks that a structure owns\<close>

fun cells :: "'a list ptr \<Rightarrow> 'a list" where
  "cells NULL = []"
| "cells (Ptr b xs) = xs"

definition script_blks :: "('a \<Rightarrow> u64) \<Rightarrow> ('a \<Rightarrow> byte list ptr) \<Rightarrow> 'a list \<Rightarrow> nat list"
  where "script_blks lenf ptrf sts = map (\<lambda>st. blk (ptrf st)) (filter (\<lambda>st. lenf st \<noteq> 0) sts)"

definition wit_blks :: "spc_witness \<Rightarrow> nat list" where
  "wit_blks w = (case op_items_list w of NULL \<Rightarrow> []
     | Ptr b sts \<Rightarrow> b # script_blks op_item_len op_item sts)"

lemma script_blks_simps [simp]:
  "script_blks lenf ptrf [] = []"
  "script_blks lenf ptrf (st # sts) = (if lenf st = 0 then [] else [blk (ptrf st)]) @ script_blks lenf ptrf sts"
  by (simp_all add: script_blks_def)

lemma free_loop_eq:
  "\<lbrakk>p \<in> live h; set (script_blks lenf ptrf sts) \<subseteq> live h; distinct (p # script_blks lenf ptrf sts);
    list_all (\<lambda>st. lenf st = 0 \<or> ptrf st \<noteq> NULL) sts; length done' = i\<rbrakk> \<Longrightarrow>
   free_loop lenf ptrf (length sts) i (Ptr p (done' @ sts)) h = Some (free_set (set (script_blks lenf ptrf sts)) h)"
proof (induction sts arbitrary: done' i h)
  case (Cons st sts)
  show ?case
  proof (cases "lenf st = 0")
    case True
    have "free_loop lenf ptrf (length sts) (Suc i) (Ptr p ((done' @ [st]) @ sts)) h =
        Some (free_set (set (script_blks lenf ptrf sts)) h)"
      using Cons.prems True by (intro Cons.IH) simp_all
    then show ?thesis using Cons.prems True by (simp add: buf_simps)
  next
    case False
    then obtain b xs where b: "ptrf st = Ptr b xs" using Cons.prems(4) by (cases "ptrf st") auto
    have "free_loop lenf ptrf (length sts) (Suc i) (Ptr p ((done' @ [st]) @ sts)) (free_set {b} h) =
        Some (free_set (set (script_blks lenf ptrf sts)) (free_set {b} h))"
      using Cons.prems False b by (intro Cons.IH) (auto simp: live_free_set)
    then show ?thesis using Cons.prems False b
      by (simp add: buf_simps free_blk_live free_set_free_set)
  qed
qed (simp add: heap_simps)

lemma rep_item_blk:
  "\<lbrakk>rep_item h st x; op_item_len st \<noteq> 0\<rbrakk> \<Longrightarrow> op_item st \<noteq> NULL \<and> blk (op_item st) \<in> live h"
  by (cases "op_item st") (auto simp: rep_item_def holds_def mem_read_def split: if_splits)

lemma rep_items_blks:
  "list_all2 (rep_item h) sts xs \<Longrightarrow>
   set (script_blks op_item_len op_item sts) \<subseteq> live h \<and> list_all (\<lambda>st. op_item_len st = 0 \<or> op_item st \<noteq> NULL) sts"
  by (induction rule: list_all2_induct) (auto dest: rep_item_blk)

lemma rep_array_Ptr:
  assumes "rep_array rep h lst xs"
  obtains b arr where "lst = Ptr b arr" "b \<in> live h" "list_all2 (rep h) arr xs"
  using assms by (cases lst) (auto simp: rep_array_def split: if_splits)

lemma rep_witness_blks: "rep_witness h w aw \<Longrightarrow> set (wit_blks w) \<subseteq> live h"
  by (auto simp: rep_witness_def wit_blks_def elim!: rep_array_Ptr dest: rep_items_blks [THEN conjunct1, THEN subsetD])

lemma free_single_witness_eq:
  assumes "rep_witness h w aw" "length (w_items aw) < 2 ^ 64" "distinct (wit_blks w)"
  shows "free_single_witness w h = Some (free_set (set (wit_blks w)) h)"
proof -
  obtain b arr where w: "op_items_list w = Ptr b arr" "b \<in> live h" "list_all2 (rep_item h) arr (w_items aw)"
    using assms(1) by (auto simp: rep_witness_def elim: rep_array_Ptr)
  have n: "unat (op_items_counter w) = length arr"
    using assms(1,2) w(3) by (auto simp: rep_witness_def unat_len64 dest: list_all2_lengthD)
  have "free_loop op_item_len op_item (length arr) 0 (Ptr b ([] @ arr)) h =
      Some (free_set (set (script_blks op_item_len op_item arr)) h)"
    using w assms(3) rep_items_blks [OF w(3)] by (intro free_loop_eq) (simp_all add: wit_blks_def)
  moreover have "b \<notin> set (script_blks op_item_len op_item arr)" using assms(3) w(1) by (simp add: wit_blks_def)
  ultimately show ?thesis
    using w n by (simp add: free_single_witness_def wit_blks_def free_blk_live live_free_set free_set_free_set)
qed

lemma rep_items_frame:
  "\<lbrakk>list_all2 (rep_item h) sts xs; set (script_blks op_item_len op_item sts) \<subseteq> live h'\<rbrakk> \<Longrightarrow> list_all2 (rep_item h') sts xs"
proof (induction rule: list_all2_induct)
  case (Cons st sts x xs)
  have "rep_item h' st x"
  proof (cases "x = []")
    case True
    then show ?thesis using Cons.hyps(1) by (simp add: rep_item_def holds_def mem_read_def)
  next
    case False
    moreover have "op_item_len st \<noteq> 0"
      using Cons.hyps(1) False unat_len64 [of x] by (auto simp: rep_item_def short_blob_def)
    ultimately show ?thesis using Cons.hyps(1) Cons.prems rep_item_blk [of h st x]
      by (cases "op_item st") (auto simp: rep_item_def elim: holds_frame)
  qed
  then show ?case using Cons by (auto split: if_splits)
qed simp

lemma rep_witness_frame:
  assumes "rep_witness h w aw" "set (wit_blks w) \<subseteq> live h'"
  shows "rep_witness h' w aw"
  using assms
  by (cases "op_items_list w")
    (auto simp: rep_witness_def wit_blks_def rep_array_def split: if_splits intro: rep_items_frame)

text \<open>The blocks of the arrays of inputs and outputs with their scripts, and of the array of
  witnesses.\<close>

definition tx_core :: "spc_tx \<Rightarrow> nat set" where
  "tx_core tx = blks (inputs_list tx) \<union> set (script_blks txin_script_len txin_script (cells (inputs_list tx))) \<union>
     blks (outputs_list tx) \<union> set (script_blks txout_script_len txout_script (cells (outputs_list tx))) \<union>
     blks (witnesses_list tx)"

text \<open>No two witnesses share a block, and none shares one with the rest of the transaction.\<close>

definition sep_tx :: "spc_tx \<Rightarrow> bool" where
  "sep_tx tx \<longleftrightarrow> distinct (concat (map wit_blks (cells (witnesses_list tx)))) \<and>
     set (concat (map wit_blks (cells (witnesses_list tx)))) \<inter> tx_core tx = {}"

lemma holds_nonempty:
  "\<lbrakk>holds h p xs; xs \<noteq> []\<rbrakk> \<Longrightarrow> \<exists>b ys. p = Ptr b ys \<and> b \<in> live h"
  by (cases p) (auto simp: holds_def mem_read_def split: if_splits)

lemma holds_frame_len:
  assumes "holds h p xs" "length xs < 2 ^ 32" "(len64 xs :: u64) \<noteq> 0 \<longrightarrow> blk p \<in> live h'"
  shows "holds h' p xs"
proof (cases "xs = []")
  case False
  then have "(len64 xs :: u64) \<noteq> 0" using assms(2) by (intro len64_ne_0) simp_all
  then show ?thesis using assms holds_nonempty [OF assms(1) False] by (auto intro: holds_frame)
qed (simp add: holds_def mem_read_def)

lemma rep_inputs_frame:
  "\<lbrakk>list_all2 (rep_input h) sts xs; set (script_blks txin_script_len txin_script sts) \<subseteq> live h'\<rbrakk> \<Longrightarrow> list_all2 (rep_input h') sts xs"
  by (induction rule: list_all2_induct)
    (auto simp: rep_input_def wf_txin_def short_blob_def split: if_splits elim!: holds_frame_len)

lemma rep_outputs_frame:
  "\<lbrakk>list_all2 (rep_output h) sts xs; set (script_blks txout_script_len txout_script sts) \<subseteq> live h'\<rbrakk> \<Longrightarrow> list_all2 (rep_output h') sts xs"
  by (induction rule: list_all2_induct)
    (auto simp: rep_output_def wf_txout_def short_blob_def split: if_splits elim!: holds_frame_len)

lemma rep_tx_cells:
  assumes "rep_tx h tx t"
  obtains b1 ins b2 outs b3 wits where
    "inputs_list tx = Ptr b1 ins" "b1 \<in> live h" "list_all2 (rep_input h) ins (p_ins t)"
    "outputs_list tx = Ptr b2 outs" "b2 \<in> live h" "list_all2 (rep_output h) outs (p_outs t)"
    "witnesses_list tx = Ptr b3 wits" "b3 \<in> live h" "list_all2 (rep_witness h) wits (p_wits t)"
  using assms by (auto simp: rep_tx_def elim!: rep_array_Ptr)

text \<open>A transaction with one witness replaced, in a heap that keeps all the other blocks.\<close>

lemma rep_tx_update:
  assumes rep: "rep_tx h tx t" and wl: "witnesses_list tx = Ptr b wits" and i: "i < length wits"
    and core: "tx_core tx \<subseteq> live h'"
    and others: "\<And>k. \<lbrakk>k < length wits; k \<noteq> i\<rbrakk> \<Longrightarrow> set (wit_blks (wits ! k)) \<subseteq> live h'"
    and new: "rep_witness h' w' aw'"
  shows "rep_tx h' (tx\<lparr>witnesses_list := Ptr b (wits[i := w'])\<rparr>) (t\<lparr>p_wits := (p_wits t)[i := aw']\<rparr>)"
proof -
  obtain b1 ins b2 outs where c: "inputs_list tx = Ptr b1 ins" "list_all2 (rep_input h) ins (p_ins t)"
    "outputs_list tx = Ptr b2 outs" "list_all2 (rep_output h) outs (p_outs t)"
    and w: "list_all2 (rep_witness h) wits (p_wits t)"
    using rep wl by (auto elim!: rep_tx_cells)
  have "list_all2 (rep_input h') ins (p_ins t)" "list_all2 (rep_output h') outs (p_outs t)"
    using c core by (auto simp: tx_core_def intro: rep_inputs_frame rep_outputs_frame)
  moreover have "list_all2 (rep_witness h') (wits[i := w']) ((p_wits t)[i := aw'])"
    unfolding list_all2_conv_all_nth
  proof (intro conjI allI impI)
    show "length (wits[i := w']) = length ((p_wits t)[i := aw'])" using w by (auto dest: list_all2_lengthD)
    fix k assume k: "k < length (wits[i := w'])"
    show "rep_witness h' (wits[i := w'] ! k) ((p_wits t)[i := aw'] ! k)"
    proof (cases "k = i")
      case True
      then show ?thesis using new i w by (auto dest: list_all2_lengthD)
    next
      case False
      then have "rep_witness h (wits ! k) (p_wits t ! k)" using w k by (simp add: list_all2_nthD)
      then show ?thesis using others [of k] False k by (auto intro: rep_witness_frame)
    qed
  qed
  moreover have "b1 \<in> live h'" "b2 \<in> live h'" "b \<in> live h'"
    using core c wl by (auto simp: tx_core_def)
  ultimately show ?thesis
    using rep c wl by (auto simp: rep_tx_def rep_array_def)
qed

lemma concat_update:
  assumes "i < length xs"
  shows "concat (map f (xs[i := x])) = concat (map f (take i xs)) @ f x @ concat (map f (drop (Suc i) xs))"
    "concat (map f xs) = concat (map f (take i xs)) @ f (xs ! i) @ concat (map f (drop (Suc i) xs))"
proof -
  show "concat (map f (xs[i := x])) = concat (map f (take i xs)) @ f x @ concat (map f (drop (Suc i) xs))"
    by (simp add: upd_conv_take_nth_drop assms)
  have "concat (map f xs) = concat (map f (take i xs @ xs ! i # drop (Suc i) xs))"
    using id_take_nth_drop [OF assms] by simp
  then show "concat (map f xs) = concat (map f (take i xs)) @ f (xs ! i) @ concat (map f (drop (Suc i) xs))"
    by simp
qed

lemma sep_tx_update:
  assumes sep: "sep_tx tx" and wl: "witnesses_list tx = Ptr b wits" and i: "i < length wits"
    and new: "distinct (wit_blks w')"
      "set (wit_blks w') \<inter> (tx_core tx \<union> set (concat (map wit_blks wits))) = {}"
  shows "sep_tx (tx\<lparr>witnesses_list := Ptr b (wits[i := w'])\<rparr>)"
  using sep new wl
  by (auto simp: sep_tx_def tx_core_def concat_update(1) [OF i, of wit_blks w'] concat_update(2) [OF i, of wit_blks]
      simp del: set_concat set_map)

lemma sep_tx_nth:
  assumes sep: "sep_tx tx" and wl: "witnesses_list tx = Ptr b wits" and i: "i < length wits"
  shows "distinct (wit_blks (wits ! i))" "set (wit_blks (wits ! i)) \<inter> tx_core tx = {}"
    "\<lbrakk>k < length wits; k \<noteq> i\<rbrakk> \<Longrightarrow> set (wit_blks (wits ! i)) \<inter> set (wit_blks (wits ! k)) = {}"
proof -
  note c = concat_update(2) [OF i, of wit_blks]
  have d: "distinct (concat (map wit_blks wits))" "set (concat (map wit_blks wits)) \<inter> tx_core tx = {}"
    using sep wl by (auto simp: sep_tx_def)
  then show "distinct (wit_blks (wits ! i))" "set (wit_blks (wits ! i)) \<inter> tx_core tx = {}"
    using i by (auto simp: c simp del: set_concat set_map)
  assume k: "k < length wits" "k \<noteq> i"
  then have "wits ! k \<in> set (take i wits) \<union> set (drop (Suc i) wits)"
  proof (cases "k < i")
    case True
    then have "take i wits ! k = wits ! k" "k < length (take i wits)" using k by simp_all
    then show ?thesis by (metis UnI1 nth_mem)
  next
    case False
    then have "drop (Suc i) wits ! (k - Suc i) = wits ! k" "k - Suc i < length (drop (Suc i) wits)" using k by simp_all
    then show ?thesis by (metis UnI2 nth_mem)
  qed
  then show "set (wit_blks (wits ! i)) \<inter> set (wit_blks (wits ! k)) = {}"
    using d(1) unfolding c by fastforce
qed

section \<open>Order and signature\<close>

text \<open>The first of the public keys of a script that the signer derives, with its position and
  path.\<close>

fun find_pos :: "curve_ops \<Rightarrow> byte list \<Rightarrow> nat \<Rightarrow> (byte list \<times> u32 \<times> u32) list \<Rightarrow> (nat \<times> u32 \<times> u32) option" where
  "find_pos c xpub i [] = None"
| "find_pos c xpub i ((pub, p1, p2) # ks) =
    (case text_key c xpub p1 p2 of None \<Rightarrow> None
     | Some k \<Rightarrow> if k = pub then Some (i, p1, p2) else find_pos c xpub (Suc i) ks)"

lemma find_key_eq:
  assumes "0 \<in> set xpub" "n \<le> 113"
  shows "find_pos c xpub i ks = Some (j, p1, p2) \<Longrightarrow>
    find_key c (Some xpub) n (word_of_nat i) ks q1 q2 = Some (0, word_of_nat j, p1, p2)"
  using assms
proof (induction ks arbitrary: i q1 q2)
  case (Cons k ks)
  show ?case using Cons.IH [of "Suc i"] Cons.prems
    by (cases k) (auto simp: pubkey_of_text add.commute split: option.splits if_splits)
qed simp

lemma find_pos_bounds: "find_pos c xpub i ks = Some (j, p1, p2) \<Longrightarrow> i \<le> j \<and> j < i + length ks"
  by (induction c xpub i ks rule: find_pos.induct) (fastforce split: option.splits if_splits)+

lemma text_key_set: "text_key c b p1 p2 = Some k \<Longrightarrow> 0 \<in> set b"
  by (auto simp: text_key_def text_data_def split: if_splits bind_splits)

lemma find_pos_set: "find_pos c xpub i ks = Some r \<Longrightarrow> 0 \<in> set xpub"
  by (cases ks) (auto split: option.splits dest: text_key_set)

lemma length_key_triples: "length (key_triples ks pubs) = min (length ks) (length pubs)"
  by (simp add: key_triples_def)

lemma get_order_eq:
  assumes rep: "rep_witness h w aw" and r: "redeem_wit c aw xs ks pubs" and h: "no_oom h" "heap_ok h"
    and f: "find_pos c xpub 0 (key_triples ks pubs) = Some (j, p1, p2)" and n: "n \<le> 113"
  shows "get_order_and_paths c (Some xpub) n w o0 q1 q2 h = Some (0, word_of_nat j, p1, p2, tick 7 h)" "j < 3"
proof -
  have "length ks = 3" using r by (auto simp: redeem_wit_def wf_redeem_def)
  then show j: "j < 3" using find_pos_bounds [OF f] by (simp add: length_key_triples)
  have "find_key c (Some xpub) n (word_of_nat 0) (key_triples ks pubs) 0 0 = Some (0, word_of_nat j, p1, p2)"
    using find_key_eq [OF find_pos_set [OF f] n f] by simp
  moreover have "\<not> 2 < (word_of_nat j :: byte)"
    using j by (simp add: word_less_nat_alt unat_of_nat take_bit_nat_eq_self)
  ultimately show "get_order_and_paths c (Some xpub) n w o0 q1 q2 h = Some (0, word_of_nat j, p1, p2, tick 7 h)"
    using get_publist_eq [OF rep r h] n by (simp add: get_order_and_paths_def not_less [symmetric])
qed

text \<open>The signature of a message: the DER form of the two numbers and the byte 1.\<close>

definition msg_sig :: "curve_ops \<Rightarrow> hdnode \<Rightarrow> byte list \<Rightarrow> byte list option" where
  "msg_sig c node m =
    (case ecdsa_sign_digest c (private_key node) (hash256 m) of (res, rs) \<Rightarrow>
       if res = 0 \<and> length rs = 64 \<and> be_nat (take 32 rs) \<noteq> 0 \<and> be_nat (drop 32 rs) \<noteq> 0
       then Some (der_sig (take 32 rs) (drop 32 rs) @ [1]) else None)"

lemma gen_sig_eq:
  assumes s: "msg_sig c node m = Some sg" and m: "length m = 262"
  shows "gen_sig c node m 262 (replicate 73 0) 0 = Some (0, sg @ replicate (73 - length sg) 0, word_of_nat (length sg))"
    "length sg \<le> 73"
proof -
  obtain rs where rs: "ecdsa_sign_digest c (private_key node) (hash256 m) = (0, rs)" "length rs = 64"
      "be_nat (take 32 rs) \<noteq> 0" "be_nat (drop 32 rs) \<noteq> 0"
    and sg: "sg = der_sig (take 32 rs) (drop 32 rs) @ [1]"
    using s by (auto simp: msg_sig_def split: prod.splits if_splits)
  let ?d = "der_sig (take 32 rs) (drop 32 rs)"
  have "hasher_Raw_SHA2D m = hash256 m"
    using m by (simp add: hasher_Raw_SHA2D_def hash256_def sha256_Raw_fips)
  then have hs: "hdnode_sign c node m (replicate 65 0) = Some (0, take 32 rs @ drop 32 rs @ [0])"
    using rs(1,2) by (simp add: hdnode_sign_def wr_0 numeral_eq_Suc)
  have l: "length (take 32 rs) = 32" "length (drop 32 rs) = 32" using rs(2) by simp_all
  obtain a b where ab: "length (der_int (take 32 rs)) = a + 2" "length (der_int (drop 32 rs)) = b + 2" "a \<le> 33" "b \<le> 33"
    using length_der_int [OF l(1)] length_der_int [OF l(2)] by blast
  then have d: "length ?d \<le> 72" "6 \<le> length ?d" by (simp_all add: der_sig_def)
  then show "length sg \<le> 73" by (simp add: sg)
  have e: "ecdsa_sig_to_der (take 32 rs @ drop 32 rs @ [0]) (replicate 72 0) =
      Some (int (length ?d), ?d @ replicate (72 - length ?d) 0)"
    using l rs(3,4) by (rule ecdsa_sig_to_der_eq)
  have w: "wr 0 ?d (replicate 73 0) = Some (?d @ 0 # replicate (72 - length ?d) 0)"
  proof -
    have "73 - length ?d = Suc (72 - length ?d)" using d by simp
    then show ?thesis using d by (simp add: wr_0)
  qed
  have u: "upd_ub (length ?d) 1 (?d @ 0 # replicate (72 - length ?d) 0) = Some (?d @ 1 # replicate (72 - length ?d) 0)"
    by (rule upd_ub_app) simp
  show "gen_sig c node m 262 (replicate 73 0) 0 = Some (0, sg @ replicate (73 - length sg) 0, word_of_nat (length sg))"
    using m hs e w u d by (simp add: gen_sig_def rd_def sg Suc_diff_le)
qed

section \<open>One input\<close>

text \<open>The three signatures before: one is there, and that of the signer at \<^verbatim>\<open>j\<close> and another
  are the byte that stands for a missing one.\<close>

definition pending :: "byte list list \<Rightarrow> nat \<Rightarrow> bool" where
  "pending ss j \<longleftrightarrow> length ss = 3 \<and> j < 3 \<and> length (ss ! j) = 1 \<and>
     length (filter (\<lambda>s. 70 < length s \<and> length s < 105) ss) = 1 \<and> length (filter (\<lambda>s. length s = 1) ss) = 2"

definition merge_sigs :: "byte list list \<Rightarrow> nat \<Rightarrow> byte list \<Rightarrow> byte list list"
  where "merge_sigs ss j sg = filter (\<lambda>s. length s \<noteq> 1) (ss[j := sg])"

lemma pending_merge:
  assumes "pending [s1, s2, s3] j" "length sg = 71 \<or> length sg = 72"
  obtains P Q where "merge_sigs [s1, s2, s3] j sg = [P, Q]" "long_sigs [s1, s2, s3] = 1"
    "70 < length P" "length P < 105" "70 < length Q" "length Q < 105"
proof -
  have "j = 0 \<or> j = 1 \<or> j = 2" using assms(1) by (auto simp: pending_def)
  then show ?thesis
    using assms that
    by (auto simp: pending_def merge_sigs_def long_sigs_def split: if_splits)
qed

lemma count_sigs_three:
  assumes "deref lst h = Some (o0 # o1 # o2 # o3 # os)"
    "op_item_len o1 = len64 s1" "op_item_len o2 = len64 s2" "op_item_len o3 = len64 s3"
    "length s1 < 2 ^ 64" "length s2 < 2 ^ 64" "length s3 < 2 ^ 64"
  shows "count_sigs 3 0 lst h 0 = Some (int (length (filter (\<lambda>s. 70 < length s \<and> length s < 105) [s1, s2, s3])))"
  using assms by (simp add: numeral_3_eq_3 nth_ub_def word_less_nat_alt unat_len64)

lemma count_old_sigs:
  assumes rep: "rep_witness h w aw" and aw: "w_items aw = [x0, s1, s2, s3, sc]" and p: "pending [s1, s2, s3] j"
  shows "get_sigs_num_from_witness w h = Some 1"
proof -
  obtain o0 o1 o2 o3 os where arr: "deref (op_items_list w) h = Some (o0 # o1 # o2 # o3 # os)"
    and r: "rep_item h o1 s1" "rep_item h o2 s2" "rep_item h o3 s3"
    using stack_items [OF rep aw] by metis
  have l: "length s1 < 2 ^ 64" "length s2 < 2 ^ 64" "length s3 < 2 ^ 64"
    using r [THEN rep_item_short] by simp_all
  have n: "op_items_counter w = 5" using rep aw by (simp add: rep_witness_def)
  have "op_item_len o1 = len64 s1" "op_item_len o2 = len64 s2" "op_item_len o3 = len64 s3"
    using r by (auto simp: rep_item_def)
  then show ?thesis
    using count_sigs_three [OF arr _ _ _ l] n p by (simp add: get_sigs_num_from_witness_def pending_def)
qed

lemma count_new_sigs:
  assumes "70 < length P" "length P < 105" "70 < length Q" "length Q < 105" "n \<in> live h"
  shows "get_sigs_num_from_witness (new_witness n P Q code) h = Some 2"
proof -
  have two: "count_sigs 2 i lst h k = count_sigs (Suc (Suc 0)) i lst h k" for i lst k
    by (simp only: numeral_2_eq_2)
  show ?thesis
    using assms
    by (simp add: get_sigs_num_from_witness_def new_witness_def two nth_ub_def mk_op_item_def
        word_less_nat_alt unat_len64)
qed

lemma rep_new_witness:
  assumes "{n, n + 1, n + 2, n + 3} \<subseteq> live h" "length P < 2 ^ 32" "length Q < 2 ^ 32" "length code < 2 ^ 32"
  shows "rep_witness h (new_witness n P Q code) \<lparr>w_value = 0, w_items = [[], P, Q, code]\<rparr>"
proof -
  have "rep_item h \<lparr>op_item_len = 0, op_item = NULL\<rparr> []"
    by (simp add: rep_item_def short_blob_def holds_def mem_read_def)
  moreover have "rep_item h (mk_op_item (n + 1) P) P" "rep_item h (mk_op_item (n + 2) Q) Q" "rep_item h (mk_op_item (n + 3) code) code"
    using assms by (auto intro!: rep_mk_op_item simp: short_blob_def)
  ultimately show ?thesis
    using assms(1) by (simp add: rep_witness_def new_witness_def rep_array_def zero_witness_def)
qed

lemma new_witness_blks:
  assumes "P \<noteq> []" "Q \<noteq> []" "code \<noteq> []" "length P < 2 ^ 64" "length Q < 2 ^ 64" "length code < 2 ^ 64"
  shows "wit_blks (new_witness n P Q code) = [n, n + 1, n + 2, n + 3]"
  using assms len64_ne_0 [of P] len64_ne_0 [of Q] len64_ne_0 [of code]
  by (simp add: wit_blks_def new_witness_def mk_op_item_def)

text \<open>What it means that the witness \<^verbatim>\<open>aw\<close> is the one the signer has to make for input
  \<^verbatim>\<open>i\<close>: the key of the signer is at the position \<^verbatim>\<open>j\<close> of the script, the message of
  BIP 143 is signed with the private key of the same path, and the stack holds an empty item, the two
  signatures in the order of the keys and the script of the derived keys.\<close>

definition input_signature :: "curve_ops \<Rightarrow> byte list \<Rightarrow> byte list \<Rightarrow> ptx \<Rightarrow> nat \<Rightarrow> witness \<Rightarrow> bool" where
  "input_signature c xpub xprv t i aw \<longleftrightarrow>
    (\<exists>x0 ss ks pubs j p1 p2 node sg.
       redeem_wit c (p_wits t ! i) (x0 # ss) ks pubs \<and>
       find_pos c xpub 0 (key_triples ks pubs) = Some (j, p1, p2) \<and>
       text_node c xprv p1 p2 = Some node \<and>
       msg_sig c node (bip143 t i (multisig_code pubs)) = Some sg \<and>
       length sg \<in> {71, 72} \<and> pending ss j \<and>
       aw = \<lparr>w_value = 0, w_items = [] # merge_sigs ss j sg @ [tl (multisig_code pubs)]\<rparr>)"

lemma text_node_set: "text_node c b p1 p2 = Some k \<Longrightarrow> 0 \<in> set b"
  by (auto simp: text_node_def text_data_def split: if_splits bind_splits)

lemma not_beyond_last:
  assumes "i < k" "k < 2 ^ 32" shows "\<not> word_of_nat k - 1 < (word_of_nat i :: u64)"
proof -
  have u: "unat (word_of_nat i :: u64) = i" "unat (word_of_nat k :: u64) = k"
    using assms by (simp_all add: unat_of_nat_u64)
  then have "unat (word_of_nat k - 1 :: u64) = k - 1"
    using assms(1) unat_diff_u64 [of 1 "word_of_nat k"] by simp
  then show ?thesis using assms(1) u by (simp add: word_less_nat_alt)
qed

lemma update_tx_eq:
  assumes wl: "witnesses_list tx = Ptr b wits" "b \<in> live h" "i < length wits" "length wits < 2 ^ 32"
    and cnt: "inputs_counter tx = word_of_nat (length wits)"
    and old: "get_sigs_num_from_witness (wits ! i) h = Some 1" "op_items_counter (wits ! i) = 5"
    and new: "get_sigs_num_from_witness w' h = Some 2"
    and free: "free_single_witness (wits ! i) h = Some h'"
  shows "update_tx_after_signed tx w' (word_of_nat i) h = Some (0, tx\<lparr>witnesses_list := Ptr b (wits[i := w'])\<rparr>, h')"
proof -
  have "unat (word_of_nat i :: u64) = i" using wl(3,4) by (simp add: unat_of_nat_u64)
  then show ?thesis
    using assms not_beyond_last [OF wl(3,4)] by (simp add: update_tx_after_signed_def update_tx_witness_def free_partial_witness_def
        nth_ub_def upd_ub_def)
qed

lemma rep_input_blk: "\<lbrakk>rep_input h st x; txin_script_len st \<noteq> 0\<rbrakk> \<Longrightarrow> blk (txin_script st) \<in> live h"
  using holds_nonempty by (fastforce simp: rep_input_def)

lemma rep_output_blk: "\<lbrakk>rep_output h st x; txout_script_len st \<noteq> 0\<rbrakk> \<Longrightarrow> blk (txout_script st) \<in> live h"
  using holds_nonempty by (fastforce simp: rep_output_def)

lemma rep_tx_core: "rep_tx h tx t \<Longrightarrow> tx_core tx \<subseteq> live h"
proof -
  assume rep: "rep_tx h tx t"
  have "list_all2 (rep_input h) sts xs \<Longrightarrow> set (script_blks txin_script_len txin_script sts) \<subseteq> live h" for sts xs
    by (induction rule: list_all2_induct) (auto dest: rep_input_blk)
  moreover have "list_all2 (rep_output h) sts xs \<Longrightarrow> set (script_blks txout_script_len txout_script sts) \<subseteq> live h" for sts xs
    by (induction rule: list_all2_induct) (auto dest: rep_output_blk)
  ultimately show ?thesis using rep
    by (rule_tac rep_tx_cells [OF rep]) (simp add: tx_core_def)
qed

lemma sign_single_input_eq:
  assumes rep: "rep_tx h tx t" and sep: "sep_tx tx" and t: "hashable t" "length (p_wits t) = length (p_ins t)" "i < length (p_ins t)"
    and sig: "input_signature c xpub xprv t i aw'" and h: "no_oom h" "heap_ok h"
    and n: "n \<le> 113" "112 \<le> m" "m \<le> 113"
  obtains b wits w' lk h' where "witnesses_list tx = Ptr b wits" "i < length wits"
    "sign_single_input c (Some xpub) n (Some xprv) m tx (word_of_nat i) h =
      Some (0, tx\<lparr>witnesses_list := Ptr b (wits[i := w'])\<rparr>, h')"
    "rep_tx h' (tx\<lparr>witnesses_list := Ptr b (wits[i := w'])\<rparr>) (t\<lparr>p_wits := (p_wits t)[i := aw']\<rparr>)"
    "sep_tx (tx\<lparr>witnesses_list := Ptr b (wits[i := w'])\<rparr>)"
    "no_oom h'" "heap_ok h'" "lk \<notin> live h" "lk \<notin> set (wit_blks w')" "set (wit_blks w') \<inter> live h = {}"
    "live h' = live h - set (wit_blks (wits ! i)) \<union> set (wit_blks w') \<union> {lk}"
proof -
  obtain x0 ss ks pubs j p1 p2 node sg where
    r: "redeem_wit c (p_wits t ! i) (x0 # ss) ks pubs" and f: "find_pos c xpub 0 (key_triples ks pubs) = Some (j, p1, p2)"
    and nd: "text_node c xprv p1 p2 = Some node" and s: "msg_sig c node (bip143 t i (multisig_code pubs)) = Some sg"
    and sg: "length sg = 71 \<or> length sg = 72" and pend: "pending ss j"
    and aw': "aw' = \<lparr>w_value = 0, w_items = [] # merge_sigs ss j sg @ [tl (multisig_code pubs)]\<rparr>"
    using sig by (auto simp: input_signature_def)
  obtain s1 s2 s3 where ss: "ss = [s1, s2, s3]" using pend by (auto simp: pending_def elim: three)
  obtain P Q where pq: "merge_sigs ss j sg = [P, Q]" "long_sigs ss = 1"
    "70 < length P" "length P < 105" "70 < length Q" "length Q < 105"
    using pending_merge [of s1 s2 s3 j sg] pend sg unfolding ss by metis
  obtain b wits where wl: "witnesses_list tx = Ptr b wits" "b \<in> live h" "list_all2 (rep_witness h) wits (p_wits t)"
    using rep by (rule rep_tx_cells)
  have lw: "length wits = length (p_ins t)" using wl(3) t(2) by (auto dest: list_all2_lengthD)
  have i: "i < length wits" using lw t(3) by simp
  let ?w = "wits ! i" and ?aw = "p_wits t ! i"
  have rw: "rep_witness h ?w ?aw" using wl(3) i by (simp add: list_all2_nthD)
  obtain sc where aw: "w_items ?aw = [x0, s1, s2, s3, sc]" using r by (auto simp: redeem_wit_def ss)
  have small: "length wits < 2 ^ 32" using t(1) lw by (simp add: hashable_def)
  have cnt: "inputs_counter tx = word_of_nat (length wits)" using rep lw by (simp add: rep_tx_def)
  have lc: "length (multisig_code pubs) = 106"
    using r by (auto simp: redeem_wit_def wf_redeem_def intro: length_multisig_code)
  define code where "code = tl (multisig_code pubs)"
  have code: "length code = 105" using lc by (simp add: code_def)
  \<comment> \<open>the stages\<close>
  have g1: "get_order_and_paths c (Some xpub) n ?w 3 0 0 h = Some (0, word_of_nat j, p1, p2, tick 7 h)"
    using rw r h f n(1) by (rule get_order_eq)
  have "rep_tx (tick 7 h) tx t" using rep by (auto simp: rep_tx_def rep_array_tick)
  then have g2: "gen_preimage c (u32_le (nversion tx)) (inputs_list tx) (inputs_counter tx) (outputs_list tx) (outputs_counter tx)
      ?w (word_of_nat i) (u32_le (lock_time tx)) (replicate 262 0) 262 (tick 7 h) =
    Some (0, bip143 t i (multisig_code pubs), tick 10 (tick 7 h))"
    using t rw r h by (intro gen_preimage_eq) auto
  have g3: "get_node_from_xprv_double_ckd c (Some xprv) m p1 p2 zero_hdnode = Some (0, node)"
    using node_of_text [OF text_node_set [OF nd] n(2)] nd by simp
  have "list_all wf_txin (p_ins t)" using rep by (auto elim!: rep_tx_cells dest: rep_inputs_wf)
  then have g4: "gen_sig c node (bip143 t i (multisig_code pubs)) 262 (replicate 73 0) 0 =
      Some (0, sg @ replicate (73 - length sg) 0, word_of_nat (length sg))"
    using gen_sig_eq [OF s length_bip143 [OF _ t(3) lc]] by simp
  define H where "H = tick 17 h"
  have H: "tick 10 (tick 7 h) = H" "calls H = calls h + 17" "live H = live h" "no_oom H" "heap_ok H"
    using h by (auto simp: H_def tick_simps)
  let ?n = "calls H" and ?w' = "new_witness (calls H + 12) P Q code"
  have "rep_witness H ?w ?aw" using rw by (simp add: H_def)
  then obtain h3 where g5: "gen_new_witness c (sg @ replicate (73 - length sg) 0) (len64 sg) (word_of_nat j) ?w H = Some (0, ?w', h3)"
    and h3: "live h3 = live H \<union> {?n + 1 + j, ?n + 12, ?n + 13, ?n + 14, ?n + 15}" "calls h3 = ?n + 16" "no_oom h3"
    using gen_new_witness_eq [of H ?w ?aw c x0 s1 s2 s3 ks pubs j sg P Q "replicate (73 - length sg) 0"]
      r H(4,5) pq pend sg by (auto simp: ss pending_def merge_sigs_def code_def)
  have us: "ucast (word_of_nat (length sg) :: u32) = (len64 sg :: u64)" using sg by auto
  have usg: "\<not> (word_of_nat (length sg) :: u32) < 70" using sg by auto
  have blks': "wit_blks ?w' = [?n + 12, ?n + 13, ?n + 14, ?n + 15]"
  proof -
    have "P \<noteq> []" "Q \<noteq> []" "code \<noteq> []" using pq code by auto
    then show ?thesis using new_witness_blks [of P Q code "?n + 12"] pq code by (simp add: add.commute)
  qed
  have old_blks: "distinct (wit_blks ?w)" "set (wit_blks ?w) \<inter> tx_core tx = {}" "set (wit_blks ?w) \<subseteq> live h"
    using sep_tx_nth [OF sep wl(1) i] rep_witness_blks [OF rw] by auto
  have sub: "live h \<subseteq> live h3" using h3(1) H(3) by auto
  have rw3: "rep_witness h3 ?w ?aw" using rw sub by (rule rep_witness_mono)
  define h4 where "h4 = free_set (set (wit_blks ?w)) h3"
  have fr: "free_single_witness ?w h3 = Some h4"
    unfolding h4_def using aw old_blks(1) by (intro free_single_witness_eq [OF rw3]) simp_all
  have c_old: "get_sigs_num_from_witness ?w h3 = Some 1" using rw3 aw pend [unfolded ss] by (rule count_old_sigs)
  have c_new: "get_sigs_num_from_witness ?w' h3 = Some 2"
    using pq h3(1) by (intro count_new_sigs) auto
  have o5: "op_items_counter ?w = 5" using rw aw by (simp add: rep_witness_def)
  have g6: "update_tx_after_signed tx ?w' (word_of_nat i) h3 = Some (0, tx\<lparr>witnesses_list := Ptr b (wits[i := ?w'])\<rparr>, h4)"
    using wl(1) _ i small cnt c_old o5 c_new fr by (rule update_tx_eq) (use sub wl(2) in blast)
  have chk: "\<not> inputs_counter tx - 1 < (word_of_nat i :: u64)" "unat (word_of_nat i :: u64) = i"
    using not_beyond_last [OF i small] i small by (simp_all add: cnt unat_of_nat_u64)
  have run: "sign_single_input c (Some xpub) n (Some xprv) m tx (word_of_nat i) h =
      Some (0, tx\<lparr>witnesses_list := Ptr b (wits[i := ?w'])\<rparr>, h4)"
    using wl(1,2) i chk n g1 g2 [unfolded H(1)] g3 g4 us usg g5 g6
    by (simp add: sign_single_input_def nth_ub_def not_less)
  \<comment> \<open>the blocks\<close>
  define lk where "lk = ?n + 1 + j"
  have fresh: "live h \<inter> {?n..} = {}" using h(2) H(2) by (auto simp: heap_ok_def)
  have news: "set (wit_blks ?w') \<subseteq> {?n..<?n + 16}" "lk \<in> {?n..<?n + 16}" "lk \<notin> set (wit_blks ?w')" "distinct (wit_blks ?w')"
    using pend by (auto simp: blks' lk_def pending_def)
  have "{?n..<?n + 16} \<subseteq> {?n..}" by auto
  then have disj: "set (wit_blks ?w') \<inter> live h = {}" "lk \<notin> live h" using news(1,2) fresh by blast+
  have live3: "live h3 = live h \<union> set (wit_blks ?w') \<union> {lk}" unfolding h3(1) blks' H(3) lk_def by auto
  have live4: "live h4 = live h - set (wit_blks ?w) \<union> set (wit_blks ?w') \<union> {lk}"
    unfolding h4_def live_free_set live3 using disj old_blks(3) by blast
  have no4: "no_oom h4" "calls h4 = ?n + 16" using h3 by (simp_all add: h4_def free_set_def)
  have ok4: "heap_ok h4" using news(1,2) h(2) H(2) no4(2) unfolding heap_ok_def live4 by fastforce
  have core: "tx_core tx \<subseteq> live h4" using rep_tx_core [OF rep] old_blks(2) unfolding live4 by auto
  have all: "set (concat (map wit_blks wits)) \<subseteq> live h"
  proof -
    have "set (wit_blks x) \<subseteq> live h" if "x \<in> set wits" for x
      using wl(3) that rep_witness_blks by (metis list_all2_conv_all_nth in_set_conv_nth)
    then show ?thesis by auto
  qed
  have "set (wit_blks (wits ! k)) \<subseteq> live h4" if "k < length wits" "k \<noteq> i" for k
  proof -
    have "set (wit_blks (wits ! k)) \<subseteq> live h" using all nth_mem [OF that(1)] by auto
    then show ?thesis using sep_tx_nth(3) [OF sep wl(1) i that] unfolding live4 by blast
  qed
  moreover have "rep_witness h4 ?w' aw'"
    unfolding aw' pq(1) using pq code rep_new_witness [of "?n + 12" h4 P Q code] live4 blks'
    by (simp add: code_def [symmetric])
  ultimately have rep4: "rep_tx h4 (tx\<lparr>witnesses_list := Ptr b (wits[i := ?w'])\<rparr>) (t\<lparr>p_wits := (p_wits t)[i := aw']\<rparr>)"
    using rep wl(1) i core by (intro rep_tx_update)
  have sep4: "sep_tx (tx\<lparr>witnesses_list := Ptr b (wits[i := ?w'])\<rparr>)"
    using sep wl(1) i news(4) by (rule sep_tx_update) (use disj(1) all rep_tx_core [OF rep] in blast)
  show thesis
    by (rule that [OF wl(1) i run rep4 sep4 no4(1) ok4 _ news(3) _ live4]) (use disj in auto)
qed

section \<open>All inputs\<close>

text \<open>Signing an input does not change the messages of the others.\<close>

lemma bip143_update:
  "i \<noteq> k \<Longrightarrow> bip143 (t\<lparr>p_wits := (p_wits t)[k := aw]\<rparr>) i sc = bip143 t i sc"
  by (simp add: bip143_def)

lemma input_signature_update:
  "i \<noteq> k \<Longrightarrow> input_signature c xpub xprv (t\<lparr>p_wits := (p_wits t)[k := aw]\<rparr>) i aw' = input_signature c xpub xprv t i aw'"
  by (simp add: input_signature_def bip143_update)

lemma sign_loop_eq:
  "\<lbrakk>rep_tx h tx t; sep_tx tx; hashable t; length (p_wits t) = length (p_ins t); no_oom h; heap_ok h;
    n \<le> 113; 112 \<le> m; m \<le> 113; i + k = length (p_ins t); length aws = length (p_ins t); take i (p_wits t) = take i aws;
    \<And>j. \<lbrakk>i \<le> j; j < length (p_ins t)\<rbrakk> \<Longrightarrow> input_signature c xpub xprv t j (aws ! j)\<rbrakk> \<Longrightarrow>
   \<exists>tx' h'. sign_loop c (Some xpub) n (Some xprv) m k i tx h = Some (0, tx', h') \<and>
     rep_tx h' tx' (t\<lparr>p_wits := aws\<rparr>) \<and> sep_tx tx' \<and> no_oom h' \<and> heap_ok h'"
proof (induction k arbitrary: i t tx h)
  case 0
  then have "p_wits t = aws" by simp
  then have e: "t\<lparr>p_wits := aws\<rparr> = t" by simp
  show ?case unfolding e using 0 by simp
next
  case (Suc k)
  have i: "i < length (p_ins t)" using Suc.prems(10) by simp
  then have sg: "input_signature c xpub xprv t i (aws ! i)" using Suc.prems(13) by blast
  obtain tx1 h1 where s1: "sign_single_input c (Some xpub) n (Some xprv) m tx (word_of_nat i) h = Some (0, tx1, h1)"
    and r1: "rep_tx h1 tx1 (t\<lparr>p_wits := (p_wits t)[i := aws ! i]\<rparr>)" "sep_tx tx1" "no_oom h1" "heap_ok h1"
    by (rule sign_single_input_eq [OF Suc.prems(1-4) i sg Suc.prems(5-9)]) blast
  let ?t = "t\<lparr>p_wits := (p_wits t)[i := aws ! i]\<rparr>"
  have "take (Suc i) ((p_wits t)[i := aws ! i]) = take (Suc i) aws"
    using i Suc.prems(4,11,12) by (simp add: take_Suc_conv_app_nth)
  then have "\<exists>tx' h'. sign_loop c (Some xpub) n (Some xprv) m k (Suc i) tx1 h1 = Some (0, tx', h') \<and>
      rep_tx h' tx' (?t\<lparr>p_wits := aws\<rparr>) \<and> sep_tx tx' \<and> no_oom h' \<and> heap_ok h'"
    using Suc.prems r1 by (intro Suc.IH) (auto simp: hashable_def input_signature_update)
  then show ?case using s1 by simp
qed

lemma sign_tx_eq:
  assumes "rep_tx h tx t" "sep_tx tx" "hashable t" "length (p_wits t) = length (p_ins t)" "no_oom h" "heap_ok h"
    and "n \<le> 113" "112 \<le> m" "m \<le> 113" "length aws = length (p_ins t)"
    and "\<And>j. j < length (p_ins t) \<Longrightarrow> input_signature c xpub xprv t j (aws ! j)"
  shows "\<exists>tx' h'. sign_tx c (Some xpub) n (Some xprv) m tx h = Some (0, tx', h') \<and>
     rep_tx h' tx' (t\<lparr>p_wits := aws\<rparr>) \<and> sep_tx tx' \<and> no_oom h' \<and> heap_ok h'"
proof -
  have "unat (inputs_counter tx) = length (p_ins t)"
    using assms(1,3) by (simp add: rep_tx_def hashable_def unat_of_nat_u64)
  then show ?thesis
    using sign_loop_eq [OF assms(1-9), of 0 "length (p_ins t)" aws c xpub xprv] assms(7,9-11)
    by (simp add: sign_tx_def not_less)
qed

section \<open>What the parser builds is separated\<close>

lemma script_blks_mks:
  assumes "\<And>n x. blk (ptrf (mk n x)) = n"
  shows "set (script_blks lenf ptrf (mks mk (\<lambda>_. Suc 0) n xs)) \<subseteq> {n..<n + length xs} \<and>
    distinct (script_blks lenf ptrf (mks mk (\<lambda>_. Suc 0) n xs))"
proof (induction xs arbitrary: n)
  case (Cons x xs)
  show ?case using Cons.IH [of "Suc n"] by (auto simp: assms)
qed simp

lemma wit_blks_mk: "set (wit_blks (mk_witness n w)) \<subseteq> {n..<n + wit_blocks w} \<and> distinct (wit_blks (mk_witness n w))"
proof -
  have "blk (op_item (mk_op_item k x)) = k" for k x by (simp add: mk_op_item_def)
  from script_blks_mks [of op_item mk_op_item op_item_len "Suc n" "w_items w", OF this]
  show ?thesis by (auto simp: wit_blks_def mk_witness_def)
qed

lemma disjoint_subsets: "\<lbrakk>A \<subseteq> X; B \<subseteq> Y; X \<inter> Y = {}\<rbrakk> \<Longrightarrow> A \<inter> B = {} \<and> B \<inter> A = {}"
  by blast

lemma wits_blks_mk:
  "set (concat (map wit_blks (mk_witnesses n ws))) \<subseteq> {n..<n + blocks ws} \<and> distinct (concat (map wit_blks (mk_witnesses n ws)))"
proof (induction ws arbitrary: n)
  case (Cons w ws)
  let ?m = "n + wit_blocks w"
  have a: "set (wit_blks (mk_witness n w)) \<subseteq> {n..<?m}" "distinct (wit_blks (mk_witness n w))"
    using wit_blks_mk by auto
  have b: "set (concat (map wit_blks (mk_witnesses ?m ws))) \<subseteq> {?m..<?m + blocks ws}"
    "distinct (concat (map wit_blks (mk_witnesses ?m ws)))" using Cons.IH [of ?m] by auto
  have "{n..<?m} \<inter> {?m..<?m + blocks ws} = {}" by auto
  note disj = disjoint_subsets [OF a(1) b(1) this]
  have c: "{n..<?m} \<subseteq> {n..<n + blocks (w # ws)}" "{?m..<?m + blocks ws} \<subseteq> {n..<n + blocks (w # ws)}" by auto
  have e: "concat (map wit_blks (mk_witnesses n (w # ws))) =
      wit_blks (mk_witness n w) @ concat (map wit_blks (mk_witnesses ?m ws))" by simp
  show ?case unfolding e distinct_append set_append Un_subset_iff
    using subset_trans [OF a(1) c(1)] subset_trans [OF b(1) c(2)] a(2) b(2) disj [THEN conjunct1] by (intro conjI) assumption+
qed simp

lemma sep_mk_tx: "sep_tx (mk_tx n t)"
proof -
  let ?o1 = "n + Suc (length (p_ins t))"
  let ?w1 = "?o1 + Suc (length (p_outs t))"
  have i: "set (script_blks txin_script_len txin_script (mk_inputs (Suc n) (p_ins t))) \<subseteq> {n..<Suc ?w1}"
    using script_blks_mks [of txin_script mk_input txin_script_len "Suc n" "p_ins t"] by (auto simp: mk_input_def)
  have o: "set (script_blks txout_script_len txout_script (mk_outputs (Suc ?o1) (p_outs t))) \<subseteq> {n..<Suc ?w1}"
    using script_blks_mks [of txout_script mk_output txout_script_len "Suc ?o1" "p_outs t"] by (auto simp: mk_output_def)
  have c: "tx_core (mk_tx n t) \<subseteq> {n..<Suc ?w1}"
    using i o by (simp add: tx_core_def mk_tx_def Let_def)
  have "{n..<Suc ?w1} \<inter> {Suc ?w1..<Suc ?w1 + blocks (p_wits t)} = {}" by auto
  note disj = disjoint_subsets [OF c wits_blks_mk [THEN conjunct1] this]
  have "cells (witnesses_list (mk_tx n t)) = mk_witnesses (Suc ?w1) (p_wits t)"
    by (simp add: mk_tx_def Let_def)
  then show ?thesis
    using disj wits_blks_mk [of "Suc ?w1" "p_wits t"] unfolding sep_tx_def by metis
qed

end
