(* ===== verification/Sign_Theorems.thy ===== *)
theory Sign_Theorems
  imports Sign_Correct
begin

text \<open>What the signer guarantees, with a transaction on which its hypotheses hold.\<close>

section \<open>A transaction to sign\<close>

text \<open>One input, whose script has three keys; the first of them has signed.  The signer has the
  second key.\<close>

definition demo_key :: "byte \<Rightarrow> byte list"
  where "demo_key x = [0x02, 0xaa, 0x7e, 0xd3] @ replicate 41 0 @ 2 # replicate 32 x"

definition demo_prv :: "byte list"
  where "demo_prv = [0x02, 0xaa, 0x7a, 0x99] @ replicate 41 0 @ 0 # replicate 32 9"

definition demo_curve :: curve_ops
  where "demo_curve = toy_curve (demo_key 20) demo_prv (replicate 64 1)"

definition demo_keys :: "xkey list"
  where "demo_keys = map (\<lambda>x. \<lparr>xk_type = 0xff, xk_data = demo_key x, xk_path1 = 0, xk_path2 = 3\<rparr>) [10, 20, 30]"

definition demo_pubs :: "byte list list"
  where "demo_pubs = map (\<lambda>x. 5 # replicate 32 (x + 3)) [10, 20, 30]"

definition demo_stack :: "byte list list"
  where "demo_stack = [[0], replicate 71 5, [0xff], [0xff]]"

definition demo_ptx :: ptx where
  "demo_ptx = \<lparr>p_version = 2,
     p_ins = [\<lparr>ti_hash = replicate 32 7, ti_index = [1, 0, 0, 0], ti_script = [], ti_sequence = [0xff, 0xff, 0xff, 0xff]\<rparr>],
     p_outs = [\<lparr>to_value = [1, 0, 0, 0, 0, 0, 0, 0], to_script = [0x51]\<rparr>],
     p_wits = [\<lparr>w_value = 5, w_items = demo_stack @ [redeem_bytes (Cmd 0x52) demo_keys (Cmd 0x53) (Cmd 0xae)]\<rparr>],
     p_locktime = 9\<rparr>"

definition demo_wit :: witness where
  "demo_wit = \<lparr>w_value = 0, w_items = [[], replicate 71 5, der_sig (replicate 32 1) (replicate 32 1) @ [1],
     tl (multisig_code demo_pubs)]\<rparr>"

lemma demo_data_key: "data_key demo_curve (demo_key x) 0 3 = Some (5 # replicate 32 (x + 3))"
  by (simp add: data_key_def node_of_data_def read_be_def le_u32_def demo_key_def demo_curve_def toy_curve_def
      two_steps_def key33_def zero_hdnode_def)

lemma demo_redeem: "wf_redeem (Cmd 0x52) demo_keys (Cmd 0x53) (Cmd 0xae)"
  by (simp add: wf_redeem_def demo_keys_def redeem_bytes_def redeem_items_def xkey_bytes_def demo_key_def)

lemma demo_redeem_wit: "redeem_wit demo_curve (p_wits demo_ptx ! 0) demo_stack demo_keys demo_pubs"
  unfolding redeem_wit_def
  using demo_redeem
  by (auto simp: demo_ptx_def demo_stack_def demo_keys_def demo_pubs_def xkey_pub_def demo_data_key)

lemma demo_length_redeem: "length (redeem_bytes (Cmd 0x52) demo_keys (Cmd 0x53) (Cmd 0xae)) = 258"
  by (simp add: demo_keys_def redeem_bytes_def redeem_items_def xkey_bytes_def demo_key_def)

lemma demo_wf: "wf_ptx demo_ptx"
  using demo_length_redeem
  by (simp add: wf_ptx_def demo_ptx_def demo_stack_def wf_txin_def wf_txout_def wf_witness_def short_blob_def
      enc_ptx_def enc_list_def enc_txin_def enc_txout_def enc_pwit_def blob_def partial_magic_def varint_def)

lemma demo_hashable: "hashable demo_ptx"
  by (simp add: hashable_def demo_ptx_def enc_txout_def blob_def varint_def)

lemma demo_der_sig: "length (der_sig (replicate 32 1) (replicate 32 1)) = 70"
  by (simp add: der_sig_def der_int_def word_le_nat_alt)

lemma demo_find: "find_pos demo_curve [0x5a, 0] 0 (key_triples demo_keys demo_pubs) = Some (1, 0, 3)"
proof -
  have "text_key demo_curve [0x5a, 0] 0 3 = data_key demo_curve (demo_key 20) 0 3"
    by (simp add: text_key_def text_data_def demo_curve_def toy_curve_def)
  then have t: "text_key demo_curve [0x5a, 0] 0 3 = Some (5 # replicate 32 23)"
    by (simp add: demo_data_key)
  have n: "replicate 32 (23 :: byte) \<noteq> replicate 32 13"
    by (simp add: list_eq_iff_nth_eq exI [of _ 0])
  show ?thesis by (simp add: key_triples_def demo_keys_def demo_pubs_def t n)
qed

lemma demo_node: "\<exists>node. text_node demo_curve [0x7a, 0] 0 3 = Some node"
  by (simp add: text_node_def text_data_def demo_curve_def toy_curve_def node_of_data_def demo_prv_def
      read_be_def le_u32_def two_steps_def nth_append)

lemma demo_be_nat: "be_nat (replicate 32 1) \<noteq> 0"
proof -
  have "replicate 32 1 = 1 # replicate 31 (1 :: byte)" by (simp add: replicate_Suc [symmetric] del: replicate_Suc)
  then show ?thesis by (simp only: be_nat_Cons) simp
qed

lemma demo_msg_sig: "msg_sig demo_curve node m = Some (der_sig (replicate 32 1) (replicate 32 1) @ [1])"
  by (simp add: msg_sig_def demo_curve_def toy_curve_def demo_be_nat del: rev_replicate)

lemma demo_signature: "input_signature demo_curve [0x5a, 0] [0x7a, 0] demo_ptx 0 demo_wit"
proof -
  obtain node where "text_node demo_curve [0x7a, 0] 0 3 = Some node" using demo_node by blast
  moreover have "pending (tl demo_stack) 1"
    by (simp add: pending_def demo_stack_def)
  moreover have "demo_wit = \<lparr>w_value = 0, w_items = [] # merge_sigs (tl demo_stack) 1
      (der_sig (replicate 32 1) (replicate 32 1) @ [1]) @ [tl (multisig_code demo_pubs)]\<rparr>"
    by (simp add: demo_wit_def merge_sigs_def demo_stack_def demo_der_sig)
  moreover have "demo_stack = [0] # tl demo_stack" by (simp add: demo_stack_def)
  moreover have "length (der_sig (replicate 32 1) (replicate 32 1) @ [1]) \<in> {71, 72}" by (simp add: demo_der_sig)
  ultimately show ?thesis
    using demo_redeem_wit demo_find demo_msg_sig unfolding input_signature_def by metis
qed

section \<open>Properties\<close>

lemma demo_sizes: "hashable demo_ptx" "length (p_wits demo_ptx) = length (p_ins demo_ptx)" "length (p_ins demo_ptx) = 1"
  using demo_hashable by (simp_all add: demo_ptx_def)

lemma demo_sound: "no_oom (alloc (tx_blocks demo_ptx) sound_heap)" "heap_ok (alloc (tx_blocks demo_ptx) sound_heap)"
  by (simp_all add: heap_ok_alloc)

lemma demo_rep: "rep_tx (alloc (tx_blocks demo_ptx) sound_heap) (mk_tx 0 demo_ptx) demo_ptx"
  using rep_mk_tx [OF demo_wf, of sound_heap] by (simp add: sound_heap_def)

text \<open>C9: \<^verbatim>\<open>sign_tx\<close> refines signing of abstract transactions.  When every input has a redeem script of
  three extended keys of which the signer owns one, another key has signed already, and the DER
  signature with its hash type has 71 or 72 bytes, it returns 0 and leaves a structure on the heap
  that represents the transaction with every witness replaced by the signed one (an empty item,
  the two signatures in the order of their keys, the two-of-three script), and nothing else changed.\<close>

theorem sign_tx_correct:
  assumes "rep_tx h tx t" "sep_tx tx" "hashable t" "length (p_wits t) = length (p_ins t)" "no_oom h" "heap_ok h"
    and "n \<le> 113" "112 \<le> m" "m \<le> 113" "length aws = length (p_ins t)"
    and "\<And>j. j < length (p_ins t) \<Longrightarrow> input_signature c xpub xprv t j (aws ! j)"
  shows "\<exists>tx' h'. sign_tx c (Some xpub) n (Some xprv) m tx h = Some (0, tx', h') \<and>
     rep_tx h' tx' (t\<lparr>p_wits := aws\<rparr>)"
  using sign_tx_eq [OF assms] by blast

lemma sign_tx_correct_witness:
  "\<exists>tx' h'. sign_tx demo_curve (Some [0x5a, 0]) 112 (Some [0x7a, 0]) 112 (mk_tx 0 demo_ptx)
       (alloc (tx_blocks demo_ptx) sound_heap) = Some (0, tx', h') \<and> rep_tx h' tx' (demo_ptx\<lparr>p_wits := [demo_wit]\<rparr>)"
  by (rule sign_tx_correct [OF demo_rep sep_mk_tx demo_sizes(1,2) demo_sound])
    (use demo_signature in \<open>simp_all add: demo_sizes\<close>)

text \<open>C8: The life of a transaction on the node: the partial transaction received is parsed, signed,
  its length computed and the signed transaction written.  The bytes sent back are the wire format
  of the received transaction with the signed witnesses.\<close>

theorem parse_sign_serialize:
  assumes "wf_ptx t" "hashable t" "no_oom h" "heap_ok h" "n \<le> 113" "112 \<le> m" "m \<le> 113"
    and "length aws = length (p_ins t)" "writable_tx (t\<lparr>p_wits := aws\<rparr>)"
    and "\<And>j. j < length (p_ins t) \<Longrightarrow> input_signature c xpub xprv t j (aws ! j)"
    and "length b = length (enc_stx (t\<lparr>p_wits := aws\<rparr>))"
  shows "do {
      (r1, tx, h1) \<leftarrow> init_tx (Some (enc_ptx t)) (len64 (enc_ptx t)) zero_tx h;
      (r2, tx', h2) \<leftarrow> sign_tx c (Some xpub) n (Some xprv) m tx h1;
      (r3, len) \<leftarrow> get_tx_hex_len tx' 0 h2;
      (r4, b', len', h3) \<leftarrow> serialize_tx tx' (Some b) 0 h2;
      Some (r1, r2, r3, len, r4, b') } =
    Some (0, 0, 0, len64 (enc_stx (t\<lparr>p_wits := aws\<rparr>)), 0, Some (enc_stx (t\<lparr>p_wits := aws\<rparr>)))"
proof -
  let ?H = "alloc (tx_blocks t) h"
  have i: "init_tx (Some (enc_ptx t)) (len64 (enc_ptx t)) zero_tx h = Some (0, mk_tx (calls h) t, ?H)"
    using init_tx_enc [OF assms(1,3), of "[]" zero_tx] assms(1) by (simp add: wf_ptx_def)
  have "no_oom ?H" "heap_ok ?H" using assms(3,4) by (simp_all add: heap_ok_alloc)
  moreover have "length (p_wits t) = length (p_ins t)" using assms(1) by (simp add: wf_ptx_def)
  ultimately obtain tx' h' where s: "sign_tx c (Some xpub) n (Some xprv) m (mk_tx (calls h) t) ?H = Some (0, tx', h')"
    and r: "rep_tx h' tx' (t\<lparr>p_wits := aws\<rparr>)" "no_oom h'" "heap_ok h'"
    using sign_tx_eq [OF rep_mk_tx [OF assms(1)] sep_mk_tx assms(2) _ _ _ assms(5-8,10)] by blast
  have "length b < 2 ^ 64" using assms(9,11) by (simp add: writable_tx_def)
  then show ?thesis
    using i s get_tx_hex_len_enc [OF r(1) assms(9)] serialize_tx_enc [OF r(1) assms(9) r(2,3)] assms(11) by simp
qed

lemma demo_length_code: "length (multisig_code demo_pubs) = 106"
  by (simp add: multisig_code_def demo_pubs_def)

lemma demo_writable: "writable_tx (demo_ptx\<lparr>p_wits := [demo_wit]\<rparr>)"
  using demo_length_code
  by (simp add: writable_tx_def demo_ptx_def demo_wit_def demo_der_sig enc_stx_def enc_list_def enc_txin_def
      enc_txout_def enc_wit_def blob_def varint_def)

lemma parse_sign_serialize_witness:
  "\<exists>tx h1 tx' h2. init_tx (Some (enc_ptx demo_ptx)) (len64 (enc_ptx demo_ptx)) zero_tx sound_heap = Some (0, tx, h1) \<and>
     sign_tx demo_curve (Some [0x5a, 0]) 112 (Some [0x7a, 0]) 112 tx h1 = Some (0, tx', h2) \<and>
     get_tx_hex_len tx' 0 h2 = Some (0, len64 (enc_stx (demo_ptx\<lparr>p_wits := [demo_wit]\<rparr>)))"
proof -
  have sig: "\<And>j. j < length (p_ins demo_ptx) \<Longrightarrow> input_signature demo_curve [0x5a, 0] [0x7a, 0] demo_ptx j ([demo_wit] ! j)"
    using demo_signature by (simp add: demo_sizes)
  have n: "(112 :: u32) \<le> 113" "(112 :: u32) \<le> 112" "length [demo_wit] = length (p_ins demo_ptx)"
    by (simp_all add: demo_sizes)
  show ?thesis
    using parse_sign_serialize [OF demo_wf demo_sizes(1) sound_heap n(1,2,1,3) demo_writable sig length_replicate [of _ 0]]
    by (auto simp: bind_eq_Some_conv split: prod.splits)
qed

text \<open>C33: The message that is signed is that of BIP 143: version, double hash of the outpoints, double
  hash of the sequence numbers, the outpoint of the input, its script, the value of the coin, its
  sequence number, double hash of the outputs, lock time and hash type, for every input of a
  transaction on the heap.  The blocks allocated on the way are all given back.\<close>

theorem gen_preimage_bip143:
  assumes "rep_tx h tx t" "hashable t" "i < length (p_ins t)" "rep_witness h w (p_wits t ! i)"
    and "redeem_wit c (p_wits t ! i) xs ks pubs" "no_oom h" "heap_ok h" "length buf = 262"
  shows "\<exists>h'. gen_preimage c (u32_le (nversion tx)) (inputs_list tx) (inputs_counter tx) (outputs_list tx)
      (outputs_counter tx) w (word_of_nat i) (u32_le (lock_time tx)) buf 262 h =
    Some (0, bip143 t i (multisig_code pubs), h') \<and> live h' = live h"
  using gen_preimage_eq [OF assms] by (simp add: heap_simps)

lemma demo_wit_rep: "\<exists>w. rep_witness (alloc (tx_blocks demo_ptx) sound_heap) w (p_wits demo_ptx ! 0)"
  using demo_rep by (rule rep_tx_cells) (auto simp: demo_ptx_def list_all2_Cons2)

lemma gen_preimage_bip143_witness:
  "\<exists>w h'. gen_preimage demo_curve (u32_le 2) (inputs_list (mk_tx 0 demo_ptx)) 1 (outputs_list (mk_tx 0 demo_ptx)) 1 w 0
      (u32_le 9) (replicate 262 0) 262 (alloc (tx_blocks demo_ptx) sound_heap) =
    Some (0, bip143 demo_ptx 0 (multisig_code demo_pubs), h')"
proof -
  obtain w where w: "rep_witness (alloc (tx_blocks demo_ptx) sound_heap) w (p_wits demo_ptx ! 0)"
    using demo_wit_rep by blast
  have "inputs_counter (mk_tx 0 demo_ptx) = 1" "outputs_counter (mk_tx 0 demo_ptx) = 1"
    "nversion (mk_tx 0 demo_ptx) = 2" "lock_time (mk_tx 0 demo_ptx) = 9"
    by (simp_all add: mk_tx_def demo_ptx_def Let_def)
  then show ?thesis
    using gen_preimage_bip143 [OF demo_rep demo_sizes(1) _ w demo_redeem_wit demo_sound, of "replicate 262 0"]
    by (auto simp: demo_sizes)
qed

lemma count_long_eq:
  assumes rep: "rep_witness h w aw" and aw: "w_items aw = [x0, s1, s2, s3, sc]"
  shows "count_long 3 0 (op_items_list w) h 0 = Some (int (long_sigs [s1, s2, s3]))"
proof -
  obtain o0 o1 o2 o3 os where arr: "deref (op_items_list w) h = Some (o0 # o1 # o2 # o3 # os)"
    and r: "rep_item h o1 s1" "rep_item h o2 s2" "rep_item h o3 s3"
    using stack_items [OF rep aw] by metis
  have l: "length s1 < 2 ^ 64" "length s2 < 2 ^ 64" "length s3 < 2 ^ 64"
    using r [THEN rep_item_short] by simp_all
  have m: "op_item_len o1 = len64 s1" "op_item_len o2 = len64 s2" "op_item_len o3 = len64 s3"
    using r by (simp_all add: rep_item_def)
  show ?thesis
    using arr by (simp add: numeral_3_eq_3 nth_ub_def m one_less_len64 [OF l(1)] one_less_len64 [OF l(2)]
        one_less_len64 [OF l(3)] long_sigs_def)
qed

text \<open>A signer adds its signature only as the second one.  A witness that has no signature yet or
  more than one is refused, with every block and the whole heap as they were.\<close>

theorem gen_new_witness_wants_one:
  assumes "rep_witness h w aw" "w_items aw = [x0, s1, s2, s3, sc]" "long_sigs [s1, s2, s3] \<noteq> 1"
  shows "gen_new_witness c sg n order w h = Some (-1, zero_witness, h)"
proof -
  have "get_sigs_list w h = Some (-1, zero_sigs_list, h)"
    using count_long_eq [OF assms(1,2)] assms(1-3) by (simp add: get_sigs_list_def rep_witness_def)
  moreover have "free_sigs_list zero_sigs_list h = Some h"
    by (simp add: free_sigs_list_def zero_sigs_list_def)
  ultimately show ?thesis by (simp add: gen_new_witness_def)
qed

lemma gen_new_witness_wants_one_witness:
  "gen_new_witness demo_curve (replicate 71 1) 71 0 (mk_witness 0 \<lparr>w_value = 1, w_items = [[0], [0], [0], [0], [1]]\<rparr>)
     (alloc 6 sound_heap) = Some (-1, zero_witness, alloc 6 sound_heap)"
proof -
  have "rep_witness (alloc 6 sound_heap) (mk_witness 0 \<lparr>w_value = 1, w_items = [[0], [0], [0], [0], [1]]\<rparr>)
      \<lparr>w_value = 1, w_items = [[0], [0], [0], [0], [1]]\<rparr>"
    by (rule rep_mk_witness) (auto simp: live_alloc sound_heap_def wf_witness_def short_blob_def)
  then show ?thesis by (rule gen_new_witness_wants_one) (auto simp: long_sigs_def)
qed

text \<open>A signature of 70 bytes (a DER signature with a 31-byte number) passes the length test of
  \<^verbatim>\<open>sign_single_input\<close> but is refused here: only 71 and 72 bytes are inserted.  The copies of the
  signatures made before are given back.\<close>

theorem gen_new_witness_signature_size:
  assumes "rep_witness h w aw" "w_items aw = [x0, s1, s2, s3, sc]" "long_sigs [s1, s2, s3] = 1"
    and "n < 71 \<or> 72 < n" "no_oom h" "heap_ok h"
  shows "\<exists>h'. gen_new_witness c sg n order w h = Some (-1, zero_witness, h') \<and> live h' = live h"
proof (cases "113 < n \<or> 2 < order")
  case False
  let ?sl = "\<lparr>sigs_counter = 3, sigs = Ptr (calls h) [slot (calls h + 1) s1, slot (calls h + 2) s2, slot (calls h + 3) s3]\<rparr>"
  have "insert_new_sig_to_list sg n ?sl order (alloc 4 h) = Some (-1, ?sl, alloc 4 h)"
    using assms(4) by (auto simp: insert_new_sig_to_list_def)
  moreover have "free_sigs_list ?sl (alloc 4 h) = Some (free_set {calls h, calls h + 1, calls h + 2, calls h + 3} (alloc 4 h))"
    by (rule free_sigs_list_eq) (auto simp: live_alloc)
  moreover have "live (free_set {calls h, calls h + 1, calls h + 2, calls h + 3} (alloc 4 h)) = live h"
    using assms(6) by (auto simp: live_free_set live_alloc heap_ok_def)
  ultimately show ?thesis
    using False get_sigs_list_eq [OF assms(1,2,3,5)] by (simp add: gen_new_witness_def)
qed (auto simp: gen_new_witness_def)

lemma gen_new_witness_signature_size_witness:
  "\<exists>h'. gen_new_witness demo_curve (replicate 70 1) 70 0
     (mk_witness 0 \<lparr>w_value = 1, w_items = [[0], [0], [0], replicate 71 1, [1]]\<rparr>) (alloc 6 sound_heap) =
     Some (-1, zero_witness, h') \<and> live h' = {0..<6}"
proof -
  have "rep_witness (alloc 6 sound_heap) (mk_witness 0 \<lparr>w_value = 1, w_items = [[0], [0], [0], replicate 71 1, [1]]\<rparr>)
      \<lparr>w_value = 1, w_items = [[0], [0], [0], replicate 71 1, [1]]\<rparr>"
    by (rule rep_mk_witness) (auto simp: live_alloc sound_heap_def wf_witness_def short_blob_def)
  moreover have "live (alloc 6 sound_heap) = {0..<6}" by (simp add: live_alloc sound_heap_def)
  ultimately show ?thesis
    using gen_new_witness_signature_size [of "alloc 6 sound_heap" _ _ "[0]" "[0]" "[0]" "replicate 71 1" "[1]" 70
        demo_curve "replicate 70 1" 0]
    by (simp add: long_sigs_def heap_ok_alloc)
qed

text \<open>Every input that is signed loses one block: the copy of the byte that stood for the missing
  signature is overwritten in the list of signatures and never freed.  After the call the block is
  allocated and no part of the transaction refers to it.\<close>

theorem sign_single_input_leaks:
  assumes "rep_tx h tx t" "sep_tx tx" "hashable t" "length (p_wits t) = length (p_ins t)" "i < length (p_ins t)"
    and "input_signature c xpub xprv t i aw'" "no_oom h" "heap_ok h" "n \<le> 113" "112 \<le> m" "m \<le> 113"
  shows "\<exists>tx' h' lk. sign_single_input c (Some xpub) n (Some xprv) m tx (word_of_nat i) h = Some (0, tx', h') \<and>
     lk \<in> live h' - live h \<and> lk \<notin> tx_core tx' \<and> (\<forall>w \<in> set (cells (witnesses_list tx')). lk \<notin> set (wit_blks w))"
proof -
  obtain b wits w' lk h' where r: "witnesses_list tx = Ptr b wits" "i < length wits"
    "sign_single_input c (Some xpub) n (Some xprv) m tx (word_of_nat i) h =
      Some (0, tx\<lparr>witnesses_list := Ptr b (wits[i := w'])\<rparr>, h')"
    "lk \<notin> live h" "lk \<notin> set (wit_blks w')"
    "live h' = live h - set (wit_blks (wits ! i)) \<union> set (wit_blks w') \<union> {lk}"
    using sign_single_input_eq [OF assms] by metis
  let ?tx = "tx\<lparr>witnesses_list := Ptr b (wits[i := w'])\<rparr>"
  have "tx_core ?tx = tx_core tx" using r(1) by (simp add: tx_core_def)
  then have "lk \<notin> tx_core ?tx" using rep_tx_core [OF assms(1)] r(4) by auto
  moreover have "lk \<notin> set (wit_blks w)" if "w \<in> set (wits[i := w'])" for w
  proof -
    have "list_all2 (rep_witness h) wits (p_wits t)" using assms(1) r(1) by (auto elim: rep_tx_cells)
    then have "set (wit_blks v) \<subseteq> live h" if "v \<in> set wits" for v
      using that by (metis in_set_conv_nth list_all2_conv_all_nth rep_witness_blks)
    then show ?thesis using that r(4,5) set_update_subset_insert [of wits i w'] by blast
  qed
  ultimately show ?thesis using r(3,4,6) by auto
qed

lemma sign_single_input_leaks_witness:
  "\<exists>tx' h' lk. sign_single_input demo_curve (Some [0x5a, 0]) 112 (Some [0x7a, 0]) 112 (mk_tx 0 demo_ptx) 0
       (alloc (tx_blocks demo_ptx) sound_heap) = Some (0, tx', h') \<and> lk \<in> live h' \<and> lk \<notin> tx_core tx'"
  using sign_single_input_leaks [OF demo_rep sep_mk_tx demo_sizes(1,2) _ demo_signature demo_sound, of 112 112]
  by (auto simp: demo_sizes)

end
