(* ===== verification/Tx_Life.thy ===== *)
theory Tx_Life
  imports Sign_Theorems
begin

text \<open>A transaction on the heap of the server from the bytes received to the blocks freed: parsed, signed,
  written and freed.\<close>

section \<open>Freeing a transaction\<close>

text \<open>The blocks of a transaction without those of its witnesses, one after the other.\<close>

definition core_blks :: "spc_tx \<Rightarrow> nat list" where
  "core_blks tx = blk (inputs_list tx) # script_blks txin_script_len txin_script (cells (inputs_list tx)) @
     blk (outputs_list tx) # script_blks txout_script_len txout_script (cells (outputs_list tx)) @ [blk (witnesses_list tx)]"

definition same_core :: "spc_tx \<Rightarrow> spc_tx \<Rightarrow> bool" where
  "same_core tx tx' \<longleftrightarrow> inputs_list tx' = inputs_list tx \<and> outputs_list tx' = outputs_list tx \<and>
     blk (witnesses_list tx') = blk (witnesses_list tx)"

lemma same_core_refl [simp]: "same_core tx tx"
  by (simp add: same_core_def)

lemma same_core_trans: "\<lbrakk>same_core a b; same_core b c\<rbrakk> \<Longrightarrow> same_core a c"
  by (simp add: same_core_def)

lemma core_blks_same: "same_core tx tx' \<Longrightarrow> core_blks tx' = core_blks tx"
  by (simp add: same_core_def core_blks_def)

lemma blk_store [simp]: "p \<noteq> NULL \<Longrightarrow> blk (store p x) = blk p"
  by (cases p) simp_all

lemma store_core: "same_core tx (tx\<lparr>witnesses_list := store (witnesses_list tx) arr\<rparr>)" if "witnesses_list tx \<noteq> NULL"
  using that by (simp add: same_core_def)

lemma update_core:
  assumes "update_tx_after_signed tx w i h = Some (r, tx', h')"
  shows "same_core tx tx'"
proof -
  have "witnesses_list tx \<noteq> NULL" using assms by (auto simp: update_tx_after_signed_def)
  note store_core [OF this]
  then show ?thesis using assms
    by (auto simp: update_tx_after_signed_def update_tx_witness_def split: bind_splits if_splits)
qed

lemma sign_single_core: "sign_single_input c xpub n xprv m tx i h = Some (r, tx', h') \<Longrightarrow> same_core tx tx'"
  unfolding sign_single_input_def
  by (auto split: if_splits bind_splits) (erule update_core)+

lemma sign_loop_core: "sign_loop c xpub n xprv m k i tx h = Some (r, tx', h') \<Longrightarrow> same_core tx tx'"
proof (induction k arbitrary: i tx h)
  case (Suc k)
  then show ?case
    by (auto split: bind_splits if_splits dest!: sign_single_core intro: same_core_trans)
qed simp

lemma sign_tx_core: "sign_tx c xpub n xprv m tx h = Some (r, tx', h') \<Longrightarrow> same_core tx tx'"
  by (auto simp: sign_tx_def split: if_splits dest: sign_loop_core)

lemma rep_witnesses_frame:
  "\<lbrakk>list_all2 (rep_witness h) ws aws; set (concat (map wit_blks ws)) \<subseteq> live h'\<rbrakk> \<Longrightarrow> list_all2 (rep_witness h') ws aws"
  by (induction rule: list_all2_induct) (simp_all add: rep_witness_frame)

lemma rep_witnesses_live:
  "list_all2 (rep_witness h) ws aws \<Longrightarrow> set (concat (map wit_blks ws)) \<subseteq> live h"
  by (induction rule: list_all2_induct) (simp_all add: rep_witness_blks)

lemma free_witness_loop_eq:
  "\<lbrakk>b \<in> live h; b \<notin> set (concat (map wit_blks ws)); list_all2 (rep_witness h) ws aws; list_all (\<lambda>w. length (w_items w) < 2 ^ 64) aws;
    distinct (concat (map wit_blks ws)); length done' = i\<rbrakk> \<Longrightarrow>
   free_witness_loop (length ws) i (Ptr b (done' @ ws)) h = Some (free_set (set (concat (map wit_blks ws))) h)"
proof (induction ws arbitrary: aws h i done')
  case (Cons w ws)
  obtain aw aws' where aw: "aws = aw # aws'" "rep_witness h w aw" "list_all2 (rep_witness h) ws aws'"
    using Cons.prems(3) by (auto simp: list_all2_Cons1)
  have f: "free_single_witness w h = Some (free_set (set (wit_blks w)) h)"
    using aw Cons.prems by (intro free_single_witness_eq) auto
  let ?h = "free_set (set (wit_blks w)) h"
  have d: "set (wit_blks w) \<inter> set (concat (map wit_blks ws)) = {}" using Cons.prems(5) by auto
  have "set (concat (map wit_blks ws)) \<subseteq> live ?h"
    using rep_witnesses_live [OF aw(3)] d by (auto simp: live_free_set simp del: set_concat set_map)
  then have "list_all2 (rep_witness ?h) ws aws'" by (rule rep_witnesses_frame [OF aw(3)])
  then have "free_witness_loop (length ws) (Suc i) (Ptr b ((done' @ [w]) @ ws)) ?h = Some (free_set (set (concat (map wit_blks ws))) ?h)"
    using Cons.prems aw(1) by (intro Cons.IH) (auto simp: live_free_set)
  then show ?case using Cons.prems(1,6) f by (simp add: buf_simps free_set_free_set Un_commute)
qed (simp add: heap_simps)

lemma rep_core_live: "rep_tx h tx t \<Longrightarrow> set (core_blks tx) \<subseteq> live h"
  using rep_tx_core [of h tx t] by (auto simp: core_blks_def tx_core_def elim!: rep_tx_cells)

lemma core_disjoint: "\<lbrakk>rep_tx h tx t; sep_tx tx\<rbrakk> \<Longrightarrow> set (concat (map wit_blks (cells (witnesses_list tx)))) \<inter> set (core_blks tx) = {}"
  by (elim rep_tx_cells) (auto simp: core_blks_def tx_core_def sep_tx_def simp del: set_concat set_map)

lemma rep_lens: "rep_tx h tx t \<Longrightarrow> list_all (\<lambda>st. txin_script_len st = 0 \<or> txin_script st \<noteq> NULL) (cells (inputs_list tx)) \<and>
    list_all (\<lambda>st. txout_script_len st = 0 \<or> txout_script st \<noteq> NULL) (cells (outputs_list tx))"
proof -
  assume r: "rep_tx h tx t"
  have "list_all2 (rep_input h) sts xs \<Longrightarrow> list_all (\<lambda>st. txin_script_len st = 0 \<or> txin_script st \<noteq> NULL) sts" for sts xs
    by (induction rule: list_all2_induct) (auto simp: rep_input_def holds_def mem_read_def split: if_splits)
  moreover have "list_all2 (rep_output h) sts xs \<Longrightarrow> list_all (\<lambda>st. txout_script_len st = 0 \<or> txout_script st \<noteq> NULL) sts" for sts xs
    by (induction rule: list_all2_induct) (auto simp: rep_output_def holds_def mem_read_def split: if_splits)
  ultimately show ?thesis using r by (elim rep_tx_cells) auto
qed

lemma free_tx_rep:
  assumes rep: "rep_tx h tx t" and sep: "sep_tx tx" and core: "distinct (core_blks tx)"
    and small: "length (p_ins t) < 2 ^ 64" "length (p_outs t) < 2 ^ 64" "length (p_wits t) < 2 ^ 64"
      "list_all (\<lambda>w. length (w_items w) < 2 ^ 64) (p_wits t)"
  shows "free_tx tx h = Some (free_set (set (core_blks tx) \<union> set (concat (map wit_blks (cells (witnesses_list tx))))) h)"
proof -
  obtain b1 ins b2 outs b3 wits where c: "inputs_list tx = Ptr b1 ins" "list_all2 (rep_input h) ins (p_ins t)"
    "outputs_list tx = Ptr b2 outs" "list_all2 (rep_output h) outs (p_outs t)"
    "witnesses_list tx = Ptr b3 wits" "list_all2 (rep_witness h) wits (p_wits t)"
    using rep by (rule rep_tx_cells) blast
  let ?I = "set (script_blks txin_script_len txin_script ins)" and ?O = "set (script_blks txout_script_len txout_script outs)"
  let ?W = "set (concat (map wit_blks wits))"
  have live: "set (core_blks tx) \<subseteq> live h" using rep by (rule rep_core_live)
  have n: "unat (inputs_counter tx) = length ins" "unat (outputs_counter tx) = length outs" "unat (witnesses_counter tx) = length wits"
    using rep c small by (auto simp: rep_tx_def unat_of_nat_u64 dest!: list_all2_lengthD)
  have f1: "free_inputs (inputs_list tx) (inputs_counter tx) h = Some (free_set (insert b1 ?I) h)"
    using free_loop_eq [of b1 h txin_script_len txin_script ins "[]" 0] core live rep_lens [OF rep] c(1) n(1)
    by (auto simp: free_inputs_def core_blks_def free_blk_live live_free_set free_set_free_set)
  let ?h1 = "free_set (insert b1 ?I) h"
  have o: "set (script_blks txout_script_len txout_script outs) \<subseteq> live ?h1" "b2 \<in> live ?h1" "b3 \<in> live ?h1"
    using core live c(1,3,5) by (auto simp: core_blks_def live_free_set)
  have f2: "free_outputs (outputs_list tx) (outputs_counter tx) ?h1 = Some (free_set (insert b2 ?O) ?h1)"
    using free_loop_eq [of b2 ?h1 txout_script_len txout_script outs "[]" 0] core o rep_lens [OF rep] c(1,3) n(2)
    by (auto simp: free_outputs_def core_blks_def free_blk_live live_free_set free_set_free_set)
  let ?h2 = "free_set (insert b2 ?O) ?h1"
  have disj: "?W \<inter> set (core_blks tx) = {}" using core_disjoint [OF rep sep] c(5) by simp
  have wl: "?W \<subseteq> live h" using c(6) by (rule rep_witnesses_live)
  have w2: "?W \<subseteq> live ?h2" "b3 \<in> live ?h2"
    using wl disj o(3) core c(1,3,5) by (auto simp: core_blks_def live_free_set simp del: set_concat set_map)
  have "list_all2 (rep_witness ?h2) wits (p_wits t)" by (rule rep_witnesses_frame [OF c(6) w2(1)])
  moreover have "b3 \<notin> ?W" using disj c(5) by (auto simp: core_blks_def simp del: set_concat set_map)
  moreover have "distinct (concat (map wit_blks wits))" using sep c(5) by (simp add: sep_tx_def)
  ultimately have "free_witness_loop (length wits) 0 (Ptr b3 ([] @ wits)) ?h2 = Some (free_set ?W ?h2)"
    using w2 small(4) by (intro free_witness_loop_eq) auto
  moreover have "b3 \<in> live (free_set ?W ?h2)" using w2 \<open>b3 \<notin> ?W\<close> by (simp add: live_free_set)
  ultimately have f3: "free_witnesses (witnesses_list tx) (witnesses_counter tx) ?h2 = Some (free_set (insert b3 ?W) ?h2)"
    using c(5) n(3) by (simp add: free_witnesses_def free_blk_live free_set_free_set)
  have "insert b3 ?W \<union> (insert b2 ?O \<union> insert b1 ?I) = set (core_blks tx) \<union> ?W"
    using c by (auto simp: core_blks_def)
  then show ?thesis using f1 f2 f3 c(1,3,5) by (simp add: free_tx_def free_set_free_set Un_assoc)
qed

lemma distinct_core_mk: "distinct (core_blks (mk_tx n t))"
proof -
  let ?o1 = "n + Suc (length (p_ins t))"
  let ?w1 = "?o1 + Suc (length (p_outs t))"
  have i: "set (script_blks txin_script_len txin_script (mk_inputs (Suc n) (p_ins t))) \<subseteq> {Suc n..<?o1}"
      "distinct (script_blks txin_script_len txin_script (mk_inputs (Suc n) (p_ins t)))"
    using script_blks_mks [of txin_script mk_input txin_script_len "Suc n" "p_ins t"] by (auto simp: mk_input_def)
  have o: "set (script_blks txout_script_len txout_script (mk_outputs (Suc ?o1) (p_outs t))) \<subseteq> {Suc ?o1..<?w1}"
      "distinct (script_blks txout_script_len txout_script (mk_outputs (Suc ?o1) (p_outs t)))"
    using script_blks_mks [of txout_script mk_output txout_script_len "Suc ?o1" "p_outs t"] by (auto simp: mk_output_def)
  have "{Suc n..<?o1} \<inter> {Suc ?o1..<?w1} = {}" by auto
  note disj = disjoint_subsets [OF i(1) o(1) this]
  have "n \<notin> {Suc n..<?o1} \<union> {Suc ?o1..<?w1}" "?o1 \<notin> {Suc n..<?o1} \<union> {Suc ?o1..<?w1}" "?w1 \<notin> {Suc n..<?o1} \<union> {Suc ?o1..<?w1}"
    by auto
  then show ?thesis using i o disj
    by (auto simp: core_blks_def mk_tx_def Let_def)
qed

lemma rep_tx_frame:
  assumes "rep_tx h tx t" "set (core_blks tx) \<subseteq> live h'" "set (concat (map wit_blks (cells (witnesses_list tx)))) \<subseteq> live h'"
  shows "rep_tx h' tx t"
proof -
  obtain b1 ins b2 outs b3 wits where c: "inputs_list tx = Ptr b1 ins" "list_all2 (rep_input h) ins (p_ins t)"
    "outputs_list tx = Ptr b2 outs" "list_all2 (rep_output h) outs (p_outs t)"
    "witnesses_list tx = Ptr b3 wits" "list_all2 (rep_witness h) wits (p_wits t)"
    using assms(1) by (rule rep_tx_cells) blast
  have i: "list_all2 (rep_input h') ins (p_ins t)" "list_all2 (rep_output h') outs (p_outs t)"
    using c assms(2) by (auto simp: core_blks_def intro: rep_inputs_frame rep_outputs_frame)
  have w: "list_all2 (rep_witness h') wits (p_wits t)"
    using rep_witnesses_frame [OF c(6)] assms(3) c(5) by simp
  show ?thesis using assms(1,2) c i w by (auto simp: rep_tx_def rep_array_def core_blks_def)
qed

definition tx_blks :: "spc_tx \<Rightarrow> nat set"
  where "tx_blks tx = set (core_blks tx) \<union> set (concat (map wit_blks (cells (witnesses_list tx))))"

lemma rep_tx_live: "rep_tx h tx t \<Longrightarrow> tx_blks tx \<subseteq> live h"
proof -
  assume r: "rep_tx h tx t"
  have "set (concat (map wit_blks (cells (witnesses_list tx)))) \<subseteq> live h"
    using r by (rule rep_tx_cells) (use rep_witnesses_live in force)
  then show ?thesis using rep_core_live [OF r] by (simp add: tx_blks_def del: set_concat set_map)
qed

lemma tx_blks_mk: "x \<in> tx_blks (mk_tx n t) \<Longrightarrow> n \<le> x"
proof -
  let ?o1 = "n + Suc (length (p_ins t))"
  let ?w1 = "?o1 + Suc (length (p_outs t))"
  have "set (script_blks txin_script_len txin_script (mk_inputs (Suc n) (p_ins t))) \<subseteq> {n..}"
    using script_blks_mks [of txin_script mk_input txin_script_len "Suc n" "p_ins t"] by (auto simp: mk_input_def)
  moreover have "set (script_blks txout_script_len txout_script (mk_outputs (Suc ?o1) (p_outs t))) \<subseteq> {n..}"
    using script_blks_mks [of txout_script mk_output txout_script_len "Suc ?o1" "p_outs t"] by (auto simp: mk_output_def)
  moreover have "set (concat (map wit_blks (mk_witnesses (Suc ?w1) (p_wits t)))) \<subseteq> {n..}"
    using wits_blks_mk [of "Suc ?w1" "p_wits t"] by (auto simp del: set_concat set_map)
  ultimately show "x \<in> tx_blks (mk_tx n t) \<Longrightarrow> n \<le> x"
    by (auto simp: tx_blks_def core_blks_def mk_tx_def Let_def simp del: set_concat set_map)
qed

lemma rep_tx_frame': "\<lbrakk>rep_tx h tx t; tx_blks tx \<subseteq> live h'\<rbrakk> \<Longrightarrow> rep_tx h' tx t"
  by (rule rep_tx_frame) (auto simp: tx_blks_def simp del: set_concat set_map)

lemma hashable_small:
  assumes "wf_ptx t" "length (enc_ptx t) \<le> 102400" shows "hashable t"
proof -
  have "41 * length (p_ins t) \<le> length (concat (map enc_txin (p_ins t)))"
    using assms(1) by (intro length_concat_ge length_enc_txin_ge) (simp add: wf_ptx_def list_all_iff)
  moreover have "length (concat (map enc_txin (p_ins t))) \<le> length (enc_ptx t)" "length (concat (map enc_txout (p_outs t))) \<le> length (enc_ptx t)"
    by (simp_all add: enc_ptx_def enc_list_def)
  ultimately show ?thesis using assms by (simp add: hashable_def wf_ptx_def)
qed

lemma wit_items_le:
  assumes "w \<in> set ws" shows "length (w_items w) \<le> length (concat (map enc_wit ws))"
proof -
  have "1 * length (w_items w) \<le> length (concat (map blob (w_items w)))"
    by (rule length_concat_ge) (use length_blob_ge in simp)
  also have "\<dots> \<le> length (enc_wit w)" by (simp add: enc_wit_def enc_list_def)
  also have "\<dots> \<le> length (concat (map enc_wit ws))" using assms by (rule concat_le)
  finally show ?thesis by simp
qed

text \<open>The whole life of a transaction on the heap of the server, next to the block \<^verbatim>\<open>p\<close> of the bytes it
  was read from.\<close>

lemma tx_life:
  assumes wf: "wf_ptx t" "length (enc_ptx t) \<le> 102400" and h: "no_oom h" "heap_ok h" "p \<in> live h"
    and n: "n \<le> 113" "112 \<le> m" "m \<le> 113"
    and aws: "length aws = length (p_ins t)" "\<And>j. j < length (p_ins t) \<Longrightarrow> input_signature c xpub xprv t j (aws ! j)"
    and len: "length (enc_stx (t\<lparr>p_wits := aws\<rparr>)) < 2 ^ 31"
  obtains tx h1 h2 tx' h3 h5 h6 h7 where
    "init_tx (Some (enc_ptx t)) (len64 (enc_ptx t)) zero_tx h = Some (0, tx, h1)" "free_blk p h1 = Some h2"
    "sign_tx c (Some xpub) n (Some xprv) m tx h2 = Some (0, tx', h3)"
    "get_tx_hex_len tx' 0 h3 = Some (0, len64 (enc_stx (t\<lparr>p_wits := aws\<rparr>)))"
    "\<forall>sz. malloc sz h3 = (Some (calls h3), alloc 1 h3)"
    "\<forall>out. serialize_tx tx' (Some (replicate (length (enc_stx (t\<lparr>p_wits := aws\<rparr>))) 0)) out (alloc 1 h3) =
      Some (0, Some (enc_stx (t\<lparr>p_wits := aws\<rparr>)), len64 (enc_stx (t\<lparr>p_wits := aws\<rparr>)), h5)"
    "free_tx tx' h5 = Some h6" "free_blk (calls h3) h6 = Some h7" "no_oom h7" "heap_ok h7"
proof -
  let ?st = "t\<lparr>p_wits := aws\<rparr>" and ?tx = "mk_tx (calls h) t"
  have t: "length (p_wits t) = length (p_ins t)" "p_ins t \<noteq> []" using wf(1) by (auto simp: wf_ptx_def)
  have wst: "writable_tx ?st" using wf(1) t aws(1) len by (auto simp: writable_tx_def wf_ptx_def)
  define h1 where "h1 = alloc (tx_blocks t) h"
  have i: "init_tx (Some (enc_ptx t)) (len64 (enc_ptx t)) zero_tx h = Some (0, ?tx, h1)"
    using init_tx_enc [OF wf(1) h(1), of "[]" zero_tx] wf(1) by (simp add: wf_ptx_def h1_def)
  have h1: "no_oom h1" "heap_ok h1" "p \<in> live h1" using h by (auto simp: h1_def heap_ok_alloc live_alloc)
  define h2 where "h2 = free_set {p} h1"
  have f1: "free_blk p h1 = Some h2" using h1(3) by (simp add: free_blk_live h2_def)
  have h2: "no_oom h2" "heap_ok h2" using h1 by (auto simp: h2_def free_set_def heap_ok_def)
  have r1: "rep_tx h1 ?tx t" using rep_mk_tx [OF wf(1)] by (simp add: h1_def)
  have "p \<notin> tx_blks ?tx" using h(2,3) tx_blks_mk [of p "calls h" t] by (auto simp: heap_ok_def)
  then have r2: "rep_tx h2 ?tx t"
    using rep_tx_live [OF r1] by (intro rep_tx_frame' [OF r1]) (auto simp: h2_def live_free_set)
  obtain tx' h3 where s: "sign_tx c (Some xpub) n (Some xprv) m ?tx h2 = Some (0, tx', h3)" "rep_tx h3 tx' ?st" "sep_tx tx'"
      "no_oom h3" "heap_ok h3"
    using sign_tx_eq [OF r2 sep_mk_tx hashable_small [OF wf] t(1) h2 n aws] by blast
  have core: "distinct (core_blks tx')"
    using core_blks_same [OF sign_tx_core [OF s(1)]] distinct_core_mk [of "calls h" t] by simp
  define h4 where "h4 = alloc 1 h3"
  have h4: "no_oom h4" "heap_ok h4" "live h3 \<subseteq> live h4" "calls h3 \<in> live h4"
    using s(4,5) by (auto simp: h4_def heap_ok_alloc live_alloc)
  have fresh: "calls h3 \<notin> live h3" using s(5) by (auto simp: heap_ok_def)
  have r4: "rep_tx h4 tx' ?st" using rep_tx_live [OF s(2)] h4(3) by (intro rep_tx_frame' [OF s(2)]) auto
  define h5 where "h5 = tick (tx_ticks ?st) h4"
  have ser: "serialize_tx tx' (Some (replicate (length (enc_stx ?st)) 0)) out h4 =
      Some (0, Some (enc_stx ?st), len64 (enc_stx ?st), h5)" for out
    using serialize_tx_enc [OF r4 wst h4(1,2), of "replicate (length (enc_stx ?st)) 0" out] len by (simp add: h5_def)
  have r5: "rep_tx h5 tx' ?st" using rep_tx_live [OF r4] by (intro rep_tx_frame' [OF r4]) (simp add: h5_def heap_simps)
  have l: "length (enc_stx ?st) < 2 ^ 60" using len by simp
  note sm = rep_tx_small [OF s(2) l]
  have small: "length (p_ins ?st) < 2 ^ 64" "length (p_outs ?st) < 2 ^ 64" "length (p_wits ?st) < 2 ^ 64"
    using sm(1-3) by simp_all
  have "length (w_items w) < 2 ^ 64" if "w \<in> set (p_wits ?st)" for w
    by (rule le_less_trans [OF wit_items_le [OF that]]) (rule less_trans [OF sm(4)], simp)
  then have items: "list_all (\<lambda>w. length (w_items w) < 2 ^ 64) (p_wits ?st)" by (simp add: list_all_iff)
  define h6 where "h6 = free_set (tx_blks tx') h5"
  have f: "free_tx tx' h5 = Some h6" using free_tx_rep [OF r5 s(3) core small items] by (simp add: h6_def tx_blks_def)
  have q: "calls h3 \<in> live h6" using h4 fresh rep_tx_live [OF s(2)] by (auto simp: h6_def h5_def heap_simps)
  define h7 where "h7 = free_set {calls h3} h6"
  have "free_blk (calls h3) h6 = Some h7" using q by (simp add: free_blk_live h7_def)
  moreover have "no_oom h7" "heap_ok h7"
    using h4 by (auto simp: h7_def h6_def h5_def free_set_def heap_ok_def tick_def)
  ultimately show ?thesis
    using that [OF i f1 s(1) get_tx_hex_len_enc [OF s(2) wst] _ _ f] malloc_alloc [OF s(4)] ser [unfolded h4_def] by blast
qed

end
