(* ===== verification/Keystore_Correct.thy ===== *)
theory Keystore_Correct
  imports Keystore Serialize_Correct
begin

text \<open>The files of the key stores (\<^verbatim>\<open>spckeystore.c\<close>) represent a map from users to lists of
  key pairs: the path of a user, and each operation on the represented map.\<close>

section \<open>Decimal digits and the path\<close>

lemma length_dec_digits:
  "n < 10 ^ 10 \<Longrightarrow> length (dec_digits n) =
    (if n < 10 then 1 else if n < 100 then 2 else if n < 1000 then 3 else if n < 10000 then 4 else if n < 100000 then 5
     else if n < 1000000 then 6 else if n < 10000000 then 7 else if n < 100000000 then 8 else if n < 1000000000 then 9 else 10)"
  by (simp add: dec_digits.simps [of n] dec_digits.simps [of "n div _"] div_mult2_eq [symmetric] div_less_iff_less_mult)

lemma div_pos_iff: "(0 < (x :: u32) div c) = (c \<le> x)" if "c \<noteq> 0"
proof -
  have "0 < unat c" using that by (simp add: unat_gt_0)
  then show ?thesis
    by (simp add: word_less_nat_alt word_le_nat_alt unat_div div_greater_zero_iff)
qed

lemma num_str_loop_numeral:
  "num_str_loop (numeral k) i worker x =
    (if x div worker > 0 then Some i else num_str_loop (pred_numeral k) (i + 1) (worker div 10) x)"
  by (simp add: numeral_eq_Suc)

lemma num_str_loop_eq:
  "num_str_loop 10 0 1000000000 x =
    (if 1000000000 \<le> x then Some 0 else if 100000000 \<le> x then Some 1 else if 10000000 \<le> x then Some 2
     else if 1000000 \<le> x then Some 3 else if 100000 \<le> x then Some 4 else if 10000 \<le> x then Some 5
     else if 1000 \<le> x then Some 6 else if 100 \<le> x then Some 7 else if 10 \<le> x then Some 8 else if 0 < x then Some 9
     else None)"
  by (simp add: num_str_loop_numeral div_pos_iff)

lemma get_num_str_len_eq:
  assumes "x \<le> 1000000000"
  shows "unat (get_num_str_len x) = length (dec_digits (unat x))" "get_num_str_len x \<noteq> 0"
proof -
  have "unat x \<le> 1000000000" using assms by (simp add: word_le_nat_alt)
  then have l: "length (dec_digits (unat x)) =
    (if unat x < 10 then 1 else if unat x < 100 then 2 else if unat x < 1000 then 3 else if unat x < 10000 then 4
     else if unat x < 100000 then 5 else if unat x < 1000000 then 6 else if unat x < 10000000 then 7
     else if unat x < 100000000 then 8 else if unat x < 1000000000 then 9 else 10)"
    by (intro length_dec_digits) simp
  have g: "unat (get_num_str_len x) =
    (if 1000000000 \<le> x then 10 else if 100000000 \<le> x then 9 else if 10000000 \<le> x then 8
     else if 1000000 \<le> x then 7 else if 100000 \<le> x then 6 else if 10000 \<le> x then 5
     else if 1000 \<le> x then 4 else if 100 \<le> x then 3 else if 10 \<le> x then 2 else 1)"
    by (cases "x = 0") (auto simp: get_num_str_len_def num_str_loop_eq word_gt_0)
  show e: "unat (get_num_str_len x) = length (dec_digits (unat x))"
    unfolding l g by (simp add: word_le_nat_alt not_le [symmetric])
  have "dec_digits (unat x) \<noteq> []" by (subst dec_digits.simps) simp
  then show "get_num_str_len x \<noteq> 0" using e by (metis length_0_conv unat_0)
qed

lemma dec_digits_chars: "\<lbrakk>c \<in> set (dec_digits n)\<rbrakk> \<Longrightarrow> 48 \<le> c \<and> c < 58"
proof (induction n rule: dec_digits.induct)
  case (1 n)
  have "48 \<le> (word_of_nat (48 + k) :: byte) \<and> word_of_nat (48 + k) < (58 :: byte)" if "k < 10" for k
    using that by (simp add: word_le_nat_alt word_less_nat_alt unat_of_nat take_bit_nat_eq_self del: of_nat_add)
  then show ?case using 1 by (subst (asm) (2) dec_digits.simps) (auto split: if_splits)
qed

fun dec_val :: "byte list \<Rightarrow> nat"
  where "dec_val ds = foldl (\<lambda>v d. v * 10 + (unat d - 48)) 0 ds"

lemma dec_val_digits: "dec_val (dec_digits n) = n"
proof (induction n rule: dec_digits.induct)
  case (1 n)
  have "unat (word_of_nat (48 + k) :: byte) = 48 + k" if "k < 10" for k
    using that by (simp add: unat_of_nat take_bit_nat_eq_self del: of_nat_add)
  then show ?case using 1 by (subst dec_digits.simps) (auto simp del: of_nat_add)
qed

lemma inj_dec_digits: "dec_digits m = dec_digits n \<Longrightarrow> m = n"
  by (metis dec_val_digits)

lemma sprintf_d_eq: "x \<le> 1000000000 \<Longrightarrow> sprintf_d x = dec_digits (unat x)"
proof -
  assume "x \<le> 1000000000"
  then have "uint x \<le> 1000000000" by (simp add: word_le_def)
  moreover have "- 2147483648 \<le> uint x" using uint_ge_0 [of x] by linarith
  ultimately have "sint x = uint x"
    by (simp add: sint_uint signed_take_bit_int_eq_self)
  then show ?thesis by (simp add: sprintf_d_def)
qed

lemma length_SPCKEYSTOREPATH [simp]: "length SPCKEYSTOREPATH = 76"
  by (simp add: SPCKEYSTOREPATH_def)

definition kpath :: "u32 \<Rightarrow> byte list"
  where "kpath uid = SPCKEYSTOREPATH @ dec_digits (unat uid)"

lemma inj_kpath: "kpath x = kpath y \<longleftrightarrow> x = y"
  by (auto simp: kpath_def word_unat_eq_iff dest: inj_dec_digits)

lemma length_kpath: "x \<le> 1000000000 \<Longrightarrow> length (kpath x) \<le> 86"
  using get_num_str_len_eq(1) [of x] length_dec_digits [of "unat x"]
  by (simp add: kpath_def word_le_nat_alt)

lemma SPCKEYSTOREPATH_nonzero: "0 \<notin> set SPCKEYSTOREPATH"
  by (simp add: SPCKEYSTOREPATH_def)

lemma c_str_kpath: "c_str (kpath x @ replicate n 0) = kpath x"
proof -
  have "0 \<notin> set (kpath x)" using SPCKEYSTOREPATH_nonzero dec_digits_chars [of 0] by (auto simp: kpath_def)
  then show ?thesis by (auto simp: c_str_def takeWhile_append takeWhile_eq_all_conv)
qed

lemma dirname_kpath: "dirname (kpath x) = SPCKEYSTOREPATH"
proof -
  have n: "0x2f \<notin> set (dec_digits n)" for n using dec_digits_chars [of "0x2f" n] by auto
  have "\<exists>d. rev SPCKEYSTOREPATH = 0x2f # d" by (simp add: SPCKEYSTOREPATH_def)
  then obtain d where "rev SPCKEYSTOREPATH = 0x2f # d" by blast
  then have "dropWhile (\<lambda>x. x \<noteq> 0x2f) (rev SPCKEYSTOREPATH) = rev SPCKEYSTOREPATH"
    by (simp only: dropWhile.simps simp_thms if_False)
  then show ?thesis using n [of "unat x"]
    by (auto simp: dirname_def kpath_def dropWhile_append)
qed

text \<open>The buffers on the way to the path.\<close>

lemma path_buffers:
  assumes x: "x \<le> 1000000000"
  defines "d \<equiv> dec_digits (unat x)"
  shows "wr 0 (d @ [0]) (0 # replicate (length d) 0) = Some (d @ [0])"
    "rd 76 (SPCKEYSTOREPATH @ [0]) = Some SPCKEYSTOREPATH"
    "wr 0 SPCKEYSTOREPATH (replicate (77 + length d) 0) = Some (SPCKEYSTOREPATH @ 0 # replicate (length d) 0)"
    "wr 76 d (SPCKEYSTOREPATH @ 0 # replicate (length d) 0) = Some (kpath x @ [0])"
    "rd (76 + length d) (kpath x @ [0]) = Some (kpath x)"
    "word_of_nat (length (kpath x)) = (76 + ucast (get_num_str_len x) :: u32)"
proof -
  have n: "unat (get_num_str_len x) = length d" using get_num_str_len_eq [OF x] by (simp add: d_def)
  have z: "drop k (0 # replicate k 0) = [0 :: byte]" for k by (induction k) auto
  show "wr 0 (d @ [0]) (0 # replicate (length d) 0) = Some (d @ [0])"
    by (simp add: wr_def z)
  show "rd 76 (SPCKEYSTOREPATH @ [0]) = Some SPCKEYSTOREPATH" by (rule rd_app) simp
  show "wr 0 SPCKEYSTOREPATH (replicate (77 + length d) 0) = Some (SPCKEYSTOREPATH @ 0 # replicate (length d) 0)"
    by (simp add: wr_def)
  show "wr 76 d (SPCKEYSTOREPATH @ 0 # replicate (length d) 0) = Some (kpath x @ [0])"
    by (simp add: wr_def kpath_def z d_def)
  show "rd (76 + length d) (kpath x @ [0]) = Some (kpath x)"
    by (rule rd_app) (simp add: kpath_def d_def)
  have "length d < 256" using unat_lt2p [of "get_num_str_len x"] by (simp flip: n)
  then show "word_of_nat (length (kpath x)) = (76 + ucast (get_num_str_len x) :: u32)"
    by (simp add: kpath_def d_def [symmetric] flip: n)
qed

lemma gen_keystore_path_eq:
  assumes x: "x \<le> 1000000000" and h: "no_oom (hp s)" "heap_ok (hp s)" and l: "length (kpath x) \<le> length buffer"
  shows "gen_keystore_path x buffer pl s =
    Some (0, kpath x @ drop (length (kpath x)) buffer, word_of_nat (length (kpath x)), s\<lparr>hp := tick 2 (hp s)\<rparr>)"
proof -
  note n = get_num_str_len_eq [OF x]
  have fresh: "calls (hp s) \<notin> live (hp s)" "Suc (calls (hp s)) \<notin> live (hp s)" using h(2) by (auto simp: heap_ok_def)
  show ?thesis
    using x n(2) h fresh
    by (simp add: gen_keystore_path_def os_malloc_def os_free_def malloc_no_oom n(1) sprintf_d_eq [OF x] path_buffers [OF x]
        wr_0 [OF l] rd_app free_blk_def tick_def not_less Let_def insert_Diff_if)
qed

definition path_there :: "u32 \<Rightarrow> os \<Rightarrow> bool"
  where "path_there x s \<longleftrightarrow> kpath x \<in> dirs s \<or> kpath x \<in> dom (files s)"

lemma check_keystore_exist_eq:
  assumes x: "x \<le> 1000000000" and h: "no_oom (hp s)" "heap_ok (hp s)"
  shows "check_keystore_exist x (replicate 87 0) 0 s =
    Some (if path_there x s then 1 else 0, kpath x @ replicate (87 - length (kpath x)) 0, word_of_nat (length (kpath x)),
      s\<lparr>hp := tick 2 (hp s)\<rparr>)"
proof -
  have l: "length (kpath x) \<le> 86" "76 \<le> length (kpath x)" using length_kpath [OF x] by (auto simp: kpath_def)
  then have u: "unat (word_of_nat (length (kpath x)) :: u32) = length (kpath x)"
    by (simp add: unat_of_nat take_bit_nat_eq_self)
  have "\<not> word_of_nat (length (kpath x)) < (76 :: u32)" using l u by (simp add: word_less_nat_alt)
  moreover have "wr 0 (kpath x) (replicate 87 0) = Some (kpath x @ replicate (87 - length (kpath x)) 0)"
    using l by (simp add: wr_def)
  ultimately show ?thesis
    using x l gen_keystore_path_eq [OF x h, of "replicate 87 0" 0] u
    by (simp add: check_keystore_exist_def not_less c_str_kpath rd_app access_def path_there_def)
qed

section \<open>What a key store holds\<close>

definition wf_pair :: "spc_key_pair \<Rightarrow> bool"
  where "wf_pair k \<longleftrightarrow> length (kp_xpub k) = 113 \<and> length (kp_xprv k) = 113"

definition pairs_bytes :: "spc_key_pair list \<Rightarrow> byte list"
  where "pairs_bytes ps = concat (map pair_bytes ps)"

definition ks_file :: "u32 \<Rightarrow> spc_key_pair list \<Rightarrow> byte list"
  where "ks_file x ps = keystore_bytes \<lparr>ks_id = x, key_pairs_num = word_of_nat (length ps)\<rparr> @ pairs_bytes ps"

type_synonym key_stores = "u32 \<rightharpoonup> spc_key_pair list"

definition wf_stores :: "key_stores \<Rightarrow> bool" where
  "wf_stores A \<longleftrightarrow> (\<forall>x ps. A x = Some ps \<longrightarrow> x \<le> 1000000000 \<and> length ps < 2 ^ 32 \<and> list_all wf_pair ps)"

definition rep_stores :: "os \<Rightarrow> key_stores \<Rightarrow> bool" where
  "rep_stores s A \<longleftrightarrow> wf_stores A \<and> (A = Map.empty \<or> SPCKEYSTOREPATH \<in> dirs s) \<and>
     (\<forall>x. kpath x \<notin> dirs s \<and> files s (kpath x) = map_option (ks_file x) (A x)) \<and>
     SPCKEYSTOREPATH \<notin> dom (files s)"

text \<open>A system whose calls succeed.\<close>

definition os_ok :: "os \<Rightarrow> bool" where
  "os_ok s \<longleftrightarrow> no_oom (hp s) \<and> heap_ok (hp s) \<and> (\<forall>n. \<exists>k\<ge>226. io_max s n = Some k)"

lemma keystore_of_bytes [simp]: "keystore_of (keystore_bytes k) = k"
  by (simp add: keystore_of_def keystore_bytes_def wire_simps)

lemma length_keystore_bytes [simp]: "length (keystore_bytes k) = 8"
  by (simp add: keystore_bytes_def)

lemma pair_of_bytes: "wf_pair k \<Longrightarrow> pair_of (pair_bytes k) = k"
  by (simp add: pair_of_def pair_bytes_def wf_pair_def)

lemma length_pair_bytes [simp]: "wf_pair k \<Longrightarrow> length (pair_bytes k) = 226"
  by (simp add: pair_bytes_def wf_pair_def)

lemma length_pairs_bytes: "list_all wf_pair ps \<Longrightarrow> length (pairs_bytes ps) = length ps * 226"
  by (induction ps) (simp_all add: pairs_bytes_def)

lemma pairs_bytes_nth:
  assumes "list_all wf_pair ps" "i < length ps"
  shows "take 226 (drop (i * 226) (pairs_bytes ps)) = pair_bytes (ps ! i)"
proof -
  have "pairs_bytes ps = pairs_bytes (take i ps) @ pair_bytes (ps ! i) @ pairs_bytes (drop (Suc i) ps)"
    using id_take_nth_drop [OF assms(2)] by (metis append.assoc concat.simps(2) concat_append list.simps(9) map_append pairs_bytes_def)
  moreover have "length (pairs_bytes (take i ps)) = i * 226"
    using assms length_pairs_bytes [of "take i ps"] by (simp add: list_all_length)
  moreover have "length (pair_bytes (ps ! i)) = 226" using assms by (simp add: list_all_length)
  ultimately show ?thesis by simp
qed

lemma io_step_ok: "os_ok s \<Longrightarrow> \<exists>k\<ge>226. io_step s = (Some k, s\<lparr>io_calls := Suc (io_calls s)\<rparr>)"
  by (auto simp: io_step_def os_ok_def)

lemma read_fd_ok:
  "\<lbrakk>os_ok s; n \<le> 226\<rbrakk> \<Longrightarrow> read_fd fd n s =
    (Some (take n (drop (fd_off fd) (file_of fd s))),
     fd\<lparr>fd_off := fd_off fd + length (take n (drop (fd_off fd) (file_of fd s)))\<rparr>, s\<lparr>io_calls := Suc (io_calls s)\<rparr>)"
proof -
  assume s: "os_ok s" and n: "n \<le> 226"
  obtain k where k: "226 \<le> k" "io_step s = (Some k, s\<lparr>io_calls := Suc (io_calls s)\<rparr>)" using io_step_ok [OF s] by blast
  then have "min k n = n" using n by simp
  then show ?thesis using k by (simp add: read_fd_def Let_def)
qed

lemma write_fd_ok:
  "\<lbrakk>os_ok s; length src \<le> 226\<rbrakk> \<Longrightarrow> write_fd fd src s =
    (Some (length src), fd\<lparr>fd_off := fd_off fd + length src\<rparr>,
     s\<lparr>io_calls := Suc (io_calls s), files := (files s)(fd_path fd \<mapsto> overlay (fd_off fd) src (file_of fd s))\<rparr>)"
  using io_step_ok [of s] by (auto simp: write_fd_def Let_def)

section \<open>The operations refine the abstract key stores\<close>

lemma rep_stores_upd [simp]:
  "rep_stores (s\<lparr>hp := h\<rparr>) A = rep_stores s A" "rep_stores (s\<lparr>io_calls := n\<rparr>) A = rep_stores s A"
  by (simp_all add: rep_stores_def)

lemma os_ok_upd [simp]:
  "os_ok (s\<lparr>io_calls := n\<rparr>) = os_ok s" "os_ok (s\<lparr>files := f\<rparr>) = os_ok s" "os_ok (s\<lparr>dirs := d\<rparr>) = os_ok s"
  by (simp_all add: os_ok_def)

lemma os_ok_tick [simp]: "os_ok s \<Longrightarrow> os_ok (s\<lparr>hp := tick n (hp s)\<rparr>)"
  by (auto simp: os_ok_def)

lemma lseek_simp [simp]: "lseek \<lparr>fd_path = p, fd_off = m\<rparr> n = \<lparr>fd_path = p, fd_off = n\<rparr>"
  by (simp add: lseek_def)

lemma path_there_iff: "rep_stores s A \<Longrightarrow> path_there x s = (A x \<noteq> None)"
  by (auto simp: path_there_def rep_stores_def dom_def)

lemma kpath_ne: "kpath x \<noteq> SPCKEYSTOREPATH"
  by (subst kpath_def, subst dec_digits.simps) simp

lemma rep_stores_write:
  assumes "rep_stores s A" "SPCKEYSTOREPATH \<in> dirs s" "x \<le> 1000000000" "list_all wf_pair ps" "length ps < 2 ^ 32"
    and "dirs s' = dirs s" "files s' = (files s)(kpath x \<mapsto> ks_file x ps)"
  shows "rep_stores s' (A(x \<mapsto> ps))"
proof -
  have "files s' (kpath y) = map_option (ks_file y) ((A(x \<mapsto> ps)) y)" for y
    using assms(1,7) by (cases "y = x") (simp_all add: rep_stores_def inj_kpath)
  moreover have "SPCKEYSTOREPATH \<notin> dom (files s')"
    using assms(1,7) kpath_ne [of x] by (auto simp: rep_stores_def)
  moreover have "wf_stores (A(x \<mapsto> ps))" using assms(1,3-5) by (simp add: rep_stores_def wf_stores_def)
  ultimately show ?thesis using assms(1,2,6) by (simp add: rep_stores_def)
qed

lemma keystore_bytes_ne: "keystore_bytes k \<noteq> []"
  using length_keystore_bytes [of k] by (cases "keystore_bytes k") simp_all

lemma exist_ok:
  assumes "rep_stores s A" "os_ok s" "x \<le> 1000000000"
  obtains len where "check_keystore_exist x (replicate 87 0) 0 s =
      Some (if A x = None then 0 else 1, kpath x @ replicate (87 - length (kpath x)) 0, len, s\<lparr>hp := tick 2 (hp s)\<rparr>)"
    "\<not> len < 76" "c_str (kpath x @ replicate (87 - length (kpath x)) 0) = kpath x"
proof -
  have l: "length (kpath x) \<le> 86" "76 \<le> length (kpath x)" using length_kpath [OF assms(3)] by (auto simp: kpath_def)
  have "\<not> word_of_nat (length (kpath x)) < (76 :: u32)"
    using l by (simp add: word_less_nat_alt unat_of_nat take_bit_nat_eq_self)
  with check_keystore_exist_eq [OF assms(3), of s] assms(2) path_there_iff [OF assms(1), of x] show ?thesis
    by (intro that) (auto simp: os_ok_def c_str_kpath)
qed

lemma exist_large: "1000000000 < x \<Longrightarrow> check_keystore_exist x b l s = Some (-1, b, l, s)"
  by (simp add: check_keystore_exist_def)

lemma dir_ok:
  assumes rep: "rep_stores s A" and ok: "os_ok s"
  obtains s1 where "(if check_keystore_dir s = 0 then mkdir SPCKEYSTOREPATH s else s) = s1" "check_keystore_dir s \<noteq> -1"
    "rep_stores s1 A" "os_ok s1" "SPCKEYSTOREPATH \<in> dirs s1"
proof (cases "SPCKEYSTOREPATH \<in> dirs s")
  case True
  then have "check_keystore_dir s = 1" by (simp add: check_keystore_dir_def access_def)
  then show ?thesis using that [of s] True assms by simp
next
  case False
  let ?s = "s\<lparr>io_calls := Suc (io_calls s), dirs := insert SPCKEYSTOREPATH (dirs s)\<rparr>"
  have "check_keystore_dir s = 0"
    using False rep by (auto simp: check_keystore_dir_def access_def rep_stores_def)
  moreover have "mkdir SPCKEYSTOREPATH s = ?s" using io_step_ok [OF ok] by (auto simp: mkdir_def)
  moreover have "rep_stores ?s A" using rep kpath_ne by (auto simp: rep_stores_def)
  ultimately show ?thesis using that [of ?s] ok by simp
qed

lemma gen_new_keystore_ok:
  assumes rep: "rep_stores s A" and ok: "os_ok s" and x: "x \<le> 1000000000" "A x = None"
  shows "\<exists>s'. gen_new_keystore x s = Some (0, s') \<and> rep_stores s' (A(x \<mapsto> [])) \<and> os_ok s'"
proof -
  obtain s1 where s1: "(if check_keystore_dir s = 0 then mkdir SPCKEYSTOREPATH s else s) = s1" "check_keystore_dir s \<noteq> -1"
    "rep_stores s1 A" "os_ok s1" "SPCKEYSTOREPATH \<in> dirs s1"
    using dir_ok [OF rep ok] by blast
  define s2 where "s2 = s1\<lparr>hp := tick 2 (hp s1)\<rparr>"
  obtain len where e: "check_keystore_exist x (replicate 87 0) 0 s1 =
      Some (0, kpath x @ replicate (87 - length (kpath x)) 0, len, s2)" "\<not> len < 76"
    "c_str (kpath x @ replicate (87 - length (kpath x)) 0) = kpath x"
    using exist_ok [OF s1(3,4) x(1)] x(2) by (auto simp: s2_def)
  have s2: "rep_stores s2 A" "os_ok s2" "SPCKEYSTOREPATH \<in> dirs s2" using s1 by (simp_all add: s2_def)
  define s3 where "s3 = s2\<lparr>io_calls := Suc (io_calls s2), files := (files s2)(kpath x \<mapsto> [])\<rparr>"
  let ?fd = "\<lparr>fd_path = kpath x, fd_off = 0\<rparr>" and ?k = "\<lparr>ks_id = x, key_pairs_num = 0\<rparr>"
  have o: "open_trunc (kpath x) s2 = (Some ?fd, s3)"
    using io_step_ok [OF s2(2)] s2(3) by (auto simp: open_trunc_def dirname_kpath s3_def)
  have ok3: "os_ok s3" using s2 by (simp add: s3_def)
  have b: "keystore_bytes ?k \<noteq> []" "ks_file x [] = keystore_bytes ?k"
    by (simp_all add: keystore_bytes_ne ks_file_def pairs_bytes_def)
  define s4 where "s4 = s3\<lparr>io_calls := Suc (io_calls s3), files := (files s3)(kpath x \<mapsto> keystore_bytes ?k)\<rparr>"
  have w: "write_fd (lseek ?fd 0) (keystore_bytes ?k) s3 = (Some 8, ?fd\<lparr>fd_off := 8\<rparr>, s4)"
    using write_fd_ok [OF ok3, of "keystore_bytes ?k" ?fd] b by (simp add: overlay_def s3_def s4_def)
  have "rep_stores s4 (A(x \<mapsto> []))"
    by (rule rep_stores_write [OF s2(1,3) x(1)]) (simp_all add: s4_def s3_def b)
  moreover have "gen_new_keystore x s = Some (0, s4)"
    using x(1) s1(1,2) e o w by (simp add: gen_new_keystore_def not_less)
  moreover have "os_ok s4" using ok3 by (simp add: s4_def)
  ultimately show ?thesis by blast
qed

lemma gen_new_keystore_no:
  assumes "rep_stores s A" "os_ok s" "A x \<noteq> None \<or> 1000000000 < x"
  shows "\<exists>s'. gen_new_keystore x s = Some (-1, s') \<and> rep_stores s' A \<and> os_ok s'"
proof (cases "1000000000 < x")
  case False
  then have x: "x \<le> 1000000000" "A x \<noteq> None" using assms(3) by auto
  then have "SPCKEYSTOREPATH \<in> dirs s" using assms(1) by (auto simp: rep_stores_def)
  then have d: "check_keystore_dir s = 1"
    by (simp add: check_keystore_dir_def access_def)
  obtain len where e: "check_keystore_exist x (replicate 87 0) 0 s =
      Some (1, kpath x @ replicate (87 - length (kpath x)) 0, len, s\<lparr>hp := tick 2 (hp s)\<rparr>)"
    by (rule exist_ok [OF assms(1,2) x(1)]) (use x(2) in auto)
  have "gen_new_keystore x s = Some (-1, s\<lparr>hp := tick 2 (hp s)\<rparr>)"
    using x(1) by (simp add: gen_new_keystore_def not_less d e)
  then show ?thesis using assms(1,2) by simp
qed (use assms in \<open>auto simp: gen_new_keystore_def\<close>)

text \<open>The file of a user as it is read: its header and its pairs.\<close>

lemma file_facts:
  assumes "rep_stores s A" "A x = Some ps"
  shows "files s (kpath x) = Some (ks_file x ps)" "list_all wf_pair ps" "length ps < 2 ^ 32" "x \<le> 1000000000"
    "SPCKEYSTOREPATH \<in> dirs s"
  using assms by (auto simp: rep_stores_def wf_stores_def)

lemma ks_file_header:
  "take 8 (ks_file x ps) = keystore_bytes \<lparr>ks_id = x, key_pairs_num = word_of_nat (length ps)\<rparr>"
  by (simp add: ks_file_def)

lemma open_existing_ok:
  assumes "os_ok s" "p \<in> dom (files s)"
  shows "open_existing p s = (Some \<lparr>fd_path = p, fd_off = 0\<rparr>, s\<lparr>io_calls := Suc (io_calls s)\<rparr>)"
  using io_step_ok [OF assms(1)] assms(2) by (auto simp: open_existing_def)

lemma overlay_end: "d \<noteq> [] \<Longrightarrow> overlay (length f) d f = f @ d"
  by (simp add: overlay_def)

lemma save_key_pair_ok:
  assumes rep: "rep_stores s A" and ok: "os_ok s" and ps: "A x = Some ps" "length ps + 1 < 2 ^ 32" and kp: "wf_pair kp"
  shows "\<exists>s'. save_key_pair x kp i s = Some (0, word_of_nat (length ps), s') \<and> rep_stores s' (A(x \<mapsto> ps @ [kp])) \<and> os_ok s'"
proof -
  note f = file_facts [OF rep ps(1)]
  define s1 where "s1 = s\<lparr>hp := tick 2 (hp s)\<rparr>"
  obtain len where e: "check_keystore_exist x (replicate 87 0) 0 s =
      Some (1, kpath x @ replicate (87 - length (kpath x)) 0, len, s1)" "\<not> len < 76"
    "c_str (kpath x @ replicate (87 - length (kpath x)) 0) = kpath x"
    by (rule exist_ok [OF rep ok f(4)]) (use ps(1) s1_def in auto)
  have s1: "os_ok s1" "files s1 = files s" "dirs s1 = dirs s" using ok by (simp_all add: s1_def)
  define s2 where "s2 = s1\<lparr>io_calls := Suc (io_calls s1)\<rparr>"
  let ?fd = "\<lparr>fd_path = kpath x, fd_off = 0\<rparr>" and ?k = "\<lparr>ks_id = x, key_pairs_num = word_of_nat (length ps)\<rparr>"
  let ?k' = "\<lparr>ks_id = x, key_pairs_num = word_of_nat (length ps) + 1\<rparr>"
  have o: "open_existing (kpath x) s1 = (Some ?fd, s2)"
    using open_existing_ok [OF s1(1), of "kpath x"] f(1) s1 by (simp add: s2_def dom_def)
  have s2: "os_ok s2" "files s2 = files s" "dirs s2 = dirs s" using s1 by (simp_all add: s2_def)
  define s3 where "s3 = s2\<lparr>io_calls := Suc (io_calls s2)\<rparr>"
  have r: "read_fd (lseek ?fd 0) 8 s2 = (Some (keystore_bytes ?k), ?fd\<lparr>fd_off := 8\<rparr>, s3)"
    using read_fd_ok [OF s2(1), of 8 ?fd] f(1) s2(2) by (simp add: ks_file_header s3_def)
  have s3: "os_ok s3" "files s3 = files s" "dirs s3 = dirs s" using s2 by (simp_all add: s3_def)
  have n: "unat (word_of_nat (length ps) :: u32) = length ps"
    using ps(2) by (simp add: unat_of_nat take_bit_nat_eq_self)
  have c: "(ucast (word_of_nat (length ps) :: u32) :: u16) = word_of_nat (length ps)"
    using ps(2) by (simp add: unsigned_of_nat take_bit_nat_eq_self)
  have len_f: "length (ks_file x ps) = pair_pos (length ps)"
    using f(2) by (simp add: ks_file_def pair_pos_def length_pairs_bytes)
  have ne: "pair_bytes kp \<noteq> []" using length_pair_bytes [OF kp] by (cases "pair_bytes kp") simp_all
  define s4 where "s4 = s3\<lparr>io_calls := Suc (io_calls s3), files := (files s)(kpath x \<mapsto> ks_file x ps @ pair_bytes kp)\<rparr>"
  have w1: "write_fd (?fd\<lparr>fd_off := pair_pos (length ps)\<rparr>) (pair_bytes kp) s3 =
      (Some 226, ?fd\<lparr>fd_off := pair_pos (length ps) + 226\<rparr>, s4)"
    using write_fd_ok [OF s3(1), of "pair_bytes kp" "?fd\<lparr>fd_off := pair_pos (length ps)\<rparr>"] f(1) s3(2) kp
      overlay_end [OF ne, of "ks_file x ps"] len_f
    by (simp add: s4_def)
  have s4: "os_ok s4" "files s4 (kpath x) = Some (ks_file x ps @ pair_bytes kp)" "dirs s4 = dirs s"
    using s3 by (simp_all add: s4_def)
  have o2: "overlay 0 (keystore_bytes ?k') (ks_file x ps @ pair_bytes kp) = ks_file x (ps @ [kp])"
    by (simp add: overlay_def keystore_bytes_ne ks_file_def pairs_bytes_def add.commute)
  define s5 where "s5 = s4\<lparr>io_calls := Suc (io_calls s4), files := (files s4)(kpath x \<mapsto> ks_file x (ps @ [kp]))\<rparr>"
  have w2: "write_fd (?fd\<lparr>fd_off := 0\<rparr>) (keystore_bytes ?k') s4 = (Some 8, ?fd\<lparr>fd_off := 8\<rparr>, s5)"
    using write_fd_ok [OF s4(1), of "keystore_bytes ?k'" ?fd] s4(2) o2 by (simp add: s5_def)
  have "save_key_pair x kp i s = Some (0, word_of_nat (length ps), s5)"
    using e o r w1 w2 n by (simp add: save_key_pair_def save_opened_def Let_def c)
  moreover have "rep_stores s5 (A(x \<mapsto> ps @ [kp]))"
    by (rule rep_stores_write [OF rep f(5,4)]) (use f kp ps(2) s4(3) in \<open>simp_all add: s5_def s4_def\<close>)
  moreover have "os_ok s5" using s4(1) by (simp add: s5_def)
  ultimately show ?thesis by blast
qed

lemma no_store:
  assumes "rep_stores s A" "os_ok s" "A x = None"
  obtains s1 b len r where "check_keystore_exist x (replicate 87 0) 0 s = Some (r, b, len, s1)" "r = 0 \<or> r = -1"
    "rep_stores s1 A" "os_ok s1"
proof (cases "1000000000 < x")
  case True
  show ?thesis by (rule that [OF exist_large [OF True]]) (use assms in simp_all)
next
  case False
  then have x: "x \<le> 1000000000" by simp
  obtain len where e: "check_keystore_exist x (replicate 87 0) 0 s =
      Some (0, kpath x @ replicate (87 - length (kpath x)) 0, len, s\<lparr>hp := tick 2 (hp s)\<rparr>)"
    by (rule exist_ok [OF assms(1,2) x]) (use assms(3) in auto)
  show ?thesis by (rule that [OF e]) (use assms in simp_all)
qed

lemma save_key_pair_no:
  assumes "rep_stores s A" "os_ok s" "A x = None"
  shows "\<exists>s'. save_key_pair x kp i s = Some (-1, i, s') \<and> rep_stores s' A \<and> os_ok s'"
  by (rule no_store [OF assms]) (auto simp: save_key_pair_def)

lemma get_key_pair_no:
  assumes "rep_stores s A" "os_ok s" "A x = None"
  shows "\<exists>s'. get_key_pair x i kp s = Some (-1, kp, s') \<and> rep_stores s' A \<and> os_ok s'"
  by (rule no_store [OF assms]) (auto simp: get_key_pair_def)

text \<open>Reading from a file whose header counts \<^verbatim>\<open>c\<close> of the pairs behind it.\<close>

lemma get_key_pair_file:
  assumes x: "x \<le> 1000000000" and ok: "os_ok s" and c: "c \<le> length ps" "c < 2 ^ 32" and ps: "list_all wf_pair ps" and kp: "wf_pair kp"
    and f: "files s (kpath x) = Some (keystore_bytes \<lparr>ks_id = x, key_pairs_num = word_of_nat c\<rparr> @ pairs_bytes ps @ rest)"
  shows "\<exists>s'. get_key_pair x i kp s = Some (if unat i < c then (0, ps ! unat i, s') else (-1, kp, s')) \<and>
    files s' = files s \<and> dirs s' = dirs s \<and> os_ok s'"
proof -
  define s1 where "s1 = s\<lparr>hp := tick 2 (hp s)\<rparr>"
  have l: "length (kpath x) \<le> 86" "76 \<le> length (kpath x)" using length_kpath [OF x] by (auto simp: kpath_def)
  have e: "check_keystore_exist x (replicate 87 0) 0 s =
      Some (1, kpath x @ replicate (87 - length (kpath x)) 0, word_of_nat (length (kpath x)), s1)"
    "\<not> word_of_nat (length (kpath x)) < (76 :: u32)" "c_str (kpath x @ replicate (87 - length (kpath x)) 0) = kpath x"
    using check_keystore_exist_eq [OF x, of s] ok f l
    by (auto simp: os_ok_def path_there_def s1_def c_str_kpath word_less_nat_alt unat_of_nat take_bit_nat_eq_self)
  define s3 where "s3 = s1\<lparr>io_calls := Suc (Suc (io_calls s1))\<rparr>"
  let ?fd = "\<lparr>fd_path = kpath x, fd_off = 0\<rparr>" and ?k = "\<lparr>ks_id = x, key_pairs_num = word_of_nat c\<rparr>"
  let ?s2 = "s1\<lparr>io_calls := Suc (io_calls s1)\<rparr>"
  have s1: "os_ok s1" "files s1 = files s" "dirs s1 = dirs s" using ok by (simp_all add: s1_def)
  have o: "open_existing (kpath x) s1 = (Some ?fd, ?s2)"
    using open_existing_ok [OF s1(1), of "kpath x"] f s1 by (simp add: dom_def)
  have r: "read_fd ?fd 8 ?s2 = (Some (keystore_bytes ?k), ?fd\<lparr>fd_off := 8\<rparr>, s3)"
    using read_fd_ok [of ?s2 8 ?fd] f s1 by (simp add: s3_def)
  have s3: "os_ok s3" "files s3 = files s" "dirs s3 = dirs s" using s1 by (simp_all add: s3_def)
  have "unat (ucast i :: u32) = unat i"
    using unat_lt2p [of i] by (simp add: unsigned_ucast_eq take_bit_nat_eq_self)
  then have n: "(word_of_nat c \<le> (ucast i :: u32)) = (c \<le> unat i)"
    using c(2) by (simp add: word_le_nat_alt unat_of_nat take_bit_nat_eq_self)
  show ?thesis
  proof (cases "unat i < c")
    case True
    define s4 where "s4 = s3\<lparr>io_calls := Suc (io_calls s3)\<rparr>"
    have il: "unat i < length ps" using True c(1) by simp
    have "226 * Suc (unat i) \<le> length (pairs_bytes ps)" using il by (simp add: length_pairs_bytes [OF ps])
    then have "take 226 (drop (pair_pos (unat i)) (keystore_bytes ?k @ pairs_bytes ps @ rest)) = pair_bytes (ps ! unat i)"
      using pairs_bytes_nth [OF ps il] by (simp add: pair_pos_def)
    then have r2: "read_fd (?fd\<lparr>fd_off := pair_pos (unat i)\<rparr>) 226 s3 =
        (Some (pair_bytes (ps ! unat i)), ?fd\<lparr>fd_off := pair_pos (unat i) + length (pair_bytes (ps ! unat i))\<rparr>, s4)"
      using read_fd_ok [OF s3(1), of 226 "?fd\<lparr>fd_off := pair_pos (unat i)\<rparr>"] f s3(2) by (simp add: s4_def)
    have wf: "wf_pair (ps ! unat i)" using ps il by (simp add: list_all_length)
    then have ne: "pair_bytes (ps ! unat i) \<noteq> []" using length_pair_bytes by fastforce
    have ov: "pair_of (overlay 0 (pair_bytes (ps ! unat i)) (pair_bytes kp)) = ps ! unat i"
      using kp wf ne by (simp add: overlay_def pair_of_bytes)
    have "get_key_pair x i kp s = Some (0, ps ! unat i, s4)"
      using e o r r2 n True wf ov by (simp add: get_key_pair_def Let_def)
    then show ?thesis using s3 True by (simp add: s4_def)
  next
    case False
    then have "get_key_pair x i kp s = Some (-1, kp, s3)"
      using e o r n by (simp add: get_key_pair_def Let_def)
    then show ?thesis using False s3 by simp
  qed
qed

lemma get_key_pair_some:
  assumes rep: "rep_stores s A" and ok: "os_ok s" and ps: "A x = Some ps" and kp: "wf_pair kp"
  shows "\<exists>s'. get_key_pair x i kp s = Some (if unat i < length ps then (0, ps ! unat i, s') else (-1, kp, s')) \<and>
    rep_stores s' A \<and> os_ok s'"
proof -
  note f = file_facts [OF rep ps]
  have "files s (kpath x) = Some (keystore_bytes \<lparr>ks_id = x, key_pairs_num = word_of_nat (length ps)\<rparr> @ pairs_bytes ps @ [])"
    using f(1) by (simp add: ks_file_def)
  from get_key_pair_file [OF f(4) ok order_refl f(3,2) kp this, of i] show ?thesis
    using rep by (auto simp: rep_stores_def)
qed

end
