(* ===== verification/Keystore_Store.thy ===== *)
theory Keystore_Store
  imports Keystore_Correct
begin

text \<open>The key stores behind their interface, as runs of commands, and on a disk that fails.\<close>

section \<open>The interface of the key stores\<close>

text \<open>What the commands of the server rely on: a store of lists of pairs, addressed by a user and a
  16-bit index.\<close>

locale key_store =
  fixes rep :: "'s \<Rightarrow> (u32 \<rightharpoonup> 'p list) \<Rightarrow> bool"
    and wf :: "'p \<Rightarrow> bool"
    and create :: "u32 \<Rightarrow> 's \<Rightarrow> (int \<times> 's) option"
    and save :: "u32 \<Rightarrow> 'p \<Rightarrow> u16 \<Rightarrow> 's \<Rightarrow> (int \<times> u16 \<times> 's) option"
    and lookup :: "u32 \<Rightarrow> u16 \<Rightarrow> 'p \<Rightarrow> 's \<Rightarrow> (int \<times> 'p \<times> 's) option"
  assumes create_new: "\<lbrakk>rep s A; x \<le> 1000000000; A x = None\<rbrakk> \<Longrightarrow> \<exists>s'. create x s = Some (0, s') \<and> rep s' (A(x \<mapsto> []))"
    and create_old: "\<lbrakk>rep s A; A x \<noteq> None\<rbrakk> \<Longrightarrow> \<exists>s'. create x s = Some (-1, s') \<and> rep s' A"
    and save_some: "\<lbrakk>rep s A; A x = Some ps; length ps + 1 < 2 ^ 32; wf p\<rbrakk> \<Longrightarrow>
      \<exists>s'. save x p i s = Some (0, word_of_nat (length ps), s') \<and> rep s' (A(x \<mapsto> ps @ [p]))"
    and save_none: "\<lbrakk>rep s A; A x = None\<rbrakk> \<Longrightarrow> \<exists>s'. save x p i s = Some (-1, i, s') \<and> rep s' A"
    and lookup_some: "\<lbrakk>rep s A; A x = Some ps; wf p\<rbrakk> \<Longrightarrow>
      \<exists>s'. lookup x i p s = Some (if unat i < length ps then (0, ps ! unat i, s') else (-1, p, s')) \<and> rep s' A"
    and lookup_none: "\<lbrakk>rep s A; A x = None\<rbrakk> \<Longrightarrow> \<exists>s'. lookup x i p s = Some (-1, p, s') \<and> rep s' A"
begin

lemma save_then_lookup:
  assumes "rep s A" "A x = Some ps" "length ps < 65536" "wf p" "wf q"
  shows "\<exists>i' s1 s2. save x p i s = Some (0, i', s1) \<and> lookup x i' q s1 = Some (0, p, s2) \<and> rep s2 (A(x \<mapsto> ps @ [p]))"
proof -
  obtain s1 where s1: "save x p i s = Some (0, word_of_nat (length ps), s1)" "rep s1 (A(x \<mapsto> ps @ [p]))"
    using save_some [OF assms(1,2) _ assms(4), of i] assms(3) by auto
  have "unat (word_of_nat (length ps) :: u16) = length ps"
    using assms(3) by (simp add: unat_of_nat take_bit_nat_eq_self)
  then obtain s2 where "lookup x (word_of_nat (length ps)) q s1 = Some (0, p, s2)" "rep s2 (A(x \<mapsto> ps @ [p]))"
    using lookup_some [OF s1(2) _ assms(5), of x "ps @ [p]" "word_of_nat (length ps)"] by auto
  then show ?thesis using s1(1) by blast
qed

lemma save_wraps:
  assumes "rep s A" "A x = Some ps" "length ps = 65536" "wf p" "wf q"
  shows "\<exists>s1 s2. save x p i s = Some (0, 0, s1) \<and> lookup x 0 q s1 = Some (0, ps ! 0, s2)"
proof -
  have "(word_of_nat (length ps) :: u16) = 0" unfolding assms(3) by simp
  then obtain s1 where s1: "save x p i s = Some (0, 0, s1)" "rep s1 (A(x \<mapsto> ps @ [p]))"
    using save_some [OF assms(1,2) _ assms(4), of i] assms(3) by auto
  then show ?thesis
    using lookup_some [OF s1(2) _ assms(5), of x "ps @ [p]" 0] assms(3) by (auto simp: nth_append)
qed

lemma save_frame:
  assumes "rep s A" "A x = Some ps" "length ps + 1 < 2 ^ 32" "wf p" "wf q" "y \<noteq> x" "A y = Some qs" "unat j < length qs"
  shows "\<exists>r i' s1 s2. save x p i s = Some (r, i', s1) \<and> lookup y j q s1 = Some (0, qs ! unat j, s2)"
proof -
  obtain s1 where s1: "save x p i s = Some (0, word_of_nat (length ps), s1)" "rep s1 (A(x \<mapsto> ps @ [p]))"
    using save_some [OF assms(1-4)] by blast
  then show ?thesis using lookup_some [OF s1(2) _ assms(5), of y qs j] assms(6-8) by auto
qed

end

definition stored :: "os \<Rightarrow> key_stores \<Rightarrow> bool"
  where "stored s A \<longleftrightarrow> rep_stores s A \<and> os_ok s"

interpretation spc_store: key_store stored wf_pair gen_new_keystore save_key_pair get_key_pair
proof
  fix s A x ps p i q
  assume s: "stored s A"
  show "\<lbrakk>x \<le> 1000000000; A x = None\<rbrakk> \<Longrightarrow> \<exists>s'. gen_new_keystore x s = Some (0, s') \<and> stored s' (A(x \<mapsto> []))"
    using s gen_new_keystore_ok by (auto simp: stored_def)
  show "A x \<noteq> None \<Longrightarrow> \<exists>s'. gen_new_keystore x s = Some (-1, s') \<and> stored s' A"
    using s gen_new_keystore_no by (auto simp: stored_def)
  show "\<lbrakk>A x = Some ps; length ps + 1 < 2 ^ 32; wf_pair p\<rbrakk> \<Longrightarrow>
      \<exists>s'. save_key_pair x p i s = Some (0, word_of_nat (length ps), s') \<and> stored s' (A(x \<mapsto> ps @ [p]))"
    using s save_key_pair_ok unfolding stored_def by blast
  show "A x = None \<Longrightarrow> \<exists>s'. save_key_pair x p i s = Some (-1, i, s') \<and> stored s' A"
    using s save_key_pair_no by (auto simp: stored_def)
  show "\<lbrakk>A x = Some ps; wf_pair p\<rbrakk> \<Longrightarrow>
      \<exists>s'. get_key_pair x i p s = Some (if unat i < length ps then (0, ps ! unat i, s') else (-1, p, s')) \<and> stored s' A"
    using s get_key_pair_some unfolding stored_def by blast
  show "A x = None \<Longrightarrow> \<exists>s'. get_key_pair x i p s = Some (-1, p, s') \<and> stored s' A"
    using s get_key_pair_no by (auto simp: stored_def)
qed

section \<open>Runs\<close>

text \<open>Commands on the key stores, one after the other, counted.\<close>

inductive ks_run :: "os \<Rightarrow> nat \<Rightarrow> os \<Rightarrow> bool" for s0 where
  start: "ks_run s0 0 s0"
| create: "\<lbrakk>ks_run s0 n s; gen_new_keystore x s = Some (r, s')\<rbrakk> \<Longrightarrow> ks_run s0 (Suc n) s'"
| save: "\<lbrakk>ks_run s0 n s; wf_pair p; save_key_pair x p i s = Some (r, i', s')\<rbrakk> \<Longrightarrow> ks_run s0 (Suc n) s'"
| lookup: "\<lbrakk>ks_run s0 n s; wf_pair p; get_key_pair x i p s = Some (r, p', s')\<rbrakk> \<Longrightarrow> ks_run s0 (Suc n) s'"

lemma ks_run_stored:
  "\<lbrakk>ks_run s0 n s; stored s0 Map.empty; n < 2 ^ 32 - 1\<rbrakk> \<Longrightarrow> \<exists>A. stored s A \<and> (\<forall>x ps. A x = Some ps \<longrightarrow> length ps \<le> n)"
proof (induction rule: ks_run.induct)
  case (create n s x r s')
  then obtain A where A: "stored s A" "\<forall>x ps. A x = Some ps \<longrightarrow> length ps \<le> n" by auto
  show ?case
  proof (cases "A x = None \<and> x \<le> 1000000000")
    case True
    then have "stored s' (A(x \<mapsto> []))" using spc_store.create_new [OF A(1), of x] create.hyps(2) True by auto
    then show ?thesis using A(2) by (intro exI conjI) (auto simp: le_SucI split: if_splits)
  next
    case False
    then have "A x \<noteq> None \<or> 1000000000 < x" by auto
    then have "stored s' A"
      using gen_new_keystore_no [of s A x] A(1) create.hyps(2) by (auto simp: stored_def)
    then show ?thesis using A(2) by (auto simp: le_SucI)
  qed
next
  case (save n s p x i r i' s')
  then obtain A where A: "stored s A" "\<forall>x ps. A x = Some ps \<longrightarrow> length ps \<le> n" by auto
  show ?case
  proof (cases "A x")
    case None
    then have "stored s' A" using spc_store.save_none [OF A(1) None, of p i] save.hyps(3) by auto
    then show ?thesis using A(2) by (auto simp: le_SucI)
  next
    case (Some ps)
    then have "length ps + 1 < 2 ^ 32" using A(2) save.prems(2) by fastforce
    then have "stored s' (A(x \<mapsto> ps @ [p]))"
      using spc_store.save_some [OF A(1) Some _ save.hyps(2), of i] save.hyps(3) by auto
    then show ?thesis using A(2) Some by (intro exI conjI) (auto simp: le_SucI split: if_splits)
  qed
next
  case (lookup n s p x i r p' s')
  then obtain A where A: "stored s A" "\<forall>x ps. A x = Some ps \<longrightarrow> length ps \<le> n" by auto
  have "stored s' A"
  proof (cases "A x")
    case None
    then show ?thesis using spc_store.lookup_none [OF A(1) None, of i p] lookup.hyps(3) by auto
  next
    case (Some ps)
    then show ?thesis using spc_store.lookup_some [OF A(1) Some lookup.hyps(2), of i] lookup.hyps(3) by (auto split: if_splits)
  qed
  then show ?case using A(2) by (auto simp: le_SucI)
qed auto

section \<open>A failing disk\<close>

lemma malloc_fresh: "\<lbrakk>malloc n h = (Some p, h'); heap_ok h\<rbrakk> \<Longrightarrow> p \<in> live h' \<and> p \<notin> live h \<and> heap_ok h' \<and> live h' = insert p (live h)"
  by (auto simp: malloc_def heap_ok_def less_Suc_eq split: if_splits)

lemma malloc_none: "\<lbrakk>malloc n h = (None, h'); heap_ok h\<rbrakk> \<Longrightarrow> heap_ok h' \<and> live h' = live h"
  by (auto simp: malloc_def heap_ok_def less_Suc_eq split: if_splits)

lemma os_malloc_fresh: "\<lbrakk>os_malloc n s = (Some p, s'); heap_ok (hp s)\<rbrakk> \<Longrightarrow>
    \<exists>h. s' = s\<lparr>hp := h\<rparr> \<and> p \<notin> live (hp s) \<and> heap_ok h \<and> live h = insert p (live (hp s))"
  by (auto simp: os_malloc_def split: prod.splits dest!: malloc_fresh)

lemma os_malloc_none: "\<lbrakk>os_malloc n s = (None, s'); heap_ok (hp s)\<rbrakk> \<Longrightarrow>
    \<exists>h. s' = s\<lparr>hp := h\<rparr> \<and> heap_ok h \<and> live h = live (hp s)"
  by (auto simp: os_malloc_def split: prod.splits dest!: malloc_none)

lemma os_free_live: "\<lbrakk>p \<in> live (hp s)\<rbrakk> \<Longrightarrow> os_free p s = Some (s\<lparr>hp := (hp s)\<lparr>live := live (hp s) - {p}\<rparr>\<rparr>)"
  by (simp add: os_free_def free_blk_def)

text \<open>Whatever allocations fail, the path is computed or refused, nothing is freed twice and no block
  is lost.\<close>

lemma gen_keystore_path_any:
  assumes x: "x \<le> 1000000000" and h: "heap_ok (hp s)" and l: "length (kpath x) \<le> length buffer"
  shows "\<exists>h'. heap_ok h' \<and> live h' = live (hp s) \<and>
    (gen_keystore_path x buffer pl s = Some (-1, buffer, pl, s\<lparr>hp := h'\<rparr>) \<or>
     gen_keystore_path x buffer pl s =
       Some (0, kpath x @ drop (length (kpath x)) buffer, word_of_nat (length (kpath x)), s\<lparr>hp := h'\<rparr>))"
proof -
  note n = get_num_str_len_eq [OF x]
  note b = path_buffers [OF x] wr_0 [OF l] sprintf_d_eq [OF x] n(1)
  obtain o1 s1 where m1: "os_malloc (ucast (get_num_str_len x) + 1) s = (o1, s1)" by (cases "os_malloc (ucast (get_num_str_len x) + 1) s")
  show ?thesis
  proof (cases o1)
    case None
    then obtain h1 where "s1 = s\<lparr>hp := h1\<rparr>" "heap_ok h1" "live h1 = live (hp s)"
      using os_malloc_none [of _ s s1] m1 h by blast
    then show ?thesis using m1 None x n by (auto simp: gen_keystore_path_def Let_def)
  next
    case (Some p)
    then obtain h1 where h1: "s1 = s\<lparr>hp := h1\<rparr>" "p \<notin> live (hp s)" "heap_ok h1" "live h1 = insert p (live (hp s))"
      using os_malloc_fresh [of _ s p s1] m1 h by blast
    obtain o2 s2 where m2: "os_malloc (76 + ucast (get_num_str_len x) + 1) s1 = (o2, s2)"
      by (cases "os_malloc (76 + ucast (get_num_str_len x) + 1) s1")
    obtain h2 where h2: "s2 = s\<lparr>hp := h2\<rparr>" "heap_ok h2" "live h2 = set_option o2 \<union> live h1" "set_option o2 \<inter> live h1 = {}"
      using m2 h1(1,3) by (cases o2) (auto dest!: os_malloc_none os_malloc_fresh)
    let ?h = "h2\<lparr>live := live (hp s)\<rparr>"
    have f1: "os_free p s2 = Some (s\<lparr>hp := h2\<lparr>live := set_option o2 \<union> live (hp s)\<rparr>\<rparr>)"
      using h1 h2 by (auto simp: os_free_live insert_Diff_if Un_insert_right)
    have ok: "heap_ok ?h" using h2 h1 by (auto simp: heap_ok_def)
    show ?thesis
    proof (cases o2)
      case None
      then show ?thesis using m1 m2 Some x n(2) f1 ok
        by (intro exI [of _ ?h]) (simp add: gen_keystore_path_def Let_def b)
    next
      case q: (Some q)
      have "os_free q (s\<lparr>hp := h2\<lparr>live := insert q (live (hp s))\<rparr>\<rparr>) = Some (s\<lparr>hp := ?h\<rparr>)"
        using h1 h2 q by (auto simp: os_free_live insert_Diff_if)
      then show ?thesis using m1 m2 Some q x n(2) f1 ok
        by (intro exI [of _ ?h]) (simp add: gen_keystore_path_def Let_def b rd_app)
    qed
  qed
qed

lemma exist_any:
  assumes x: "x \<le> 1000000000" and h: "heap_ok (hp s)"
  obtains h' where "check_keystore_exist x (replicate 87 0) 0 s = Some (-1, replicate 87 0, 0, s\<lparr>hp := h'\<rparr>)"
  | h' len where "check_keystore_exist x (replicate 87 0) 0 s = Some (if path_there x s then 1 else 0,
      kpath x @ replicate (87 - length (kpath x)) 0, len, s\<lparr>hp := h'\<rparr>)" "\<not> len < 76"
proof -
  have l: "length (kpath x) \<le> 86" "76 \<le> length (kpath x)" using length_kpath [OF x] by (auto simp: kpath_def)
  then have u: "unat (word_of_nat (length (kpath x)) :: u32) = length (kpath x)"
    by (simp add: unat_of_nat take_bit_nat_eq_self)
  then have nl: "\<not> word_of_nat (length (kpath x)) < (76 :: u32)" using l by (simp add: word_less_nat_alt)
  have w: "wr 0 (kpath x) (replicate 87 0) = Some (kpath x @ replicate (87 - length (kpath x)) 0)"
    using l by (simp add: wr_def)
  obtain h' where "gen_keystore_path x (replicate 87 0) 0 s = Some (-1, replicate 87 0, 0, s\<lparr>hp := h'\<rparr>) \<or>
     gen_keystore_path x (replicate 87 0) 0 s =
       Some (0, kpath x @ replicate (87 - length (kpath x)) 0, word_of_nat (length (kpath x)), s\<lparr>hp := h'\<rparr>)"
    using gen_keystore_path_any [OF x h, of "replicate 87 0" 0] l by auto
  then show ?thesis
  proof (elim disjE)
    assume "gen_keystore_path x (replicate 87 0) 0 s = Some (-1, replicate 87 0, 0, s\<lparr>hp := h'\<rparr>)"
    then show ?thesis using x by (intro that(1) [of h']) (simp add: check_keystore_exist_def not_less)
  next
    assume "gen_keystore_path x (replicate 87 0) 0 s =
       Some (0, kpath x @ replicate (87 - length (kpath x)) 0, word_of_nat (length (kpath x)), s\<lparr>hp := h'\<rparr>)"
    then show ?thesis using x nl u w
      by (intro that(2) [of "word_of_nat (length (kpath x))" h'])
        (simp_all add: check_keystore_exist_def not_less c_str_kpath rd_app access_def path_there_def)
  qed
qed

lemma read_fd_any:
  obtains fd' where "read_fd fd n s = (None, fd', s\<lparr>io_calls := Suc (io_calls s)\<rparr>)"
  | fd' k where "read_fd fd n s = (Some (take (min k n) (drop (fd_off fd) (file_of fd s))), fd', s\<lparr>io_calls := Suc (io_calls s)\<rparr>)"
      "fd_path fd' = fd_path fd"
  by (cases "io_max s (io_calls s)") (auto simp: read_fd_def io_step_def Let_def)

lemma write_fd_any:
  obtains fd' where "write_fd fd src s = (None, fd', s\<lparr>io_calls := Suc (io_calls s)\<rparr>)"
  | fd' k where "write_fd fd src s = (Some (length (take k src)), fd', s\<lparr>io_calls := Suc (io_calls s),
      files := (files s)(fd_path fd \<mapsto> overlay (fd_off fd) (take k src) (file_of fd s))\<rparr>)"
      "fd_path fd' = fd_path fd"
  by (cases "io_max s (io_calls s)") (auto simp: write_fd_def io_step_def Let_def)

text \<open>The header is written in place after the pair.  A write that is cut short leaves the bytes of the new header in
  front of those of the old one: as long as the low byte of the count does not carry, that is one of the two.\<close>

definition count_header :: "u32 \<Rightarrow> nat \<Rightarrow> byte list"
  where "count_header x n = keystore_bytes \<lparr>ks_id = x, key_pairs_num = word_of_nat n\<rparr>"

lemma length_count_header [simp]: "length (count_header x n) = 8"
  by (simp add: count_header_def)

lemma next_header:
  "keystore_bytes \<lparr>ks_id = x, key_pairs_num = word_of_nat n + 1\<rparr> = count_header x (Suc n)"
  "keystore_bytes \<lparr>ks_id = x, key_pairs_num = word_of_nat n\<rparr> = count_header x n"
  "keystore_of (count_header x n) = \<lparr>ks_id = x, key_pairs_num = word_of_nat n\<rparr>"
  by (simp_all add: count_header_def add.commute)

lemma ks_file_count: "ks_file x ps = count_header x (length ps) @ pairs_bytes ps"
  by (simp add: ks_file_def count_header_def)

lemma count_header_parts:
  "n < 2 ^ 32 \<Longrightarrow> count_header x n = u32_le x @ word_of_nat (n mod 256) # le_of_nat 3 (n div 256)"
  by (simp add: count_header_def keystore_bytes_def u32_le_def unat_of_nat take_bit_nat_eq_self le_of_nat_numeral)

lemma torn_header:
  assumes "Suc n < 2 ^ 32" "Suc n mod 256 \<noteq> 0"
  shows "take m (count_header x (Suc n)) @ drop m (count_header x n) = count_header x (if m < 5 then n else Suc n)"
proof -
  let ?t = "le_of_nat 3 (n div 256)"
  have h: "count_header x n = u32_le x @ word_of_nat (n mod 256) # ?t"
    "count_header x (Suc n) = (u32_le x @ [word_of_nat (Suc n mod 256)]) @ ?t"
    using assms by (simp_all add: count_header_parts div_Suc)
  show ?thesis
  proof (cases "m < 5")
    case True
    then have "m \<le> length (u32_le x)" by simp
    then have "take m (count_header x (Suc n)) @ drop m (count_header x n) = count_header x n" unfolding h by simp
    then show ?thesis using True by simp
  next
    case False
    then obtain j where "m = 5 + j" by (metis le_Suc_ex not_less)
    then have "take m (count_header x (Suc n)) @ drop m (count_header x n) = count_header x (Suc n)"
      unfolding h by (simp add: take_Cons' drop_Cons')
    then show ?thesis using False by simp
  qed
qed

lemma overlay_pair: "overlay (length f) d (f @ r) = f @ d @ drop (length d) r"
  by (simp add: overlay_def)

lemma overlay_head: "length d = length h \<Longrightarrow> overlay 0 (take k d) (h @ f) = take k d @ drop k h @ f"
  by (auto simp: overlay_def min_def)

lemma lseek_path: "lseek fd n = \<lparr>fd_path = fd_path fd, fd_off = n\<rparr>"
  by (cases fd) simp

text \<open>A file with the pairs of a user may have bytes of an interrupted save behind them.  A save stores the new pair
  whole or not at all, and reports success only if it stored it.\<close>

definition whole_pairs :: "u32 \<Rightarrow> spc_key_pair list \<Rightarrow> os \<Rightarrow> bool"
  where "whole_pairs x ps s \<longleftrightarrow> (\<exists>rest. files s (kpath x) = Some (ks_file x ps @ rest))"

definition all_or_nothing :: "u32 \<Rightarrow> spc_key_pair list \<Rightarrow> spc_key_pair \<Rightarrow> int \<Rightarrow> os \<Rightarrow> os \<Rightarrow> bool" where
  "all_or_nothing x ps kp r s s' \<longleftrightarrow> (r = -1 \<and> whole_pairs x ps s' \<or> r \<in> {0, -1} \<and> whole_pairs x (ps @ [kp]) s') \<and>
     (\<forall>p. p \<noteq> kpath x \<longrightarrow> files s' p = files s p)"

lemma nothing_saved: "\<lbrakk>whole_pairs x ps s'; \<forall>p. p \<noteq> kpath x \<longrightarrow> files s' p = files s p\<rbrakk> \<Longrightarrow> all_or_nothing x ps kp (-1) s s'"
  by (simp add: all_or_nothing_def)

lemma header_write_any:
  assumes s4: "files s4 (kpath x) = Some (ks_file x ps @ pair_bytes kp @ rest)" "\<forall>p. p \<noteq> kpath x \<longrightarrow> files s4 p = files s2 p"
    and n: "Suc (length ps) < 2 ^ 32" "Suc (length ps) mod 256 \<noteq> 0"
  shows "\<exists>ret fd s5. write_fd \<lparr>fd_path = kpath x, fd_off = 0\<rparr> (count_header x (Suc (length ps))) s4 = (ret, fd, s5) \<and>
    all_or_nothing x ps kp (if ret \<noteq> Some 8 then -1 else 0) s2 s5"
proof (rule write_fd_any [of "\<lparr>fd_path = kpath x, fd_off = 0\<rparr>" "count_header x (Suc (length ps))" s4])
  fix fd' assume "write_fd \<lparr>fd_path = kpath x, fd_off = 0\<rparr> (count_header x (Suc (length ps))) s4 = (None, fd', s4\<lparr>io_calls := Suc (io_calls s4)\<rparr>)"
  then show ?thesis using s4 by (auto simp: all_or_nothing_def whole_pairs_def)
next
  let ?h = "count_header x (Suc (length ps))" and ?qs = "\<lambda>k. if k < 5 then ps else ps @ [kp]"
  fix fd' k
  define s5 where "s5 = s4\<lparr>io_calls := Suc (io_calls s4), files := (files s4)(kpath x \<mapsto>
      take k ?h @ drop k (count_header x (length ps)) @ pairs_bytes ps @ pair_bytes kp @ rest)\<rparr>"
  assume "write_fd \<lparr>fd_path = kpath x, fd_off = 0\<rparr> ?h s4 = (Some (length (take k ?h)), fd', s4\<lparr>io_calls := Suc (io_calls s4),
      files := (files s4)(fd_path \<lparr>fd_path = kpath x, fd_off = 0\<rparr> \<mapsto>
        overlay (fd_off \<lparr>fd_path = kpath x, fd_off = 0\<rparr>) (take k ?h) (file_of \<lparr>fd_path = kpath x, fd_off = 0\<rparr> s4))\<rparr>)"
  then have w: "write_fd \<lparr>fd_path = kpath x, fd_off = 0\<rparr> ?h s4 = (Some (length (take k ?h)), fd', s5)"
    using s4(1) by (simp add: s5_def ks_file_count overlay_head)
  have "files s5 (kpath x) = Some (count_header x (if k < 5 then length ps else Suc (length ps)) @ pairs_bytes ps @ pair_bytes kp @ rest)"
    unfolding torn_header [OF n, of k, symmetric] by (simp add: s5_def)
  then have f5: "whole_pairs x (?qs k) s5"
    by (auto simp: whole_pairs_def ks_file_count pairs_bytes_def split: if_splits)
  have "\<forall>p. p \<noteq> kpath x \<longrightarrow> files s5 p = files s2 p" using s4(2) by (simp add: s5_def)
  then have "all_or_nothing x ps kp (if Some (length (take k ?h)) \<noteq> Some 8 then -1 else 0) s2 s5"
    using f5 by (cases "k < 5") (simp_all add: all_or_nothing_def)
  then show ?thesis using w by blast
qed

lemma save_opened_any:
  assumes f: "files s2 (kpath x) = Some (ks_file x ps @ rest)" and ps: "list_all wf_pair ps" and kp: "wf_pair kp"
    and n: "Suc (length ps) < 2 ^ 32" "Suc (length ps) mod 256 \<noteq> 0"
  shows "\<exists>r i' s'. save_opened x kp i \<lparr>fd_path = kpath x, fd_off = 0\<rparr> s2 = Some (r, i', s') \<and> all_or_nothing x ps kp r s2 s'"
proof (rule read_fd_any [of "\<lparr>fd_path = kpath x, fd_off = 0\<rparr>" 8 s2])
  fix fd assume "read_fd \<lparr>fd_path = kpath x, fd_off = 0\<rparr> 8 s2 = (None, fd, s2\<lparr>io_calls := Suc (io_calls s2)\<rparr>)"
  then show ?thesis using f by (auto simp: save_opened_def intro!: nothing_saved simp: whole_pairs_def)
next
  fix fd k
  let ?s3 = "s2\<lparr>io_calls := Suc (io_calls s2)\<rparr>"
  let ?e = "\<lparr>fd_path = kpath x, fd_off = pair_pos (length ps)\<rparr>"
  assume r: "read_fd \<lparr>fd_path = kpath x, fd_off = 0\<rparr> 8 s2 =
      (Some (take (min k 8) (drop (fd_off \<lparr>fd_path = kpath x, fd_off = 0\<rparr>) (file_of \<lparr>fd_path = kpath x, fd_off = 0\<rparr> s2))), fd, ?s3)"
    "fd_path fd = fd_path \<lparr>fd_path = kpath x, fd_off = 0\<rparr>"
  have len_f: "length (ks_file x ps) = pair_pos (length ps)"
    using ps by (simp add: ks_file_count pair_pos_def length_pairs_bytes)
  have u: "unat (word_of_nat (length ps) :: u32) = length ps"
    using n(1) by (simp add: unat_of_nat take_bit_nat_eq_self)
  have w3: "whole_pairs x ps ?s3" "\<And>c. whole_pairs x ps (?s3\<lparr>io_calls := c\<rparr>)" using f by (auto simp: whole_pairs_def)
  show ?thesis
  proof (cases "8 \<le> k")
    case False
    then show ?thesis using r f w3(1) by (auto simp: save_opened_def ks_file_count intro!: nothing_saved)
  next
    case True
    then have r8: "read_fd \<lparr>fd_path = kpath x, fd_off = 0\<rparr> 8 s2 = (Some (count_header x (length ps)), fd, ?s3)"
      using r f by (simp add: min_def ks_file_count)
    show ?thesis
    proof (rule write_fd_any [of ?e "pair_bytes kp" ?s3])
      fix fd' assume "write_fd ?e (pair_bytes kp) ?s3 = (None, fd', ?s3\<lparr>io_calls := Suc (io_calls ?s3)\<rparr>)"
      then show ?thesis using r8 r(2) u w3(2) by (simp add: save_opened_def Let_def lseek_path next_header nothing_saved)
    next
      fix fd' m
      let ?b = "take m (pair_bytes kp)"
      define s4 where "s4 = ?s3\<lparr>io_calls := Suc (io_calls ?s3), files := (files s2)(kpath x \<mapsto> ks_file x ps @ ?b @ drop (length ?b) rest)\<rparr>"
      assume "write_fd ?e (pair_bytes kp) ?s3 = (Some (length ?b), fd', ?s3\<lparr>io_calls := Suc (io_calls ?s3),
          files := (files ?s3)(fd_path ?e \<mapsto> overlay (fd_off ?e) ?b (file_of ?e ?s3))\<rparr>)"
        and fd': "fd_path fd' = fd_path ?e"
      then have w: "write_fd ?e (pair_bytes kp) ?s3 = (Some (length ?b), fd', s4)"
        using f by (simp add: s4_def overlay_pair flip: len_f)
      have s4f: "files s4 (kpath x) = Some (ks_file x ps @ ?b @ drop (length ?b) rest)" "\<forall>p. p \<noteq> kpath x \<longrightarrow> files s4 p = files s2 p"
        by (simp_all add: s4_def)
      show ?thesis
      proof (cases "length ?b = 226")
        case False
        have "whole_pairs x ps s4" using s4f(1) by (auto simp: whole_pairs_def)
        then show ?thesis using r8 r(2) u w False s4f(2) by (simp add: save_opened_def Let_def lseek_path next_header nothing_saved del: length_take)
      next
        case whole: True
        then have b: "?b = pair_bytes kp" using length_pair_bytes [OF kp] by simp
        obtain ret fd2 s5 where h: "write_fd \<lparr>fd_path = kpath x, fd_off = 0\<rparr> (count_header x (Suc (length ps))) s4 = (ret, fd2, s5)"
            "all_or_nothing x ps kp (if ret \<noteq> Some 8 then -1 else 0) s2 s5"
          using header_write_any [OF s4f(1) [unfolded b] s4f(2) n] by blast
        then show ?thesis using r8 r(2) u w [unfolded b] length_pair_bytes [OF kp] fd'
          by (simp add: save_opened_def Let_def lseek_path next_header)
      qed
    qed
  qed
qed

lemma save_key_pair_any:
  assumes x: "x \<le> 1000000000" and h: "heap_ok (hp s)" and f: "whole_pairs x ps s"
    and ps: "list_all wf_pair ps" "wf_pair kp" "Suc (length ps) < 2 ^ 32" "Suc (length ps) mod 256 \<noteq> 0"
  shows "\<exists>r i' s'. save_key_pair x kp i s = Some (r, i', s') \<and> all_or_nothing x ps kp r s s'"
  using x h
proof (rule exist_any)
  fix h' assume "check_keystore_exist x (replicate 87 0) 0 s = Some (-1, replicate 87 0, 0, s\<lparr>hp := h'\<rparr>)"
  then show ?thesis using f by (simp add: save_key_pair_def all_or_nothing_def whole_pairs_def)
next
  fix h' len assume e: "check_keystore_exist x (replicate 87 0) 0 s = Some (if path_there x s then 1 else 0,
      kpath x @ replicate (87 - length (kpath x)) 0, len, s\<lparr>hp := h'\<rparr>)" "\<not> len < 76"
  obtain rest where fr: "files s (kpath x) = Some (ks_file x ps @ rest)" using f by (auto simp: whole_pairs_def)
  then have there: "path_there x s" by (auto simp: path_there_def)
  define s2 where "s2 = s\<lparr>hp := h', io_calls := Suc (io_calls s)\<rparr>"
  let ?fd = "\<lparr>fd_path = kpath x, fd_off = 0\<rparr>"
  show ?thesis
  proof (cases "open_existing (kpath x) (s\<lparr>hp := h'\<rparr>)")
    case (Pair d s')
    have s': "s' = s2" "d = None \<or> d = Some ?fd"
      using Pair by (auto simp: open_existing_def io_step_def s2_def split: if_splits)
    show ?thesis
    proof (cases "d = None")
      case True
      then show ?thesis using e there Pair s' f
        by (simp add: save_key_pair_def c_str_kpath all_or_nothing_def whole_pairs_def s2_def)
    next
      case False
      then have "open_existing (kpath x) (s\<lparr>hp := h'\<rparr>) = (Some ?fd, s2)" using Pair s' by auto
      then have "save_key_pair x kp i s = save_opened x kp i ?fd s2"
        using e there by (simp add: save_key_pair_def c_str_kpath)
      moreover have "files s2 = files s" by (simp add: s2_def)
      ultimately show ?thesis
        using save_opened_any [of s2 x ps rest kp i] fr ps by (simp add: all_or_nothing_def)
    qed
  qed
qed

lemma whole_pairs_read:
  assumes "whole_pairs x ps s" "files t = files s" "os_ok t" "x \<le> 1000000000" "list_all wf_pair ps" "length ps < 2 ^ 32" "wf_pair q"
  shows "\<exists>t'. get_key_pair x j q t = Some (if unat j < length ps then (0, ps ! unat j, t') else (-1, q, t'))"
proof -
  obtain rest where "files t (kpath x) = Some (count_header x (length ps) @ pairs_bytes ps @ rest)"
    using assms(1,2) by (auto simp: whole_pairs_def ks_file_count)
  from get_key_pair_file [OF assms(4,3) order_refl assms(6,5,7) this [unfolded count_header_def]] show ?thesis by blast
qed

text \<open>When the low byte of the count carries, five bytes of the new header make a count that is 255 too low.\<close>

lemma torn_carry:
  assumes "Suc n < 2 ^ 32" "Suc n mod 256 = 0"
  shows "take 5 (count_header x (Suc n)) @ drop 5 (count_header x n) = count_header x (n - 255)"
proof -
  define q where "q = n div 256"
  have "n mod 256 = 255" using assms(2) by (simp add: mod_Suc split: if_splits)
  then have q: "n = 256 * q + 255" using div_mult_mod_eq [of n 256] by (simp add: q_def)
  have h: "count_header x n = (u32_le x @ [255]) @ le_of_nat 3 q" "count_header x (n - 255) = (u32_le x @ [0]) @ le_of_nat 3 q"
    using assms(1) q by (simp_all add: count_header_parts)
  have "count_header x (Suc n) = (u32_le x @ [0]) @ le_of_nat 3 (Suc n div 256)"
    using assms by (simp add: count_header_parts)
  then show ?thesis unfolding h by simp
qed

lemma torn_save:
  assumes x: "x \<le> 1000000000" and h: "no_oom (hp s)" "heap_ok (hp s)" and f: "files s (kpath x) = Some (ks_file x ps @ old)"
    and ps: "list_all wf_pair ps" "wf_pair kp" "Suc (length ps) < 2 ^ 32" "Suc (length ps) mod 256 = 0"
    and io: "io_max s = (\<lambda>c. Some (if c = io_calls s + 3 then 5 else 226))"
  shows "\<exists>s'. save_key_pair x kp i s = Some (-1, word_of_nat (length ps), s') \<and>
    files s' (kpath x) = Some (count_header x (length ps - 255) @ pairs_bytes (ps @ [kp]) @ drop 226 old)"
proof -
  let ?fd = "\<lparr>fd_path = kpath x, fd_off = 0\<rparr>" and ?c = "io_calls s" and ?n = "length ps"
  let ?e = "\<lparr>fd_path = kpath x, fd_off = pair_pos (length ps)\<rparr>"
  let ?s = "\<lambda>c f. s\<lparr>hp := tick 2 (hp s), io_calls := c, files := f\<rparr>"
  have l: "length (kpath x) \<le> 86" "76 \<le> length (kpath x)" using length_kpath [OF x] by (auto simp: kpath_def)
  have e: "check_keystore_exist x (replicate 87 0) 0 s =
      Some (1, kpath x @ replicate (87 - length (kpath x)) 0, word_of_nat (length (kpath x)), ?s ?c (files s))"
    "\<not> word_of_nat (length (kpath x)) < (76 :: u32)" "c_str (kpath x @ replicate (87 - length (kpath x)) 0) = kpath x"
    using check_keystore_exist_eq [OF x h] f l
    by (auto simp: path_there_def c_str_kpath word_less_nat_alt unat_of_nat take_bit_nat_eq_self)
  have o: "open_existing (kpath x) (?s ?c (files s)) = (Some ?fd, ?s (Suc ?c) (files s))"
    using f io by (simp add: open_existing_def io_step_def dom_def)
  have r: "read_fd ?fd 8 (?s (Suc ?c) (files s)) = (Some (count_header x ?n), ?fd\<lparr>fd_off := 8\<rparr>, ?s (Suc (Suc ?c)) (files s))"
    using f io by (simp add: read_fd_def io_step_def ks_file_count Let_def)
  have len_f: "length (ks_file x ps) = pair_pos (length ps)"
    using ps by (simp add: ks_file_count pair_pos_def length_pairs_bytes)
  let ?f1 = "(files s)(kpath x \<mapsto> ks_file x ps @ pair_bytes kp @ drop 226 old)"
  have w1: "write_fd ?e (pair_bytes kp) (?s (Suc (Suc ?c)) (files s)) =
      (Some 226, ?e\<lparr>fd_off := pair_pos ?n + 226\<rparr>, ?s (Suc (Suc (Suc ?c))) ?f1)"
    using f io length_pair_bytes [OF ps(2)] by (simp add: write_fd_def io_step_def Let_def overlay_pair flip: len_f)
  let ?f2 = "?f1(kpath x \<mapsto> count_header x (?n - 255) @ pairs_bytes (ps @ [kp]) @ drop 226 old)"
  have t: "take 5 (count_header x (Suc ?n)) @ drop 5 (count_header x ?n) @ g = count_header x (?n - 255) @ g" for g
    using torn_carry [OF ps(3,4), of x] by (metis append_assoc)
  have w2: "write_fd ?fd (count_header x (Suc ?n)) (?s (Suc (Suc (Suc ?c))) ?f1) =
      (Some 5, ?fd\<lparr>fd_off := 5\<rparr>, ?s (Suc (Suc (Suc (Suc ?c)))) ?f2)"
    using io by (simp add: write_fd_def io_step_def Let_def ks_file_count overlay_head t pairs_bytes_def add.commute)
  have u: "unat (word_of_nat ?n :: u32) = ?n" using ps(3) by (simp add: unat_of_nat take_bit_nat_eq_self)
  have c: "(ucast (word_of_nat ?n :: u32) :: u16) = word_of_nat ?n" using ps(3) by (simp add: unsigned_of_nat take_bit_nat_eq_self)
  have "save_key_pair x kp i s = Some (-1, word_of_nat ?n, ?s (Suc (Suc (Suc (Suc ?c)))) ?f2)"
    using e o r w1 w2 u by (simp add: save_key_pair_def save_opened_def Let_def c next_header)
  then show ?thesis by simp
qed

section \<open>Properties\<close>

definition demo_disk :: os
  where "demo_disk = \<lparr>hp = sound_heap, dirs = {}, files = Map.empty, io_calls = 0, io_max = \<lambda>_. Some 226\<rparr>"

definition demo_pair :: "byte \<Rightarrow> spc_key_pair"
  where "demo_pair x = \<lparr>kp_xpub = replicate 113 x, kp_xprv = replicate 113 (x + 1)\<rparr>"

definition full_disk :: "nat \<Rightarrow> os" where
  "full_disk n = demo_disk\<lparr>dirs := {SPCKEYSTOREPATH}, files := [kpath 5 \<mapsto> ks_file 5 (replicate n (demo_pair 1))]\<rparr>"

lemma demo_wf_pair: "wf_pair (demo_pair x)"
  by (simp add: wf_pair_def demo_pair_def)

lemma demo_stored: "stored demo_disk Map.empty"
  by (simp add: stored_def demo_disk_def rep_stores_def wf_stores_def os_ok_def)

lemma full_stored: "n < 2 ^ 32 \<Longrightarrow> stored (full_disk n) [5 \<mapsto> replicate n (demo_pair 1)]"
  using kpath_ne [symmetric] kpath_ne
  by (auto simp: stored_def full_disk_def demo_disk_def rep_stores_def wf_stores_def os_ok_def inj_kpath list_all_iff demo_wf_pair)

text \<open>C17: The three operations implement a map from users to lists of key pairs.  Creating succeeds
  once per user and starts an empty list; saving appends and returns the position; reading returns
  the pair at a position of the list and refuses all others.  The files represent the new map
  after every call.\<close>

theorem key_stores_refine:
  assumes "stored s A" "wf_pair kp" "\<And>ps. A x = Some ps \<Longrightarrow> length ps + 1 < 2 ^ 32"
  shows "\<exists>s1 s2 s3.
    gen_new_keystore x s = Some (if A x = None \<and> x \<le> 1000000000 then 0 else -1, s1) \<and>
    stored s1 (if A x = None \<and> x \<le> 1000000000 then A(x \<mapsto> []) else A) \<and>
    save_key_pair x kp i s =
      Some (case A x of None \<Rightarrow> (-1, i, s2) | Some ps \<Rightarrow> (0, word_of_nat (length ps), s2)) \<and>
    stored s2 (case A x of None \<Rightarrow> A | Some ps \<Rightarrow> A(x \<mapsto> ps @ [kp])) \<and>
    get_key_pair x j kp s =
      Some (case A x of None \<Rightarrow> (-1, kp, s3)
        | Some ps \<Rightarrow> if unat j < length ps then (0, ps ! unat j, s3) else (-1, kp, s3)) \<and>
    stored s3 A"
proof -
  have "\<exists>s1. gen_new_keystore x s = Some (if A x = None \<and> x \<le> 1000000000 then 0 else -1, s1) \<and>
      stored s1 (if A x = None \<and> x \<le> 1000000000 then A(x \<mapsto> []) else A)"
    using gen_new_keystore_ok [of s A x] gen_new_keystore_no [of s A x] assms(1)
    by (cases "A x = None \<and> x \<le> 1000000000") (auto simp: stored_def not_le)
  moreover have "\<exists>s2. save_key_pair x kp i s =
      Some (case A x of None \<Rightarrow> (-1, i, s2) | Some ps \<Rightarrow> (0, word_of_nat (length ps), s2)) \<and>
      stored s2 (case A x of None \<Rightarrow> A | Some ps \<Rightarrow> A(x \<mapsto> ps @ [kp]))"
  proof (cases "A x")
    case None
    then show ?thesis using spc_store.save_none [OF assms(1) None, of kp i] by simp
  next
    case (Some ps)
    then show ?thesis using spc_store.save_some [OF assms(1) Some assms(3) [OF Some] assms(2), of i] by simp
  qed
  moreover have "\<exists>s3. get_key_pair x j kp s =
      Some (case A x of None \<Rightarrow> (-1, kp, s3)
        | Some ps \<Rightarrow> if unat j < length ps then (0, ps ! unat j, s3) else (-1, kp, s3)) \<and> stored s3 A"
  proof (cases "A x")
    case None
    then show ?thesis using spc_store.lookup_none [OF assms(1) None, of j kp] by simp
  next
    case (Some ps)
    then show ?thesis using spc_store.lookup_some [OF assms(1) Some assms(2), of j] by simp
  qed
  ultimately show ?thesis by blast
qed

lemma key_stores_refine_witness:
  "\<exists>s1 s2. gen_new_keystore 7 (full_disk 2) = Some (0, s1) \<and> get_key_pair 5 1 (demo_pair 9) (full_disk 2) = Some (0, demo_pair 1, s2)"
proof -
  have s: "stored (full_disk 2) [5 \<mapsto> replicate 2 (demo_pair 1)]" by (rule full_stored) simp
  have "\<exists>s1. gen_new_keystore 7 (full_disk 2) = Some (0, s1)"
    using key_stores_refine [OF s demo_wf_pair, of 7 9 0 0] by auto
  moreover have "\<exists>s2. get_key_pair 5 1 (demo_pair 9) (full_disk 2) = Some (0, demo_pair 1, s2)"
    using key_stores_refine [OF s demo_wf_pair, of 5 9 0 1] by auto
  ultimately show ?thesis by blast
qed

text \<open>C25: A key pair that was saved is found again under the index returned, as long as the user has
  fewer than 65536 pairs.\<close>

theorem saved_pair_is_found:
  assumes "stored s A" "A x = Some ps" "length ps < 65536" "wf_pair kp" "wf_pair q"
  shows "\<exists>j s1 s2. save_key_pair x kp i s = Some (0, j, s1) \<and> get_key_pair x j q s1 = Some (0, kp, s2) \<and>
    stored s2 (A(x \<mapsto> ps @ [kp]))"
  using assms by (rule spc_store.save_then_lookup)

lemma saved_pair_is_found_witness:
  "\<exists>j s1 s2. save_key_pair 5 (demo_pair 3) 0 (full_disk 2) = Some (0, j, s1) \<and>
    get_key_pair 5 j (demo_pair 0) s1 = Some (0, demo_pair 3, s2)"
  using saved_pair_is_found [OF full_stored [of 2], of 5 "replicate 2 (demo_pair 1)" "demo_pair 3" "demo_pair 0" 0]
  by (auto simp: demo_wf_pair)

text \<open>C37: The index has 16 bits and the number of pairs 32: after 65536 pairs the index returned for a
  new pair is 0 again, and reading it gives the first pair of the user, not the new one.\<close>

theorem pair_index_wraps:
  assumes "stored s A" "A x = Some ps" "length ps = 65536" "wf_pair kp" "wf_pair q"
  shows "\<exists>s1 s2. save_key_pair x kp i s = Some (0, 0, s1) \<and> get_key_pair x 0 q s1 = Some (0, ps ! 0, s2)"
  using assms by (rule spc_store.save_wraps)

lemma pair_index_wraps_witness:
  "\<exists>s1 s2. save_key_pair 5 (demo_pair 3) 0 (full_disk 65536) = Some (0, 0, s1) \<and>
    get_key_pair 5 0 (demo_pair 0) s1 = Some (0, demo_pair 1, s2)"
  using pair_index_wraps [OF full_stored [of 65536], of 5 "replicate 65536 (demo_pair 1)" "demo_pair 3" "demo_pair 0" 0]
  by (simp add: demo_wf_pair)

text \<open>C26: Saving a pair is all or nothing, whatever the disk does (calls that fail, short reads and writes) and whatever
  allocations fail: afterwards the file counts and holds the pairs that were there, or those and the new pair behind
  them, the latter whenever success is reported.  Once the disk works again each of these pairs is read back under its
  index and no other, and the files of all other users are as they were.  The low byte of the number of pairs must not
  carry: then the header can be torn.\<close>

theorem save_key_pair_failing_disk:
  assumes "x \<le> 1000000000" "heap_ok (hp s)" "files s (kpath x) = Some (ks_file x ps @ old)" "list_all wf_pair ps" "wf_pair kp"
    and "Suc (length ps) < 2 ^ 32" "Suc (length ps) mod 256 \<noteq> 0"
  shows "\<exists>r i' s' qs rest. save_key_pair x kp i s = Some (r, i', s') \<and> (r = -1 \<and> qs = ps \<or> r \<in> {0, -1} \<and> qs = ps @ [kp]) \<and>
    files s' (kpath x) = Some (ks_file x qs @ rest) \<and> (\<forall>p. p \<noteq> kpath x \<longrightarrow> files s' p = files s p) \<and>
    (\<forall>t j q. files t = files s' \<and> os_ok t \<and> wf_pair q \<longrightarrow>
      (\<exists>t'. get_key_pair x j q t = Some (if unat j < length qs then (0, qs ! unat j, t') else (-1, q, t'))))"
proof -
  have "whole_pairs x ps s" using assms(3) by (auto simp: whole_pairs_def)
  from save_key_pair_any [OF assms(1,2) this assms(4-7), of i] obtain r i' s' where
    s': "save_key_pair x kp i s = Some (r, i', s')" "all_or_nothing x ps kp r s s'" by blast
  then obtain qs where qs: "r = -1 \<and> qs = ps \<or> r \<in> {0, -1} \<and> qs = ps @ [kp]" "whole_pairs x qs s'"
    by (auto simp: all_or_nothing_def)
  have wf: "list_all wf_pair qs" "length qs < 2 ^ 32" using qs(1) assms(4-6) by auto
  then have "\<forall>t j q. files t = files s' \<and> os_ok t \<and> wf_pair q \<longrightarrow>
      (\<exists>t'. get_key_pair x j q t = Some (if unat j < length qs then (0, qs ! unat j, t') else (-1, q, t')))"
    using whole_pairs_read [OF qs(2) _ _ assms(1)] by blast
  moreover obtain rest where "files s' (kpath x) = Some (ks_file x qs @ rest)" using qs(2) by (auto simp: whole_pairs_def)
  moreover have "\<forall>p. p \<noteq> kpath x \<longrightarrow> files s' p = files s p" using s'(2) by (simp add: all_or_nothing_def)
  ultimately show ?thesis using s'(1) qs(1) by blast
qed

lemma save_key_pair_failing_disk_witness:
  "\<exists>r i' s' qs rest. save_key_pair 5 (demo_pair 3) 0 ((full_disk 2)\<lparr>io_max := \<lambda>n. if n = 3 then Some 5 else Some 226\<rparr>) = Some (r, i', s') \<and>
    (r = -1 \<and> qs = replicate 2 (demo_pair 1) \<or> r \<in> {0, -1} \<and> qs = replicate 2 (demo_pair 1) @ [demo_pair 3]) \<and>
    files s' (kpath 5) = Some (ks_file 5 qs @ rest)"
proof -
  let ?s = "(full_disk 2)\<lparr>io_max := \<lambda>n. if n = 3 then Some 5 else Some 226\<rparr>"
  have "heap_ok (hp ?s)" "files ?s (kpath 5) = Some (ks_file 5 (replicate 2 (demo_pair 1)) @ [])"
    by (simp_all add: full_disk_def demo_disk_def)
  then show ?thesis
    using save_key_pair_failing_disk [of 5 ?s "replicate 2 (demo_pair 1)" "[]" "demo_pair 3" 0] demo_wf_pair
    by (simp add: list_all_iff) blast
qed

text \<open>C27: The header is written in place, and nothing repairs it: when the number of pairs reaches a multiple of 256 and
  the disk takes only five of the eight bytes of the new header, the save reports an error, and 255 of the pairs saved
  before can no longer be read although they are still in the file; with 255 pairs that is all of them.\<close>

theorem torn_header_loses_pairs:
  assumes "x \<le> 1000000000" "no_oom (hp s)" "heap_ok (hp s)" "files s (kpath x) = Some (ks_file x ps @ old)" "list_all wf_pair ps" "wf_pair kp"
    and "Suc (length ps) < 2 ^ 32" "Suc (length ps) mod 256 = 0" "io_max s = (\<lambda>c. Some (if c = io_calls s + 3 then 5 else 226))"
  shows "\<exists>i' s'. save_key_pair x kp i s = Some (-1, i', s') \<and>
    (\<forall>t j q. files t = files s' \<and> os_ok t \<and> wf_pair q \<and> length ps - 255 \<le> unat j \<longrightarrow> (\<exists>t'. get_key_pair x j q t = Some (-1, q, t')))"
proof -
  obtain s' where s': "save_key_pair x kp i s = Some (-1, word_of_nat (length ps), s')"
    "files s' (kpath x) = Some (count_header x (length ps - 255) @ pairs_bytes (ps @ [kp]) @ drop 226 old)"
    using torn_save [OF assms] by blast
  have l: "length ps - 255 \<le> length (ps @ [kp])" "length ps - 255 < 2 ^ 32" "list_all wf_pair (ps @ [kp])" using assms(5-7) by simp_all
  have "\<exists>t'. get_key_pair x j q t = Some (-1, q, t')"
    if "files t = files s'" "os_ok t" "wf_pair q" "length ps - 255 \<le> unat j" for t j q
  proof -
    have "files t (kpath x) = Some (keystore_bytes \<lparr>ks_id = x, key_pairs_num = word_of_nat (length ps - 255)\<rparr> @ pairs_bytes (ps @ [kp]) @ drop 226 old)"
      unfolding that(1) s'(2) count_header_def ..
    from get_key_pair_file [OF assms(1) that(2) l that(3) this, of j] show ?thesis using that(4) by auto
  qed
  then show ?thesis using s'(1) by blast
qed

lemma torn_header_loses_pairs_witness:
  "\<exists>i' s'. save_key_pair 5 (demo_pair 3) 0 ((full_disk 255)\<lparr>io_max := \<lambda>c. Some (if c = io_calls (full_disk 255) + 3 then 5 else 226)\<rparr>) =
      Some (-1, i', s') \<and> (\<forall>j. \<exists>t'. get_key_pair 5 j (demo_pair 0) (s'\<lparr>hp := sound_heap, io_max := \<lambda>_. Some 226\<rparr>) = Some (-1, demo_pair 0, t'))"
proof -
  let ?s = "(full_disk 255)\<lparr>io_max := \<lambda>c. Some (if c = io_calls (full_disk 255) + 3 then 5 else 226)\<rparr>"
  have s: "no_oom (hp ?s)" "heap_ok (hp ?s)" "files ?s (kpath 5) = Some (ks_file 5 (replicate 255 (demo_pair 1)) @ [])"
    "io_max ?s = (\<lambda>c. Some (if c = io_calls ?s + 3 then 5 else 226))" by (simp_all add: full_disk_def demo_disk_def)
  have p: "list_all wf_pair (replicate 255 (demo_pair 1))" by (simp add: list_all_iff demo_wf_pair)
  have l: "5 \<le> (1000000000 :: u32)" "Suc (length (replicate 255 (demo_pair 1))) < 2 ^ 32" "Suc (length (replicate 255 (demo_pair 1))) mod 256 = 0"
    "length (replicate 255 (demo_pair 1)) - 255 = 0" by simp_all
  obtain i' s' where s': "save_key_pair 5 (demo_pair 3) 0 ?s = Some (-1, i', s')"
    "\<And>t j q. \<lbrakk>files t = files s'; os_ok t; wf_pair q\<rbrakk> \<Longrightarrow> \<exists>t'. get_key_pair 5 j q t = Some (-1, q, t')"
    using torn_header_loses_pairs [OF l(1) s(1-3) p demo_wf_pair [of 3] l(2,3) s(4), of 0] unfolding l(4) by blast
  have "os_ok (s'\<lparr>hp := sound_heap, io_max := \<lambda>_. Some 226\<rparr>)" by (simp add: os_ok_def)
  from s'(2) [OF _ this demo_wf_pair [of 0]]
  have "\<forall>j. \<exists>t'. get_key_pair 5 j (demo_pair 0) (s'\<lparr>hp := sound_heap, io_max := \<lambda>_. Some 226\<rparr>) = Some (-1, demo_pair 0, t')" by simp
  then show ?thesis using s'(1) by blast
qed

text \<open>From an empty disk every sequence of fewer than \<^verbatim>\<open>2 ^ 32 - 1\<close> commands leaves files that
  represent some map from users to well-formed key pairs.\<close>

theorem key_store_invariant:
  assumes "ks_run s0 n s" "stored s0 Map.empty" "n < 2 ^ 32 - 1"
  shows "\<exists>A. stored s A \<and> (\<forall>x ps. A x = Some ps \<longrightarrow> length ps \<le> n)"
  using assms by (rule ks_run_stored)

lemma key_store_invariant_witness:
  "\<exists>s1 s2 A r. gen_new_keystore 5 demo_disk = Some (r, s1) \<and> ks_run demo_disk 1 s1 \<and> stored s1 A"
proof -
  obtain s1 where g: "gen_new_keystore 5 demo_disk = Some (0, s1)"
    using spc_store.create_new [OF demo_stored, of 5] by auto
  have "ks_run demo_disk (Suc 0) s1" using ks_run.start g by (rule ks_run.create)
  moreover from this have "\<exists>A. stored s1 A \<and> (\<forall>x ps. A x = Some ps \<longrightarrow> length ps \<le> Suc 0)"
    using demo_stored by (rule key_store_invariant) simp
  ultimately show ?thesis using g by auto
qed

text \<open>The file names fit their buffer of 87 bytes with its terminator, whatever allocations fail
  nothing is freed twice or lost on the way, and different users have different files.\<close>

theorem keystore_paths:
  assumes "x \<le> 1000000000" "heap_ok (hp s)"
  shows "(\<exists>h'. live h' = live (hp s) \<and>
      (gen_keystore_path x (replicate 87 0) 0 s = Some (-1, replicate 87 0, 0, s\<lparr>hp := h'\<rparr>) \<or>
       (\<exists>b len. gen_keystore_path x (replicate 87 0) 0 s = Some (0, b, len, s\<lparr>hp := h'\<rparr>) \<and>
         c_str b = kpath x \<and> length (kpath x) < length b \<and> length b = 87))) \<and>
    (\<forall>y. kpath y = kpath x \<longrightarrow> y = x)"
proof -
  have l: "length (kpath x) \<le> 86" using length_kpath [OF assms(1)] .
  let ?b = "kpath x @ drop (length (kpath x)) (replicate 87 0)"
  have "c_str ?b = kpath x \<and> length (kpath x) < length ?b \<and> length ?b = 87"
    using l by (simp add: c_str_kpath)
  then show ?thesis
    using gen_keystore_path_any [OF assms, of "replicate 87 0" 0] l by (auto simp: inj_kpath)
qed

lemma keystore_paths_witness:
  "kpath 7 \<noteq> kpath 5 \<and> (\<exists>r b len s'. gen_keystore_path 5 (replicate 87 0) 0 demo_disk = Some (r, b, len, s'))"
  using keystore_paths [of 5 demo_disk] by (auto simp: demo_disk_def)

end
