(* ===== verification/Server_Correct.thy ===== *)
theory Server_Correct
  imports Server Moscp_Correct Tx_Life Keystore_Store
begin

text \<open>The commands of the server over the network, on the key stores and on the heap.\<close>

section \<open>Connections that work\<close>

definition net_ok :: "conn \<Rightarrow> bool"
  where "net_ok c \<longleftrightarrow> wr_ok c \<and> rd_ok c"

definition err_cmd :: moscp_cmd
  where "err_cmd = zero_cmd\<lparr>m_cmd := 0xee\<rparr>"

text \<open>What is seen of a connection: the bytes still to come and the bytes sent.\<close>

lemma net_send:
  assumes "net_ok c" "0 \<le> sfd"
  obtains c' where "spc_send_cmd_to_sock sfd m c = Some (0, c')" "net_ok c'" "inq c' = inq c" "outq c' = outq c @ cmd_bytes m"
  using send_cmd_ok [of c sfd m] assms that by (auto simp: net_ok_def wr_ok_def rd_ok_def)

lemma net_error:
  assumes "net_ok c" "0 \<le> sfd"
  obtains c' where "spc_send_error_to_sock sfd c = Some (0, c')" "net_ok c'" "inq c' = inq c" "outq c' = outq c @ cmd_bytes err_cmd"
  using send_error_ok [of c sfd] assms that by (auto simp: net_ok_def wr_ok_def rd_ok_def err_cmd_def)

lemma net_send_data:
  assumes "net_ok c" "0 \<le> sfd" "d \<noteq> []" "length d < 2 ^ 31"
  obtains c' where "spc_send_data_to_sock sfd (Some d) (len64 d) c = Some (0, c')" "net_ok c'" "inq c' = inq c" "outq c' = outq c @ d"
  using send_data_ok [of c sfd d "[]"] assms that by (auto simp: net_ok_def wr_ok_def rd_ok_def)

lemma net_recv:
  assumes "net_ok c" "0 \<le> sfd" "inq c = cmd_bytes m @ rest"
  obtains c' where "spc_recv_cmd_from_sock sfd m0 c = Some (0, m, c')" "net_ok c'" "inq c' = rest" "outq c' = outq c"
  using recv_cmd_ok [of c sfd m rest m0] assms that by (auto simp: net_ok_def wr_ok_def rd_ok_def)

lemma net_recv_data:
  assumes "net_ok c" "0 \<le> sfd" "inq c = d @ rest" "d \<noteq> []" "length d < 2 ^ 31"
  obtains c' where "spc_recv_data_from_sock sfd (Some (replicate (length d) 0)) (len64 d) c = Some (0, Some d, c')"
    "net_ok c'" "inq c' = rest" "outq c' = outq c"
  using recv_data_ok [of c sfd d rest "replicate (length d) 0"] assms that by (auto simp: net_ok_def wr_ok_def rd_ok_def)

lemma stored_hp: "\<lbrakk>stored s A; no_oom h; heap_ok h\<rbrakk> \<Longrightarrow> stored (s\<lparr>hp := h\<rparr>) A"
  by (simp add: stored_def os_ok_def)

lemma stored_heap: "stored s A \<Longrightarrow> no_oom (hp s) \<and> heap_ok (hp s)"
  by (simp add: stored_def os_ok_def)

section \<open>A signing session\<close>

definition cmd3 :: "byte \<Rightarrow> u32 \<Rightarrow> u16 \<Rightarrow> u64 \<Rightarrow> moscp_cmd"
  where "cmd3 k uid index n = zero_cmd\<lparr>m_cmd := k, m_id := uid, m_index := index, m_data_len := n\<rparr>"

lemma cmd3_simps [simp]:
  "m_cmd (cmd3 k uid index n) = k" "m_id (cmd3 k uid index n) = uid" "m_index (cmd3 k uid index n) = index"
  "m_data_len (cmd3 k uid index n) = n"
  by (simp_all add: cmd3_def)

lemma cmd3_zero: "zero_cmd\<lparr>m_cmd := k, m_id := uid, m_index := index\<rparr> = cmd3 k uid index 0"
  by (simp add: cmd3_def zero_cmd_def)

lemma cmd3_upd: "cmd3 k uid index n\<lparr>m_data_len := n'\<rparr> = cmd3 k uid index n'"
  by (simp add: cmd3_def)

lemmas cmd3_fold = cmd3_upd cmd3_zero

lemma sign_tx_reply_ok:
  assumes g: "get_tx_hex_len tx 0 (hp s) = Some (0, len64 e)" and e: "e \<noteq> []" "length e < 2 ^ 31"
    and m: "\<And>sz. malloc sz (hp s) = (Some q, h4)"
    and z: "\<And>out. serialize_tx tx (Some (replicate (length e) 0)) out h4 = Some (0, Some e, len64 e, h5)"
    and f: "free_tx tx h5 = Some h6" "free_blk q h6 = Some h7"
    and c: "net_ok c" "0 \<le> sfd"
  shows "\<exists>c'. sign_tx_reply sfd uid index tx s c = Some (0, s\<lparr>hp := h7\<rparr>, c') \<and> net_ok c' \<and> inq c' = inq c \<and>
    outq c' = outq c @ cmd_bytes (cmd3 0x52 uid index (len64 e)) @ e"
proof -
  have u: "unat (len64 e :: u64) = length e" "(len64 e :: u64) \<noteq> 0" "unat (ucast (len64 e :: u64) :: u32) = length e"
    using e len64_ne_0 [of e] by (simp_all add: unat_of_nat_u64 unat_ucast_u32)
  obtain c1 where c1: "spc_send_cmd_to_sock sfd (cmd3 0x52 uid index (len64 e)) c = Some (0, c1)" "net_ok c1" "inq c1 = inq c"
      "outq c1 = outq c @ cmd_bytes (cmd3 0x52 uid index (len64 e))"
    using c by (rule net_send)
  obtain c2 where c2: "spc_send_data_to_sock sfd (Some e) (len64 e) c1 = Some (0, c2)" "net_ok c2" "inq c2 = inq c1" "outq c2 = outq c1 @ e"
    using c1(2) c(2) e by (rule net_send_data)
  show ?thesis
    using g u z f c1 c2 m by (simp add: sign_tx_reply_def os_malloc_def os_free_tx_def os_free_def cmd3_fold Let_def)
qed

lemma sign_tx_data_ok:
  assumes st: "stored s A" and p: "p \<in> live (hp s)" and c: "net_ok c" "0 \<le> sfd"
    and wf: "wf_ptx t" "length (enc_ptx t) \<le> 102400"
    and aws: "length aws = length (p_ins t)"
      "\<And>j. j < length (p_ins t) \<Longrightarrow> input_signature cv (kp_xpub kp) (kp_xprv kp) t j (aws ! j)"
    and len: "length (enc_stx (t\<lparr>p_wits := aws\<rparr>)) < 2 ^ 31"
    and inq: "inq c = enc_ptx t @ cmd_bytes (cmd3 0x51 uid index n) @ rest"
  shows "\<exists>s' c'. sign_tx_data cv sfd uid index kp (len64 (enc_ptx t)) p s c = Some (0, s', c') \<and> stored s' A \<and>
    outq c' = outq c @ cmd_bytes (cmd3 0x42 uid index (len64 (enc_ptx t))) @
      cmd_bytes (cmd3 0x52 uid index (len64 (enc_stx (t\<lparr>p_wits := aws\<rparr>)))) @ enc_stx (t\<lparr>p_wits := aws\<rparr>)"
proof -
  let ?b = "enc_ptx t" and ?e = "enc_stx (t\<lparr>p_wits := aws\<rparr>)"
  have b: "?b \<noteq> []" "length ?b < 2 ^ 31" using wf(2) by (auto simp: enc_ptx_def partial_magic_def)
  then have ub: "unat (len64 ?b :: u64) = length ?b" by (simp add: unat_of_nat_u64)
  have e: "?e \<noteq> []" by (simp add: enc_stx_def)
  obtain c1 where c1: "spc_recv_data_from_sock sfd (Some (replicate (length ?b) 0)) (len64 ?b) c = Some (0, Some ?b, c1)"
      "net_ok c1" "inq c1 = cmd_bytes (cmd3 0x51 uid index n) @ rest" "outq c1 = outq c"
    using c inq b by (rule net_recv_data)
  obtain c2 where c2: "spc_send_cmd_to_sock sfd (cmd3 0x42 uid index (len64 ?b)) c1 = Some (0, c2)" "net_ok c2"
      "inq c2 = inq c1" "outq c2 = outq c1 @ cmd_bytes (cmd3 0x42 uid index (len64 ?b))"
    using c1(2) c(2) by (rule net_send)
  obtain c3 where c3: "spc_recv_cmd_from_sock sfd zero_cmd c2 = Some (0, cmd3 0x51 uid index n, c3)" "net_ok c3"
      "inq c3 = rest" "outq c3 = outq c2"
    using c2(2) c(2) c2(3) [unfolded c1(3)] by (rule net_recv)
  have h: "no_oom (hp s)" "heap_ok (hp s)" using stored_heap [OF st] by auto
  have n: "(113 :: u32) \<le> 113" "(112 :: u32) \<le> 113" by simp_all
  obtain tx h1 h2 tx' h3 h5 h6 h7 where r:
    "init_tx (Some ?b) (len64 ?b) zero_tx (hp s) = Some (0, tx, h1)" "free_blk p h1 = Some h2"
    "sign_tx cv (Some (kp_xpub kp)) 113 (Some (kp_xprv kp)) 113 tx h2 = Some (0, tx', h3)"
    "get_tx_hex_len tx' 0 h3 = Some (0, len64 ?e)"
    "\<forall>sz. malloc sz h3 = (Some (calls h3), alloc 1 h3)"
    "\<forall>out. serialize_tx tx' (Some (replicate (length ?e) 0)) out (alloc 1 h3) = Some (0, Some ?e, len64 ?e, h5)"
    "free_tx tx' h5 = Some h6" "free_blk (calls h3) h6 = Some h7" "no_oom h7" "heap_ok h7"
    by (rule tx_life [OF wf h p n(1,2,1) aws len]) blast
  obtain c4 where c4: "sign_tx_reply sfd uid index tx' (s\<lparr>hp := h3\<rparr>) c3 = Some (0, s\<lparr>hp := h7\<rparr>, c4)"
      "outq c4 = outq c3 @ cmd_bytes (cmd3 0x52 uid index (len64 ?e)) @ ?e"
    using sign_tx_reply_ok [of tx' "s\<lparr>hp := h3\<rparr>", OF _ e len _ _ r(7,8) c3(2) c(2), of "alloc 1 h3" uid index] r(4-6) by auto
  have "sign_tx_data cv sfd uid index kp (len64 ?b) p s c = Some (0, s\<lparr>hp := h7\<rparr>, c4)"
    using c1(1) c2(1) c3(1) r(1-3) c4(1) ub
    by (simp add: sign_tx_data_def cmd3_fold os_heap_def os_free_def)
  then show ?thesis using stored_hp [OF st r(9,10)] c4(2) c3(4) c2(4) c1(4) by simp
qed

lemma s_do_sign_tx_ok:
  assumes st: "stored s A" "A uid = Some ps" "unat index < length ps" and c: "net_ok c" "0 \<le> sfd"
    and wf: "wf_ptx t" "length (enc_ptx t) \<le> 102400"
    and aws: "length aws = length (p_ins t)"
      "\<And>j. j < length (p_ins t) \<Longrightarrow>
        input_signature cv (kp_xpub (ps ! unat index)) (kp_xprv (ps ! unat index)) t j (aws ! j)"
    and len: "length (enc_stx (t\<lparr>p_wits := aws\<rparr>)) < 2 ^ 31"
    and inq: "inq c = cmd_bytes (cmd3 0x41 uid index (len64 (enc_ptx t))) @ enc_ptx t @ cmd_bytes (cmd3 0x51 uid index n) @ rest"
  shows "\<exists>s' c'. s_do_sign_tx cv sfd uid index s c = Some (0, s', c') \<and> stored s' A \<and>
    outq c' = outq c @ cmd_bytes (cmd3 0x32 uid index 0) @ cmd_bytes (cmd3 0x42 uid index (len64 (enc_ptx t))) @
      cmd_bytes (cmd3 0x52 uid index (len64 (enc_stx (t\<lparr>p_wits := aws\<rparr>)))) @ enc_stx (t\<lparr>p_wits := aws\<rparr>)"
proof -
  let ?b = "enc_ptx t" and ?kp0 = "\<lparr>kp_xpub = replicate 113 0, kp_xprv = replicate 113 0\<rparr>"
  have "wf_pair ?kp0" by (simp add: wf_pair_def)
  then obtain s1 where s1: "get_key_pair uid index ?kp0 s = Some (0, ps ! unat index, s1)" "stored s1 A"
    using spc_store.lookup_some [OF st(1,2), of ?kp0 index] st(3) by auto
  obtain c1 where c1: "spc_send_cmd_to_sock sfd (cmd3 0x32 uid index 0) c = Some (0, c1)" "net_ok c1"
      "inq c1 = inq c" "outq c1 = outq c @ cmd_bytes (cmd3 0x32 uid index 0)"
    using c by (rule net_send)
  obtain c2 where c2: "spc_recv_cmd_from_sock sfd zero_cmd c1 = Some (0, cmd3 0x41 uid index (len64 ?b), c2)" "net_ok c2"
      "inq c2 = ?b @ cmd_bytes (cmd3 0x51 uid index n) @ rest" "outq c2 = outq c1"
    using c1(2) c(2) c1(3) [unfolded inq] by (rule net_recv)
  have b: "0 < length ?b" using wf(2) by (auto simp: enc_ptx_def partial_magic_def)
  then have ub: "(len64 ?b :: u64) \<noteq> 0" "\<not> 102400 < (len64 ?b :: u64)"
    using wf(2) len64_ne_0 [of ?b] by (simp_all add: word_less_nat_alt unat_of_nat_u64)
  let ?s2 = "s1\<lparr>hp := alloc 1 (hp s1)\<rparr>"
  have m: "os_malloc z s1 = (Some (calls (hp s1)), ?s2)" for z
    using stored_heap [OF s1(2)] by (simp add: os_malloc_def malloc_alloc)
  have s2: "stored ?s2 A" "calls (hp s1) \<in> live (hp ?s2)"
    using s1(2) stored_heap [OF s1(2)] by (auto intro!: stored_hp simp: heap_ok_alloc live_alloc)
  obtain s' c' where r: "sign_tx_data cv sfd uid index (ps ! unat index) (len64 ?b) (calls (hp s1)) ?s2 c2 = Some (0, s', c')"
    "stored s' A" "outq c' = outq c2 @ cmd_bytes (cmd3 0x42 uid index (len64 (enc_ptx t))) @
      cmd_bytes (cmd3 0x52 uid index (len64 (enc_stx (t\<lparr>p_wits := aws\<rparr>)))) @ enc_stx (t\<lparr>p_wits := aws\<rparr>)"
    using sign_tx_data_ok [OF s2 c2(2) c(2) wf aws len c2(3)] by blast
  have "s_do_sign_tx cv sfd uid index s c = Some (0, s', c')"
    using c(2) s1(1) c1(1) c2(1) ub m r(1) by (simp add: s_do_sign_tx_def cmd3_fold)
  then show ?thesis using r(2,3) c2(4) c1(4) by simp
qed

section \<open>The other commands\<close>

lemma gen_keystore_cmd:
  assumes st: "stored s A" and c: "net_ok c" "0 \<le> sfd"
  shows "\<exists>s' c'. s_do_gen_new_keystore sfd uid s c = Some (0, s', c') \<and>
    (if A uid = None \<and> uid \<le> 1000000000
     then stored s' (A(uid \<mapsto> [])) \<and> outq c' = outq c @ cmd_bytes (cmd3 0x12 uid 0 0)
     else stored s' A \<and> outq c' = outq c @ cmd_bytes err_cmd @ cmd_bytes (cmd3 0x12 uid 0 0))"
proof -
  have z: "zero_cmd\<lparr>m_cmd := 0x12, m_id := uid\<rparr> = cmd3 0x12 uid 0 0" by (simp add: cmd3_def zero_cmd_def)
  show ?thesis
  proof (cases "A uid = None \<and> uid \<le> 1000000000")
    case True
    then obtain s' where s': "gen_new_keystore uid s = Some (0, s')" "stored s' (A(uid \<mapsto> []))"
      using gen_new_keystore_ok [of s A uid] st by (auto simp: stored_def)
    obtain c' where "spc_send_cmd_to_sock sfd (cmd3 0x12 uid 0 0) c = Some (0, c')" "outq c' = outq c @ cmd_bytes (cmd3 0x12 uid 0 0)"
      using c by (rule net_send)
    then show ?thesis using True s' c(2) by (simp add: s_do_gen_new_keystore_def z)
  next
    case False
    then have "A uid \<noteq> None \<or> 1000000000 < uid" by auto
    then obtain s' where s': "gen_new_keystore uid s = Some (-1, s')" "stored s' A"
      using gen_new_keystore_no [of s A uid] st by (auto simp: stored_def)
    obtain c1 where c1: "spc_send_error_to_sock sfd c = Some (0, c1)" "net_ok c1" "outq c1 = outq c @ cmd_bytes err_cmd"
      using c by (rule net_error)
    obtain c' where "spc_send_cmd_to_sock sfd (cmd3 0x12 uid 0 0) c1 = Some (0, c')" "outq c' = outq c1 @ cmd_bytes (cmd3 0x12 uid 0 0)"
      using c1(2) c(2) by (rule net_send)
    then show ?thesis using False s' c(2) c1 by (auto simp: s_do_gen_new_keystore_def z)
  qed
qed

lemma create_pair_lengths:
  "create_single_key_pair g mn xpub n xprv m = Some (r, a, b) \<Longrightarrow> length a = length xpub \<and> length b = length xprv"
  unfolding create_single_key_pair_def
  by (auto split: if_splits bind_splits prod.splits dest!: length_wr)

lemma net_error_if:
  assumes "net_ok c" "0 \<le> sfd"
  shows "\<exists>c'. (if b then spc_send_error_to_sock sfd c else Some (0, c)) = Some (0, c') \<and> net_ok c' \<and>
    outq c' = outq c @ (if b then cmd_bytes err_cmd else [])"
proof (cases b)
  case True
  obtain c' where "spc_send_error_to_sock sfd c = Some (0, c')" "net_ok c'" "outq c' = outq c @ cmd_bytes err_cmd"
    using assms by (rule net_error)
  then show ?thesis using True by simp
qed (use assms in simp)

text \<open>The pair that is stored after a generation, whether it succeeded or not.\<close>

lemma gen_keypair_cmd:
  assumes st: "stored s A" "A uid = Some ps" "length ps + 1 < 2 ^ 32" and c: "net_ok c" "0 \<le> sfd"
    and k: "create_single_key_pair g mn (replicate 113 0) 113 (replicate 113 0) 113 = Some (r, xpub, xprv)"
  shows "\<exists>s' c'. s_do_gen_new_keypair g mn sfd uid s c = Some (0, s', c') \<and>
    stored s' (A(uid \<mapsto> ps @ [\<lparr>kp_xpub = xpub, kp_xprv = xprv\<rparr>])) \<and>
    outq c' = outq c @ (if r = -1 then cmd_bytes err_cmd else []) @ cmd_bytes (cmd3 0x22 uid (word_of_nat (length ps)) 113) @ xpub"
proof -
  have l: "length xpub = 113" "length xprv = 113" using create_pair_lengths [OF k] by auto
  then have "wf_pair \<lparr>kp_xpub = xpub, kp_xprv = xprv\<rparr>" by (simp add: wf_pair_def)
  then obtain s' where s': "save_key_pair uid \<lparr>kp_xpub = xpub, kp_xprv = xprv\<rparr> 0 s = Some (0, word_of_nat (length ps), s')"
      "stored s' (A(uid \<mapsto> ps @ [\<lparr>kp_xpub = xpub, kp_xprv = xprv\<rparr>]))"
    using spc_store.save_some [OF st] by blast
  obtain c0 where c0: "(if r = -1 then spc_send_error_to_sock sfd c else Some (0, c)) = Some (0, c0)" "net_ok c0"
      "outq c0 = outq c @ (if r = -1 then cmd_bytes err_cmd else [])"
    using net_error_if [OF c, of "r = -1"] by blast
  obtain c1 where c1: "spc_send_cmd_to_sock sfd (cmd3 0x22 uid (word_of_nat (length ps)) 113) c0 = Some (0, c1)" "net_ok c1"
      "outq c1 = outq c0 @ cmd_bytes (cmd3 0x22 uid (word_of_nat (length ps)) 113)"
    using c0(2) c(2) by (rule net_send)
  have x: "xpub \<noteq> []" "length xpub < 2 ^ 31" "(len64 xpub :: u64) = 113" using l by auto
  obtain c2 where c2: "spc_send_data_to_sock sfd (Some xpub) 113 c1 = Some (0, c2)" "outq c2 = outq c1 @ xpub"
    using net_send_data [OF c1(2) c(2) x(1,2)] x(3) by metis
  have "s_do_gen_new_keypair g mn sfd uid s c = Some (0, s', c2)"
    using c(2) k c0(1) s'(1) c1(1) c2(1) by (simp add: s_do_gen_new_keypair_def cmd3_fold Let_def)
  then show ?thesis using s'(2) c2(2) c1(3) c0(3) by auto
qed

lemma gen_keypair_no_store:
  assumes st: "stored s A" "A uid = None" and c: "net_ok c" "0 \<le> sfd"
    and k: "create_single_key_pair g mn (replicate 113 0) 113 (replicate 113 0) 113 = Some (r, xpub, xprv)"
  shows "\<exists>s' c'. s_do_gen_new_keypair g mn sfd uid s c = Some (-1, s', c') \<and> stored s' A"
proof -
  obtain s' where s': "save_key_pair uid \<lparr>kp_xpub = xpub, kp_xprv = xprv\<rparr> 0 s = Some (-1, 0, s')" "stored s' A"
    using spc_store.save_none [OF st] by blast
  obtain c0 where c0: "(if r = -1 then spc_send_error_to_sock sfd c else Some (0, c)) = Some (0, c0)" "net_ok c0"
    using net_error_if [OF c, of "r = -1"] by blast
  obtain c1 where "spc_send_error_to_sock sfd c0 = Some (0, c1)" using c0(2) c(2) by (rule net_error)
  then have "s_do_gen_new_keypair g mn sfd uid s c = Some (-1, s', c1)"
    using c(2) k c0(1) s'(1) by (simp add: s_do_gen_new_keypair_def give_up_def Let_def)
  then show ?thesis using s'(2) by blast
qed

definition grows :: "key_stores \<Rightarrow> key_stores \<Rightarrow> bool"
  where "grows A B \<longleftrightarrow> (\<forall>x ps. A x = Some ps \<longrightarrow> (\<exists>qs. B x = Some (ps @ qs)))"

lemma grows_simps [simp]: "grows A A" "A x = None \<Longrightarrow> grows A (A(x \<mapsto> ps))" "A x = Some ps \<Longrightarrow> grows A (A(x \<mapsto> ps @ qs))"
  by (auto simp: grows_def)

lemma grows_trans: "\<lbrakk>grows A B; grows B C\<rbrakk> \<Longrightarrow> grows A C"
  by (fastforce simp: grows_def)

section \<open>Properties\<close>

text \<open>C1: A signing session over the network.  A client that asks for the key pair at a position of a
  user's store, sends a well-formed partial transaction of at most 100 KiB and the start command
  receives, whatever the sizes of the single reads and writes, the acknowledgement of the key, of
  the data and of the start with the length of the result, and then exactly the bytes of the signed
  transaction; the key stores are as before.\<close>

theorem sign_session:
  assumes st: "stored s A" "A uid = Some ps" "unat index < length ps" and c: "net_ok c" "0 \<le> connfd"
    and wf: "wf_ptx t" "length (enc_ptx t) \<le> 102400"
    and aws: "length aws = length (p_ins t)"
      "\<And>j. j < length (p_ins t) \<Longrightarrow>
        input_signature cv (kp_xpub (ps ! unat index)) (kp_xprv (ps ! unat index)) t j (aws ! j)"
    and len: "length (enc_stx (t\<lparr>p_wits := aws\<rparr>)) < 2 ^ 31"
    and inq: "inq c = cmd_bytes (cmd3 0x31 uid index k) @ cmd_bytes (cmd3 0x41 uid index (len64 (enc_ptx t))) @ enc_ptx t @
      cmd_bytes (cmd3 0x51 uid index n) @ rest"
  shows "\<exists>s' c'. server_turn g cv mn connfd c m s = Some (cmd3 0x31 uid index k, s', c') \<and> stored s' A \<and>
    outq c' = outq c @ cmd_bytes (cmd3 0x32 uid index 0) @ cmd_bytes (cmd3 0x42 uid index (len64 (enc_ptx t))) @
      cmd_bytes (cmd3 0x52 uid index (len64 (enc_stx (t\<lparr>p_wits := aws\<rparr>)))) @ enc_stx (t\<lparr>p_wits := aws\<rparr>)"
proof -
  obtain c1 where c1: "spc_recv_cmd_from_sock connfd m c = Some (0, cmd3 0x31 uid index k, c1)" "net_ok c1"
      "inq c1 = cmd_bytes (cmd3 0x41 uid index (len64 (enc_ptx t))) @ enc_ptx t @ cmd_bytes (cmd3 0x51 uid index n) @ rest"
      "outq c1 = outq c"
    using c inq by (rule net_recv)
  show ?thesis
    using s_do_sign_tx_ok [OF st c1(2) c(2) wf aws len c1(3)] c1(1,4) by (auto simp: server_turn_def)
qed

lemma demo_net: "net_ok (demo_conn b)"
  by (simp add: net_ok_def demo_conn_ok)

definition toy_keygen :: "int \<Rightarrow> keygen_ops" where
  "toy_keygen r = \<lparr>mnemonic_to_seed = (\<lambda>m p. replicate 64 7), hdnode_from_seed = (\<lambda>b. (r, zero_hdnode)),
     hdnode_fingerprint = (\<lambda>n. 1), hdnode_private_ckd_prime = (\<lambda>n i. (1, n)), hdnode_fill_public_key = (\<lambda>n. n),
     hdnode_serialize_private = (\<lambda>n f v l. (3, [0x78, 0x76, 0])), hdnode_serialize_public = (\<lambda>n f v l. (3, [0x78, 0x70, 0]))\<rparr>"

lemma text_data_pad: "x \<noteq> 0 \<Longrightarrow> text_data c (x # 0 # v # r) = text_data c [x, 0]"
  by (simp add: text_data_def)

lemma find_pos_pad: "x \<noteq> 0 \<Longrightarrow> find_pos c (x # 0 # v # r) i ks = find_pos c [x, 0] i ks"
  by (induction ks arbitrary: i) (auto simp: text_key_def text_data_pad split: option.splits)

lemma input_signature_pad:
  "\<lbrakk>x \<noteq> 0; y \<noteq> 0\<rbrakk> \<Longrightarrow> input_signature c (x # 0 # v # r) (y # 0 # u # q) t i w = input_signature c [x, 0] [y, 0] t i w"
  by (simp add: input_signature_def find_pos_pad text_node_def text_data_pad)

definition text_pair :: spc_key_pair
  where "text_pair = \<lparr>kp_xpub = 0x5a # 0 # 0 # replicate 110 0, kp_xprv = 0x7a # 0 # 0 # replicate 110 0\<rparr>"

definition text_disk :: os where
  "text_disk = demo_disk\<lparr>dirs := {SPCKEYSTOREPATH}, files := [kpath 5 \<mapsto> ks_file 5 [text_pair]]\<rparr>"

lemma text_stored: "stored text_disk [5 \<mapsto> [text_pair]]"
  using kpath_ne [symmetric] kpath_ne
  by (auto simp: stored_def text_disk_def demo_disk_def rep_stores_def wf_stores_def os_ok_def inj_kpath wf_pair_def text_pair_def)

lemma demo_length: "length (enc_ptx demo_ptx) \<le> 102400" "length (enc_stx (demo_ptx\<lparr>p_wits := [demo_wit]\<rparr>)) < 2 ^ 31"
  using demo_length_redeem demo_length_code
  by (simp_all add: demo_ptx_def demo_wit_def demo_der_sig demo_stack_def enc_ptx_def enc_stx_def enc_list_def enc_txin_def enc_txout_def
      enc_pwit_def enc_wit_def blob_def varint_def partial_magic_def)

lemma sign_session_witness:
  "\<exists>s' c'. server_turn (toy_keygen 1) demo_curve None 3
      (demo_conn (cmd_bytes (cmd3 0x31 5 0 0) @ cmd_bytes (cmd3 0x41 5 0 (len64 (enc_ptx demo_ptx))) @ enc_ptx demo_ptx @
        cmd_bytes (cmd3 0x51 5 0 0) @ [])) zero_cmd text_disk = Some (cmd3 0x31 5 0 0, s', c') \<and>
    drop 48 (outq c') = enc_stx (demo_ptx\<lparr>p_wits := [demo_wit]\<rparr>)"
proof -
  have "\<And>j. j < length (p_ins demo_ptx) \<Longrightarrow>
      input_signature demo_curve (kp_xpub ([text_pair] ! unat (0 :: u16))) (kp_xprv ([text_pair] ! unat (0 :: u16))) demo_ptx j ([demo_wit] ! j)"
    using demo_signature by (simp add: demo_sizes text_pair_def input_signature_pad)
  note r = sign_session [OF text_stored _ _ demo_net _ demo_wf demo_length(1) _ this demo_length(2) demo_conn_ok(3),
      where uid = 5 and connfd = 3 and g = "toy_keygen 1" and mn = None and m = zero_cmd and k = 0 and n = 0 and rest = "[]"]
  have "p_ins demo_ptx \<noteq> []" by (simp add: demo_ptx_def)
  then show ?thesis using r by (auto simp: demo_conn_ok demo_sizes)
qed

text \<open>The reply to a request for a new key store.  A new user gets a store and the
  acknowledgement.  For a user who has one, or a number above 1000000000, nothing changes and the
  server sends the error command, and then acknowledges the creation all the same.\<close>

theorem keystore_reply:
  assumes "stored s A" "net_ok c" "0 \<le> connfd" "inq c = cmd_bytes (cmd3 0x11 uid i n) @ rest"
  shows "\<exists>s' c'. server_turn g cv mn connfd c m s = Some (cmd3 0x11 uid i n, s', c') \<and>
    (if A uid = None \<and> uid \<le> 1000000000
     then stored s' (A(uid \<mapsto> [])) \<and> outq c' = outq c @ cmd_bytes (cmd3 0x12 uid 0 0)
     else stored s' A \<and> outq c' = outq c @ cmd_bytes err_cmd @ cmd_bytes (cmd3 0x12 uid 0 0))"
proof -
  obtain c1 where c1: "spc_recv_cmd_from_sock connfd m c = Some (0, cmd3 0x11 uid i n, c1)" "net_ok c1" "outq c1 = outq c"
    using assms(2-4) by (rule net_recv)
  obtain s' c' where r: "s_do_gen_new_keystore connfd uid s c1 = Some (0, s', c')"
    "if A uid = None \<and> uid \<le> 1000000000
     then stored s' (A(uid \<mapsto> [])) \<and> outq c' = outq c @ cmd_bytes (cmd3 0x12 uid 0 0)
     else stored s' A \<and> outq c' = outq c @ cmd_bytes err_cmd @ cmd_bytes (cmd3 0x12 uid 0 0)"
    using gen_keystore_cmd [OF assms(1) c1(2) assms(3), of uid] c1(3) by auto
  then show ?thesis using c1(1) by (intro exI conjI) (simp_all add: server_turn_def)
qed

lemma keystore_reply_witness:
  "\<exists>s' c'. server_turn (toy_keygen 1) demo_curve None 3 (demo_conn (cmd_bytes (cmd3 0x11 5 0 0))) zero_cmd (full_disk 2) =
      Some (cmd3 0x11 5 0 0, s', c') \<and> outq c' = cmd_bytes err_cmd @ cmd_bytes (cmd3 0x12 5 0 0)"
  using keystore_reply [OF full_stored [of 2] demo_net, of 3 "cmd_bytes (cmd3 0x11 5 0 0)" 5 0 0 "[]" "toy_keygen 1" demo_curve None
      zero_cmd]
  by (auto simp: demo_conn_ok)

text \<open>C38: The reply to a request for a new key pair is the same whether or not the generation
  succeeded, but for an error command in front: what is left in the two buffers is saved as a new
  pair of the user and acknowledged with its position and the public key.  When the seed gives no
  node this is a pair of zero bytes.\<close>

theorem failed_key_is_stored:
  assumes st: "stored s A" "A uid = Some ps" "length ps + 1 < 2 ^ 32" and c: "net_ok c" "0 \<le> connfd"
    and inq: "inq c = cmd_bytes (cmd3 0x21 uid i n) @ rest"
    and mn: "mn = Some words" "240 \<le> length words" "length (mnemonic_to_seed g (c_str words) spacechain_pass) = 64"
    and fail: "fst (hdnode_from_seed g (mnemonic_to_seed g (c_str words) spacechain_pass)) \<noteq> 1"
  shows "\<exists>s' c'. server_turn g cv mn connfd c m s = Some (cmd3 0x21 uid i n, s', c') \<and>
    stored s' (A(uid \<mapsto> ps @ [\<lparr>kp_xpub = replicate 113 0, kp_xprv = replicate 113 0\<rparr>])) \<and>
    outq c' = outq c @ cmd_bytes err_cmd @ cmd_bytes (cmd3 0x22 uid (word_of_nat (length ps)) 113) @ replicate 113 0"
proof -
  obtain c1 where c1: "spc_recv_cmd_from_sock connfd m c = Some (0, cmd3 0x21 uid i n, c1)" "net_ok c1" "outq c1 = outq c"
    using c inq by (rule net_recv)
  have "create_single_key_pair g mn (replicate 113 0) 113 (replicate 113 0) 113 = Some (-1, replicate 113 0, replicate 113 0)"
    using mn fail by (auto simp: create_single_key_pair_def spc_seed_gen_def spc_hdnode_gen_from_seed_def rd_def wr_def
        split: prod.splits)
  from gen_keypair_cmd [OF st c1(2) c(2) this] show ?thesis using c1(1,3) by (auto simp: server_turn_def)
qed

lemma failed_key_is_stored_witness:
  "\<exists>s' c'. server_turn (toy_keygen 0) demo_curve (Some (replicate 240 0x61)) 3 (demo_conn (cmd_bytes (cmd3 0x21 5 0 0))) zero_cmd (full_disk 2) =
      Some (cmd3 0x21 5 0 0, s', c') \<and>
     outq c' = cmd_bytes err_cmd @ cmd_bytes (cmd3 0x22 5 2 113) @ replicate 113 0"
  using failed_key_is_stored [OF full_stored [of 2] _ _ demo_net, of 5 "replicate 2 (demo_pair 1)" 3 "cmd_bytes (cmd3 0x21 5 0 0)" 0 0
      "[]" "Some (replicate 240 0x61)" "replicate 240 0x61" "toy_keygen 0" demo_curve zero_cmd]
  by (auto simp: demo_conn_ok toy_keygen_def)

lemma server_turn_stuck:
  "\<lbrakk>rd_ok c; 0 \<le> connfd; length (inq c) < 16\<rbrakk> \<Longrightarrow> server_turn g cv mn connfd c m s = None"
  using recv_loop_stuck [of c 16 0 "cmd_bytes zero_cmd"] by (simp add: server_turn_def spc_recv_cmd_from_sock_def)

text \<open>C30: One client is enough to stop the server for ever: whatever connections are served before, the
  loop does not get past a connection that ends with fewer than 16 bytes sent, and none behind it
  is served.\<close>

theorem silent_client_stops_server:
  assumes "rd_ok c" "0 \<le> connfd" "length (inq c) < 16"
  shows "server_turns g cv (before @ (connfd, mn, c) # behind) m s = None"
proof (induction before arbitrary: m s)
  case Nil
  then show ?case using server_turn_stuck [OF assms] by simp
next
  case (Cons x before)
  then show ?case by (cases x) (auto split: bind_splits)
qed

lemma silent_client_stops_server_witness:
  "server_turns (toy_keygen 1) demo_curve [(3, None, demo_conn []), (3, None, demo_conn (cmd_bytes (cmd3 0x11 5 0 0)))] zero_cmd demo_disk = None"
  using silent_client_stops_server [of "demo_conn []" 3 "toy_keygen 1" demo_curve "[]" None
      "[(3, None, demo_conn (cmd_bytes (cmd3 0x11 5 0 0)))]" zero_cmd demo_disk]
  by (simp add: demo_conn_ok)

text \<open>C29: No key is ever lost or changed: after a turn that does not sign, with any command and even
  when the generation of a key fails, the files represent key stores in which the list of every
  user continues the one before.\<close>

theorem server_keeps_keys:
  assumes st: "stored s A" and c: "net_ok c" "0 \<le> connfd" "inq c = cmd_bytes cmd @ rest" "m_cmd cmd \<noteq> 0x31"
    and small: "\<And>ps. A (m_id cmd) = Some ps \<Longrightarrow> length ps + 1 < 2 ^ 32"
    and gen: "create_single_key_pair g mn (replicate 113 0) 113 (replicate 113 0) 113 \<noteq> None"
  shows "\<exists>s' c' A'. server_turn g cv mn connfd c m s = Some (cmd, s', c') \<and> stored s' A' \<and> grows A A'"
proof -
  obtain c1 where c1: "spc_recv_cmd_from_sock connfd m c = Some (0, cmd, c1)" "net_ok c1"
    using c(1-3) by (rule net_recv)
  obtain r xpub xprv where k: "create_single_key_pair g mn (replicate 113 0) 113 (replicate 113 0) 113 = Some (r, xpub, xprv)"
    using gen by auto
  consider "m_cmd cmd = 0x11" | "m_cmd cmd = 0x21" | "m_cmd cmd \<noteq> 0x11" "m_cmd cmd \<noteq> 0x21" by blast
  then show ?thesis
  proof cases
    case 1
    obtain s' c' where r: "s_do_gen_new_keystore connfd (m_id cmd) s c1 = Some (0, s', c')"
      "stored s' (if A (m_id cmd) = None \<and> m_id cmd \<le> 1000000000 then A(m_id cmd \<mapsto> []) else A)"
      using gen_keystore_cmd [OF st c1(2) c(2), of "m_id cmd"] by (auto split: if_splits)
    moreover have "grows A (if A (m_id cmd) = None \<and> m_id cmd \<le> 1000000000 then A(m_id cmd \<mapsto> []) else A)" by simp
    moreover have "server_turn g cv mn connfd c m s = Some (cmd, s', c')" using 1 c1(1) r(1) by (simp add: server_turn_def)
    ultimately show ?thesis by blast
  next
    case 2
    show ?thesis
    proof (cases "A (m_id cmd)")
      case None
      obtain s' c' where r: "s_do_gen_new_keypair g mn connfd (m_id cmd) s c1 = Some (-1, s', c')" "stored s' A"
        using gen_keypair_no_store [OF st None c1(2) c(2) k] by blast
      moreover have "server_turn g cv mn connfd c m s = Some (cmd, s', c')" using 2 c1(1) r(1) by (simp add: server_turn_def)
      ultimately show ?thesis using grows_simps(1) by blast
    next
      case (Some ps)
      obtain s' c' where r: "s_do_gen_new_keypair g mn connfd (m_id cmd) s c1 = Some (0, s', c')"
        "stored s' (A(m_id cmd \<mapsto> ps @ [\<lparr>kp_xpub = xpub, kp_xprv = xprv\<rparr>]))"
        using gen_keypair_cmd [OF st Some small [OF Some] c1(2) c(2) k] by blast
      moreover have "server_turn g cv mn connfd c m s = Some (cmd, s', c')" using 2 c1(1) r(1) by (simp add: server_turn_def)
      moreover have "grows A (A(m_id cmd \<mapsto> ps @ [\<lparr>kp_xpub = xpub, kp_xprv = xprv\<rparr>]))" using Some by simp
      ultimately show ?thesis by blast
    qed
  next
    case 3
    then have "server_turn g cv mn connfd c m s = Some (cmd, s, c1)" using c1(1) c(4) by (simp add: server_turn_def)
    then show ?thesis using st grows_simps(1) by blast
  qed
qed

lemma server_keeps_keys_witness:
  "\<exists>s' c' A'. server_turn (toy_keygen 0) demo_curve (Some (replicate 240 0x61)) 3 (demo_conn (cmd_bytes (cmd3 0x21 5 0 0))) zero_cmd (full_disk 2) =
      Some (cmd3 0x21 5 0 0, s', c') \<and> stored s' A' \<and> grows [5 \<mapsto> replicate 2 (demo_pair 1)] A'"
proof -
  have "create_single_key_pair (toy_keygen 0) (Some (replicate 240 0x61)) (replicate 113 0) 113 (replicate 113 0) 113 \<noteq> None"
    by (simp add: create_single_key_pair_def spc_seed_gen_def spc_hdnode_gen_from_seed_def rd_def wr_def toy_keygen_def)
  then show ?thesis
    by (intro server_keeps_keys [OF full_stored demo_net _ _ _ _]) (auto simp: demo_conn_ok)
qed

end
