(* ===== verification/Client.thy ===== *)
theory Client
  imports Moscp
begin

text \<open>
  The client of the node, on the Linux side: the three requests (\<^verbatim>\<open>spcserverops_c.c\<close>,
  \<^verbatim>\<open>spctxops_c.c\<close>), each on an open connection, and the functions of \<^verbatim>\<open>spctcpc.c\<close> that open a connection
  for one request.  The messages are those of the node's side: both sides have the same
  \<^verbatim>\<open>spcmoscp.c\<close> up to two comments.
\<close>

section \<open>Requests\<close>

definition c_req_gen_new_keystore :: "int \<Rightarrow> u32 \<Rightarrow> conn \<Rightarrow> (int \<times> conn) option" where
  "c_req_gen_new_keystore sfd uid c =
    (if sfd < 0 then Some (-1, c)
     else do {
       (ret, c1) \<leftarrow> spc_send_cmd_to_sock sfd (zero_cmd\<lparr>m_cmd := 0x11, m_id := uid\<rparr>) c;
       if ret = -1 then Some (-1, c1)
       else do {
         (ret, cmd, c2) \<leftarrow> spc_recv_cmd_from_sock sfd zero_cmd c1;
         if ret = -1 then Some (-1, c2)
         else if m_cmd cmd = 0x12 then (if uid = m_id cmd then Some (0, c2) else Some (-1, c2))
         else Some (-1, c2)
       }
     })"

text \<open>The index and the 113 bytes of the public key are out parameters.\<close>

definition c_req_gen_new_keypair :: "int \<Rightarrow> u32 \<Rightarrow> u16 \<Rightarrow> buf \<Rightarrow> conn \<Rightarrow> (int \<times> u16 \<times> buf \<times> conn) option" where
  "c_req_gen_new_keypair sfd uid index buffer c =
    (if sfd < 0 \<or> buffer = None then Some (-1, index, buffer, c)
     else do {
       (ret, c1) \<leftarrow> spc_send_cmd_to_sock sfd (zero_cmd\<lparr>m_cmd := 0x21, m_id := uid\<rparr>) c;
       if ret = -1 then Some (-1, index, buffer, c1)
       else do {
         (ret, cmd, c2) \<leftarrow> spc_recv_cmd_from_sock sfd zero_cmd c1;
         if ret = -1 then Some (-1, index, buffer, c2)
         else if m_cmd cmd = 0x22 then
           (if uid = m_id cmd \<and> m_data_len cmd = 113 then do {
              (ret, buffer', c3) \<leftarrow> spc_recv_data_from_sock sfd buffer 113 c2;
              Some (if ret = -1 then -1 else 0, m_index cmd, buffer', c3)
            }
            else Some (-1, index, buffer, c2))
         else Some (-1, index, buffer, c2)
       }
     })"

text \<open>Telling the node that the session is over, and giving up.\<close>

definition finish :: "int \<Rightarrow> heap \<Rightarrow> conn \<Rightarrow> (int \<times> byte list ptr \<times> u64 \<times> heap \<times> conn) option"
  where "finish sfd h c = do { (e, c') \<leftarrow> spc_send_finish_to_sock sfd c; Some (-1, NULL, 0, h, c') }"

text \<open>The end of \<^verbatim>\<open>c_req_sign_tx\<close>: the result is received into a block that the caller frees.  What is
  in the block before does not matter: it is returned only when all its bytes were received.\<close>

definition recv_result :: "int \<Rightarrow> u64 \<Rightarrow> heap \<Rightarrow> conn \<Rightarrow> (int \<times> byte list ptr \<times> u64 \<times> heap \<times> conn) option" where
  "recv_result sfd get_res_len h c =
    (let get_res_len_32 = ucast get_res_len :: u32
     in case malloc (ucast get_res_len_32) h of
         (None, h1) \<Rightarrow> finish sfd h1 c
       | (Some p, h1) \<Rightarrow> do {
           (ret, data, c1) \<leftarrow> spc_recv_data_from_sock sfd (Some (replicate (unat get_res_len_32) 0)) get_res_len c;
           if ret = -1 then do { (r, q, l, h, c2) \<leftarrow> finish sfd h1 c1; h2 \<leftarrow> free_blk p h; Some (r, q, l, h2, c2) }
           else do { bytes \<leftarrow> data; Some (0, Ptr p bytes, get_res_len, h1, c1) }
         })"

text \<open>The result pointer and its length are out parameters, here 0 unless the code sets them.\<close>

definition c_req_sign_tx :: "int \<Rightarrow> u32 \<Rightarrow> u16 \<Rightarrow> buf \<Rightarrow> u64 \<Rightarrow> heap \<Rightarrow> conn
    \<Rightarrow> (int \<times> byte list ptr \<times> u64 \<times> heap \<times> conn) option" where
  "c_req_sign_tx sfd uid index tx_hex tx_hex_len h c =
    (if sfd < 0 \<or> tx_hex = None \<or> tx_hex_len = 0 then Some (-1, NULL, 0, h, c)
     else do {
       (ret, c1) \<leftarrow> spc_send_cmd_to_sock sfd (zero_cmd\<lparr>m_cmd := 0x31, m_id := uid, m_index := index\<rparr>) c;
       if ret = -1 then Some (-1, NULL, 0, h, c1)
       else do {
         (ret, cmd, c2) \<leftarrow> spc_recv_cmd_from_sock sfd zero_cmd c1;
         if ret = -1 then Some (-1, NULL, 0, h, c2)
         else if m_cmd cmd \<noteq> 0x32 \<or> m_id cmd \<noteq> uid \<or> m_index cmd \<noteq> index then Some (-1, NULL, 0, h, c2)
         else do {
           (ret, c3) \<leftarrow> spc_send_cmd_to_sock sfd
             (zero_cmd\<lparr>m_cmd := 0x41, m_id := uid, m_index := index, m_data_len := tx_hex_len\<rparr>) c2;
           if ret = -1 then finish sfd h c3
           else do {
             (ret, c4) \<leftarrow> spc_send_data_to_sock sfd tx_hex tx_hex_len c3;
             if ret = -1 then finish sfd h c4
             else do {
               (ret, cmd, c5) \<leftarrow> spc_recv_cmd_from_sock sfd zero_cmd c4;
               if ret = -1 then finish sfd h c5
               else if m_cmd cmd \<noteq> 0x42 \<or> m_id cmd \<noteq> uid \<or> m_index cmd \<noteq> index \<or> m_data_len cmd \<noteq> tx_hex_len
               then finish sfd h c5
               else do {
                 (ret, c6) \<leftarrow> spc_send_cmd_to_sock sfd
                   (zero_cmd\<lparr>m_cmd := 0x51, m_id := uid, m_index := index, m_data_len := tx_hex_len\<rparr>) c5;
                 if ret = -1 then finish sfd h c6
                 else do {
                   (ret, cmd, c7) \<leftarrow> spc_recv_cmd_from_sock sfd zero_cmd c6;
                   if ret = -1 then finish sfd h c7
                   else if m_cmd cmd \<noteq> 0x52 \<or> m_id cmd \<noteq> uid \<or> m_index cmd \<noteq> index \<or> m_data_len cmd = 0
                   then finish sfd h c7
                   else recv_result sfd (m_data_len cmd) h c7
                 }
               }
             }
           }
         }
       }
     })"

section \<open>Connections\<close>

text \<open>The network: for every call of \<^verbatim>\<open>socket\<close> in their order its result, and whether the
  \<^verbatim>\<open>connect\<close> that follows reaches the node, with the connection it makes.  \<^verbatim>\<open>net_open\<close> are the
  descriptors opened and not closed, \<^verbatim>\<open>net_log\<close> the connections made so far, as they were left.\<close>

record net =
  net_calls :: nat
  net_sock :: "nat \<Rightarrow> int"
  net_peer :: "nat \<Rightarrow> conn option"
  net_open :: "int list"
  net_log :: "conn list"

definition dial :: "net \<Rightarrow> (int \<times> conn) option \<times> net" where
  "dial n =
    (let k = net_calls n; sockfd = net_sock n k; n1 = n\<lparr>net_calls := Suc k\<rparr>
     in if sockfd = -1 then (None, n1)
        else (case net_peer n k of
            None \<Rightarrow> (None, n1\<lparr>net_open := sockfd # net_open n1\<rparr>)
          | Some c \<Rightarrow> (Some (sockfd, c), n1)))"

text \<open>The end of the three functions: the descriptor is closed only when the request succeeded.\<close>

definition hang_up :: "int \<Rightarrow> int \<Rightarrow> conn \<Rightarrow> net \<Rightarrow> net" where
  "hang_up ret sockfd c n =
    (if ret \<noteq> 0 then n\<lparr>net_log := net_log n @ [c], net_open := sockfd # net_open n\<rparr>
     else n\<lparr>net_log := net_log n @ [c]\<rparr>)"

definition tcp_gen_new_keystore :: "u32 \<Rightarrow> net \<Rightarrow> (int \<times> net) option" where
  "tcp_gen_new_keystore uid n =
    (case dial n of
       (None, n1) \<Rightarrow> Some (-1, n1)
     | (Some (sockfd, c), n1) \<Rightarrow> do {
         (ret, c1) \<leftarrow> c_req_gen_new_keystore sockfd uid c;
         Some (if ret \<noteq> 0 then -1 else 0, hang_up ret sockfd c1 n1)
       })"

definition tcp_gen_new_keypair :: "u32 \<Rightarrow> u16 \<Rightarrow> buf \<Rightarrow> net \<Rightarrow> (int \<times> u16 \<times> buf \<times> net) option" where
  "tcp_gen_new_keypair uid index buffer n =
    (case buffer of None \<Rightarrow> Some (-1, index, buffer, n)
     | Some b \<Rightarrow>
        (case dial n of
           (None, n1) \<Rightarrow> Some (-1, index, buffer, n1)
         | (Some (sockfd, c), n1) \<Rightarrow> do {
             (ret, get_index, xpub, c1) \<leftarrow> c_req_gen_new_keypair sockfd uid 0 (Some (replicate 113 0)) c;
             if ret \<noteq> 0 then Some (-1, index, buffer, hang_up ret sockfd c1 n1)
             else do {
               x \<leftarrow> xpub;
               src \<leftarrow> rd 113 x;
               b' \<leftarrow> wr 0 src b;
               Some (0, get_index, Some b', hang_up ret sockfd c1 n1)
             }
           }))"

definition tcp_sign_tx :: "u32 \<Rightarrow> u16 \<Rightarrow> buf \<Rightarrow> u64 \<Rightarrow> heap \<Rightarrow> net \<Rightarrow> (int \<times> byte list ptr \<times> u64 \<times> heap \<times> net) option" where
  "tcp_sign_tx uid index tx_hex tx_hex_len h n =
    (if tx_hex = None \<or> tx_hex_len = 0 then Some (-1, NULL, 0, h, n)
     else (case dial n of
         (None, n1) \<Rightarrow> Some (-1, NULL, 0, h, n1)
       | (Some (sockfd, c), n1) \<Rightarrow> do {
           (ret, res_hex, res_hex_len, h1, c1) \<leftarrow> c_req_sign_tx sockfd uid index tx_hex tx_hex_len h c;
           Some (if ret \<noteq> 0 then -1 else 0, res_hex, res_hex_len, h1, hang_up ret sockfd c1 n1)
         }))"

end
