(* ===== verification/Client_Correct.thy ===== *)
theory Client_Correct
  imports Client Server_Correct
begin

text \<open>The requests of the client, alone and together with the node that answers them.\<close>

section \<open>Requests that are answered\<close>

definition sign_request :: "u32 \<Rightarrow> u16 \<Rightarrow> byte list \<Rightarrow> byte list" where
  "sign_request uid index tx = cmd_bytes (cmd3 0x31 uid index 0) @ cmd_bytes (cmd3 0x41 uid index (len64 tx)) @ tx @
     cmd_bytes (cmd3 0x51 uid index (len64 tx))"

definition sign_reply :: "u32 \<Rightarrow> u16 \<Rightarrow> byte list \<Rightarrow> byte list \<Rightarrow> byte list" where
  "sign_reply uid index tx res = cmd_bytes (cmd3 0x32 uid index 0) @ cmd_bytes (cmd3 0x42 uid index (len64 tx)) @
     cmd_bytes (cmd3 0x52 uid index (len64 res)) @ res"

lemma recv_result_ok:
  assumes "net_ok c" "0 \<le> sfd" "inq c = res @ rest" "res \<noteq> []" "length res < 2 ^ 31" "no_oom h"
  shows "\<exists>c'. recv_result sfd (len64 res) h c = Some (0, Ptr (calls h) res, len64 res, alloc 1 h, c') \<and>
    net_ok c' \<and> inq c' = rest \<and> outq c' = outq c"
proof -
  have u: "unat (ucast (len64 res :: u64) :: u32) = length res"
    using assms(5) by (simp add: unat_of_nat_u64 unat_ucast_u32)
  obtain c' where c': "spc_recv_data_from_sock sfd (Some (replicate (length res) 0)) (len64 res) c = Some (0, Some res, c')"
      "net_ok c'" "inq c' = rest" "outq c' = outq c"
    using assms(1-5) by (rule net_recv_data)
  then show ?thesis using assms(6) by (simp add: recv_result_def malloc_alloc u Let_def)
qed

lemma c_req_sign_tx_ok:
  assumes c: "net_ok c" "0 \<le> sfd" and tx: "tx \<noteq> []" "length tx < 2 ^ 31" and res: "res \<noteq> []" "length res < 2 ^ 31"
    and h: "no_oom h" and inq: "inq c = sign_reply uid index tx res @ rest"
  shows "\<exists>c'. c_req_sign_tx sfd uid index (Some tx) (len64 tx) h c = Some (0, Ptr (calls h) res, len64 res, alloc 1 h, c') \<and>
    net_ok c' \<and> inq c' = rest \<and> outq c' = outq c @ sign_request uid index tx"
proof -
  have n: "(len64 tx :: u64) \<noteq> 0" "(len64 res :: u64) \<noteq> 0" using tx res len64_ne_0 [of tx] len64_ne_0 [of res] by simp_all
  obtain c1 where c1: "spc_send_cmd_to_sock sfd (cmd3 0x31 uid index 0) c = Some (0, c1)" "net_ok c1" "inq c1 = inq c"
      "outq c1 = outq c @ cmd_bytes (cmd3 0x31 uid index 0)"
    using c by (rule net_send)
  obtain c2 where c2: "spc_recv_cmd_from_sock sfd zero_cmd c1 = Some (0, cmd3 0x32 uid index 0, c2)" "net_ok c2"
      "inq c2 = cmd_bytes (cmd3 0x42 uid index (len64 tx)) @ cmd_bytes (cmd3 0x52 uid index (len64 res)) @ res @ rest"
      "outq c2 = outq c1"
    using c1(2) c(2) c1(3) [unfolded inq sign_reply_def append.assoc] by (rule net_recv)
  obtain c3 where c3: "spc_send_cmd_to_sock sfd (cmd3 0x41 uid index (len64 tx)) c2 = Some (0, c3)" "net_ok c3" "inq c3 = inq c2"
      "outq c3 = outq c2 @ cmd_bytes (cmd3 0x41 uid index (len64 tx))"
    using c2(2) c(2) by (rule net_send)
  obtain c4 where c4: "spc_send_data_to_sock sfd (Some tx) (len64 tx) c3 = Some (0, c4)" "net_ok c4" "inq c4 = inq c3"
      "outq c4 = outq c3 @ tx"
    using c3(2) c(2) tx by (rule net_send_data)
  obtain c5 where c5: "spc_recv_cmd_from_sock sfd zero_cmd c4 = Some (0, cmd3 0x42 uid index (len64 tx), c5)" "net_ok c5"
      "inq c5 = cmd_bytes (cmd3 0x52 uid index (len64 res)) @ res @ rest" "outq c5 = outq c4"
    using c4(2) c(2) c4(3) [unfolded c3(3) c2(3)] by (rule net_recv)
  obtain c6 where c6: "spc_send_cmd_to_sock sfd (cmd3 0x51 uid index (len64 tx)) c5 = Some (0, c6)" "net_ok c6" "inq c6 = inq c5"
      "outq c6 = outq c5 @ cmd_bytes (cmd3 0x51 uid index (len64 tx))"
    using c5(2) c(2) by (rule net_send)
  obtain c7 where c7: "spc_recv_cmd_from_sock sfd zero_cmd c6 = Some (0, cmd3 0x52 uid index (len64 res), c7)" "net_ok c7"
      "inq c7 = res @ rest" "outq c7 = outq c6"
    using c6(2) c(2) c6(3) [unfolded c5(3)] by (rule net_recv)
  obtain c8 where c8: "recv_result sfd (len64 res) h c7 = Some (0, Ptr (calls h) res, len64 res, alloc 1 h, c8)"
      "net_ok c8" "inq c8 = rest" "outq c8 = outq c7"
    using recv_result_ok [OF c7(2) c(2) c7(3) res h] by blast
  show ?thesis
    using c(2) n c1 c2 c3 c4 c5 c6 c7 c8
    by (simp add: c_req_sign_tx_def sign_request_def cmd3_fold)
qed

lemma dial_ok:
  "\<lbrakk>net_sock n (net_calls n) \<noteq> -1; net_peer n (net_calls n) = Some c\<rbrakk>
   \<Longrightarrow> dial n = (Some (net_sock n (net_calls n), c), n\<lparr>net_calls := Suc (net_calls n)\<rparr>)"
  by (simp add: dial_def Let_def)

text \<open>A call of \<^verbatim>\<open>socket\<close> that works and a node that gives the reply to a request to sign.\<close>

definition answers :: "net \<Rightarrow> nat \<Rightarrow> u32 \<Rightarrow> u16 \<Rightarrow> byte list \<Rightarrow> byte list \<Rightarrow> bool" where
  "answers n k uid index tx res \<longleftrightarrow> 0 \<le> net_sock n k \<and>
     (\<exists>c. net_peer n k = Some c \<and> net_ok c \<and> inq c = sign_reply uid index tx res \<and> outq c = [])"

lemma tcp_sign_tx_ok:
  assumes a: "answers n (net_calls n) uid index tx res" and tx: "tx \<noteq> []" "length tx < 2 ^ 31"
    and res: "res \<noteq> []" "length res < 2 ^ 31" and h: "no_oom h"
  shows "\<exists>c'. tcp_sign_tx uid index (Some tx) (len64 tx) h n =
      Some (0, Ptr (calls h) res, len64 res, alloc 1 h, n\<lparr>net_calls := Suc (net_calls n), net_log := net_log n @ [c']\<rparr>) \<and>
    outq c' = sign_request uid index tx \<and> inq c' = []"
proof -
  obtain c where s: "0 \<le> net_sock n (net_calls n)"
    and c: "net_peer n (net_calls n) = Some c" "net_ok c" "inq c = sign_reply uid index tx res @ []" "outq c = []"
    using a by (auto simp: answers_def)
  obtain c' where c': "c_req_sign_tx (net_sock n (net_calls n)) uid index (Some tx) (len64 tx) h c =
      Some (0, Ptr (calls h) res, len64 res, alloc 1 h, c')" "inq c' = []" "outq c' = sign_request uid index tx"
    using c_req_sign_tx_ok [OF c(2) s tx res h c(3)] c(4) by auto
  have "net_sock n (net_calls n) \<noteq> -1" using s by linarith
  moreover have "(len64 tx :: u64) \<noteq> 0" using tx len64_ne_0 [of tx] by simp
  ultimately show ?thesis using c' c(1) by (intro exI [of _ c']) (simp add: tcp_sign_tx_def dial_ok hang_up_def)
qed

section \<open>The other two requests\<close>

lemma c_req_gen_new_keystore_ok:
  assumes c: "net_ok c" "0 \<le> sfd" and inq: "inq c = cmd_bytes m @ rest"
  shows "\<exists>c'. c_req_gen_new_keystore sfd uid c = Some (if m_cmd m = 0x12 \<and> m_id m = uid then 0 else -1, c') \<and>
    net_ok c' \<and> inq c' = rest \<and> outq c' = outq c @ cmd_bytes (zero_cmd\<lparr>m_cmd := 0x11, m_id := uid\<rparr>)"
proof -
  obtain c1 where c1: "spc_send_cmd_to_sock sfd (zero_cmd\<lparr>m_cmd := 0x11, m_id := uid\<rparr>) c = Some (0, c1)" "net_ok c1"
      "inq c1 = cmd_bytes m @ rest" "outq c1 = outq c @ cmd_bytes (zero_cmd\<lparr>m_cmd := 0x11, m_id := uid\<rparr>)"
    using net_send [OF c] inq by metis
  obtain c2 where c2: "spc_recv_cmd_from_sock sfd zero_cmd c1 = Some (0, m, c2)" "net_ok c2" "inq c2 = rest" "outq c2 = outq c1"
    using c1(2) c(2) c1(3) by (rule net_recv)
  show ?thesis using c(2) c1 c2 by (auto simp: c_req_gen_new_keystore_def)
qed

lemma c_req_gen_new_keypair_ok:
  assumes c: "net_ok c" "0 \<le> sfd" and b: "length b = 113" "length x = 113"
    and inq: "inq c = cmd_bytes (zero_cmd\<lparr>m_cmd := 0x22, m_id := uid, m_index := i, m_data_len := 113\<rparr>) @ x @ rest"
  shows "\<exists>c'. c_req_gen_new_keypair sfd uid index (Some b) c = Some (0, i, Some x, c') \<and>
    net_ok c' \<and> inq c' = rest \<and> outq c' = outq c @ cmd_bytes (zero_cmd\<lparr>m_cmd := 0x21, m_id := uid\<rparr>)"
proof -
  let ?m = "zero_cmd\<lparr>m_cmd := 0x22, m_id := uid, m_index := i, m_data_len := 113\<rparr>"
  obtain c1 where c1: "spc_send_cmd_to_sock sfd (zero_cmd\<lparr>m_cmd := 0x21, m_id := uid\<rparr>) c = Some (0, c1)" "net_ok c1"
      "inq c1 = cmd_bytes ?m @ x @ rest" "outq c1 = outq c @ cmd_bytes (zero_cmd\<lparr>m_cmd := 0x21, m_id := uid\<rparr>)"
    using net_send [OF c] inq by metis
  obtain c2 where c2: "spc_recv_cmd_from_sock sfd zero_cmd c1 = Some (0, ?m, c2)" "net_ok c2" "inq c2 = x @ rest" "outq c2 = outq c1"
    using c1(2) c(2) c1(3) by (rule net_recv)
  have l: "(113 :: u64) = len64 x" "x \<noteq> []" using b by auto
  moreover obtain c3 where "spc_recv_data_from_sock sfd (Some b) (len64 x) c2 = Some (0, Some x, c3)" "net_ok c3" "inq c3 = rest"
      "outq c3 = outq c2"
    using recv_data_ok [of c2 sfd x rest b] c2(2,3) c(2) b l(2) by (auto simp: net_ok_def wr_ok_def rd_ok_def)
  ultimately show ?thesis using c(2) c1 c2 by (auto simp: c_req_gen_new_keypair_def)
qed

section \<open>Properties\<close>

lemma net_ok_inq [simp]: "net_ok (c\<lparr>inq := x\<rparr>) = net_ok c"
  by (simp add: net_ok_def wr_ok_def rd_ok_def)

text \<open>C3: A client and the node together.  For every well-formed partial transaction of at most 100 KiB
  there is an exchange, each side reading exactly what the other one sends, in which the node
  signs with the key pair at the given position of the user's store and the request of the client returns 0
  with the bytes of the signed transaction in a new block; the key stores are as before.  The sizes
  of the single transfers on both sides are arbitrary.\<close>

theorem client_and_node_sign:
  assumes st: "stored s A" "A uid = Some ps" "unat index < length ps" and c: "net_ok c" "0 \<le> connfd" "outq c = []"
    and wf: "wf_ptx t" "length (enc_ptx t) \<le> 102400"
    and aws: "length aws = length (p_ins t)"
      "\<And>j. j < length (p_ins t) \<Longrightarrow>
        input_signature cv (kp_xpub (ps ! unat index)) (kp_xprv (ps ! unat index)) t j (aws ! j)"
    and len: "length (enc_stx (t\<lparr>p_wits := aws\<rparr>)) < 2 ^ 31"
    and cc: "net_ok cc" "0 \<le> sfd" "outq cc = []" and h: "no_oom h"
  shows "\<exists>x y s' c' cc'. server_turn g cv mn connfd (c\<lparr>inq := x\<rparr>) m s = Some (cmd3 0x31 uid index 0, s', c') \<and>
    c_req_sign_tx sfd uid index (Some (enc_ptx t)) (len64 (enc_ptx t)) h (cc\<lparr>inq := y\<rparr>) =
      Some (0, Ptr (calls h) (enc_stx (t\<lparr>p_wits := aws\<rparr>)), len64 (enc_stx (t\<lparr>p_wits := aws\<rparr>)), alloc 1 h, cc') \<and>
    x = outq cc' \<and> y = outq c' \<and> stored s' A"
proof -
  let ?b = "enc_ptx t" and ?e = "enc_stx (t\<lparr>p_wits := aws\<rparr>)"
  have b: "?b \<noteq> []" "length ?b < 2 ^ 31" "?e \<noteq> []" using wf(2) by (auto simp: enc_ptx_def partial_magic_def enc_stx_def)
  have "inq (c\<lparr>inq := sign_request uid index ?b\<rparr>) = cmd_bytes (cmd3 0x31 uid index 0) @
      cmd_bytes (cmd3 0x41 uid index (len64 ?b)) @ ?b @ cmd_bytes (cmd3 0x51 uid index (len64 ?b)) @ []"
    by (simp add: sign_request_def)
  then obtain s' c' where s': "server_turn g cv mn connfd (c\<lparr>inq := sign_request uid index ?b\<rparr>) m s =
      Some (cmd3 0x31 uid index 0, s', c')" "stored s' A" "outq c' = sign_reply uid index ?b ?e"
    using sign_session [OF st _ c(2) wf aws len, of "c\<lparr>inq := sign_request uid index ?b\<rparr>" 0 "len64 ?b" "[]" g mn m] c(1,3)
    unfolding sign_reply_def by simp blast
  have "inq (cc\<lparr>inq := sign_reply uid index ?b ?e\<rparr>) = sign_reply uid index ?b ?e @ []" by simp
  then obtain cc' where "c_req_sign_tx sfd uid index (Some ?b) (len64 ?b) h (cc\<lparr>inq := sign_reply uid index ?b ?e\<rparr>) =
      Some (0, Ptr (calls h) ?e, len64 ?e, alloc 1 h, cc')" "outq cc' = sign_request uid index ?b"
    using c_req_sign_tx_ok [OF _ cc(2) b(1,2,3) len h, of "cc\<lparr>inq := sign_reply uid index ?b ?e\<rparr>" uid index "[]"] cc(1,3) by auto
  with s' show ?thesis by metis
qed

lemma client_and_node_sign_witness:
  "\<exists>x y s' c' cc'. server_turn (toy_keygen 1) demo_curve None 3 ((demo_conn [])\<lparr>inq := x\<rparr>) zero_cmd text_disk =
      Some (cmd3 0x31 5 0 0, s', c') \<and>
    c_req_sign_tx 4 5 0 (Some (enc_ptx demo_ptx)) (len64 (enc_ptx demo_ptx)) (hp text_disk) ((demo_conn [])\<lparr>inq := y\<rparr>) =
      Some (0, Ptr (calls (hp text_disk)) (enc_stx (demo_ptx\<lparr>p_wits := [demo_wit]\<rparr>)),
        len64 (enc_stx (demo_ptx\<lparr>p_wits := [demo_wit]\<rparr>)), alloc 1 (hp text_disk), cc') \<and>
    x = outq cc' \<and> y = outq c'"
proof -
  have sig: "\<And>j. j < length (p_ins demo_ptx) \<Longrightarrow>
      input_signature demo_curve (kp_xpub ([text_pair] ! unat (0 :: u16))) (kp_xprv ([text_pair] ! unat (0 :: u16))) demo_ptx j ([demo_wit] ! j)"
    using demo_signature by (simp add: demo_sizes text_pair_def input_signature_pad)
  have h: "no_oom (hp text_disk)" using stored_heap [OF text_stored] by simp
  note r = client_and_node_sign [OF text_stored _ _ demo_net _ demo_conn_ok(4) demo_wf demo_length(1) _ sig demo_length(2) demo_net _ demo_conn_ok(4) h,
      where uid = 5 and connfd = 3 and g = "toy_keygen 1" and mn = None and m = zero_cmd and sfd = 4]
  show ?thesis using r by (fastforce simp: demo_sizes)
qed

end
