(* ===== verification/Server_List.thy ===== *)
theory Server_List
  imports Keystore
begin

text \<open>
  The list of servers on the Linux side (\<^verbatim>\<open>spcmodserver.c\<close>): a file of structures of 40 bytes.  The
  first one only holds the number the next new server gets; the structure of server \<^verbatim>\<open>i\<close>, with the
  secret of its one-time passwords and the counter they have reached, is at position \<^verbatim>\<open>i\<close>.

  The program runs on a 32-bit system: \<^verbatim>\<open>sizeof\<close> is a 32-bit word, and \<^verbatim>\<open>off_t\<close> a signed one.
\<close>

section \<open>Files\<close>

definition str :: "string \<Rightarrow> byte list"
  where "str = map of_char"

text \<open>\<^verbatim>\<open>lseek(fd, off, SEEK_SET)\<close> and the test that it returned \<^verbatim>\<open>off\<close>: a negative offset is refused.\<close>

definition seek :: "file_desc \<Rightarrow> u32 \<Rightarrow> file_desc option"
  where "seek fd off = (if sint off < 0 then None else Some (lseek fd (unat off)))"

text \<open>\<^verbatim>\<open>read(fd, &x, sizeof x)\<close>: the value returned, and the bytes of \<^verbatim>\<open>x\<close> after it.\<close>

definition read_into :: "file_desc \<Rightarrow> byte list \<Rightarrow> os \<Rightarrow> int \<times> byte list \<times> file_desc \<times> os" where
  "read_into fd x s = (case read_fd fd (length x) s of
     (None, fd', s') \<Rightarrow> (-1, x, fd', s')
   | (Some d, fd', s') \<Rightarrow> (int (length d), overlay 0 d x, fd', s'))"

text \<open>\<^verbatim>\<open>write(fd, src, n)\<close>.\<close>

definition write_all :: "file_desc \<Rightarrow> byte list \<Rightarrow> os \<Rightarrow> int \<times> file_desc \<times> os" where
  "write_all fd src s = (case write_fd fd src s of
     (None, fd', s') \<Rightarrow> (-1, fd', s')
   | (Some n, fd', s') \<Rightarrow> (int n, fd', s'))"

text \<open>\<^verbatim>\<open>open(path, O_CREAT | ...)\<close> without \<^verbatim>\<open>O_TRUNC\<close>: a file that is there keeps its contents.\<close>

definition open_create :: "byte list \<Rightarrow> os \<Rightarrow> file_desc option \<times> os" where
  "open_create p s = (case io_step s of (r, s') \<Rightarrow>
     if r = None \<or> dirname p \<notin> dirs s' then (None, s')
     else (Some \<lparr>fd_path = p, fd_off = 0\<rparr>, if p \<in> dom (files s') then s' else s'\<lparr>files := (files s')(p \<mapsto> [])\<rparr>))"

section \<open>The structure of a server\<close>

text \<open>The last four bytes are the padding of the structure.\<close>

record server_info =
  server_id :: u32
  server_start :: u32
  server_txs :: u64
  server_secret :: "byte list"
  server_counter :: u32
  server_pad :: "byte list"

definition info_bytes :: "server_info \<Rightarrow> byte list" where
  "info_bytes i = u32_le (server_id i) @ u32_le (server_start i) @ u64_le (server_txs i) @ server_secret i @
     u32_le (server_counter i) @ server_pad i"

definition info_of :: "byte list \<Rightarrow> server_info" where
  "info_of b = \<lparr>server_id = le_u32 (take 4 b), server_start = le_u32 (take 4 (drop 4 b)),
     server_txs = le_u64 (take 8 (drop 8 b)), server_secret = take 16 (drop 16 b),
     server_counter = le_u32 (take 4 (drop 32 b)), server_pad = drop 36 b\<rparr>"

definition zero_info :: server_info where
  "zero_info = \<lparr>server_id = 0, server_start = 0, server_txs = 0, server_secret = replicate 16 0,
     server_counter = 0, server_pad = replicate 4 0\<rparr>"

definition SERVERLISTPATH :: "byte list"
  where "SERVERLISTPATH = str ''/mnt/spcdata/server/server.list''"

section \<open>Operations on the file\<close>

definition checkServerList :: "os \<Rightarrow> int"
  where "checkServerList s = access SERVERLISTPATH s"

definition initServerList :: "os \<Rightarrow> int \<times> os" where
  "initServerList s =
    (let info0 = zero_info\<lparr>server_id := 1, server_start := 0, server_txs := 0, server_counter := 1\<rparr>
     in case open_create SERVERLISTPATH s of
         (None, s1) \<Rightarrow> (-1, s1)
       | (Some sFd, s1) \<Rightarrow> (case write_all sFd (info_bytes info0) s1 of (nBytes, sFd, s2) \<Rightarrow>
           if nBytes \<noteq> 40 then (-1, s2) else (0, s2)))"

text \<open>\<^verbatim>\<open>_getServerInfo\<close> on the bytes of the structure it fills.\<close>

definition getServerBytes :: "byte list \<Rightarrow> u32 \<Rightarrow> os \<Rightarrow> int \<times> byte list \<times> os" where
  "getServerBytes info serverId s = (case open_existing SERVERLISTPATH s of
     (None, s1) \<Rightarrow> (-1, info, s1)
   | (Some sFd, s1) \<Rightarrow> (case seek sFd (serverId * 40) of
         None \<Rightarrow> (-1, info, s1)
       | Some sFd \<Rightarrow> (case read_into sFd info s1 of (ret, info', sFd, s2) \<Rightarrow>
           if ret \<noteq> 40 then (-1, info', s2) else (0, info', s2))))"

definition getServerInfo :: "server_info \<Rightarrow> u32 \<Rightarrow> os \<Rightarrow> int \<times> server_info \<times> os" where
  "getServerInfo pInfo serverId s = (case getServerBytes (info_bytes pInfo) serverId s of
     (ret, b, s') \<Rightarrow> (ret, info_of b, s'))"

definition setServerInfo :: "server_info \<Rightarrow> byte \<Rightarrow> os \<Rightarrow> int \<times> os" where
  "setServerInfo pInfo isInfo0 s = (case open_existing SERVERLISTPATH s of
     (None, s1) \<Rightarrow> (-1, s1)
   | (Some sFd, s1) \<Rightarrow>
       let offset = (if isInfo0 = 0 then server_id pInfo * 40 else 0) in
       (case seek sFd offset of
         None \<Rightarrow> (-1, s1)
       | Some sFd \<Rightarrow> (case write_all sFd (info_bytes pInfo) s1 of (ret, sFd, s2) \<Rightarrow>
           if ret \<noteq> 40 then (-1, s2) else (0, s2))))"

section \<open>The interface\<close>

text \<open>The list is made when it is not there; the number of the new server is taken from its first
  structure, which is written back with the next number.\<close>

definition server_getNewInfo :: "server_info \<Rightarrow> os \<Rightarrow> int \<times> server_info \<times> os" where
  "server_getNewInfo pInfo s =
    (let s1 = (if checkServerList s = -1 then snd (initServerList s) else s)
     in case getServerInfo zero_info 0 s1 of (ret, info0, s2) \<Rightarrow>
       if ret \<noteq> 0 then (-1, pInfo, s2)
       else (case setServerInfo (info0\<lparr>server_id := server_id info0 + 1\<rparr>) 1 s2 of (ret, s3) \<Rightarrow>
         if ret \<noteq> 0 then (-1, info0, s3) else (0, info0, s3)))"

text \<open>\<^verbatim>\<open>_validateId\<close> does not test whether the first structure could be read into its
  uninitialised variable: with fewer than four bytes read its result is undefined.\<close>

definition validateId :: "u32 \<Rightarrow> os \<Rightarrow> (int \<times> os) option" where
  "validateId serverId s = (case open_existing SERVERLISTPATH s of
     (None, s1) \<Rightarrow> None
   | (Some sFd, s1) \<Rightarrow> (case read_fd (lseek sFd 0) 40 s1 of
         (None, sFd, s2) \<Rightarrow> None
       | (Some d, sFd, s2) \<Rightarrow>
           if length d < 4 then None
           else Some (if 0 < serverId \<and> serverId < le_u32 (take 4 d) then 0 else -1, s2)))"

definition server_getServerInfo :: "server_info \<Rightarrow> u32 \<Rightarrow> os \<Rightarrow> (int \<times> server_info \<times> os) option" where
  "server_getServerInfo pInfo serverId s = do {
     (ret, s1) \<leftarrow> validateId serverId s;
     if ret \<noteq> 0 then Some (-1, pInfo, s1)
     else (case getServerInfo pInfo serverId s1 of (ret, info, s2) \<Rightarrow>
       Some (if ret \<noteq> 0 then -1 else 0, info, s2))
   }"

definition server_setServerInfo :: "server_info \<Rightarrow> os \<Rightarrow> (int \<times> os) option" where
  "server_setServerInfo pInfo s = do {
     (ret, s1) \<leftarrow> validateId (server_id pInfo) s;
     if ret \<noteq> 0 then Some (-1, s1)
     else (case setServerInfo pInfo 0 s1 of (ret, s2) \<Rightarrow> Some (if ret \<noteq> 0 then -1 else 0, s2))
   }"

end
