(* ===== verification/Tx_File.thy ===== *)
theory Tx_File
  imports Server_List
begin

text \<open>
  Transaction files and result files (\<^verbatim>\<open>spcmodparse.c\<close>).  A transaction file is the number of a server,
  a check block, the number of transactions and the encrypted transactions; the two global
  variables of the file hold how far it has been read.  The result file grows by one entry for each transaction.
\<close>

section \<open>State\<close>

record tx_file_info =
  tf_server_id :: u32
  txs_num :: u32
  txs_remain :: u32

record next_tx_info =
  tx_id :: "byte list"
  aes_offset :: u32
  aes_length :: u32

definition zero_file :: tx_file_info
  where "zero_file = \<lparr>tf_server_id = 0, txs_num = 0, txs_remain = 0\<rparr>"

definition zero_next :: next_tx_info
  where "zero_next = \<lparr>tx_id = replicate 32 0, aes_offset = 0, aes_length = 0\<rparr>"

text \<open>The variables \<^verbatim>\<open>curFile\<close> and \<^verbatim>\<open>nextTx\<close>.\<close>

record parse_state =
  curFile :: tx_file_info
  nextTx :: next_tx_info

section \<open>The head of a transaction file\<close>

text \<open>\<^verbatim>\<open>_getCheckBlock\<close>: the number of the server and the check block, which are out parameters.\<close>

definition getCheckBlock :: "byte list \<Rightarrow> u32 \<Rightarrow> byte list \<Rightarrow> os \<Rightarrow> int \<times> u32 \<times> byte list \<times> os" where
  "getCheckBlock path serverId dest s = (case open_existing path s of
     (None, s1) \<Rightarrow> (-1, serverId, dest, s1)
   | (Some fd, s1) \<Rightarrow> (case read_into fd (u32_le serverId) s1 of (ret, b, fd, s2) \<Rightarrow>
       if ret \<noteq> 4 then (-1, le_u32 b, dest, s2)
       else (case read_into fd dest s2 of (ret, dest', fd, s3) \<Rightarrow>
         if ret \<noteq> 16 then (-1, le_u32 b, dest', s3) else (0, le_u32 b, dest', s3))))"

definition parse_getCheckBlock :: "byte list \<Rightarrow> u32 \<Rightarrow> byte list \<Rightarrow> int \<Rightarrow> os \<Rightarrow> int \<times> u32 \<times> byte list \<times> os" where
  "parse_getCheckBlock path serverId dest destlen s =
    (if access path s \<noteq> 0 \<or> destlen < 16 then (-1, serverId, dest, s)
     else (case getCheckBlock path serverId dest s of (ret, serverId', dest', s1) \<Rightarrow>
       (if ret \<noteq> 0 then -1 else 0, serverId', dest', s1)))"

text \<open>\<^verbatim>\<open>_parseInit\<close>: the variables are cleared and filled from the file; four bytes behind the number
  of transactions are skipped.\<close>

definition parseInit :: "byte list \<Rightarrow> os \<Rightarrow> int \<times> parse_state \<times> os" where
  "parseInit path s =
    (let g0 = \<lparr>curFile = zero_file, nextTx = zero_next\<rparr> in
     case open_existing path s of
       (None, s1) \<Rightarrow> (-1, g0, s1)
     | (Some fd, s1) \<Rightarrow> (case read_into fd (u32_le 0) s1 of (ret, b, fd, s2) \<Rightarrow>
         let f1 = zero_file\<lparr>tf_server_id := le_u32 b\<rparr>; g1 = g0\<lparr>curFile := f1\<rparr> in
         if ret \<noteq> 4 then (-1, g1, s2)
         else (case read_into (lseek fd 20) (u32_le 0) s2 of (ret, b, fd, s3) \<Rightarrow>
           let f2 = f1\<lparr>txs_num := le_u32 b\<rparr>; g2 = g1\<lparr>curFile := f2\<rparr> in
           if ret \<noteq> 4 \<or> 10 < txs_num f2 then (-1, g2, s3)
           else (let f3 = f2\<lparr>txs_remain := txs_num f2\<rparr>; g3 = g2\<lparr>curFile := f3\<rparr> in
             case read_into (lseek fd 28) (replicate 32 0) s3 of (ret, i, fd, s4) \<Rightarrow>
               let n1 = zero_next\<lparr>tx_id := i\<rparr>; g4 = g3\<lparr>nextTx := n1\<rparr> in
               if ret \<noteq> 32 then (-1, g4, s4)
               else (case read_into fd (u32_le 0) s4 of (ret, b, fd, s5) \<Rightarrow>
                 let g5 = g4\<lparr>nextTx := n1\<lparr>aes_offset := 64, aes_length := le_u32 b\<rparr>\<rparr> in
                 if ret \<noteq> 4 then (-1, g5, s5) else (0, g5, s5))))))"

definition parse_parseTxFile :: "byte list \<Rightarrow> parse_state \<Rightarrow> os \<Rightarrow> int \<times> parse_state \<times> os" where
  "parse_parseTxFile path g s =
    (if access path s \<noteq> 0 then (-1, g, s)
     else (case parseInit path s of (ret, g', s') \<Rightarrow> (if ret \<noteq> 0 then -1 else 0, g', s')))"

section \<open>One transaction after the other\<close>

text \<open>\<^verbatim>\<open>read\<close> with a length that is negative as a signed number is refused by the system.\<close>

definition read_fd32 :: "file_desc \<Rightarrow> u32 \<Rightarrow> os \<Rightarrow> byte list option \<times> file_desc \<times> os" where
  "read_fd32 fd n s = (if sint n < 0 then (None, fd, s) else read_fd fd (unat n) s)"

text \<open>\<^verbatim>\<open>_getAesData\<close>.  The buffer is what can be written from the pointer on; \<^verbatim>\<open>len\<close> is the size the caller gives.\<close>

definition getAesData :: "byte list \<Rightarrow> byte list \<Rightarrow> u32 \<Rightarrow> parse_state \<Rightarrow> os \<Rightarrow> (int \<times> byte list \<times> os) option" where
  "getAesData path b len g s =
    (if len < aes_length (nextTx g) then Some (-1, b, s)
     else (case open_existing path s of
         (None, s1) \<Rightarrow> Some (-1, b, s1)
       | (Some fd, s1) \<Rightarrow> (case seek fd (aes_offset (nextTx g)) of
             None \<Rightarrow> Some (-1, b, s1)
           | Some fd \<Rightarrow> (case read_fd32 fd (aes_length (nextTx g)) s1 of
                 (None, fd, s2) \<Rightarrow> Some (if aes_length (nextTx g) = -1 then 0 else -1, b, s2)
               | (Some d, fd, s2) \<Rightarrow> do {
                   b' \<leftarrow> wr 0 d b;
                   Some (if word_of_nat (length d) \<noteq> aes_length (nextTx g) then -1 else 0, b', s2)
                 }))))"

definition parse_getNextTx :: "byte list \<Rightarrow> buf \<Rightarrow> u32 \<Rightarrow> parse_state \<Rightarrow> os \<Rightarrow> (int \<times> buf \<times> os) option" where
  "parse_getNextTx path buffer len g s =
    (if txs_remain (curFile g) = 0 then Some (-1, buffer, s)
     else (case buffer of None \<Rightarrow> Some (-1, buffer, s)
       | Some b \<Rightarrow>
          if access path s \<noteq> 0 then Some (-1, buffer, s)
          else do {
            (ret, b', s1) \<leftarrow> getAesData path b len g s;
            Some (if ret \<noteq> 0 then -1 else 0, Some b', s1)
          }))"

text \<open>\<^verbatim>\<open>_moveToNextTx\<close>.\<close>

definition moveToNextTx :: "byte list \<Rightarrow> parse_state \<Rightarrow> os \<Rightarrow> int \<times> parse_state \<times> os" where
  "moveToNextTx path g s = (case open_existing path s of
     (None, s1) \<Rightarrow> (-1, g, s1)
   | (Some fd, s1) \<Rightarrow>
      let offset = aes_offset (nextTx g) + aes_length (nextTx g) in
      (case seek fd offset of
         None \<Rightarrow> (-1, g, s1)
       | Some fd \<Rightarrow> (case read_into fd (tx_id (nextTx g)) s1 of (ret, i, fd, s2) \<Rightarrow>
          let g1 = g\<lparr>nextTx := nextTx g\<lparr>tx_id := i\<rparr>\<rparr> in
          if ret \<noteq> 32 then (-1, g1, s2)
          else (let offset = offset + 32 in
            case seek fd offset of
              None \<Rightarrow> (-1, g1, s2)
            | Some fd \<Rightarrow> (case read_into fd (u32_le 0) s2 of (ret, b, fd, s3) \<Rightarrow>
                let g2 = g1\<lparr>nextTx := nextTx g1\<lparr>aes_length := le_u32 b\<rparr>\<rparr> in
                if ret \<noteq> 4 then (-1, g2, s3)
                else (0, g2\<lparr>nextTx := nextTx g2\<lparr>aes_offset := offset + 4\<rparr>\<rparr>, s3))))))"

section \<open>The result file\<close>

text \<open>The first part: a new file starts with the number of the server and two counters of 0, an
  existing one is opened for appending.\<close>

definition res_open :: "u32 \<Rightarrow> byte list \<Rightarrow> os \<Rightarrow> file_desc option \<times> os" where
  "res_open serverId resPath s =
    (if access resPath s = -1 then
       (case open_create resPath s of
          (None, s1) \<Rightarrow> (None, s1)
        | (Some fd, s1) \<Rightarrow> (case write_all fd (u32_le serverId) s1 of (ret, fd, s2) \<Rightarrow>
            if ret \<noteq> 4 then (None, s2)
            else (case write_all fd (u64_le 0) s2 of (ret, fd, s3) \<Rightarrow>
              if ret \<noteq> 8 then (None, s3)
              else (case write_all fd (u32_le 0) s3 of (ret, fd, s4) \<Rightarrow>
                if ret \<noteq> 4 then (None, s4) else (Some fd, s4)))))
     else (case open_existing resPath s of
          (None, s1) \<Rightarrow> (None, s1)
        | (Some fd, s1) \<Rightarrow> (Some (lseek fd (length (file_of fd s1))), s1)))"

text \<open>The second part: the entry.  The file grows only by these writes, so the position of the
  descriptor stays the end of the file, as \<^verbatim>\<open>O_APPEND\<close> has it.\<close>

definition res_entry :: "file_desc \<Rightarrow> byte list \<Rightarrow> buf \<Rightarrow> u32 \<Rightarrow> os \<Rightarrow> (int \<times> os) option" where
  "res_entry fd i resBuf len s = (case write_all fd i s of (ret, fd, s1) \<Rightarrow>
     if ret \<noteq> 32 then Some (-1, s1)
     else (case write_all fd (u32_le len) s1 of (ret, fd, s2) \<Rightarrow>
       if ret \<noteq> 4 then Some (-1, s2)
       else if len = 0 then Some (0, s2)
       else do {
         b \<leftarrow> resBuf;
         src \<leftarrow> rd (unat len) b;
         case write_all fd src s2 of (ret, fd, s3) \<Rightarrow> Some (if word_of_int ret \<noteq> len then -1 else 0, s3)
       }))"

text \<open>The third part: the two counters are read, increased and written back.\<close>

definition res_update :: "u32 \<Rightarrow> byte list \<Rightarrow> os \<Rightarrow> int \<times> os" where
  "res_update len resPath s = (case open_existing resPath s of
     (None, s1) \<Rightarrow> (-1, s1)
   | (Some fd, s1) \<Rightarrow> (case read_into (lseek fd 4) (u64_le 0) s1 of (ret, l, fd, s2) \<Rightarrow>
       if ret \<noteq> 8 then (-1, s2)
       else (case write_all (lseek fd 4) (u64_le (le_u64 l + ucast len + 32 + 4)) s2 of (ret, fd, s3) \<Rightarrow>
         if ret \<noteq> 8 then (-1, s3)
         else (case read_into (lseek fd 12) (u32_le 0) s3 of (ret, m, fd, s4) \<Rightarrow>
           if ret \<noteq> 4 then (-1, s4)
           else (case write_all (lseek fd 12) (u32_le (le_u32 m + 1)) s4 of (ret, fd, s5) \<Rightarrow>
             if ret \<noteq> 4 then (-1, s5) else (0, s5))))))"

text \<open>The last part: one transaction less remains.  The number is unsigned, so the branch for a
  negative one is dead.\<close>

definition res_advance :: "byte list \<Rightarrow> parse_state \<Rightarrow> os \<Rightarrow> int \<times> parse_state \<times> os" where
  "res_advance txPath g s =
    (let g1 = g\<lparr>curFile := curFile g\<lparr>txs_remain := txs_remain (curFile g) - 1\<rparr>\<rparr> in
     if txs_remain (curFile g1) = 0 then (0, g1\<lparr>nextTx := zero_next\<rparr>, s)
     else (case moveToNextTx txPath g1 s of (ret, g2, s1) \<Rightarrow> (if ret \<noteq> 0 then -1 else 0, g2, s1)))"

definition parse_writeToResFile :: "u32 \<Rightarrow> buf \<Rightarrow> u32 \<Rightarrow> byte list \<Rightarrow> byte list \<Rightarrow> parse_state \<Rightarrow> os
    \<Rightarrow> (int \<times> parse_state \<times> os) option" where
  "parse_writeToResFile serverId resBuf len txPath resPath g s =
    (if (len \<noteq> 0 \<and> resBuf = None) \<or> access txPath s \<noteq> 0 then Some (-1, g, s)
     else (case res_open serverId resPath s of
         (None, s1) \<Rightarrow> Some (-1, g, s1)
       | (Some fd, s1) \<Rightarrow> do {
           (ret, s2) \<leftarrow> res_entry fd (tx_id (nextTx g)) resBuf len s1;
           if ret \<noteq> 0 then Some (-1, g, s2)
           else (case res_update len resPath s2 of (ret, s3) \<Rightarrow>
             if ret \<noteq> 0 then Some (-1, g, s3)
             else (case res_advance txPath g s3 of (ret, g', s4) \<Rightarrow> Some (ret, g', s4)))
         }))"

end
