(* ===== verification/Hotp.thy ===== *)
theory Hotp
  imports Keystore
begin

unbundle bit_operations_syntax

text \<open>
  One-time passwords: the decoder of \<^verbatim>\<open>base32.c\<close> with its helpers in \<^verbatim>\<open>common.h\<close>, the part of
  \<^verbatim>\<open>otp.c\<close> that computes a counter-based password, and \<^verbatim>\<open>spcmodhotp.c\<close>.  The keyed hash is that of
  libgcrypt and a parameter.  Strings are bytes with a final 0.
\<close>

section \<open>Checks\<close>

datatype b32_error = SUCCESS | INVALID_INPUT | EMPTY_STRING | INPUT_TOO_BIG | INVALID_B32_DATA | MEMORY_ALLOCATION

definition check_input :: "byte list \<Rightarrow> nat \<Rightarrow> nat \<Rightarrow> b32_error option" where
  "check_input user_data data_len max_len = do {
     x \<leftarrow> nth_ub 0 user_data;
     Some (if data_len = 0 \<and> x \<noteq> 0 then INVALID_INPUT
       else if x = 0 then EMPTY_STRING
       else if max_len < data_len then INPUT_TOO_BIG else SUCCESS)
   }"

text \<open>\<^verbatim>\<open>strip_char\<close> on a string: what is left and the number of characters removed.\<close>

definition strip_char :: "byte list \<Rightarrow> byte \<Rightarrow> byte list \<times> nat" where
  "strip_char s strip = (filter (\<lambda>c. c \<noteq> strip) s, length (filter (\<lambda>c. c = strip) s))"

definition b32_alphabet :: "byte list"
  where "b32_alphabet = map of_char ''ABCDEFGHIJKLMNOPQRSTUVWXYZ234567''"

text \<open>The loop of \<^verbatim>\<open>is_valid_b32_input\<close>: it counts the valid characters and ends behind a 0.\<close>

fun valid_loop :: "nat \<Rightarrow> byte list \<Rightarrow> nat \<Rightarrow> nat option" where
  "valid_loop 0 s found = Some found"
| "valid_loop (Suc k) s found = (case s of [] \<Rightarrow> None
     | c # cs \<Rightarrow> if c = 0 then Some (found + 1)
         else valid_loop k cs (if c \<in> set b32_alphabet \<or> c = 0x3d then found + 1 else found))"

definition is_valid_b32_input :: "byte list \<Rightarrow> nat \<Rightarrow> bool option"
  where "is_valid_b32_input s data_len = do { found \<leftarrow> valid_loop data_len s 0; Some (found = data_len) }"

text \<open>The index of a character; the 0 that ends the alphabet is found at 32.\<close>

fun index_loop :: "nat \<Rightarrow> byte list \<Rightarrow> byte \<Rightarrow> int" where
  "index_loop i [] c = -1"
| "index_loop i (a # as) c = (if a = c then int i else index_loop (Suc i) as c)"

definition get_char_index :: "byte \<Rightarrow> int"
  where "get_char_index c = index_loop 0 (b32_alphabet @ [0]) c"

section \<open>A length computed with floating point numbers\<close>

text \<open>\<^verbatim>\<open>(size_t) ((n + 1.6 - 1) / 1.6)\<close>.  All values in it are 0.5 or more, so a \<^verbatim>\<open>double\<close> is a multiple of
  \<^verbatim>\<open>2 ^ -53\<close>, and here the integer number of them; \<^verbatim>\<open>rnd\<close> rounds a quotient to 53 bits, to the even
  neighbour in the middle.  Lengths are below \<^verbatim>\<open>2 ^ 32\<close>, so no value has more than 86 bits.\<close>

fun excess_bits :: "nat \<Rightarrow> int \<Rightarrow> nat" where
  "excess_bits 0 x = 0"
| "excess_bits (Suc k) x = (if x < 2 ^ 53 then 0 else Suc (excess_bits k (x div 2)))"

definition rne :: "int \<Rightarrow> int \<Rightarrow> int" where
  "rne a b = (let k = a div b; r = a mod b in if 2 * r < b \<or> (2 * r = b \<and> even k) then k else k + 1)"

definition rnd :: "int \<Rightarrow> int \<Rightarrow> int"
  where "rnd a b = (let s = excess_bits 33 (a div b) in rne a (b * 2 ^ s) * 2 ^ s)"

definition b32_size :: "nat \<Rightarrow> nat" where
  "b32_size n =
    (let c = 14411518807585588;
         x = rnd (int n * 2 ^ 53 + c) 1;
         y = rnd (x - 2 ^ 53) 1
     in nat (rnd (y * 2 ^ 53) c div 2 ^ 53))"

section \<open>Decoding\<close>

text \<open>The loop over the characters: the bytes written so far and the pending one.  Shifting a negative
  index to the left is undefined.\<close>

fun decode_loop :: "nat \<Rightarrow> byte list \<Rightarrow> nat \<Rightarrow> byte \<Rightarrow> nat \<Rightarrow> byte list \<Rightarrow> byte list option" where
  "decode_loop 0 s j current_byte bits_left out = Some out"
| "decode_loop (Suc k) s j current_byte bits_left out = (case s of [] \<Rightarrow> None
     | c # cs \<Rightarrow>
        (let char_index = get_char_index c in
         if 5 < bits_left then
           decode_loop k cs j (current_byte OR push_bit (bits_left - 5) (word_of_int char_index)) (bits_left - 5) out
         else if char_index < 0 then None
         else do {
           out' \<leftarrow> upd_ub j (current_byte OR drop_bit (5 - bits_left) (word_of_int char_index)) out;
           decode_loop k cs (Suc j) (word_of_int (char_index * 2 ^ (3 + bits_left))) (bits_left + 3) out'
         }))"

text \<open>\<^verbatim>\<open>base32_decode\<close>.  A failing \<^verbatim>\<open>strdup\<close> gives \<^verbatim>\<open>NULL\<close>, which the code goes on to read.\<close>

definition base32_decode :: "byte list \<Rightarrow> nat \<Rightarrow> heap \<Rightarrow> (b32_error \<times> byte list ptr \<times> heap) option" where
  "base32_decode user_data_untrimmed data_len h = do {
     error \<leftarrow> check_input user_data_untrimmed data_len 107374183;
     if error = EMPTY_STRING then
       (case malloc 1 h of (None, h1) \<Rightarrow> Some (error, NULL, h1) | (Some p, h1) \<Rightarrow> Some (error, Ptr p [0], h1))
     else if error \<noteq> SUCCESS then Some (error, NULL, h)
     else (case malloc (word_of_nat (length (c_str user_data_untrimmed) + 1)) h of
         (None, h1) \<Rightarrow> None
       | (Some p, h1) \<Rightarrow> (case strip_char (c_str user_data_untrimmed) 0x20 of (s, found) \<Rightarrow> do {
           let user_data = s @ replicate (found + 1) 0;
           let data_len = (if found \<le> data_len then data_len - found else data_len + 2 ^ 32 - found);
           valid \<leftarrow> is_valid_b32_input user_data data_len;
           if \<not> valid then do { h2 \<leftarrow> free_blk p h1; Some (INVALID_B32_DATA, NULL, h2) }
           else do {
             d \<leftarrow> rd data_len user_data;
             let user_data_chars = length (filter (\<lambda>c. c \<noteq> 0x3d \<and> c \<noteq> 0) d);
             let output_length = b32_size user_data_chars;
             case malloc (word_of_nat (output_length + 1)) h1 of
               (None, h2) \<Rightarrow> do { h3 \<leftarrow> free_blk p h2; Some (MEMORY_ALLOCATION, NULL, h3) }
             | (Some q, h2) \<Rightarrow> do {
                 out \<leftarrow> decode_loop user_data_chars user_data 0 0 8 (replicate (output_length + 1) 0);
                 out \<leftarrow> upd_ub output_length 0 out;
                 h3 \<leftarrow> free_blk p h2;
                 Some (SUCCESS, Ptr q out, h3)
               }
           }
         }))
   }"

section \<open>Passwords\<close>

text \<open>libgcrypt: whether its version is accepted, and the keyed hashes by the number of the algorithm.\<close>

record otp_ops =
  gcrypt_ok :: bool
  hmac :: "nat \<Rightarrow> byte list \<Rightarrow> byte list \<Rightarrow> byte list"

abbreviation (input) "SHA1 \<equiv> (2 :: nat)"
abbreviation (input) "SHA256 \<equiv> (8 :: nat)"
abbreviation (input) "SHA512 \<equiv> (10 :: nat)"

datatype cotp_error = VALID | GCRYPT_VERSION_MISMATCH | INVALID_B32_INPUT | INVALID_ALGO | INVALID_OTP | INVALID_DIGITS | INVALID_PERIOD

text \<open>Spaces are dropped and letters made upper case; the result of \<^verbatim>\<open>calloc\<close> is not tested.\<close>

definition normalize_secret :: "byte list \<Rightarrow> heap \<Rightarrow> (byte list ptr \<times> heap) option" where
  "normalize_secret K h =
    (case malloc (word_of_nat (length (c_str K) + 1)) h of
       (None, h1) \<Rightarrow> None
     | (Some p, h1) \<Rightarrow>
         let s = filter (\<lambda>c. c \<noteq> 0x20) (c_str K)
         in Some (Ptr p (map (\<lambda>c. if 0x61 \<le> c \<and> c \<le> 0x7a then c - 32 else c) s @ replicate (length (c_str K) + 1 - length s) 0), h1))"

definition compute_hmac :: "otp_ops \<Rightarrow> byte list \<Rightarrow> u64 \<Rightarrow> nat \<Rightarrow> heap \<Rightarrow> (buf \<times> heap) option" where
  "compute_hmac o' K C algo h = do {
     let secret_len = b32_size (length (c_str K));
     (nK, h1) \<leftarrow> normalize_secret K h;
     s \<leftarrow> deref nK h1;
     (err, secret, h2) \<leftarrow> base32_decode s (length (c_str s)) h1;
     h3 \<leftarrow> free nK h2;
     if secret = NULL then Some (None, h3)
     else do {
       b \<leftarrow> deref secret h3;
       key \<leftarrow> rd secret_len b;
       h4 \<leftarrow> free secret h3;
       Some (Some (hmac o' algo key (rev (u64_le C))), h4)
     }
   }"

text \<open>\<^verbatim>\<open>truncate\<close>: 31 bits at an offset that the last byte of the hash gives, modulo a power of ten.\<close>

definition truncate_hmac :: "byte list \<Rightarrow> nat \<Rightarrow> nat \<Rightarrow> int option" where
  "truncate_hmac hm digits_length algo = do {
     offset \<leftarrow> (if algo = SHA1 then do { x \<leftarrow> nth_ub 19 hm; Some (unat (x AND 0x0f)) }
       else if algo = SHA256 then do { x \<leftarrow> nth_ub 31 hm; Some (unat (x AND 0x0f)) }
       else if algo = SHA512 then do { x \<leftarrow> nth_ub 63 hm; Some (unat (x AND 0x0f)) }
       else Some 0);
     b0 \<leftarrow> nth_ub offset hm;
     b1 \<leftarrow> nth_ub (offset + 1) hm;
     b2 \<leftarrow> nth_ub (offset + 2) hm;
     b3 \<leftarrow> nth_ub (offset + 3) hm;
     let bin_code = (push_bit 24 (ucast (b0 AND 0x7f)) OR push_bit 16 (ucast (b1 AND 0xff)) OR
       push_bit 8 (ucast (b2 AND 0xff)) OR ucast (b3 AND 0xff) :: u32);
     Some (sint bin_code mod 10 ^ digits_length)
   }"

text \<open>\<^verbatim>\<open>finalize\<close>: the number with leading zeros.  The block of the format is made and freed.\<close>

definition finalize :: "nat \<Rightarrow> int \<Rightarrow> heap \<Rightarrow> (byte list ptr \<times> heap) option" where
  "finalize digits_length tk h =
    (case malloc (word_of_nat (digits_length + 1)) h of
       (None, h1) \<Rightarrow> Some (NULL, h1)
     | (Some p, h1) \<Rightarrow>
        let extra_char = (if digits_length < 10 then 0 else 1) in
        (case malloc (5 + extra_char) h1 of
           (None, h2) \<Rightarrow> None
         | (Some f, h2) \<Rightarrow> do {
             let ds = dec_digits (nat tk);
             h3 \<leftarrow> free_blk f h2;
             Some (Ptr p (take digits_length (replicate (digits_length - length ds) 0x30 @ ds) @ [0]), h3)
           }))"

definition check_otp_len :: "nat \<Rightarrow> cotp_error"
  where "check_otp_len digits_length = (if digits_length < 3 \<or> 10 < digits_length then INVALID_DIGITS else VALID)"

definition check_algo :: "nat \<Rightarrow> cotp_error"
  where "check_algo algo = (if algo \<noteq> SHA1 \<and> algo \<noteq> SHA256 \<and> algo \<noteq> SHA512 then INVALID_ALGO else VALID)"

definition get_hotp :: "otp_ops \<Rightarrow> byte list \<Rightarrow> u64 \<Rightarrow> nat \<Rightarrow> nat \<Rightarrow> heap \<Rightarrow> (cotp_error \<times> byte list ptr \<times> heap) option" where
  "get_hotp o' secret timestamp digits algo h =
    (if \<not> gcrypt_ok o' then Some (GCRYPT_VERSION_MISMATCH, NULL, h)
     else if check_algo algo = INVALID_ALGO then Some (INVALID_ALGO, NULL, h)
     else if check_otp_len digits = INVALID_DIGITS then Some (INVALID_DIGITS, NULL, h)
     else do {
       (hm, h1) \<leftarrow> compute_hmac o' secret timestamp algo h;
       case hm of None \<Rightarrow> Some (INVALID_B32_INPUT, NULL, h1)
       | Some m \<Rightarrow> do {
           tk \<leftarrow> truncate_hmac m digits algo;
           (token, h2) \<leftarrow> finalize digits tk h1;
           Some (VALID, token, h2)
         }
     })"

section \<open>Passwords of the node\<close>

text \<open>A password is six digits, padded with ten zeros to the length of a key, and a final 0.\<close>

definition paddingHotp :: "byte list \<Rightarrow> byte list option" where
  "paddingHotp dest = do {
     b \<leftarrow> wr 6 (replicate 10 0x30) dest;
     upd_ub 16 0 b
   }"

definition hotp_genHotp :: "otp_ops \<Rightarrow> byte list \<Rightarrow> u32 \<Rightarrow> byte list \<Rightarrow> u32 \<Rightarrow> heap \<Rightarrow> (int \<times> byte list \<times> heap) option" where
  "hotp_genHotp o' secret counter dest destlen h =
    (if counter = 0 \<or> destlen \<le> 16 then Some (-1, dest, h)
     else do {
       (err, hotp, h1) \<leftarrow> get_hotp o' secret (ucast counter) 6 SHA1 h;
       if hotp = NULL then Some (-1, dest, h1)
       else do {
         t \<leftarrow> deref hotp h1;
         src \<leftarrow> rd 6 t;
         d \<leftarrow> wr 0 src dest;
         h2 \<leftarrow> free hotp h1;
         d \<leftarrow> paddingHotp d;
         Some (0, d, h2)
       }
     })"

text \<open>The loop of \<^verbatim>\<open>hotp_genNHotp\<close> writes at \<^verbatim>\<open>dest + index * 17\<close>.\<close>

fun nhotp_loop :: "otp_ops \<Rightarrow> byte list \<Rightarrow> u32 \<Rightarrow> nat \<Rightarrow> nat \<Rightarrow> byte list \<Rightarrow> heap \<Rightarrow> (int \<times> byte list \<times> heap) option" where
  "nhotp_loop o' secret counter 0 index dest h = Some (0, dest, h)"
| "nhotp_loop o' secret counter (Suc k) index dest h = do {
     (ret, d, h1) \<leftarrow> hotp_genHotp o' secret (counter + word_of_nat index) (drop (index * 17) dest) 17 h;
     let dest = take (index * 17) dest @ d;
     if ret = -1 then Some (-1, dest, h1) else nhotp_loop o' secret counter k (Suc index) dest h1
   }"

definition hotp_genNHotp :: "otp_ops \<Rightarrow> byte list \<Rightarrow> u32 \<Rightarrow> u32 \<Rightarrow> byte list \<Rightarrow> u32 \<Rightarrow> heap \<Rightarrow> (int \<times> byte list \<times> heap) option" where
  "hotp_genNHotp o' secret counter ntimes dest destlen h =
    (if counter = 0 \<or> ntimes = 0 \<or> destlen < ntimes * 17 then Some (-1, dest, h)
     else nhotp_loop o' secret counter (unat ntimes) 0 dest h)"

section \<open>New secrets\<close>

text \<open>\<^verbatim>\<open>spc_new_base32\<close>: the values of \<^verbatim>\<open>rand\<close> after \<^verbatim>\<open>srand(seed)\<close> are a parameter.\<close>

definition spc_new_base32 :: "(u32 \<Rightarrow> nat \<Rightarrow> nat) \<Rightarrow> buf \<Rightarrow> u32 \<Rightarrow> u32 \<Rightarrow> (int \<times> buf) option" where
  "spc_new_base32 rand outBuf outlen seed =
    (case outBuf of None \<Rightarrow> Some (-1, outBuf)
     | Some b \<Rightarrow>
        if outlen \<le> 16 then Some (-1, outBuf)
        else do {
          b \<leftarrow> wr 0 (replicate (unat outlen) 0) b;
          b \<leftarrow> wr 0 (map (\<lambda>i. b32_alphabet ! (rand seed i mod 32)) [0..<16]) b;
          Some (0, Some b)
        })"

definition hotp_getNewSecret :: "(u32 \<Rightarrow> nat \<Rightarrow> nat) \<Rightarrow> buf \<Rightarrow> u32 \<Rightarrow> u32 \<Rightarrow> (int \<times> buf) option" where
  "hotp_getNewSecret rand dest destlen seed =
    (if dest = None \<or> destlen \<le> 16 then Some (-1, dest) else spc_new_base32 rand dest destlen seed)"

end
