(* ===== verification/Sign_Data.thy ===== *)
theory Sign_Data
  imports Client Sign
begin

text \<open>
  One transaction of a file, on the Linux side (\<^verbatim>\<open>spcmodsign.c\<close>): the decrypted data is a frame with
  the index of the key pair and a partial transaction; the node signs it, and the result is framed
  again.
\<close>

section \<open>Frames\<close>

text \<open>\<^verbatim>\<open>_parse_data\<close>.  The index, the new block with the transaction and its length are out parameters,
  0 at the only call.  The length of the input is only compared with 0.\<close>

definition parse_data :: "buf \<Rightarrow> u32 \<Rightarrow> heap \<Rightarrow> (int \<times> u16 \<times> byte list ptr \<times> u32 \<times> heap) option" where
  "parse_data buf_in buf_in_len h =
    (case buf_in of None \<Rightarrow> Some (-1, 0, NULL, 0, h)
     | Some b \<Rightarrow>
        if buf_in_len = 0 then Some (-1, 0, NULL, 0, h)
        else do {
          head \<leftarrow> nth_ub 0 b;
          if head \<noteq> 0xa1 then Some (-1, 0, NULL, 0, h)
          else do {
            tl \<leftarrow> rd 2 (drop 1 b);
            let total_len = le_u16 tl;
            tail \<leftarrow> nth_ub (unat (3 + ucast total_len - 1 :: u32)) b;
            if tail \<noteq> 0x1a then Some (-1, 0, NULL, 0, h)
            else do {
              head \<leftarrow> nth_ub 3 b;
              if head \<noteq> 0xba then Some (-1, 0, NULL, 0, h)
              else do {
                ix \<leftarrow> rd 2 (drop 6 b);
                let index = le_u16 ix;
                head \<leftarrow> nth_ub 8 b;
                if head \<noteq> 0xca then Some (-1, index, NULL, 0, h)
                else do {
                  hl \<leftarrow> rd 2 (drop 9 b);
                  let get_hex_len = le_u16 hl;
                  if total_len \<le> get_hex_len then Some (-1, index, NULL, 0, h)
                  else (case malloc (ucast get_hex_len) h of
                      (None, h1) \<Rightarrow> Some (-1, index, NULL, ucast get_hex_len, h1)
                    | (Some p, h1) \<Rightarrow> do {
                        hex \<leftarrow> rd (unat get_hex_len) (drop 11 b);
                        Some (0, index, Ptr p hex, ucast get_hex_len, h1)
                      })
                }
              }
            }
          }
        })"

text \<open>\<^verbatim>\<open>_gen_res_data\<close>: the 16-bit length field is the low half of the length, the copy takes all of it.\<close>

definition gen_res_data :: "byte list ptr \<Rightarrow> u32 \<Rightarrow> buf \<Rightarrow> u32 \<Rightarrow> heap \<Rightarrow> (int \<times> buf \<times> u32) option" where
  "gen_res_data res_hex res_hex_len res_buf res_data_len h =
    (case res_buf of None \<Rightarrow> Some (-1, res_buf, res_data_len)
     | Some b \<Rightarrow>
        if res_hex = NULL \<or> res_hex_len = 0 then Some (-1, res_buf, res_data_len)
        else do {
          b \<leftarrow> wr 0 [0xc1] b;
          b \<leftarrow> wr 1 (u16_le (ucast res_hex_len)) b;
          src \<leftarrow> deref res_hex h;
          d \<leftarrow> rd (unat res_hex_len) src;
          b \<leftarrow> wr 3 d b;
          b \<leftarrow> wr (unat (3 + res_hex_len)) [0x1c] b;
          Some (0, Some b, 3 + res_hex_len + 1)
        })"

section \<open>Signing\<close>

text \<open>The size of the output buffer is a parameter the code does not use.\<close>

definition sign_signTransaction :: "buf \<Rightarrow> u32 \<Rightarrow> buf \<Rightarrow> u32 \<Rightarrow> u32 \<Rightarrow> u32 \<Rightarrow> heap \<Rightarrow> net
    \<Rightarrow> (int \<times> buf \<times> u32 \<times> heap \<times> net) option" where
  "sign_signTransaction inBuf inLen outBuf outLen dataLen serverId h n =
    (if inBuf = None \<or> inLen = 0 \<or> outBuf = None then Some (-1, outBuf, dataLen, h, n)
     else do {
       (ret, index, tx_hex, tx_hex_len, h1) \<leftarrow> parse_data inBuf inLen h;
       if ret = -1 then Some (-1, outBuf, dataLen, h1, n)
       else do {
         tx \<leftarrow> as_buf tx_hex h1;
         (ret, res_hex, res_hex_len, h2, n1) \<leftarrow> tcp_sign_tx serverId index tx (ucast tx_hex_len) h1 n;
         if ret = -1 then do { h3 \<leftarrow> free tx_hex h2; Some (-1, outBuf, dataLen, h3, n1) }
         else do {
           h3 \<leftarrow> free tx_hex h2;
           (ret, out, res_data_len) \<leftarrow> gen_res_data res_hex (ucast res_hex_len) outBuf 0 h3;
           if ret = -1 then do { h4 \<leftarrow> free res_hex h3; Some (-1, out, dataLen, h4, n1) }
           else Some (0, out, res_data_len, h3, n1)
         }
       }
     })"

end
