(* ===== verification/Mission.thy ===== *)
theory Mission
  imports Tx_File Hotp Sign_Data
begin

text \<open>
  A mission (\<^verbatim>\<open>start_sign_tx_file\<close> of \<^verbatim>\<open>spc_start_mission.c\<close>, with \<^verbatim>\<open>spcmodcrypt.c\<close>): a transaction file
  is accepted when one of the next five one-time passwords of its server decrypts the check block to
  the number of the server; its transactions are decrypted with that password, signed by the node and
  written to the result file, and the counter of the server moves on.  The cipher is that of
  OpenSSL and a parameter: the key, the initial vector and the data give the decrypted data.
\<close>

type_synonym cipher = "byte list \<Rightarrow> byte list \<Rightarrow> byte list \<Rightarrow> byte list"

section \<open>Decryption\<close>

definition decrypt :: "cipher \<Rightarrow> byte list \<Rightarrow> u32 \<Rightarrow> byte list \<Rightarrow> byte list \<Rightarrow> byte list option" where
  "decrypt aes inBuf inLen outBuf key = do {
     aesKey \<leftarrow> rd 16 key;
     aesIv \<leftarrow> rd 16 key;
     d \<leftarrow> rd (unat inLen) inBuf;
     wr 0 (aes aesKey aesIv d) outBuf
   }"

definition crypt_decryptData :: "cipher \<Rightarrow> byte list \<Rightarrow> u32 \<Rightarrow> byte list \<Rightarrow> u32 \<Rightarrow> byte list \<Rightarrow> u32 \<Rightarrow> (int \<times> byte list) option" where
  "crypt_decryptData aes inBuf inLen outBuf outLen key keyBufLen =
    (if inLen < 16 \<or> outLen mod 16 \<noteq> 0 \<or> keyBufLen < 16 then Some (-1, outBuf)
     else do { out \<leftarrow> decrypt aes inBuf inLen outBuf key; Some (0, out) })"

section \<open>The password\<close>

text \<open>The loop over the passwords: the index of the first one that fits, 5 for none.\<close>

fun find_hotp :: "cipher \<Rightarrow> byte list \<Rightarrow> u32 \<Rightarrow> byte list \<Rightarrow> nat \<Rightarrow> nat \<Rightarrow> byte list \<Rightarrow> (int \<times> nat) option" where
  "find_hotp aes checkBlock serverId hotp_array 0 i deCheckBlock = Some (0, i)"
| "find_hotp aes checkBlock serverId hotp_array (Suc k) i deCheckBlock = do {
     (ret, de) \<leftarrow> crypt_decryptData aes checkBlock 16 deCheckBlock 16 (drop (i * 17) hotp_array) 17;
     if ret \<noteq> 0 then Some (-1, i)
     else do {
       d \<leftarrow> rd 4 de;
       if le_u32 d = serverId then Some (0, i)
       else find_hotp aes checkBlock serverId hotp_array k (Suc i) de
     }
   }"

section \<open>The loops over the transactions\<close>

definition finished :: "parse_state \<Rightarrow> bool"
  where "finished g \<longleftrightarrow> txs_remain (curFile g) = 0 \<and> aes_offset (nextTx g) = 0 \<and> aes_length (nextTx g) = 0"

text \<open>A result that was written leaves one transaction less; after the last one the file is finished.\<close>

lemma res_advance_progress:
  "res_advance p g s = (0, g', s') \<Longrightarrow>
    txs_remain (curFile g') = txs_remain (curFile g) - 1 \<and> (txs_remain (curFile g') = 0 \<longrightarrow> finished g')"
  by (auto simp: res_advance_def moveToNextTx_def Let_def finished_def zero_next_def split: if_splits prod.splits option.splits)

lemma write_progress:
  "parse_writeToResFile sid b l p q g s = Some (0, g', s') \<Longrightarrow>
    txs_remain (curFile g') = txs_remain (curFile g) - 1 \<and> (txs_remain (curFile g') = 0 \<longrightarrow> finished g')"
  by (auto simp: parse_writeToResFile_def bind_eq_Some_conv split: if_splits prod.splits option.splits dest!: res_advance_progress)

definition left :: "parse_state \<Rightarrow> nat"
  where "left g = (if finished g then 0 else Suc (unat (txs_remain (curFile g) - 1)))"

lemma left_decreases:
  assumes "\<not> finished g" "txs_remain (curFile g') = txs_remain (curFile g) - 1" "txs_remain (curFile g') = 0 \<longrightarrow> finished g'"
  shows "left g' < left g"
proof -
  define w where "w = txs_remain (curFile g) - 1"
  have "w \<noteq> 0 \<Longrightarrow> Suc (unat (w - 1)) = unat w" using unat_minus_one [of w] by (simp add: unat_gt_0)
  then show ?thesis using assms unfolding left_def w_def [symmetric] by (cases "w = 0") simp_all
qed

text \<open>Without a password every transaction gets an empty result.\<close>

function void_loop :: "byte list \<Rightarrow> byte list \<Rightarrow> parse_state \<Rightarrow> os \<Rightarrow> (int \<times> parse_state \<times> os) option" where
  "void_loop txFilePath resFilePath g s =
    (if finished g then Some (0, g, s)
     else (case parse_writeToResFile (tf_server_id (curFile g)) None 0 txFilePath resFilePath g s of
         None \<Rightarrow> None
       | Some (ret, g', s') \<Rightarrow> if ret \<noteq> 0 then Some (-1, g', s') else void_loop txFilePath resFilePath g' s'))"
  by pat_completeness auto
termination
  by (relation "measure (\<lambda>(p, q, g, s). left g)") (auto dest!: write_progress intro!: left_decreases)

declare void_loop.simps [simp del]

text \<open>The body of the loop that signs, from the call that signs on: the result is written, and
  \<^verbatim>\<open>flag\<close> is set by the first transaction that is not signed.\<close>

definition sign_and_write :: "byte list \<Rightarrow> nat \<Rightarrow> byte list \<Rightarrow> nat \<Rightarrow> byte list \<Rightarrow> byte list \<Rightarrow> bool \<Rightarrow> parse_state \<Rightarrow> os \<Rightarrow> net
    \<Rightarrow> (int \<times> bool \<times> parse_state \<times> os \<times> net) option" where
  "sign_and_write raw pRawTxBuf zeros pResTxBuf txFilePath resFilePath flag g s n = do {
     (ret, resTx, resDataLen, h, n1) \<leftarrow> sign_signTransaction (Some raw) (aes_length (nextTx g)) (Some zeros) (aes_length (nextTx g) + 100) 0
        (tf_server_id (curFile g)) (hp s) n;
     let resDataLen = (if ret \<noteq> 0 then 0 else resDataLen);
     let flag = (flag \<or> ret \<noteq> 0);
     s1 \<leftarrow> os_free pRawTxBuf (s\<lparr>hp := h\<rparr>);
     (ret, g', s2) \<leftarrow> parse_writeToResFile (tf_server_id (curFile g)) (if flag then None else resTx) resDataLen
        txFilePath resFilePath g s1;
     s3 \<leftarrow> os_free pResTxBuf s2;
     Some (if ret \<noteq> 0 then -1 else 0, flag, g', s3, n1)
   }"

text \<open>The whole body.\<close>

definition sign_one :: "cipher \<Rightarrow> byte list \<Rightarrow> byte list \<Rightarrow> byte list \<Rightarrow> bool \<Rightarrow> parse_state \<Rightarrow> os \<Rightarrow> net
    \<Rightarrow> (int \<times> bool \<times> parse_state \<times> os \<times> net) option" where
  "sign_one aes hotp txFilePath resFilePath flag g s n =
    (let l = aes_length (nextTx g); zeros = replicate (unat (l + 100)) 0 in
     case os_malloc (ucast (l + 100)) s of
       (None, s1) \<Rightarrow> Some (-1, flag, g, s1, n)
     | (Some pAesTxBuf, s1) \<Rightarrow>
        (case os_malloc (ucast (l + 100)) s1 of
           (None, s2) \<Rightarrow> do { s3 \<leftarrow> os_free pAesTxBuf s2; Some (-1, flag, g, s3, n) }
         | (Some pRawTxBuf, s2) \<Rightarrow> do {
             (ret, aesTx, s3) \<leftarrow> parse_getNextTx txFilePath (Some zeros) (l + 10) g s2;
             if ret \<noteq> 0 then do { s4 \<leftarrow> os_free pAesTxBuf s3; s5 \<leftarrow> os_free pRawTxBuf s4; Some (-1, flag, g, s5, n) }
             else do {
               a \<leftarrow> aesTx;
               (ret, raw) \<leftarrow> crypt_decryptData aes a l zeros l hotp 17;
               if ret \<noteq> 0 then do { s4 \<leftarrow> os_free pAesTxBuf s3; s5 \<leftarrow> os_free pRawTxBuf s4; Some (-1, flag, g, s5, n) }
               else do {
                 s4 \<leftarrow> os_free pAesTxBuf s3;
                 case os_malloc (ucast (l + 100)) s4 of
                   (None, s5) \<Rightarrow> do { s6 \<leftarrow> os_free pAesTxBuf s5; s7 \<leftarrow> os_free pRawTxBuf s6; Some (-1, flag, g, s7, n) }
                 | (Some pResTxBuf, s5) \<Rightarrow>
                     sign_and_write raw pRawTxBuf zeros pResTxBuf txFilePath resFilePath flag g s5 n
               }
             }
           }))"

lemma sign_and_write_progress:
  "sign_and_write raw p1 z p2 p q flag g s n = Some (0, flag', g', s', n') \<Longrightarrow>
    txs_remain (curFile g') = txs_remain (curFile g) - 1 \<and> (txs_remain (curFile g') = 0 \<longrightarrow> finished g')"
  unfolding sign_and_write_def Let_def bind_eq_Some_conv
  by (elim exE conjE) (simp add: bind_eq_Some_conv split: prod.splits if_split_asm, (elim exE conjE, drule write_progress, simp)+)

lemma alloc_cases_Some:
  "(case x of (None, s) \<Rightarrow> f s | (Some p, s) \<Rightarrow> g p s) = Some r \<longleftrightarrow>
    (\<exists>s. x = (None, s) \<and> f s = Some r) \<or> (\<exists>p s. x = (Some p, s) \<and> g p s = Some r)"
  by (auto split: prod.split option.split)

lemma sign_one_progress:
  "sign_one aes hotp p q flag g s n = Some (0, flag', g', s', n') \<Longrightarrow>
    txs_remain (curFile g') = txs_remain (curFile g) - 1 \<and> (txs_remain (curFile g') = 0 \<longrightarrow> finished g')"
  by (auto simp: sign_one_def Let_def bind_eq_Some_conv alloc_cases_Some split: if_split_asm dest!: sign_and_write_progress)

function sign_txs_loop :: "cipher \<Rightarrow> byte list \<Rightarrow> byte list \<Rightarrow> byte list \<Rightarrow> bool \<Rightarrow> parse_state \<Rightarrow> os \<Rightarrow> net
    \<Rightarrow> (int \<times> parse_state \<times> os \<times> net) option" where
  "sign_txs_loop aes hotp txFilePath resFilePath flag g s n =
    (if finished g then Some (0, g, s, n)
     else (case sign_one aes hotp txFilePath resFilePath flag g s n of
         None \<Rightarrow> None
       | Some (ret, flag', g', s', n') \<Rightarrow>
           if ret \<noteq> 0 then Some (-1, g', s', n')
           else sign_txs_loop aes hotp txFilePath resFilePath flag' g' s' n'))"
  by pat_completeness auto
termination
  by (relation "measure (\<lambda>(aes, hotp, p, q, flag, g, s, n). left g)") (auto dest!: sign_one_progress intro!: left_decreases)

declare sign_txs_loop.simps [simp del]

section \<open>A transaction file\<close>

text \<open>The file when no password fits, and the file when one does.\<close>

definition void_file :: "byte list \<Rightarrow> byte list \<Rightarrow> parse_state \<Rightarrow> os \<Rightarrow> net \<Rightarrow> (int \<times> parse_state \<times> os \<times> net) option" where
  "void_file txFilePath resFilePath g s n =
    (case parse_parseTxFile txFilePath g s of (ret, g1, s4) \<Rightarrow>
       if ret \<noteq> 0 then Some (-1, g1, s4, n)
       else do { (ret, g2, s5) \<leftarrow> void_loop txFilePath resFilePath g1 s4; Some (ret, g2, s5, n) })"

definition sign_file :: "cipher \<Rightarrow> byte list \<Rightarrow> server_info \<Rightarrow> byte list \<Rightarrow> byte list \<Rightarrow> parse_state \<Rightarrow> os \<Rightarrow> net
    \<Rightarrow> (int \<times> parse_state \<times> os \<times> net) option" where
  "sign_file aes hotp info txFilePath resFilePath g s n =
    (case parse_parseTxFile txFilePath g s of (ret, g1, s4) \<Rightarrow>
       if ret \<noteq> 0 then Some (-1, g1, s4, n)
       else do {
         (ret, g2, s5, n1) \<leftarrow> sign_txs_loop aes hotp txFilePath resFilePath False g1 s4 n;
         if ret \<noteq> 0 then Some (-1, g2, s5, n1)
         else do {
           (ret, s6) \<leftarrow> server_setServerInfo info s5;
           Some (if ret \<noteq> 0 then -1 else 0, g2, s6, n1)
         }
       })"

definition start_sign_tx_file :: "otp_ops \<Rightarrow> cipher \<Rightarrow> byte list \<Rightarrow> byte list \<Rightarrow> parse_state \<Rightarrow> os \<Rightarrow> net
    \<Rightarrow> (int \<times> parse_state \<times> os \<times> net) option" where
  "start_sign_tx_file ops aes txFilePath resFilePath g s n =
    (if access txFilePath s \<noteq> 0 then Some (-1, g, s, n)
     else (case parse_getCheckBlock txFilePath 0 (replicate 16 0) 16 s of (ret, serverId, checkBlock, s1) \<Rightarrow>
       if ret \<noteq> 0 then Some (-1, g, s1, n)
       else do {
         (ret, info, s2) \<leftarrow> server_getServerInfo zero_info serverId s1;
         if ret \<noteq> 0 then Some (-1, g, s2, n)
         else do {
           (ret, hotp_array, h) \<leftarrow> hotp_genNHotp ops (server_secret info @ [0]) (server_counter info) 5 (replicate 85 0) 85 (hp s2);
           let s3 = s2\<lparr>hp := h\<rparr>;
           if ret < 0 then Some (-1, g, s3, n)
           else do {
             (ret, counterIndex) \<leftarrow> find_hotp aes checkBlock serverId hotp_array 5 0 (replicate 16 0);
             if ret \<noteq> 0 then Some (-1, g, s3, n)
             else if counterIndex = 5 then void_file txFilePath resFilePath g s3 n
             else do {
               hotp \<leftarrow> rd 16 (drop (counterIndex * 17) hotp_array);
               let info = info\<lparr>server_counter := server_counter info + (word_of_nat counterIndex + 1)\<rparr>;
               sign_file aes (hotp @ [0]) info txFilePath resFilePath g s3 n
             }
           }
         }
       }))"

end
