(* ===== verification/Sys_Files.thy ===== *)
theory Sys_Files
  imports Server_List
begin

text \<open>
  Calls of the C library and the system that several parts of the Linux side use: strings in arrays, and files
  that are removed, renamed or written anew.  It models no code of its own.
\<close>

section \<open>Strings\<close>

text \<open>\<^verbatim>\<open>strlen\<close> of an array: undefined when the array has no 0.\<close>

definition strlen :: "byte list \<Rightarrow> nat option"
  where "strlen b = (if 0 \<in> set b then Some (length (c_str b)) else None)"

lemma takeWhile_less_length: "x \<in> set xs \<Longrightarrow> \<not> P x \<Longrightarrow> length (takeWhile P xs) < length xs"
  by (induction xs) auto

lemma strlen_less: "strlen b = Some n \<Longrightarrow> n < length b"
  by (auto simp: strlen_def c_str_def split: if_splits intro: takeWhile_less_length)

text \<open>\<^verbatim>\<open>strncat(dst, src, n)\<close>: at most \<^verbatim>\<open>n\<close> characters and a final 0.\<close>

definition strncat :: "byte list \<Rightarrow> byte list \<Rightarrow> nat \<Rightarrow> byte list option" where
  "strncat dst src n = do { k \<leftarrow> strlen dst; wr k (take n (c_str src) @ [0]) dst }"

section \<open>Files\<close>

text \<open>\<^verbatim>\<open>remove\<close> of a file.\<close>

definition remove_file :: "byte list \<Rightarrow> os \<Rightarrow> int \<times> os" where
  "remove_file p s = (case io_step s of (r, s1) \<Rightarrow>
     if r = None \<or> p \<notin> dom (files s1) then (-1, s1) else (0, s1\<lparr>files := (files s1)(p := None)\<rparr>))"

text \<open>\<^verbatim>\<open>rename\<close> of a file.\<close>

definition rename_file :: "byte list \<Rightarrow> byte list \<Rightarrow> os \<Rightarrow> int \<times> os" where
  "rename_file old new s = (case io_step s of (r, s1) \<Rightarrow>
     case files s1 old of
       None \<Rightarrow> (-1, s1)
     | Some f \<Rightarrow> if r = None \<or> dirname new \<notin> dirs s1 \<or> new \<in> dirs s1 then (-1, s1)
         else (0, s1\<lparr>files := (files s1)(old := None, new \<mapsto> f)\<rparr>))"

text \<open>A list of files is removed when they are there; what \<^verbatim>\<open>remove\<close> returns is not tested.\<close>

fun remove_all :: "byte list list \<Rightarrow> os \<Rightarrow> os" where
  "remove_all [] s = s"
| "remove_all (p # ps) s = remove_all ps (snd (remove_file p s))"

fun clear_all :: "byte list list \<Rightarrow> os \<Rightarrow> os" where
  "clear_all [] s = s"
| "clear_all (p # ps) s = clear_all ps (if access p s = 0 then snd (remove_file p s) else s)"

text \<open>A new file with given contents: \<^verbatim>\<open>open(path, O_CREAT | O_TRUNC | O_WRONLY)\<close>, \<^verbatim>\<open>write\<close> of \<^verbatim>\<open>n\<close> bytes
  and the test that all were written.\<close>

definition write_new :: "byte list \<Rightarrow> byte list \<Rightarrow> u32 \<Rightarrow> os \<Rightarrow> (int \<times> os) option" where
  "write_new path b n s = (case open_trunc path s of
     (None, s1) \<Rightarrow> Some (-1, s1)
   | (Some fd, s1) \<Rightarrow> do {
       d \<leftarrow> rd (unat n) b;
       case write_all fd d s1 of (ret, fd, s2) \<Rightarrow> Some (if word_of_int ret \<noteq> n then -1 else 0, s2)
     })"

end
