(* ===== verification/File_Ops.thy ===== *)
theory File_Ops
  imports Mission Sys_Files
begin

text \<open>
  The files of a mission (\<^verbatim>\<open>spcmodfileops.c\<close>) and the loop over them (\<^verbatim>\<open>spc_start_mission\<close>).  What
  \<^verbatim>\<open>opendir\<close> and \<^verbatim>\<open>readdir\<close> give is a parameter: for a directory its entries in the order of the file
  system, each with its name and whether it is a regular file, or \<^verbatim>\<open>None\<close> when it cannot be opened.
\<close>

type_synonym dir_list = "byte list \<Rightarrow> os \<Rightarrow> (bool \<times> byte list) list option"

section \<open>Times\<close>

definition isspace :: "byte \<Rightarrow> bool"
  where "isspace c \<longleftrightarrow> c = 0x20 \<or> (9 \<le> c \<and> c \<le> 13)"

definition isdigit :: "byte \<Rightarrow> bool"
  where "isdigit c \<longleftrightarrow> 0x30 \<le> c \<and> c \<le> 0x39"

definition dec_value :: "byte list \<Rightarrow> int"
  where "dec_value ds = foldl (\<lambda>n c. n * 10 + int (unat (c - 0x30))) 0 ds"

text \<open>\<^verbatim>\<open>atoll\<close>: undefined when the number does not fit.\<close>

definition atoll :: "byte list \<Rightarrow> int option" where
  "atoll b =
    (let s = dropWhile isspace (c_str b);
         (sign, s) = (case s of c # r \<Rightarrow> if c = 0x2d then (-1, r) else if c = 0x2b then (1, r) else (1, s) | [] \<Rightarrow> (1, s));
         v = sign * dec_value (takeWhile isdigit s)
     in if - (2 ^ 63) \<le> v \<and> v < 2 ^ 63 then Some v else None)"

section \<open>Directories\<close>

definition TXFILETAIL :: "byte list" where "TXFILETAIL = str ''.tx''"
definition RESFILETAIL :: "byte list" where "RESFILETAIL = str ''.res''"
definition TXFILENAMELEN :: nat where "TXFILENAMELEN = 29"

text \<open>The test of the loops over a directory.  The end of a name of fewer than three characters lies before
  its array.\<close>

definition is_tx_file :: "bool \<times> byte list \<Rightarrow> bool option" where
  "is_tx_file e = (case e of (reg, name) \<Rightarrow>
     if \<not> reg then Some False
     else if length name < 3 then None
     else Some (drop (length name - 3) name = TXFILETAIL \<and> length name - 3 \<noteq> 0))"

fun count_loop :: "(bool \<times> byte list) list \<Rightarrow> u32 \<Rightarrow> u32 option" where
  "count_loop [] n = Some n"
| "count_loop (e # es) n = do { t \<leftarrow> is_tx_file e; count_loop es (if t then n + 1 else n) }"

text \<open>\<^verbatim>\<open>_getTxFileNum\<close>; the number is an out parameter.\<close>

definition getTxFileNum :: "dir_list \<Rightarrow> byte list \<Rightarrow> u32 \<Rightarrow> os \<Rightarrow> (int \<times> u32) option" where
  "getTxFileNum ls path num s = (case ls path s of
     None \<Rightarrow> Some (-1, num)
   | Some es \<Rightarrow> do { n \<leftarrow> count_loop es 0; Some (0, n) })"

definition fileops_getTxFileNum :: "dir_list \<Rightarrow> byte list \<Rightarrow> u32 \<Rightarrow> os \<Rightarrow> (int \<times> u32) option" where
  "fileops_getTxFileNum ls txDir num s = (if access txDir s \<noteq> 0 then Some (-1, num) else getTxFileNum ls txDir num s)"

definition rmTxFile :: "byte list \<Rightarrow> os \<Rightarrow> (int \<times> os) option" where
  "rmTxFile path s =
    (if access path s \<noteq> 0 then Some (-1, s)
     else if length path < 3 then None
     else if drop (length path - 3) path \<noteq> TXFILETAIL then Some (-1, s)
     else Some (remove_file path s))"

definition fileops_rmTxFile :: "byte list \<Rightarrow> os \<Rightarrow> (int \<times> os) option"
  where "fileops_rmTxFile path s = rmTxFile path s"

text \<open>The loop of \<^verbatim>\<open>_getNextTxFile\<close>: the name with the least time so far, in an array of 39 bytes, and this
  time, 0 for none.  The time is read from the seventh character on.\<close>

fun next_loop :: "(bool \<times> byte list) list \<Rightarrow> byte list \<Rightarrow> int \<Rightarrow> (byte list \<times> int) option" where
  "next_loop [] fileName timeMin = Some (fileName, timeMin)"
| "next_loop (e # es) fileName timeMin = do {
     t \<leftarrow> is_tx_file e;
     if \<not> t then next_loop es fileName timeMin
     else if length (snd e) < 6 then None
     else do {
       timeCur \<leftarrow> atoll (take 20 (drop 6 (snd e)) @ [0]);
       if timeMin = 0 then do {
         fileName' \<leftarrow> wr 0 (snd e) fileName;
         next_loop es fileName' timeCur
       }
       else if timeCur < timeMin then do {
         fileName' \<leftarrow> wr 0 (snd e) (replicate (TXFILENAMELEN + 10) 0);
         next_loop es fileName' timeCur
       }
       else next_loop es fileName timeMin
     }
   }"

definition getNextTxFile :: "dir_list \<Rightarrow> byte list \<Rightarrow> byte list \<Rightarrow> os \<Rightarrow> (int \<times> byte list) option" where
  "getNextTxFile ls txPath path s =
    (if access txPath s \<noteq> 0 \<or> length path < TXFILENAMELEN + length txPath + 5 then Some (-1, path)
     else (case ls txPath s of
         None \<Rightarrow> Some (-1, path)
       | Some es \<Rightarrow> do {
           (fileName, timeMin) \<leftarrow> next_loop es (replicate (TXFILENAMELEN + 10) 0) 0;
           n \<leftarrow> strlen fileName;
           if n \<noteq> 0 then do {
             path' \<leftarrow> strncat (replicate (length path) 0) txPath (length txPath);
             path' \<leftarrow> strncat path' fileName TXFILENAMELEN;
             Some (0, path')
           }
           else Some (-1, replicate (length path) 0)
         }))"

definition fileops_getNextTxFile :: "dir_list \<Rightarrow> byte list \<Rightarrow> byte list \<Rightarrow> os \<Rightarrow> (int \<times> byte list) option"
  where "fileops_getNextTxFile ls txDirPath txFilePath s = getNextTxFile ls txDirPath txFilePath s"

section \<open>The paths of the result\<close>

text \<open>The loop that clears the tail: the end of the string is computed anew in every round.\<close>

function clear_loop :: "nat \<Rightarrow> byte list \<Rightarrow> byte list option" where
  "clear_loop i b = (case strlen b of
     None \<Rightarrow> None
   | Some n \<Rightarrow> if i < n then (case upd_ub i 0 b of None \<Rightarrow> None | Some b' \<Rightarrow> clear_loop (Suc i) b') else Some b)"
  by pat_completeness auto
termination
proof (relation "measure (\<lambda>(i, b). length b - i)")
  fix i n and b b' :: "byte list"
  assume "strlen b = Some n" "i < n" "upd_ub i 0 b = Some b'"
  then have "i < length b" "length b' = length b"
    using strlen_less [of b n] by (auto simp: upd_ub_def split: if_splits)
  then show "((Suc i, b'), (i, b)) \<in> measure (\<lambda>(i, b). length b - i)" by simp
qed simp

declare clear_loop.simps [simp del]

definition fileops_genResFilePath :: "byte list \<Rightarrow> byte list \<Rightarrow> byte list \<Rightarrow> os \<Rightarrow> (int \<times> byte list) option" where
  "fileops_genResFilePath resDirPath txFilePath resFilePath s =
    (if access resDirPath s \<noteq> 0 \<or> access txFilePath s \<noteq> 0 \<or> length resFilePath < TXFILENAMELEN + length resDirPath + 5
     then Some (1, resFilePath)
     else if length txFilePath < TXFILENAMELEN then None
     else do {
       txFileName \<leftarrow> wr 0 (drop (length txFilePath - TXFILENAMELEN) txFilePath) (replicate (TXFILENAMELEN + 1) 0);
       n \<leftarrow> strlen txFileName;
       if n < 3 then None
       else if drop (n - 3) (c_str txFileName) \<noteq> TXFILETAIL then Some (-1, resFilePath)
       else do {
         txFileName \<leftarrow> clear_loop (n - 3) txFileName;
         txFileName \<leftarrow> strncat txFileName RESFILETAIL 4;
         path \<leftarrow> strncat (replicate (length resFilePath) 0) resDirPath (length resDirPath);
         path \<leftarrow> (if resDirPath = [] then None else if last resDirPath \<noteq> 0x2f then strncat path [0x2f] 1 else Some path);
         n \<leftarrow> strlen txFileName;
         path \<leftarrow> strncat path txFileName n;
         Some (0, path)
       }
     })"

text \<open>\<^verbatim>\<open>fileops_genDownloadFilePath\<close> is the same code for another directory.\<close>

definition fileops_genDownloadFilePath :: "byte list \<Rightarrow> byte list \<Rightarrow> byte list \<Rightarrow> os \<Rightarrow> (int \<times> byte list) option"
  where "fileops_genDownloadFilePath downloadDirPath txFilePath downloadFilePath s =
    fileops_genResFilePath downloadDirPath txFilePath downloadFilePath s"

section \<open>The mission\<close>

definition TXFILEDIR :: "byte list" where "TXFILEDIR = str ''/mnt/spcdata/transaction/txfiles/''"
definition RESFILEDIR :: "byte list" where "RESFILEDIR = str ''/mnt/spcdata/transaction/resfiles/''"
definition DOWNLOADFILEDIR :: "byte list" where "DOWNLOADFILEDIR = str ''/mnt/spcdata/download/''"

text \<open>One round of the loop: \<^verbatim>\<open>None\<close> in the first component when it ends the loop.  The two branches after
  a file, signed or not, print different messages and do the same.\<close>

definition mission_round :: "otp_ops \<Rightarrow> cipher \<Rightarrow> dir_list \<Rightarrow> parse_state \<Rightarrow> os \<Rightarrow> net
    \<Rightarrow> (bool \<times> parse_state \<times> os \<times> net) option" where
  "mission_round ops aes ls g s n = do {
     (ret, p) \<leftarrow> fileops_getNextTxFile ls TXFILEDIR (replicate 500 0) s;
     if ret \<noteq> 0 then Some (False, g, s, n)
     else do {
       let txFilePath = c_str p;
       (ret, q) \<leftarrow> fileops_genResFilePath RESFILEDIR txFilePath (replicate 500 0) s;
       if ret \<noteq> 0 then Some (False, g, s, n)
       else do {
         (ret, d) \<leftarrow> fileops_genDownloadFilePath DOWNLOADFILEDIR txFilePath (replicate 500 0) s;
         if ret \<noteq> 0 then Some (False, g, s, n)
         else do {
           let resFilePath = c_str q;
           (ret, g1, s1, n1) \<leftarrow> start_sign_tx_file ops aes txFilePath resFilePath g s n;
           let s2 = (if access resFilePath s1 = 0 then snd (rename_file resFilePath (c_str d) s1) else s1);
           (ret, s3) \<leftarrow> fileops_rmTxFile txFilePath s2;
           Some (True, g1, s3, n1)
         }
       }
     }
   }"

text \<open>The loop ends when there is no file left; it need not end when files cannot be removed.\<close>

partial_function (option) mission_loop :: "otp_ops \<Rightarrow> cipher \<Rightarrow> dir_list \<Rightarrow> parse_state \<Rightarrow> os \<Rightarrow> net
    \<Rightarrow> (parse_state \<times> os \<times> net) option" where
  "mission_loop ops aes ls g s n = do {
     (more, g1, s1, n1) \<leftarrow> mission_round ops aes ls g s n;
     if more then mission_loop ops aes ls g1 s1 n1 else Some (g1, s1, n1)
   }"

definition spc_start_mission :: "otp_ops \<Rightarrow> cipher \<Rightarrow> dir_list \<Rightarrow> parse_state \<Rightarrow> os \<Rightarrow> net
    \<Rightarrow> (parse_state \<times> os \<times> net) option" where
  "spc_start_mission ops aes ls g s n =
    (if access TXFILEDIR s \<noteq> 0 \<or> access RESFILEDIR s \<noteq> 0 then Some (g, s, n) else mission_loop ops aes ls g s n)"

end
