(* ===== verification/Sign_Data_Correct.thy ===== *)
theory Sign_Data_Correct
  imports Sign_Data Client_Correct
begin

text \<open>The frames of a transaction and of its result, and the way through the node and back.\<close>

section \<open>The format of the frames\<close>

text \<open>A frame is a byte, the 16-bit length of what follows, a field for the index and one for the
  transaction, and a last byte.\<close>

definition frame :: "u16 \<Rightarrow> byte list \<Rightarrow> byte list" where
  "frame index tx = 0xa1 # u16_le (word_of_nat (length tx + 9)) @ 0xba # u16_le 2 @ u16_le index @
     0xca # u16_le (word_of_nat (length tx)) @ tx @ [0x1a]"

definition res_frame :: "byte list \<Rightarrow> byte list" where
  "res_frame res = 0xc1 # u16_le (word_of_nat (length res)) @ res @ [0x1c]"

lemma length_frame [simp]: "length (frame index tx) = length tx + 12"
  by (simp add: frame_def)

lemma length_res_frame [simp]: "length (res_frame res) = length res + 4"
  by (simp add: res_frame_def)

lemma rd_drop_app: "length xs = k \<Longrightarrow> length ys = n \<Longrightarrow> rd n (drop k (xs @ ys @ zs)) = Some ys"
  by (simp add: rd_app)

lemma nth_app: "length xs = k \<Longrightarrow> nth_ub k (xs @ y # zs) = Some y"
  by (rule nth_ub_app)

lemma parse_data_frame:
  assumes tx: "length tx + 9 < 65536" and l: "l \<noteq> 0" and h: "no_oom h"
  shows "parse_data (Some (frame index tx @ pad)) l h =
    Some (0, index, Ptr (calls h) tx, word_of_nat (length tx), alloc 1 h)"
proof -
  let ?t = "u16_le (word_of_nat (length tx + 9))" and ?l = "u16_le (word_of_nat (length tx))"
  let ?b = "frame index tx @ pad"
  have b0: "nth_ub 0 ?b = Some 0xa1" by (simp add: frame_def nth_ub_def)
  have b1: "rd 2 (drop 1 ?b) = Some ?t" by (simp add: frame_def rd_app)
  have b3: "nth_ub 3 ?b = Some 0xba"
    using nth_app [of "0xa1 # ?t" 3 "0xba" "u16_le 2 @ u16_le index @ 0xca # ?l @ tx @ [0x1a] @ pad"] by (simp add: frame_def)
  have b6: "rd 2 (drop 6 ?b) = Some (u16_le index)"
    using rd_drop_app [of "0xa1 # ?t @ 0xba # u16_le 2" 6 "u16_le index" 2 "0xca # ?l @ tx @ [0x1a] @ pad"] by (simp add: frame_def)
  have b8: "nth_ub 8 ?b = Some 0xca"
    using nth_app [of "0xa1 # ?t @ 0xba # u16_le 2 @ u16_le index" 8 "0xca" "?l @ tx @ [0x1a] @ pad"] by (simp add: frame_def)
  have b9: "rd 2 (drop 9 ?b) = Some ?l"
    using rd_drop_app [of "0xa1 # ?t @ 0xba # u16_le 2 @ u16_le index @ [0xca]" 9 ?l 2 "tx @ [0x1a] @ pad"] by (simp add: frame_def)
  have b11: "rd (length tx) (drop 11 ?b) = Some tx"
    using rd_drop_app [of "0xa1 # ?t @ 0xba # u16_le 2 @ u16_le index @ 0xca # ?l" 11 tx "length tx" "[0x1a] @ pad"] by (simp add: frame_def)
  have bt: "nth_ub (length tx + 11) ?b = Some 0x1a"
    using nth_app [of "0xa1 # ?t @ 0xba # u16_le 2 @ u16_le index @ 0xca # ?l @ tx" "length tx + 11" "0x1a" pad] by (simp add: frame_def)
  have "(3 + word_of_nat (length tx + 9) - 1 :: u32) = word_of_nat (length tx + 11)"
    by (simp add: of_nat_add)
  then have t: "unat (3 + ucast (word_of_nat (length tx + 9) :: u16) - 1 :: u32) = length tx + 11"
    using tx unat_u32_len [of "length tx + 11"] by (simp only: ucast_u16_of_nat)
  have le: "\<not> (word_of_nat (length tx + 9) :: u16) \<le> word_of_nat (length tx)"
    using tx by (simp only: word_le_nat_alt unat_u16_len)
  show ?thesis
    using l le t tx h b0 b1 b3 b6 b8 b9 b11 bt
    by (simp add: parse_data_def wire_simps malloc_alloc unat_u16_len ucast_u16_of_nat Let_def)
qed

lemma gen_res_data_frame:
  assumes b: "q \<in> live h" and res: "res \<noteq> []" "length res + 4 < 2 ^ 32" "length res + 4 \<le> length out"
  shows "gen_res_data (Ptr q res) (word_of_nat (length res)) (Some out) l h =
    Some (0, Some (0xc1 # u16_le (word_of_nat (length res)) @ res @ 0x1c # drop (length res + 4) out), word_of_nat (length res + 4))"
proof -
  have u: "unat (word_of_nat (length res) :: u32) = length res" "unat (3 + word_of_nat (length res) :: u32) = length res + 3"
    "(word_of_nat (length res) :: u32) \<noteq> 0"
    using res unat_u32_len [of "length res"] unat_u32_len [of "length res + 3"]
    by (auto simp: add.commute simp flip: unat_0_iff)
  have c: "(ucast (word_of_nat (length res) :: u32) :: u16) = word_of_nat (length res)"
    using res(2) by (simp add: word_unat_eq_iff unsigned_ucast_eq unat_of_nat take_bit_eq_mod)
  have w: "wr 0 [0xc1] out = Some (0xc1 # drop 1 out)"
    "wr 1 (u16_le i) (0xc1 # drop 1 out) = Some (0xc1 # u16_le i @ drop 3 out)"
    "wr 3 res (0xc1 # u16_le i @ drop 3 out) = Some (0xc1 # u16_le i @ res @ drop (length res + 3) out)"
    "wr (length res + 3) [0x1c] (0xc1 # u16_le i @ res @ drop (length res + 3) out) =
      Some (0xc1 # u16_le i @ res @ 0x1c # drop (length res + 4) out)" for i
    using res(3) by (simp_all add: wr_def numeral_eq_Suc)
  show ?thesis using b res u c w by (simp add: gen_res_data_def rd_def)
qed

text \<open>The heap after a transaction was signed: the block with the result stays allocated.\<close>

definition heap_signed :: "heap \<Rightarrow> heap"
  where "heap_signed h = h\<lparr>calls := calls h + 2, live := insert (Suc (calls h)) (live h)\<rparr>"

definition heap_refused :: "heap \<Rightarrow> heap"
  where "heap_refused h = h\<lparr>calls := Suc (calls h)\<rparr>"

lemma heap_after_simps [simp]:
  "no_oom h \<Longrightarrow> no_oom (heap_signed h)" "heap_ok h \<Longrightarrow> heap_ok (heap_signed h)"
  "no_oom h \<Longrightarrow> no_oom (heap_refused h)" "heap_ok h \<Longrightarrow> heap_ok (heap_refused h)"
  "live (heap_signed h) = insert (Suc (calls h)) (live h)" "live (heap_refused h) = live h"
  by (auto simp: heap_signed_def heap_refused_def heap_ok_def)

lemma free_first_alloc:
  assumes "heap_ok h"
  shows "free_blk (calls h) (alloc 1 (alloc 1 h)) = Some (heap_signed h)" "free_blk (calls h) (alloc 1 h) = Some (heap_refused h)"
  using assms by (auto simp: free_blk_def alloc_def heap_signed_def heap_refused_def heap_ok_def intro!: heap.equality)

lemma sign_signTransaction_ok:
  assumes a: "answers n (net_calls n) sid index tx res" and tx: "tx \<noteq> []" "length tx + 9 < 65536" and l: "l \<noteq> 0"
    and res: "res \<noteq> []" "length res < 2 ^ 31" "length res + 4 \<le> length out" and h: "no_oom h" "heap_ok h"
  shows "\<exists>c'. sign_signTransaction (Some (frame index tx @ pad)) l (Some out) ol dl sid h n =
      Some (0, Some (res_frame res @ drop (length res + 4) out), word_of_nat (length res + 4), heap_signed h,
        n\<lparr>net_calls := Suc (net_calls n), net_log := net_log n @ [c']\<rparr>) \<and>
    outq c' = sign_request sid index tx \<and> inq c' = []"
proof -
  have h1: "no_oom (alloc 1 h)" "calls (alloc 1 h) = Suc (calls h)" using h by (simp_all add: alloc_def)
  have t: "length tx < 2 ^ 31" using tx by simp
  obtain c' where c': "tcp_sign_tx sid index (Some tx) (len64 tx) (alloc 1 h) n =
      Some (0, Ptr (Suc (calls h)) res, len64 res, alloc 1 (alloc 1 h), n\<lparr>net_calls := Suc (net_calls n), net_log := net_log n @ [c']\<rparr>)"
    "outq c' = sign_request sid index tx" "inq c' = []"
    using tcp_sign_tx_ok [OF a tx(1) t res(1,2) h1(1)] h1(2) by auto
  have w: "(ucast (word_of_nat (length tx) :: u32) :: u64) = len64 tx" "(ucast (len64 res :: u64) :: u32) = word_of_nat (length res)"
    using tx res by (simp_all add: ucast_u32_u64 word_unat_eq_iff unsigned_ucast_eq unat_of_nat take_bit_eq_mod)
  have b: "as_buf (Ptr (calls h) tx) (alloc 1 h) = Some (Some tx)" by (simp add: as_buf_def alloc_def)
  have "Suc (calls h) \<in> live (heap_signed h)" by simp
  then have g: "gen_res_data (Ptr (Suc (calls h)) res) (word_of_nat (length res)) (Some out) 0 (heap_signed h) =
      Some (0, Some (res_frame res @ drop (length res + 4) out), word_of_nat (length res + 4))"
    using res by (simp add: gen_res_data_frame res_frame_def)
  show ?thesis
    using parse_data_frame [OF tx(2) l h(1), of index pad] l c' b w g free_first_alloc [OF h(2)]
    by (intro exI [of _ c']) (simp add: sign_signTransaction_def)
qed

text \<open>A node that cannot be reached.\<close>

definition unreachable :: "net \<Rightarrow> nat \<Rightarrow> bool"
  where "unreachable n k \<longleftrightarrow> net_sock n k = -1 \<or> net_peer n k = None"

lemma dial_unreachable:
  assumes "unreachable n (net_calls n)"
  obtains fds where "dial n = (None, n\<lparr>net_calls := Suc (net_calls n), net_open := fds\<rparr>)"
proof (cases "net_sock n (net_calls n) = -1")
  case True
  then have "dial n = (None, n\<lparr>net_calls := Suc (net_calls n), net_open := net_open n\<rparr>)" by (simp add: dial_def)
  then show ?thesis by (rule that)
next
  case False
  with assms have "dial n = (None, n\<lparr>net_calls := Suc (net_calls n), net_open := net_sock n (net_calls n) # net_open n\<rparr>)"
    by (simp add: dial_def unreachable_def Let_def)
  then show ?thesis by (rule that)
qed

lemma sign_signTransaction_refused:
  assumes a: "unreachable n (net_calls n)" and tx: "length tx + 9 < 65536" and l: "l \<noteq> 0" and h: "no_oom h" "heap_ok h"
  shows "\<exists>fds. sign_signTransaction (Some (frame index tx @ pad)) l (Some out) ol dl sid h n =
    Some (-1, Some out, dl, heap_refused h, if tx = [] then n else n\<lparr>net_calls := Suc (net_calls n), net_open := fds\<rparr>)"
proof -
  have b: "as_buf (Ptr (calls h) tx) (alloc 1 h) = Some (Some tx)" by (simp add: as_buf_def alloc_def)
  have "(len64 tx :: u64) = 0 \<longleftrightarrow> tx = []" using tx len64_ne_0 [of tx] by auto
  moreover have "(ucast (word_of_nat (length tx) :: u32) :: u64) = len64 tx" using tx by (simp add: ucast_u32_u64)
  moreover obtain fds where "dial n = (None, n\<lparr>net_calls := Suc (net_calls n), net_open := fds\<rparr>)"
    by (rule dial_unreachable [OF a])
  ultimately show ?thesis
    using parse_data_frame [OF tx l h(1), of index pad] l b free_first_alloc [OF h(2)]
    by (auto simp: sign_signTransaction_def tcp_sign_tx_def)
qed

end
