(* ===== verification/Tx_File_Correct.thy ===== *)
theory Tx_File_Correct
  imports Tx_File Sign_Data_Correct Keystore_Store
begin

text \<open>Files on a disk that works, the format of the two kinds of files, and the functions on them.\<close>

section \<open>A disk that works\<close>

definition disk_ok :: "os \<Rightarrow> bool"
  where "disk_ok s \<longleftrightarrow> (\<forall>n. \<exists>k. io_max s n = Some k \<and> 2 ^ 32 \<le> k)"

abbreviation steps :: "os \<Rightarrow> nat \<Rightarrow> os"
  where "steps s k \<equiv> s\<lparr>io_calls := k\<rparr>"

lemma disk_ok_upd [simp]:
  "disk_ok (s\<lparr>io_calls := n\<rparr>) = disk_ok s" "disk_ok (s\<lparr>files := f\<rparr>) = disk_ok s" "disk_ok (s\<lparr>hp := h\<rparr>) = disk_ok s"
  "disk_ok (s\<lparr>dirs := d\<rparr>) = disk_ok s"
  by (simp_all add: disk_ok_def)

lemma io_step_disk:
  assumes "disk_ok s"
  obtains k where "2 ^ 32 \<le> k" "io_step s = (Some k, steps s (Suc (io_calls s)))"
  using assms by (auto simp: disk_ok_def io_step_def)

lemma open_existing_disk:
  assumes "disk_ok s" "files s p = Some f"
  shows "open_existing p s = (Some \<lparr>fd_path = p, fd_off = 0\<rparr>, steps s (Suc (io_calls s)))"
proof -
  obtain k where "io_step s = (Some k, steps s (Suc (io_calls s)))" using assms(1) by (rule io_step_disk)
  then show ?thesis using assms(2) by (auto simp: open_existing_def)
qed

lemma overlay_0: "length d = length x \<Longrightarrow> overlay 0 d x = d"
  by (cases "d = []") (simp_all add: overlay_def)

text \<open>The part \<^verbatim>\<open>d\<close> of a file \<^verbatim>\<open>pre @ d @ post\<close>.\<close>

lemma read_fd_disk:
  assumes s: "disk_ok s" and f: "files s p = Some (pre @ d @ post)" and l: "length d < 2 ^ 32"
  shows "read_fd \<lparr>fd_path = p, fd_off = length pre\<rparr> (length d) s =
    (Some d, \<lparr>fd_path = p, fd_off = length pre + length d\<rparr>, steps s (Suc (io_calls s)))"
proof -
  obtain k where k: "2 ^ 32 \<le> k" "io_step s = (Some k, steps s (Suc (io_calls s)))" using s by (rule io_step_disk)
  then have m: "min k (length d) = length d" using l by simp
  show ?thesis using k(2) f by (simp only: read_fd_def m prod.case option.case) (simp add: Let_def)
qed

lemma read_into_disk:
  assumes "disk_ok s" "files s p = Some f" "f = pre @ d @ post" "length pre = n" "length d = length x" "length x < 2 ^ 32"
  shows "read_into \<lparr>fd_path = p, fd_off = n\<rparr> x s =
    (int (length x), d, \<lparr>fd_path = p, fd_off = n + length x\<rparr>, steps s (Suc (io_calls s)))"
  using read_fd_disk [of s p pre d post] assms by (simp add: read_into_def overlay_0)

lemma write_all_disk:
  assumes s: "disk_ok s" and f: "files s p = Some f" and l: "length d < 2 ^ 32"
  shows "write_all \<lparr>fd_path = p, fd_off = n\<rparr> d s =
    (int (length d), \<lparr>fd_path = p, fd_off = n + length d\<rparr>,
     s\<lparr>io_calls := Suc (io_calls s), files := (files s)(p \<mapsto> overlay n d f)\<rparr>)"
proof -
  obtain k where k: "2 ^ 32 \<le> k" "io_step s = (Some k, steps s (Suc (io_calls s)))" using s by (rule io_step_disk)
  then have m: "take k d = d" using l by simp
  show ?thesis using k(2) f by (simp only: write_all_def write_fd_def m prod.case option.case) (simp add: Let_def m)
qed

lemma overlay_mid:
  assumes "length pre = n" "length d = length old"
  shows "overlay n d (pre @ old @ post) = pre @ d @ post"
  using assms by (cases "d = []") (simp_all add: overlay_def)

lemma open_create_disk:
  assumes "disk_ok s" "dirname p \<in> dirs s" "p \<notin> dom (files s)"
  shows "open_create p s = (Some \<lparr>fd_path = p, fd_off = 0\<rparr>, s\<lparr>io_calls := Suc (io_calls s), files := (files s)(p \<mapsto> [])\<rparr>)"
proof -
  obtain k where "io_step s = (Some k, steps s (Suc (io_calls s)))" using assms(1) by (rule io_step_disk)
  then show ?thesis using assms(2,3) by (auto simp: open_create_def)
qed

lemma access_file: "p \<in> dom (files s) \<Longrightarrow> access p s = 0"
  by (simp add: access_def)

lemma seek_small:
  assumes "m < 2 ^ 31"
  shows "seek \<lparr>fd_path = p, fd_off = n\<rparr> (word_of_nat m) = Some \<lparr>fd_path = p, fd_off = m\<rparr>"
proof -
  have "unat (word_of_nat m :: u32) = m" using assms by (simp add: unat_of_nat take_bit_nat_eq_self)
  moreover have "0 \<le> sint (word_of_nat m :: u32)"
    using assms by (simp add: sint_small32)
  ultimately show ?thesis by (simp add: seek_def)
qed

lemma steps_ex [simp]:
  "\<exists>k. s\<lparr>io_calls := n\<rparr> = s\<lparr>io_calls := k\<rparr>" "\<exists>k. s\<lparr>io_calls := n, files := f\<rparr> = s\<lparr>io_calls := k, files := f\<rparr>"
  by blast+

lemma steps_ex' [simp]:
  "\<exists>k. s = s\<lparr>io_calls := k\<rparr>" "\<exists>k. s\<lparr>files := f, io_calls := n\<rparr> = s\<lparr>io_calls := k, files := f\<rparr>"
  by (rule exI [of _ "io_calls s"], simp) (rule exI [of _ n], simp)

section \<open>The formats\<close>

type_synonym item = "byte list \<times> byte list"

definition enc_item :: "item \<Rightarrow> byte list"
  where "enc_item e = fst e @ u32_le (word_of_nat (length (snd e))) @ snd e"

definition enc_items :: "item list \<Rightarrow> byte list"
  where "enc_items es = concat (map enc_item es)"

definition tx_file :: "u32 \<Rightarrow> byte list \<Rightarrow> byte list \<Rightarrow> item list \<Rightarrow> byte list" where
  "tx_file sid check gap txs = u32_le sid @ check @ u32_le (word_of_nat (length txs)) @ gap @ enc_items txs"

definition res_file :: "u32 \<Rightarrow> item list \<Rightarrow> byte list" where
  "res_file sid es = u32_le sid @ u64_le (word_of_nat (length (enc_items es))) @ u32_le (word_of_nat (length es)) @ enc_items es"

definition wf_items :: "item list \<Rightarrow> bool"
  where "wf_items es \<longleftrightarrow> (\<forall>e\<in>set es. length (fst e) = 32 \<and> length (snd e) < 2 ^ 31)"

lemma length_enc_item [simp]: "length (fst e) = 32 \<Longrightarrow> length (enc_item e) = length (snd e) + 36"
  by (simp add: enc_item_def)

lemma enc_items_simps [simp]:
  "enc_items [] = []" "enc_items (e # es) = enc_item e @ enc_items es" "enc_items (xs @ ys) = enc_items xs @ enc_items ys"
  by (simp_all add: enc_items_def)

lemma wf_items_simps [simp]:
  "wf_items []" "wf_items (e # es) \<longleftrightarrow> length (fst e) = 32 \<and> length (snd e) < 2 ^ 31 \<and> wf_items es"
  "wf_items (xs @ ys) \<longleftrightarrow> wf_items xs \<and> wf_items ys"
  by (auto simp: wf_items_def)

section \<open>Writing results\<close>

definition res_head :: "u32 \<Rightarrow> nat \<Rightarrow> nat \<Rightarrow> byte list"
  where "res_head sid tot n = u32_le sid @ u64_le (word_of_nat tot) @ u32_le (word_of_nat n)"

lemma res_file_head: "res_file sid es = res_head sid (length (enc_items es)) (length es) @ enc_items es"
  by (simp add: res_file_def res_head_def)

lemma length_res_head [simp]: "length (res_head sid tot n) = 16"
  by (simp add: res_head_def)

lemma overlay_at_end: "n = length f \<Longrightarrow> overlay n d f = f @ d"
  by (simp add: overlay_def)

lemma res_open_new:
  assumes "disk_ok s" "dirname p \<in> dirs s" "p \<notin> dom (files s)" "p \<notin> dirs s"
  shows "\<exists>k. res_open sid p s = (Some \<lparr>fd_path = p, fd_off = 16\<rparr>,
    s\<lparr>io_calls := k, files := (files s)(p \<mapsto> res_head sid 0 0)\<rparr>)"
  using assms
  by (simp add: res_open_def access_def open_create_disk write_all_disk overlay_at_end res_head_def)

lemma res_open_old:
  assumes "disk_ok s" "files s p = Some f"
  shows "res_open sid p s = (Some \<lparr>fd_path = p, fd_off = length f\<rparr>, steps s (Suc (io_calls s)))"
  using assms open_existing_disk [OF assms] by (simp add: res_open_def access_def dom_def)

lemma res_entry_ok:
  assumes "disk_ok s" "files s p = Some f" "length i = 32" "length d < 2 ^ 31" "b = Some (d @ pad) \<or> d = []"
  shows "\<exists>k. res_entry \<lparr>fd_path = p, fd_off = length f\<rparr> i b (word_of_nat (length d)) s =
    Some (0, s\<lparr>io_calls := k, files := (files s)(p \<mapsto> f @ enc_item (i, d))\<rparr>)"
proof -
  have u: "unat (word_of_nat (length d) :: u32) = length d" "(word_of_nat (length d) :: u32) = 0 \<longleftrightarrow> d = []"
    using assms(4) by (auto simp: unat_of_nat take_bit_nat_eq_self simp flip: unat_eq_0)
  show ?thesis using assms u by (auto simp: res_entry_def write_all_disk overlay_at_end enc_item_def rd_app)
qed

lemma res_update_any:
  assumes s: "disk_ok s" "files s p = Some (u32_le sid @ u64_le T @ u32_le N @ body)"
    and w: "T + ucast l + 32 + 4 = T'" "N + 1 = N'"
  shows "\<exists>k. res_update l p s =
    (0, s\<lparr>io_calls := k, files := (files s)(p \<mapsto> u32_le sid @ u64_le T' @ u32_le N' @ body)\<rparr>)"
proof -
  have w': "36 + (T + ucast l) = T'" "1 + N = N'" using w by (simp_all add: ac_simps)
  have o1: "overlay 4 (u64_le T') (u32_le sid @ u64_le T @ u32_le N @ body) = u32_le sid @ u64_le T' @ u32_le N @ body"
    by (subst overlay_mid) simp_all
  have o2: "overlay 12 (u32_le N') (u32_le sid @ u64_le T' @ u32_le N @ body) = u32_le sid @ u64_le T' @ u32_le N' @ body"
    using overlay_mid [of "u32_le sid @ u64_le T'" 12 "u32_le N'" "u32_le N" body] by simp
  have r1: "read_into \<lparr>fd_path = p, fd_off = 4\<rparr> (u64_le 0) s' = (8, u64_le T, \<lparr>fd_path = p, fd_off = 12\<rparr>, steps s' (Suc (io_calls s')))"
    if "disk_ok s'" "files s' p = Some (u32_le sid @ u64_le T @ u32_le N @ body)" for s'
    using read_into_disk [OF that refl, of 4 "u64_le 0"] by simp
  have r2: "read_into \<lparr>fd_path = p, fd_off = 12\<rparr> (u32_le 0) s' = (4, u32_le N, \<lparr>fd_path = p, fd_off = 16\<rparr>, steps s' (Suc (io_calls s')))"
    if "disk_ok s'" "files s' p = Some (u32_le sid @ u64_le T' @ u32_le N @ body)" for s'
    using read_into_disk [OF that, of "u32_le sid @ u64_le T'" "u32_le N" body 12 "u32_le 0"] by simp
  show ?thesis
    using s r1 r2 o1 o2 w'
    by (simp add: res_update_def open_existing_disk write_all_disk wire_simps add.commute)
qed

lemma res_update_ok:
  assumes s: "disk_ok s" "files s p = Some (res_head sid tot n @ body)" and l: "length d < 2 ^ 31"
  shows "\<exists>k. res_update (word_of_nat (length d)) p s =
    (0, s\<lparr>io_calls := k, files := (files s)(p \<mapsto> res_head sid (tot + (length d + 36)) (Suc n) @ body)\<rparr>)"
  using res_update_any [of s p sid "word_of_nat tot" "word_of_nat n" body "word_of_nat (length d)"] s l
  by (simp add: res_head_def ucast_u32_u64 ac_simps)

section \<open>Reading transactions\<close>

definition wf_txs :: "byte list \<Rightarrow> byte list \<Rightarrow> item list \<Rightarrow> bool" where
  "wf_txs check gap txs \<longleftrightarrow> length check = 16 \<and> length gap = 4 \<and> txs \<noteq> [] \<and> length txs \<le> 10 \<and> wf_items txs \<and>
     length (enc_items txs) + 28 < 2 ^ 31"

text \<open>The variables when \<^verbatim>\<open>k\<close> transactions have been dealt with.\<close>

definition reading :: "parse_state \<Rightarrow> u32 \<Rightarrow> item list \<Rightarrow> nat \<Rightarrow> bool" where
  "reading g sid txs k \<longleftrightarrow>
     curFile g = \<lparr>tf_server_id = sid, txs_num = word_of_nat (length txs), txs_remain = word_of_nat (length txs - k)\<rparr> \<and>
     nextTx g = (if k < length txs
       then \<lparr>tx_id = fst (txs ! k), aes_offset = word_of_nat (64 + length (enc_items (take k txs))),
             aes_length = word_of_nat (length (snd (txs ! k)))\<rparr>
       else zero_next)"

lemma tx_file_split:
  assumes "k < length txs"
  shows "tx_file sid check gap txs = (u32_le sid @ check @ u32_le (word_of_nat (length txs)) @ gap @ enc_items (take k txs)) @
    fst (txs ! k) @ u32_le (word_of_nat (length (snd (txs ! k)))) @ snd (txs ! k) @ enc_items (drop (Suc k) txs)"
proof -
  have "enc_items txs = enc_items (take k txs @ txs ! k # drop (Suc k) txs)"
    using id_take_nth_drop [OF assms] by simp
  then show ?thesis by (simp add: tx_file_def enc_item_def)
qed

lemma parse_parseTxFile_ok:
  assumes s: "disk_ok s" "files s p = Some (tx_file sid check gap txs)" and wf: "wf_txs check gap txs"
  shows "\<exists>g' k. parse_parseTxFile p g s = (0, g', steps s k) \<and> reading g' sid txs 0"
proof -
  let ?n = "u32_le (word_of_nat (length txs))" and ?l = "u32_le (word_of_nat (length (snd (txs ! 0))))"
  let ?r = "snd (txs ! 0) @ enc_items (drop 1 txs)" and ?i = "fst (txs ! 0)"
  have l: "length check = 16" "length gap = 4" "length ?i = 32" "0 < length txs" "length txs \<le> 10"
    using wf by (auto simp: wf_txs_def wf_items_def)
  have f: "tx_file sid check gap txs = u32_le sid @ check @ ?n @ gap @ ?i @ ?l @ ?r"
    using tx_file_split [OF l(4)] by simp
  have s': "disk_ok s'" "files s' p = Some (tx_file sid check gap txs)" if "s' = steps s k" for s' k
    using s that by simp_all
  have r1: "read_into \<lparr>fd_path = p, fd_off = 0\<rparr> (u32_le 0) (steps s k) =
      (4, u32_le sid, \<lparr>fd_path = p, fd_off = 4\<rparr>, steps s (Suc k))" for k
    using read_into_disk [OF s' [OF refl], of "[]" "u32_le sid" "check @ ?n @ gap @ ?i @ ?l @ ?r" 0 "u32_le 0" k] f by simp
  have r2: "read_into \<lparr>fd_path = p, fd_off = 20\<rparr> (u32_le 0) (steps s k) =
      (4, ?n, \<lparr>fd_path = p, fd_off = 24\<rparr>, steps s (Suc k))" for k
    using read_into_disk [OF s' [OF refl], of "u32_le sid @ check" ?n "gap @ ?i @ ?l @ ?r" 20 "u32_le 0" k] f l by simp
  have r3: "read_into \<lparr>fd_path = p, fd_off = 28\<rparr> (replicate 32 0) (steps s k) =
      (32, ?i, \<lparr>fd_path = p, fd_off = 60\<rparr>, steps s (Suc k))" for k
    using read_into_disk [OF s' [OF refl], of "u32_le sid @ check @ ?n @ gap" ?i "?l @ ?r" 28 "replicate 32 0" k] f l by simp
  have r4: "read_into \<lparr>fd_path = p, fd_off = 60\<rparr> (u32_le 0) (steps s k) =
      (4, ?l, \<lparr>fd_path = p, fd_off = 64\<rparr>, steps s (Suc k))" for k
    using read_into_disk [OF s' [OF refl], of "u32_le sid @ check @ ?n @ gap @ ?i" ?l ?r 60 "u32_le 0" k] f l by simp
  have n: "\<not> 10 < (word_of_nat (length txs) :: u32)"
    using l(5) by (simp add: word_less_nat_alt unat_u32_len)
  have "txs \<noteq> []" using l(4) by auto
  then show ?thesis
    using r1 r2 r3 r4 n s(2) open_existing_disk [OF s]
    by (simp add: parse_parseTxFile_def access_def dom_def parseInit_def Let_def wire_simps reading_def zero_file_def zero_next_def)
qed

lemma unat_tx_len: "wf_txs check gap txs \<Longrightarrow> k < length txs \<Longrightarrow> unat (word_of_nat (length (snd (txs ! k))) :: u32) = length (snd (txs ! k))"
  by (rule unat_u32_len, rule less_trans [of _ "2 ^ 31"]) (simp_all add: wf_txs_def wf_items_def)

lemma items_bound:
  assumes "wf_txs check gap txs" "k < length txs"
  shows "64 + length (enc_items (take k txs)) + length (snd (txs ! k)) \<le> 28 + length (enc_items txs)"
proof -
  have "length (fst (txs ! k)) = 32" using assms by (simp add: wf_txs_def wf_items_def)
  moreover have "enc_items txs = enc_items (take k txs @ txs ! k # drop (Suc k) txs)"
    using id_take_nth_drop [OF assms(2)] by simp
  ultimately show ?thesis by simp
qed

lemma parse_getNextTx_ok:
  assumes s: "disk_ok s" "files s p = Some (tx_file sid check gap txs)" and wf: "wf_txs check gap txs"
    and g: "reading g sid txs k" "k < length txs"
    and b: "length (snd (txs ! k)) \<le> length b" "aes_length (nextTx g) \<le> l"
  shows "\<exists>m. parse_getNextTx p (Some b) l g s = Some (0, Some (snd (txs ! k) @ drop (length (snd (txs ! k))) b), steps s m)"
proof -
  let ?d = "snd (txs ! k)" and ?m = "64 + length (enc_items (take k txs))"
  have l: "length check = 16" "length gap = 4" "length (fst (txs ! k)) = 32" "length txs \<le> 10"
    "length ?d < 2 ^ 31" "?m < 2 ^ 31"
    using wf g(2) items_bound [OF wf g(2)] by (auto simp: wf_txs_def wf_items_def)
  let ?pre = "(u32_le sid @ check @ u32_le (word_of_nat (length txs)) @ gap @ enc_items (take k txs)) @
     fst (txs ! k) @ u32_le (word_of_nat (length ?d))"
  have "read_fd \<lparr>fd_path = p, fd_off = ?m\<rparr> (length ?d) (steps s i) =
      (Some ?d, \<lparr>fd_path = p, fd_off = ?m + length ?d\<rparr>, steps s (Suc i))" for i
    using read_fd_disk [of "steps s i" p ?pre ?d "enc_items (drop (Suc k) txs)"] s l tx_file_split [OF g(2), of sid check gap] by simp
  moreover have "sint (word_of_nat (length ?d) :: u32) = int (length ?d)" using l(5) by (rule sint_small32)
  ultimately have r: "read_fd32 \<lparr>fd_path = p, fd_off = ?m\<rparr> (word_of_nat (length ?d)) (steps s i) =
      (Some ?d, \<lparr>fd_path = p, fd_off = ?m + length ?d\<rparr>, steps s (Suc i))" for i
    using unat_tx_len [OF wf g(2)] by (simp add: read_fd32_def)
  have n: "nextTx g = \<lparr>tx_id = fst (txs ! k), aes_offset = word_of_nat ?m, aes_length = word_of_nat (length ?d)\<rparr>"
    "txs_remain (curFile g) = word_of_nat (length txs - k)"
    using g by (simp_all add: reading_def)
  have "unat (word_of_nat (length txs - k) :: u32) = length txs - k" using l(4) by (simp add: unat_u32_len)
  then have z: "txs_remain (curFile g) \<noteq> 0" using g(2) n(2) by (auto simp del: of_nat_diff simp flip: unat_eq_0)
  have w: "wr 0 ?d b = Some (?d @ drop (length ?d) b)" using b(1) by (rule wr_0)
  have a: "access p s = 0" using s(2) by (simp add: access_def dom_def)
  have ge: "getAesData p b l g s = Some (0, ?d @ drop (length ?d) b, steps s (Suc (Suc (io_calls s))))"
    unfolding getAesData_def n(1) next_tx_info.simps
    using b(2) n(1) r w seek_small [OF l(6)] open_existing_disk [OF s] by (simp add: not_less)
  show ?thesis using z a ge by (auto simp: parse_getNextTx_def)
qed

lemma res_advance_ok:
  assumes s: "disk_ok s" "files s p = Some (tx_file sid check gap txs)" and wf: "wf_txs check gap txs"
    and g: "reading g sid txs k" "k < length txs"
  shows "\<exists>g' m. res_advance p g s = (0, g', steps s m) \<and> reading g' sid txs (Suc k)"
proof -
  have n: "curFile g = \<lparr>tf_server_id = sid, txs_num = word_of_nat (length txs), txs_remain = word_of_nat (length txs - k)\<rparr>"
    "nextTx g = \<lparr>tx_id = fst (txs ! k), aes_offset = word_of_nat (64 + length (enc_items (take k txs))),
       aes_length = word_of_nat (length (snd (txs ! k)))\<rparr>"
    using g by (simp_all add: reading_def)
  have r: "(word_of_nat (length txs - k) - 1 :: u32) = word_of_nat (length txs - Suc k)"
    using g(2) by (simp add: Suc_diff_Suc [symmetric] del: Suc_diff_Suc)
  have l10: "length txs \<le> 10" using wf by (simp add: wf_txs_def)
  then have z: "(word_of_nat (length txs - Suc k) :: u32) = 0 \<longleftrightarrow> length txs = Suc k"
    using g(2) unat_u32_len [of "length txs - Suc k"] by (auto simp del: of_nat_diff simp flip: unat_eq_0)
  show ?thesis
  proof (cases "length txs = Suc k")
    case True
    then show ?thesis using n r z by (auto simp: res_advance_def Let_def reading_def simp del: of_nat_diff)
  next
    case False
    then have k: "Suc k < length txs" using g(2) by simp
    let ?i = "fst (txs ! Suc k)" and ?l = "u32_le (word_of_nat (length (snd (txs ! Suc k))))"
    let ?pre = "u32_le sid @ check @ u32_le (word_of_nat (length txs)) @ gap @ enc_items (take (Suc k) txs)"
    let ?post = "snd (txs ! Suc k) @ enc_items (drop (Suc (Suc k)) txs)"
    let ?m = "28 + length (enc_items (take (Suc k) txs))"
    have l: "length check = 16" "length gap = 4" "length ?i = 32" "length (fst (txs ! k)) = 32" "?m + 36 < 2 ^ 31"
      using wf g(2) k items_bound [OF wf k] by (auto simp: wf_txs_def wf_items_def)
    have t: "take (Suc k) txs = take k txs @ [txs ! k]" using g(2) by (rule take_Suc_conv_app_nth)
    have o: "(word_of_nat (64 + length (enc_items (take k txs))) + word_of_nat (length (snd (txs ! k))) :: u32) = word_of_nat ?m"
      "(word_of_nat ?m + 32 :: u32) = word_of_nat (?m + 32)"
      "(word_of_nat (?m + 32) + 4 :: u32) = word_of_nat (64 + length (enc_items (take (Suc k) txs)))"
      using l(4) by (simp_all add: t)
    have f: "tx_file sid check gap txs = ?pre @ ?i @ ?l @ ?post" using tx_file_split [OF k] by simp
    have r1: "read_into \<lparr>fd_path = p, fd_off = ?m\<rparr> (fst (txs ! k)) (steps s j) =
        (32, ?i, \<lparr>fd_path = p, fd_off = ?m + 32\<rparr>, steps s (Suc j))" for j
      using read_into_disk [of "steps s j" p "tx_file sid check gap txs" ?pre ?i "?l @ ?post" ?m "fst (txs ! k)"] s f l by simp
    have r2: "read_into \<lparr>fd_path = p, fd_off = ?m + 32\<rparr> (u32_le 0) (steps s j) =
        (4, ?l, \<lparr>fd_path = p, fd_off = ?m + 36\<rparr>, steps s (Suc j))" for j
      using read_into_disk [of "steps s j" p "tx_file sid check gap txs" "?pre @ ?i" ?l ?post "?m + 32" "u32_le 0"] s f l by simp
    have sk: "seek \<lparr>fd_path = p, fd_off = j\<rparr> (word_of_nat ?m) = Some \<lparr>fd_path = p, fd_off = ?m\<rparr>"
      "seek \<lparr>fd_path = p, fd_off = j\<rparr> (word_of_nat (?m + 32)) = Some \<lparr>fd_path = p, fd_off = ?m + 32\<rparr>" for j
      using l(5) by (simp_all only: seek_small)
    let ?c = "\<lparr>tf_server_id = sid, txs_num = word_of_nat (length txs), txs_remain = word_of_nat (length txs - Suc k)\<rparr>"
    have "moveToNextTx p \<lparr>curFile = ?c, nextTx = nextTx g\<rparr> s = (0, \<lparr>curFile = ?c, nextTx = \<lparr>tx_id = ?i,
        aes_offset = word_of_nat (64 + length (enc_items (take (Suc k) txs))),
        aes_length = word_of_nat (length (snd (txs ! Suc k)))\<rparr>\<rparr>, steps s (Suc (Suc (Suc (io_calls s)))))"
      unfolding moveToNextTx_def open_existing_disk [OF s] Let_def n(2) parse_state.simps next_tx_info.simps
        prod.case option.case o sk r1 r2
      by (simp add: wire_simps)
    moreover have "g\<lparr>curFile := curFile g\<lparr>txs_remain := txs_remain (curFile g) - 1\<rparr>\<rparr> = \<lparr>curFile = ?c, nextTx = nextTx g\<rparr>"
      using n(1) r by (cases g) (simp del: of_nat_diff)
    moreover have "reading \<lparr>curFile = ?c, nextTx = \<lparr>tx_id = ?i, aes_offset = word_of_nat (64 + length (enc_items (take (Suc k) txs))),
        aes_length = word_of_nat (length (snd (txs ! Suc k)))\<rparr>\<rparr> sid txs (Suc k)"
      using k by (simp add: reading_def)
    moreover have "txs_remain ?c \<noteq> 0" using z False by (simp del: of_nat_diff)
    ultimately show ?thesis unfolding res_advance_def Let_def by auto
  qed
qed

text \<open>The result file after the results \<^verbatim>\<open>es\<close>: it is made with the first one.\<close>

definition res_at :: "os \<Rightarrow> byte list \<Rightarrow> u32 \<Rightarrow> item list \<Rightarrow> bool" where
  "res_at s p sid es \<longleftrightarrow> dirname p \<in> dirs s \<and>
     (if es = [] then p \<notin> dom (files s) \<and> p \<notin> dirs s else files s p = Some (res_file sid es))"

lemma parse_writeToResFile_ok:
  assumes s: "disk_ok s" "files s p = Some (tx_file sid check gap txs)" and wf: "wf_txs check gap txs"
    and g: "reading g sid txs k" "k < length txs"
    and q: "res_at s q sid es" "q \<noteq> p" and d: "length d < 2 ^ 31" "b = Some (d @ pad) \<or> d = []"
  shows "\<exists>g' m. parse_writeToResFile sid b (word_of_nat (length d)) p q g s =
      Some (0, g', s\<lparr>io_calls := m, files := (files s)(q \<mapsto> res_file sid (es @ [(fst (txs ! k), d)]))\<rparr>) \<and>
    reading g' sid txs (Suc k)"
proof -
  let ?h = "res_head sid (length (enc_items es)) (length es)" and ?e = "enc_item (fst (txs ! k), d)"
  let ?f = "\<lambda>x. (files s)(q \<mapsto> x)"
  obtain m1 where o: "res_open sid q s = (Some \<lparr>fd_path = q, fd_off = length (?h @ enc_items es)\<rparr>,
      s\<lparr>io_calls := m1, files := ?f (?h @ enc_items es)\<rparr>)"
  proof (cases "es = []")
    case True
    then show ?thesis using res_open_new [OF s(1), of q sid] q(1) that by (auto simp: res_at_def)
  next
    case False
    then have "files s q = Some (?h @ enc_items es)" using q(1) by (simp add: res_at_def res_file_head)
    moreover from this have "?f (?h @ enc_items es) = files s" by auto
    ultimately show ?thesis using res_open_old [OF s(1), of q "?h @ enc_items es" sid] that by simp
  qed
  have i: "length (fst (txs ! k)) = 32" using wf g(2) by (simp add: wf_txs_def wf_items_def)
  let ?s1 = "s\<lparr>io_calls := m1, files := ?f (?h @ enc_items es)\<rparr>"
  obtain m2 where e: "res_entry \<lparr>fd_path = q, fd_off = length (?h @ enc_items es)\<rparr> (fst (txs ! k)) b (word_of_nat (length d)) ?s1 =
      Some (0, s\<lparr>io_calls := m2, files := ?f (?h @ enc_items es @ ?e)\<rparr>)"
    using res_entry_ok [of ?s1 q "?h @ enc_items es" "fst (txs ! k)" d b pad] s(1) i d by auto
  let ?s2 = "s\<lparr>io_calls := m2, files := ?f (?h @ enc_items es @ ?e)\<rparr>"
  have "res_head sid (length (enc_items es) + (length d + 36)) (Suc (length es)) @ enc_items es @ ?e =
      res_file sid (es @ [(fst (txs ! k), d)])"
    using i by (simp add: res_file_head)
  then obtain m3 where u: "res_update (word_of_nat (length d)) q ?s2 =
      (0, s\<lparr>io_calls := m3, files := ?f (res_file sid (es @ [(fst (txs ! k), d)]))\<rparr>)"
    using res_update_ok [of ?s2 q sid "length (enc_items es)" "length es" "enc_items es @ ?e" d] s(1) d(1) by auto
  let ?s3 = "s\<lparr>io_calls := m3, files := ?f (res_file sid (es @ [(fst (txs ! k), d)]))\<rparr>"
  obtain g' m4 where a: "res_advance p g ?s3 = (0, g', steps ?s3 m4)" "reading g' sid txs (Suc k)"
    using res_advance_ok [of ?s3 p sid check gap txs g k] s wf g q(2) by auto
  have "tx_id (nextTx g) = fst (txs ! k)" using g by (simp add: reading_def)
  moreover have "b \<noteq> None \<or> (word_of_nat (length d) :: u32) = 0" using d(2) by auto
  moreover have "access p s = 0" using s(2) by (simp add: access_def dom_def)
  ultimately show ?thesis using o e u a by (auto simp: parse_writeToResFile_def)
qed

end
