(* ===== verification/Server_List_Correct.thy ===== *)
theory Server_List_Correct
  imports Tx_File_Correct
begin

text \<open>The list of servers on a disk that works: what the functions of the interface return and leave.\<close>

lemma length_take_4 [simp]: "4 \<le> length f \<Longrightarrow> length (take 4 f) = 4"
  by simp

definition info_ok :: "server_info \<Rightarrow> bool"
  where "info_ok i \<longleftrightarrow> length (server_secret i) = 16 \<and> length (server_pad i) = 4"

lemma length_info_bytes [simp]: "info_ok i \<Longrightarrow> length (info_bytes i) = 40"
  by (simp add: info_ok_def info_bytes_def)

lemma info_of_bytes [simp]: "info_ok i \<Longrightarrow> info_of (info_bytes i) = i"
  by (simp add: info_ok_def info_bytes_def info_of_def wire_simps)

lemma info_ok_simps [simp]:
  "info_ok zero_info" "info_ok (i\<lparr>server_counter := c\<rparr>) = info_ok i" "info_ok (i\<lparr>server_id := n\<rparr>) = info_ok i"
  by (simp_all add: info_ok_def zero_info_def)

text \<open>The file: the structure of \<^verbatim>\<open>infos ! k\<close> is at position \<^verbatim>\<open>k\<close>; the first one holds the next number.\<close>

definition list_file :: "server_info list \<Rightarrow> byte list"
  where "list_file infos = concat (map info_bytes infos)"

definition wf_list :: "server_info list \<Rightarrow> bool" where
  "wf_list infos \<longleftrightarrow> infos \<noteq> [] \<and> (\<forall>i\<in>set infos. info_ok i) \<and> length infos * 40 < 2 ^ 31 \<and>
     server_id (hd infos) = word_of_nat (length infos) \<and> (\<forall>k<length infos. 0 < k \<longrightarrow> server_id (infos ! k) = word_of_nat k)"

definition servers :: "os \<Rightarrow> server_info list \<Rightarrow> bool"
  where "servers s infos \<longleftrightarrow> files s SERVERLISTPATH = Some (list_file infos) \<and> wf_list infos"

lemma length_list_file: "\<forall>i\<in>set infos. info_ok i \<Longrightarrow> length (list_file infos) = length infos * 40"
  by (induction infos) (simp_all add: list_file_def)

lemma list_file_split:
  assumes "k < length infos"
  shows "list_file infos = list_file (take k infos) @ info_bytes (infos ! k) @ list_file (drop (Suc k) infos)"
proof -
  have "list_file infos = list_file (take k infos @ infos ! k # drop (Suc k) infos)"
    using id_take_nth_drop [OF assms] by simp
  then show ?thesis by (simp add: list_file_def)
qed

lemma servers_parts:
  assumes "wf_list infos" "k < length infos"
  shows "length (list_file (take k infos)) = k * 40" "info_ok (infos ! k)" "k * 40 < 2 ^ 31"
proof -
  show "length (list_file (take k infos)) = k * 40"
    using assms by (subst length_list_file) (auto simp: wf_list_def dest: in_set_takeD)
qed (use assms in \<open>auto simp: wf_list_def\<close>)

lemma list_head:
  assumes "wf_list infos"
  shows "le_u32 (take 4 (take 40 (list_file infos))) = word_of_nat (length infos)"
proof -
  from assms obtain i r where i: "infos = i # r" by (cases infos) (auto simp: wf_list_def)
  then have "info_ok i" "server_id i = word_of_nat (length infos)" using assms by (auto simp: wf_list_def)
  then show ?thesis by (simp add: i list_file_def info_bytes_def wire_simps)
qed

lemma server_number:
  assumes "wf_list infos" "0 < k" "k < length infos"
  shows "(0 :: u32) < word_of_nat k" "(word_of_nat k :: u32) < word_of_nat (length infos)"
  using assms by (simp_all add: wf_list_def word_less_nat_alt unat_u32_len)

lemma validateId_servers:
  assumes s: "disk_ok s" "servers s infos" and k: "0 < k" "k < length infos"
  shows "validateId (word_of_nat k) s = Some (0, steps s (Suc (Suc (io_calls s))))"
proof -
  have f: "files s SERVERLISTPATH = Some (list_file infos)" and w: "wf_list infos" using s(2) by (simp_all add: servers_def)
  have l: "40 \<le> length (list_file infos)"
    using w k by (subst length_list_file) (auto simp: wf_list_def)
  then have "files s SERVERLISTPATH = Some ([] @ take 40 (list_file infos) @ drop 40 (list_file infos))" using f by simp
  then have "read_fd \<lparr>fd_path = SERVERLISTPATH, fd_off = 0\<rparr> 40 (steps s j) =
      (Some (take 40 (list_file infos)), \<lparr>fd_path = SERVERLISTPATH, fd_off = 40\<rparr>, steps s (Suc j))" for j
    using read_fd_disk [of "steps s j" SERVERLISTPATH "[]" "take 40 (list_file infos)" "drop 40 (list_file infos)"] s(1) l by simp
  then show ?thesis
    using open_existing_disk [OF s(1) f] list_head [OF w] server_number [OF w k] l
    by (simp add: validateId_def lseek_def)
qed

lemma seek_server:
  assumes "wf_list infos" "k < length infos"
  shows "seek \<lparr>fd_path = p, fd_off = n\<rparr> (word_of_nat k * 40) = Some \<lparr>fd_path = p, fd_off = k * 40\<rparr>"
  using seek_small [OF servers_parts(3) [OF assms], of p n] by simp

lemma getServerInfo_servers:
  assumes s: "disk_ok s" "servers s infos" and k: "k < length infos" and p: "info_ok p"
  shows "getServerInfo p (word_of_nat k) s = (0, infos ! k, steps s (Suc (Suc (io_calls s))))"
proof -
  have f: "files s SERVERLISTPATH = Some (list_file infos)" and w: "wf_list infos" using s(2) by (simp_all add: servers_def)
  note q = servers_parts [OF w k]
  have "read_into \<lparr>fd_path = SERVERLISTPATH, fd_off = k * 40\<rparr> (info_bytes p) (steps s j) =
      (40, info_bytes (infos ! k), \<lparr>fd_path = SERVERLISTPATH, fd_off = k * 40 + 40\<rparr>, steps s (Suc j))" for j
    using read_into_disk [of "steps s j" SERVERLISTPATH "list_file infos" _ _ _ "k * 40" "info_bytes p", OF _ _ list_file_split [OF k]]
      s(1) f p q by simp
  then show ?thesis
    using open_existing_disk [OF s(1) f] seek_server [OF w k] q(2)
    by (simp add: getServerInfo_def getServerBytes_def)
qed

lemma server_getServerInfo_ok:
  assumes s: "disk_ok s" "servers s infos" and k: "0 < k" "k < length infos" and p: "info_ok p"
  shows "\<exists>m. server_getServerInfo p (word_of_nat k) s = Some (0, infos ! k, steps s m)"
  using validateId_servers [OF s k] getServerInfo_servers [of "steps s _" infos k p] s k p
  by (simp add: server_getServerInfo_def servers_def)

lemma list_file_update:
  assumes "wf_list infos" "k < length infos" "info_ok i"
  shows "overlay (k * 40) (info_bytes i) (list_file infos) = list_file (infos[k := i])"
proof -
  have "list_file (infos[k := i]) = list_file (take k infos) @ info_bytes i @ list_file (drop (Suc k) infos)"
    using assms(2) by (simp add: upd_conv_take_nth_drop list_file_def)
  then show ?thesis
    using overlay_mid [OF servers_parts(1) [OF assms(1,2)], of "info_bytes i" "info_bytes (infos ! k)"] servers_parts(2) [OF assms(1,2)] assms(3)
    by (simp add: list_file_split [OF assms(2)])
qed

lemma wf_list_update:
  assumes "wf_list infos" "0 < k" "k < length infos" "info_ok i" "server_id i = word_of_nat k"
  shows "wf_list (infos[k := i])"
proof -
  have "hd (infos[k := i]) = hd infos" using assms(2) by (cases infos; cases k) auto
  then show ?thesis using assms by (auto simp: wf_list_def nth_list_update dest: subsetD [OF set_update_subset_insert])
qed

lemma server_setServerInfo_ok:
  assumes s: "disk_ok s" "servers s infos" and k: "0 < k" "k < length infos" and i: "info_ok i" "server_id i = word_of_nat k"
  shows "\<exists>m. server_setServerInfo i s = Some (0, s\<lparr>io_calls := m, files := (files s)(SERVERLISTPATH \<mapsto> list_file (infos[k := i]))\<rparr>) \<and>
    wf_list (infos[k := i])"
proof -
  have f: "files s SERVERLISTPATH = Some (list_file infos)" and w: "wf_list infos" using s(2) by (simp_all add: servers_def)
  have "40 < (2 :: nat) ^ 32" by simp
  then show ?thesis
    using validateId_servers [OF s k] open_existing_disk [of "steps s _" SERVERLISTPATH] s(1) f i seek_server [OF w k(2)]
      list_file_update [OF w k(2) i(1)] wf_list_update [OF w k i]
      write_all_disk [of "steps s _" SERVERLISTPATH "list_file infos" "info_bytes i" "k * 40"]
    by (simp add: server_setServerInfo_def setServerInfo_def)
qed

section \<open>A new server\<close>

text \<open>The number is taken first; the list is well formed again when the new structure was written.\<close>

definition taken :: "server_info list \<Rightarrow> server_info list"
  where "taken infos = infos[0 := (hd infos)\<lparr>server_id := word_of_nat (Suc (length infos))\<rparr>]"

lemma taken_parts:
  assumes "wf_list infos"
  shows "length (taken infos) = length infos" "\<forall>i\<in>set (taken infos). info_ok i" "infos \<noteq> []" "0 < length infos"
    "server_id (hd (taken infos)) = word_of_nat (Suc (length infos))"
    "k < length infos \<Longrightarrow> 0 < k \<Longrightarrow> taken infos ! k = infos ! k"
  using assms by (cases infos; auto simp: wf_list_def taken_def)+

lemma server_getNewInfo_ok:
  assumes s: "disk_ok s" "servers s infos"
  shows "\<exists>m. server_getNewInfo p s = (0, hd infos, s\<lparr>io_calls := m, files := (files s)(SERVERLISTPATH \<mapsto> list_file (taken infos))\<rparr>)"
proof -
  have f: "files s SERVERLISTPATH = Some (list_file infos)" and w: "wf_list infos" using s(2) by (simp_all add: servers_def)
  obtain i r where i: "infos = i # r" using w by (cases infos) (auto simp: wf_list_def)
  then have io: "info_ok i" "server_id i = word_of_nat (length infos)" using w by (auto simp: wf_list_def)
  have g: "getServerInfo zero_info 0 s = (0, i, steps s (Suc (Suc (io_calls s))))"
    using getServerInfo_servers [OF s, of 0 zero_info] i by simp
  have "seek \<lparr>fd_path = SERVERLISTPATH, fd_off = 0\<rparr> 0 = Some \<lparr>fd_path = SERVERLISTPATH, fd_off = 0\<rparr>" 
    using seek_small [of 0] by simp
  moreover have "overlay 0 (info_bytes (i\<lparr>server_id := server_id i + 1\<rparr>)) (list_file infos) = list_file (taken infos)"
    using list_file_update [OF w, of 0 "i\<lparr>server_id := server_id i + 1\<rparr>"] i io by (simp add: taken_def add.commute)
  moreover have "checkServerList s = 0" using f by (simp add: checkServerList_def access_def dom_def)
  ultimately show ?thesis
    using g i io open_existing_disk [of "steps s _" SERVERLISTPATH] s(1) f
      write_all_disk [of "steps s _" SERVERLISTPATH "list_file infos" "info_bytes (i\<lparr>server_id := server_id i + 1\<rparr>)" 0]
    by (simp add: server_getNewInfo_def setServerInfo_def Let_def)
qed

lemma list_file_append: "list_file (xs @ ys) = list_file xs @ list_file ys"
  by (simp add: list_file_def)

lemma wf_list_snoc:
  assumes w: "wf_list infos" and n: "Suc (length infos) * 40 < 2 ^ 31" and i: "info_ok i" "server_id i = word_of_nat (length infos)"
  shows "wf_list (taken infos @ [i])"
proof -
  have "taken infos \<noteq> []" using taken_parts(1,4) [OF w] by auto
  then show ?thesis using taken_parts [OF w] w n i by (auto simp: wf_list_def nth_append less_Suc_eq)
qed

lemma validateId_taken:
  assumes s: "disk_ok s" "files s SERVERLISTPATH = Some (list_file (taken infos))"
    and w: "wf_list infos" and n: "Suc (length infos) * 40 < 2 ^ 31"
  shows "validateId (word_of_nat (length infos)) s = Some (0, steps s (Suc (Suc (io_calls s))))"
proof -
  note t = taken_parts [OF w]
  have l: "length (list_file (taken infos)) = length infos * 40" using t by (simp add: length_list_file)
  have h: "take 4 (list_file (taken infos)) = u32_le (word_of_nat (Suc (length infos)))"
  proof (cases "taken infos")
    case (Cons a r)
    then show ?thesis using t(2,5) by (simp add: list_file_def info_bytes_def)
  qed (use t(1,3) in simp)
  have l40: "40 \<le> length (list_file (taken infos))" using l t(4) by (cases infos) simp_all
  have "files s SERVERLISTPATH = Some ([] @ take 40 (list_file (taken infos)) @ drop 40 (list_file (taken infos)))" using s(2) by simp
  then have r: "read_fd \<lparr>fd_path = SERVERLISTPATH, fd_off = 0\<rparr> 40 (steps s j) =
      (Some (take 40 (list_file (taken infos))), \<lparr>fd_path = SERVERLISTPATH, fd_off = 40\<rparr>, steps s (Suc j))" for j
    using read_fd_disk [of "steps s j" SERVERLISTPATH "[]" "take 40 (list_file (taken infos))" "drop 40 (list_file (taken infos))"] s(1) l40 by simp
  have n': "length infos * 40 < 2 ^ 31" "Suc (length infos) < 2 ^ 32" using n by simp_all
  have v: "(0 :: u32) < word_of_nat (length infos)" "(word_of_nat (length infos) :: u32) < word_of_nat (Suc (length infos))"
    using n' t(4) unat_u32_len [of "length infos"] unat_u32_len [of "Suc (length infos)"] by (simp_all only: word_less_nat_alt unat_0) simp_all
  show ?thesis
    using open_existing_disk [OF s] r h v l40 by (simp add: validateId_def lseek_def min_absorb1 wire_simps del: of_nat_Suc)
qed

lemma seek_taken:
  assumes "Suc (length infos) * 40 < 2 ^ 31"
  shows "seek \<lparr>fd_path = q, fd_off = 0\<rparr> (word_of_nat (length infos) * 40) = Some \<lparr>fd_path = q, fd_off = length infos * 40\<rparr>"
  using seek_small [of "length infos * 40" q 0] assms by simp

lemma new_server_ok:
  assumes s: "disk_ok s" "files s SERVERLISTPATH = Some (list_file (taken infos))"
    and w: "wf_list infos" and n: "Suc (length infos) * 40 < 2 ^ 31" and i: "info_ok i" "server_id i = word_of_nat (length infos)"
  shows "\<exists>m. server_setServerInfo i s =
    Some (0, s\<lparr>io_calls := m, files := (files s)(SERVERLISTPATH \<mapsto> list_file (taken infos @ [i]))\<rparr>)"
proof -
  note t = taken_parts [OF w]
  have l: "length (list_file (taken infos)) = length infos * 40" using t by (simp add: length_list_file)
  have "40 < (2 :: nat) ^ 32" by simp
  then show ?thesis
    using open_existing_disk [of "steps s _" SERVERLISTPATH] s i l validateId_taken [OF s w n] seek_taken [OF n]
      write_all_disk [of "steps s _" SERVERLISTPATH "list_file (taken infos)" "info_bytes i" "length infos * 40"]
    by (simp add: server_setServerInfo_def setServerInfo_def overlay_at_end list_file_append) (simp add: list_file_def)
qed

end
