(* ===== verification/Hotp_Correct.thy ===== *)
theory Hotp_Correct
  imports Hotp Sign_Data_Correct Keystore_Store
begin

text \<open>Decoding of secrets against the definition of base 32 as a string of bits, and the one-time
  passwords against those of RFC 4226.\<close>

section \<open>Base 32\<close>

text \<open>Five bits for a character, eight for a byte, the most significant one first.\<close>

definition b32_bits :: "byte list \<Rightarrow> bool list"
  where "b32_bits s = concat (map (\<lambda>c. map (bit (get_char_index c)) [4, 3, 2, 1, 0]) s)"

definition byte_bits :: "byte list \<Rightarrow> bool list"
  where "byte_bits bs = concat (map (\<lambda>b. map (bit b) [7, 6, 5, 4, 3, 2, 1, 0]) bs)"

lemma bits_simps [simp]:
  "b32_bits [] = []" "b32_bits (c # s) = map (bit (get_char_index c)) [4, 3, 2, 1, 0] @ b32_bits s"
  "byte_bits [] = []" "byte_bits (b # bs) = map (bit b) [7, 6, 5, 4, 3, 2, 1, 0] @ byte_bits bs"
  "byte_bits (xs @ ys) = byte_bits xs @ byte_bits ys"
  by (simp_all add: b32_bits_def byte_bits_def)

lemma small_index_bits: "\<lbrakk>0 \<le> a; a < 32; 5 \<le> n\<rbrakk> \<Longrightarrow> \<not> bit (a :: int) n"
proof
  assume a: "0 \<le> a" "a < 32" "5 \<le> n" "bit a n"
  have "a < 2 ^ n" using a(2,3) power_increasing [of 5 n "2 :: int"] by simp
  then have "a div 2 ^ n = 0" using a(1) by simp
  then show False using a(4) by (simp add: bit_iff_odd)
qed

definition group :: "int \<Rightarrow> int \<Rightarrow> int \<Rightarrow> int \<Rightarrow> int \<Rightarrow> int \<Rightarrow> int \<Rightarrow> int \<Rightarrow> byte list" where
  "group a b c d e f g h =
    [push_bit 3 (word_of_int a) OR drop_bit 2 (word_of_int b),
     word_of_int (b * 64) OR push_bit 1 (word_of_int c) OR drop_bit 4 (word_of_int d),
     word_of_int (d * 16) OR drop_bit 1 (word_of_int e),
     word_of_int (e * 128) OR push_bit 2 (word_of_int f) OR drop_bit 3 (word_of_int g),
     word_of_int (g * 32) OR word_of_int h]"

lemma times_push_bit: "x * 64 = push_bit 6 x" "x * 16 = push_bit 4 x" "x * 128 = push_bit 7 x" "x * 32 = push_bit 5 x" for x :: int
  by (simp_all add: push_bit_eq_mult)

lemma bit_double_byte: "bit (x * 2 :: byte) n \<longleftrightarrow> 0 < n \<and> n < 8 \<and> bit x (n - 1)"
  using bit_push_bit_iff [of 1 x n] by (auto simp: push_bit_eq_mult mult.commute)

lemma group_bits:
  assumes "0 \<le> a" "a < 32" "0 \<le> b" "b < 32" "0 \<le> c" "c < 32" "0 \<le> d" "d < 32" "0 \<le> e" "e < 32" "0 \<le> f" "f < 32"
    "0 \<le> g" "g < 32" "0 \<le> h" "h < 32"
  shows "byte_bits (group a b c d e f g h) = concat (map (\<lambda>x. map (bit x) [4, 3, 2, 1, 0]) [a, b, c, d, e, f, g, h])"
  using assms unfolding group_def times_push_bit
  by (simp add: bit_or_iff bit_push_bit_iff bit_drop_bit_eq bit_word_of_int_iff small_index_bits bit_double_byte)
    (simp add: numeral_3_eq_3 numeral_2_eq_2 small_index_bits)

lemma decode_group:
  assumes "\<forall>x \<in> {a, b, c, d, e, f, g, h}. 0 \<le> get_char_index x \<and> get_char_index x < 32" "length pre = j" "5 \<le> n"
  shows "decode_loop (Suc (Suc (Suc (Suc (Suc (Suc (Suc (Suc k)))))))) (a # b # c # d # e # f # g # h # s) j 0 8 (pre @ replicate n 0) =
    decode_loop k s (j + 5) 0 8 ((pre @ group (get_char_index a) (get_char_index b) (get_char_index c) (get_char_index d)
      (get_char_index e) (get_char_index f) (get_char_index g) (get_char_index h)) @ replicate (n - 5) 0)"
proof -
  obtain m where "n = 5 + m" using assms(3) le_Suc_ex by blast
  then have n: "n = Suc (Suc (Suc (Suc (Suc m))))" by simp
  have u: "upd_ub j w (pre @ y # ys) = Some (pre @ w # ys)"
    "upd_ub (Suc j) w (pre @ y1 # y # ys) = Some (pre @ y1 # w # ys)"
    "upd_ub (Suc (Suc j)) w (pre @ y1 # y2 # y # ys) = Some (pre @ y1 # y2 # w # ys)"
    "upd_ub (Suc (Suc (Suc j))) w (pre @ y1 # y2 # y3 # y # ys) = Some (pre @ y1 # y2 # y3 # w # ys)"
    "upd_ub (Suc (Suc (Suc (Suc j)))) w (pre @ y1 # y2 # y3 # y4 # y # ys) = Some (pre @ y1 # y2 # y3 # y4 # w # ys)"
    for w y y1 y2 y3 y4 :: byte and ys
    using assms(2) upd_ub_app [of pre j] upd_ub_app [of "pre @ [y1]" "Suc j"] upd_ub_app [of "pre @ [y1, y2]" "Suc (Suc j)"]
      upd_ub_app [of "pre @ [y1, y2, y3]" "Suc (Suc (Suc j))"] upd_ub_app [of "pre @ [y1, y2, y3, y4]" "Suc (Suc (Suc (Suc j)))"]
    by auto
  have "(256 :: byte) = 0" by simp
  then have z: "x * 256 = 0" for x :: byte by (metis mult_zero_right)
  have j: "j + 5 = Suc (Suc (Suc (Suc (Suc j))))" by simp
  show ?thesis using assms(1) unfolding j by (simp add: n u z group_def Let_def or.assoc)
qed


text \<open>A secret of the node: sixteen characters of the alphabet.\<close>

definition secret16 :: "byte list \<Rightarrow> bool"
  where "secret16 s \<longleftrightarrow> length s = 16 \<and> set s \<subseteq> set b32_alphabet"

lemma alphabet_index:
  assumes "x \<in> set b32_alphabet"
  shows "0 \<le> get_char_index x" "get_char_index x < 32" "x \<noteq> 0" "x \<noteq> 0x20" "x \<noteq> 0x3d" "\<not> (0x61 \<le> x \<and> x \<le> 0x7a)"
proof -
  have "\<forall>x \<in> set b32_alphabet. 0 \<le> get_char_index x \<and> get_char_index x < 32 \<and> x \<noteq> 0 \<and> x \<noteq> 0x20 \<and> x \<noteq> 0x3d \<and>
      \<not> (0x61 \<le> x \<and> x \<le> 0x7a)"
    by code_simp
  with assms show "0 \<le> get_char_index x" "get_char_index x < 32" "x \<noteq> 0" "x \<noteq> 0x20" "x \<noteq> 0x3d" "\<not> (0x61 \<le> x \<and> x \<le> 0x7a)"
    by blast+
qed

lemma list16:
  assumes "length s = 16"
  obtains a0 a1 a2 a3 a4 a5 a6 a7 b0 b1 b2 b3 b4 b5 b6 b7
  where "s = [a0, a1, a2, a3, a4, a5, a6, a7, b0, b1, b2, b3, b4, b5, b6, b7]"
  using assms that by (auto simp: numeral_eq_Suc length_Suc_conv)

lemma b32_size_16: "b32_size 16 = 10"
  by code_simp

text \<open>What a secret decodes to: five bytes for eight characters.\<close>

fun b32_bytes :: "byte list \<Rightarrow> byte list" where
  "b32_bytes (a # b # c # d # e # f # g # h # s) = group (get_char_index a) (get_char_index b) (get_char_index c)
     (get_char_index d) (get_char_index e) (get_char_index f) (get_char_index g) (get_char_index h) @ b32_bytes s"
| "b32_bytes s = []"

lemma length_group [simp]: "length (group a b c d e f g h) = 5"
  by (simp add: group_def)

lemma secret16_bytes:
  assumes "secret16 s"
  shows "length (b32_bytes s) = 10" "byte_bits (b32_bytes s) = b32_bits s"
    "decode_loop 16 (s @ r) 0 0 8 (replicate 11 0) = Some (b32_bytes s @ [0])"
proof -
  obtain a0 a1 a2 a3 a4 a5 a6 a7 b0 b1 b2 b3 b4 b5 b6 b7
    where s: "s = [a0, a1, a2, a3, a4, a5, a6, a7, b0, b1, b2, b3, b4, b5, b6, b7]"
    using assms unfolding secret16_def by (blast intro: list16)
  have i: "x \<in> set s \<Longrightarrow> 0 \<le> get_char_index x" "x \<in> set s \<Longrightarrow> get_char_index x < 32" for x
    using assms alphabet_index [of x] by (auto simp: secret16_def)
  show "length (b32_bytes s) = 10" by (simp add: s)
  have g: "byte_bits (group (get_char_index a0) (get_char_index a1) (get_char_index a2) (get_char_index a3)
      (get_char_index a4) (get_char_index a5) (get_char_index a6) (get_char_index a7)) =
      b32_bits [a0, a1, a2, a3, a4, a5, a6, a7]"
    "byte_bits (group (get_char_index b0) (get_char_index b1) (get_char_index b2) (get_char_index b3)
      (get_char_index b4) (get_char_index b5) (get_char_index b6) (get_char_index b7)) =
      b32_bits [b0, b1, b2, b3, b4, b5, b6, b7]"
    using i by (subst group_bits; simp add: s)+
  then show "byte_bits (b32_bytes s) = b32_bits s" by (simp add: s)
  have "decode_loop (8 + 8) (s @ r) 0 0 8 ([] @ replicate 11 0) = decode_loop 8 (drop 8 s @ r) 5 0 8 (take 5 (b32_bytes s) @ replicate 6 0)"
    using decode_group [of a0 a1 a2 a3 a4 a5 a6 a7 "[]" 0 11 8 "drop 8 s @ r"] i by (simp add: s)
  also have "decode_loop 8 (drop 8 s @ r) 5 0 8 (take 5 (b32_bytes s) @ replicate 6 0) = Some (b32_bytes s @ [0])"
    using decode_group [of b0 b1 b2 b3 b4 b5 b6 b7 "take 5 (b32_bytes s)" 5 6 0 r] i by (simp add: s numeral_eq_Suc)
  finally show "decode_loop 16 (s @ r) 0 0 8 (replicate 11 0) = Some (b32_bytes s @ [0])" by simp
qed

lemma valid_loop_all: "set s \<subseteq> set b32_alphabet \<Longrightarrow> valid_loop (length s) (s @ r) n = Some (n + length s)"
  using alphabet_index(3) by (induction s arbitrary: n) auto

lemma c_str_secret: "secret16 s \<Longrightarrow> c_str (s @ 0 # r) = s"
  using alphabet_index(3) by (auto simp: c_str_def secret16_def takeWhile_append)

lemma filter_secret:
  assumes "secret16 s"
  shows "filter (\<lambda>c. c \<noteq> 0x20) s = s" "filter (\<lambda>c. c = 0x20) s = []" "filter (\<lambda>c. c \<noteq> 0x3d \<and> c \<noteq> 0) s = s"
    "map (\<lambda>c. if 0x61 \<le> c \<and> c \<le> 0x7a then c - 32 else c) s = s"
proof -
  have e: "\<forall>x\<in>set s. x \<noteq> 0x20 \<and> x \<noteq> 0x3d \<and> x \<noteq> 0 \<and> \<not> (0x61 \<le> x \<and> x \<le> 0x7a)"
    using assms alphabet_index unfolding secret16_def by blast
  then show "filter (\<lambda>c. c \<noteq> 0x20) s = s" "filter (\<lambda>c. c = 0x20) s = []" "filter (\<lambda>c. c \<noteq> 0x3d \<and> c \<noteq> 0) s = s"
    by (simp_all only: filter_id_conv filter_empty_conv) auto
  show "map (\<lambda>c. if 0x61 \<le> c \<and> c \<le> 0x7a then c - 32 else c) s = s"
    using e by (intro map_idI) auto
qed

lemma base32_decode_secret:
  assumes s: "secret16 s" and h: "no_oom h" "heap_ok h"
  shows "base32_decode (s @ 0 # r) 16 h = Some (SUCCESS, Ptr (Suc (calls h)) (b32_bytes s @ [0]),
    h\<lparr>calls := calls h + 2, live := insert (Suc (calls h)) (live h)\<rparr>)"
proof -
  have l: "length s = 16" "s \<noteq> []" using s by (auto simp: secret16_def)
  then obtain x xs where x: "s = x # xs" by (cases s) auto
  have ci: "check_input (s @ 0 # r) 16 107374183 = Some SUCCESS"
    using s x alphabet_index(3) [of x] by (simp add: check_input_def nth_ub_def secret16_def)
  have v: "is_valid_b32_input (s @ [0]) 16 = Some True"
    using valid_loop_all [of s "[0]" 0] s by (simp add: is_valid_b32_input_def secret16_def)
  have "upd_ub 10 0 (b32_bytes s @ [0]) = Some (b32_bytes s @ [0])"
    using upd_ub_app [of "b32_bytes s" 10 0 0 "[]"] secret16_bytes(1) [OF s] by simp
  moreover have "calls h \<notin> live h" using h(2) by (auto simp: heap_ok_def)
  ultimately show ?thesis
    using secret16_bytes(3) [OF s, of "[0]"] h(1) ci v l filter_secret [OF s]
    by (simp add: base32_decode_def c_str_secret [OF s] strip_char_def malloc_no_oom rd_def b32_size_16 free_blk_def Let_def
        insert_commute insert_Diff_if)
qed

section \<open>Passwords\<close>

text \<open>RFC 4226: the last four bits of the hash are an offset; the 31 low bits of the four bytes there, read
  with the most significant one first, are reduced to six decimal digits.\<close>

definition hotp_number :: "byte list \<Rightarrow> nat" where
  "hotp_number hm = nat_of_le (rev (take 4 (drop (unat (last hm) mod 16) hm))) mod 2 ^ 31 mod 10 ^ 6"

definition six_digits :: "nat \<Rightarrow> byte list"
  where "six_digits n = map (\<lambda>k. word_of_nat (48 + n div 10 ^ k mod 10)) [5, 4, 3, 2, 1, 0]"

lemma or_disjoint_nat: "x < 2 ^ n \<Longrightarrow> push_bit n y OR x = y * 2 ^ n + (x :: nat)"
proof -
  assume x: "x < 2 ^ n"
  have "\<not> bit x m" if "n \<le> m" for m
  proof -
    have "(2 :: nat) ^ n \<le> 2 ^ m" using that by simp
    then have "x div 2 ^ m = 0" using x by (intro div_less) linarith
    then show ?thesis by (simp add: bit_iff_odd)
  qed
  then have "push_bit n y + x = push_bit n y OR x"
    by (intro disjunctive_add) (auto simp: bit_push_bit_iff)
  then show ?thesis by (simp add: push_bit_eq_mult)
qed

lemma unat_shifted_byte:
  assumes "k \<le> 24"
  shows "unat (push_bit k (ucast (x :: byte)) :: u32) = push_bit k (unat x)"
proof -
  have "unat x < 2 ^ 8" using unat_lt2p [of x] by simp
  then have "unat x * 2 ^ k < 2 ^ 8 * 2 ^ 24"
    using assms by (intro mult_less_le_imp_less power_increasing) simp_all
  then have "push_bit k (unat x) < 2 ^ 32" "unat x < 2 ^ 32" using \<open>unat x < 2 ^ 8\<close> by (simp_all add: push_bit_eq_mult)
  then show ?thesis by (simp only: unsigned_push_bit_eq unsigned_ucast_eq) (simp add: take_bit_nat_eq_self)
qed

lemma unat_and_low: "unat (b AND mask k :: byte) = unat b mod 2 ^ k"
  by (metis take_bit_eq_mask unsigned_take_bit_eq take_bit_eq_mod)

lemma byte_masks: "(0x0f :: byte) = mask 4" "(0x7f :: byte) = mask 7" "(0xff :: byte) = mask 8"
  by (simp_all add: mask_eq_exp_minus_1)

lemma bin_code_eq:
  fixes b0 b1 b2 b3 :: byte
  shows "unat (push_bit 24 (ucast (b0 AND 0x7f)) OR push_bit 16 (ucast (b1 AND 0xff)) OR
    push_bit 8 (ucast (b2 AND 0xff)) OR ucast (b3 AND 0xff) :: u32) =
    (unat b0 mod 128) * 2 ^ 24 + (unat b1 * 2 ^ 16 + (unat b2 * 2 ^ 8 + unat b3))"
proof -
  have lt: "unat b < 256" for b :: byte using unat_lt2p [of b] by simp
  have m: "b AND 0xff = b" for b :: byte
    unfolding byte_masks word_unat_eq_iff unat_and_low using lt [of b] by simp
  have t: "unat (b0 AND 0x7f) = unat b0 mod 128" unfolding byte_masks unat_and_low by simp
  have u: "unat (ucast b3 :: u32) = unat b3" using unat_shifted_byte [of 0 b3] by simp
  show ?thesis
    unfolding unsigned_or_eq m unat_shifted_byte [OF order_refl] u t
    using lt [of b1] lt [of b2] lt [of b3] unat_shifted_byte [of 8 b2] unat_shifted_byte [of 16 b1]
    by (simp add: or_disjoint_nat)
qed

lemma take_4_drop: "i + 3 < length xs \<Longrightarrow> take 4 (drop i xs) = [xs ! i, xs ! (i + 1), xs ! (i + 2), xs ! (i + 3)]"
  by (simp add: take_Suc_conv_app_nth numeral_eq_Suc)

lemma high_bit: "128 * q + r = a \<Longrightarrow> a * 2 ^ 24 + z = q * 2 ^ 31 + (r * 2 ^ 24 + z)" for a :: nat
  by auto

lemma truncate_hmac_eq:
  assumes "length hm = 20"
  shows "truncate_hmac hm 6 SHA1 = Some (int (hotp_number hm))"
proof -
  let ?o = "unat (hm ! 19) mod 16"
  have l: "last hm = hm ! 19" using assms by (subst last_conv_nth) auto
  have o: "unat (hm ! 19 AND 0x0f) = ?o"
    unfolding byte_masks unat_and_low by simp
  have b: "?o + 3 < length hm" using assms by simp
  define b0 b1 b2 b3 where bs: "b0 = hm ! ?o" "b1 = hm ! (?o + 1)" "b2 = hm ! (?o + 2)" "b3 = hm ! (?o + 3)"
  have d: "take 4 (drop ?o hm) = [b0, b1, b2, b3]"
    unfolding bs using b by (rule take_4_drop)
  have lt: "unat b < 256" for b :: byte using unat_lt2p [of b] by simp
  let ?w = "push_bit 24 (ucast (b0 AND 0x7f)) OR push_bit 16 (ucast (b1 AND 0xff)) OR
    push_bit 8 (ucast (b2 AND 0xff)) OR ucast (b3 AND 0xff) :: u32"
  let ?x = "(unat b0 mod 128) * 2 ^ 24 + (unat b1 * 2 ^ 16 + (unat b2 * 2 ^ 8 + unat b3))"
  have x: "unat b1 * 2 ^ 16 + (unat b2 * 2 ^ 8 + unat b3) < 2 ^ 24" "?x < 2 ^ 31"
    using lt [of b1] lt [of b2] lt [of b3] mod_less_divisor [of 128 "unat b0"] by auto
  have "nat_of_le (rev [b0, b1, b2, b3]) = unat b0 * 2 ^ 24 + (unat b1 * 2 ^ 16 + (unat b2 * 2 ^ 8 + unat b3))"
    by simp
  also have "\<dots> = unat b0 div 128 * 2 ^ 31 + ?x"
    by (rule high_bit [OF mult_div_mod_eq])
  also have "\<dots> mod 2 ^ 31 = ?x" using x(2) by (simp only: mod_mult_self3 mod_less)
  finally have n: "hotp_number hm = ?x mod 10 ^ 6"
    unfolding hotp_number_def l d by simp
  have "word_of_nat ?x = ?w" using bin_code_eq [of b0 b1 b2 b3] by (simp only: of_nat_unat ucast_id flip: bin_code_eq)
  then have "sint ?w = int ?x" using sint_small32 [OF x(2)] by simp
  then show ?thesis
    using assms b o n unfolding truncate_hmac_def bs by (simp add: nth_ub_less zmod_int)
qed

text \<open>A number with leading zeros.\<close>

definition padded :: "nat \<Rightarrow> nat \<Rightarrow> byte list"
  where "padded k n = replicate (k - length (dec_digits n)) 0x30 @ dec_digits n"

lemma dec_digits_step: "10 \<le> n \<Longrightarrow> dec_digits n = dec_digits (n div 10) @ [word_of_nat (48 + n mod 10)]"
  by (subst dec_digits.simps) simp

lemma dec_digits_one: "n < 10 \<Longrightarrow> dec_digits n = [word_of_nat (48 + n)]"
  by (subst dec_digits.simps) simp

lemma padded_step: "1 \<le> k \<Longrightarrow> padded (Suc k) n = padded k (n div 10) @ [word_of_nat (48 + n mod 10)]"
proof (cases "n < 10")
  case True
  assume "1 \<le> k"
  then have "replicate k (48 :: byte) = replicate (k - 1) 48 @ [48]" by (cases k) (simp_all add: replicate_append_same)
  with True show ?thesis by (simp add: padded_def dec_digits_one)
next
  case False
  then show ?thesis by (simp add: padded_def dec_digits_step)
qed

lemma padded_one: "n < 10 \<Longrightarrow> padded (Suc 0) n = [word_of_nat (48 + n)]"
  by (simp add: padded_def dec_digits_one)

lemma padded_six:
  assumes "n < 10 ^ 6"
  shows "padded 6 n = six_digits n"
proof -
  have s: "6 = Suc (Suc (Suc (Suc (Suc (Suc 0)))))" by simp
  have "n div 10 div 10 div 10 div 10 div 10 < 10" using assms by (simp add: div_mult2_eq [symmetric] div_less_iff_less_mult)
  then show ?thesis
    unfolding s by (simp add: padded_step padded_one six_digits_def div_mult2_eq [symmetric])
qed

lemma length_six_digits [simp]: "length (six_digits n) = 6"
  by (simp add: six_digits_def)

lemma finalize_eq:
  assumes "n < 10 ^ 6" "no_oom h" "heap_ok h"
  shows "finalize 6 (int n) h = Some (Ptr (calls h) (six_digits n @ [0]), h\<lparr>calls := calls h + 2, live := insert (calls h) (live h)\<rparr>)"
proof -
  have p: "replicate (6 - length (dec_digits n)) 0x30 @ dec_digits n = six_digits n"
    using padded_six [OF assms(1)] by (simp add: padded_def)
  have "Suc (calls h) \<notin> live h" using assms(3) by (auto simp: heap_ok_def)
  then show ?thesis
    unfolding finalize_def nat_int Let_def p
    using assms(2) by (simp add: malloc_no_oom free_blk_def insert_Diff_if)
qed

text \<open>The key is what the secret decodes to, the text the counter with its most significant byte first.\<close>

definition hotp_of :: "otp_ops \<Rightarrow> byte list \<Rightarrow> u32 \<Rightarrow> byte list" where
  "hotp_of g s c = six_digits (hotp_number (hmac g SHA1 (b32_bytes s) (rev (u64_le (ucast c)))))"

text \<open>The password as the node uses it, with a final 0.\<close>

definition passwd :: "otp_ops \<Rightarrow> byte list \<Rightarrow> u32 \<Rightarrow> byte list"
  where "passwd g s c = hotp_of g s c @ replicate 10 0x30"

definition hmac_ok :: "otp_ops \<Rightarrow> bool"
  where "hmac_ok g \<longleftrightarrow> gcrypt_ok g \<and> (\<forall>k m. length (hmac g SHA1 k m) = 20)"

lemma length_passwd [simp]: "length (passwd g s c) = 16"
  by (simp add: passwd_def hotp_of_def)

lemma compute_hmac_eq:
  assumes s: "secret16 s" and h: "no_oom h" "heap_ok h"
  shows "compute_hmac g (s @ 0 # r) c algo h = Some (Some (hmac g algo (b32_bytes s) (rev (u64_le c))), tick 3 h)"
proof -
  have l: "length s = 16" using s by (simp add: secret16_def)
  let ?h1 = "h\<lparr>calls := Suc (calls h), live := insert (calls h) (live h)\<rparr>"
  have n: "normalize_secret (s @ 0 # r) h = Some (Ptr (calls h) (s @ [0]), ?h1)"
    using filter_secret [OF s] l h(1) by (simp add: normalize_secret_def c_str_secret [OF s] malloc_no_oom Let_def)
  have h1: "no_oom ?h1" "heap_ok ?h1" using h by (auto simp: heap_ok_def)
  note d = base32_decode_secret [OF s h1, of "[]"]
  have "calls h \<notin> live h" "Suc (Suc (calls h)) \<notin> live h" using h(2) by (auto simp: heap_ok_def)
  then show ?thesis
    using d n l secret16_bytes(1) [OF s]
    by (simp add: compute_hmac_def c_str_secret [OF s] c_str_secret [OF s, of "[]"] b32_size_16 rd_app free_blk_def tick_def insert_Diff_if
        numeral_3_eq_3 insert_commute)
qed

lemma hotp_genHotp_eq:
  assumes g: "hmac_ok g" and s: "secret16 s" and c: "c \<noteq> 0" and h: "no_oom h" "heap_ok h" and d: "17 \<le> length dest"
  shows "hotp_genHotp g (s @ 0 # r) c dest 17 h = Some (0, passwd g s c @ 0 # drop 17 dest, tick 5 h)"
proof -
  let ?hm = "hmac g SHA1 (b32_bytes s) (rev (u64_le (ucast c)))"
  have l: "length ?hm = 20" using g by (simp add: hmac_ok_def)
  have n: "hotp_number ?hm < 10 ^ 6" by (simp add: hotp_number_def)
  have h3: "no_oom (tick 3 h)" "heap_ok (tick 3 h)" using h by (auto simp: tick_def heap_ok_def)
  have gh: "get_hotp g (s @ 0 # r) (ucast c) 6 SHA1 h = Some (VALID, Ptr (calls h + 3) (hotp_of g s c @ [0]),
      (tick 3 h)\<lparr>calls := calls h + 5, live := insert (calls h + 3) (live h)\<rparr>)"
    using g compute_hmac_eq [OF s h] truncate_hmac_eq [OF l] finalize_eq [OF n h3]
    by (simp add: get_hotp_def hmac_ok_def check_algo_def check_otp_len_def hotp_of_def tick_def)
  have ho: "length (hotp_of g s c) = 6" by (simp add: hotp_of_def)
  have w: "wr 0 (hotp_of g s c) dest = Some (hotp_of g s c @ drop 6 dest)" using ho d by (simp add: wr_0)
  have "drop 16 dest = dest ! 16 # drop 17 dest" using d by (simp add: Cons_nth_drop_Suc numeral_eq_Suc)
  then have p: "paddingHotp (hotp_of g s c @ drop 6 dest) = Some (passwd g s c @ 0 # drop 17 dest)"
    using ho d wr_app [of "hotp_of g s c" 6 "replicate 10 0x30" "drop 6 dest"]
      upd_ub_app [of "passwd g s c" 16 0 "dest ! 16" "drop 17 dest"]
    using d by (simp add: paddingHotp_def passwd_def)
  have "calls h + 3 \<notin> live h" using h(2) by (auto simp: heap_ok_def)
  then show ?thesis
    using c gh w p ho by (simp add: hotp_genHotp_def rd_app free_blk_def tick_def)
qed


text \<open>The passwords of \<^verbatim>\<open>n\<close> counters in a row, 17 bytes each.\<close>

definition passwds :: "otp_ops \<Rightarrow> byte list \<Rightarrow> u32 \<Rightarrow> nat \<Rightarrow> byte list"
  where "passwds g s c n = concat (map (\<lambda>i. passwd g s (c + word_of_nat i) @ [0]) [0..<n])"

lemma length_passwds [simp]: "length (passwds g s c n) = n * 17"
  by (induction n) (simp_all add: passwds_def)

lemma passwds_Suc: "passwds g s c (Suc n) = passwds g s c n @ passwd g s (c + word_of_nat n) @ [0]"
  by (simp add: passwds_def)

lemma nhotp_loop_eq:
  assumes g: "hmac_ok g" and s: "secret16 s" and c: "unat c + m + n < 2 ^ 32" "c \<noteq> 0"
    and h: "no_oom h" "heap_ok h" and d: "n * 17 \<le> length dest"
  shows "nhotp_loop g (s @ 0 # r) c n m (passwds g s c m @ dest) h =
    Some (0, passwds g s c (m + n) @ drop (n * 17) dest, tick (5 * n) h)"
  using c(1) h d
proof (induction n arbitrary: m dest h)
  case 0
  then show ?case by (simp add: tick_def)
next
  case (Suc n)
  have u: "unat (c + word_of_nat m) = unat c + m"
  proof -
    have "unat (word_of_nat m :: u32) = m" using Suc.prems(1) by (simp add: unat_u32_len)
    then show ?thesis using Suc.prems(1) unat_add_lem [of c "word_of_nat m"] by simp
  qed
  have "0 < unat c" using c(2) by (simp add: unat_gt_0)
  then have z: "c + word_of_nat m \<noteq> 0" using u by auto
  have d: "17 \<le> length dest" using Suc.prems(4) by simp
  note one = hotp_genHotp_eq [OF g s z Suc.prems(2,3) d, of r]
  have h: "no_oom (tick 5 h)" "heap_ok (tick 5 h)" using Suc.prems(2,3) by (auto simp: tick_def heap_ok_def)
  have r: "unat c + Suc m + n < 2 ^ 32" "n * 17 \<le> length (drop 17 dest)" using Suc.prems by simp_all
  show ?case
    using one Suc.IH [OF r(1) h r(2)]
    by (simp add: passwds_Suc tick_simps algebra_simps)
qed

lemma hotp_genNHotp_eq:
  assumes g: "hmac_ok g" and s: "secret16 s" and c: "unat c + 5 < 2 ^ 32" "c \<noteq> 0"
    and h: "no_oom h" "heap_ok h" and d: "length dest = 85"
  shows "hotp_genNHotp g (s @ 0 # r) c 5 dest 85 h = Some (0, passwds g s c 5, tick 25 h)"
proof -
  have "(5 :: u32) * 17 = 85" "unat (5 :: u32) = 5" by simp_all
  moreover have "passwds g s c 0 = []" by (simp add: passwds_def)
  ultimately show ?thesis
    using nhotp_loop_eq [OF g s _ c(2) h, where m = 0 and n = 5 and dest = dest and r = r] c d
    by (simp add: hotp_genNHotp_def)
qed

end
