(* ===== verification/Mission_Correct.thy ===== *)
theory Mission_Correct
  imports Server_List_Correct Mission Hotp_Correct
begin

text \<open>A mission on a disk that works: the result file and the counter of the server.\<close>

section \<open>The password\<close>

definition cipher_ok :: "cipher \<Rightarrow> bool"
  where "cipher_ok aes \<longleftrightarrow> (\<forall>k iv d. 16 dvd length d \<longrightarrow> length (aes k iv d) = length d)"

lemma crypt_decryptData_ok:
  assumes aes: "cipher_ok aes" and k: "length key = 16" and d: "16 dvd length d" "16 \<le> length d" "length d < 2 ^ 32"
    and o: "length d \<le> length out"
  shows "crypt_decryptData aes (d @ pad) (word_of_nat (length d)) out (word_of_nat (length d)) (key @ r) 17 =
    Some (0, aes key key d @ drop (length d) out)"
proof -
  have u: "unat (word_of_nat (length d) :: u32) = length d" using d(3) by (simp add: unat_u32_len)
  have l: "\<not> (word_of_nat (length d) :: u32) < 16" using d(2) u by (simp add: word_less_nat_alt)
  have m: "(word_of_nat (length d) :: u32) mod 16 = 0" using d(1) u by (simp add: word_unat_eq_iff unat_mod dvd_eq_mod_eq_0)
  have "length (aes key key d) = length d" using aes d(1) by (simp add: cipher_ok_def)
  then show ?thesis using u l m k o by (simp add: crypt_decryptData_def decrypt_def rd_app wr_0)
qed

text \<open>The check block, decrypted with a password: the number of a server.\<close>

definition check_id :: "cipher \<Rightarrow> byte list \<Rightarrow> byte list \<Rightarrow> u32"
  where "check_id aes check pw = le_u32 (take 4 (aes pw pw check))"

text \<open>The first of \<^verbatim>\<open>n\<close> passwords that fits.\<close>

fun first_fit :: "(nat \<Rightarrow> bool) \<Rightarrow> nat \<Rightarrow> nat \<Rightarrow> nat" where
  "first_fit P i 0 = i"
| "first_fit P i (Suc n) = (if P i then i else first_fit P (Suc i) n)"

lemma first_fit_bounds: "i \<le> first_fit P i n" "first_fit P i n \<le> i + n"
  by (induction P i n rule: first_fit.induct) auto

lemma first_fit_P: "first_fit P i n < i + n \<Longrightarrow> P (first_fit P i n)"
  by (induction P i n rule: first_fit.induct) (auto split: if_split_asm)

lemma first_fit_less: "i \<le> k \<Longrightarrow> k < first_fit P i n \<Longrightarrow> \<not> P k"
proof (induction P i n rule: first_fit.induct)
  case (2 P i n)
  then show ?case by (cases "i = k") (auto split: if_split_asm)
qed simp

lemma first_fit_all: "first_fit P i n = i + n \<longleftrightarrow> (\<forall>k. i \<le> k \<and> k < i + n \<longrightarrow> \<not> P k)"
proof
  assume "\<forall>k. i \<le> k \<and> k < i + n \<longrightarrow> \<not> P k"
  then show "first_fit P i n = i + n"
    using first_fit_bounds [where P = P and i = i and n = n] first_fit_P [of P i n] by (meson le_neq_implies_less)
qed (metis first_fit_less)

lemma passwds_at:
  assumes "i < n"
  shows "\<exists>r. drop (i * 17) (passwds g s c n) = passwd g s (c + word_of_nat i) @ 0 # r"
proof -
  have "[0..<n] = [0..<i] @ i # [Suc i..<n]"
    using upt_add_eq_append [of 0 i "n - i"] assms by (simp add: upt_conv_Cons)
  then have "passwds g s c n = passwds g s c i @ passwd g s (c + word_of_nat i) @ 0 # concat (map (\<lambda>i. passwd g s (c + word_of_nat i) @ [0]) [Suc i..<n])"
    by (simp add: passwds_def)
  then show ?thesis by simp
qed

lemma find_hotp_ok:
  assumes aes: "cipher_ok aes" and c: "length check = 16"
  shows "length de = 16 \<Longrightarrow> i + n \<le> 5 \<Longrightarrow> find_hotp aes check sid (passwds g s c 5) n i de =
    Some (0, first_fit (\<lambda>j. check_id aes check (passwd g s (c + word_of_nat j)) = sid) i n)"
proof (induction n arbitrary: i de)
  case (Suc n)
  let ?pw = "passwd g s (c + word_of_nat i)"
  obtain r where r: "drop (i * 17) (passwds g s c 5) = ?pw @ 0 # r" using passwds_at [of i 5 g s c] Suc.prems(2) by auto
  have l: "length (aes ?pw ?pw check) = 16" using aes c by (simp add: cipher_ok_def)
  have d: "crypt_decryptData aes check 16 de 16 (drop (i * 17) (passwds g s c 5)) 17 = Some (0, aes ?pw ?pw check)"
    using crypt_decryptData_ok [OF aes, of ?pw check de "[]" "0 # r"] c r Suc.prems(1) by simp
  show ?case
    using d l Suc.IH [of "aes ?pw ?pw check" "Suc i"] Suc.prems by (simp add: check_id_def rd_def)
qed simp

section \<open>One transaction\<close>

text \<open>The encrypted data of a transaction that decrypts to a frame, and what the node makes of it in its
  \<^verbatim>\<open>j\<close>th connection: the signed transaction, or \<^verbatim>\<open>None\<close> when it cannot be reached.\<close>

definition tx_outcome :: "cipher \<Rightarrow> byte list \<Rightarrow> net \<Rightarrow> nat \<Rightarrow> u32 \<Rightarrow> item \<Rightarrow> byte list option \<Rightarrow> bool" where
  "tx_outcome aes pw n j sid e out \<longleftrightarrow> 16 dvd length (snd e) \<and>
    (\<exists>index tx pad. aes pw pw (snd e) = frame index tx @ pad \<and> tx \<noteq> [] \<and> length tx + 9 < 65536 \<and>
      (case out of None \<Rightarrow> unreachable n j
       | Some res \<Rightarrow> answers n j sid index tx res \<and> res \<noteq> [] \<and> length res + 4 < 2 ^ 31 \<and> length res \<le> length (snd e) + 96))"

text \<open>The blocks a transaction leaves on the heap: the one with its result.\<close>

definition heap_turn :: "byte list option \<Rightarrow> heap \<Rightarrow> heap" where
  "heap_turn out h = (if out = None then h\<lparr>calls := calls h + 4\<rparr>
     else h\<lparr>calls := calls h + 5, live := insert (calls h + 4) (live h)\<rparr>)"

lemma heap_turn_simps [simp]:
  "no_oom h \<Longrightarrow> no_oom (heap_turn out h)" "heap_ok h \<Longrightarrow> heap_ok (heap_turn out h)"
  by (auto simp: heap_turn_def heap_ok_def no_oom_def)

text \<open>The heap when the two buffers that are left hold the decrypted data and the result.\<close>

definition heap_sign :: "heap \<Rightarrow> heap"
  where "heap_sign h = h\<lparr>calls := calls h + 3, live := insert (calls h + 1) (insert (calls h + 2) (live h))\<rparr>"

lemma heap_sign_simps [simp]:
  "no_oom h \<Longrightarrow> no_oom (heap_sign h)" "heap_ok h \<Longrightarrow> heap_ok (heap_sign h)"
  by (auto simp: heap_sign_def heap_ok_def no_oom_def)

lemma heap_turn_free:
  assumes "heap_ok h"
  shows "do { h1 \<leftarrow> free_blk (calls h + 1) (heap_signed (heap_sign h)); free_blk (calls h + 2) h1 } = Some (heap_turn (Some r) h)"
    "do { h1 \<leftarrow> free_blk (calls h + 1) (heap_refused (heap_sign h)); free_blk (calls h + 2) h1 } = Some (heap_turn None h)"
proof -
  have "calls h \<notin> live h" "Suc (calls h) \<notin> live h" "Suc (Suc (calls h)) \<notin> live h" using assms by (auto simp: heap_ok_def)
  then show "do { h1 \<leftarrow> free_blk (calls h + 1) (heap_signed (heap_sign h)); free_blk (calls h + 2) h1 } = Some (heap_turn (Some r) h)"
    "do { h1 \<leftarrow> free_blk (calls h + 1) (heap_refused (heap_sign h)); free_blk (calls h + 2) h1 } = Some (heap_turn None h)"
    by (auto simp: free_blk_def heap_signed_def heap_refused_def heap_sign_def heap_turn_def intro!: heap.equality)
qed

lemma os_upd [simp]:
  "s\<lparr>io_calls := m, hp := h\<rparr> = s\<lparr>hp := h, io_calls := m\<rparr>" "s\<lparr>io_calls := m, files := f, hp := h\<rparr> = s\<lparr>hp := h, io_calls := m, files := f\<rparr>"
  "res_at (s\<lparr>hp := h\<rparr>) q sid es = res_at s q sid es" "res_at (s\<lparr>io_calls := m\<rparr>) q sid es = res_at s q sid es"
  by (simp_all add: res_at_def)

lemma heap_sign_eq:
  assumes "no_oom h" "heap_ok h"
  shows "malloc a h = (Some (calls h), alloc 1 h)" "malloc a (alloc 1 h) = (Some (calls h + 1), alloc 1 (alloc 1 h))"
    "\<exists>h1. free_blk (calls h) (alloc 1 (alloc 1 h)) = Some h1 \<and> malloc a h1 = (Some (calls h + 2), heap_sign h)"
  using assms by (auto simp: malloc_alloc alloc_def free_blk_def malloc_def heap_sign_def heap_ok_def no_oom_def intro!: heap.equality)

lemma unat_plus_100: "n < 2 ^ 31 \<Longrightarrow> unat (word_of_nat n + 100 :: u32) = n + 100"
  using unat_u32_len [of "n + 100"] by simp

lemma sign_one_reaches:
  assumes s: "disk_ok s" "files s p = Some (tx_file sid check gap txs)" and wf: "wf_txs check gap txs"
    and g: "reading g sid txs k" "k < length txs" and h: "no_oom (hp s)" "heap_ok (hp s)"
    and aes: "cipher_ok aes" "length pw = 16" and e: "16 dvd length (snd (txs ! k))" "16 \<le> length (snd (txs ! k))"
  shows "\<exists>m. sign_one aes (pw @ [0]) p q flag g s n =
    sign_and_write (aes pw pw (snd (txs ! k)) @ replicate 100 0) (calls (hp s) + 1) (replicate (length (snd (txs ! k)) + 100) 0)
      (calls (hp s) + 2) p q flag g (s\<lparr>hp := heap_sign (hp s), io_calls := m\<rparr>) n"
proof -
  let ?d = "snd (txs ! k)"
  let ?z = "replicate (length ?d + 100) (0 :: byte)"
  have "length ?d < 2 ^ 31" using wf g(2) by (auto simp: wf_txs_def wf_items_def)
  then have l: "length ?d < 2 ^ 31" "length ?d < 2 ^ 32" by simp_all
  have n: "nextTx g = \<lparr>tx_id = fst (txs ! k), aes_offset = word_of_nat (64 + length (enc_items (take k txs))), aes_length = word_of_nat (length ?d)\<rparr>"
    using g by (simp add: reading_def)
  have le: "aes_length (nextTx g) \<le> word_of_nat (length ?d) + 10"
    using l unat_u32_len [of "length ?d"] unat_u32_len [of "length ?d + 10"] n by (simp add: word_le_nat_alt)
  note hs = heap_sign_eq [OF h]
  obtain h1 where h1: "free_blk (calls (hp s)) (alloc 1 (alloc 1 (hp s))) = Some h1"
      "malloc (ucast (word_of_nat (length ?d) + 100 :: u32)) h1 = (Some (calls (hp s) + 2), heap_sign (hp s))"
    using hs(3) by blast
  let ?s = "s\<lparr>hp := alloc 1 (alloc 1 (hp s))\<rparr>"
  obtain m where m: "parse_getNextTx p (Some ?z) (word_of_nat (length ?d) + 10) g ?s = Some (0, Some (?d @ replicate 100 0), steps ?s m)"
    using parse_getNextTx_ok [of ?s p sid check gap txs g k ?z, OF _ _ wf g _ le] s by auto
  have "length ?d \<le> length ?z" by simp
  note c = crypt_decryptData_ok [OF aes e l(2) this, of "replicate 100 0" "[0]"]
  show ?thesis
    using m c hs(1,2) h1 unat_plus_100 [OF l(1)]
    unfolding sign_one_def Let_def n next_tx_info.simps
    by (intro exI [of _ m]) (simp add: os_malloc_def os_free_def)
qed

lemma tx_id_reading: "reading g sid txs k \<Longrightarrow> k < length txs \<Longrightarrow> tf_server_id (curFile g) = sid \<and> aes_length (nextTx g) = word_of_nat (length (snd (txs ! k)))"
  by (simp add: reading_def)

lemma os_frees:
  assumes "do { h1 \<leftarrow> free_blk a h; free_blk b h1 } = Some h2"
  obtains h1 where "free_blk a h = Some h1" "free_blk b h1 = Some h2"
  using assms by (auto simp: bind_eq_Some_conv)

text \<open>The three ways on: signed, not signed because the node cannot be reached, and signed after one that was not,
  which makes the call that writes the result fail.\<close>

lemma sign_and_write_signed:
  assumes s: "disk_ok s" "files s p = Some (tx_file sid check gap txs)" and wf: "wf_txs check gap txs"
    and g: "reading g sid txs k" "k < length txs" and h: "no_oom h" "heap_ok h" and q: "res_at s q sid es" "q \<noteq> p"
    and l: "16 \<le> length (snd (txs ! k))" and raw: "raw = frame index tx @ pad" "tx \<noteq> []" "length tx + 9 < 65536"
    and a: "answers n (net_calls n) sid index tx res"
    and res: "res \<noteq> []" "length res + 4 < 2 ^ 31" "length res \<le> length (snd (txs ! k)) + 96"
  shows "\<exists>g' m n'. sign_and_write raw (calls h + 1) (replicate (length (snd (txs ! k)) + 100) 0) (calls h + 2) p q False g
      (s\<lparr>hp := heap_sign h\<rparr>) n = Some (0, False, g', s\<lparr>hp := heap_turn (Some res) h, io_calls := m,
         files := (files s)(q \<mapsto> res_file sid (es @ [(fst (txs ! k), res_frame res)]))\<rparr>, n') \<and>
    reading g' sid txs (Suc k) \<and> net_calls n' = Suc (net_calls n) \<and> net_sock n' = net_sock n \<and> net_peer n' = net_peer n"
proof -
  let ?z = "replicate (length (snd (txs ! k)) + 100) (0 :: byte)" and ?l = "word_of_nat (length (snd (txs ! k))) :: u32"
  note r = tx_id_reading [OF g]
  have l0: "?l \<noteq> 0" using unat_tx_len [OF wf g(2)] l by (auto simp flip: unat_eq_0)
  have rl: "length res < 2 ^ 31" "length res + 4 \<le> length ?z" using res by simp_all
  obtain c' where c': "sign_signTransaction (Some raw) ?l (Some ?z) (?l + 100) 0 sid (heap_sign h) n =
      Some (0, Some (res_frame res @ drop (length res + 4) ?z), word_of_nat (length res + 4), heap_signed (heap_sign h),
        n\<lparr>net_calls := Suc (net_calls n), net_log := net_log n @ [c']\<rparr>)"
    using sign_signTransaction_ok [OF a raw(2,3) l0 res(1) rl, of "heap_sign h" pad "?l + 100" 0] h unfolding raw(1) by auto
  obtain h1 where h1: "free_blk (calls h + 1) (heap_signed (heap_sign h)) = Some h1" "free_blk (calls h + 2) h1 = Some (heap_turn (Some res) h)"
    using heap_turn_free(1) [OF h(2)] by (rule os_frees)
  have "length (res_frame res) < 2 ^ 31" using res(2) by simp
  then obtain g' m where w: "parse_writeToResFile sid (Some (res_frame res @ drop (length res + 4) ?z)) (word_of_nat (length res + 4)) p q g (s\<lparr>hp := h1\<rparr>) =
      Some (0, g', s\<lparr>hp := h1, io_calls := m, files := (files s)(q \<mapsto> res_file sid (es @ [(fst (txs ! k), res_frame res)]))\<rparr>)"
      "reading g' sid txs (Suc k)"
    using parse_writeToResFile_ok [of "s\<lparr>hp := h1\<rparr>" p sid check gap txs g k q es "res_frame res"
        "Some (res_frame res @ drop (length res + 4) ?z)" "drop (length res + 4) ?z"] s wf g q by auto
  show ?thesis
    using c' h1 w unfolding sign_and_write_def r [THEN conjunct1] r [THEN conjunct2] Let_def
    by (simp add: os_free_def)
qed

lemma sign_and_write_refused:
  assumes s: "disk_ok s" "files s p = Some (tx_file sid check gap txs)" and wf: "wf_txs check gap txs"
    and g: "reading g sid txs k" "k < length txs" and h: "no_oom h" "heap_ok h" and q: "res_at s q sid es" "q \<noteq> p"
    and l: "16 \<le> length (snd (txs ! k))" and raw: "raw = frame index tx @ pad" "tx \<noteq> []" "length tx + 9 < 65536"
    and a: "unreachable n (net_calls n)"
  shows "\<exists>g' m n'. sign_and_write raw (calls h + 1) (replicate (length (snd (txs ! k)) + 100) 0) (calls h + 2) p q flag g
      (s\<lparr>hp := heap_sign h\<rparr>) n = Some (0, True, g', s\<lparr>hp := heap_turn None h, io_calls := m,
         files := (files s)(q \<mapsto> res_file sid (es @ [(fst (txs ! k), [])]))\<rparr>, n') \<and>
    reading g' sid txs (Suc k) \<and> net_calls n' = Suc (net_calls n) \<and> net_sock n' = net_sock n \<and> net_peer n' = net_peer n"
proof -
  let ?z = "replicate (length (snd (txs ! k)) + 100) (0 :: byte)" and ?l = "word_of_nat (length (snd (txs ! k))) :: u32"
  note r = tx_id_reading [OF g]
  have l0: "?l \<noteq> 0" using unat_tx_len [OF wf g(2)] l by (auto simp flip: unat_eq_0)
  obtain fds where fds: "sign_signTransaction (Some raw) ?l (Some ?z) (?l + 100) 0 sid (heap_sign h) n =
      Some (-1, Some ?z, 0, heap_refused (heap_sign h), n\<lparr>net_calls := Suc (net_calls n), net_open := fds\<rparr>)"
    using sign_signTransaction_refused [OF a raw(3) l0, of "heap_sign h" index pad ?z "?l + 100" 0 sid] h raw(2) unfolding raw(1) by auto
  obtain h1 where h1: "free_blk (calls h + 1) (heap_refused (heap_sign h)) = Some h1" "free_blk (calls h + 2) h1 = Some (heap_turn None h)"
    using heap_turn_free(2) [OF h(2)] by (rule os_frees)
  obtain g' m where w: "parse_writeToResFile sid None 0 p q g (s\<lparr>hp := h1\<rparr>) =
      Some (0, g', s\<lparr>hp := h1, io_calls := m, files := (files s)(q \<mapsto> res_file sid (es @ [(fst (txs ! k), [])]))\<rparr>)"
      "reading g' sid txs (Suc k)"
    using parse_writeToResFile_ok [of "s\<lparr>hp := h1\<rparr>" p sid check gap txs g k q es "[]" None "[]"] s wf g q by auto
  show ?thesis
    using fds h1 w unfolding sign_and_write_def r [THEN conjunct1] r [THEN conjunct2] Let_def
    by (simp add: os_free_def)
qed

lemma sign_and_write_stuck:
  assumes wf: "wf_txs check gap txs" and g: "reading g sid txs k" "k < length txs" and h: "no_oom h" "heap_ok h"
    and l: "16 \<le> length (snd (txs ! k))" and raw: "raw = frame index tx @ pad" "tx \<noteq> []" "length tx + 9 < 65536"
    and a: "answers n (net_calls n) sid index tx res"
    and res: "res \<noteq> []" "length res + 4 < 2 ^ 31" "length res \<le> length (snd (txs ! k)) + 96"
  shows "\<exists>n'. sign_and_write raw (calls h + 1) (replicate (length (snd (txs ! k)) + 100) 0) (calls h + 2) p q True g
      (s\<lparr>hp := heap_sign h\<rparr>) n = Some (-1, True, g, s\<lparr>hp := heap_turn (Some res) h\<rparr>, n')"
proof -
  let ?z = "replicate (length (snd (txs ! k)) + 100) (0 :: byte)" and ?l = "word_of_nat (length (snd (txs ! k))) :: u32"
  note r = tx_id_reading [OF g]
  have l0: "?l \<noteq> 0" using unat_tx_len [OF wf g(2)] l by (auto simp flip: unat_eq_0)
  have rl: "length res < 2 ^ 31" "length res + 4 \<le> length ?z" using res by simp_all
  obtain c' where c': "sign_signTransaction (Some raw) ?l (Some ?z) (?l + 100) 0 sid (heap_sign h) n =
      Some (0, Some (res_frame res @ drop (length res + 4) ?z), word_of_nat (length res + 4), heap_signed (heap_sign h),
        n\<lparr>net_calls := Suc (net_calls n), net_log := net_log n @ [c']\<rparr>)"
    using sign_signTransaction_ok [OF a raw(2,3) l0 res(1) rl, of "heap_sign h" pad "?l + 100" 0] h unfolding raw(1) by auto
  obtain h1 where h1: "free_blk (calls h + 1) (heap_signed (heap_sign h)) = Some h1" "free_blk (calls h + 2) h1 = Some (heap_turn (Some res) h)"
    using heap_turn_free(1) [OF h(2)] by (rule os_frees)
  have "unat (word_of_nat (length res + 4) :: u32) = length res + 4" using res(2) by (intro unat_u32_len) simp
  then have "(word_of_nat (length res + 4) :: u32) \<noteq> 0" by (metis add_eq_0_iff_both_eq_0 unat_0 zero_neq_numeral)
  then have "parse_writeToResFile sid None (word_of_nat (length res + 4)) p q g s' = Some (-1, g, s')" for s'
    by (simp add: parse_writeToResFile_def)
  then show ?thesis
    using c' h1 unfolding sign_and_write_def r [THEN conjunct1] r [THEN conjunct2] Let_def
    by (simp add: os_free_def)
qed

section \<open>All transactions of a file\<close>

text \<open>What the result file gets.  After a transaction that was not signed every one that is signed makes the
  loop give up: the variable \<^verbatim>\<open>flag\<close> is not reset, and the result is not written.\<close>

fun results :: "bool \<Rightarrow> (byte list \<times> byte list option) list \<Rightarrow> item list \<times> bool" where
  "results flag [] = ([], True)"
| "results flag ((i, None) # r) = (case results True r of (es, ok) \<Rightarrow> ((i, []) # es, ok))"
| "results flag ((i, Some x) # r) =
    (if flag then ([], False) else (case results False r of (es, ok) \<Rightarrow> ((i, res_frame x) # es, ok)))"

text \<open>The number of blocks that are never freed.\<close>

fun blocks_left :: "bool \<Rightarrow> byte list option list \<Rightarrow> nat" where
  "blocks_left flag [] = 0"
| "blocks_left flag (None # r) = blocks_left True r"
| "blocks_left flag (Some x # r) = Suc (if flag then 0 else blocks_left False r)"

lemma card_heap_turn:
  assumes "heap_ok h"
  shows "card (live (heap_turn out h)) = card (live h) + (if out = None then 0 else 1)"
proof -
  have "live h \<subseteq> {..<calls h}" using assms by (auto simp: heap_ok_def)
  then have "finite (live h)" by (rule finite_subset) simp
  moreover have "calls h + 4 \<notin> live h" using assms by (auto simp: heap_ok_def)
  ultimately show ?thesis by (simp add: heap_turn_def)
qed

definition res_put :: "os \<Rightarrow> byte list \<Rightarrow> u32 \<Rightarrow> item list \<Rightarrow> byte list \<rightharpoonup> byte list"
  where "res_put s q sid es = (if es = [] then files s else (files s)(q \<mapsto> res_file sid es))"

lemma finished_reading:
  assumes "reading g sid txs k" "length txs \<le> 10"
  shows "finished g \<longleftrightarrow> length txs \<le> k"
proof -
  have "(word_of_nat (length txs - k) :: u32) = 0 \<longleftrightarrow> length txs - k = 0"
    using assms(2) unat_u32_len [of "length txs - k"] by (auto simp del: of_nat_diff simp flip: unat_eq_0)
  then show ?thesis using assms(1) by (auto simp: finished_def reading_def zero_next_def)
qed

lemma tx_outcome_len: "tx_outcome aes pw n j sid e out \<Longrightarrow> cipher_ok aes \<Longrightarrow> 16 \<le> length (snd e)"
proof -
  assume t: "tx_outcome aes pw n j sid e out" "cipher_ok aes"
  then obtain index tx pad where "aes pw pw (snd e) = frame index tx @ pad" "16 dvd length (snd e)" by (auto simp: tx_outcome_def)
  moreover from this(2) t(2) have "length (aes pw pw (snd e)) = length (snd e)" by (simp add: cipher_ok_def)
  ultimately have "length (snd e) = length tx + 12 + length pad" by simp
  then have "0 < length (snd e)" by linarith
  with \<open>16 dvd length (snd e)\<close> show ?thesis by (rule dvd_imp_le)
qed

lemma sign_one_outcome:
  assumes s: "disk_ok s" "files s p = Some (tx_file sid check gap txs)" and wf: "wf_txs check gap txs"
    and g: "reading g sid txs k" "k < length txs" and h: "no_oom (hp s)" "heap_ok (hp s)"
    and aes: "cipher_ok aes" "length pw = 16" and t: "tx_outcome aes pw n (net_calls n) sid (txs ! k) out"
    and q: "res_at s q sid es" "q \<noteq> p"
  shows "\<exists>g' m n'. sign_one aes (pw @ [0]) p q flag g s n = (if flag \<and> out \<noteq> None
      then Some (-1, True, g, s\<lparr>hp := heap_turn out (hp s), io_calls := m\<rparr>, n')
      else Some (0, out = None, g', s\<lparr>hp := heap_turn out (hp s), io_calls := m,
         files := (files s)(q \<mapsto> res_file sid (es @ [(fst (txs ! k), case out of None \<Rightarrow> [] | Some r \<Rightarrow> res_frame r)]))\<rparr>, n')) \<and>
    (\<not> (flag \<and> out \<noteq> None) \<longrightarrow> reading g' sid txs (Suc k) \<and> net_calls n' = Suc (net_calls n) \<and> net_sock n' = net_sock n \<and> net_peer n' = net_peer n)"
proof -
  note l = tx_outcome_len [OF t aes(1)]
  have d: "16 dvd length (snd (txs ! k))" using t by (simp add: tx_outcome_def)
  obtain index tx pad where f: "aes pw pw (snd (txs ! k)) = frame index tx @ pad" "tx \<noteq> []" "length tx + 9 < 65536"
    and o: "case out of None \<Rightarrow> unreachable n (net_calls n) | Some res \<Rightarrow> answers n (net_calls n) sid index tx res \<and> res \<noteq> [] \<and>
        length res + 4 < 2 ^ 31 \<and> length res \<le> length (snd (txs ! k)) + 96"
    using t by (auto simp: tx_outcome_def)
  have raw: "aes pw pw (snd (txs ! k)) @ replicate 100 0 = frame index tx @ pad @ replicate 100 0" using f(1) by simp
  obtain m where m: "sign_one aes (pw @ [0]) p q flag g s n =
    sign_and_write (aes pw pw (snd (txs ! k)) @ replicate 100 0) (calls (hp s) + 1) (replicate (length (snd (txs ! k)) + 100) 0)
      (calls (hp s) + 2) p q flag g (steps s m\<lparr>hp := heap_sign (hp s)\<rparr>) n"
    using sign_one_reaches [OF s wf g h aes d l, where flag = flag and q = q and n = n] by auto
  have s': "disk_ok (steps s m)" "files (steps s m) p = Some (tx_file sid check gap txs)" "res_at (steps s m) q sid es" using s q by simp_all
  show ?thesis
  proof (cases out)
    case None
    with o have a: "unreachable n (net_calls n)" by simp
    show ?thesis
      using sign_and_write_refused [OF s'(1,2) wf g h s'(3) q(2) l raw f(2,3) a, where flag = flag] unfolding m None by auto
  next
    case (Some r)
    with o have a: "answers n (net_calls n) sid index tx r" "r \<noteq> []" "length r + 4 < 2 ^ 31" "length r \<le> length (snd (txs ! k)) + 96"
      by simp_all
    show ?thesis
      using sign_and_write_signed [OF s'(1,2) wf g h s'(3) q(2) l raw f(2,3) a] sign_and_write_stuck [OF wf g h l raw f(2,3) a, where p = p and q = q and s = "steps s m"]
      unfolding m Some by (cases flag) auto
  qed
qed

lemma tx_outcome_net:
  assumes "net_sock n' = net_sock n" "net_peer n' = net_peer n"
  shows "tx_outcome aes pw n' j sid e out = tx_outcome aes pw n j sid e out"
proof -
  have "unreachable n' j = unreachable n j" "answers n' j sid i tx r = answers n j sid i tx r" for i tx r
    using assms by (simp_all add: unreachable_def answers_def)
  then show ?thesis by (cases out) (simp_all add: tx_outcome_def)
qed

lemma res_at_put:
  assumes "res_at s q sid es"
  shows "res_put s q sid es = files s"
  using assms by (auto simp: res_put_def res_at_def)

lemma sign_txs_loop_refines:
  assumes "disk_ok s" "files s p = Some (tx_file sid check gap txs)" "reading g sid txs k" "k \<le> length txs"
    "length outs = length txs - k" "no_oom (hp s)" "heap_ok (hp s)" "res_at s q sid es"
    "\<And>j. j < length outs \<Longrightarrow> tx_outcome aes pw n (net_calls n + j) sid (txs ! (k + j)) (outs ! j)"
    and wf: "wf_txs check gap txs" and aes: "cipher_ok aes" "length pw = 16" and q: "q \<noteq> p"
  shows "\<exists>g' h m n'. sign_txs_loop aes (pw @ [0]) p q flag g s n =
      Some (if snd (results flag (zip (map fst (drop k txs)) outs)) then 0 else -1, g',
        s\<lparr>hp := h, io_calls := m, files := res_put s q sid (es @ fst (results flag (zip (map fst (drop k txs)) outs)))\<rparr>, n') \<and>
    no_oom h \<and> heap_ok h \<and> card (live h) = card (live (hp s)) + blocks_left flag outs"
  using assms(1-9)
proof (induction outs arbitrary: k flag g s n es)
  case Nil
  then have "finished g" using finished_reading wf by (auto simp: wf_txs_def)
  moreover have "s\<lparr>hp := hp s, io_calls := io_calls s, files := res_put s q sid es\<rparr> = s"
    using res_at_put [OF Nil.prems(8)] by simp
  ultimately show ?case using Nil.prems(6,7)
    by (intro exI [of _ g] exI [of _ "hp s"] exI [of _ "io_calls s"] exI [of _ n]) (simp add: sign_txs_loop.simps)
next
  case (Cons out outs)
  have k: "k < length txs" using Cons.prems(5) by simp
  then have nf: "\<not> finished g" using finished_reading [OF Cons.prems(3)] wf by (simp add: wf_txs_def)
  have z: "zip (map fst (drop k txs)) (out # outs) = (fst (txs ! k), out) # zip (map fst (drop (Suc k) txs)) outs"
    using Cons_nth_drop_Suc [OF k] by (metis list.simps(9) zip_Cons_Cons)
  have t: "tx_outcome aes pw n (net_calls n) sid (txs ! k) out" using Cons.prems(9) [of 0] by simp
  obtain g' m n' where one: "sign_one aes (pw @ [0]) p q flag g s n = (if flag \<and> out \<noteq> None
      then Some (-1, True, g, s\<lparr>hp := heap_turn out (hp s), io_calls := m\<rparr>, n')
      else Some (0, out = None, g', s\<lparr>hp := heap_turn out (hp s), io_calls := m,
         files := (files s)(q \<mapsto> res_file sid (es @ [(fst (txs ! k), case out of None \<Rightarrow> [] | Some r \<Rightarrow> res_frame r)]))\<rparr>, n'))"
    "\<not> (flag \<and> out \<noteq> None) \<Longrightarrow> reading g' sid txs (Suc k) \<and> net_calls n' = Suc (net_calls n) \<and> net_sock n' = net_sock n \<and> net_peer n' = net_peer n"
    using sign_one_outcome [OF Cons.prems(1,2) wf Cons.prems(3) k Cons.prems(6,7) aes t Cons.prems(8) q, of flag] by blast
  show ?case
  proof (cases "flag \<and> out \<noteq> None")
    case True
    then obtain r where r: "out = Some r" "flag" by auto
    have "s\<lparr>hp := heap_turn out (hp s), io_calls := m, files := res_put s q sid es\<rparr> = s\<lparr>hp := heap_turn out (hp s), io_calls := m\<rparr>"
      using res_at_put [OF Cons.prems(8)] by simp
    then show ?thesis unfolding z using r nf one(1) Cons.prems(6,7) card_heap_turn [OF Cons.prems(7), of out]
      by (intro exI [of _ g] exI [of _ "heap_turn out (hp s)"] exI [of _ m] exI [of _ n']) (simp add: sign_txs_loop.simps)
  next
    case False
    let ?e = "(fst (txs ! k), case out of None \<Rightarrow> [] | Some r \<Rightarrow> res_frame r)"
    let ?s = "s\<lparr>hp := heap_turn out (hp s), io_calls := m, files := (files s)(q \<mapsto> res_file sid (es @ [?e]))\<rparr>"
    have n': "reading g' sid txs (Suc k)" "net_calls n' = Suc (net_calls n)" "net_sock n' = net_sock n" "net_peer n' = net_peer n"
      using one(2) [OF False] by simp_all
    have f: "\<And>j. j < length outs \<Longrightarrow> tx_outcome aes pw n' (net_calls n' + j) sid (txs ! (Suc k + j)) (outs ! j)"
      using Cons.prems(9) [of "Suc _"] n' tx_outcome_net [OF n'(3,4)] by simp
    have at: "res_at ?s q sid (es @ [?e])" using Cons.prems(8) by (simp add: res_at_def)
    have st: "disk_ok ?s" "files ?s p = Some (tx_file sid check gap txs)" "Suc k \<le> length txs" "length outs = length txs - Suc k"
      "no_oom (hp ?s)" "heap_ok (hp ?s)"
      using Cons.prems(1,2,5,6,7) k q by simp_all
    obtain g2 h2 m2 n2 where ih: "sign_txs_loop aes (pw @ [0]) p q (out = None) g' ?s n' =
        Some (if snd (results (out = None) (zip (map fst (drop (Suc k) txs)) outs)) then 0 else -1, g2,
          ?s\<lparr>hp := h2, io_calls := m2, files := res_put ?s q sid ((es @ [?e]) @ fst (results (out = None) (zip (map fst (drop (Suc k) txs)) outs)))\<rparr>, n2)"
      "no_oom h2" "heap_ok h2" "card (live h2) = card (live (hp ?s)) + blocks_left (out = None) outs"
      using Cons.IH [OF st(1,2) n'(1) st(3-6) at f] by blast
    have r: "results flag ((fst (txs ! k), out) # l) = (?e # fst (results (out = None) l), snd (results (out = None) l))" for l
      using False by (cases out) (auto split: prod.split)
    have b: "blocks_left flag (out # outs) = (if out = None then 0 else 1) + blocks_left (out = None) outs"
      using False by (cases out) auto
    have "res_put ?s q sid ((es @ [?e]) @ l) = res_put s q sid (es @ ?e # l)" for l by (simp add: res_put_def)
    then show ?thesis unfolding z r b using nf one(1) [unfolded if_not_P [OF False]] ih card_heap_turn [OF Cons.prems(7), of out]
      by (intro exI [of _ g2] exI [of _ h2] exI [of _ m2] exI [of _ n2]) (simp add: sign_txs_loop.simps [of _ _ _ _ flag])
  qed
qed

lemma void_loop_ok:
  assumes "disk_ok s" "files s p = Some (tx_file sid check gap txs)" "reading g sid txs k" "k \<le> length txs" "res_at s q sid es"
    and wf: "wf_txs check gap txs" and q: "q \<noteq> p"
  shows "\<exists>g' m. void_loop p q g s = Some (0, g', s\<lparr>io_calls := m, files := res_put s q sid (es @ map (\<lambda>e. (fst e, [])) (drop k txs))\<rparr>)"
  using assms(1-5)
proof (induction "length txs - k" arbitrary: k g s es)
  case 0
  then have "finished g" "length txs = k" using finished_reading wf by (auto simp: wf_txs_def)
  moreover have "s\<lparr>io_calls := io_calls s, files := res_put s q sid es\<rparr> = s" using res_at_put [OF 0(6)] by simp
  ultimately show ?case by (intro exI [of _ g] exI [of _ "io_calls s"]) (simp add: void_loop.simps)
next
  case (Suc d)
  have k: "k < length txs" using Suc(2) by simp
  then have nf: "\<not> finished g" using finished_reading [OF Suc(5)] wf by (simp add: wf_txs_def)
  have sid: "tf_server_id (curFile g) = sid" using Suc(5) by (simp add: reading_def)
  let ?e = "(fst (txs ! k), [])"
  obtain g' m where w: "parse_writeToResFile sid None 0 p q g s = Some (0, g', s\<lparr>io_calls := m, files := (files s)(q \<mapsto> res_file sid (es @ [?e]))\<rparr>)"
      "reading g' sid txs (Suc k)"
    using parse_writeToResFile_ok [OF Suc(3,4) wf Suc(5) k Suc(7) q, of "[]" None "[]"] by auto
  let ?s = "s\<lparr>io_calls := m, files := (files s)(q \<mapsto> res_file sid (es @ [?e]))\<rparr>"
  have st: "d = length txs - Suc k" "disk_ok ?s" "files ?s p = Some (tx_file sid check gap txs)" "Suc k \<le> length txs" "res_at ?s q sid (es @ [?e])"
    using Suc(2,3,4,7) k q by (auto simp: res_at_def)
  obtain g2 m2 where ih: "void_loop p q g' ?s = Some (0, g2, ?s\<lparr>io_calls := m2, files := res_put ?s q sid ((es @ [?e]) @ map (\<lambda>e. (fst e, [])) (drop (Suc k) txs))\<rparr>)"
    using Suc(1) [OF st(1-3) w(2) st(4,5)] by blast
  have "drop k txs = txs ! k # drop (Suc k) txs" using Cons_nth_drop_Suc [OF k] by simp
  then show ?case using nf sid w ih
    by (intro exI [of _ g2] exI [of _ m2]) (simp add: void_loop.simps [of _ _ g] res_put_def)
qed

section \<open>The whole file\<close>

lemma parse_getCheckBlock_ok:
  assumes s: "disk_ok s" "files s p = Some (tx_file sid check gap txs)" and c: "length check = 16" "length b = 16"
  shows "\<exists>m. parse_getCheckBlock p i b 16 s = (0, sid, check, steps s m)"
proof -
  let ?r = "u32_le (word_of_nat (length txs)) @ gap @ enc_items txs"
  have "read_into \<lparr>fd_path = p, fd_off = 0\<rparr> (u32_le i) (steps s j) = (4, u32_le sid, \<lparr>fd_path = p, fd_off = 4\<rparr>, steps s (Suc j))" for j
    using read_into_disk [of "steps s j" p "tx_file sid check gap txs" "[]" "u32_le sid" "check @ ?r" 0 "u32_le i"] s
    by (simp add: tx_file_def)
  moreover have "read_into \<lparr>fd_path = p, fd_off = 4\<rparr> b (steps s j) = (16, check, \<lparr>fd_path = p, fd_off = 20\<rparr>, steps s (Suc j))" for j
    using read_into_disk [of "steps s j" p "tx_file sid check gap txs" "u32_le sid" check ?r 4 b] s c by (simp add: tx_file_def)
  ultimately show ?thesis
    using open_existing_disk [OF s] s(2) by (simp add: parse_getCheckBlock_def getCheckBlock_def access_def dom_def wire_simps)
qed

text \<open>The situation of a mission: a transaction file for server \<^verbatim>\<open>k\<close> of the list, whose secret and counter
  are in order, and no result file yet.\<close>

definition mission_ready :: "otp_ops \<Rightarrow> cipher \<Rightarrow> os \<Rightarrow> server_info list \<Rightarrow> nat \<Rightarrow> byte list \<Rightarrow> byte list \<Rightarrow> byte list \<Rightarrow> byte list \<Rightarrow> item list \<Rightarrow> bool" where
  "mission_ready ops aes s infos k p q check gap txs \<longleftrightarrow> disk_ok s \<and> no_oom (hp s) \<and> heap_ok (hp s) \<and> hmac_ok ops \<and> cipher_ok aes \<and>
     servers s infos \<and> 0 < k \<and> k < length infos \<and> secret16 (server_secret (infos ! k)) \<and> server_counter (infos ! k) \<noteq> 0 \<and>
     unat (server_counter (infos ! k)) + 5 < 2 ^ 32 \<and>
     files s p = Some (tx_file (word_of_nat k) check gap txs) \<and> wf_txs check gap txs \<and>
     dirname q \<in> dirs s \<and> q \<notin> dom (files s) \<and> q \<notin> dirs s"

text \<open>The first of the next five passwords that fits the check block, 5 for none.\<close>

definition fitting :: "otp_ops \<Rightarrow> cipher \<Rightarrow> server_info \<Rightarrow> byte list \<Rightarrow> u32 \<Rightarrow> nat" where
  "fitting ops aes i check sid =
    first_fit (\<lambda>j. check_id aes check (passwd ops (server_secret i) (server_counter i + word_of_nat j)) = sid) 0 5"

text \<open>What both kinds of missions begin with.\<close>

lemma mission_start:
  assumes r: "mission_ready ops aes s infos k p q check gap txs"
  obtains m1 m2 m3 g1 where "access p s = 0"
    "parse_getCheckBlock p 0 (replicate 16 0) 16 s = (0, word_of_nat k, check, steps s m1)"
    "server_getServerInfo zero_info (word_of_nat k) (steps s m1) = Some (0, infos ! k, steps s m2)"
    "hotp_genNHotp ops (server_secret (infos ! k) @ [0]) (server_counter (infos ! k)) 5 (replicate 85 0) 85 (hp s) =
      Some (0, passwds ops (server_secret (infos ! k)) (server_counter (infos ! k)) 5, tick 25 (hp s))"
    "find_hotp aes check (word_of_nat k) (passwds ops (server_secret (infos ! k)) (server_counter (infos ! k)) 5) 5 0 (replicate 16 0) =
      Some (0, fitting ops aes (infos ! k) check (word_of_nat k))"
    "parse_parseTxFile p g (s\<lparr>hp := tick 25 (hp s), io_calls := m2\<rparr>) = (0, g1, s\<lparr>hp := tick 25 (hp s), io_calls := m3\<rparr>)"
    "reading g1 (word_of_nat k) txs 0" "res_at (s\<lparr>hp := tick 25 (hp s), io_calls := m3\<rparr>) q (word_of_nat k) []"
    "q \<noteq> p" "q \<noteq> SERVERLISTPATH" "txs \<noteq> []"
proof -
  note m = r [unfolded mission_ready_def]
  have a: "access p s = 0" using m by (simp add: access_def dom_def)
  obtain m1 where c: "parse_getCheckBlock p 0 (replicate 16 0) 16 s = (0, word_of_nat k, check, steps s m1)"
    using parse_getCheckBlock_ok [of s p "word_of_nat k" check gap txs "replicate 16 0" 0] m by (auto simp: wf_txs_def)
  obtain m2 where i: "server_getServerInfo zero_info (word_of_nat k) (steps s m1) = Some (0, infos ! k, steps s m2)"
    using server_getServerInfo_ok [of "steps s m1" infos k zero_info] m by (auto simp: servers_def)
  have gen: "hotp_genNHotp ops (server_secret (infos ! k) @ [0]) (server_counter (infos ! k)) 5 (replicate 85 0) 85 (hp s) =
      Some (0, passwds ops (server_secret (infos ! k)) (server_counter (infos ! k)) 5, tick 25 (hp s))"
    using hotp_genNHotp_eq [of ops "server_secret (infos ! k)" "server_counter (infos ! k)" "hp s" "replicate 85 0" "[]"] m by simp
  have fh: "find_hotp aes check (word_of_nat k) (passwds ops (server_secret (infos ! k)) (server_counter (infos ! k)) 5) 5 0 (replicate 16 0) =
      Some (0, fitting ops aes (infos ! k) check (word_of_nat k))"
    using find_hotp_ok [of aes check "replicate 16 0" 0 5 "word_of_nat k"] m by (simp add: fitting_def wf_txs_def)
  let ?s = "s\<lparr>hp := tick 25 (hp s), io_calls := m2\<rparr>"
  obtain g1 m3 where p1: "parse_parseTxFile p g ?s = (0, g1, steps ?s m3)" "reading g1 (word_of_nat k) txs 0"
    using parse_parseTxFile_ok [of ?s p "word_of_nat k" check gap txs g] m by auto
  have "q \<noteq> p" "q \<noteq> SERVERLISTPATH" "res_at (steps ?s m3) q (word_of_nat k) []" "txs \<noteq> []"
    using m by (auto simp: res_at_def wf_txs_def servers_def)
  then show ?thesis using that a c i gen fh p1 by simp
qed

lemma tick_heap: "no_oom h \<Longrightarrow> no_oom (tick k h)" "heap_ok h \<Longrightarrow> heap_ok (tick k h)"
  by (auto simp: tick_def heap_ok_def no_oom_def)

lemma start_sign_tx_file_wrong:
  assumes r: "mission_ready ops aes s infos k p q check gap txs" and f: "fitting ops aes (infos ! k) check (word_of_nat k) = 5"
  shows "\<exists>g' m h. start_sign_tx_file ops aes p q g s n = Some (0, g', s\<lparr>hp := h, io_calls := m,
    files := (files s)(q \<mapsto> res_file (word_of_nat k) (map (\<lambda>e. (fst e, [])) txs))\<rparr>, n)"
proof -
  note m = r [unfolded mission_ready_def]
  obtain m1 m2 m3 g1 where c: "access p s = 0"
    "parse_getCheckBlock p 0 (replicate 16 0) 16 s = (0, word_of_nat k, check, steps s m1)"
    "server_getServerInfo zero_info (word_of_nat k) (steps s m1) = Some (0, infos ! k, steps s m2)"
    "hotp_genNHotp ops (server_secret (infos ! k) @ [0]) (server_counter (infos ! k)) 5 (replicate 85 0) 85 (hp s) =
      Some (0, passwds ops (server_secret (infos ! k)) (server_counter (infos ! k)) 5, tick 25 (hp s))"
    "find_hotp aes check (word_of_nat k) (passwds ops (server_secret (infos ! k)) (server_counter (infos ! k)) 5) 5 0 (replicate 16 0) =
      Some (0, fitting ops aes (infos ! k) check (word_of_nat k))"
    "parse_parseTxFile p g (s\<lparr>hp := tick 25 (hp s), io_calls := m2\<rparr>) = (0, g1, s\<lparr>hp := tick 25 (hp s), io_calls := m3\<rparr>)"
    and p1: "reading g1 (word_of_nat k) txs 0" "res_at (s\<lparr>hp := tick 25 (hp s), io_calls := m3\<rparr>) q (word_of_nat k) []"
    "q \<noteq> p" "q \<noteq> SERVERLISTPATH" "txs \<noteq> []"
    by (rule mission_start [OF r])
  let ?s = "s\<lparr>hp := tick 25 (hp s), io_calls := m3\<rparr>"
  obtain g2 m4 where v: "void_loop p q g1 ?s = Some (0, g2, ?s\<lparr>io_calls := m4, files := res_put ?s q (word_of_nat k) (map (\<lambda>e. (fst e, [])) txs)\<rparr>)"
    using void_loop_ok [of ?s p "word_of_nat k" check gap txs g1 0 q "[]"] m p1 by auto
  then show ?thesis
    using c p1(5) by (simp add: start_sign_tx_file_def void_file_def Let_def res_put_def f) blast
qed

lemma start_sign_tx_file_right:
  assumes r: "mission_ready ops aes s infos k p q check gap txs" and f: "fitting ops aes (infos ! k) check (word_of_nat k) = i" "i < 5"
    and o: "length outs = length txs" "\<And>j. j < length txs \<Longrightarrow>
      tx_outcome aes (passwd ops (server_secret (infos ! k)) (server_counter (infos ! k) + word_of_nat i)) n (net_calls n + j) (word_of_nat k) (txs ! j) (outs ! j)"
  shows "\<exists>g' m h n'. start_sign_tx_file ops aes p q g s n =
    (let (es, ok) = results False (zip (map fst txs) outs); fs = res_put s q (word_of_nat k) es;
         info = (infos ! k)\<lparr>server_counter := server_counter (infos ! k) + (word_of_nat i + 1)\<rparr>
     in Some (if ok then 0 else -1, g', s\<lparr>hp := h, io_calls := m,
          files := if ok then fs(SERVERLISTPATH \<mapsto> list_file (infos[k := info])) else fs\<rparr>, n')) \<and>
    no_oom h \<and> heap_ok h \<and> card (live h) = card (live (hp s)) + blocks_left False outs"
proof -
  note m = r [unfolded mission_ready_def]
  let ?i = "infos ! k" and ?sid = "word_of_nat k :: u32"
  let ?pw = "passwd ops (server_secret ?i) (server_counter ?i + word_of_nat i)"
  let ?info = "?i\<lparr>server_counter := server_counter ?i + (word_of_nat i + 1)\<rparr>"
  obtain m1 m2 m3 g1 where c: "access p s = 0"
    "parse_getCheckBlock p 0 (replicate 16 0) 16 s = (0, word_of_nat k, check, steps s m1)"
    "server_getServerInfo zero_info (word_of_nat k) (steps s m1) = Some (0, infos ! k, steps s m2)"
    "hotp_genNHotp ops (server_secret (infos ! k) @ [0]) (server_counter (infos ! k)) 5 (replicate 85 0) 85 (hp s) =
      Some (0, passwds ops (server_secret (infos ! k)) (server_counter (infos ! k)) 5, tick 25 (hp s))"
    "find_hotp aes check (word_of_nat k) (passwds ops (server_secret (infos ! k)) (server_counter (infos ! k)) 5) 5 0 (replicate 16 0) =
      Some (0, fitting ops aes (infos ! k) check (word_of_nat k))"
    "parse_parseTxFile p g (s\<lparr>hp := tick 25 (hp s), io_calls := m2\<rparr>) = (0, g1, s\<lparr>hp := tick 25 (hp s), io_calls := m3\<rparr>)"
    and p1: "reading g1 (word_of_nat k) txs 0" "res_at (s\<lparr>hp := tick 25 (hp s), io_calls := m3\<rparr>) q (word_of_nat k) []"
    "q \<noteq> p" "q \<noteq> SERVERLISTPATH" "txs \<noteq> []"
    by (rule mission_start [OF r])
  let ?s = "s\<lparr>hp := tick 25 (hp s), io_calls := m3\<rparr>"
  obtain rr where rr: "drop (i * 17) (passwds ops (server_secret ?i) (server_counter ?i) 5) = ?pw @ 0 # rr" using passwds_at [OF f(2)] by blast
  have st: "disk_ok ?s" "files ?s p = Some (tx_file ?sid check gap txs)" "no_oom (hp ?s)" "heap_ok (hp ?s)" "wf_txs check gap txs" "cipher_ok aes"
    using m by (auto simp: tick_def heap_ok_def no_oom_def)
  obtain g2 h m4 n' where l: "sign_txs_loop aes (?pw @ [0]) p q False g1 ?s n =
      Some (if snd (results False (zip (map fst txs) outs)) then 0 else -1, g2,
        ?s\<lparr>hp := h, io_calls := m4, files := res_put ?s q ?sid (fst (results False (zip (map fst txs) outs)))\<rparr>, n')"
    and h: "no_oom h" "heap_ok h" "card (live h) = card (live (hp ?s)) + blocks_left False outs"
    using sign_txs_loop_refines [of ?s p ?sid check gap txs g1 0 outs q "[]" aes ?pw n False] st p1 o by auto
  let ?fs = "res_put s q ?sid (fst (results False (zip (map fst txs) outs)))"
  let ?s4 = "s\<lparr>hp := h, io_calls := m4, files := ?fs\<rparr>"
  have sv: "servers ?s4 infos" using m p1(4) by (auto simp: servers_def res_put_def)
  have io: "info_ok ?info" "server_id ?info = ?sid" using m by (auto simp: servers_def wf_list_def)
  obtain m5 where set: "server_setServerInfo ?info ?s4 = Some (0, ?s4\<lparr>io_calls := m5, files := ?fs(SERVERLISTPATH \<mapsto> list_file (infos[k := ?info]))\<rparr>)"
    using server_setServerInfo_ok [OF _ sv _ _ io] m by auto
  have e: "res_put ?s q ?sid x = res_put s q ?sid x" for x by (simp add: res_put_def)
  have l': "sign_txs_loop aes (?pw @ [0]) p q False g1 ?s n = Some (if snd (results False (zip (map fst txs) outs)) then 0 else -1, g2, ?s4, n')"
    using l unfolding e by simp
  have hot: "rd 16 (drop (i * 17) (passwds ops (server_secret ?i) (server_counter ?i) 5)) = Some ?pw" unfolding rr by (simp add: rd_app)
  have i5: "i \<noteq> 5" using f(2) by simp
  have eq: "start_sign_tx_file ops aes p q g s n = (if snd (results False (zip (map fst txs) outs))
      then Some (0, g2, ?s4\<lparr>io_calls := m5, files := ?fs(SERVERLISTPATH \<mapsto> list_file (infos[k := ?info]))\<rparr>, n')
      else Some (-1, g2, ?s4, n'))"
    unfolding start_sign_tx_file_def sign_file_def Let_def using c f(1) i5 hot l' set by simp
  have ch: "no_oom h" "heap_ok h" "card (live h) = card (live (hp s)) + blocks_left False outs" using h by (simp_all add: tick_def)
  show ?thesis
  proof (cases "snd (results False (zip (map fst txs) outs))")
    case True
    then show ?thesis unfolding eq Let_def using ch
      by (intro exI [of _ g2] exI [of _ m5] exI [of _ h] exI [of _ n']) (simp add: case_prod_beta)
  next
    case False
    then show ?thesis unfolding eq Let_def using ch
      by (intro exI [of _ g2] exI [of _ m4] exI [of _ h] exI [of _ n']) (simp add: case_prod_beta)
  qed
qed

end
