(* ===== verification/Mission_Theorems.thy ===== *)
theory Mission_Theorems
  imports Mission_Correct
begin

text \<open>The properties of a mission, with the data they are applied to.\<close>

lemma results_all_signed: "results False (zip ids (map Some xs)) = (map (\<lambda>(i, x). (i, res_frame x)) (zip ids xs), True)"
  by (induction ids arbitrary: xs) (simp, case_tac xs, auto)

section \<open>Data\<close>

definition demo_otp :: otp_ops
  where "demo_otp = \<lparr>gcrypt_ok = True, hmac = (\<lambda>a k m. take 20 (rev m @ replicate 20 0))\<rparr>"

text \<open>A cipher: the key is added to the data bit by bit.\<close>

definition xor_cipher :: cipher
  where "xor_cipher k iv d = map2 (XOR) d (concat (replicate (length d) k) @ replicate (length d) 0)"

lemma length_xor_cipher [simp]: "length (xor_cipher k iv d) = length d"
  by (simp add: xor_cipher_def)

lemma xor_cipher_twice: "xor_cipher k iv (xor_cipher k iv' d) = d"
proof (rule nth_equalityI)
  fix i assume "i < length (xor_cipher k iv (xor_cipher k iv' d))"
  then have i: "i < length d" by simp
  let ?s = "concat (replicate (length d) k) @ replicate (length d) 0"
  have "length d \<le> length ?s" by simp
  with i have "i < length ?s" by (rule less_le_trans)
  then have "xor_cipher k iv'' d' ! i = d' ! i XOR ?s ! i" if "length d' = length d" for iv'' d'
    using i that by (simp add: xor_cipher_def del: length_append)
  then show "xor_cipher k iv (xor_cipher k iv' d) ! i = d ! i" by (simp add: xor.assoc)
qed simp

definition demo_secret :: "byte list"
  where "demo_secret = replicate 16 0x41"

definition demo_servers :: "server_info list" where
  "demo_servers = [zero_info\<lparr>server_id := 2\<rparr>,
     \<lparr>server_id = 1, server_start = 10, server_txs = 0, server_secret = demo_secret, server_counter = 1, server_pad = replicate 4 0\<rparr>]"

definition demo_pw :: "byte list"
  where "demo_pw = passwd demo_otp demo_secret 1"

definition demo_check :: "byte list"
  where "demo_check = xor_cipher demo_pw [] (u32_le 1 @ replicate 12 0)"

definition demo_item :: "byte \<Rightarrow> item"
  where "demo_item b = (replicate 32 b, xor_cipher demo_pw [] (frame 0 [1, 2, 3, 4]))"

definition demo_dir :: "byte list \<Rightarrow> os" where
  "demo_dir check = \<lparr>hp = \<lparr>live = {}, calls = 0, fails = (\<lambda>_ _. False)\<rparr>, dirs = {str ''/r/''},
     files = [SERVERLISTPATH \<mapsto> list_file demo_servers, str ''/t/1.tx'' \<mapsto> tx_file 1 check (replicate 4 0) [demo_item 7, demo_item 8]],
     io_calls = 0, io_max = (\<lambda>_. Some (2 ^ 32))\<rparr>"

definition demo_network :: "(nat \<Rightarrow> bool) \<Rightarrow> net" where
  "demo_network up = \<lparr>net_calls = 0, net_sock = (\<lambda>_. 3),
     net_peer = (\<lambda>k. if up k then Some (demo_conn (sign_reply 1 0 [1, 2, 3, 4] [9])) else None), net_open = [], net_log = []\<rparr>"

definition demo_vars :: parse_state
  where "demo_vars = \<lparr>curFile = zero_file, nextTx = zero_next\<rparr>"

definition demo_out :: "(nat \<Rightarrow> bool) \<Rightarrow> nat \<Rightarrow> byte list option"
  where "demo_out up k = (if up k then Some [9] else None)"

lemma demo_parts:
  "cipher_ok xor_cipher" "hmac_ok demo_otp" "secret16 demo_secret" "wf_list demo_servers" "length demo_check = 16"
  "length (snd (demo_item b)) = 16" "length (fst (demo_item b)) = 32"
proof -
  show "wf_list demo_servers" by (auto simp: less_Suc_eq wf_list_def demo_servers_def info_ok_def zero_info_def demo_secret_def)
  have "min m 20 + (20 - m) = 20" for m :: nat by simp
  then show "hmac_ok demo_otp" by (simp add: hmac_ok_def demo_otp_def)
qed (simp_all add: cipher_ok_def secret16_def demo_secret_def b32_alphabet_def demo_check_def demo_item_def)

lemma demo_ready:
  assumes "length check = 16"
  shows "mission_ready demo_otp xor_cipher (demo_dir check) demo_servers 1 (str ''/t/1.tx'') (str ''/r/1.res'') check (replicate 4 0) [demo_item 7, demo_item 8]"
proof -
  have p: "SERVERLISTPATH \<noteq> str ''/t/1.tx''" "str ''/r/1.res'' \<noteq> SERVERLISTPATH" "str ''/r/1.res'' \<noteq> str ''/t/1.tx''"
    "str ''/r/1.res'' \<noteq> str ''/r/''" "dirname (str ''/r/1.res'') = str ''/r/''"
    by (simp_all add: SERVERLISTPATH_def str_def dirname_def)
  have d: "disk_ok (demo_dir check)" "no_oom (hp (demo_dir check))" "heap_ok (hp (demo_dir check))"
    by (simp_all add: disk_ok_def demo_dir_def no_oom_def heap_ok_def)
  have i: "demo_servers ! 1 = \<lparr>server_id = 1, server_start = 10, server_txs = 0, server_secret = demo_secret, server_counter = 1, server_pad = replicate 4 0\<rparr>"
    "length demo_servers = 2"
    by (simp_all add: demo_servers_def)
  have w: "wf_txs check (replicate 4 0) [demo_item 7, demo_item 8]"
    using assms demo_parts(6,7) by (simp add: wf_txs_def)
  have s: "servers (demo_dir check) demo_servers" using p demo_parts(4) by (simp add: servers_def demo_dir_def)
  have f: "files (demo_dir check) (str ''/t/1.tx'') = Some (tx_file (word_of_nat 1) check (replicate 4 0) [demo_item 7, demo_item 8])"
    by (simp add: demo_dir_def)
  have q: "dirname (str ''/r/1.res'') \<in> dirs (demo_dir check)" "str ''/r/1.res'' \<notin> dom (files (demo_dir check))" "str ''/r/1.res'' \<notin> dirs (demo_dir check)"
    using p by (simp_all add: demo_dir_def)
  show ?thesis using d demo_parts(1-3) s i w f q by (simp add: mission_ready_def)
qed

lemma demo_outcome:
  assumes "k < 2"
  shows "tx_outcome xor_cipher demo_pw (demo_network up) (net_calls (demo_network up) + k) (word_of_nat 1) ([demo_item 7, demo_item 8] ! k) (demo_out up k)"
proof -
  have "[demo_item 7, demo_item 8] ! k = demo_item (if k = 0 then 7 else 8)" using assms by (cases k) auto
  moreover have "xor_cipher demo_pw demo_pw (snd (demo_item b)) = frame 0 [1, 2, 3, 4] @ []" for b
    by (simp add: demo_item_def xor_cipher_twice)
  ultimately show ?thesis
    using demo_net demo_parts(6)
    unfolding tx_outcome_def
    by (intro conjI exI [of _ 0] exI [of _ "[1, 2, 3, 4]"] exI [of _ "[]"])
      (auto simp: demo_out_def demo_network_def answers_def unreachable_def demo_conn_ok)
qed

lemma demo_outcomes:
  assumes "j < length [demo_item 7, demo_item 8]"
  shows "tx_outcome xor_cipher (passwd demo_otp (server_secret (demo_servers ! 1)) (server_counter (demo_servers ! 1) + word_of_nat 0))
    (demo_network up) (net_calls (demo_network up) + j) (word_of_nat 1) ([demo_item 7, demo_item 8] ! j) (map (demo_out up) [0, 1] ! j)"
proof -
  have "map (demo_out up) [0, 1] ! j = demo_out up j" using assms by (cases j) auto
  moreover have "passwd demo_otp (server_secret (demo_servers ! 1)) (server_counter (demo_servers ! 1) + word_of_nat 0) = demo_pw"
    by (simp add: demo_servers_def demo_pw_def)
  ultimately show ?thesis using demo_outcome [of j up] assms by simp
qed

lemma demo_files: "str ''/r/1.res'' \<noteq> SERVERLISTPATH" "str ''/t/1.tx'' \<noteq> SERVERLISTPATH" "str ''/r/1.res'' \<noteq> str ''/t/1.tx''"
  by (simp_all add: SERVERLISTPATH_def str_def)

lemma demo_fits: "fitting demo_otp xor_cipher (demo_servers ! 1) demo_check (word_of_nat 1) = 0"
proof -
  have "check_id xor_cipher demo_check demo_pw = 1"
    by (simp add: check_id_def demo_check_def xor_cipher_twice wire_simps)
  then have "first_fit (\<lambda>j. check_id xor_cipher demo_check (passwd demo_otp demo_secret (1 + word_of_nat j)) = 1) 0 (Suc n) = 0" for n
    by (simp add: demo_pw_def)
  from this [of 4] show ?thesis by (simp add: fitting_def demo_servers_def)
qed

section \<open>Properties\<close>

text \<open>C2: A file whose check block fits.  On a disk that works, with a cipher that keeps the length of whole
  blocks, for a well-formed transaction file of a server of the list whose transactions decrypt to
  frames: the result file gets, in their order, the signed transaction of each one the node signed
  and an empty result for each one for which it could not be reached, and the counter of the server moves
  behind the password; when a transaction is signed after one for which the node could not be reached, only
  the results before it are written, -1 is returned and the counter stays.\<close>

theorem mission_refines:
  assumes r: "mission_ready ops aes s infos k p q check gap txs" and f: "fitting ops aes (infos ! k) check (word_of_nat k) = i" "i < 5"
    and o: "length outs = length txs" "\<And>j. j < length txs \<Longrightarrow>
      tx_outcome aes (passwd ops (server_secret (infos ! k)) (server_counter (infos ! k) + word_of_nat i)) n (net_calls n + j) (word_of_nat k) (txs ! j) (outs ! j)"
  shows "\<exists>g' s' n'. start_sign_tx_file ops aes p q g s n = Some (if snd (results False (zip (map fst txs) outs)) then 0 else -1, g', s', n') \<and>
    files s' = (let fs = res_put s q (word_of_nat k) (fst (results False (zip (map fst txs) outs)));
        info = (infos ! k)\<lparr>server_counter := server_counter (infos ! k) + (word_of_nat i + 1)\<rparr>
      in if snd (results False (zip (map fst txs) outs)) then fs(SERVERLISTPATH \<mapsto> list_file (infos[k := info])) else fs)"
  using start_sign_tx_file_right [OF assms, of g] by (auto simp: case_prod_beta Let_def)

lemma mission_refines_witness:
  "\<exists>g' s' n'. start_sign_tx_file demo_otp xor_cipher (str ''/t/1.tx'') (str ''/r/1.res'') demo_vars (demo_dir demo_check) (demo_network (\<lambda>k. k = 0)) =
      Some (0, g', s', n') \<and>
    files s' (str ''/r/1.res'') = Some (res_file 1 [(replicate 32 7, res_frame [9]), (replicate 32 8, [])])"
proof -
  have r: "results False (zip (map fst [demo_item 7, demo_item 8]) (map (demo_out (\<lambda>k. k = 0)) [0, 1])) =
      ([(replicate 32 7, res_frame [9]), (replicate 32 8, [])], True)"
    by (simp add: demo_out_def demo_item_def)
  have "length (map (demo_out (\<lambda>k. k = 0)) [0, 1]) = length [demo_item 7, demo_item 8]" by simp
  from mission_refines [OF demo_ready [OF demo_parts(5)] demo_fits _ this demo_outcomes, of demo_vars]
  show ?thesis unfolding r using demo_files by (fastforce simp: res_put_def)
qed

lemma wrong_result:
  assumes r: "mission_ready ops aes s infos k p q check gap txs"
    and f: "\<And>i. i < 5 \<Longrightarrow> check_id aes check (passwd ops (server_secret (infos ! k)) (server_counter (infos ! k) + word_of_nat i)) \<noteq> word_of_nat k"
  shows "\<exists>g' s'. start_sign_tx_file ops aes p q g s n = Some (0, g', s', n) \<and> servers s' infos \<and>
    files s' q = Some (res_file (word_of_nat k) (map (\<lambda>e. (fst e, [])) txs))"
proof -
  have "fitting ops aes (infos ! k) check (word_of_nat k) = 5"
    using f unfolding fitting_def by (subst first_fit_all [of _ 0 5, simplified]) simp
  then show ?thesis using start_sign_tx_file_wrong [OF r, of g n] r by (fastforce simp: servers_def mission_ready_def)
qed

text \<open>C15: A wrong password.  When none of the next five passwords of the server fits the check block, the
  node is not contacted, every transaction gets an empty result and the list of servers stays as it is;
  the function returns 0.\<close>

theorem wrong_password:
  assumes r: "mission_ready ops aes s infos k p q check gap txs"
    and f: "\<And>i. i < 5 \<Longrightarrow> check_id aes check (passwd ops (server_secret (infos ! k)) (server_counter (infos ! k) + word_of_nat i)) \<noteq> word_of_nat k"
  shows "\<exists>g' s'. start_sign_tx_file ops aes p q g s n = Some (0, g', s', n) \<and> servers s' infos \<and>
    files s' q = Some (res_file (word_of_nat k) (map (\<lambda>e. (fst e, [])) txs))"
  using wrong_result [OF assms] .

text \<open>The passwords of the counters 1 to 6.\<close>

definition demo_number :: "nat \<Rightarrow> byte list"
  where "demo_number j = (if j = 1 then str ''777216'' else if j = 2 then str ''554432'' else if j = 3 then str ''331648''
     else if j = 4 then str ''108864'' else if j = 5 then str ''886080'' else str ''663296'') @ replicate 10 0x30"

lemma demo_passwd: "\<lbrakk>1 \<le> j; j \<le> 6\<rbrakk> \<Longrightarrow> passwd demo_otp demo_secret (word_of_nat j) = demo_number j"
proof -
  assume "1 \<le> j" "j \<le> 6"
  then have "j = 1 \<or> j = 2 \<or> j = 3 \<or> j = 4 \<or> j = 5 \<or> j = 6" by linarith
  then show ?thesis
    by (elim disjE) (simp_all add: passwd_def hotp_of_def demo_otp_def demo_number_def hotp_number_def six_digits_def str_def u64_le_def le_of_nat_numeral)
qed

lemma demo_ids:
  "\<lbrakk>1 \<le> j; j \<le> 6\<rbrakk> \<Longrightarrow> check_id xor_cipher demo_check (passwd demo_otp demo_secret (word_of_nat j)) = 1 \<longleftrightarrow> j = 1"
  "\<lbrakk>1 \<le> j; j \<le> 6\<rbrakk> \<Longrightarrow> check_id xor_cipher (replicate 16 0) (passwd demo_otp demo_secret (word_of_nat j)) \<noteq> 1"
proof -
  have u: "take 4 (xor_cipher k iv d) = map2 (XOR) (take 4 d) (take 4 k)" if "length k = 16" "length d = 16" for k iv d
  proof -
    have "take 4 (concat (replicate 16 k) @ replicate 16 0) = take 4 k" using that(1) by (simp add: numeral_eq_Suc)
    then show ?thesis using that by (simp add: xor_cipher_def take_map take_zip)
  qed
  have l: "length (demo_number j) = 16" "length demo_pw = 16" for j by (simp_all add: demo_number_def str_def demo_pw_def)
  have z: "replicate 4 (0 :: byte) = [0, 0, 0, 0]" by (simp add: numeral_eq_Suc)
  have pw: "take 4 demo_pw = str ''7772''" using demo_passwd [of 1] by (simp add: demo_pw_def demo_number_def str_def)
  assume j: "1 \<le> j" "j \<le> 6"
  then have d: "j = 1 \<or> j = 2 \<or> j = 3 \<or> j = 4 \<or> j = 5 \<or> j = 6" by linarith
  show "check_id xor_cipher demo_check (passwd demo_otp demo_secret (word_of_nat j)) = 1 \<longleftrightarrow> j = 1"
    unfolding demo_passwd [OF j] check_id_def demo_check_def using d
    by (elim disjE) (simp_all add: u l pw, simp_all add: demo_number_def str_def u32_le_def le_of_nat_numeral le_u32_def)
  show "check_id xor_cipher (replicate 16 0) (passwd demo_otp demo_secret (word_of_nat j)) \<noteq> 1"
    unfolding demo_passwd [OF j] check_id_def using d
    by (elim disjE) (simp_all add: u l, simp_all add: z demo_number_def str_def le_u32_def)
qed

lemma wrong_password_witness:
  "\<exists>g' s'. start_sign_tx_file demo_otp xor_cipher (str ''/t/1.tx'') (str ''/r/1.res'') demo_vars (demo_dir (replicate 16 0)) (demo_network (\<lambda>k. True)) =
      Some (0, g', s', demo_network (\<lambda>k. True)) \<and>
    servers s' demo_servers \<and> files s' (str ''/r/1.res'') = Some (res_file 1 [(replicate 32 7, []), (replicate 32 8, [])])"
proof -
  have "1 + word_of_nat i = (word_of_nat (Suc i) :: u32)" "word_of_nat (Suc 0) = (1 :: u32)" for i by simp_all
  then have "check_id xor_cipher (replicate 16 0) (passwd demo_otp (server_secret (demo_servers ! 1)) (server_counter (demo_servers ! 1) + word_of_nat i)) \<noteq> word_of_nat 1"
    if "i < 5" for i
    using demo_ids(2) [of "Suc i"] that by (simp add: demo_servers_def del: of_nat_Suc)
  from wrong_password [OF demo_ready this, of demo_vars "demo_network (\<lambda>k. True)"] show ?thesis by (simp add: demo_item_def)
qed

text \<open>C14: Once only.  After a mission that returned 0, the same file is not accepted again, except when
  one of the five passwords behind its own fits the check block by chance: for a second result file the
  node is not contacted and every result is empty.\<close>

theorem accepted_once:
  assumes r: "mission_ready ops aes s infos k p q check gap txs" and f: "fitting ops aes (infos ! k) check (word_of_nat k) = i" "i < 5"
    and o: "length outs = length txs" "\<And>j. j < length txs \<Longrightarrow>
      tx_outcome aes (passwd ops (server_secret (infos ! k)) (server_counter (infos ! k) + word_of_nat i)) n (net_calls n + j) (word_of_nat k) (txs ! j) (outs ! j)"
    and ok: "start_sign_tx_file ops aes p q g s n = Some (0, g1, s1, n1)" and c: "unat (server_counter (infos ! k)) + 10 < 2 ^ 32"
    and w: "\<And>j. i < j \<Longrightarrow> j \<le> i + 5 \<Longrightarrow> check_id aes check (passwd ops (server_secret (infos ! k)) (server_counter (infos ! k) + word_of_nat j)) \<noteq> word_of_nat k"
    and p: "p \<noteq> SERVERLISTPATH" and q: "dirname q2 \<in> dirs s" "q2 \<notin> dom (files s)" "q2 \<notin> dirs s" "q2 \<noteq> q"
  shows "\<exists>g' s' n'. start_sign_tx_file ops aes p q2 g1 s1 n1 = Some (0, g', s', n1) \<and>
    files s' q2 = Some (res_file (word_of_nat k) (map (\<lambda>e. (fst e, [])) txs))"
proof -
  let ?c = "server_counter (infos ! k)" and ?info = "(infos ! k)\<lparr>server_counter := server_counter (infos ! k) + (word_of_nat i + 1)\<rparr>"
  let ?infos = "infos[k := ?info]"
  have u: "unat (word_of_nat j :: u32) = j" if "j \<le> 10" for j using that by (simp add: unat_u32_len)
  have uc: "unat (?c + word_of_nat j) = unat ?c + j" if "j \<le> 10" for j
    using that c u [OF that] unat_add_lem [of ?c "word_of_nat j"] by simp
  have ci: "?c + (word_of_nat i + 1) = ?c + word_of_nat (Suc i)" by (simp add: add.commute)
  have m: "k < length infos" "0 < k" "wf_list infos" "info_ok ?info" "server_id ?info = word_of_nat k" "q \<noteq> p" "q \<noteq> SERVERLISTPATH" "q2 \<noteq> p" "q2 \<noteq> SERVERLISTPATH"
    using r q by (auto simp: mission_ready_def servers_def wf_list_def)
  obtain g' m0 h where e: "s1 = s\<lparr>hp := h, io_calls := m0, files := (res_put s q (word_of_nat k) (fst (results False (zip (map fst txs) outs))))
      (SERVERLISTPATH \<mapsto> list_file ?infos)\<rparr>" "no_oom h" "heap_ok h"
    using start_sign_tx_file_right [OF r f o, of g] ok by (auto simp: case_prod_beta Let_def split: if_split_asm)
  have nz: "?c + word_of_nat (Suc i) \<noteq> 0"
  proof
    assume "?c + word_of_nat (Suc i) = 0"
    then show False using uc [of "Suc i"] f(2) by (simp del: of_nat_Suc)
  qed
  have r2: "mission_ready ops aes s1 ?infos k p q2 check gap txs"
    using r e q m p wf_list_update [OF m(3,2,1,4,5)] uc [of "Suc i"] f(2) c nz
    by (simp add: mission_ready_def servers_def res_put_def ci)
  have "check_id aes check (passwd ops (server_secret (?infos ! k)) (server_counter (?infos ! k) + word_of_nat j)) \<noteq> word_of_nat k" if "j < 5" for j
    using w [of "Suc i + j"] that m(1) by (simp add: add.assoc add.left_commute)
  from wrong_result [OF r2 this] show ?thesis by blast
qed

lemma accepted_once_witness:
  "\<exists>g1 s1 n1 g' s'. start_sign_tx_file demo_otp xor_cipher (str ''/t/1.tx'') (str ''/r/1.res'') demo_vars (demo_dir demo_check) (demo_network (\<lambda>k. True)) =
      Some (0, g1, s1, n1) \<and>
    start_sign_tx_file demo_otp xor_cipher (str ''/t/1.tx'') (str ''/r/2.res'') g1 s1 n1 = Some (0, g', s', n1) \<and>
    files s' (str ''/r/2.res'') = Some (res_file 1 [(replicate 32 7, []), (replicate 32 8, [])])"
proof -
  let ?outs = "map (demo_out (\<lambda>k. True)) [0, 1]"
  have l: "length ?outs = length [demo_item 7, demo_item 8]" by simp
  have "snd (results False (zip (map fst [demo_item 7, demo_item 8]) ?outs))" by (simp add: demo_out_def)
  then obtain g1 s1 n1 where ok: "start_sign_tx_file demo_otp xor_cipher (str ''/t/1.tx'') (str ''/r/1.res'') demo_vars (demo_dir demo_check) (demo_network (\<lambda>k. True)) =
      Some (0, g1, s1, n1)"
    using start_sign_tx_file_right [OF demo_ready [OF demo_parts(5)] demo_fits _ l demo_outcomes, of demo_vars] by (fastforce simp: case_prod_beta Let_def)
  have c: "unat (server_counter (demo_servers ! 1)) + 10 < 2 ^ 32" by (simp add: demo_servers_def)
  have "1 + word_of_nat j = (word_of_nat (Suc j) :: u32)" "word_of_nat (Suc 0) = (1 :: u32)" for j by simp_all
  then have w: "check_id xor_cipher demo_check (passwd demo_otp (server_secret (demo_servers ! 1)) (server_counter (demo_servers ! 1) + word_of_nat j)) \<noteq> word_of_nat 1"
    if "0 < j" "j \<le> 0 + 5" for j
    using demo_ids(1) [of "Suc j"] that by (simp add: demo_servers_def del: of_nat_Suc)
  have q: "dirname (str ''/r/2.res'') \<in> dirs (demo_dir demo_check)" "str ''/r/2.res'' \<notin> dom (files (demo_dir demo_check))"
    "str ''/r/2.res'' \<notin> dirs (demo_dir demo_check)" "str ''/r/2.res'' \<noteq> str ''/r/1.res''"
    by (simp_all add: demo_dir_def str_def dirname_def SERVERLISTPATH_def)
  show ?thesis
    using ok accepted_once [OF demo_ready [OF demo_parts(5)] demo_fits _ l demo_outcomes ok c w demo_files(2) q] by (auto simp: demo_item_def)
qed

text \<open>C16: One-time passwords.  For a secret of sixteen characters of the alphabet the function returns the
  password of RFC 4226 for the counter: six decimal digits, filled up with zeros, where the key is the
  sequence of ten bytes with the bits that the secret stands for in base 32.  Every block is freed.\<close>

theorem hotp_rfc4226:
  assumes "hmac_ok g" "secret16 s" "c \<noteq> 0" "no_oom h" "heap_ok h" "17 \<le> length dest"
  shows "\<exists>key h'. length key = 10 \<and> byte_bits key = b32_bits s \<and> live h' = live h \<and>
    hotp_genHotp g (s @ 0 # r) c dest 17 h =
      Some (0, six_digits (hotp_number (hmac g SHA1 key (rev (u64_le (ucast c))))) @ replicate 10 0x30 @ 0 # drop 17 dest, h')"
  using hotp_genHotp_eq [OF assms, of r] secret16_bytes(1,2) [OF assms(2)]
  by (intro exI [of _ "b32_bytes s"] exI [of _ "tick 5 h"]) (simp add: passwd_def hotp_of_def tick_def)

lemma hotp_rfc4226_witness:
  "\<exists>key h'. length key = 10 \<and> byte_bits key = b32_bits demo_secret \<and> live h' = {} \<and>
    hotp_genHotp demo_otp (demo_secret @ [0]) 1 (replicate 17 0) 17 \<lparr>live = {}, calls = 0, fails = (\<lambda>_ _. False)\<rparr> =
      Some (0, six_digits (hotp_number (hmac demo_otp SHA1 key [0, 0, 0, 0, 0, 0, 0, 1])) @ replicate 10 0x30 @ [0], h')"
proof -
  have "rev (u64_le (ucast (1 :: u32))) = [0, 0, 0, 0, 0, 0, 0, 1 :: byte]" by (simp add: u64_le_def le_of_nat_numeral)
  moreover have "no_oom \<lparr>live = {}, calls = 0, fails = (\<lambda>_ _. False)\<rparr>" "heap_ok \<lparr>live = {}, calls = 0, fails = (\<lambda>_ _. False)\<rparr>"
    by (simp_all add: no_oom_def heap_ok_def)
  ultimately show ?thesis
    using hotp_rfc4226 [OF demo_parts(2,3), of 1 "\<lparr>live = {}, calls = 0, fails = (\<lambda>_ _. False)\<rparr>" "replicate 17 0" "[]"] by simp
qed

text \<open>C24: A new server.  On a well-formed list, taking a new number and writing the structure with the
  secret leave a well-formed list with one server more, at the position of its number; the other
  servers stay as they are.\<close>

theorem new_server_registered:
  assumes s: "disk_ok s" "servers s infos" and n: "Suc (length infos) * 40 < 2 ^ 31" and sec: "length sec = 16"
  shows "\<exists>i s1 s2 infos'. server_getNewInfo p s = (0, i, s1) \<and> server_setServerInfo (i\<lparr>server_secret := sec\<rparr>) s1 = Some (0, s2) \<and>
    server_id i = word_of_nat (length infos) \<and> servers s2 infos' \<and> length infos' = Suc (length infos) \<and>
    infos' ! length infos = i\<lparr>server_secret := sec\<rparr> \<and> (\<forall>k. 0 < k \<and> k < length infos \<longrightarrow> infos' ! k = infos ! k)"
proof -
  have w: "wf_list infos" using s(2) by (simp add: servers_def)
  note t = taken_parts [OF w]
  let ?i = "(hd infos)\<lparr>server_secret := sec\<rparr>"
  have i: "info_ok ?i" "server_id ?i = word_of_nat (length infos)" using w sec by (auto simp: wf_list_def info_ok_def)
  obtain m where g: "server_getNewInfo p s = (0, hd infos, s\<lparr>io_calls := m, files := (files s)(SERVERLISTPATH \<mapsto> list_file (taken infos))\<rparr>)"
    using server_getNewInfo_ok [OF s] by blast
  let ?s1 = "s\<lparr>io_calls := m, files := (files s)(SERVERLISTPATH \<mapsto> list_file (taken infos))\<rparr>"
  obtain m2 where set: "server_setServerInfo ?i ?s1 =
      Some (0, ?s1\<lparr>io_calls := m2, files := (files ?s1)(SERVERLISTPATH \<mapsto> list_file (taken infos @ [?i]))\<rparr>)"
    using new_server_ok [of ?s1 infos ?i] s(1) w n i by auto
  show ?thesis
    using g set i t wf_list_snoc [OF w n i]
    by (intro exI [of _ "hd infos"] exI [of _ ?s1] exI [of _ "?s1\<lparr>io_calls := m2, files := (files ?s1)(SERVERLISTPATH \<mapsto> list_file (taken infos @ [?i]))\<rparr>"]
        exI [of _ "taken infos @ [?i]"]) (simp add: servers_def nth_append)
qed

lemma new_server_registered_witness:
  "\<exists>i s1 s2 infos'. server_getNewInfo zero_info (demo_dir demo_check) = (0, i, s1) \<and>
    server_setServerInfo (i\<lparr>server_secret := demo_secret\<rparr>) s1 = Some (0, s2) \<and> server_id i = 2 \<and> servers s2 infos' \<and> length infos' = Suc (length demo_servers)"
proof -
  have d: "disk_ok (demo_dir demo_check)" "servers (demo_dir demo_check) demo_servers"
    using demo_ready [OF demo_parts(5)] by (simp_all add: mission_ready_def)
  show ?thesis
    using new_server_registered [OF d, of demo_secret zero_info] demo_parts(3) by (auto simp: demo_servers_def secret16_def)
qed

end
