(* ===== verification/File_Ops_Correct.thy ===== *)
theory File_Ops_Correct
  imports File_Ops Mission_Theorems
begin

text \<open>The next file of a mission is the one with the least time; making the path of its result writes
  beyond an array.\<close>

section \<open>Names\<close>

definition tx_time :: "byte list \<Rightarrow> int"
  where "tx_time name = dec_value (take 20 (drop 6 name))"

text \<open>A name of 29 characters: five for the number of the server, one, twenty digits of the time, and the tail.\<close>

definition tx_name :: "byte list \<Rightarrow> bool" where
  "tx_name name \<longleftrightarrow> length name = 29 \<and> 0 \<notin> set name \<and> drop 26 name = TXFILETAIL \<and>
     (\<forall>c\<in>set (take 20 (drop 6 name)). isdigit c) \<and> 0 < tx_time name \<and> tx_time name < 2 ^ 63"

text \<open>The entries of a directory, and the names of the transaction files among them.\<close>

definition entry_ok :: "bool \<times> byte list \<Rightarrow> bool" where
  "entry_ok e \<longleftrightarrow> (fst e \<longrightarrow> tx_name (snd e) \<or> (3 \<le> length (snd e) \<and> drop (length (snd e) - 3) (snd e) \<noteq> TXFILETAIL))"

definition tx_names :: "(bool \<times> byte list) list \<Rightarrow> byte list list"
  where "tx_names es = map snd (filter (\<lambda>e. fst e \<and> tx_name (snd e)) es)"

lemma is_tx_file_entry: "entry_ok e \<Longrightarrow> is_tx_file e = Some (fst e \<and> tx_name (snd e))"
  by (cases e) (auto simp: entry_ok_def is_tx_file_def tx_name_def)

lemma isdigit_not: "isdigit c \<Longrightarrow> c \<noteq> 0 \<and> \<not> isspace c \<and> c \<noteq> 0x2d \<and> c \<noteq> 0x2b"
  by (auto simp: isdigit_def isspace_def word_le_nat_alt)

lemma dec_value_nonneg: "0 \<le> dec_value ds"
proof -
  have "0 \<le> n \<Longrightarrow> 0 \<le> foldl (\<lambda>n c. n * 10 + int (unat (c - 0x30))) n ds" for n :: int
    by (induction ds arbitrary: n) simp_all
  then show ?thesis by (simp add: dec_value_def)
qed

lemma c_str_app: "0 \<notin> set xs \<Longrightarrow> c_str (xs @ 0 # r) = xs"
  by (auto simp: c_str_def takeWhile_append)

lemma atoll_digits:
  assumes d: "\<forall>c\<in>set ds. isdigit c" and v: "dec_value ds < 2 ^ 63"
  shows "atoll (ds @ [0]) = Some (dec_value ds)"
proof -
  have "0 \<notin> set ds" using d isdigit_not by blast
  then have c: "c_str (ds @ [0]) = ds" by (rule c_str_app)
  have t: "takeWhile isdigit ds = ds" using d by (simp add: takeWhile_eq_all_conv)
  have w: "dropWhile isspace ds = ds" using d isdigit_not by (cases ds) auto
  show ?thesis
  proof (cases ds)
    case Nil
    then show ?thesis by (simp add: atoll_def c_str_def dec_value_def)
  next
    case (Cons x r)
    then have "x \<noteq> 0x2d" "x \<noteq> 0x2b" using d isdigit_not [of x] by auto
    then show ?thesis using c t w v dec_value_nonneg [of ds] Cons by (simp add: atoll_def)
  qed
qed

section \<open>The next file\<close>

text \<open>The array holds a name, and the time is its time; at the beginning both are zero.\<close>

definition best :: "byte list option \<Rightarrow> byte list \<Rightarrow> int \<Rightarrow> bool" where
  "best b fileName t \<longleftrightarrow> (case b of None \<Rightarrow> fileName = replicate 39 0 \<and> t = 0
     | Some name \<Rightarrow> tx_name name \<and> fileName = name @ replicate 10 0 \<and> t = tx_time name)"

fun earlier :: "byte list option \<Rightarrow> byte list list \<Rightarrow> byte list option" where
  "earlier b [] = b"
| "earlier b (x # xs) = earlier (case b of None \<Rightarrow> Some x | Some y \<Rightarrow> if tx_time x < tx_time y then Some x else b) xs"

lemma earlier_Some: "\<exists>m. earlier (Some y) xs = Some m \<and> m \<in> insert y (set xs) \<and> (\<forall>x\<in>insert y (set xs). tx_time m \<le> tx_time x)"
proof (induction xs arbitrary: y)
  case (Cons x xs)
  show ?case
  proof (cases "tx_time x < tx_time y")
    case True
    then show ?thesis using Cons.IH [of x] by force
  next
    case False
    then show ?thesis using Cons.IH [of y] by force
  qed
qed simp

lemma earlier_min:
  assumes "xs \<noteq> []"
  obtains m where "earlier None xs = Some m" "m \<in> set xs" "\<forall>x\<in>set xs. tx_time m \<le> tx_time x"
  using assms earlier_Some [of "hd xs" "tl xs"] by (cases xs) auto

lemma next_loop_best:
  assumes "\<forall>e\<in>set es. entry_ok e" "best b f t"
  shows "\<exists>f' t'. next_loop es f t = Some (f', t') \<and> best (earlier b (tx_names es)) f' t'"
  using assms
proof (induction es arbitrary: b f t)
  case Nil
  then show ?case by (simp add: tx_names_def)
next
  case (Cons e es)
  have e: "is_tx_file e = Some (fst e \<and> tx_name (snd e))" using Cons.prems(1) by (simp add: is_tx_file_entry)
  show ?case
  proof (cases "fst e \<and> tx_name (snd e)")
    case False
    then show ?thesis using e Cons.IH [of b f t] Cons.prems by (auto simp: tx_names_def)
  next
    case True
    let ?n = "snd e"
    have n: "tx_names (e # es) = ?n # tx_names es" "length ?n = 29" "0 < tx_time ?n" using True by (simp_all add: tx_names_def tx_name_def)
    have a: "atoll (take 20 (drop 6 ?n) @ [0]) = Some (tx_time ?n)"
      using True by (simp add: tx_name_def tx_time_def atoll_digits)
    have r: "(replicate 39 0 :: byte list) = replicate 29 0 @ replicate 10 0" by (simp flip: replicate_add)
    have w: "wr 0 ?n (replicate 39 0) = Some (?n @ replicate 10 0)" using n(2) by (simp add: wr_0)
    have b: "best (Some ?n) (?n @ replicate 10 0) (tx_time ?n)" using True by (simp add: best_def)
    show ?thesis
    proof (cases b)
      case None
      then have "f = replicate 39 0" "t = 0" using Cons.prems(2) by (simp_all add: best_def)
      then show ?thesis using e a w n True None Cons.IH [OF _ b] Cons.prems(1) by simp
    next
      case (Some y)
      then have "t \<noteq> 0" "t = tx_time y" using Cons.prems(2) by (simp_all add: best_def tx_name_def)
      then show ?thesis
        using e a w n True Some Cons.IH [OF _ b] Cons.IH [OF _ Cons.prems(2)] Cons.prems(1)
        by (cases "tx_time ?n < tx_time y") (simp_all add: TXFILENAMELEN_def)
    qed
  qed
qed

lemma strlen_app: "0 \<notin> set xs \<Longrightarrow> strlen (xs @ 0 # r) = Some (length xs)"
  by (simp add: strlen_def c_str_app)

lemma strncat_app:
  assumes "0 \<notin> set xs" "0 \<notin> set ys" "length ys < m" "r = [] \<or> hd r = 0" "length ys \<le> n"
  shows "strncat (xs @ replicate m 0) (ys @ r) n = Some (xs @ ys @ replicate (m - length ys) 0)"
proof -
  obtain k where k: "m = Suc (length ys + k)" using assms(3) less_imp_Suc_add by blast
  have "wr (length xs) (ys @ [0]) (xs @ replicate m 0) = Some (xs @ ys @ replicate (m - length ys) 0)"
    unfolding k by (subst wr_app) (auto simp: k)
  moreover have "c_str (ys @ r) = ys"
    using assms(2,4) c_str_app [of ys "tl r"] by (cases r) (auto simp: c_str_def takeWhile_eq_all_conv)
  moreover have "strlen (xs @ replicate m 0) = Some (length xs)" using assms(1) strlen_app [of xs "replicate (m - 1) 0"] by (simp add: k)
  ultimately show ?thesis using assms(5) by (simp add: strncat_def)
qed

lemma getNextTxFile_ok:
  assumes ls: "ls d s = Some es" "\<forall>e\<in>set es. entry_ok e" and d: "access d s = 0" "0 \<notin> set d" "length d + 34 \<le> L"
  shows "tx_names es = [] \<Longrightarrow> fileops_getNextTxFile ls d (replicate L 0) s = Some (-1, replicate L 0)"
    "tx_names es \<noteq> [] \<Longrightarrow> \<exists>m\<in>set (tx_names es). (\<forall>x\<in>set (tx_names es). tx_time m \<le> tx_time x) \<and>
      fileops_getNextTxFile ls d (replicate L 0) s = Some (0, (d @ m) @ replicate (L - length d - 29) 0)"
proof -
  have "best None (replicate 39 0) 0" by (simp add: best_def)
  then obtain f t where f: "next_loop es (replicate 39 0) 0 = Some (f, t)" "best (earlier None (tx_names es)) f t"
    using next_loop_best [OF ls(2)] by blast
  have p: "fileops_getNextTxFile ls d (replicate L 0) s = do {
      n \<leftarrow> strlen f;
      if n \<noteq> 0 then do {
        path' \<leftarrow> strncat (replicate L 0) d (length d);
        path' \<leftarrow> strncat path' f TXFILENAMELEN;
        Some (0, path')
      }
      else Some (-1, replicate L 0) }"
    using ls(1) d f(1) unfolding fileops_getNextTxFile_def getNextTxFile_def length_replicate by (simp add: TXFILENAMELEN_def)
  show "fileops_getNextTxFile ls d (replicate L 0) s = Some (-1, replicate L 0)" if "tx_names es = []"
  proof -
    have "f = 0 # replicate 38 0" using f(2) that by (simp add: best_def numeral_eq_Suc)
    then show ?thesis using p strlen_app [of "[]" "replicate 38 0"] by simp
  qed
  show "\<exists>m\<in>set (tx_names es). (\<forall>x\<in>set (tx_names es). tx_time m \<le> tx_time x) \<and>
      fileops_getNextTxFile ls d (replicate L 0) s = Some (0, (d @ m) @ replicate (L - length d - 29) 0)" if n: "tx_names es \<noteq> []"
  proof -
    obtain m where m: "earlier None (tx_names es) = Some m" "m \<in> set (tx_names es)" "\<forall>x\<in>set (tx_names es). tx_time m \<le> tx_time x"
      using earlier_min [OF n] .
    have t: "tx_name m" "f = m @ 0 # replicate 9 0" using f(2) m(1) by (simp_all add: best_def numeral_eq_Suc)
    then have l: "length m = 29" "0 \<notin> set m" by (simp_all add: tx_name_def)
    have "strlen f = Some 29" using t(2) l strlen_app [of m] by simp
    moreover have "strncat (replicate L 0) d (length d) = Some (d @ replicate (L - length d) 0)"
      using strncat_app [of "[]" d L "[]" "length d"] d by simp
    moreover have "strncat (d @ replicate (L - length d) 0) f TXFILENAMELEN = Some (d @ m @ replicate (L - length d - 29) 0)"
      using strncat_app [of d m "L - length d" "0 # replicate 9 0" 29] d l t(2) by (simp add: TXFILENAMELEN_def)
    ultimately show ?thesis using p m(2,3) by auto
  qed
qed

section \<open>The path of the result\<close>

lemma gen_path_overflows:
  assumes d: "access dir s = 0" and t: "access tx s = 0" "0 \<notin> set tx" "29 \<le> length tx" "drop (length tx - 3) tx = TXFILETAIL"
    and b: "29 + length dir + 5 \<le> length b"
  shows "fileops_genResFilePath dir tx b s = None"
proof -
  let ?t = "drop (length tx - 29) tx"
  have l: "length ?t = 29" "0 \<notin> set ?t" using t by (auto dest: in_set_dropD)
  have z: "(replicate 30 0 :: byte list) = replicate 29 0 @ [0]" by (simp add: replicate_append_same flip: replicate_Suc)
  have w: "wr 0 ?t (replicate 30 0) = Some (?t @ [0])" using l(1) by (simp add: wr_0 z)
  have tail: "drop 26 ?t = TXFILETAIL" using t(3,4) by simp
  have s29: "strlen (?t @ [0]) = Some 29" "c_str (?t @ [0]) = ?t" using l strlen_app [of ?t "[]"] c_str_app [of ?t "[]"] by simp_all
  let ?u = "take 26 ?t @ 0 # drop 27 ?t @ [0]"
  have lu: "length (take 26 ?t) = 26" "0 \<notin> set (take 26 ?t)" "length ?u = 30" using l by (auto dest: in_set_takeD)
  have "?t @ [0] = take 26 ?t @ (?t ! 26) # drop 27 ?t @ [0]" using l(1) id_take_nth_drop [of 26 ?t] by simp
  then have "upd_ub 26 0 (?t @ [0]) = Some ?u" using upd_ub_app [of "take 26 ?t" 26 0 "?t ! 26" "drop 27 ?t @ [0]"] lu(1) by metis
  moreover have s26: "strlen ?u = Some 26" using strlen_app [OF lu(2), of "drop 27 ?t @ [0]"] lu(1) by simp
  ultimately have c: "clear_loop 26 (?t @ [0]) = Some ?u"
    using s29(1) by (subst clear_loop.simps) (simp add: clear_loop.simps)
  have "strncat ?u RESFILETAIL 4 = None"
    using s26 lu(3) by (simp add: strncat_def RESFILETAIL_def str_def c_str_def wr_def)
  then show ?thesis
    using d t w tail s29 c b l by (simp add: fileops_genResFilePath_def TXFILENAMELEN_def)
qed

section \<open>Properties\<close>

text \<open>C18: The next file.  In a directory whose regular files are transaction files with well-formed names, or
  have another tail, the path returned is that of a transaction file with the least time; without a
  transaction file the function returns -1.\<close>

theorem next_file_is_earliest:
  assumes ls: "ls d s = Some es" "\<forall>e\<in>set es. entry_ok e" and d: "access d s = 0" "0 \<notin> set d" "length d + 34 \<le> L"
  shows "if tx_names es = [] then fileops_getNextTxFile ls d (replicate L 0) s = Some (-1, replicate L 0)
    else \<exists>m\<in>set (tx_names es). (\<forall>x\<in>set (tx_names es). tx_time m \<le> tx_time x) \<and>
      fileops_getNextTxFile ls d (replicate L 0) s = Some (0, (d @ m) @ replicate (L - length d - 29) 0)"
  using getNextTxFile_ok [of ls d s es L, OF assms] by simp

text \<open>C19: One byte too many.  With the two directories in place and at least one transaction file that
  is there, the mission is undefined: making the path of the result writes the final 0 behind the array of 30 bytes
  for the name.  Without a transaction file it returns and changes nothing.\<close>

theorem mission_overflows:
  assumes d: "access TXFILEDIR s = 0" "access RESFILEDIR s = 0" and ls: "ls TXFILEDIR s = Some es" "\<forall>e\<in>set es. entry_ok e"
    and f: "\<forall>x\<in>set (tx_names es). TXFILEDIR @ x \<in> dom (files s)"
  shows "spc_start_mission ops aes ls g s n = (if tx_names es = [] then Some (g, s, n) else None)"
proof -
  have t: "0 \<notin> set TXFILEDIR" "length TXFILEDIR + 34 \<le> 500" "29 + length RESFILEDIR + 5 \<le> length (replicate 500 (0 :: byte))"
    by (simp_all add: TXFILEDIR_def RESFILEDIR_def str_def)
  note nx = getNextTxFile_ok [of ls TXFILEDIR s es 500, OF ls d(1) t(1,2)]
  show ?thesis
  proof (cases "tx_names es = []")
    case True
    then show ?thesis using nx(1) d by (simp add: spc_start_mission_def mission_loop.simps mission_round_def)
  next
    case False
    then obtain m where m: "m \<in> set (tx_names es)"
      "fileops_getNextTxFile ls TXFILEDIR (replicate 500 0) s = Some (0, (TXFILEDIR @ m) @ replicate (500 - length TXFILEDIR - 29) 0)"
      using nx(2) by blast
    have n: "length m = 29" "0 \<notin> set m" "drop 26 m = TXFILETAIL" using m(1) by (auto simp: tx_names_def tx_name_def)
    let ?p = "TXFILEDIR @ m"
    have r: "replicate (500 - length TXFILEDIR - 29) (0 :: byte) = 0 # replicate (499 - length TXFILEDIR - 29) 0"
      using t(2) by (simp flip: replicate_Suc add: Suc_diff_le)
    have c: "c_str (?p @ replicate (500 - length TXFILEDIR - 29) 0) = ?p" unfolding r using t(1) n(2) by (intro c_str_app) simp
    have "access ?p s = 0" using f m(1) by (simp add: access_def)
    moreover have "0 \<notin> set ?p" "29 \<le> length ?p" "drop (length ?p - 3) ?p = TXFILETAIL" using t(1) n by simp_all
    ultimately have "fileops_genResFilePath RESFILEDIR ?p (replicate 500 0) s = None"
      using gen_path_overflows [OF d(2) _ _ _ _ t(3)] by blast
    then show ?thesis using False d m(2) c by (simp add: spc_start_mission_def mission_loop.simps mission_round_def)
  qed
qed

definition demo_name :: "char \<Rightarrow> byte list"
  where "demo_name c = str (''00001-000000000000000000'' @ [c, CHR ''7''] @ ''.tx'')"

definition demo_ls :: dir_list
  where "demo_ls d s = Some [(False, str ''.''), (True, demo_name CHR ''5''), (True, str ''readme''), (True, demo_name CHR ''4'')]"

lemma demo_entries: "\<forall>e\<in>set [(False, str ''.''), (True, demo_name CHR ''5''), (True, str ''readme''), (True, demo_name CHR ''4'')]. entry_ok e"
  "tx_names [(False, str ''.''), (True, demo_name CHR ''5''), (True, str ''readme''), (True, demo_name CHR ''4'')] = [demo_name CHR ''5'', demo_name CHR ''4'']"
  "tx_time (demo_name CHR ''5'') = 57" "tx_time (demo_name CHR ''4'') = 47"
proof -
  show t: "tx_time (demo_name CHR ''5'') = 57" "tx_time (demo_name CHR ''4'') = 47"
    by (simp_all add: tx_time_def demo_name_def str_def dec_value_def)
  have n: "tx_name (demo_name CHR ''5'')" "tx_name (demo_name CHR ''4'')" 
    unfolding tx_name_def t by (simp_all add: demo_name_def str_def TXFILETAIL_def isdigit_def)
  have r: "drop (length (str ''readme'') - 3) (str ''readme'') \<noteq> TXFILETAIL" "\<not> tx_name (str ''readme'')"
    by (simp_all add: str_def TXFILETAIL_def tx_name_def)
  show "\<forall>e\<in>set [(False, str ''.''), (True, demo_name CHR ''5''), (True, str ''readme''), (True, demo_name CHR ''4'')]. entry_ok e"
    using n r by (simp add: entry_ok_def) (simp add: str_def)
  show "tx_names [(False, str ''.''), (True, demo_name CHR ''5''), (True, str ''readme''), (True, demo_name CHR ''4'')] = [demo_name CHR ''5'', demo_name CHR ''4'']"
    using n r by (simp add: tx_names_def)
qed

definition demo_files_dir :: os where
  "demo_files_dir = (demo_dir demo_check)\<lparr>dirs := {TXFILEDIR, RESFILEDIR},
     files := [TXFILEDIR @ demo_name CHR ''4'' \<mapsto> [], TXFILEDIR @ demo_name CHR ''5'' \<mapsto> []]\<rparr>"

lemma next_file_is_earliest_witness:
  "fileops_getNextTxFile demo_ls TXFILEDIR (replicate 500 0) demo_files_dir =
    Some (0, (TXFILEDIR @ demo_name CHR ''4'') @ replicate (500 - length TXFILEDIR - 29) 0)"
proof -
  have d: "access TXFILEDIR demo_files_dir = 0" "0 \<notin> set TXFILEDIR" "length TXFILEDIR + 34 \<le> 500"
    by (simp_all add: demo_files_dir_def access_def) (simp_all add: TXFILEDIR_def str_def)
  show ?thesis
    using next_file_is_earliest [of demo_ls TXFILEDIR demo_files_dir _ 500, OF _ demo_entries(1) d] demo_entries(2-4) by (auto simp: demo_ls_def)
qed

lemma mission_overflows_witness:
  "spc_start_mission demo_otp xor_cipher demo_ls demo_vars demo_files_dir (demo_network (\<lambda>k. True)) = None"
proof -
  have d: "access TXFILEDIR demo_files_dir = 0" "access RESFILEDIR demo_files_dir = 0"
    by (simp_all add: demo_files_dir_def access_def)
  have f: "\<forall>x\<in>set (tx_names [(False, str ''.''), (True, demo_name CHR ''5''), (True, str ''readme''), (True, demo_name CHR ''4'')]).
      TXFILEDIR @ x \<in> dom (files demo_files_dir)"
    unfolding demo_entries(2) by (simp add: demo_files_dir_def)
  show ?thesis
    using mission_overflows [OF d _ demo_entries(1) f, of demo_ls] demo_entries(2) by (simp add: demo_ls_def)
qed

end
