(* ===== verification/Envelope.thy ===== *)
theory Envelope
  imports Sys_Files
begin

text \<open>
  Encryption and signatures (\<^verbatim>\<open>spcrsa.c\<close>, \<^verbatim>\<open>spcpem.c\<close>, \<^verbatim>\<open>spcvsig.c\<close>, \<^verbatim>\<open>spcmodnode.c\<close>): the data goes through temporary files and
  commands of \<^verbatim>\<open>openssl\<close>; the text in base 64 travels without its line ends.  What a command
  does is a parameter: \<^verbatim>\<open>system\<close>, and \<^verbatim>\<open>popen\<close> with the output of the command.
\<close>

record shell =
  sh_system :: "byte list \<Rightarrow> os \<Rightarrow> os"
  sh_popen :: "byte list \<Rightarrow> os \<Rightarrow> byte list option \<times> os"

section \<open>Paths and commands\<close>

definition SPCDATADIR :: string where "SPCDATADIR = ''/mnt/spcdata/''"
definition SATEPUBPEMFILEPATH :: string where "SATEPUBPEMFILEPATH = SPCDATADIR @ ''node/satpub.pem''"
definition SATEPRVPEMFILEPATH :: string where "SATEPRVPEMFILEPATH = SPCDATADIR @ ''node/satprv.pem''"
definition SPCEPUBPEMFILEPATH :: string where "SPCEPUBPEMFILEPATH = SPCDATADIR @ ''node/spcpub.pem''"
definition USEREPUBPEMFILEPATH :: string where "USEREPUBPEMFILEPATH = SPCDATADIR @ ''node/userpub.pem''"
definition NODETEMP :: string where "NODETEMP = SPCDATADIR @ ''/node/temp/''"
definition PLAINFILEPATH :: string where "PLAINFILEPATH = NODETEMP @ ''plain''"
definition ENCFILEPATH :: string where "ENCFILEPATH = NODETEMP @ ''enc''"
definition EN64FILEPATH :: string where "EN64FILEPATH = NODETEMP @ ''en64''"
definition SIGFILEPATH :: string where "SIGFILEPATH = NODETEMP @ ''sig''"
definition MD5FILEPATH :: string where "MD5FILEPATH = NODETEMP @ ''md5''"

definition enc_cmd :: "string \<Rightarrow> string" where
  "enc_cmd pub = ''openssl rsautl -encrypt -pubin -inkey '' @ pub @ '' -in '' @ PLAINFILEPATH @ '' -out '' @ ENCFILEPATH"

definition SATDECCMD :: string where
  "SATDECCMD = ''openssl rsautl -decrypt -inkey '' @ SATEPRVPEMFILEPATH @ '' -in '' @ ENCFILEPATH @ '' -out '' @ PLAINFILEPATH"

definition EN64CMD :: string where "EN64CMD = ''openssl enc -base64 -e -in '' @ ENCFILEPATH @ '' > '' @ EN64FILEPATH"
definition DE64CMD :: string where "DE64CMD = ''openssl enc -base64 -d -in '' @ EN64FILEPATH @ '' > '' @ ENCFILEPATH"

definition VSIGCMD :: string where
  "VSIGCMD = ''openssl dgst -verify '' @ SPCEPUBPEMFILEPATH @ '' -sha256 -signature '' @ SIGFILEPATH @ '' '' @ MD5FILEPATH"

definition temp_files :: "byte list list"
  where "temp_files = [str PLAINFILEPATH, str ENCFILEPATH, str EN64FILEPATH]"

section \<open>Encryption\<close>

text \<open>\<^verbatim>\<open>read(fd, buf + counter, n)\<close> that has to give \<^verbatim>\<open>n\<close> bytes, and one byte that has to be the end of a line.\<close>

definition read_line :: "nat \<Rightarrow> file_desc \<Rightarrow> nat \<Rightarrow> byte list \<Rightarrow> os \<Rightarrow> (int \<times> file_desc \<times> byte list \<times> os) option" where
  "read_line n fd counter buf s = (case read_fd fd n s of
     (None, fd, s1) \<Rightarrow> Some (-1, fd, buf, s1)
   | (Some d, fd, s1) \<Rightarrow> do {
       buf' \<leftarrow> wr counter d buf;
       if length d \<noteq> n then Some (-1, fd, buf', s1)
       else (case read_into fd [0] s1 of (ret, b, fd, s2) \<Rightarrow>
         Some (if ret \<noteq> 1 \<or> b \<noteq> [0x0a] then -1 else 0, fd, buf', s2))
     })"

fun read_lines :: "nat \<Rightarrow> file_desc \<Rightarrow> nat \<Rightarrow> byte list \<Rightarrow> os \<Rightarrow> (int \<times> file_desc \<times> nat \<times> byte list \<times> os) option" where
  "read_lines 0 fd counter buf s = Some (0, fd, counter, buf, s)"
| "read_lines (Suc k) fd counter buf s = do {
     (ret, fd, buf', s1) \<leftarrow> read_line 64 fd counter buf s;
     if ret \<noteq> 0 then Some (-1, fd, counter, buf', s1) else read_lines k fd (counter + 64) buf' s1
   }"

text \<open>The text without its line ends: how long it is, and reading it.\<close>

definition text_len :: "u32 \<Rightarrow> u32"
  where "text_len data_len = (if data_len mod 65 = 0 then data_len - data_len div 65 else data_len - data_len div 65 - 1)"

definition read_text :: "u32 \<Rightarrow> file_desc \<Rightarrow> os \<Rightarrow> (int \<times> nat \<times> byte list \<times> os) option" where
  "read_text data_len fd s = do {
     let times = data_len div 65;
     (ret, fd, counter, buf, s1) \<leftarrow> read_lines (unat times) fd 0 (replicate (unat (text_len data_len)) 0) s;
     if ret \<noteq> 0 \<or> data_len - times * 65 < 1 then Some (ret, counter, buf, s1)
     else do {
       let last_len = unat (data_len - times * 65 - 1);
       (ret, fd, buf, s2) \<leftarrow> read_line last_len fd counter buf s1;
       Some (ret, counter + last_len, buf, s2)
     }
   }"

text \<open>The second half: the file in base 64 is read into a new block without its line ends.\<close>

definition read_en64 :: "os \<Rightarrow> (int \<times> byte list ptr \<times> u32 \<times> os) option" where
  "read_en64 s = (case open_existing (str EN64FILEPATH) s of
     (None, s1) \<Rightarrow> Some (-1, NULL, 0, remove_all temp_files s1)
   | (Some fd, s1) \<Rightarrow>
       let data_len = word_of_nat (length (file_of fd s1)) :: u32 in
       if data_len = 0 then Some (-1, NULL, 0, remove_all temp_files s1)
       else let data_len_de_format = text_len data_len in
         (case os_malloc (ucast data_len_de_format) s1 of
            (None, s2) \<Rightarrow> Some (-1, NULL, 0, remove_all temp_files s2)
          | (Some p, s2) \<Rightarrow>
              if data_len div 65 * 64 > data_len_de_format
              then do { s3 \<leftarrow> os_free p s2; Some (-1, NULL, 0, remove_all temp_files s3) }
              else do {
                (ret, counter, buf, s3) \<leftarrow> read_text data_len (lseek fd 0) s2;
                if ret \<noteq> 0 then do { s4 \<leftarrow> os_free p s3; Some (-1, NULL, 0, remove_all temp_files s4) }
                else let s4 = remove_all temp_files s3 in
                  if word_of_nat counter \<noteq> data_len_de_format then do { s5 \<leftarrow> os_free p s4; Some (-1, NULL, 0, s5) }
                  else Some (0, Ptr p buf, data_len_de_format, s4)
              }))"

text \<open>The three functions differ in the key only.\<close>

definition en_enc_and_en64 :: "shell \<Rightarrow> string \<Rightarrow> buf \<Rightarrow> u32 \<Rightarrow> os \<Rightarrow> (int \<times> byte list ptr \<times> u32 \<times> os) option" where
  "en_enc_and_en64 sh pub buffer_in buffer_in_len s =
    (case buffer_in of None \<Rightarrow> Some (-1, NULL, 0, s)
     | Some b \<Rightarrow>
        if buffer_in_len = 0 \<or> access (str pub) s \<noteq> 0 then Some (-1, NULL, 0, s)
        else do {
          (ret, s1) \<leftarrow> write_new (str PLAINFILEPATH) b buffer_in_len (clear_all temp_files s);
          if ret \<noteq> 0 then Some (-1, NULL, 0, s1)
          else
            let s2 = sh_system sh (str (enc_cmd pub)) s1 in
            if access (str ENCFILEPATH) s2 \<noteq> 0 then Some (-1, NULL, 0, remove_all [str PLAINFILEPATH] s2)
            else let s3 = sh_system sh (str EN64CMD) s2 in
              if access (str EN64FILEPATH) s3 \<noteq> 0 then Some (-1, NULL, 0, remove_all [str PLAINFILEPATH, str ENCFILEPATH] s3)
              else read_en64 s3
        })"

definition sat_en_enc_and_en64 :: "shell \<Rightarrow> buf \<Rightarrow> u32 \<Rightarrow> os \<Rightarrow> (int \<times> byte list ptr \<times> u32 \<times> os) option"
  where "sat_en_enc_and_en64 sh = en_enc_and_en64 sh SATEPUBPEMFILEPATH"

definition spc_en_enc_and_en64 :: "shell \<Rightarrow> buf \<Rightarrow> u32 \<Rightarrow> os \<Rightarrow> (int \<times> byte list ptr \<times> u32 \<times> os) option"
  where "spc_en_enc_and_en64 sh = en_enc_and_en64 sh SPCEPUBPEMFILEPATH"

definition user_en_enc_and_en64 :: "shell \<Rightarrow> buf \<Rightarrow> u32 \<Rightarrow> os \<Rightarrow> (int \<times> byte list ptr \<times> u32 \<times> os) option"
  where "user_en_enc_and_en64 sh = en_enc_and_en64 sh USEREPUBPEMFILEPATH"

section \<open>Decryption\<close>

fun write_lines :: "nat \<Rightarrow> file_desc \<Rightarrow> nat \<Rightarrow> byte list \<Rightarrow> os \<Rightarrow> (int \<times> file_desc \<times> nat \<times> os) option" where
  "write_lines 0 fd counter b s = Some (0, fd, counter, s)"
| "write_lines (Suc k) fd counter b s = do {
     d \<leftarrow> rd 64 (drop counter b);
     case write_all fd d s of (ret, fd, s1) \<Rightarrow>
       if ret \<noteq> 64 then Some (-1, fd, counter, s1)
       else (case write_all fd [0x0a] s1 of (ret, fd, s2) \<Rightarrow>
         if ret \<noteq> 1 then Some (-1, fd, counter + 64, s2) else write_lines k fd (counter + 64) b s2)
   }"

text \<open>The text in a file: whole lines and what is left.\<close>

definition write_text :: "byte list \<Rightarrow> u32 \<Rightarrow> file_desc \<Rightarrow> os \<Rightarrow> (int \<times> os) option" where
  "write_text b n fd s = do {
     (ret, fd, counter, s2) \<leftarrow> write_lines (unat (n div 64)) fd 0 b s;
     if ret \<noteq> 0 then Some (-1, s2)
     else if n > word_of_nat counter then do {
       d \<leftarrow> rd (unat (n - word_of_nat counter)) (drop counter b);
       case write_all fd d s2 of (ret, fd, s3) \<Rightarrow>
         if word_of_int ret \<noteq> n - word_of_nat counter then Some (-1, s3)
         else (case write_all fd [0x0a] s3 of (ret, fd, s4) \<Rightarrow> Some (if ret \<noteq> 1 then -1 else 0, s4))
     } else Some (0, s2)
   }"

text \<open>The second half: the decrypted file is read into a new block.\<close>

definition read_plain :: "os \<Rightarrow> (int \<times> byte list ptr \<times> u32 \<times> os) option" where
  "read_plain s = (case open_existing (str PLAINFILEPATH) s of
     (None, s1) \<Rightarrow> Some (-1, NULL, 0, remove_all temp_files s1)
   | (Some fd, s1) \<Rightarrow>
       let data_len = word_of_nat (length (file_of fd s1)) :: u32 in
       if data_len = 0 then Some (-1, NULL, 0, remove_all temp_files s1)
       else (case os_malloc (ucast data_len) s1 of
           (None, s2) \<Rightarrow> Some (-1, NULL, 0, remove_all temp_files s2)
         | (Some p, s2) \<Rightarrow> (case read_into (lseek fd 0) (replicate (unat data_len) 0) s2 of (ret, b, fd, s3) \<Rightarrow>
             if word_of_int ret \<noteq> data_len then do { s4 \<leftarrow> os_free p s3; Some (-1, NULL, 0, remove_all temp_files s4) }
             else Some (0, Ptr p b, data_len, remove_all temp_files s3))))"

definition sat_de_de64_and_dec :: "shell \<Rightarrow> buf \<Rightarrow> u32 \<Rightarrow> os \<Rightarrow> (int \<times> byte list ptr \<times> u32 \<times> os) option" where
  "sat_de_de64_and_dec sh buffer_in buffer_in_len s =
    (case buffer_in of None \<Rightarrow> Some (-1, NULL, 0, s)
     | Some b \<Rightarrow>
        if buffer_in_len = 0 \<or> access (str SATEPRVPEMFILEPATH) s \<noteq> 0 then Some (-1, NULL, 0, s)
        else (case open_trunc (str EN64FILEPATH) (clear_all temp_files s) of
            (None, s1) \<Rightarrow> Some (-1, NULL, 0, s1)
          | (Some fd, s1) \<Rightarrow>
              if buffer_in_len div 64 * 64 > buffer_in_len then Some (-1, NULL, 0, s1)
              else do {
                (ret, s3) \<leftarrow> write_text b buffer_in_len fd s1;
                if ret \<noteq> 0 then Some (-1, NULL, 0, s3)
                else
                  let s4 = sh_system sh (str DE64CMD) s3 in
                  if access (str ENCFILEPATH) s4 \<noteq> 0 then Some (-1, NULL, 0, remove_all [str EN64FILEPATH] s4)
                  else let s5 = sh_system sh (str SATDECCMD) s4 in
                    if access (str PLAINFILEPATH) s5 \<noteq> 0
                    then Some (-1, NULL, 0, remove_all [str EN64FILEPATH, str ENCFILEPATH] s5)
                    else read_plain s5
              }))"

section \<open>Keys\<close>

definition get_pem_key_buffer_len :: "string \<Rightarrow> u32 \<Rightarrow> os \<Rightarrow> int \<times> u32 \<times> os" where
  "get_pem_key_buffer_len path len_ptr s =
    (if access (str path) s \<noteq> 0 then (-1, len_ptr, s)
     else (case open_existing (str path) s of
         (None, s1) \<Rightarrow> (-1, len_ptr, s1)
       | (Some fd, s1) \<Rightarrow>
           let seek_len = word_of_nat (length (file_of fd s1)) in
           if seek_len = 0 then (-1, len_ptr, s1) else (0, seek_len, s1)))"

definition pem_to_buffer :: "string \<Rightarrow> buf \<Rightarrow> u32 \<Rightarrow> os \<Rightarrow> (int \<times> buf \<times> os) option" where
  "pem_to_buffer path buffer buffer_len s =
    (case buffer of None \<Rightarrow> Some (-1, buffer, s)
     | Some b \<Rightarrow>
        if buffer_len = 0 \<or> access (str path) s \<noteq> 0 then Some (-1, buffer, s)
        else (case open_existing (str path) s of
            (None, s1) \<Rightarrow> Some (-1, buffer, s1)
          | (Some fd, s1) \<Rightarrow> (case read_fd fd (unat buffer_len) s1 of
                (None, fd, s2) \<Rightarrow> Some (-1, buffer, s2)
              | (Some d, fd, s2) \<Rightarrow> do {
                  b' \<leftarrow> wr 0 d b;
                  Some (if word_of_nat (length d) \<noteq> buffer_len then -1 else 0, Some b', s2)
                })))"

definition buffer_to_pem :: "string \<Rightarrow> buf \<Rightarrow> u32 \<Rightarrow> os \<Rightarrow> (int \<times> os) option" where
  "buffer_to_pem path buffer key_len s =
    (case buffer of None \<Rightarrow> Some (-1, s)
     | Some b \<Rightarrow> if key_len = 0 then Some (-1, s) else write_new (str path) b key_len s)"

section \<open>Signatures\<close>

text \<open>\<^verbatim>\<open>spc_verify_sig_with_md5\<close>: the signature and the checksum go to files; the answer of \<^verbatim>\<open>openssl\<close> has
  to begin with eleven given characters.\<close>

definition spc_verify_sig_with_md5 :: "shell \<Rightarrow> buf \<Rightarrow> u32 \<Rightarrow> buf \<Rightarrow> u32 \<Rightarrow> os \<Rightarrow> (int \<times> os) option" where
  "spc_verify_sig_with_md5 sh sig sig_len md5 md5_len s =
    (case (sig, md5) of
       (Some sg, Some m) \<Rightarrow>
         if sig_len = 0 \<or> md5_len = 0 then Some (-1, s)
         else (case open_trunc (str SIGFILEPATH) (clear_all [str SIGFILEPATH, str MD5FILEPATH] s) of
             (None, s1) \<Rightarrow> Some (-1, s1)
           | (Some fd, s1) \<Rightarrow> do {
               d \<leftarrow> rd (unat sig_len) sg;
               case write_all fd d s1 of (ret, fd, s2) \<Rightarrow>
                 if word_of_int ret \<noteq> sig_len then Some (-1, remove_all [str SIGFILEPATH] s2)
                 else (case open_trunc (str MD5FILEPATH) s2 of
                     (None, s3) \<Rightarrow> Some (-1, s3)
                   | (Some fd, s3) \<Rightarrow> do {
                       d \<leftarrow> rd (unat md5_len) m;
                       case write_all fd d s3 of (ret, fd, s4) \<Rightarrow>
                         if word_of_int ret \<noteq> md5_len then Some (-1, remove_all [str SIGFILEPATH, str MD5FILEPATH] s4)
                         else (case sh_popen sh (str VSIGCMD) s4 of
                             (None, s5) \<Rightarrow> Some (-1, remove_all [str SIGFILEPATH, str MD5FILEPATH] s5)
                           | (Some out, s5) \<Rightarrow>
                               let s6 = remove_all [str SIGFILEPATH, str MD5FILEPATH] s5 in
                               if length out < 11 then Some (-1, s6)
                               else Some (if take 11 out \<noteq> str ''Verified OK'' then -1 else 0, s6))
                     })
             })
     | _ \<Rightarrow> Some (-1, s))"

end
