(* ===== verification/Envelope_Correct.thy ===== *)
theory Envelope_Correct
  imports Envelope Server_List_Correct
begin

text \<open>The text in base 64 without its line ends, and back: what is encrypted is decrypted again.\<close>

section \<open>Lines\<close>

text \<open>Text in lines of 64 characters, as \<^verbatim>\<open>openssl\<close> writes it.\<close>

function lines64 :: "byte list \<Rightarrow> byte list" where
  "lines64 t = (if t = [] then [] else take 64 t @ 0x0a # lines64 (drop 64 t))"
  by pat_completeness auto
termination by (relation "measure length") auto

declare lines64.simps [simp del]

lemma lines64_Nil [simp]: "lines64 [] = []"
  by (simp add: lines64.simps)

lemma lines64_step: "t \<noteq> [] \<Longrightarrow> lines64 t = take 64 t @ 0x0a # lines64 (drop 64 t)"
  by (subst lines64.simps) simp

lemma lines64_short: "t \<noteq> [] \<Longrightarrow> length t \<le> 64 \<Longrightarrow> lines64 t = t @ [0x0a]"
  by (simp add: lines64_step)

lemma lines64_split: "64 * q \<le> length t \<Longrightarrow> lines64 t = lines64 (take (64 * q) t) @ lines64 (drop (64 * q) t) \<and> length (lines64 (take (64 * q) t)) = 65 * q"
proof (induction q arbitrary: t)
  case (Suc q)
  have l: "64 \<le> length t" "64 * q \<le> length (drop 64 t)" "t \<noteq> []" using Suc.prems by auto
  have d: "64 * Suc q = 64 + 64 * q" by simp
  have t: "take (64 * Suc q) t = take 64 t @ take (64 * q) (drop 64 t)" unfolding d by (rule take_add)
  then have n: "take (64 * Suc q) t \<noteq> []" "take 64 (take (64 * Suc q) t) = take 64 t" "drop 64 (take (64 * Suc q) t) = take (64 * q) (drop 64 t)"
    using l by (simp_all add: min_def)
  have "lines64 t = take 64 t @ 0x0a # lines64 (drop 64 t)" using l(3) by (rule lines64_step)
  then show ?case using Suc.IH [OF l(2)] lines64_step [OF n(1)] l(1) n(2,3) by (simp add: d add.commute)
qed simp

lemma length_lines64_short: "length u = r \<Longrightarrow> 0 < r \<Longrightarrow> r \<le> 64 \<Longrightarrow> length (lines64 u) = r + 1"
proof -
  assume u: "length u = r" "0 < r" "r \<le> 64"
  then have n: "u \<noteq> []" "length u \<le> 64" by (metis less_numeral_extra(3) list.size(3), metis)
  show "length (lines64 u) = r + 1" by (simp only: lines64_short [OF n] length_append u(1) list.size)
qed

lemma length_lines64: "length (lines64 t) = 65 * (length t div 64) + (if length t mod 64 = 0 then 0 else length t mod 64 + 1)"
proof -
  obtain q r where qr: "q = length t div 64" "r = length t mod 64" by simp
  then have n: "length t = 64 * q + r" "r < 64" by simp_all
  then have l: "64 * q \<le> length t" and d: "length (drop (64 * q) t) = r" by simp_all
  have "length (lines64 (drop (64 * q) t)) = (if r = 0 then 0 else r + 1)"
  proof (cases "r = 0")
    case True
    then have "drop (64 * q) t = []" using n by simp
    then show ?thesis using True by simp
  next
    case False
    then have "length (lines64 (drop (64 * q) t)) = r + 1" using length_lines64_short [OF d] n(2) by (metis less_imp_le not_gr_zero)
    then show ?thesis unfolding if_not_P [OF False] .
  qed
  moreover have "length (lines64 t) = length (lines64 (take (64 * q) t)) + length (lines64 (drop (64 * q) t))"
    using conjunct1 [OF lines64_split [OF l]] by (metis length_append)
  ultimately show ?thesis using conjunct2 [OF lines64_split [OF l]] by (simp only: qr)
qed

section \<open>Reading the lines\<close>

lemma read_line_ok:
  assumes s: "disk_ok s" "files s p = Some (pre @ d @ 0x0a # post)" "length d < 2 ^ 32" and b: "length got = c" "length d \<le> m"
  shows "\<exists>k. read_line (length d) \<lparr>fd_path = p, fd_off = length pre\<rparr> c (got @ replicate m 0) s =
    Some (0, \<lparr>fd_path = p, fd_off = length pre + length d + 1\<rparr>, (got @ d) @ replicate (m - length d) 0, steps s k)"
proof -
  have r: "read_fd \<lparr>fd_path = p, fd_off = length pre\<rparr> (length d) s =
      (Some d, \<lparr>fd_path = p, fd_off = length pre + length d\<rparr>, steps s (Suc (io_calls s)))"
    using read_fd_disk [OF s(1,2,3)] .
  have "read_into \<lparr>fd_path = p, fd_off = length pre + length d\<rparr> [0] (steps s (Suc (io_calls s))) =
      (1, [0x0a], \<lparr>fd_path = p, fd_off = length pre + length d + 1\<rparr>, steps s (Suc (Suc (io_calls s))))"
  proof -
    have f: "files (steps s (Suc (io_calls s))) p = Some ((pre @ d) @ [0x0a] @ post)" using s(2) by simp
    show ?thesis using read_into_disk [OF _ f refl, of "length pre + length d" "[0]"] s(1) by simp
  qed
  then show ?thesis using r wr_app [OF b(1), of d "replicate m 0"] b(2) by (simp add: read_line_def)
qed

lemma read_lines_ok:
  assumes "disk_ok s" "files s p = Some (pre @ lines64 t)" "length got = c" "64 * q \<le> length t" "length t \<le> m"
  shows "\<exists>k. read_lines q \<lparr>fd_path = p, fd_off = length pre\<rparr> c (got @ replicate m 0) s =
    Some (0, \<lparr>fd_path = p, fd_off = length pre + 65 * q\<rparr>, c + 64 * q, (got @ take (64 * q) t) @ replicate (m - 64 * q) 0, steps s k)"
  using assms
proof (induction q arbitrary: s pre t got c m)
  case 0
  then show ?case by simp
next
  case (Suc q)
  let ?d = "take 64 t"
  have l: "t \<noteq> []" "length ?d = 64" "64 * q \<le> length (drop 64 t)" "length (drop 64 t) \<le> m - 64" "64 \<le> m" using Suc.prems(4,5) by auto
  have f: "files s p = Some (pre @ ?d @ 0x0a # lines64 (drop 64 t))" using Suc.prems(2) lines64_step [OF l(1)] by simp
  obtain k where k: "read_line 64 \<lparr>fd_path = p, fd_off = length pre\<rparr> c (got @ replicate m 0) s =
      Some (0, \<lparr>fd_path = p, fd_off = length pre + 65\<rparr>, (got @ ?d) @ replicate (m - 64) 0, steps s k)"
    using read_line_ok [OF Suc.prems(1) f _ Suc.prems(3), of m] l(2,5) by auto
  let ?pre = "pre @ ?d @ [0x0a]"
  have st: "disk_ok (steps s k)" "files (steps s k) p = Some (?pre @ lines64 (drop 64 t))" "length (got @ ?d) = c + 64"
    using Suc.prems(1,3) f l(2) by simp_all
  obtain k2 where "read_lines q \<lparr>fd_path = p, fd_off = length ?pre\<rparr> (c + 64) ((got @ ?d) @ replicate (m - 64) 0) (steps s k) =
      Some (0, \<lparr>fd_path = p, fd_off = length ?pre + 65 * q\<rparr>, c + 64 + 64 * q,
        ((got @ ?d) @ take (64 * q) (drop 64 t)) @ replicate (m - 64 - 64 * q) 0, steps (steps s k) k2)"
    using Suc.IH [OF st l(3,4)] by blast
  moreover have "take (64 * Suc q) t = ?d @ take (64 * q) (drop 64 t)" by (simp add: take_add [symmetric])
  ultimately show ?case using k l(2) by (auto simp: ac_simps)
qed

section \<open>Files\<close>

abbreviation disk :: "os \<Rightarrow> nat \<Rightarrow> (byte list \<rightharpoonup> byte list) \<Rightarrow> os"
  where "disk s k f \<equiv> s\<lparr>io_calls := k, files := f\<rparr>"

lemma files_disk: "files (disk s k f) = f" and hp_disk: "hp (disk s k f) = hp s"
  by simp_all

lemma remove_file_disk:
  assumes "disk_ok s"
  shows "snd (remove_file p s) = disk s (Suc (io_calls s)) ((files s)(p := None))"
proof -
  obtain k where "io_step s = (Some k, steps s (Suc (io_calls s)))" using assms by (rule io_step_disk)
  then show ?thesis by (auto simp: remove_file_def fun_upd_idem)
qed

lemma disk_same: "\<exists>k. s = disk s k (files s |` (- set []))"
  by (rule exI [of _ "io_calls s"]) (simp add: restrict_map_def)

lemma remove_all_disk: "disk_ok s \<Longrightarrow> \<exists>k. remove_all ps s = disk s k (files s |` (- set ps))"
proof (induction ps arbitrary: s)
  case (Cons p ps)
  let ?s = "disk s (Suc (io_calls s)) ((files s)(p := None))"
  have "disk_ok ?s" using Cons.prems by simp
  then obtain k where k: "remove_all ps ?s = disk ?s k (files ?s |` (- set ps))" using Cons.IH by blast
  have "files ?s |` (- set ps) = files s |` (- set (p # ps))" by (auto simp: restrict_map_def)
  then have "remove_all (p # ps) s = disk s k (files s |` (- set (p # ps)))"
    using k unfolding remove_all.simps remove_file_disk [OF Cons.prems] by simp
  then show ?case ..
qed (simp only: remove_all.simps clear_all.simps disk_same)

lemma clear_all_disk: "disk_ok s \<Longrightarrow> \<exists>k. clear_all ps s = disk s k (files s |` (- set ps))"
proof (induction ps arbitrary: s)
  case (Cons p ps)
  let ?s = "if access p s = 0 then snd (remove_file p s) else s"
  have "\<exists>j. ?s = disk s j ((files s)(p := None))"
  proof (cases "access p s = 0")
    case True
    then show ?thesis using remove_file_disk [OF Cons.prems, of p] by auto
  next
    case False
    then have "files s p = None" by (auto simp: access_def split: if_splits)
    then have "s = disk s (io_calls s) ((files s)(p := None))" by (simp add: fun_upd_idem)
    then show ?thesis using False by metis
  qed
  then obtain j where j: "?s = disk s j ((files s)(p := None))" ..
  let ?d = "disk s j ((files s)(p := None))"
  have "disk_ok ?d" using Cons.prems by simp
  then obtain k where k: "clear_all ps ?d = disk ?d k (files ?d |` (- set ps))" using Cons.IH by blast
  have "files ?d |` (- set ps) = files s |` (- set (p # ps))" by (auto simp: restrict_map_def)
  then have "clear_all (p # ps) s = disk s k (files s |` (- set (p # ps)))"
    using k unfolding clear_all.simps j by simp
  then show ?case ..
qed (simp only: remove_all.simps clear_all.simps disk_same)

lemma open_trunc_disk:
  assumes "disk_ok s" "dirname p \<in> dirs s"
  shows "open_trunc p s = (Some \<lparr>fd_path = p, fd_off = 0\<rparr>, disk s (Suc (io_calls s)) ((files s)(p \<mapsto> [])))"
proof -
  obtain k where "io_step s = (Some k, steps s (Suc (io_calls s)))" using assms(1) by (rule io_step_disk)
  then show ?thesis using assms(2) by (simp add: open_trunc_def)
qed

lemma write_end:
  assumes "disk_ok s" "files s p = Some f" "length d < 2 ^ 32"
  shows "write_all \<lparr>fd_path = p, fd_off = length f\<rparr> d s =
    (int (length d), \<lparr>fd_path = p, fd_off = length f + length d\<rparr>, disk s (Suc (io_calls s)) ((files s)(p \<mapsto> f @ d)))"
  using write_all_disk [OF assms, of "length f"] by (simp add: overlay_at_end)

lemma write_new_disk:
  assumes "disk_ok s" "dirname p \<in> dirs s" "length d < 2 ^ 32"
  shows "\<exists>k. write_new p (d @ rest) (word_of_nat (length d)) s = Some (0, disk s k ((files s)(p \<mapsto> d)))"
proof -
  let ?s = "disk s (Suc (io_calls s)) ((files s)(p \<mapsto> []))"
  have "disk_ok ?s" "files ?s p = Some []" using assms(1) by simp_all
  from write_end [OF this assms(3)] show ?thesis
    using open_trunc_disk [OF assms(1,2)] assms(3) by (simp add: write_new_def unat_u32_len rd_def)
qed

section \<open>Text from a file and to a file\<close>

lemma text_words:
  assumes "length t < 2 ^ 30"
  defines "n \<equiv> word_of_nat (length (lines64 t)) :: u32"
  shows "unat n = length (lines64 t)" "unat (n div 65) = length t div 64" "n mod 65 = 0 \<longleftrightarrow> length t mod 64 = 0"
    "text_len n = word_of_nat (length t)"
    "unat (n - n div 65 * 65) = (if length t mod 64 = 0 then 0 else length t mod 64 + 1)"
    "n div 65 * 64 \<le> word_of_nat (length t)"
proof -
  obtain q r where qr: "q = length t div 64" "r = length t mod 64" by simp
  define e where "e = (if r = 0 then 0 else r + 1)"
  have l: "length t = 64 * q + r" "r < 64" using qr by simp_all
  have e: "e < 65" "r = 0 \<longleftrightarrow> e = 0" "r \<noteq> 0 \<Longrightarrow> e = r + 1" using l(2) by (auto simp: e_def)
  have n: "length (lines64 t) = 65 * q + e" using length_lines64 [of t] by (simp only: qr e_def)
  have q: "q < 2 ^ 24" using l assms(1) by simp
  show u: "unat n = length (lines64 t)" unfolding n_def n using q e(1) by (intro unat_u32_len) simp
  show d: "unat (n div 65) = length t div 64" unfolding unat_div u n qr(1) [symmetric] using e(1) by simp
  have "unat (n mod 65) = e" unfolding unat_mod u n using e(1) by simp
  then have m: "n mod 65 = 0 \<longleftrightarrow> r = 0" unfolding e(2) by (metis unat_eq_0)
  then show "n mod 65 = 0 \<longleftrightarrow> length t mod 64 = 0" unfolding qr(2) .
  have w: "n = word_of_nat (65 * q + e)" "n div 65 = word_of_nat q"
    using n_def n d [folded qr(1)] q unat_u32_len [of q] by (simp, simp add: word_unat_eq_iff)
  show "text_len n = word_of_nat (length t)"
  proof (cases "r = 0")
    case True
    then show ?thesis using m e(2) unfolding text_len_def w(2) unfolding w(1) l(1) by simp
  next
    case False
    then show ?thesis using m e(3) unfolding text_len_def w(2) unfolding w(1) l(1) by simp
  qed
  have "n - n div 65 * 65 = word_of_nat e" unfolding w(2) unfolding w(1) by simp
  then show "unat (n - n div 65 * 65) = (if length t mod 64 = 0 then 0 else length t mod 64 + 1)"
    using e(1) by (simp add: unat_u32_len e_def qr(2))
  have "n div 65 * 64 = word_of_nat (64 * q)" unfolding w(2) by simp
  then show "n div 65 * 64 \<le> word_of_nat (length t)"
    using l assms(1) unat_u32_len [of "64 * q"] unat_u32_len [of "64 * q + r"] by (simp add: word_le_nat_alt)
qed

lemma read_text_ok:
  assumes s: "disk_ok s" "files s p = Some (lines64 t)" and t: "length t < 2 ^ 30"
  shows "\<exists>k. read_text (word_of_nat (length (lines64 t))) \<lparr>fd_path = p, fd_off = 0\<rparr> s = Some (0, length t, t, steps s k)"
proof -
  let ?q = "length t div 64" and ?r = "length t mod 64"
  define n where "n = (word_of_nat (length (lines64 t)) :: u32)"
  note w = text_words [OF t, folded n_def]
  have l: "unat (word_of_nat (length t) :: u32) = length t" using t by (simp add: unat_u32_len)
  have s': "disk_ok s" "files s p = Some ([] @ lines64 t)" "length [] = (0 :: nat)" "64 * ?q \<le> length t" using s by simp_all
  obtain k1 where k1: "read_lines ?q \<lparr>fd_path = p, fd_off = 0\<rparr> 0 (replicate (length t) 0) s =
      Some (0, \<lparr>fd_path = p, fd_off = 65 * ?q\<rparr>, 64 * ?q, take (64 * ?q) t @ replicate (length t - 64 * ?q) 0, steps s k1)"
    using read_lines_ok [OF s' order_refl] by auto
  let ?d = "drop (64 * ?q) t"
  have d: "length ?d = ?r" "take (64 * ?q) t @ ?d = t" "length t - 64 * ?q = ?r" "length (take (64 * ?q) t) = 64 * ?q"
    "64 * ?q + ?r = length t"
    by (simp_all add: minus_mult_div_eq_mod)
  note sp = lines64_split [OF s'(4)]
  have e: "n - n div 65 * 65 < 1 \<longleftrightarrow> ?r = 0" "?r \<noteq> 0 \<Longrightarrow> unat (n - n div 65 * 65 - 1) = ?r"
    using w(5) unat_minus_one [of "n - n div 65 * 65"] by (auto simp: word_less_nat_alt simp flip: unat_eq_0 split: if_splits)
  show ?thesis
  proof (cases "?r = 0")
    case True
    then show ?thesis using k1 d unfolding read_text_def n_def [symmetric] Let_def w(2,4) l e(1) by auto
  next
    case False
    then have n: "?d \<noteq> []" "length ?d \<le> 64" using d(1) by (metis list.size(3), metis less_imp_le mod_less_divisor zero_less_numeral)
    have f: "files (steps s k1) p = Some (lines64 (take (64 * ?q) t) @ ?d @ 0x0a # [])"
      using sp s(2) lines64_short [OF n] by simp
    obtain k2 where k2: "read_line ?r \<lparr>fd_path = p, fd_off = 65 * ?q\<rparr> (64 * ?q) (take (64 * ?q) t @ replicate ?r 0) (steps s k1) =
        Some (0, \<lparr>fd_path = p, fd_off = 65 * ?q + ?r + 1\<rparr>, t, steps s k2)"
      using read_line_ok [OF _ f _ d(4), of ?r] s'(1) less_trans [OF mod_less_divisor [of 64 "length t"], of "2 ^ 32"] sp d by auto
    then show ?thesis using False k1 d(3,5) e(2) unfolding read_text_def n_def [symmetric] Let_def w(2,4) l e(1) by auto
  qed
qed

lemma read_en64_ok:
  assumes s: "disk_ok s" "files s (str EN64FILEPATH) = Some (lines64 t)" and t: "t \<noteq> []" "length t < 2 ^ 30" and h: "no_oom (hp s)"
  shows "\<exists>k. read_en64 s = Some (0, Ptr (calls (hp s)) t, word_of_nat (length t),
    disk (s\<lparr>hp := alloc 1 (hp s)\<rparr>) k (files s |` (- set temp_files)))"
proof -
  let ?s = "s\<lparr>hp := alloc 1 (hp s), io_calls := Suc (io_calls s)\<rparr>"
  note w = text_words [OF t(2)]
  have ne: "length (lines64 t) \<noteq> 0" by (subst lines64_step [OF t(1)]) simp
  then have z: "(word_of_nat (length (lines64 t)) :: u32) \<noteq> 0" using w(1) by (metis unat_eq_0)
  obtain k1 where k1: "read_text (word_of_nat (length (lines64 t))) \<lparr>fd_path = str EN64FILEPATH, fd_off = 0\<rparr> ?s = Some (0, length t, t, steps ?s k1)"
    using read_text_ok [of ?s "str EN64FILEPATH" t] s t(2) by auto
  have "disk_ok (steps ?s k1)" using s(1) by simp
  then obtain k where k: "remove_all temp_files (steps ?s k1) = disk (steps ?s k1) k (files (steps ?s k1) |` (- set temp_files))"
    using remove_all_disk by blast
  have upd: "s\<lparr>io_calls := a, hp := b\<rparr> = s\<lparr>hp := b, io_calls := a\<rparr>" for a b by simp
  show ?thesis
    using z h k1 k leD [OF w(6)] s(2)
    by (simp add: read_en64_def open_existing_disk [OF s] os_malloc_def malloc_alloc Let_def lseek_def upd w(4))
qed

lemma write_lines_ok:
  assumes "disk_ok s" "files s p = Some f" "drop c b = t" "64 * q \<le> length t"
  shows "\<exists>k. write_lines q \<lparr>fd_path = p, fd_off = length f\<rparr> c b s =
    Some (0, \<lparr>fd_path = p, fd_off = length f + 65 * q\<rparr>, c + 64 * q, disk s k ((files s)(p \<mapsto> f @ lines64 (take (64 * q) t))))"
  using assms
proof (induction q arbitrary: s f t c)
  case 0
  then have "(files s)(p \<mapsto> f @ lines64 (take (64 * 0) t)) = files s" by (simp add: fun_upd_idem)
  then show ?case by (simp add: exI [of _ "io_calls s"])
next
  case (Suc q)
  let ?d = "take 64 t"
  have l: "t \<noteq> []" "length ?d = 64" "64 * q \<le> length (drop 64 t)" using Suc.prems(4) by auto
  let ?s = "disk s (Suc (Suc (io_calls s))) ((files s)(p \<mapsto> (f @ ?d) @ [0x0a]))" and ?f = "(f @ ?d) @ [0x0a]"
  have w1: "write_all \<lparr>fd_path = p, fd_off = length f\<rparr> ?d s =
      (64, \<lparr>fd_path = p, fd_off = length (f @ ?d)\<rparr>, disk s (Suc (io_calls s)) ((files s)(p \<mapsto> f @ ?d)))"
    using write_end [OF Suc.prems(1,2), of ?d] l(2) by simp
  have w2: "write_all \<lparr>fd_path = p, fd_off = length (f @ ?d)\<rparr> [0x0a] (disk s (Suc (io_calls s)) ((files s)(p \<mapsto> f @ ?d))) =
      (1, \<lparr>fd_path = p, fd_off = length ?f\<rparr>, ?s)"
    using write_end [of "disk s (Suc (io_calls s)) ((files s)(p \<mapsto> f @ ?d))" p "f @ ?d" "[0x0a]"] Suc.prems(1) by simp
  have "disk_ok ?s" "files ?s p = Some ?f" "drop (c + 64) b = drop 64 t" using Suc.prems(1,3) by (auto simp: ac_simps)
  then obtain k where k: "write_lines q \<lparr>fd_path = p, fd_off = length ?f\<rparr> (c + 64) b ?s =
      Some (0, \<lparr>fd_path = p, fd_off = length ?f + 65 * q\<rparr>, c + 64 + 64 * q, disk ?s k ((files ?s)(p \<mapsto> ?f @ lines64 (take (64 * q) (drop 64 t)))))"
    using Suc.IH l(3) by blast
  have t: "take (64 * Suc q) t = ?d @ take (64 * q) (drop 64 t)" by (simp add: take_add [symmetric])
  then have n: "take (64 * Suc q) t \<noteq> []" "take 64 (take (64 * Suc q) t) = ?d" "drop 64 (take (64 * Suc q) t) = take (64 * q) (drop 64 t)"
    using l by (simp_all add: min_def)
  have e: "f @ lines64 (take (64 * Suc q) t) = ?f @ lines64 (take (64 * q) (drop 64 t))"
    using lines64_step [OF n(1)] n(2,3) by simp
  have "rd 64 (drop c b) = Some ?d" using Suc.prems(3) l(2) by (auto simp: rd_def)
  then show ?case using w1 w2 k l(2) unfolding e
    by (intro exI [of _ k]) (simp add: ac_simps fun_upd_def cong: if_cong)
qed

lemma write_text_ok:
  assumes s: "disk_ok s" "files s p = Some []" and t: "length t < 2 ^ 30"
  shows "\<exists>k. write_text t (word_of_nat (length t)) \<lparr>fd_path = p, fd_off = 0\<rparr> s = Some (0, disk s k ((files s)(p \<mapsto> lines64 t)))"
proof -
  obtain q r where qr: "q = length t div 64" "r = length t mod 64" by simp
  obtain d f where df: "d = drop (64 * q) t" "f = lines64 (take (64 * q) t)" by simp
  have n: "length t = 64 * q + r" "r < 64" "length d = r" using qr df(1) by (simp_all add: minus_mult_div_eq_mod)
  then have l: "64 * q \<le> length t" by simp
  have sp: "lines64 t = f @ lines64 d" "length f = 65 * q" using lines64_split [OF l] df by simp_all
  let ?n = "word_of_nat (length t) :: u32"
  obtain k1 where k1: "write_lines q \<lparr>fd_path = p, fd_off = 0\<rparr> 0 t s =
      Some (0, \<lparr>fd_path = p, fd_off = length f\<rparr>, 64 * q, disk s k1 ((files s)(p \<mapsto> f)))"
    using write_lines_ok [OF s _ l, of 0 t] sp(2) unfolding df(2) by auto
  have u: "unat ?n = length t" "unat (word_of_nat (64 * q) :: u32) = 64 * q" "unat (word_of_nat r :: u32) = r"
    using t n by (intro unat_u32_len; simp)+
  have q: "unat (?n div 64) = q" by (simp add: unat_div u(1) qr(1))
  have r: "?n > word_of_nat (64 * q) \<longleftrightarrow> r \<noteq> 0" unfolding word_less_nat_alt u(1,2) using n(1) by arith
  have m: "?n - word_of_nat (64 * q) = word_of_nat r" unfolding n(1) by (simp only: of_nat_add add_diff_cancel_left')
  show ?thesis
  proof (cases "r = 0")
    case True
    then have "lines64 t = f" using sp n(3) by simp
    then show ?thesis using k1 r True unfolding write_text_def q by auto
  next
    case False
    then have e: "lines64 t = (f @ d) @ [0x0a]" using sp lines64_short [of d] n(2,3) by auto
    let ?s1 = "disk s k1 ((files s)(p \<mapsto> f))"
    let ?s2 = "disk ?s1 (Suc k1) ((files ?s1)(p \<mapsto> f @ d))"
    have w1: "write_all \<lparr>fd_path = p, fd_off = length f\<rparr> d ?s1 = (int r, \<lparr>fd_path = p, fd_off = length (f @ d)\<rparr>, ?s2)"
      using write_end [of ?s1 p f d] s(1) n(2,3) by simp
    have w2: "write_all \<lparr>fd_path = p, fd_off = length (f @ d)\<rparr> [0x0a] ?s2 =
        (1, \<lparr>fd_path = p, fd_off = Suc (length (f @ d))\<rparr>, disk s (Suc (Suc k1)) ((files s)(p \<mapsto> lines64 t)))"
      using write_end [of ?s2 p "f @ d" "[0x0a]"] s(1) by (simp add: e)
    have "rd r (drop (64 * q) t) = Some d" using n(3) by (simp add: rd_def flip: df(1))
    then have "write_text t ?n \<lparr>fd_path = p, fd_off = 0\<rparr> s = Some (0, disk s (Suc (Suc k1)) ((files s)(p \<mapsto> lines64 t)))"
      using k1 r False w1 w2 unfolding write_text_def q by (simp add: m u(3) n(3) del: of_nat_mult)
    then show ?thesis by (rule exI)
  qed
qed

lemma read_plain_ok:
  assumes s: "disk_ok s" "files s (str PLAINFILEPATH) = Some x" and x: "x \<noteq> []" "length x < 2 ^ 30" and h: "no_oom (hp s)"
  shows "\<exists>k. read_plain s = Some (0, Ptr (calls (hp s)) x, word_of_nat (length x),
    disk (s\<lparr>hp := alloc 1 (hp s)\<rparr>) k (files s |` (- set temp_files)))"
proof -
  let ?s = "s\<lparr>hp := alloc 1 (hp s), io_calls := Suc (io_calls s)\<rparr>" and ?n = "word_of_nat (length x) :: u32"
  have u: "unat ?n = length x" using x(2) by (simp add: unat_u32_len)
  then have z: "?n \<noteq> 0" using x(1) by (metis length_0_conv unat_eq_0)
  have r: "read_into \<lparr>fd_path = str PLAINFILEPATH, fd_off = 0\<rparr> (replicate (length x) 0) ?s =
      (int (length x), x, \<lparr>fd_path = str PLAINFILEPATH, fd_off = length x\<rparr>, steps ?s (Suc (Suc (io_calls s))))"
    using read_into_disk [of ?s "str PLAINFILEPATH" x "[]" x "[]" 0 "replicate (length x) 0"] s x(2) by simp
  have "disk_ok (steps ?s (Suc (Suc (io_calls s))))" using s(1) by simp
  then obtain k where k: "remove_all temp_files (steps ?s (Suc (Suc (io_calls s)))) = disk ?s k (files s |` (- set temp_files))"
    using remove_all_disk [of "steps ?s (Suc (Suc (io_calls s)))" temp_files] by auto
  have upd: "s\<lparr>io_calls := a, hp := b\<rparr> = s\<lparr>hp := b, io_calls := a\<rparr>" for a b by simp
  show ?thesis
    using z h k r s(2)
    by (simp add: read_plain_def open_existing_disk [OF s] os_malloc_def malloc_alloc Let_def lseek_def upd u)
qed

section \<open>What is encrypted is decrypted\<close>

text \<open>What the code relies on: \<^verbatim>\<open>rsautl -decrypt\<close> undoes \<^verbatim>\<open>rsautl -encrypt\<close> with the two keys on the disk,
  for data that is not longer than the key allows, and \<^verbatim>\<open>enc -base64 -d\<close> undoes \<^verbatim>\<open>enc -base64 -e\<close>, which writes lines of
  64 characters.\<close>

definition openssl_ok :: "shell \<Rightarrow> (byte list \<Rightarrow> byte list) \<Rightarrow> (byte list \<Rightarrow> byte list) \<Rightarrow> nat \<Rightarrow> bool" where
  "openssl_ok sh dec b64 lim \<longleftrightarrow>
     (\<forall>s x. str SATEPUBPEMFILEPATH \<in> dom (files s) \<and> files s (str PLAINFILEPATH) = Some x \<and> x \<noteq> [] \<and> length x \<le> lim \<longrightarrow>
        (\<exists>y. dec y = x \<and> y \<noteq> [] \<and> length y \<le> 512 \<and>
          sh_system sh (str (enc_cmd SATEPUBPEMFILEPATH)) s = s\<lparr>files := (files s)(str ENCFILEPATH \<mapsto> y)\<rparr>)) \<and>
     (\<forall>s y. files s (str ENCFILEPATH) = Some y \<longrightarrow> sh_system sh (str EN64CMD) s = s\<lparr>files := (files s)(str EN64FILEPATH \<mapsto> lines64 (b64 y))\<rparr>) \<and>
     (\<forall>s y. files s (str EN64FILEPATH) = Some (lines64 (b64 y)) \<longrightarrow>
        sh_system sh (str DE64CMD) s = s\<lparr>files := (files s)(str ENCFILEPATH \<mapsto> y)\<rparr>) \<and>
     (\<forall>s y. str SATEPRVPEMFILEPATH \<in> dom (files s) \<and> files s (str ENCFILEPATH) = Some y \<longrightarrow>
        sh_system sh (str SATDECCMD) s = s\<lparr>files := (files s)(str PLAINFILEPATH \<mapsto> dec y)\<rparr>) \<and>
     (\<forall>y. y \<noteq> [] \<and> length y \<le> 512 \<longrightarrow> b64 y \<noteq> [] \<and> length (b64 y) < 2 ^ 30)"

lemma openssl_okD:
  assumes "openssl_ok sh dec b64 lim"
  shows "\<lbrakk>str SATEPUBPEMFILEPATH \<in> dom (files s); files s (str PLAINFILEPATH) = Some x; x \<noteq> []; length x \<le> lim\<rbrakk> \<Longrightarrow>
      \<exists>y. dec y = x \<and> y \<noteq> [] \<and> length y \<le> 512 \<and>
        sh_system sh (str (enc_cmd SATEPUBPEMFILEPATH)) s = s\<lparr>files := (files s)(str ENCFILEPATH \<mapsto> y)\<rparr>"
    "files s (str ENCFILEPATH) = Some y \<Longrightarrow> sh_system sh (str EN64CMD) s = s\<lparr>files := (files s)(str EN64FILEPATH \<mapsto> lines64 (b64 y))\<rparr>"
    "files s (str EN64FILEPATH) = Some (lines64 (b64 y)) \<Longrightarrow> sh_system sh (str DE64CMD) s = s\<lparr>files := (files s)(str ENCFILEPATH \<mapsto> y)\<rparr>"
    "\<lbrakk>str SATEPRVPEMFILEPATH \<in> dom (files s); files s (str ENCFILEPATH) = Some y\<rbrakk> \<Longrightarrow>
      sh_system sh (str SATDECCMD) s = s\<lparr>files := (files s)(str PLAINFILEPATH \<mapsto> dec y)\<rparr>"
    "\<lbrakk>y \<noteq> []; length y \<le> 512\<rbrakk> \<Longrightarrow> b64 y \<noteq> [] \<and> length (b64 y) < 2 ^ 30"
  using assms unfolding openssl_ok_def by metis+

lemma temp_paths:
  "distinct [str PLAINFILEPATH, str ENCFILEPATH, str EN64FILEPATH, str SATEPUBPEMFILEPATH, str SATEPRVPEMFILEPATH]"
  "dirname (str ENCFILEPATH) = dirname (str PLAINFILEPATH)" "dirname (str EN64FILEPATH) = dirname (str PLAINFILEPATH)"
  by (code_simp+)

lemma temp_files_set: "set temp_files = {str PLAINFILEPATH, str ENCFILEPATH, str EN64FILEPATH}"
  by (simp add: temp_files_def)

lemma temp_files_mem: "str PLAINFILEPATH \<in> set temp_files" "str ENCFILEPATH \<in> set temp_files" "str EN64FILEPATH \<in> set temp_files"
  by (simp_all add: temp_files_set)

lemma restrict_temp:
  "p \<in> set ps \<Longrightarrow> (m(p \<mapsto> v)) |` (- set ps) = m |` (- set ps)" "(m |` (- set ps)) |` (- set ps) = m |` (- set ps)"
  by (auto simp: restrict_map_def)

lemma access_upd: "files s p = Some v \<Longrightarrow> access p s = 0"
  by (simp add: access_def dom_def)

text \<open>What the encryption with one public key relies on, for the contents \<^verbatim>\<open>key\<close> of its file: \<^verbatim>\<open>rsautl -encrypt\<close>
  turns at most \<^verbatim>\<open>lim\<close> bytes into at most \<^verbatim>\<open>clen\<close> bytes, which \<^verbatim>\<open>dec\<close>, the decryption with the private key that
  belongs to \<^verbatim>\<open>key\<close>, turns back (117 and 128 for the keys of 1024 bits that the node makes, 245 and 256 for 2048
  bits), and \<^verbatim>\<open>enc -base64\<close> writes the text \<^verbatim>\<open>b64\<close> in lines.  Nothing is said about a file with another key.\<close>

definition encrypts :: "shell \<Rightarrow> string \<Rightarrow> byte list \<Rightarrow> (byte list \<Rightarrow> byte list) \<Rightarrow> (byte list \<Rightarrow> byte list) \<Rightarrow> nat \<Rightarrow> nat \<Rightarrow> bool" where
  "encrypts sh pub key dec b64 lim clen \<longleftrightarrow> str pub \<notin> set temp_files \<and>
     (\<forall>s x. files s (str pub) = Some key \<and> files s (str PLAINFILEPATH) = Some x \<and> x \<noteq> [] \<and> length x \<le> lim \<longrightarrow>
        (\<exists>y. dec y = x \<and> y \<noteq> [] \<and> length y \<le> clen \<and>
          sh_system sh (str (enc_cmd pub)) s = s\<lparr>files := (files s)(str ENCFILEPATH \<mapsto> y)\<rparr>)) \<and>
     (\<forall>s y. files s (str ENCFILEPATH) = Some y \<longrightarrow> sh_system sh (str EN64CMD) s = s\<lparr>files := (files s)(str EN64FILEPATH \<mapsto> lines64 (b64 y))\<rparr>) \<and>
     (\<forall>y. y \<noteq> [] \<and> length y \<le> clen \<longrightarrow> b64 y \<noteq> [] \<and> length (b64 y) < 2 ^ 30)"

lemma encryptsD:
  assumes "encrypts sh pub key dec b64 lim clen"
  shows "str pub \<notin> set temp_files"
    "\<lbrakk>files s (str pub) = Some key; files s (str PLAINFILEPATH) = Some x; x \<noteq> []; length x \<le> lim\<rbrakk> \<Longrightarrow>
      \<exists>y. dec y = x \<and> y \<noteq> [] \<and> length y \<le> clen \<and>
        sh_system sh (str (enc_cmd pub)) s = s\<lparr>files := (files s)(str ENCFILEPATH \<mapsto> y)\<rparr>"
    "files s (str ENCFILEPATH) = Some y \<Longrightarrow> sh_system sh (str EN64CMD) s = s\<lparr>files := (files s)(str EN64FILEPATH \<mapsto> lines64 (b64 y))\<rparr>"
    "\<lbrakk>y \<noteq> []; length y \<le> clen\<rbrakk> \<Longrightarrow> b64 y \<noteq> [] \<and> length (b64 y) < 2 ^ 30"
  using assms unfolding encrypts_def by metis+

lemma openssl_encrypts: "openssl_ok sh dec b64 lim \<Longrightarrow> encrypts sh SATEPUBPEMFILEPATH key dec b64 lim 512"
  using temp_paths(1) [THEN distinct_rev [THEN iffD2]] unfolding openssl_ok_def encrypts_def temp_files_set by (simp add: domI)

lemma en_ok:
  assumes o: "encrypts sh pub key dec b64 lim clen" and s: "disk_ok s" "dirname (str PLAINFILEPATH) \<in> dirs s" "files s (str pub) = Some key"
    and x: "x \<noteq> []" "length x \<le> lim" "lim < 2 ^ 30" and h: "no_oom (hp s)"
  shows "\<exists>y k. dec y = x \<and> y \<noteq> [] \<and> length y \<le> clen \<and> b64 y \<noteq> [] \<and> length (b64 y) < 2 ^ 30 \<and>
    en_enc_and_en64 sh pub (Some (x @ rest)) (word_of_nat (length x)) s =
      Some (0, Ptr (calls (hp s)) (b64 y), word_of_nat (length (b64 y)), disk (s\<lparr>hp := alloc 1 (hp s)\<rparr>) k (files s |` (- set temp_files)))"
proof -
  note t = temp_paths [simplified]
  let ?n = "word_of_nat (length x) :: u32" and ?f = "files s |` (- set temp_files)"
  have "unat ?n = length x" using x by (intro unat_u32_len) simp
  then have n: "?n \<noteq> 0" using x(1) by (metis length_0_conv unat_eq_0)
  have a: "access (str pub) s = 0" using s(3) by (rule access_upd)
  obtain k0 where k0: "clear_all temp_files s = disk s k0 ?f" using clear_all_disk [OF s(1)] by blast
  have "disk_ok (disk s k0 ?f)" "dirname (str PLAINFILEPATH) \<in> dirs (disk s k0 ?f)" "length x < 2 ^ 32" using s x by simp_all
  from write_new_disk [OF this] obtain k1 where
    k1: "write_new (str PLAINFILEPATH) (x @ rest) ?n (disk s k0 ?f) = Some (0, disk s k1 (?f(str PLAINFILEPATH \<mapsto> x)))" by auto
  let ?s1 = "disk s k1 (?f(str PLAINFILEPATH \<mapsto> x))"
  have "str pub \<noteq> str PLAINFILEPATH" using encryptsD(1) [OF o] temp_files_mem(1) by metis
  then have p: "files ?s1 (str pub) = Some key" "files ?s1 (str PLAINFILEPATH) = Some x"
    using s(3) encryptsD(1) [OF o] by (simp_all add: restrict_map_def)
  let ?f1 = "?f(str PLAINFILEPATH \<mapsto> x)"
  obtain y where y: "dec y = x" "y \<noteq> []" "length y \<le> clen"
      "sh_system sh (str (enc_cmd pub)) ?s1 = disk s k1 (?f1(str ENCFILEPATH \<mapsto> y))"
    using encryptsD(2) [OF o p x(1,2)] by auto
  let ?f2 = "?f1(str ENCFILEPATH \<mapsto> y)"
  let ?f3 = "?f2(str EN64FILEPATH \<mapsto> lines64 (b64 y))"
  have e: "sh_system sh (str EN64CMD) (disk s k1 ?f2) = disk s k1 ?f3"
    using encryptsD(3) [OF o, of "disk s k1 ?f2" y] by simp
  note b = encryptsD(4) [OF o y(2,3)]
  have s3: "disk_ok (disk s k1 ?f3)" "files (disk s k1 ?f3) (str EN64FILEPATH) = Some (lines64 (b64 y))" "no_oom (hp (disk s k1 ?f3))"
    using s(1) h by simp_all
  have f: "?f3 |` (- set temp_files) = ?f" by (simp only: restrict_temp temp_files_mem)
  obtain k where k: "read_en64 (disk s k1 ?f3) = Some (0, Ptr (calls (hp s)) (b64 y), word_of_nat (length (b64 y)),
      disk (s\<lparr>hp := alloc 1 (hp s)\<rparr>) k ?f)"
    using read_en64_ok [OF s3(1,2) conjunct1 [OF b] conjunct2 [OF b] s3(3)] unfolding files_disk f hp_disk by (elim exE) simp
  have ac: "access (str ENCFILEPATH) (disk s k1 ?f2) = 0" "access (str EN64FILEPATH) (disk s k1 ?f3) = 0" by (rule access_upd; simp)+
  have "en_enc_and_en64 sh pub (Some (x @ rest)) ?n s = read_en64 (disk s k1 ?f3)"
    unfolding en_enc_and_en64_def using n a k0 k1 y(4) e ac by (simp add: Let_def)
  then show ?thesis using y(1-3) b k by auto
qed

lemma sat_en_ok:
  assumes o: "openssl_ok sh dec b64 lim" and s: "disk_ok s" "dirname (str PLAINFILEPATH) \<in> dirs s" "str SATEPUBPEMFILEPATH \<in> dom (files s)"
    and x: "x \<noteq> []" "length x \<le> lim" "lim < 2 ^ 30" and h: "no_oom (hp s)"
  shows "\<exists>y k. dec y = x \<and> b64 y \<noteq> [] \<and> length (b64 y) < 2 ^ 30 \<and>
    sat_en_enc_and_en64 sh (Some (x @ rest)) (word_of_nat (length x)) s =
      Some (0, Ptr (calls (hp s)) (b64 y), word_of_nat (length (b64 y)), disk (s\<lparr>hp := alloc 1 (hp s)\<rparr>) k (files s |` (- set temp_files)))"
proof -
  obtain key where "files s (str SATEPUBPEMFILEPATH) = Some key" using s(3) by blast
  from en_ok [OF openssl_encrypts [OF o] s(1,2) this x h, of rest] show ?thesis
    unfolding sat_en_enc_and_en64_def by blast
qed

lemma sat_de_ok:
  assumes o: "openssl_ok sh dec b64 lim" and s: "disk_ok s" "dirname (str PLAINFILEPATH) \<in> dirs s" "str SATEPRVPEMFILEPATH \<in> dom (files s)"
    and y: "b64 y \<noteq> []" "length (b64 y) < 2 ^ 30" and x: "dec y \<noteq> []" "length (dec y) < 2 ^ 30" and h: "no_oom (hp s)"
  shows "\<exists>k. sat_de_de64_and_dec sh (Some (b64 y)) (word_of_nat (length (b64 y))) s =
    Some (0, Ptr (calls (hp s)) (dec y), word_of_nat (length (dec y)), disk (s\<lparr>hp := alloc 1 (hp s)\<rparr>) k (files s |` (- set temp_files)))"
proof -
  note t = temp_paths [simplified]
  let ?n = "word_of_nat (length (b64 y)) :: u32" and ?f = "files s |` (- set temp_files)"
  have u: "unat ?n = length (b64 y)" using y by (intro unat_u32_len) simp
  then have n: "?n \<noteq> 0" using y(1) by (metis length_0_conv unat_eq_0)
  have le: "\<not> ?n div 64 * 64 > ?n" by (simp add: not_less word_div_mult_le)
  have a: "access (str SATEPRVPEMFILEPATH) s = 0" using s(3) by (rule access_file)
  obtain k0 where k0: "clear_all temp_files s = disk s k0 ?f" using clear_all_disk [OF s(1)] by blast
  let ?s0 = "disk s (Suc k0) (?f(str EN64FILEPATH \<mapsto> []))"
  have op: "open_trunc (str EN64FILEPATH) (disk s k0 ?f) = (Some \<lparr>fd_path = str EN64FILEPATH, fd_off = 0\<rparr>, ?s0)"
    using open_trunc_disk [of "disk s k0 ?f" "str EN64FILEPATH"] s t by simp
  have "disk_ok ?s0" "files ?s0 (str EN64FILEPATH) = Some []" using s(1) by simp_all
  then obtain k1 where k1: "write_text (b64 y) ?n \<lparr>fd_path = str EN64FILEPATH, fd_off = 0\<rparr> ?s0 =
      Some (0, disk s k1 (?f(str EN64FILEPATH \<mapsto> lines64 (b64 y))))"
    using write_text_ok [of ?s0 "str EN64FILEPATH" "b64 y"] y(2) by auto
  let ?f1 = "?f(str EN64FILEPATH \<mapsto> lines64 (b64 y))"
  let ?f2 = "?f1(str ENCFILEPATH \<mapsto> y)"
  let ?f3 = "?f2(str PLAINFILEPATH \<mapsto> dec y)"
  have d: "sh_system sh (str DE64CMD) (disk s k1 ?f1) = disk s k1 ?f2"
    using openssl_okD(3) [OF o, of "disk s k1 ?f1" y] by simp
  have p: "str SATEPRVPEMFILEPATH \<in> dom (files (disk s k1 ?f2))" "files (disk s k1 ?f2) (str ENCFILEPATH) = Some y"
    using s(3) t by (auto simp: temp_files_set restrict_map_def)
  have e: "sh_system sh (str SATDECCMD) (disk s k1 ?f2) = disk s k1 ?f3"
    using openssl_okD(4) [OF o p] by simp
  have s3: "disk_ok (disk s k1 ?f3)" "files (disk s k1 ?f3) (str PLAINFILEPATH) = Some (dec y)" "no_oom (hp (disk s k1 ?f3))"
    using s(1) h by simp_all
  have f: "?f3 |` (- set temp_files) = ?f" by (simp only: restrict_temp temp_files_mem)
  obtain k where k: "read_plain (disk s k1 ?f3) = Some (0, Ptr (calls (hp s)) (dec y), word_of_nat (length (dec y)),
      disk (s\<lparr>hp := alloc 1 (hp s)\<rparr>) k ?f)"
    using read_plain_ok [OF s3(1,2) x s3(3)] unfolding files_disk f hp_disk by (elim exE) simp
  have ac: "access (str ENCFILEPATH) (disk s k1 ?f2) = 0" "access (str PLAINFILEPATH) (disk s k1 ?f3) = 0" by (rule access_upd; simp)+
  have "sat_de_de64_and_dec sh (Some (b64 y)) ?n s = read_plain (disk s k1 ?f3)"
    unfolding sat_de_de64_and_dec_def using n le a k0 op k1 d e ac by (simp add: Let_def)
  then show ?thesis using k by auto
qed

text \<open>C10: What the node encrypts with its own public key and \<^verbatim>\<open>sat_en_enc_and_en64\<close> returns as base 64 text without line
  ends is what \<^verbatim>\<open>sat_de_de64_and_dec\<close> turns back into the same bytes; both leave no temporary file and no other
  change of the disk.\<close>

theorem envelope_roundtrip:
  assumes "openssl_ok sh dec b64 lim" "disk_ok s" "dirname (str PLAINFILEPATH) \<in> dirs s"
    "str SATEPUBPEMFILEPATH \<in> dom (files s)" "str SATEPRVPEMFILEPATH \<in> dom (files s)"
    and "x \<noteq> []" "length x \<le> lim" "lim < 2 ^ 30" "no_oom (hp s)"
  shows "\<exists>p q t s1 s2. sat_en_enc_and_en64 sh (Some (x @ rest)) (word_of_nat (length x)) s = Some (0, Ptr p t, word_of_nat (length t), s1) \<and>
    sat_de_de64_and_dec sh (Some t) (word_of_nat (length t)) s1 = Some (0, Ptr q x, word_of_nat (length x), s2) \<and>
    files s1 = files s |` (- set temp_files) \<and> files s2 = files s1 \<and> dirs s2 = dirs s"
proof -
  obtain y k where y: "dec y = x" "b64 y \<noteq> []" "length (b64 y) < 2 ^ 30"
    and e: "sat_en_enc_and_en64 sh (Some (x @ rest)) (word_of_nat (length x)) s =
      Some (0, Ptr (calls (hp s)) (b64 y), word_of_nat (length (b64 y)), disk (s\<lparr>hp := alloc 1 (hp s)\<rparr>) k (files s |` (- set temp_files)))"
    using sat_en_ok [OF assms(1-4,6-9)] by blast
  let ?s1 = "disk (s\<lparr>hp := alloc 1 (hp s)\<rparr>) k (files s |` (- set temp_files))"
  have "str SATEPRVPEMFILEPATH \<in> dom (files ?s1)"
    using assms(5) temp_paths by (auto simp: temp_files_set restrict_map_def)
  then obtain k2 where "sat_de_de64_and_dec sh (Some (b64 y)) (word_of_nat (length (b64 y))) ?s1 =
      Some (0, Ptr (calls (hp ?s1)) x, word_of_nat (length x), disk (?s1\<lparr>hp := alloc 1 (hp ?s1)\<rparr>) k2 (files ?s1 |` (- set temp_files)))"
    using sat_de_ok [OF assms(1), of ?s1 y] y assms(2,3,6-9) by auto
  then show ?thesis using e by (simp add: restrict_temp)
qed

section \<open>A node that can\<close>

text \<open>Commands that copy the files, for which the law holds.\<close>

function unlines64 :: "byte list \<Rightarrow> byte list" where
  "unlines64 t = (if length t \<le> 65 then butlast t else take 64 t @ unlines64 (drop 65 t))"
  by pat_completeness auto
termination by (relation "measure length") auto

declare unlines64.simps [simp del]

lemma unlines64_lines64 [simp]: "unlines64 (lines64 t) = t"
proof (induction "length t" arbitrary: t rule: less_induct)
  case less
  show ?case
  proof (cases "length t \<le> 64")
    case True
    then show ?thesis by (cases "t = []") (simp_all add: lines64_short unlines64.simps)
  next
    case False
    then have n: "t \<noteq> []" "length (drop 64 t) < length t" "drop 64 t \<noteq> []" "min (length t) 64 = 64" by auto
    have "lines64 (drop 64 t) \<noteq> []" by (simp add: lines64_step [OF n(3)])
    then show ?thesis using less.hyps [OF n(2)] n(4) by (subst lines64_step [OF n(1)], subst unlines64.simps) auto
  qed
qed

definition copy :: "(byte list \<Rightarrow> byte list) \<Rightarrow> string \<Rightarrow> string \<Rightarrow> os \<Rightarrow> os"
  where "copy f p q s = s\<lparr>files := (files s)(str q := map_option f (files s (str p)))\<rparr>"

definition toy_shell :: shell where
  "toy_shell = \<lparr>sh_system = \<lambda>c.
     if c = str (enc_cmd SATEPUBPEMFILEPATH) then copy (\<lambda>x. x) PLAINFILEPATH ENCFILEPATH
     else if c = str EN64CMD then copy lines64 ENCFILEPATH EN64FILEPATH
     else if c = str DE64CMD then copy unlines64 EN64FILEPATH ENCFILEPATH
     else copy (\<lambda>x. x) ENCFILEPATH PLAINFILEPATH,
     sh_popen = \<lambda>c s. (None, s)\<rparr>"

lemma commands: "distinct [str (enc_cmd SATEPUBPEMFILEPATH), str EN64CMD, str DE64CMD, str SATDECCMD]"
  by code_simp

lemma toy_shell_ok: "openssl_ok toy_shell (\<lambda>x. x) (\<lambda>x. x) 100"
  using commands by (auto simp: openssl_ok_def toy_shell_def copy_def)

definition toy_disk :: os where
  "toy_disk = \<lparr>hp = sound_heap, dirs = {dirname (str PLAINFILEPATH)},
     files = [str SATEPUBPEMFILEPATH \<mapsto> [1], str SATEPRVPEMFILEPATH \<mapsto> [2]], io_calls = 0, io_max = \<lambda>_. Some (2 ^ 32)\<rparr>"

lemma envelope_roundtrip_witness:
  "\<exists>p q t s1 s2. sat_en_enc_and_en64 toy_shell (Some ([7, 8, 9] @ [0])) (word_of_nat (length [7, 8, 9 :: byte])) toy_disk =
      Some (0, Ptr p t, word_of_nat (length t), s1) \<and>
    sat_de_de64_and_dec toy_shell (Some t) (word_of_nat (length t)) s1 = Some (0, Ptr q [7, 8, 9], word_of_nat (length [7, 8, 9 :: byte]), s2) \<and>
    files s1 = files toy_disk |` (- set temp_files) \<and> files s2 = files s1 \<and> dirs s2 = dirs toy_disk"
  by (rule envelope_roundtrip [OF toy_shell_ok]) (simp_all add: toy_disk_def disk_ok_def no_oom_def sound_heap_def)

end
