(* ===== verification/Upload.thy ===== *)
theory Upload
  imports Envelope
begin

text \<open>
  The data file that comes from the ground (\<^verbatim>\<open>spcmodprepare.c\<close>): it is found in the directory of uploads,
  compared with its checksum file, whose signature is verified, and unpacked into the list of files to keep, the
  transaction files and the command files.

  An entry of a directory is the bytes of its structure before the name, and the name: the code compares the
  end of the name without a look at its length.  What is in the structure after \<^verbatim>\<open>closedir\<close> is a parameter,
  \<^verbatim>\<open>None\<close> when it is undefined to read it, and so is whether a call that failed was only interrupted.
\<close>

type_synonym dir_entry = "byte list \<times> byte list"

record dir_ops =
  dir_read :: "byte list \<Rightarrow> os \<Rightarrow> dir_entry list option"
  dir_stale :: "byte list \<Rightarrow> nat option"

definition UPLOADDIR :: "byte list" where "UPLOADDIR = str ''/mnt/spcdata/upload/''"
definition TXDIR :: "byte list" where "TXDIR = str ''/mnt/spcdata/transaction/txfiles/''"
definition SERVEREPUBDIR :: "byte list" where "SERVEREPUBDIR = str ''/mnt/spcdata/server/epub/''"
definition KEEPLISTFILEPATH :: "byte list" where "KEEPLISTFILEPATH = str ''/mnt/spcdata/trash/keep.list''"
definition TEMPDATAFILEPATH :: "byte list" where "TEMPDATAFILEPATH = str ''/mnt/spcdata/prepare/temp/temp.data''"
definition DATAFILETAIL :: "byte list" where "DATAFILETAIL = str ''.data''"
definition CHECKFILETAIL :: "byte list" where "CHECKFILETAIL = str ''.checksum''"
definition RMCHECKFILECMD :: "byte list" where "RMCHECKFILECMD = str ''rm -f /mnt/spcdata/upload/*.checksum''"

definition MAXSIZE :: u32 where "MAXSIZE = 52428800"

section \<open>Directories\<close>

text \<open>\<^verbatim>\<open>strncmp(name + strlen(name) - strlen(tail), tail, strlen(tail)) == 0\<close>.\<close>

definition has_tail :: "byte list \<Rightarrow> dir_entry \<Rightarrow> bool option" where
  "has_tail tail e = (case e of (before, name) \<Rightarrow>
     if length before + length name < length tail then None
     else Some (drop (length before + length name - length tail) (before @ name) = tail))"

fun count_tail :: "byte list \<Rightarrow> dir_entry list \<Rightarrow> int \<Rightarrow> int option" where
  "count_tail tail [] n = Some n"
| "count_tail tail (e # es) n = do { t \<leftarrow> has_tail tail e; count_tail tail es (if t then n + 1 else n) }"

fun find_tail :: "byte list \<Rightarrow> dir_entry list \<Rightarrow> byte list option option" where
  "find_tail tail [] = Some None"
| "find_tail tail (e # es) = do { t \<leftarrow> has_tail tail e; if t then Some (Some (snd e)) else find_tail tail es }"

definition countDataFile :: "dir_ops \<Rightarrow> byte list \<Rightarrow> os \<Rightarrow> int option" where
  "countDataFile ds dirPath s = (case dir_read ds dirPath s of None \<Rightarrow> Some (-1) | Some es \<Rightarrow> count_tail DATAFILETAIL es 0)"

definition prepare_checkDataFile :: "dir_ops \<Rightarrow> os \<Rightarrow> int option"
  where "prepare_checkDataFile ds s = do { ret \<leftarrow> countDataFile ds UPLOADDIR s; Some (if ret = 1 then 0 else -1) }"

text \<open>\<^verbatim>\<open>_findDataFile\<close>: the name in a new block.  Its length is read from the structure of the entry after the
  directory was closed.\<close>

definition findDataFile :: "dir_ops \<Rightarrow> byte list \<Rightarrow> os \<Rightarrow> (byte list ptr \<times> u32 \<times> os) option" where
  "findDataFile ds dirPath s = (case dir_read ds dirPath s of
     None \<Rightarrow> Some (NULL, 0, s)
   | Some es \<Rightarrow> do {
       f \<leftarrow> find_tail DATAFILETAIL es;
       case f of None \<Rightarrow> Some (NULL, 0, s)
       | Some name \<Rightarrow> (case os_malloc (word_of_nat (length name) + 1) s of
            (None, s1) \<Rightarrow> Some (NULL, 0, s1)
          | (Some p, s1) \<Rightarrow> do { n \<leftarrow> dir_stale ds name; Some (Ptr p (name @ [0]), word_of_nat n, s1) })
     })"

section \<open>The checksum file\<close>

definition getCheckFileName :: "buf \<Rightarrow> u32 \<Rightarrow> buf \<Rightarrow> u32 \<Rightarrow> os \<Rightarrow> (int \<times> buf \<times> os) option" where
  "getCheckFileName dataFileName dataFileNameLen checkFileNameBuf checkFileNameBufLen s =
    (case (dataFileName, checkFileNameBuf) of
       (Some name, Some b) \<Rightarrow>
         if dataFileNameLen \<noteq> 37 \<or> checkFileNameBufLen < 41 then Some (-1, checkFileNameBuf, s)
         else (case os_malloc 47 s of
             (None, s1) \<Rightarrow> Some (-1, checkFileNameBuf, s1)
           | (Some p, s1) \<Rightarrow> do {
               nameBuf \<leftarrow> strncat (replicate 47 0) name 37;
               t \<leftarrow> rd 5 (drop 32 nameBuf);
               if t \<noteq> DATAFILETAIL then do { s2 \<leftarrow> os_free p s1; Some (-1, checkFileNameBuf, s2) }
               else do {
                 nameBuf \<leftarrow> wr 32 CHECKFILETAIL nameBuf;
                 nameBuf \<leftarrow> upd_ub 41 0 nameBuf;
                 retLen \<leftarrow> strlen nameBuf;
                 b1 \<leftarrow> wr 0 (replicate (unat checkFileNameBufLen) 0) b;
                 d \<leftarrow> rd retLen nameBuf;
                 b2 \<leftarrow> wr 0 d b1;
                 s2 \<leftarrow> os_free p s1;
                 Some (0, Some b2, s2)
               }
             })
     | _ \<Rightarrow> Some (-1, checkFileNameBuf, s))"

text \<open>The path of a file in the directory of uploads, in a new block.\<close>

definition upload_path :: "byte list \<Rightarrow> u32 \<Rightarrow> os \<Rightarrow> ((nat \<times> byte list) option \<times> os) option" where
  "upload_path name n s = (case os_malloc (ucast (word_of_nat (length UPLOADDIR) + n + 1)) s of
     (None, s1) \<Rightarrow> Some (None, s1)
   | (Some p, s1) \<Rightarrow> do {
       b \<leftarrow> strncat (replicate (length UPLOADDIR + unat n + 1) 0) UPLOADDIR (length UPLOADDIR);
       b \<leftarrow> strncat b name (unat n);
       Some (Some (p, c_str b), s1)
     })"

text \<open>A byte that has to be \<^verbatim>\<open>tag\<close> and a length, at a position of the file.\<close>

definition read_head :: "nat \<Rightarrow> byte \<Rightarrow> file_desc \<Rightarrow> os \<Rightarrow> u32 option \<times> file_desc \<times> os" where
  "read_head off tag fd s = (case read_into (lseek fd off) [0] s of (ret, h, fd, s1) \<Rightarrow>
     if ret \<noteq> 1 \<or> h \<noteq> [tag] then (None, fd, s1)
     else (case read_into fd (u32_le 0) s1 of (ret, l, fd, s2) \<Rightarrow>
       if ret \<noteq> 4 then (None, fd, s2) else (Some (le_u32 l), fd, s2)))"

text \<open>Opening the checksum file, which both \<^verbatim>\<open>_getMd5\<close> and \<^verbatim>\<open>_getSig\<close> do.\<close>

definition open_check :: "byte list \<Rightarrow> u32 \<Rightarrow> os \<Rightarrow> (file_desc option \<times> os) option" where
  "open_check name n s = do {
     (q, s1) \<leftarrow> upload_path name n s;
     case q of None \<Rightarrow> Some (None, s1)
     | Some (p, path) \<Rightarrow>
         if access path s1 \<noteq> 0 then do { s2 \<leftarrow> os_free p s1; Some (None, s2) }
         else (case open_existing path s1 of (f, s2) \<Rightarrow> do { s3 \<leftarrow> os_free p s2; Some (f, s3) })
   }"

definition getMd5 :: "buf \<Rightarrow> u32 \<Rightarrow> buf \<Rightarrow> u32 \<Rightarrow> os \<Rightarrow> (int \<times> buf \<times> os) option" where
  "getMd5 checkFileName checkFileNameLen md5Buf md5BufLen s =
    (case (checkFileName, md5Buf) of
       (Some name, Some b) \<Rightarrow>
         if checkFileNameLen \<noteq> 41 \<or> md5BufLen < 32 then Some (-1, md5Buf, s)
         else do {
           (f, s1) \<leftarrow> open_check name checkFileNameLen s;
           case f of None \<Rightarrow> Some (-1, md5Buf, s1)
           | Some fd \<Rightarrow> (case read_head 9 0xba fd s1 of (len, fd, s2) \<Rightarrow>
               if len \<noteq> Some 32 then Some (-1, md5Buf, s2)
               else (case read_into fd (replicate 32 0) s2 of (ret, d, fd, s3) \<Rightarrow>
                 if ret \<noteq> 32 then Some (-1, md5Buf, s3) else do { b1 \<leftarrow> wr 0 d b; Some (0, Some b1, s3) }))
         }
     | _ \<Rightarrow> Some (-1, md5Buf, s))"

text \<open>\<^verbatim>\<open>_genMd5\<close>: the first 32 characters that the command \<^verbatim>\<open>md5sum\<close> prints.\<close>

definition genMd5 :: "shell \<Rightarrow> buf \<Rightarrow> u32 \<Rightarrow> buf \<Rightarrow> u32 \<Rightarrow> os \<Rightarrow> (int \<times> buf \<times> os) option" where
  "genMd5 sh dataFileName dataFileNameLen md5Buf md5BufLen s =
    (case (dataFileName, md5Buf) of
       (Some name, Some b) \<Rightarrow>
         if dataFileNameLen \<noteq> 37 \<or> md5BufLen < 32 then Some (-1, md5Buf, s)
         else do {
           (q, s1) \<leftarrow> upload_path name dataFileNameLen s;
           case q of None \<Rightarrow> Some (-1, md5Buf, s1)
           | Some (p, path) \<Rightarrow>
               if access path s1 \<noteq> 0 then do { s2 \<leftarrow> os_free p s1; Some (-1, md5Buf, s2) }
               else (case os_malloc (word_of_nat (length path + 12)) s1 of
                   (None, s2) \<Rightarrow> do { s3 \<leftarrow> os_free p s2; Some (-1, md5Buf, s3) }
                 | (Some c, s2) \<Rightarrow> do {
                     md5Cmd \<leftarrow> strncat (replicate (length path + 12) 0) (str ''md5sum '') 7;
                     md5Cmd \<leftarrow> strncat md5Cmd path (length path);
                     s3 \<leftarrow> os_free p s2;
                     case sh_popen sh (c_str md5Cmd) s3 of (res, s4) \<Rightarrow> do {
                       s5 \<leftarrow> os_free c s4;
                       case res of None \<Rightarrow> Some (-1, md5Buf, s5)
                       | Some out \<Rightarrow>
                           if length out < 32 then Some (-1, md5Buf, s5)
                           else do {
                             b1 \<leftarrow> wr 0 (replicate (unat md5BufLen) 0) b;
                             b2 \<leftarrow> wr 0 (take 32 out) b1;
                             Some (0, Some b2, s5)
                           }
                     }
                   })
         }
     | _ \<Rightarrow> Some (-1, md5Buf, s))"

text \<open>\<^verbatim>\<open>_getSig\<close>: the signature in a new block of its length, of which one byte more is cleared.\<close>

definition getSig :: "buf \<Rightarrow> u32 \<Rightarrow> os \<Rightarrow> (byte list ptr \<times> u32 \<times> os) option" where
  "getSig checkFileName checkFileNameLen s =
    (case checkFileName of None \<Rightarrow> Some (NULL, 0, s)
     | Some name \<Rightarrow>
         if checkFileNameLen \<noteq> 41 then Some (NULL, 0, s)
         else do {
           (f, s1) \<leftarrow> open_check name checkFileNameLen s;
           case f of None \<Rightarrow> Some (NULL, 0, s1)
           | Some fd \<Rightarrow> (case read_head 46 0xca fd s1 of (len, fd, s2) \<Rightarrow>
               (case len of None \<Rightarrow> Some (NULL, 0, s2)
                | Some n \<Rightarrow>
                    if n = 0 \<or> n > 1024 then Some (NULL, 0, s2)
                    else (case os_malloc (ucast n) s2 of
                        (None, s3) \<Rightarrow> Some (NULL, 0, s3)
                      | (Some p, s3) \<Rightarrow> do {
                          sigBuf \<leftarrow> wr 0 (replicate (unat n + 1) 0) (replicate (unat n) 0);
                          case read_into fd sigBuf s3 of (ret, d, fd, s4) \<Rightarrow>
                            if ret \<noteq> int (unat n) then Some (NULL, 0, s4) else Some (Ptr p d, n, s4)
                        })))
         })"

definition checkSig :: "shell \<Rightarrow> buf \<Rightarrow> u32 \<Rightarrow> buf \<Rightarrow> u32 \<Rightarrow> os \<Rightarrow> (int \<times> os) option" where
  "checkSig sh sig sigLen md5 md5Len s =
    (if sig = None \<or> sigLen = 0 \<or> md5 = None \<or> md5Len = 0 then Some (-1, s)
     else spc_verify_sig_with_md5 sh sig sigLen md5 md5Len s)"

definition rmCheckFile :: "shell \<Rightarrow> os \<Rightarrow> os"
  where "rmCheckFile sh s = sh_system sh RMCHECKFILECMD s"

definition mvDataFileToTempDir :: "buf \<Rightarrow> u32 \<Rightarrow> os \<Rightarrow> (int \<times> os) option" where
  "mvDataFileToTempDir fileName fileNameLen s =
    (case fileName of None \<Rightarrow> Some (-1, s)
     | Some name \<Rightarrow>
         if fileNameLen = 0 then Some (-1, s)
         else (case os_malloc (ucast (word_of_nat (length UPLOADDIR) + fileNameLen)) s of
             (None, s1) \<Rightarrow> Some (-1, s1)
           | (Some p, s1) \<Rightarrow> do {
               b \<leftarrow> wr 0 UPLOADDIR (replicate (unat (word_of_nat (length UPLOADDIR) + fileNameLen)) 0);
               b \<leftarrow> strncat b name (unat fileNameLen);
               case os_malloc (word_of_nat (length TEMPDATAFILEPATH + 1)) s1 of
                 (None, s2) \<Rightarrow> do { s3 \<leftarrow> os_free p s2; Some (-1, s3) }
               | (Some q, s2) \<Rightarrow> (case rename_file (c_str b) TEMPDATAFILEPATH s2 of (ret, s3) \<Rightarrow>
                   do { s4 \<leftarrow> os_free p s3; s5 \<leftarrow> os_free q s4; Some (ret, s5) })
             }))"

definition checkTempDataInTempDir :: "os \<Rightarrow> int"
  where "checkTempDataInTempDir s = access TEMPDATAFILEPATH s"

section \<open>Copying a part of a file\<close>

text \<open>The loop of \<^verbatim>\<open>_readDataToFile\<close>: pieces of 512 bytes; what was read beyond the part is given back by moving the
  position.  A call that was interrupted starts the next round; the number of bytes written is not looked at.\<close>

partial_function (option) copy_loop :: "(nat \<Rightarrow> bool) \<Rightarrow> file_desc \<Rightarrow> file_desc \<Rightarrow> u32 \<Rightarrow> os \<Rightarrow> (int \<times> file_desc \<times> os) option" where
  "copy_loop eintr fd newFd n s = (case read_fd fd 512 s of
     (None, fd1, s1) \<Rightarrow> if eintr (io_calls s) then copy_loop eintr fd1 newFd n s1 else Some (-1, fd1, s1)
   | (Some d, fd1, s1) \<Rightarrow>
       if d = [] then Some (0, fd1, s1)
       else let k = min (length d) (unat n); n1 = n - word_of_nat k; fd2 = lseek fd1 (fd_off fd1 - (length d - k)) in
         (case write_fd newFd (take k d) s1 of
            (None, newFd1, s2) \<Rightarrow> if eintr (io_calls s1) then copy_loop eintr fd2 newFd1 n1 s2 else Some (-1, fd2, s2)
          | (Some w, newFd1, s2) \<Rightarrow> if n1 = 0 then Some (0, fd2, s2) else copy_loop eintr fd2 newFd1 n1 s2))"

definition readDataToFile :: "(nat \<Rightarrow> bool) \<Rightarrow> file_desc \<Rightarrow> u32 \<Rightarrow> u32 \<Rightarrow> byte list \<Rightarrow> os \<Rightarrow> (int \<times> file_desc \<times> os) option" where
  "readDataToFile eintr fd start len filePath s =
    (if start > MAXSIZE \<or> len > MAXSIZE then Some (-1, fd, s)
     else case open_trunc filePath s of
         (None, s1) \<Rightarrow> Some (-1, lseek fd (unat start), s1)
       | (Some newFd, s1) \<Rightarrow> (case os_malloc 512 s1 of
             (None, s2) \<Rightarrow> Some (-1, lseek fd (unat start), snd (remove_file filePath s2))
           | (Some p, s2) \<Rightarrow> do {
               (ret, fd1, s3) \<leftarrow> copy_loop eintr (lseek fd (unat start)) newFd len s2;
               s4 \<leftarrow> os_free p s3;
               if ret = -1 then Some (-1, fd1, snd (remove_file filePath s4)) else Some (0, fd1, s4)
             }))"

section \<open>The data file\<close>

definition getFileNo :: "file_desc \<Rightarrow> os \<Rightarrow> int \<times> u32 \<times> file_desc \<times> os" where
  "getFileNo fd s = (case read_into (lseek fd 1) (u32_le 0) s of (ret, b, fd, s1) \<Rightarrow>
     if ret \<noteq> 4 \<or> le_u32 b = 0 then (-1, 0, fd, s1) else (0, le_u32 b, fd, s1))"

definition checkHeadAndTail :: "file_desc \<Rightarrow> os \<Rightarrow> int \<times> file_desc \<times> os" where
  "checkHeadAndTail fd s = (case read_into (lseek fd 0) [0] s of (ret, h, fd, s1) \<Rightarrow>
     if ret \<noteq> 1 \<or> h \<noteq> [0xa1] then (-1, fd, s1)
     else (case read_into (lseek fd 5) (u32_le 0) s1 of (ret, l, fd, s2) \<Rightarrow>
       if ret \<noteq> 4 \<or> le_u32 l = 0 \<or> le_u32 l > 10485760 then (-1, fd, s2)
       else (case read_into (lseek fd (9 + unat (le_u32 l) - 1)) [0] s2 of (ret, t, fd, s3) \<Rightarrow>
         (if ret \<noteq> 1 \<or> t \<noteq> [0x1a] then -1 else 0, fd, s3))))"

definition genKeepList :: "(nat \<Rightarrow> bool) \<Rightarrow> file_desc \<Rightarrow> os \<Rightarrow> (int \<times> file_desc \<times> os) option" where
  "genKeepList eintr fd s = (case read_into (lseek fd 9) [0] s of (ret, h, fd, s1) \<Rightarrow>
     if ret \<noteq> 1 \<or> h \<noteq> [0xba] then Some (-1, fd, s1)
     else (case read_into fd (u32_le 0) s1 of (ret, n, fd, s2) \<Rightarrow>
       if ret \<noteq> 4 \<or> le_u32 n > 1416994 then Some (-1, fd, s2)
       else if le_u32 n = 0 then Some (0, fd, s2)
       else (case read_into fd (u32_le 0) s2 of (ret, l, fd, s3) \<Rightarrow>
         if ret \<noteq> 4 \<or> le_u32 l > MAXSIZE \<or> le_u32 l = 0 then Some (-1, fd, s3)
         else readDataToFile eintr fd 18 (le_u32 l) KEEPLISTFILEPATH s3)))"

record data_file_st =
  df_head :: byte
  df_num :: u32
  df_length :: u32

definition data_file_of :: "byte list \<Rightarrow> data_file_st"
  where "data_file_of b = \<lparr>df_head = hd b, df_num = le_u32 (take 4 (drop 1 b)), df_length = le_u32 (drop 5 b)\<rparr>"

definition read_data_st :: "file_desc \<Rightarrow> os \<Rightarrow> data_file_st option \<times> file_desc \<times> os" where
  "read_data_st fd s = (case read_into fd (replicate 9 0) s of (ret, b, fd, s1) \<Rightarrow>
     (if ret \<noteq> 9 then None else Some (data_file_of b), fd, s1))"

text \<open>The two ways to look at a structure: with the head and a bound on the length only, and with a number that is 0
  exactly when the length is.\<close>

definition weak_st :: "byte \<Rightarrow> data_file_st option \<Rightarrow> bool"
  where "weak_st h st = (case st of None \<Rightarrow> False | Some d \<Rightarrow> df_head d = h \<and> df_length d \<le> MAXSIZE)"

definition full_st :: "byte \<Rightarrow> data_file_st option \<Rightarrow> bool"
  where "full_st h st = (weak_st h st \<and> (df_num (the st) = 0) = (df_length (the st) = 0))"

text \<open>The loop over the files in a section: the name, \<^verbatim>\<open>nameLen\<close> bytes, the length and the data of each.\<close>

fun gen_files_loop :: "(nat \<Rightarrow> bool) \<Rightarrow> byte list \<Rightarrow> nat \<Rightarrow> nat \<Rightarrow> u32 \<Rightarrow> u32 \<Rightarrow> file_desc \<Rightarrow> os \<Rightarrow> (int \<times> file_desc \<times> os) option" where
  "gen_files_loop eintr dir nameLen 0 start readSum fd s = Some (0, fd, s)"
| "gen_files_loop eintr dir nameLen (Suc numSum) start readSum fd s =
    (if readSum = 0 then Some (0, fd, s)
     else case read_into fd (replicate (nameLen + 4) 0) s of (ret, b, fd, s1) \<Rightarrow>
       if ret \<noteq> int (nameLen + 4) then Some (-1, fd, s1)
       else let name = take nameLen b; len = le_u32 (drop nameLen b); start1 = start + word_of_nat (nameLen + 4) in
         if len > MAXSIZE then Some (-1, fd, s1)
         else do {
           (ret, fd, s2) \<leftarrow> readDataToFile eintr fd start1 len (c_str (dir @ name @ [0])) s1;
           if ret = -1 then Some (-1, fd, s2)
           else gen_files_loop eintr dir nameLen numSum (start1 + len) (readSum - word_of_nat (nameLen + 4) - len) fd s2
         })"

text \<open>The block for the path is freed for transaction files and never for command files.\<close>

definition genTxFiles :: "(nat \<Rightarrow> bool) \<Rightarrow> file_desc \<Rightarrow> os \<Rightarrow> (int \<times> file_desc \<times> os) option" where
  "genTxFiles eintr fd s = (case read_data_st (lseek fd 0) s of (d1, fd, s1) \<Rightarrow>
     if \<not> weak_st 0xa1 d1 \<or> df_num (the d1) = 0 then Some (-1, fd, s1)
     else (case read_data_st fd s1 of (d2, fd, s2) \<Rightarrow>
       if \<not> weak_st 0xba d2 then Some (-1, fd, s2)
       else (let fd = lseek fd (fd_off fd + unat (df_length (the d2))); start = 18 + df_length (the d2) in
         if fd_off fd \<noteq> unat start then Some (-1, fd, s2)
         else case read_data_st fd s2 of (d3, fd, s3) \<Rightarrow>
           if \<not> full_st 0xca d3 then Some (-1, fd, s3)
           else if df_num (the d3) = 0 then Some (0, fd, s3)
           else (case os_malloc (word_of_nat (length TXDIR + 30)) s3 of
               (None, s4) \<Rightarrow> Some (-1, fd, s4)
             | (Some p, s4) \<Rightarrow> do {
                 (ret, fd, s5) \<leftarrow> gen_files_loop eintr TXDIR 29 (unat (df_num (the d3))) (start + 9) (df_length (the d3)) fd s4;
                 s6 \<leftarrow> os_free p s5;
                 Some (ret, fd, s6)
               }))))"

definition genCmdFiles :: "(nat \<Rightarrow> bool) \<Rightarrow> file_desc \<Rightarrow> os \<Rightarrow> (int \<times> file_desc \<times> os) option" where
  "genCmdFiles eintr fd s = (case read_data_st (lseek fd 0) s of (d1, fd, s1) \<Rightarrow>
     if \<not> weak_st 0xa1 d1 \<or> df_num (the d1) = 0 then Some (-1, fd, s1)
     else (case read_data_st fd s1 of (d2, fd, s2) \<Rightarrow>
       if \<not> full_st 0xba d2 then Some (-1, fd, s2)
       else (let fd = lseek fd (fd_off fd + unat (df_length (the d2))); start = 18 + df_length (the d2) in
         if fd_off fd \<noteq> unat start then Some (-1, fd, s2)
         else case read_data_st fd s2 of (d3, fd, s3) \<Rightarrow>
           if \<not> full_st 0xca d3 then Some (-1, fd, s3)
           else (let fd = lseek fd (fd_off fd + unat (df_length (the d3))); start = start + 9 + df_length (the d3) in
             if fd_off fd \<noteq> unat start then Some (-1, fd, s3)
             else case read_data_st fd s3 of (d4, fd, s4) \<Rightarrow>
               if \<not> full_st 0xda d4 then Some (-1, fd, s4)
               else if df_num (the d4) = 0 then Some (0, fd, s4)
               else (case os_malloc (word_of_nat (length SERVEREPUBDIR + 42)) s4 of
                   (None, s5) \<Rightarrow> Some (-1, fd, s5)
                 | (Some p, s5) \<Rightarrow>
                     gen_files_loop eintr SERVEREPUBDIR 41 (unat (df_num (the d4))) (start + 9) (df_length (the d4)) fd s5)))))"

section \<open>The whole\<close>

text \<open>The second half of \<^verbatim>\<open>prepare_processDataFile\<close>, from the opening of \<^verbatim>\<open>temp.data\<close> on.\<close>

definition unpack :: "(nat \<Rightarrow> bool) \<Rightarrow> os \<Rightarrow> (int \<times> os) option" where
  "unpack eintr s = (case open_existing TEMPDATAFILEPATH s of
     (None, s1) \<Rightarrow> Some (-1, s1)
   | (Some fd, s1) \<Rightarrow> (case getFileNo fd s1 of (ret, file_no, fd, s2) \<Rightarrow>
       if ret = -1 then Some (-1, s2)
       else (case checkHeadAndTail fd s2 of (ret, fd, s3) \<Rightarrow>
         if ret = -1 then Some (-1, s3)
         else do {
           (ret, fd, s4) \<leftarrow> genKeepList eintr fd s3;
           if ret = -1 then Some (-1, s4)
           else do {
             (ret, fd, s5) \<leftarrow> genTxFiles eintr fd s4;
             if ret = -1 then Some (-1, s5)
             else do {
               (ret, fd, s6) \<leftarrow> genCmdFiles eintr fd s5;
               Some (if ret = -1 then -1 else 0, s6)
             }
           }
         })))"

text \<open>From the signature on.\<close>

definition check_and_unpack :: "shell \<Rightarrow> (nat \<Rightarrow> bool) \<Rightarrow> nat \<Rightarrow> byte list \<Rightarrow> u32 \<Rightarrow> byte list \<Rightarrow> byte list \<Rightarrow> os
    \<Rightarrow> (int \<times> os) option" where
  "check_and_unpack sh eintr p name nameLen checkFileName md5 s = do {
     l \<leftarrow> strlen checkFileName;
     (sig, sigLen, s1) \<leftarrow> getSig (Some checkFileName) (word_of_nat l) s;
     case sig of
       NULL \<Rightarrow> do { s2 \<leftarrow> os_free p s1; Some (-1, s2) }
     | Ptr q sg \<Rightarrow>
         if sigLen = 0 then do { s2 \<leftarrow> os_free p s1; Some (-1, s2) }
         else do {
           (ret, s2) \<leftarrow> checkSig sh (Some sg) sigLen (Some md5) 32 s1;
           if ret = -1 then do { s3 \<leftarrow> os_free p s2; s4 \<leftarrow> os_free q s3; Some (-1, s4) }
           else do {
             s3 \<leftarrow> os_free q s2;
             (ret, s4) \<leftarrow> mvDataFileToTempDir (Some name) nameLen s3;
             s5 \<leftarrow> os_free p s4;
             if ret = -1 \<or> checkTempDataInTempDir s5 = -1 then Some (-1, s5)
             else unpack eintr s5
           }
         }
   }"

definition prepare_processDataFile :: "dir_ops \<Rightarrow> shell \<Rightarrow> (nat \<Rightarrow> bool) \<Rightarrow> os \<Rightarrow> (int \<times> os) option" where
  "prepare_processDataFile ds sh eintr s = do {
     (f, nameLen, s1) \<leftarrow> findDataFile ds UPLOADDIR s;
     case f of
       NULL \<Rightarrow> Some (-1, s1)
     | Ptr p name \<Rightarrow>
         if nameLen = 0 then do { s2 \<leftarrow> os_free p s1; Some (-1, s2) }
         else do {
           l \<leftarrow> strlen name;
           (ret, c, s2) \<leftarrow> getCheckFileName (Some name) (word_of_nat l) (Some (replicate 42 0)) 41 s1;
           if ret = -1 then do { s3 \<leftarrow> os_free p s2; Some (-1, s3) }
           else do {
             checkFileName \<leftarrow> c;
             k \<leftarrow> strlen checkFileName;
             (ret, m, s3) \<leftarrow> getMd5 (Some checkFileName) (word_of_nat k) (Some (replicate 33 0)) 32 s2;
             if ret = -1 then do { s4 \<leftarrow> os_free p s3; Some (-1, s4) }
             else do {
               md5 \<leftarrow> m;
               (ret, m, s4) \<leftarrow> genMd5 sh (Some name) (word_of_nat l) (Some (replicate 33 0)) 32 s3;
               if ret = -1 then do { s5 \<leftarrow> os_free p s4; Some (-1, s5) }
               else do {
                 md5Gen \<leftarrow> m;
                 if take 32 (c_str md5) \<noteq> take 32 (c_str md5Gen) then do { s5 \<leftarrow> os_free p s4; Some (-1, s5) }
                 else check_and_unpack sh eintr p name nameLen checkFileName md5 s4
               }
             }
           }
         }
   }"

end
