(* ===== verification/Upload_Correct.thy ===== *)
theory Upload_Correct
  imports Upload Envelope_Correct File_Ops_Correct
begin

text \<open>Unpacking the data file on a disk that works, and what happens to an upload before.\<close>

section \<open>States after calls\<close>

text \<open>The state after calls that only changed files: other contents, more calls and blocks.\<close>

definition after :: "os \<Rightarrow> (byte list \<rightharpoonup> byte list) \<Rightarrow> os \<Rightarrow> bool" where
  "after s fs s' \<longleftrightarrow> files s' = fs \<and> dirs s' = dirs s \<and> io_max s' = io_max s \<and> no_oom (hp s') \<and> heap_ok (hp s') \<and>
     live (hp s) \<subseteq> live (hp s')"

lemma afterD:
  assumes "after s fs s'"
  shows "files s' = fs" "dirs s' = dirs s" "disk_ok s' = disk_ok s" "no_oom (hp s')" "heap_ok (hp s')" "b \<in> live (hp s) \<Longrightarrow> b \<in> live (hp s')"
  using assms by (auto simp: after_def disk_ok_def)

lemma after_refl: "no_oom (hp s) \<Longrightarrow> heap_ok (hp s) \<Longrightarrow> after s (files s) s"
  by (simp add: after_def)

lemma after_trans: "after s fs s1 \<Longrightarrow> after s1 gs s2 \<Longrightarrow> after s gs s2"
  by (auto simp: after_def)

lemma after_simps [simp]:
  "after s fs (s'\<lparr>io_calls := k\<rparr>) = after s fs s'" "after s fs (s'\<lparr>files := gs\<rparr>) = (after s (files s') s' \<and> fs = gs)"
  "after (s\<lparr>io_calls := k\<rparr>) fs s' = after s fs s'" "after (s\<lparr>files := gs\<rparr>) fs s' = after s fs s'"
  by (auto simp: after_def)

text \<open>A block that is allocated and freed again.\<close>

lemma os_malloc_ok: "no_oom (hp s) \<Longrightarrow> os_malloc n s = (Some (calls (hp s)), s\<lparr>hp := alloc 1 (hp s)\<rparr>)"
  by (simp add: os_malloc_def malloc_alloc)

lemma alloc_ok: "no_oom h \<Longrightarrow> no_oom (alloc k h)" "heap_ok h \<Longrightarrow> heap_ok (alloc k h)"
  by (auto simp: no_oom_def heap_ok_def alloc_def)

lemma os_free_ok:
  assumes "b \<in> live (hp s)"
  shows "os_free b s = Some (s\<lparr>hp := (hp s)\<lparr>live := live (hp s) - {b}\<rparr>\<rparr>)"
  using assms by (simp add: os_free_def free_blk_def)

lemma after_alloc:
  assumes "after (s\<lparr>hp := alloc 1 (hp s)\<rparr>) fs s'" "heap_ok (hp s)"
  shows "after s fs s'" "os_free (calls (hp s)) s' = Some (s'\<lparr>hp := (hp s')\<lparr>live := live (hp s') - {calls (hp s)}\<rparr>\<rparr>)"
    "after s fs (s'\<lparr>hp := (hp s')\<lparr>live := live (hp s') - {calls (hp s)}\<rparr>\<rparr>)"
proof -
  have b: "calls (hp s) \<in> live (hp s')" using assms(1) by (auto simp: after_def alloc_def)
  then show "os_free (calls (hp s)) s' = Some (s'\<lparr>hp := (hp s')\<lparr>live := live (hp s') - {calls (hp s)}\<rparr>\<rparr>)" by (rule os_free_ok)
  have c: "calls (hp s) \<notin> live (hp s)" using assms(2) by (auto simp: heap_ok_def)
  show "after s fs s'" using assms(1) by (auto simp: after_def alloc_def)
  show "after s fs (s'\<lparr>hp := (hp s')\<lparr>live := live (hp s') - {calls (hp s)}\<rparr>\<rparr>)"
    using assms(1) c by (auto simp: after_def alloc_def no_oom_def heap_ok_def)
qed

lemma freed_ok: "no_oom h \<Longrightarrow> no_oom (h\<lparr>live := live h - A\<rparr>)" "heap_ok h \<Longrightarrow> heap_ok (h\<lparr>live := live h - A\<rparr>)"
  by (auto simp: no_oom_def heap_ok_def)

section \<open>Copying\<close>

lemma disk_at: "disk_ok s \<Longrightarrow> io_step s = (Some k, s1) \<Longrightarrow> 2 ^ 32 \<le> k"
  by (auto simp: disk_ok_def io_step_def dest!: spec [of _ "io_calls s"])

lemma read_fd_upto:
  assumes s: "disk_ok s" "files s p = Some f" "n < 2 ^ 32"
  shows "read_fd \<lparr>fd_path = p, fd_off = m\<rparr> n s = (Some (take n (drop m f)),
    \<lparr>fd_path = p, fd_off = m + length (take n (drop m f))\<rparr>, steps s (Suc (io_calls s)))"
proof -
  obtain k where k: "2 ^ 32 \<le> k" "io_step s = (Some k, steps s (Suc (io_calls s)))" using s(1) by (rule io_step_disk)
  then have m: "min k n = n" using s(3) by simp
  show ?thesis using k(2) s(2) by (simp only: read_fd_def m prod.case option.case) (simp add: Let_def)
qed

lemma write_fd_end:
  assumes "disk_ok s" "files s q = Some g" "length d < 2 ^ 32"
  shows "write_fd \<lparr>fd_path = q, fd_off = length g\<rparr> d s = (Some (length d), \<lparr>fd_path = q, fd_off = length (g @ d)\<rparr>,
    disk s (Suc (io_calls s)) ((files s)(q \<mapsto> g @ d)))"
proof -
  obtain k where k: "2 ^ 32 \<le> k" "io_step s = (Some k, steps s (Suc (io_calls s)))" using assms(1) by (rule io_step_disk)
  then have m: "take k d = d" using assms(3) by simp
  show ?thesis using k(2) assms(2) by (simp only: write_fd_def m prod.case option.case) (simp add: Let_def m overlay_at_end)
qed

lemma copy_loop_ok:
  assumes "disk_ok s" "files s p = Some (pre @ d @ post)" "files s q = Some g" "p \<noteq> q" "length d < 2 ^ 32"
  shows "\<exists>k. copy_loop eintr \<lparr>fd_path = p, fd_off = length pre\<rparr> \<lparr>fd_path = q, fd_off = length g\<rparr> (word_of_nat (length d)) s =
    Some (0, \<lparr>fd_path = p, fd_off = length pre + length d\<rparr>, disk s k ((files s)(q \<mapsto> g @ d)))"
  using assms
proof (induction "length d" arbitrary: s pre d g rule: less_induct)
  case less
  let ?s1 = "steps s (Suc (io_calls s))" and ?e = "take 512 (d @ post)"
  note s = less.prems
  have u: "unat (word_of_nat (length d) :: u32) = length d" using s(5) by (simp add: unat_u32_len)
  have r: "read_fd \<lparr>fd_path = p, fd_off = length pre\<rparr> 512 s = (Some ?e, \<lparr>fd_path = p, fd_off = length pre + length ?e\<rparr>, ?s1)"
    using read_fd_upto [OF s(1,2), of 512 "length pre"] by simp
  have w: "write_fd \<lparr>fd_path = q, fd_off = length g\<rparr> (take n d) ?s1 = (Some (length (take n d)), \<lparr>fd_path = q, fd_off = length (g @ take n d)\<rparr>,
      disk s (Suc (Suc (io_calls s))) ((files s)(q \<mapsto> g @ take n d)))" for n
    using write_fd_end [of ?s1 q g "take n d"] s(1,3,5) by simp
  show ?case
  proof (cases "length d \<le> 512")
    case True
    show ?thesis
    proof (cases "?e = []")
      case True
      then have "d = []" by simp
      moreover have "(files s)(q \<mapsto> g) = files s" using s(3) by (simp add: fun_upd_idem)
      ultimately show ?thesis using r True by (subst copy_loop.simps) simp
    next
      case False
      obtain e where e: "e = ?e" by simp
      have k: "min (length e) (length d) = length d" "take (length d) e = d" "e \<noteq> []" using \<open>length d \<le> 512\<close> False e by auto
      have "length d \<le> length e" using \<open>length d \<le> 512\<close> e by simp
      then have o: "length pre + length e - (length e - length d) = length pre + length d" by simp
      have "copy_loop eintr \<lparr>fd_path = p, fd_off = length pre\<rparr> \<lparr>fd_path = q, fd_off = length g\<rparr> (word_of_nat (length d)) s =
          Some (0, \<lparr>fd_path = p, fd_off = length pre + length d\<rparr>, disk s (Suc (Suc (io_calls s))) ((files s)(q \<mapsto> g @ d)))"
        using r [folded e] w [of "length d"] by (subst copy_loop.simps) (simp add: u k Let_def lseek_def o)
      then show ?thesis by blast
    qed
  next
    case False
    obtain a c where ac: "d = a @ c" "length a = 512" "c \<noteq> []" "length c < length d"
      using False by (intro that [of "take 512 d" "drop 512 d"]) auto
    let ?g = "g @ a" and ?n = "word_of_nat (length c) :: u32"
    have e: "?e = a" "take 512 a = a" "a \<noteq> []" using ac(1,2) by auto
    have n1: "word_of_nat (length d) - 512 = ?n" unfolding ac(1) length_append ac(2) by simp
    have "unat ?n = length c" using s(5) ac(4) by (intro unat_u32_len) simp
    then have nz: "?n \<noteq> 0" using ac(3) by (metis length_0_conv unat_0)
    have mi: "min 512 (length d) = 512" using False by simp
    let ?s2 = "disk s (Suc (Suc (io_calls s))) ((files s)(q \<mapsto> ?g))"
    have s2: "disk_ok ?s2" "files ?s2 p = Some ((pre @ a) @ c @ post)" "files ?s2 q = Some ?g" "length c < 2 ^ 32"
      using s ac by simp_all
    obtain k where k: "copy_loop eintr \<lparr>fd_path = p, fd_off = length (pre @ a)\<rparr> \<lparr>fd_path = q, fd_off = length ?g\<rparr> ?n ?s2 =
        Some (0, \<lparr>fd_path = p, fd_off = length (pre @ a) + length c\<rparr>, disk ?s2 k ((files ?s2)(q \<mapsto> ?g @ c)))"
      using less.hyps [OF ac(4) s2(1-3) s(4) s2(4)] by blast
    have w': "write_fd \<lparr>fd_path = q, fd_off = length g\<rparr> a ?s1 = (Some 512, \<lparr>fd_path = q, fd_off = length ?g\<rparr>, ?s2)"
      using write_fd_end [of ?s1 q g a] s(1,3) ac(2) by simp
    have r': "read_fd \<lparr>fd_path = p, fd_off = length pre\<rparr> 512 s = (Some a, \<lparr>fd_path = p, fd_off = length (pre @ a)\<rparr>, ?s1)"
      using r unfolding e(1) by simp
    have "copy_loop eintr \<lparr>fd_path = p, fd_off = length pre\<rparr> \<lparr>fd_path = q, fd_off = length g\<rparr> (word_of_nat (length d)) s =
        copy_loop eintr \<lparr>fd_path = p, fd_off = length (pre @ a)\<rparr> \<lparr>fd_path = q, fd_off = length ?g\<rparr> ?n ?s2"
      unfolding copy_loop.simps [of _ _ _ _ s] r' prod.case option.case Let_def u ac(2) mi e(2)
      using w' nz n1 e(3) by (simp add: lseek_def)
    also have "\<dots> = Some (0, \<lparr>fd_path = p, fd_off = length pre + length d\<rparr>, disk s k ((files s)(q \<mapsto> g @ d)))"
      using k ac(1) by simp
    finally show ?thesis by blast
  qed
qed

lemma readDataToFile_ok:
  assumes s: "disk_ok s" "files s p = Some (pre @ d @ post)" "no_oom (hp s)" "heap_ok (hp s)"
    and q: "p \<noteq> q" "dirname q \<in> dirs s" and l: "length pre \<le> 52428800" "length d \<le> 52428800"
  shows "\<exists>s'. readDataToFile eintr \<lparr>fd_path = p, fd_off = off\<rparr> (word_of_nat (length pre)) (word_of_nat (length d)) q s =
    Some (0, \<lparr>fd_path = p, fd_off = length pre + length d\<rparr>, s') \<and> after s ((files s)(q \<mapsto> d)) s'"
proof -
  let ?s1 = "disk s (Suc (io_calls s)) ((files s)(q \<mapsto> []))"
  let ?s2 = "?s1\<lparr>hp := alloc 1 (hp s)\<rparr>"
  have u: "unat (word_of_nat (length pre) :: u32) = length pre" "unat (word_of_nat (length d) :: u32) = length d"
    using l by (intro unat_u32_len; simp)+
  have m: "\<not> (word_of_nat (length pre) :: u32) > MAXSIZE" "\<not> (word_of_nat (length d) :: u32) > MAXSIZE"
    using l unfolding word_less_nat_alt u MAXSIZE_def by simp_all
  have s2: "disk_ok ?s2" "files ?s2 p = Some (pre @ d @ post)" "files ?s2 q = Some []" "length d < 2 ^ 32" using s q(1) l by simp_all
  obtain k where k: "copy_loop eintr \<lparr>fd_path = p, fd_off = length pre\<rparr> \<lparr>fd_path = q, fd_off = 0\<rparr> (word_of_nat (length d)) ?s2 =
      Some (0, \<lparr>fd_path = p, fd_off = length pre + length d\<rparr>, disk ?s2 k ((files s)(q \<mapsto> d)))"
    using copy_loop_ok [OF s2(1-3) q(1) s2(4)] by auto
  let ?s3 = "disk ?s2 k ((files s)(q \<mapsto> d))"
  have "after (s\<lparr>hp := alloc 1 (hp s)\<rparr>) ((files s)(q \<mapsto> d)) ?s3" using s(3,4) alloc_ok [of "hp s" 1] by (simp add: after_def)
  note f = after_alloc [OF this s(4)]
  show ?thesis
    using m k open_trunc_disk [OF s(1) q(2)] os_malloc_ok [of ?s1 512] s(3) f(2,3)
    by (simp add: readDataToFile_def lseek_def u)
qed

section \<open>The format of the data file\<close>

type_synonym upload_item = "byte list \<times> byte list"

definition head_bytes :: "byte \<Rightarrow> u32 \<Rightarrow> byte list \<Rightarrow> byte list"
  where "head_bytes h n body = h # u32_le n @ u32_le (word_of_nat (length body))"

definition enc_up :: "upload_item list \<Rightarrow> byte list"
  where "enc_up es = concat (map (\<lambda>(n, d). n @ u32_le (word_of_nat (length d)) @ d) es)"

definition up_body :: "u32 \<Rightarrow> byte list \<Rightarrow> upload_item list \<Rightarrow> upload_item list \<Rightarrow> byte list" where
  "up_body kn keep txs cmds = head_bytes 0xba kn keep @ keep @ head_bytes 0xca (word_of_nat (length txs)) (enc_up txs) @ enc_up txs @
     head_bytes 0xda (word_of_nat (length cmds)) (enc_up cmds) @ enc_up cmds @ [0x1a]"

definition data_file :: "u32 \<Rightarrow> u32 \<Rightarrow> byte list \<Rightarrow> upload_item list \<Rightarrow> upload_item list \<Rightarrow> byte list"
  where "data_file no kn keep txs cmds = head_bytes 0xa1 no (up_body kn keep txs cmds) @ up_body kn keep txs cmds"

definition wf_names :: "nat \<Rightarrow> upload_item list \<Rightarrow> bool"
  where "wf_names k es \<longleftrightarrow> (\<forall>(n, d)\<in>set es. length n = k \<and> 0 \<notin> set n \<and> 0x2f \<notin> set n)"

definition wf_upload :: "u32 \<Rightarrow> u32 \<Rightarrow> byte list \<Rightarrow> upload_item list \<Rightarrow> upload_item list \<Rightarrow> bool" where
  "wf_upload no kn keep txs cmds \<longleftrightarrow> no \<noteq> 0 \<and> kn \<le> 1416994 \<and> (kn = 0) = (keep = []) \<and> wf_names 29 txs \<and> wf_names 41 cmds \<and>
     length (up_body kn keep txs cmds) \<le> 10485760"

text \<open>The files written, one after the other.\<close>

definition put_files :: "byte list \<Rightarrow> upload_item list \<Rightarrow> (byte list \<rightharpoonup> byte list) \<Rightarrow> byte list \<rightharpoonup> byte list"
  where "put_files dir es f = fold (\<lambda>(n, d) f. f(dir @ n \<mapsto> d)) es f"

lemma put_files_simps [simp]:
  "put_files dir [] f = f" "put_files dir ((n, d) # es) f = put_files dir es (f(dir @ n \<mapsto> d))"
  by (simp_all add: put_files_def)

lemma enc_up_simps [simp]:
  "enc_up [] = []" "enc_up ((n, d) # es) = n @ u32_le (word_of_nat (length d)) @ d @ enc_up es"
  by (simp_all add: enc_up_def)

lemma length_head [simp]: "length (head_bytes h n b) = 9"
  by (simp add: head_bytes_def)

lemma data_file_of_head: "data_file_of (head_bytes h n b) = \<lparr>df_head = h, df_num = n, df_length = word_of_nat (length b)\<rparr>"
  by (simp add: data_file_of_def head_bytes_def wire_simps)

lemma put_files_other: "\<forall>(n, d)\<in>set es. p \<noteq> dir @ n \<Longrightarrow> put_files dir es f p = f p"
  by (induction es arbitrary: f) auto

section \<open>The sections\<close>

lemma read_data_st_ok:
  assumes "disk_ok s" "files s p = Some (pre @ head_bytes h n b @ post)"
  shows "read_data_st \<lparr>fd_path = p, fd_off = length pre\<rparr> s =
    (Some \<lparr>df_head = h, df_num = n, df_length = word_of_nat (length b)\<rparr>, \<lparr>fd_path = p, fd_off = length pre + 9\<rparr>, steps s (Suc (io_calls s)))"
  using read_into_disk [OF assms(1,2) refl refl, of "replicate 9 0"] by (simp add: read_data_st_def data_file_of_head)

lemma dirname_app: "0x2f \<notin> set n \<Longrightarrow> dir \<noteq> [] \<Longrightarrow> last dir = 0x2f \<Longrightarrow> dirname (dir @ n) = dir"
proof -
  assume n: "0x2f \<notin> set n" "dir \<noteq> []" "last dir = 0x2f"
  then obtain d where "dir = d @ [0x2f]" by (metis append_butlast_last_id)
  then show ?thesis using n(1) by (auto simp: dirname_def dropWhile_append3)
qed

lemma gen_files_loop_ok:
  assumes "disk_ok s" "files s p = Some (pre @ enc_up es @ post)" "no_oom (hp s)" "heap_ok (hp s)"
    "dir \<in> dirs s" "dir \<noteq> []" "last dir = 0x2f" "0 \<notin> set dir" "wf_names k es" "\<forall>(n, d)\<in>set es. p \<noteq> dir @ n"
    "length pre + length (enc_up es) \<le> 52428800"
  shows "\<exists>s'. gen_files_loop eintr dir k (length es) (word_of_nat (length pre)) (word_of_nat (length (enc_up es)))
      \<lparr>fd_path = p, fd_off = length pre\<rparr> s = Some (0, \<lparr>fd_path = p, fd_off = length pre + length (enc_up es)\<rparr>, s') \<and>
    after s (put_files dir es (files s)) s'"
  using assms
proof (induction es arbitrary: s pre)
  case Nil
  then show ?case by (simp add: after_refl)
next
  case (Cons e es)
  obtain n d where e: "e = (n, d)" by (cases e)
  let ?h = "n @ u32_le (word_of_nat (length d))" and ?l = "word_of_nat (length d) :: u32"
  let ?pre = "pre @ ?h"
  note a = Cons.prems
  have n: "length n = k" "0 \<notin> set n" "0x2f \<notin> set n" "p \<noteq> dir @ n" and w: "wf_names k es" "\<forall>(n, d)\<in>set es. p \<noteq> dir @ n"
    using a(9,10) by (auto simp: e wf_names_def)
  have ld: "length d \<le> 52428800" "length ?pre \<le> 52428800" using a(11) by (simp_all add: e)
  have ul: "unat ?l = length d" using ld by (intro unat_u32_len) simp
  then have m: "\<not> ?l > MAXSIZE" using ld unfolding word_less_nat_alt MAXSIZE_def by simp
  have f: "files s p = Some (pre @ ?h @ d @ enc_up es @ post)" using a(2) by (simp add: e)
  have r: "read_into \<lparr>fd_path = p, fd_off = length pre\<rparr> (replicate (k + 4) 0) s =
      (int (k + 4), ?h, \<lparr>fd_path = p, fd_off = length ?pre\<rparr>, steps s (Suc (io_calls s)))"
    using read_into_disk [OF a(1) f refl refl, of "replicate (k + 4) 0"] n(1) ld(2) by simp
  let ?s1 = "steps s (Suc (io_calls s))"
  have c: "c_str (dir @ n @ [0]) = dir @ n" using c_str_app [of "dir @ n" "[]"] a(8) n(2) by simp
  have "disk_ok ?s1" "files ?s1 p = Some (?pre @ d @ (enc_up es @ post))" "no_oom (hp ?s1)" "heap_ok (hp ?s1)" "dirname (dir @ n) \<in> dirs ?s1"
    using a f n dirname_app [OF n(3) a(6,7)] by simp_all
  from readDataToFile_ok [OF this(1-4) n(4) this(5) ld(2,1)] obtain s2 where
    s2: "readDataToFile eintr \<lparr>fd_path = p, fd_off = length ?pre\<rparr> (word_of_nat (length ?pre)) ?l (dir @ n) ?s1 =
        Some (0, \<lparr>fd_path = p, fd_off = length ?pre + length d\<rparr>, s2)" "after s ((files s)(dir @ n \<mapsto> d)) s2" by auto
  note t = afterD [OF s2(2)]
  let ?pre2 = "?pre @ d"
  have "disk_ok s2" "files s2 p = Some (?pre2 @ enc_up es @ post)" "dir \<in> dirs s2" "length ?pre2 + length (enc_up es) \<le> 52428800"
    using t a f n by (simp_all add: e)
  from Cons.IH [OF this(1,2) t(4,5) this(3) a(6,7,8) w this(4)] obtain s' where
    s': "gen_files_loop eintr dir k (length es) (word_of_nat (length ?pre2)) (word_of_nat (length (enc_up es)))
      \<lparr>fd_path = p, fd_off = length ?pre2\<rparr> s2 = Some (0, \<lparr>fd_path = p, fd_off = length ?pre2 + length (enc_up es)\<rparr>, s')"
      "after s2 (put_files dir es (files s2)) s'" by blast
  have z: "(word_of_nat (length (enc_up (e # es))) :: u32) \<noteq> 0"
  proof -
    have "unat (word_of_nat (length (enc_up (e # es))) :: u32) = length (enc_up (e # es))" using a(11) by (intro unat_u32_len) simp
    then show ?thesis by (auto simp: e)
  qed
  have w1: "word_of_nat (length pre) + word_of_nat (k + 4) = (word_of_nat (length ?pre) :: u32)"
      "word_of_nat (length ?pre) + ?l = word_of_nat (length ?pre2)"
      "word_of_nat (length (enc_up (e # es))) - word_of_nat (k + 4) - ?l = (word_of_nat (length (enc_up es)) :: u32)"
    using n(1) by (simp_all add: e)
  have h: "take k ?h = n" "drop k ?h = u32_le ?l" using n(1) by simp_all
  show ?case
    unfolding list.size add_0_right add_Suc_right gen_files_loop.simps
    using z r m s2(1) s' t(1) after_trans [OF s2(2) s'(2)]
    by (simp only: if_False prod.case h c w1 Let_def le_u32_inv simp_thms) (simp add: e add.assoc)
qed

text \<open>Where the sections are.\<close>

definition sec1 :: "u32 \<Rightarrow> u32 \<Rightarrow> byte list \<Rightarrow> upload_item list \<Rightarrow> upload_item list \<Rightarrow> byte list"
  where "sec1 no kn keep txs cmds = head_bytes 0xa1 no (up_body kn keep txs cmds)"

definition sec2 :: "u32 \<Rightarrow> byte list \<Rightarrow> byte list" where "sec2 kn keep = head_bytes 0xba kn keep"
definition sec3 :: "upload_item list \<Rightarrow> byte list" where "sec3 txs = head_bytes 0xca (word_of_nat (length txs)) (enc_up txs)"
definition sec4 :: "upload_item list \<Rightarrow> byte list" where "sec4 cmds = head_bytes 0xda (word_of_nat (length cmds)) (enc_up cmds)"

lemma data_file_secs:
  "data_file no kn keep txs cmds = sec1 no kn keep txs cmds @ sec2 kn keep @ keep @ sec3 txs @ enc_up txs @ sec4 cmds @ enc_up cmds @ [0x1a]"
  by (simp add: data_file_def up_body_def sec1_def sec2_def sec3_def sec4_def)

lemma length_secs [simp]: "length (sec1 no kn keep txs cmds) = 9" "length (sec2 kn keep) = 9" "length (sec3 txs) = 9" "length (sec4 cmds) = 9"
  by (simp_all add: sec1_def sec2_def sec3_def sec4_def)

lemma length_enc_up: "wf_names k es \<Longrightarrow> (k + 4) * length es \<le> length (enc_up es)"
  by (induction es) (auto simp: wf_names_def)

lemma wf_sizes:
  assumes "wf_upload no kn keep txs cmds"
  shows "length keep + length (enc_up txs) + length (enc_up cmds) + 28 = length (up_body kn keep txs cmds)"
    "length (up_body kn keep txs cmds) \<le> 10485760" "length txs \<le> 10485760" "length cmds \<le> 10485760"
    "enc_up txs = [] \<longleftrightarrow> txs = []" "enc_up cmds = [] \<longleftrightarrow> cmds = []"
proof -
  note w = assms [unfolded wf_upload_def]
  show l: "length keep + length (enc_up txs) + length (enc_up cmds) + 28 = length (up_body kn keep txs cmds)" by (simp add: up_body_def)
  show m: "length (up_body kn keep txs cmds) \<le> 10485760" using w by blast
  have t: "33 * length txs \<le> length (enc_up txs)" "45 * length cmds \<le> length (enc_up cmds)"
    using w length_enc_up [of 29 txs] length_enc_up [of 41 cmds] by simp_all
  then show "length txs \<le> 10485760" "length cmds \<le> 10485760" using l m by linarith+
  show "enc_up txs = [] \<longleftrightarrow> txs = []" "enc_up cmds = [] \<longleftrightarrow> cmds = []" using t by auto
qed

lemma st_ok:
  assumes "length b \<le> 10485760"
  shows "weak_st h (Some \<lparr>df_head = h, df_num = n, df_length = word_of_nat (length b)\<rparr>)"
    "unat (word_of_nat (length b) :: u32) = length b" "(word_of_nat (length b) :: u32) = 0 \<longleftrightarrow> b = []"
proof -
  show u: "unat (word_of_nat (length b) :: u32) = length b" using assms by (intro unat_u32_len) simp
  then show "(word_of_nat (length b) :: u32) = 0 \<longleftrightarrow> b = []" by (metis length_0_conv unat_eq_0)
  show "weak_st h (Some \<lparr>df_head = h, df_num = n, df_length = word_of_nat (length b)\<rparr>)"
    using u assms by (simp add: weak_st_def MAXSIZE_def word_le_nat_alt)
qed

lemma num_ok:
  assumes "length es \<le> 10485760"
  shows "unat (word_of_nat (length es) :: u32) = length es" "(word_of_nat (length es) :: u32) = 0 \<longleftrightarrow> es = []"
proof -
  show u: "unat (word_of_nat (length es) :: u32) = length es" using assms by (intro unat_u32_len) simp
  then show "(word_of_nat (length es) :: u32) = 0 \<longleftrightarrow> es = []" by (metis length_0_conv unat_eq_0)
qed

lemma getFileNo_ok:
  assumes "disk_ok s" "files s p = Some (data_file no kn keep txs cmds)" "no \<noteq> 0"
  shows "\<exists>k m. getFileNo \<lparr>fd_path = p, fd_off = off\<rparr> s = (0, no, \<lparr>fd_path = p, fd_off = m\<rparr>, steps s k)"
proof -
  obtain r where r: "data_file no kn keep txs cmds = [0xa1] @ u32_le no @ r" by (simp add: data_file_def head_bytes_def)
  show ?thesis using read_into_disk [OF assms(1,2) r, of 1 "u32_le 0"] assms(3) by (simp add: getFileNo_def lseek_def wire_simps)
qed

lemma checkHeadAndTail_ok:
  assumes s: "disk_ok s" "files s p = Some (data_file no kn keep txs cmds)" and w: "wf_upload no kn keep txs cmds"
  shows "\<exists>k m. checkHeadAndTail \<lparr>fd_path = p, fd_off = off\<rparr> s = (0, \<lparr>fd_path = p, fd_off = m\<rparr>, steps s k)"
proof -
  let ?b = "up_body kn keep txs cmds" and ?f = "data_file no kn keep txs cmds"
  note z = wf_sizes [OF w]
  have f: "?f = [] @ [0xa1] @ (u32_le no @ u32_le (word_of_nat (length ?b)) @ ?b)" "?f = (0xa1 # u32_le no) @ u32_le (word_of_nat (length ?b)) @ ?b"
    "?f = (sec1 no kn keep txs cmds @ sec2 kn keep @ keep @ sec3 txs @ enc_up txs @ sec4 cmds @ enc_up cmds) @ [0x1a] @ []"
    by (simp_all add: data_file_secs) (simp_all add: data_file_def head_bytes_def up_body_def sec1_def sec2_def sec3_def sec4_def)
  have r1: "read_into \<lparr>fd_path = p, fd_off = 0\<rparr> [0] s = (1, [0xa1], \<lparr>fd_path = p, fd_off = 1\<rparr>, steps s (Suc (io_calls s)))"
    using read_into_disk [OF s f(1), of 0 "[0]"] by simp
  have r2: "read_into \<lparr>fd_path = p, fd_off = 5\<rparr> (u32_le 0) (steps s i) = (4, u32_le (word_of_nat (length ?b)), \<lparr>fd_path = p, fd_off = 9\<rparr>, steps s (Suc i))" for i
    using read_into_disk [of "steps s i" p ?f, OF _ _ f(2), of 5 "u32_le 0"] s by simp
  have r3: "read_into \<lparr>fd_path = p, fd_off = 8 + length ?b\<rparr> [0] (steps s i) = (1, [0x1a], \<lparr>fd_path = p, fd_off = 9 + length ?b\<rparr>, steps s (Suc i))" for i
    using read_into_disk [of "steps s i" p ?f, OF _ _ f(3), of "8 + length ?b" "[0]"] s z(1) by simp
  note u = st_ok(2,3) [OF z(2)]
  have "?b \<noteq> []" using z(1) by auto
  then have "\<not> (word_of_nat (length ?b) :: u32) = 0" "\<not> (word_of_nat (length ?b) :: u32) > 10485760" using u z(2) by (simp_all add: word_less_nat_alt)
  then show ?thesis using r1 r2 r3 u(1) by (simp add: checkHeadAndTail_def lseek_def wire_simps)
qed

lemma genKeepList_ok:
  assumes s: "disk_ok s" "files s p = Some (data_file no kn keep txs cmds)" "no_oom (hp s)" "heap_ok (hp s)" and w: "wf_upload no kn keep txs cmds"
    and q: "p \<noteq> KEEPLISTFILEPATH" "dirname KEEPLISTFILEPATH \<in> dirs s"
  shows "\<exists>m s'. genKeepList eintr \<lparr>fd_path = p, fd_off = off\<rparr> s = Some (0, \<lparr>fd_path = p, fd_off = m\<rparr>, s') \<and>
    after s (if keep = [] then files s else (files s)(KEEPLISTFILEPATH \<mapsto> keep)) s'"
proof -
  let ?f = "data_file no kn keep txs cmds" and ?s1 = "sec1 no kn keep txs cmds" and ?l = "word_of_nat (length keep) :: u32"
  let ?r = "keep @ sec3 txs @ enc_up txs @ sec4 cmds @ enc_up cmds @ [0x1a]"
  note z = wf_sizes [OF w]
  have f: "?f = ?s1 @ [0xba] @ (u32_le kn @ u32_le ?l @ ?r)" "?f = (?s1 @ [0xba]) @ u32_le kn @ (u32_le ?l @ ?r)"
    "?f = (?s1 @ [0xba] @ u32_le kn) @ u32_le ?l @ ?r" "?f = (?s1 @ sec2 kn keep) @ keep @ (sec3 txs @ enc_up txs @ sec4 cmds @ enc_up cmds @ [0x1a])"
    by (simp_all add: data_file_secs sec2_def head_bytes_def)
  have r1: "read_into \<lparr>fd_path = p, fd_off = 9\<rparr> [0] s = (1, [0xba], \<lparr>fd_path = p, fd_off = 10\<rparr>, steps s (Suc (io_calls s)))"
    using read_into_disk [OF s(1,2) f(1), of 9 "[0]"] by simp
  have r2: "read_into \<lparr>fd_path = p, fd_off = 10\<rparr> (u32_le 0) (steps s i) = (4, u32_le kn, \<lparr>fd_path = p, fd_off = 14\<rparr>, steps s (Suc i))" for i
    using read_into_disk [of "steps s i" p ?f, OF _ _ f(2), of 10 "u32_le 0"] s by simp
  have r3: "read_into \<lparr>fd_path = p, fd_off = 14\<rparr> (u32_le 0) (steps s i) = (4, u32_le ?l, \<lparr>fd_path = p, fd_off = 18\<rparr>, steps s (Suc i))" for i
    using read_into_disk [of "steps s i" p ?f, OF _ _ f(3), of 14 "u32_le 0"] s by simp
  have kn: "\<not> kn > 1416994" "kn = 0 \<longleftrightarrow> keep = []" using w by (auto simp: wf_upload_def)
  show ?thesis
  proof (cases "keep = []")
    case True
    then show ?thesis using r1 r2 kn s(3,4) by (simp add: genKeepList_def lseek_def wire_simps after_refl)
  next
    case False
    have lk: "length keep \<le> 10485760" using z by linarith
    note u = st_ok(2,3) [OF lk]
    have m: "\<not> ?l > MAXSIZE" "?l \<noteq> 0" using u lk False by (simp_all add: word_less_nat_alt MAXSIZE_def)
    let ?s = "steps s (Suc (Suc (Suc (io_calls s))))" and ?pre = "?s1 @ sec2 kn keep"
    have "disk_ok ?s" "files ?s p = Some (?pre @ keep @ (sec3 txs @ enc_up txs @ sec4 cmds @ enc_up cmds @ [0x1a]))" "no_oom (hp ?s)" "heap_ok (hp ?s)"
        "dirname KEEPLISTFILEPATH \<in> dirs ?s" "length ?pre \<le> 52428800" "length keep \<le> 52428800"
      using s f(4) q(2) lk by simp_all
    from readDataToFile_ok [OF this(1-4) q(1) this(5-7)] obtain s' where
      s': "readDataToFile eintr \<lparr>fd_path = p, fd_off = 18\<rparr> 18 ?l KEEPLISTFILEPATH ?s =
          Some (0, \<lparr>fd_path = p, fd_off = 18 + length keep\<rparr>, s')" "after s ((files s)(KEEPLISTFILEPATH \<mapsto> keep)) s'" by auto
    then show ?thesis using r1 r2 r3 kn m False by (simp add: genKeepList_def lseek_def wire_simps)
  qed
qed

text \<open>The two structures at the start, and the position behind the list of files to keep.\<close>

lemma read_secs:
  assumes s: "disk_ok s" "files s p = Some (data_file no kn keep txs cmds)"
  shows "read_data_st \<lparr>fd_path = p, fd_off = 0\<rparr> (steps s i) =
      (Some \<lparr>df_head = 0xa1, df_num = no, df_length = word_of_nat (length (up_body kn keep txs cmds))\<rparr>, \<lparr>fd_path = p, fd_off = 9\<rparr>, steps s (Suc i))"
    "read_data_st \<lparr>fd_path = p, fd_off = 9\<rparr> (steps s i) =
      (Some \<lparr>df_head = 0xba, df_num = kn, df_length = word_of_nat (length keep)\<rparr>, \<lparr>fd_path = p, fd_off = 18\<rparr>, steps s (Suc i))"
    "read_data_st \<lparr>fd_path = p, fd_off = 18 + length keep\<rparr> (steps s i) =
      (Some \<lparr>df_head = 0xca, df_num = word_of_nat (length txs), df_length = word_of_nat (length (enc_up txs))\<rparr>,
       \<lparr>fd_path = p, fd_off = 27 + length keep\<rparr>, steps s (Suc i))"
    "read_data_st \<lparr>fd_path = p, fd_off = 27 + length keep + length (enc_up txs)\<rparr> (steps s i) =
      (Some \<lparr>df_head = 0xda, df_num = word_of_nat (length cmds), df_length = word_of_nat (length (enc_up cmds))\<rparr>,
       \<lparr>fd_path = p, fd_off = 36 + length keep + length (enc_up txs)\<rparr>, steps s (Suc i))"
proof -
  let ?f = "data_file no kn keep txs cmds" and ?a = "sec1 no kn keep txs cmds" and ?b = "sec2 kn keep" and ?c = "sec3 txs"
  have f: "?f = [] @ ?a @ (?b @ keep @ ?c @ enc_up txs @ sec4 cmds @ enc_up cmds @ [0x1a])"
    "?f = ?a @ ?b @ (keep @ ?c @ enc_up txs @ sec4 cmds @ enc_up cmds @ [0x1a])"
    "?f = (?a @ ?b @ keep) @ ?c @ (enc_up txs @ sec4 cmds @ enc_up cmds @ [0x1a])"
    "?f = (?a @ ?b @ keep @ ?c @ enc_up txs) @ sec4 cmds @ (enc_up cmds @ [0x1a])"
    by (simp_all add: data_file_secs)
  have st: "disk_ok (steps s i)" "files (steps s i) p = Some ?f" using s by simp_all
  show "read_data_st \<lparr>fd_path = p, fd_off = 0\<rparr> (steps s i) =
      (Some \<lparr>df_head = 0xa1, df_num = no, df_length = word_of_nat (length (up_body kn keep txs cmds))\<rparr>, \<lparr>fd_path = p, fd_off = 9\<rparr>, steps s (Suc i))"
    using read_data_st_ok [OF st(1) st(2) [unfolded f(1) sec1_def]] by simp
  show "read_data_st \<lparr>fd_path = p, fd_off = 9\<rparr> (steps s i) =
      (Some \<lparr>df_head = 0xba, df_num = kn, df_length = word_of_nat (length keep)\<rparr>, \<lparr>fd_path = p, fd_off = 18\<rparr>, steps s (Suc i))"
    using read_data_st_ok [OF st(1) st(2) [unfolded f(2) sec2_def]] by simp
  show "read_data_st \<lparr>fd_path = p, fd_off = 18 + length keep\<rparr> (steps s i) =
      (Some \<lparr>df_head = 0xca, df_num = word_of_nat (length txs), df_length = word_of_nat (length (enc_up txs))\<rparr>,
       \<lparr>fd_path = p, fd_off = 27 + length keep\<rparr>, steps s (Suc i))"
    using read_data_st_ok [OF st(1) st(2) [unfolded f(3) sec3_def]] by simp
  show "read_data_st \<lparr>fd_path = p, fd_off = 27 + length keep + length (enc_up txs)\<rparr> (steps s i) =
      (Some \<lparr>df_head = 0xda, df_num = word_of_nat (length cmds), df_length = word_of_nat (length (enc_up cmds))\<rparr>,
       \<lparr>fd_path = p, fd_off = 36 + length keep + length (enc_up txs)\<rparr>, steps s (Suc i))"
    using read_data_st_ok [OF st(1) st(2) [unfolded f(4) sec4_def]] by (simp add: add.assoc)
qed

lemma read_sec1:
  assumes "disk_ok s" "files s p = Some (data_file no kn keep txs cmds)"
  shows "read_data_st \<lparr>fd_path = p, fd_off = 0\<rparr> s =
      (Some \<lparr>df_head = 0xa1, df_num = no, df_length = word_of_nat (length (up_body kn keep txs cmds))\<rparr>, \<lparr>fd_path = p, fd_off = 9\<rparr>,
       steps s (Suc (io_calls s)))"
  using read_secs(1) [OF assms, of "io_calls s"] by simp

lemma full_st_iff: "full_st h (Some d) \<longleftrightarrow> weak_st h (Some d) \<and> (df_num d = 0) = (df_length d = 0)"
  by (simp add: full_st_def)

lemma genTxFiles_ok:
  assumes s: "disk_ok s" "files s p = Some (data_file no kn keep txs cmds)" "no_oom (hp s)" "heap_ok (hp s)" and w: "wf_upload no kn keep txs cmds"
    and d: "TXDIR \<in> dirs s" and q: "\<forall>(n, b)\<in>set txs. p \<noteq> TXDIR @ n"
  shows "\<exists>m s'. genTxFiles eintr \<lparr>fd_path = p, fd_off = off\<rparr> s = Some (0, \<lparr>fd_path = p, fd_off = m\<rparr>, s') \<and>
    after s (put_files TXDIR txs (files s)) s'"
proof -
  note z = wf_sizes [OF w]
  have lt: "length keep \<le> 10485760" "length (enc_up txs) \<le> 10485760" using z by linarith+
  note k = st_ok [OF lt(1)] and t = st_ok [OF lt(2)] and b = st_ok [OF z(2)] and nt = num_ok [OF z(3)]
  let ?k = "word_of_nat (length keep) :: u32"
  have no: "no \<noteq> 0" using w by (simp add: wf_upload_def)
  have u: "unat (18 + ?k) = 18 + length keep" using unat_u32_len [of "18 + length keep"] lt(1) by simp
  note r = read_secs [OF s(1,2)] read_sec1 [OF s(1,2)]
  show ?thesis
  proof (cases "txs = []")
    case True
    then show ?thesis using r k(1,2) t b no u nt s(3,4) by (simp add: genTxFiles_def lseek_def full_st_iff Let_def after_refl)
  next
    case False
    let ?s = "steps s (Suc (Suc (Suc (io_calls s))))"
    let ?s1 = "?s\<lparr>hp := alloc 1 (hp s)\<rparr>"
    let ?pre = "sec1 no kn keep txs cmds @ sec2 kn keep @ keep @ sec3 txs" and ?post = "sec4 cmds @ enc_up cmds @ [0x1a]"
    have tx: "TXDIR \<noteq> []" "last TXDIR = 0x2f" "0 \<notin> set TXDIR" by (simp_all add: TXDIR_def str_def)
    have ns: "wf_names 29 txs" using w by (simp add: wf_upload_def)
    have "disk_ok ?s1" "files ?s1 p = Some (?pre @ enc_up txs @ ?post)" "no_oom (hp ?s1)" "heap_ok (hp ?s1)" "TXDIR \<in> dirs ?s1"
        "length ?pre + length (enc_up txs) \<le> 52428800"
      using s d lt alloc_ok [of "hp s" 1] by (simp_all add: data_file_secs)
    from gen_files_loop_ok [OF this(1-5) tx ns q this(6), of eintr] obtain s' where
      s': "gen_files_loop eintr TXDIR 29 (length txs) (27 + ?k) (word_of_nat (length (enc_up txs))) \<lparr>fd_path = p, fd_off = 27 + length keep\<rparr> ?s1 =
          Some (0, \<lparr>fd_path = p, fd_off = 27 + length keep + length (enc_up txs)\<rparr>, s')" "after ?s1 (put_files TXDIR txs (files s)) s'"
      by (auto simp: add.assoc)
    note f = after_alloc [of ?s, simplified, OF s'(2) [simplified] s(4)]
    have "genTxFiles eintr \<lparr>fd_path = p, fd_off = off\<rparr> s = Some (0, \<lparr>fd_path = p, fd_off = 27 + length keep + length (enc_up txs)\<rparr>,
        s'\<lparr>hp := (hp s')\<lparr>live := live (hp s') - {calls (hp s)}\<rparr>\<rparr>)"
      using r k(1,2) t b no u nt s(3) False s'(1) z(5) f(2) by (simp add: genTxFiles_def lseek_def full_st_iff Let_def os_malloc_ok)
    then show ?thesis using f(3) by blast
  qed
qed

lemma genCmdFiles_ok:
  assumes s: "disk_ok s" "files s p = Some (data_file no kn keep txs cmds)" "no_oom (hp s)" "heap_ok (hp s)" and w: "wf_upload no kn keep txs cmds"
    and d: "SERVEREPUBDIR \<in> dirs s" and q: "\<forall>(n, b)\<in>set cmds. p \<noteq> SERVEREPUBDIR @ n"
  shows "\<exists>m s'. genCmdFiles eintr \<lparr>fd_path = p, fd_off = off\<rparr> s = Some (0, \<lparr>fd_path = p, fd_off = m\<rparr>, s') \<and>
    after s (put_files SERVEREPUBDIR cmds (files s)) s'"
proof -
  note z = wf_sizes [OF w]
  have lt: "length keep \<le> 10485760" "length (enc_up txs) \<le> 10485760" "length (enc_up cmds) \<le> 10485760"
      "length keep + length (enc_up txs) + length (enc_up cmds) \<le> 10485760" using z by linarith+
  note k = st_ok [OF lt(1)] and t = st_ok [OF lt(2)] and c = st_ok [OF lt(3)] and b = st_ok [OF z(2)] and nt = num_ok [OF z(3)] and nc = num_ok [OF z(4)]
  let ?k = "word_of_nat (length keep) :: u32" and ?t = "word_of_nat (length (enc_up txs)) :: u32"
  have no: "no \<noteq> 0" and kn: "(kn = 0) = (keep = [])" using w by (auto simp: wf_upload_def)
  have u: "unat (18 + ?k) = 18 + length keep" "unat (27 + ?k + ?t) = 27 + length keep + length (enc_up txs)"
    using unat_u32_len [of "18 + length keep"] unat_u32_len [of "27 + length keep + length (enc_up txs)"] lt by simp_all
  have u9: "18 + ?k + 9 + ?t = 27 + ?k + ?t" by simp
  note r = read_secs [OF s(1,2)] read_sec1 [OF s(1,2)]
  show ?thesis
  proof (cases "cmds = []")
    case True
    then show ?thesis using r k t b c no kn u nt nc z(5,6) s(3,4) by (simp add: genCmdFiles_def lseek_def full_st_iff Let_def after_refl u9)
  next
    case False
    let ?s = "steps s (Suc (Suc (Suc (Suc (io_calls s)))))"
    let ?s1 = "?s\<lparr>hp := alloc 1 (hp s)\<rparr>"
    let ?pre = "sec1 no kn keep txs cmds @ sec2 kn keep @ keep @ sec3 txs @ enc_up txs @ sec4 cmds" and ?post = "[0x1a]"
    have tx: "SERVEREPUBDIR \<noteq> []" "last SERVEREPUBDIR = 0x2f" "0 \<notin> set SERVEREPUBDIR" by (simp_all add: SERVEREPUBDIR_def str_def)
    have ns: "wf_names 41 cmds" using w by (simp add: wf_upload_def)
    have "disk_ok ?s1" "files ?s1 p = Some (?pre @ enc_up cmds @ ?post)" "no_oom (hp ?s1)" "heap_ok (hp ?s1)" "SERVEREPUBDIR \<in> dirs ?s1"
        "length ?pre + length (enc_up cmds) \<le> 52428800"
      using s d lt alloc_ok [of "hp s" 1] by (simp_all add: data_file_secs)
    from gen_files_loop_ok [OF this(1-5) tx ns q this(6), of eintr] obtain s' where
      s': "gen_files_loop eintr SERVEREPUBDIR 41 (length cmds) (36 + ?k + ?t) (word_of_nat (length (enc_up cmds)))
          \<lparr>fd_path = p, fd_off = 36 + length keep + length (enc_up txs)\<rparr> ?s1 =
          Some (0, \<lparr>fd_path = p, fd_off = 36 + length keep + length (enc_up txs) + length (enc_up cmds)\<rparr>, s')" "after ?s1 (put_files SERVEREPUBDIR cmds (files s)) s'"
      by (auto simp: add.assoc add.commute add.left_commute)
    note f = after_alloc [of ?s, simplified, OF s'(2) [simplified] s(4)]
    have w9: "27 + ?k + ?t + 9 = 36 + ?k + ?t" by simp
    have "genCmdFiles eintr \<lparr>fd_path = p, fd_off = off\<rparr> s =
        Some (0, \<lparr>fd_path = p, fd_off = 36 + length keep + length (enc_up txs) + length (enc_up cmds)\<rparr>, s')"
      using r k(1,2,3) t b c no kn u nt nc s(3) False s'(1) z(5,6)
      by (simp add: genCmdFiles_def lseek_def full_st_iff Let_def os_malloc_ok u9 w9)
    then show ?thesis using f(1) by blast
  qed
qed

section \<open>The whole file\<close>

lemma upload_paths:
  "TEMPDATAFILEPATH \<noteq> KEEPLISTFILEPATH" "length TEMPDATAFILEPATH = 35" "length TXDIR = 33" "length SERVEREPUBDIR = 25" "length KEEPLISTFILEPATH = 28"
  by (simp_all add: TEMPDATAFILEPATH_def KEEPLISTFILEPATH_def TXDIR_def SERVEREPUBDIR_def str_def)

lemma other_paths:
  assumes "wf_upload no kn keep txs cmds"
  shows "\<forall>(n, d)\<in>set txs. TEMPDATAFILEPATH \<noteq> TXDIR @ n" "\<forall>(n, d)\<in>set cmds. TEMPDATAFILEPATH \<noteq> SERVEREPUBDIR @ n"
proof -
  have "\<forall>(n, d)\<in>set txs. length n = 29" "\<forall>(n, d)\<in>set cmds. length n = 41" using assms by (auto simp: wf_upload_def wf_names_def)
  then show "\<forall>(n, d)\<in>set txs. TEMPDATAFILEPATH \<noteq> TXDIR @ n" "\<forall>(n, d)\<in>set cmds. TEMPDATAFILEPATH \<noteq> SERVEREPUBDIR @ n"
    using upload_paths by (auto dest!: bspec dest: arg_cong [where f = length])
qed

text \<open>C11: A well-formed data file is unpacked into exactly the files it holds: the list of files to keep, when it is not
  empty, every transaction file and every command file, in this order, with their names and contents; nothing else on
  the disk changes.\<close>

theorem upload_unpacked:
  assumes "disk_ok s" "files s TEMPDATAFILEPATH = Some (data_file no kn keep txs cmds)" "wf_upload no kn keep txs cmds"
    and "no_oom (hp s)" "heap_ok (hp s)"
    and "dirname KEEPLISTFILEPATH \<in> dirs s" "TXDIR \<in> dirs s" "SERVEREPUBDIR \<in> dirs s"
  shows "\<exists>s'. unpack eintr s = Some (0, s') \<and> dirs s' = dirs s \<and>
    files s' = put_files SERVEREPUBDIR cmds (put_files TXDIR txs (if keep = [] then files s else (files s)(KEEPLISTFILEPATH \<mapsto> keep)))"
proof -
  let ?p = TEMPDATAFILEPATH and ?f = "data_file no kn keep txs cmds"
  let ?g1 = "if keep = [] then files s else (files s)(KEEPLISTFILEPATH \<mapsto> keep)"
  note w = assms(3) and oth = other_paths [OF assms(3)]
  have no: "no \<noteq> 0" using w by (simp add: wf_upload_def)
  let ?s1 = "steps s (Suc (io_calls s))"
  obtain k2 m2 where 2: "getFileNo \<lparr>fd_path = ?p, fd_off = 0\<rparr> ?s1 = (0, no, \<lparr>fd_path = ?p, fd_off = m2\<rparr>, steps ?s1 k2)"
    using getFileNo_ok [of ?s1 ?p no kn keep txs cmds 0] assms(1,2) no by auto
  obtain k3 m3 where 3: "checkHeadAndTail \<lparr>fd_path = ?p, fd_off = m2\<rparr> (steps ?s1 k2) = (0, \<lparr>fd_path = ?p, fd_off = m3\<rparr>, steps (steps ?s1 k2) k3)"
    using checkHeadAndTail_ok [of "steps ?s1 k2" ?p no kn keep txs cmds m2] assms(1,2) w by auto
  let ?s3 = "steps s k3"
  have s3: "disk_ok ?s3" "files ?s3 ?p = Some ?f" "no_oom (hp ?s3)" "heap_ok (hp ?s3)" "dirname KEEPLISTFILEPATH \<in> dirs ?s3" using assms by simp_all
  obtain m4 s4 where 4: "genKeepList eintr \<lparr>fd_path = ?p, fd_off = m3\<rparr> ?s3 = Some (0, \<lparr>fd_path = ?p, fd_off = m4\<rparr>, s4)" "after s ?g1 s4"
    using genKeepList_ok [OF s3(1-4) w upload_paths(1) s3(5), of eintr m3] by (auto cong: if_cong)
  note t4 = afterD [OF 4(2)]
  have "disk_ok s4" "files s4 ?p = Some ?f" "TXDIR \<in> dirs s4" using t4 assms upload_paths(1) by simp_all
  from genTxFiles_ok [OF this(1,2) t4(4,5) w this(3) oth(1), of eintr m4] obtain m5 s5 where
    5: "genTxFiles eintr \<lparr>fd_path = ?p, fd_off = m4\<rparr> s4 = Some (0, \<lparr>fd_path = ?p, fd_off = m5\<rparr>, s5)" "after s4 (put_files TXDIR txs ?g1) s5"
    unfolding t4(1) by blast
  note t5 = afterD [OF 5(2)]
  have "disk_ok s5" "files s5 ?p = Some ?f" "SERVEREPUBDIR \<in> dirs s5"
    using t5 t4 assms put_files_other [OF oth(1), of ?g1] upload_paths(1) by simp_all
  from genCmdFiles_ok [OF this(1,2) t5(4,5) w this(3) oth(2), of eintr m5] obtain m6 s6 where
    6: "genCmdFiles eintr \<lparr>fd_path = ?p, fd_off = m5\<rparr> s5 = Some (0, \<lparr>fd_path = ?p, fd_off = m6\<rparr>, s6)"
      "after s5 (put_files SERVEREPUBDIR cmds (put_files TXDIR txs ?g1)) s6"
    unfolding t5(1) by blast
  have "unpack eintr s = Some (0, s6)"
    using 2 3 4(1) 5(1) 6(1) open_existing_disk [OF assms(1,2)] by (simp add: unpack_def)
  moreover have "files s6 = put_files SERVEREPUBDIR cmds (put_files TXDIR txs ?g1)" "dirs s6 = dirs s"
    using afterD(1,2) [OF 6(2)] t5(2) t4(2) by simp_all
  ultimately show ?thesis by blast
qed

text \<open>A data file with one file to keep, a transaction file and a command file.\<close>

definition demo_txs :: "upload_item list" where "demo_txs = [(replicate 29 0x41, [1, 2, 3])]"
definition demo_cmds :: "upload_item list" where "demo_cmds = [(replicate 41 0x42, [])]"
definition demo_keep :: "byte list" where "demo_keep = [0xb1, 1, 0, 0, 0, 0x61]"

definition upload_disk :: os where
  "upload_disk = \<lparr>hp = sound_heap, dirs = {dirname KEEPLISTFILEPATH, TXDIR, SERVEREPUBDIR},
     files = [TEMPDATAFILEPATH \<mapsto> data_file 7 1 demo_keep demo_txs demo_cmds], io_calls = 0, io_max = \<lambda>_. Some (2 ^ 32)\<rparr>"

lemma upload_unpacked_witness:
  "\<exists>s'. unpack (\<lambda>_. False) upload_disk = Some (0, s') \<and> dirs s' = dirs upload_disk \<and>
    files s' = put_files SERVEREPUBDIR demo_cmds (put_files TXDIR demo_txs
      (if demo_keep = [] then files upload_disk else (files upload_disk)(KEEPLISTFILEPATH \<mapsto> demo_keep)))"
proof (rule upload_unpacked [where no = 7 and kn = 1])
  show "wf_upload 7 1 demo_keep demo_txs demo_cmds"
    by (simp add: wf_upload_def wf_names_def up_body_def demo_keep_def demo_txs_def demo_cmds_def)
qed (simp_all add: upload_disk_def disk_ok_def)

end
