(* ===== verification/Trash.thy ===== *)
theory Trash
  imports Envelope
begin

text \<open>
  The files to keep (\<^verbatim>\<open>spcmodtrash.c\<close>, \<^verbatim>\<open>spc_do_keep.c\<close>): everything in the directory of downloads is moved away, the files of
  a list are moved back and the rest is removed.
\<close>

definition TRASHTEMPDIR :: "byte list" where "TRASHTEMPDIR = str ''/mnt/spcdata/trash/temp/''"
definition DOWNLOADDIR :: "byte list" where "DOWNLOADDIR = str ''/mnt/spcdata/download/''"
definition KEEPLIST :: "byte list" where "KEEPLIST = str ''/mnt/spcdata/trash/keep.list''"
definition MVTOTRASHTEMPCMD :: "byte list" where "MVTOTRASHTEMPCMD = str ''mv /mnt/spcdata/download/* /mnt/spcdata/trash/temp/''"
definition RMTRASHTEMPCMD :: "byte list" where "RMTRASHTEMPCMD = str ''rm -f /mnt/spcdata/trash/temp/*''"

definition mvFileToTrashTemp :: "shell \<Rightarrow> os \<Rightarrow> os"
  where "mvFileToTrashTemp sh s = sh_system sh MVTOTRASHTEMPCMD s"

definition checkKeepList :: "os \<Rightarrow> int"
  where "checkKeepList s = access KEEPLIST s"

record keepFile_st =
  kf_head :: byte
  kf_length :: u32

definition keepFile_of :: "byte list \<Rightarrow> keepFile_st"
  where "keepFile_of b = \<lparr>kf_head = hd b, kf_length = le_u32 (drop 1 b)\<rparr>"

text \<open>The loop over the list.  The name goes to an array of 50 bytes, and from there behind each of the two
  directories, where 50 bytes are left.\<close>

partial_function (option) keep_loop :: "file_desc \<Rightarrow> os \<Rightarrow> (int \<times> os) option" where
  "keep_loop fd s = (case read_into fd (replicate 5 0) s of (ret, b, fd1, s1) \<Rightarrow>
     if ret \<noteq> 5 then Some (0, s1)
     else let k = keepFile_of b; n = unat (kf_length k) in
       if kf_head k \<noteq> 0xb1 \<or> kf_length k > 100 then Some (-1, s1)
       else (case read_fd fd1 n s1 of
           (None, fd2, s2) \<Rightarrow> Some (-1, s2)
         | (Some d, fd2, s2) \<Rightarrow> do {
             fileName \<leftarrow> wr 0 d (replicate 50 0);
             if length d \<noteq> n then Some (-1, s2)
             else do {
               old \<leftarrow> strncat (replicate 50 0) fileName n;
               new \<leftarrow> strncat (replicate 50 0) fileName n;
               keep_loop fd2 (snd (rename_file (TRASHTEMPDIR @ c_str old) (DOWNLOADDIR @ c_str new) s2))
             }
           }))"

definition mvFileToDownloadDir :: "os \<Rightarrow> (int \<times> os) option" where
  "mvFileToDownloadDir s = (case open_existing KEEPLIST s of
     (None, s1) \<Rightarrow> Some (-1, s1)
   | (Some fd, s1) \<Rightarrow> (case os_malloc (word_of_nat (length TRASHTEMPDIR + 50)) s1 of
         (None, s2) \<Rightarrow> Some (-1, s2)
       | (Some p, s2) \<Rightarrow> (case os_malloc (word_of_nat (length DOWNLOADDIR + 50)) s2 of
             (None, s3) \<Rightarrow> do { s4 \<leftarrow> os_free p s3; Some (-1, s4) }
           | (Some q, s3) \<Rightarrow> do {
               (ret, s4) \<leftarrow> keep_loop fd s3;
               s5 \<leftarrow> os_free p s4;
               s6 \<leftarrow> os_free q s5;
               Some (ret, s6)
             })))"

definition cleanTrashTemp :: "shell \<Rightarrow> os \<Rightarrow> os"
  where "cleanTrashTemp sh s = sh_system sh RMTRASHTEMPCMD s"

text \<open>What \<^verbatim>\<open>_mvFileToDownloadDir\<close> returns is not looked at.\<close>

definition trash_keepFile :: "shell \<Rightarrow> os \<Rightarrow> (int \<times> os) option" where
  "trash_keepFile sh s =
    (let s1 = mvFileToTrashTemp sh s in
     if checkKeepList s1 = -1 then Some (-1, s1)
     else do { (ret, s2) \<leftarrow> mvFileToDownloadDir s1; Some (0, cleanTrashTemp sh s2) })"

definition spc_do_keep :: "shell \<Rightarrow> os \<Rightarrow> os option"
  where "spc_do_keep sh s = do { (ret, s1) \<leftarrow> trash_keepFile sh s; Some s1 }"

end
