(* ===== verification/Trash_Correct.thy ===== *)
theory Trash_Correct
  imports Trash Upload_Correct
begin

text \<open>What stays in the directory of downloads, and a name that is too long.\<close>

section \<open>The commands\<close>

definition visible :: "byte list \<Rightarrow> bool"
  where "visible n \<longleftrightarrow> n \<noteq> [] \<and> 0x2f \<notin> set n \<and> hd n \<noteq> 0x2e"

text \<open>A file of a directory that \<^verbatim>\<open>*\<close> stands for: its name.\<close>

definition in_dir :: "byte list \<Rightarrow> byte list \<Rightarrow> bool"
  where "in_dir d p \<longleftrightarrow> take (length d) p = d \<and> visible (drop (length d) p)"

definition move_all :: "byte list \<Rightarrow> byte list \<Rightarrow> (byte list \<rightharpoonup> byte list) \<Rightarrow> byte list \<rightharpoonup> byte list" where
  "move_all d e f p =
    (if in_dir d p then None
     else if in_dir e p \<and> f (d @ drop (length e) p) \<noteq> None then f (d @ drop (length e) p) else f p)"

definition remove_dir :: "byte list \<Rightarrow> (byte list \<rightharpoonup> byte list) \<Rightarrow> byte list \<rightharpoonup> byte list"
  where "remove_dir d f p = (if in_dir d p then None else f p)"

definition trash_shell :: "shell \<Rightarrow> bool" where
  "trash_shell sh \<longleftrightarrow> (\<forall>s. sh_system sh MVTOTRASHTEMPCMD s = s\<lparr>files := move_all DOWNLOADDIR TRASHTEMPDIR (files s)\<rparr> \<and>
     sh_system sh RMTRASHTEMPCMD s = s\<lparr>files := remove_dir TRASHTEMPDIR (files s)\<rparr>)"

section \<open>The loop\<close>

definition enc_keep :: "byte list list \<Rightarrow> byte list"
  where "enc_keep ns = concat (map (\<lambda>n. 0xb1 # u32_le (word_of_nat (length n)) @ n) ns)"

lemma enc_keep_simps [simp]: "enc_keep [] = []" "enc_keep (n # ns) = (0xb1 # u32_le (word_of_nat (length n))) @ n @ enc_keep ns"
  by (simp_all add: enc_keep_def)

definition keep_name :: "byte list \<Rightarrow> bool"
  where "keep_name n \<longleftrightarrow> visible n \<and> 0 \<notin> set n \<and> length n < 50"

definition move_back :: "byte list \<Rightarrow> (byte list \<rightharpoonup> byte list) \<Rightarrow> byte list \<rightharpoonup> byte list" where
  "move_back n f = (case f (TRASHTEMPDIR @ n) of None \<Rightarrow> f | Some x \<Rightarrow> f(TRASHTEMPDIR @ n := None, DOWNLOADDIR @ n \<mapsto> x))"

lemma dir_names:
  "length TRASHTEMPDIR = 24" "length DOWNLOADDIR = 22" "TRASHTEMPDIR @ a \<noteq> DOWNLOADDIR @ b" "DOWNLOADDIR @ b \<noteq> TRASHTEMPDIR @ a"
  "TRASHTEMPDIR @ a \<noteq> KEEPLIST" "DOWNLOADDIR @ a \<noteq> KEEPLIST" "KEEPLIST \<noteq> TRASHTEMPDIR @ a" "KEEPLIST \<noteq> DOWNLOADDIR @ a"
  "TRASHTEMPDIR \<noteq> DOWNLOADDIR" "DOWNLOADDIR \<noteq> TRASHTEMPDIR" "TRASHTEMPDIR \<noteq> []" "DOWNLOADDIR \<noteq> []" "last DOWNLOADDIR = 0x2f"
  by (simp_all add: TRASHTEMPDIR_def DOWNLOADDIR_def KEEPLIST_def str_def)

lemma fold_move_back:
  "fold move_back ns f (DOWNLOADDIR @ n) = (if n \<in> set ns \<and> f (TRASHTEMPDIR @ n) \<noteq> None then f (TRASHTEMPDIR @ n) else f (DOWNLOADDIR @ n))"
  "\<forall>n. p \<noteq> DOWNLOADDIR @ n \<and> p \<noteq> TRASHTEMPDIR @ n \<Longrightarrow> fold move_back ns f p = f p"
  by (induction ns arbitrary: f) (auto simp: move_back_def dir_names split: option.splits)

lemma fold_move_back_trash: "fold move_back ns f (TRASHTEMPDIR @ n) = (if n \<in> set ns then None else f (TRASHTEMPDIR @ n))"
  by (induction ns arbitrary: f) (auto simp: move_back_def dir_names split: option.splits)

lemma rename_file_disk:
  assumes "disk_ok s" "DOWNLOADDIR \<in> dirs s" "DOWNLOADDIR @ n \<notin> dirs s" "0x2f \<notin> set n"
  shows "snd (rename_file (TRASHTEMPDIR @ n) (DOWNLOADDIR @ n) s) = disk s (Suc (io_calls s)) (move_back n (files s))"
proof -
  obtain k where k: "io_step s = (Some k, steps s (Suc (io_calls s)))" using assms(1) by (rule io_step_disk)
  have "dirname (DOWNLOADDIR @ n) = DOWNLOADDIR" using dirname_app [OF assms(4) dir_names(12,13)] .
  then show ?thesis using k assms(2,3) by (cases "files s (TRASHTEMPDIR @ n)") (simp_all add: rename_file_def move_back_def)
qed

lemma keep_loop_step:
  assumes "disk_ok s" "files s KEEPLIST = Some (pre @ (0xb1 # u32_le (word_of_nat (length n))) @ n @ post)"
    and n: "length n \<le> 100"
  shows "keep_loop \<lparr>fd_path = KEEPLIST, fd_off = length pre\<rparr> s = do {
    fileName \<leftarrow> wr 0 n (replicate 50 0);
    old \<leftarrow> strncat (replicate 50 0) fileName (length n);
    new \<leftarrow> strncat (replicate 50 0) fileName (length n);
    keep_loop \<lparr>fd_path = KEEPLIST, fd_off = length pre + 5 + length n\<rparr>
      (snd (rename_file (TRASHTEMPDIR @ c_str old) (DOWNLOADDIR @ c_str new) (steps s (Suc (Suc (io_calls s)))))) }"
proof -
  let ?h = "0xb1 # u32_le (word_of_nat (length n))"
  have r1: "read_into \<lparr>fd_path = KEEPLIST, fd_off = length pre\<rparr> (replicate 5 0) s =
      (5, ?h, \<lparr>fd_path = KEEPLIST, fd_off = length pre + 5\<rparr>, steps s (Suc (io_calls s)))"
    using read_into_disk [OF assms(1,2) refl refl, of "replicate 5 0"] by simp
  have "files (steps s (Suc (io_calls s))) KEEPLIST = Some ((pre @ ?h) @ n @ post)" using assms(2) by simp
  from read_fd_disk [OF _ this] have r2: "read_fd \<lparr>fd_path = KEEPLIST, fd_off = length pre + 5\<rparr> (length n) (steps s (Suc (io_calls s))) =
      (Some n, \<lparr>fd_path = KEEPLIST, fd_off = length pre + 5 + length n\<rparr>, steps s (Suc (Suc (io_calls s))))"
    using assms(1) n by simp
  have u: "unat (word_of_nat (length n) :: u32) = length n" using n by (intro unat_u32_len) simp
  then have "\<not> (word_of_nat (length n) :: u32) > 100" using n by (simp add: word_less_nat_alt)
  then show ?thesis using r1 r2 by (subst keep_loop.simps) (simp add: keepFile_of_def wire_simps Let_def u)
qed

lemma keep_loop_ok:
  assumes "disk_ok s" "files s KEEPLIST = Some (pre @ enc_keep ns)" "DOWNLOADDIR \<in> dirs s" "\<forall>n\<in>set ns. keep_name n \<and> DOWNLOADDIR @ n \<notin> dirs s"
  shows "\<exists>k. keep_loop \<lparr>fd_path = KEEPLIST, fd_off = length pre\<rparr> s = Some (0, disk s k (fold move_back ns (files s)))"
  using assms
proof (induction ns arbitrary: s pre)
  case Nil
  have "read_fd \<lparr>fd_path = KEEPLIST, fd_off = length pre\<rparr> 5 s = (Some [], \<lparr>fd_path = KEEPLIST, fd_off = length pre\<rparr>, steps s (Suc (io_calls s)))"
    using read_fd_upto [OF Nil.prems(1,2), of 5 "length pre"] by simp
  then show ?case by (subst keep_loop.simps) (simp add: read_into_def)
next
  case (Cons n ns)
  let ?h = "0xb1 # u32_le (word_of_nat (length n))" and ?s = "steps s (Suc (Suc (io_calls s)))"
  have n: "length n < 50" "0 \<notin> set n" "0x2f \<notin> set n" "DOWNLOADDIR @ n \<notin> dirs s" using Cons.prems(4) by (auto simp: keep_name_def visible_def)
  have w: "wr 0 n (replicate 50 0) = Some (n @ replicate (50 - length n) 0)" using n(1) by (simp add: wr_def)
  have c: "strncat (replicate 50 0) (n @ replicate (50 - length n) 0) (length n) = Some (n @ replicate (50 - length n) 0)"
    using strncat_app [of "[]" n 50 "replicate (50 - length n) 0" "length n"] n(1,2) by simp
  have "50 - length n = Suc (49 - length n)" using n(1) by simp
  then have "c_str (n @ replicate (50 - length n) 0) = n"
    using c_str_app [OF n(2), of "replicate (49 - length n) 0"] by (simp only: replicate_Suc)
  note step = keep_loop_step [OF Cons.prems(1), of pre n "enc_keep ns"] and cs = this
  let ?s2 = "disk s (Suc (Suc (Suc (io_calls s)))) (move_back n (files s))"
  have r: "snd (rename_file (TRASHTEMPDIR @ n) (DOWNLOADDIR @ n) ?s) = ?s2"
    using rename_file_disk [of ?s n] Cons.prems(1,3) n(3,4) by simp
  have "move_back n (files s) KEEPLIST = files s KEEPLIST" using fold_move_back(2) [of KEEPLIST "[n]" "files s"] dir_names by simp
  then have "disk_ok ?s2" "files ?s2 KEEPLIST = Some ((pre @ ?h @ n) @ enc_keep ns)" "DOWNLOADDIR \<in> dirs ?s2"
      "\<forall>n\<in>set ns. keep_name n \<and> DOWNLOADDIR @ n \<notin> dirs ?s2"
    using Cons.prems by simp_all
  from Cons.IH [OF this] obtain k where
    "keep_loop \<lparr>fd_path = KEEPLIST, fd_off = length pre + 5 + length n\<rparr> ?s2 = Some (0, disk s k (fold move_back ns (move_back n (files s))))"
    by (auto simp: add.assoc)
  then show ?case using step Cons.prems(2) n(1) w c cs r by simp
qed

section \<open>Keeping the files of the list\<close>

lemma in_dir_app [simp]: "in_dir d (d @ n) = visible n"
  by (simp add: in_dir_def)

lemma in_dir_other: "in_dir d p \<Longrightarrow> \<exists>n. p = d @ n \<and> visible n"
  by (metis append_take_drop_id in_dir_def)

lemma not_in_dir: "\<not> in_dir TRASHTEMPDIR (DOWNLOADDIR @ n)" "\<not> in_dir DOWNLOADDIR (TRASHTEMPDIR @ n)"
    "\<not> in_dir DOWNLOADDIR KEEPLIST" "\<not> in_dir TRASHTEMPDIR KEEPLIST"
  using dir_names by (auto dest!: in_dir_other)

text \<open>C13: \<^verbatim>\<open>spc_do_keep\<close> with a well-formed list leaves in the directory of downloads exactly those of its files that the
  list names, with their contents, and leaves the temporary directory empty.\<close>

theorem keep_exactly:
  assumes "trash_shell sh" "disk_ok s" "no_oom (hp s)" "heap_ok (hp s)" "files s KEEPLIST = Some (enc_keep ns)"
    and "DOWNLOADDIR \<in> dirs s" "\<forall>n\<in>set ns. keep_name n \<and> DOWNLOADDIR @ n \<notin> dirs s"
    and "\<forall>n. visible n \<longrightarrow> files s (TRASHTEMPDIR @ n) = None"
  shows "\<exists>s'. spc_do_keep sh s = Some s' \<and> heap_ok (hp s') \<and>
    (\<forall>n. visible n \<longrightarrow> files s' (DOWNLOADDIR @ n) = (if n \<in> set ns then files s (DOWNLOADDIR @ n) else None) \<and> files s' (TRASHTEMPDIR @ n) = None)"
proof -
  let ?f = "move_all DOWNLOADDIR TRASHTEMPDIR (files s)"
  let ?s1 = "s\<lparr>files := ?f\<rparr>"
  let ?s2 = "steps ?s1 (Suc (io_calls s))"
  let ?s3 = "?s2\<lparr>hp := alloc 1 (alloc 1 (hp s))\<rparr>"
  have kl: "?f KEEPLIST = Some (enc_keep ns)" using assms(5) by (simp add: move_all_def not_in_dir)
  have "disk_ok ?s3" "files ?s3 KEEPLIST = Some ([] @ enc_keep ns)" "DOWNLOADDIR \<in> dirs ?s3" "\<forall>n\<in>set ns. keep_name n \<and> DOWNLOADDIR @ n \<notin> dirs ?s3"
    using assms kl by simp_all
  from keep_loop_ok [OF this] obtain k where
    k: "keep_loop \<lparr>fd_path = KEEPLIST, fd_off = 0\<rparr> ?s3 = Some (0, disk ?s3 k (fold move_back ns ?f))" by auto
  let ?h = "(hp ?s3)\<lparr>live := live (hp ?s3) - {calls (hp s)}\<rparr>"
  have b: "calls (hp s) \<in> live (hp (disk ?s3 k (fold move_back ns ?f)))"
    "Suc (calls (hp s)) \<in> live (hp ((disk ?s3 k (fold move_back ns ?f))\<lparr>hp := ?h\<rparr>))" by (simp_all add: alloc_def)
  have m: "os_malloc z ?s2 = (Some (calls (hp s)), ?s2\<lparr>hp := alloc 1 (hp s)\<rparr>)"
    "os_malloc z (?s2\<lparr>hp := alloc 1 (hp s)\<rparr>) = (Some (Suc (calls (hp s))), ?s3)" for z
    using os_malloc_ok [of ?s2 z] os_malloc_ok [of "?s2\<lparr>hp := alloc 1 (hp s)\<rparr>" z] assms(3) alloc_ok(1) [OF assms(3), of 1] by (simp_all add: calls_alloc)
  have o: "open_existing KEEPLIST ?s1 = (Some \<lparr>fd_path = KEEPLIST, fd_off = 0\<rparr>, ?s2)"
    using open_existing_disk [of ?s1 KEEPLIST "enc_keep ns"] assms(2) kl by simp
  have a: "checkKeepList ?s1 = 0" using access_upd [of ?s1 KEEPLIST] kl by (simp add: checkKeepList_def)
  let ?g = "?h\<lparr>live := live ?h - {Suc (calls (hp s))}\<rparr>"
  have r: "spc_do_keep sh s = Some (disk s k (remove_dir TRASHTEMPDIR (fold move_back ns ?f))\<lparr>hp := ?g\<rparr>)"
    using assms(1) a o m k os_free_ok [OF b(1)] os_free_ok [OF b(2)]
    by (simp add: spc_do_keep_def trash_keepFile_def mvFileToTrashTemp_def cleanTrashTemp_def trash_shell_def mvFileToDownloadDir_def Let_def)
  have "files s (DOWNLOADDIR @ n) = ?f (TRASHTEMPDIR @ n) \<and> ?f (DOWNLOADDIR @ n) = None" if "visible n" for n
    using that assms(8) not_in_dir(2) [of n] by (cases "files s (DOWNLOADDIR @ n)") (simp_all add: move_all_def)
  then show ?thesis unfolding r using assms(4)
    by (auto simp: remove_dir_def not_in_dir fold_move_back(1) heap_ok_def alloc_def)
qed

text \<open>C21: An entry of the list with a name of more than 50 bytes, which the test of the length lets pass up to 100, is
  written beyond the array for the name.\<close>

theorem keep_name_overflows:
  assumes "trash_shell sh" "disk_ok s" "no_oom (hp s)" and "files s KEEPLIST = Some (enc_keep (n # ns))" "50 < length n" "length n \<le> 100"
  shows "spc_do_keep sh s = None"
proof -
  let ?f = "move_all DOWNLOADDIR TRASHTEMPDIR (files s)"
  let ?s1 = "s\<lparr>files := ?f\<rparr>"
  let ?s2 = "steps ?s1 (Suc (io_calls s))"
  let ?s3 = "?s2\<lparr>hp := alloc 1 (alloc 1 (hp s))\<rparr>"
  have kl: "?f KEEPLIST = Some (enc_keep (n # ns))" using assms(4) by (simp add: move_all_def not_in_dir)
  have "disk_ok ?s3" "files ?s3 KEEPLIST = Some ([] @ (0xb1 # u32_le (word_of_nat (length n))) @ n @ enc_keep ns)" using assms(2) kl by simp_all
  from keep_loop_step [OF this assms(6)] have k: "keep_loop \<lparr>fd_path = KEEPLIST, fd_off = 0\<rparr> ?s3 = None"
    using assms(5) by (simp add: wr_def)
  have m: "os_malloc z ?s2 = (Some (calls (hp s)), ?s2\<lparr>hp := alloc 1 (hp s)\<rparr>)"
    "os_malloc z (?s2\<lparr>hp := alloc 1 (hp s)\<rparr>) = (Some (Suc (calls (hp s))), ?s3)" for z
    using os_malloc_ok [of ?s2 z] os_malloc_ok [of "?s2\<lparr>hp := alloc 1 (hp s)\<rparr>" z] assms(3) alloc_ok(1) [OF assms(3), of 1] by (simp_all add: calls_alloc)
  have o: "open_existing KEEPLIST ?s1 = (Some \<lparr>fd_path = KEEPLIST, fd_off = 0\<rparr>, ?s2)"
    using open_existing_disk [of ?s1 KEEPLIST "enc_keep (n # ns)"] assms(2) kl by simp
  have a: "checkKeepList ?s1 = 0" using access_upd [of ?s1 KEEPLIST] kl by (simp add: checkKeepList_def)
  show ?thesis using assms(1) a o m k
    by (simp add: spc_do_keep_def trash_keepFile_def mvFileToTrashTemp_def trash_shell_def mvFileToDownloadDir_def Let_def)
qed

section \<open>A list\<close>

definition mv_shell :: shell where
  "mv_shell = \<lparr>sh_system = \<lambda>c s. if c = MVTOTRASHTEMPCMD then s\<lparr>files := move_all DOWNLOADDIR TRASHTEMPDIR (files s)\<rparr>
     else s\<lparr>files := remove_dir TRASHTEMPDIR (files s)\<rparr>, sh_popen = \<lambda>c s. (None, s)\<rparr>"

lemma mv_shell_ok: "trash_shell mv_shell"
  by (simp add: trash_shell_def mv_shell_def MVTOTRASHTEMPCMD_def RMTRASHTEMPCMD_def str_def)

definition keep_disk :: "byte list list \<Rightarrow> os" where
  "keep_disk ns = \<lparr>hp = sound_heap, dirs = {DOWNLOADDIR}, files = [KEEPLIST \<mapsto> enc_keep ns, DOWNLOADDIR @ [0x61] \<mapsto> [1], DOWNLOADDIR @ [0x62] \<mapsto> [2]],
     io_calls = 0, io_max = \<lambda>_. Some (2 ^ 32)\<rparr>"

lemma keep_exactly_witness:
  "\<exists>s'. spc_do_keep mv_shell (keep_disk [[0x61]]) = Some s' \<and> heap_ok (hp s') \<and>
    (\<forall>n. visible n \<longrightarrow> files s' (DOWNLOADDIR @ n) = (if n \<in> set [[0x61]] then files (keep_disk [[0x61]]) (DOWNLOADDIR @ n) else None) \<and>
      files s' (TRASHTEMPDIR @ n) = None)"
  by (rule keep_exactly [OF mv_shell_ok])
    (use dir_names in \<open>auto simp: keep_disk_def disk_ok_def keep_name_def visible_def\<close>)

lemma keep_name_overflows_witness: "spc_do_keep mv_shell (keep_disk [replicate 60 0x61]) = None"
  by (rule keep_name_overflows [OF mv_shell_ok, where n = "replicate 60 0x61" and ns = "[]"])
    (use dir_names in \<open>simp_all add: keep_disk_def disk_ok_def\<close>)

end
