(* ===== verification/Seed.thy ===== *)
theory Seed
  imports Client Sys_Files
begin

text \<open>
  New key pairs for a server (\<^verbatim>\<open>spcmodseed.c\<close>): ten are asked of the node, their public keys are collected in a file,
  and the file is moved to the directory of downloads.  A stream of the C library collects what is written to it and
  writes it when it is closed; the files here are shorter than its buffer, and the result of \<^verbatim>\<open>fclose\<close> is not looked at.
\<close>

definition XPUBFILEDIR :: "byte list" where "XPUBFILEDIR = str ''/mnt/spcdata/certifile/''"
definition WALLETFILEDIR :: "byte list" where "WALLETFILEDIR = str ''/mnt/spcdata/wallet/''"
definition SATPUBDIR :: "byte list" where "SATPUBDIR = str ''/mnt/spcdata/download/''"

section \<open>Texts\<close>

text \<open>\<^verbatim>\<open>sprintf\<close> with \<^verbatim>\<open>%05d\<close>: at least five characters, the sign included.\<close>

definition sprintf_05d :: "u32 \<Rightarrow> byte list" where
  "sprintf_05d x = (if sint x < 0 then let d = dec_digits (nat (- sint x)) in 0x2d # replicate (4 - length d) 0x30 @ d
     else let d = dec_digits (nat (sint x)) in replicate (5 - length d) 0x30 @ d)"

text \<open>The number of the server and a slash, in an array of twelve bytes.\<close>

definition id_buf :: "u32 \<Rightarrow> byte list option" where
  "id_buf serverId = do {
     b \<leftarrow> wr 0 (sprintf_d serverId @ [0]) (replicate 12 0);
     strncat b [0x2f] 1
   }"

text \<open>The path of the file with the public keys, which two functions make in the same way.\<close>

definition xpub_path :: "u32 \<Rightarrow> u16 \<Rightarrow> byte list option" where
  "xpub_path serverId fileNo = do {
     path \<leftarrow> strncat (replicate 100 0) XPUBFILEDIR (length XPUBFILEDIR);
     i \<leftarrow> id_buf serverId;
     n \<leftarrow> strlen i;
     path \<leftarrow> strncat path i n;
     n \<leftarrow> strlen path;
     path \<leftarrow> wr n (sprintf_05d serverId @ [0x2d, 0]) path;
     no \<leftarrow> wr 0 (sprintf_05d (ucast fileNo) @ str ''.ce'' @ [0]) (replicate 12 0);
     n \<leftarrow> strlen no;
     strncat path no n
   }"

section \<open>The file\<close>

text \<open>\<^verbatim>\<open>fopen\<close> with \<^verbatim>\<open>a\<close>: the position is the end of the file.\<close>

definition open_append :: "byte list \<Rightarrow> os \<Rightarrow> file_desc option \<times> os" where
  "open_append p s = (case open_create p s of
     (None, s1) \<Rightarrow> (None, s1)
   | (Some fd, s1) \<Rightarrow> (Some (lseek fd (length (file_of fd s1))), s1))"

text \<open>Closing a stream: all that was collected is written, until a call fails.\<close>

partial_function (option) flush :: "file_desc \<Rightarrow> byte list \<Rightarrow> os \<Rightarrow> os option" where
  "flush fd d s =
    (if d = [] then Some s
     else case write_fd fd d s of
         (None, fd1, s1) \<Rightarrow> Some s1
       | (Some n, fd1, s1) \<Rightarrow> flush fd1 (drop n d) s1)"

definition saveXpubToFile :: "u32 \<Rightarrow> u16 \<Rightarrow> u16 \<Rightarrow> byte list \<Rightarrow> byte list \<Rightarrow> os \<Rightarrow> (int \<times> os) option" where
  "saveXpubToFile serverId fileNo index uuid xpub_buffer s =
    (if \<not> (fileNo mod 10 = 0 \<and> index \<ge> fileNo \<and> unat index < unat fileNo + 10) then Some (-1, s)
     else do {
       p \<leftarrow> xpub_path serverId fileNo;
       let path = c_str p;
       entry \<leftarrow> rd 113 xpub_buffer;
       let data = u16_le index @ u32_le 113 @ entry;
       if access path s = -1
       then (case open_trunc path s of
           (None, s1) \<Rightarrow> Some (-4, s1)
         | (Some xFd, s1) \<Rightarrow> do {
             u \<leftarrow> rd 32 uuid;
             s2 \<leftarrow> flush xFd (u @ u32_le serverId @ data) s1;
             Some (0, s2)
           })
       else (case open_append path s of
           (None, s1) \<Rightarrow> Some (-4, s1)
         | (Some xFd, s1) \<Rightarrow> do { s2 \<leftarrow> flush xFd data s1; Some (0, s2) })
     })"

text \<open>\<^verbatim>\<open>_checkStart\<close>, which is not called.\<close>

definition checkStart :: "u32 \<Rightarrow> u16 \<Rightarrow> os \<Rightarrow> int option" where
  "checkStart serverId start s = do {
     path \<leftarrow> strncat (replicate 100 0) XPUBFILEDIR (length XPUBFILEDIR);
     i \<leftarrow> id_buf serverId;
     n \<leftarrow> strlen i;
     path \<leftarrow> strncat path i n;
     b \<leftarrow> wr 0 (sprintf_d (ucast start) @ [0]) (replicate 12 0);
     n \<leftarrow> strlen b;
     path \<leftarrow> strncat path b n;
     Some (if access (c_str path) s = 0 then -1 else 0)
   }"

definition mvToDownloadDir :: "u32 \<Rightarrow> u16 \<Rightarrow> byte list \<Rightarrow> os \<Rightarrow> (int \<times> os) option" where
  "mvToDownloadDir serverId fileNo uuidBuf s = do {
     xpubFilePath \<leftarrow> xpub_path serverId fileNo;
     newPath \<leftarrow> strncat (replicate 100 0) SATPUBDIR (length SATPUBDIR);
     newPath \<leftarrow> wr (length SATPUBDIR) (sprintf_05d serverId @ [0x2d, 0]) newPath;
     newPath \<leftarrow> strncat newPath uuidBuf 32;
     newPath \<leftarrow> strncat newPath (str ''.satpub'') 7;
     Some (rename_file (c_str xpubFilePath) (c_str newPath) s)
   }"

section \<open>Ten key pairs\<close>

text \<open>The index is a 16-bit word and its bound an \<^verbatim>\<open>int\<close>: from 65530 on the bound is never reached.  A key that cannot be
  saved is left out.\<close>

partial_function (option) seed_loop :: "u32 \<Rightarrow> u16 \<Rightarrow> u16 \<Rightarrow> byte list \<Rightarrow> os \<Rightarrow> net \<Rightarrow> (int \<times> os \<times> net) option" where
  "seed_loop serverId start index uuidBuf s n =
    (if \<not> unat index < unat start + 10 then Some (0, s, n)
     else do {
       (ret, tcp_index, tcp_xpub, n1) \<leftarrow> tcp_gen_new_keypair serverId 0 (Some (replicate 113 0)) n;
       if ret = -1 \<or> tcp_index \<noteq> index then Some (-1, s, n1)
       else do {
         x \<leftarrow> tcp_xpub;
         (ret, s1) \<leftarrow> saveXpubToFile serverId start index uuidBuf x s;
         seed_loop serverId start (index + 1) uuidBuf s1 n1
       }
     })"

definition seed_makeSeed :: "u32 \<Rightarrow> u16 \<Rightarrow> buf \<Rightarrow> u32 \<Rightarrow> os \<Rightarrow> net \<Rightarrow> (int \<times> os \<times> net) option" where
  "seed_makeSeed serverId start uuidBuf uuidBufLen s n =
    (case uuidBuf of None \<Rightarrow> Some (-1, s, n)
     | Some u \<Rightarrow>
         if start mod 10 \<noteq> 0 \<or> uuidBufLen < 32 then Some (-1, s, n)
         else do {
           (ret, s1, n1) \<leftarrow> seed_loop serverId start start u s n;
           if ret = -1 then Some (-1, s1, n1)
           else do { (ret, s2) \<leftarrow> mvToDownloadDir serverId start u s1; Some (ret, s2, n1) }
         })"

section \<open>Removing seeds\<close>

text \<open>Two functions that are not called.\<close>

definition getSeedPath :: "u32 \<Rightarrow> u32 \<Rightarrow> byte list option" where
  "getSeedPath serverId index = do {
     path \<leftarrow> strncat (replicate 150 0) WALLETFILEDIR (length WALLETFILEDIR);
     i \<leftarrow> id_buf serverId;
     n \<leftarrow> strlen i;
     path \<leftarrow> strncat path i n;
     b \<leftarrow> wr 0 (sprintf_d index @ [0]) (replicate 12 0);
     n \<leftarrow> strlen b;
     strncat path b n
   }"

fun remove_seeds :: "u32 \<Rightarrow> u32 \<Rightarrow> nat \<Rightarrow> os \<Rightarrow> os option" where
  "remove_seeds serverId index 0 s = Some s"
| "remove_seeds serverId index (Suc k) s = do {
     path \<leftarrow> getSeedPath serverId index;
     remove_seeds serverId (index + 1) k (snd (remove_file (c_str path) s))
   }"

definition spcSlaveRemoveSeed :: "u32 \<Rightarrow> u16 \<Rightarrow> os \<Rightarrow> os option"
  where "spcSlaveRemoveSeed serverId start s = (if start mod 10 \<noteq> 0 then Some s else remove_seeds serverId (ucast start) 10 s)"

end
