(* ===== verification/Commands.thy ===== *)
theory Commands
  imports Seed Upload File_Ops
begin

text \<open>
  The commands from the ground: a new server (\<^verbatim>\<open>spc_init_server.c\<close>), a new secret for one (\<^verbatim>\<open>spc_update_secret.c\<close>,
  \<^verbatim>\<open>spcmodsecret.c\<close>), ten more key pairs for one (\<^verbatim>\<open>spc_update_satpub.c\<close>), the rest of \<^verbatim>\<open>spcmodserver.c\<close>, which makes the
  directories of a server and reads the command files, and the loop over the command files (\<^verbatim>\<open>spc_do_cmd.c\<close>).

  The value of \<^verbatim>\<open>time\<close> in a command, the seed of its new secret, is a parameter.
\<close>

definition WALLETDIRHEADER :: "byte list" where "WALLETDIRHEADER = str ''/mnt/spcdata/wallet/''"
definition CERTIDIRHEADER :: "byte list" where "CERTIDIRHEADER = str ''/mnt/spcdata/certifile/''"
definition EPUBDIR :: "byte list" where "EPUBDIR = str ''/mnt/spcdata/server/epub/''"
definition USEREPUBFILEPATH :: "byte list" where "USEREPUBFILEPATH = str ''/mnt/spcdata/server/temp/user.epub''"
definition USEREPUBFILETAIL :: "byte list" where "USEREPUBFILETAIL = str ''.userepub''"
definition TEMPSECFILEPATH :: "byte list" where "TEMPSECFILEPATH = str ''/mnt/spcdata/secret/temp/temp.sec''"
definition SECDOWNLOADDIR :: "byte list" where "SECDOWNLOADDIR = str ''/mnt/spcdata/download/''"

section \<open>Directories\<close>

text \<open>A directory is known with its final slash; the code names it without.  \<^verbatim>\<open>mkdir\<close> wants the directory above.\<close>

definition access_level :: "byte list \<Rightarrow> os \<Rightarrow> int"
  where "access_level p s = (if p @ [0x2f] \<in> dirs s \<or> p \<in> dom (files s) then 0 else -1)"

definition mkdir_level :: "byte list \<Rightarrow> os \<Rightarrow> int \<times> os" where
  "mkdir_level p s = (case io_step s of (r, s1) \<Rightarrow>
     if r = None \<or> access_level p s1 = 0 \<or> dirname p \<notin> dirs s1 then (-1, s1)
     else (0, s1\<lparr>dirs := insert (p @ [0x2f]) (dirs s1)\<rparr>))"

fun make_levels :: "nat \<Rightarrow> nat \<Rightarrow> byte list \<Rightarrow> os \<Rightarrow> int \<times> os" where
  "make_levels 0 i path s = (0, s)"
| "make_levels (Suc k) i path s =
    (if path ! i \<noteq> 0x2f \<or> access_level (take i path) s = 0 then make_levels k (Suc i) path s
     else case mkdir_level (take i path) s of (ret, s1) \<Rightarrow>
       if ret = -1 then (-1, s1) else make_levels k (Suc i) path s1)"

text \<open>The block with the path is not freed.\<close>

definition makeDir :: "byte list \<Rightarrow> os \<Rightarrow> (int \<times> os) option" where
  "makeDir pPath s = (case os_malloc (word_of_nat (length pPath + 50)) s of
     (None, s1) \<Rightarrow> Some (-1, s1)
   | (Some p, s1) \<Rightarrow>
       if pPath = [] then None
       else let path = (if last pPath \<noteq> 0x2f then pPath @ [0x2f] else pPath) in
         Some (make_levels (length path - 1) 1 path s1))"

definition makeFileDir :: "os \<Rightarrow> (int \<times> os) option" where
  "makeFileDir s =
    (if access TXFILEDIR s = 0 \<and> access RESFILEDIR s = 0 then Some (0, s)
     else do {
       (ret, s1) \<leftarrow> makeDir TXFILEDIR s;
       if ret \<noteq> 0 then Some (-1, s1)
       else do { (ret, s2) \<leftarrow> makeDir RESFILEDIR s1; Some (if ret \<noteq> 0 then -1 else 0, s2) }
     })"

text \<open>One of the two directories of a server.\<close>

definition make_id_dir :: "byte list \<Rightarrow> u32 \<Rightarrow> os \<Rightarrow> (int \<times> os) option" where
  "make_id_dir header serverId s = (case os_malloc (word_of_nat (length header + 12 + 10)) s of
     (None, s1) \<Rightarrow> Some (-1, s1)
   | (Some p, s1) \<Rightarrow> do {
       path \<leftarrow> wr 0 header (replicate (length header + 12 + 10) 0);
       path \<leftarrow> wr (length header) (sprintf_d serverId @ [0]) path;
       (ret, s2) \<leftarrow> makeDir (c_str path) s1;
       s3 \<leftarrow> os_free p s2;
       Some (if ret < 0 then -1 else 0, s3)
     })"

definition makeServerDir :: "u32 \<Rightarrow> os \<Rightarrow> (int \<times> os) option" where
  "makeServerDir serverId s =
    (if serverId = 0 then Some (-1, s)
     else do {
       (ret, s1) \<leftarrow> make_id_dir WALLETDIRHEADER serverId s;
       if ret < 0 then Some (-1, s1) else make_id_dir CERTIDIRHEADER serverId s1
     })"

definition server_initNewServer :: "server_info \<Rightarrow> os \<Rightarrow> (int \<times> os) option" where
  "server_initNewServer info s = do {
     (ret, s1) \<leftarrow> makeFileDir s;
     if ret \<noteq> 0 then Some (-1, s1)
     else do {
       (ret, s2) \<leftarrow> makeServerDir (server_id info) s1;
       if ret \<noteq> 0 then Some (-1, s2) else Some (setServerInfo info 0 s2)
     }
   }"

text \<open>\<^verbatim>\<open>_serverNum\<close>; like \<^verbatim>\<open>_validateId\<close> it does not test whether the structure was read.\<close>

definition serverNum :: "os \<Rightarrow> (u32 \<times> os) option" where
  "serverNum s = (case open_existing SERVERLISTPATH s of
     (None, s1) \<Rightarrow> None
   | (Some sFd, s1) \<Rightarrow> (case read_fd (lseek sFd 0) 40 s1 of
         (None, sFd, s2) \<Rightarrow> None
       | (Some d, sFd, s2) \<Rightarrow> if length d < 4 then None else Some (le_u32 (take 4 d) - 1, s2)))"

section \<open>Command files\<close>

definition countCmdFile :: "dir_ops \<Rightarrow> byte list \<Rightarrow> os \<Rightarrow> int option" where
  "countCmdFile ds dirPath s = (case dir_read ds dirPath s of None \<Rightarrow> Some (-1) | Some es \<Rightarrow> count_tail USEREPUBFILETAIL es 0)"

definition server_countCmdFile :: "dir_ops \<Rightarrow> os \<Rightarrow> int option"
  where "server_countCmdFile ds s = do { ret \<leftarrow> countCmdFile ds EPUBDIR s; Some (if ret = -1 then 0 else ret) }"

text \<open>\<^verbatim>\<open>_getCmdFileName\<close>: the length is read from the entry, also when there is none, and after the directory was closed.\<close>

definition getCmdFileName :: "dir_ops \<Rightarrow> byte list \<Rightarrow> os \<Rightarrow> (byte list ptr \<times> u32 \<times> os) option" where
  "getCmdFileName ds dirPath s = (case dir_read ds dirPath s of
     None \<Rightarrow> Some (NULL, 0, s)
   | Some es \<Rightarrow> do {
       f \<leftarrow> find_tail USEREPUBFILETAIL es;
       name \<leftarrow> f;
       case os_malloc (word_of_nat (length name) + 1) s of
         (None, s1) \<Rightarrow> Some (NULL, 0, s1)
       | (Some p, s1) \<Rightarrow> do { n \<leftarrow> dir_stale ds name; Some (Ptr p (name @ [0]), word_of_nat n, s1) }
     })"

definition mvCmdFileToTempDir :: "buf \<Rightarrow> u32 \<Rightarrow> os \<Rightarrow> (int \<times> os) option" where
  "mvCmdFileToTempDir fileName fileNameLen s =
    (case fileName of None \<Rightarrow> Some (-1, s)
     | Some name \<Rightarrow>
         if fileNameLen = 0 then Some (-1, s)
         else (case os_malloc (ucast (word_of_nat (length EPUBDIR) + fileNameLen)) s of
             (None, s1) \<Rightarrow> Some (-1, s1)
           | (Some p, s1) \<Rightarrow> do {
               b \<leftarrow> wr 0 EPUBDIR (replicate (unat (word_of_nat (length EPUBDIR) + fileNameLen)) 0);
               b \<leftarrow> strncat b name (unat fileNameLen);
               case os_malloc (word_of_nat (length USEREPUBFILEPATH + 1)) s1 of
                 (None, s2) \<Rightarrow> do { s3 \<leftarrow> os_free p s2; Some (-1, s3) }
               | (Some q, s2) \<Rightarrow> (case rename_file (c_str b) USEREPUBFILEPATH s2 of (ret, s3) \<Rightarrow>
                   do { s4 \<leftarrow> os_free p s3; s5 \<leftarrow> os_free q s4; Some (ret, s5) })
             }))"

text \<open>\<^verbatim>\<open>_parseUserEpubFile\<close>: the identifier of the command, the server and a key in a new block with a final 0.  Whenever it
  fails, the last three are 0 and \<^verbatim>\<open>NULL\<close>.\<close>

definition parse_rest :: "byte list \<Rightarrow> file_desc \<Rightarrow> os \<Rightarrow> (int \<times> byte list \<times> u32 \<times> byte list ptr \<times> u32 \<times> os) option" where
  "parse_rest uuidBuf fd s =
    (case read_into fd (u32_le 0) s of (ret, b, fd, s1) \<Rightarrow>
       if ret \<noteq> 4 \<or> le_u32 b > 50000 then Some (-1, uuidBuf, 0, NULL, 0, s1)
       else case read_into fd (u32_le 0) s1 of (ret, l, fd, s2) \<Rightarrow>
         let n = le_u32 l in
         if ret \<noteq> 4 \<or> n > 1024 then Some (-1, uuidBuf, 0, NULL, 0, s2)
         else if n = 0 then Some (0, uuidBuf, le_u32 b, NULL, 0, s2)
         else (case os_malloc (ucast (n + 1)) s2 of
             (None, s3) \<Rightarrow> Some (-1, uuidBuf, 0, NULL, 0, s3)
           | (Some p, s3) \<Rightarrow> (case read_into fd (replicate (unat n) 0) s3 of (ret, k, fd, s4) \<Rightarrow>
               if ret \<noteq> int (unat n) then do { s5 \<leftarrow> os_free p s4; Some (-1, uuidBuf, 0, NULL, 0, s5) }
               else Some (0, uuidBuf, le_u32 b, Ptr p (k @ [0]), n, s4))))"

definition parseUserEpubFile :: "byte list \<Rightarrow> u32 \<Rightarrow> os \<Rightarrow> (int \<times> byte list \<times> u32 \<times> byte list ptr \<times> u32 \<times> os) option" where
  "parseUserEpubFile uuidBuf uuidBufLen s =
    (if uuidBufLen < 32 then Some (-1, uuidBuf, 0, NULL, 0, s)
     else case open_create USEREPUBFILEPATH s of
       (None, s1) \<Rightarrow> Some (-1, uuidBuf, 0, NULL, 0, s1)
     | (Some fd, s1) \<Rightarrow> do {
         uuidBuf \<leftarrow> wr 0 (replicate 32 0) uuidBuf;
         case read_into fd (replicate 32 0) s1 of (ret, u, fd, s2) \<Rightarrow> do {
           uuidBuf \<leftarrow> wr 0 u uuidBuf;
           if ret \<noteq> 32 then Some (-1, uuidBuf, 0, NULL, 0, s2) else parse_rest uuidBuf fd s2
         }
       })"

text \<open>When there is no name or the file cannot be moved, the values of the server and the key are those given.\<close>

definition server_parseCmdFile :: "dir_ops \<Rightarrow> byte list \<Rightarrow> u32 \<Rightarrow> u32 \<Rightarrow> byte list ptr \<Rightarrow> u32 \<Rightarrow> os
    \<Rightarrow> (int \<times> byte list \<times> u32 \<times> byte list ptr \<times> u32 \<times> os) option" where
  "server_parseCmdFile ds uuidBuf uuidBufLen serverId userEpub userEpubLen s = do {
     (f, n, s1) \<leftarrow> getCmdFileName ds EPUBDIR s;
     case f of NULL \<Rightarrow> Some (-1, uuidBuf, serverId, userEpub, userEpubLen, s1)
     | Ptr p name \<Rightarrow> do {
         (ret, s2) \<leftarrow> mvCmdFileToTempDir (Some name) n s1;
         s3 \<leftarrow> os_free p s2;
         if ret = -1 then Some (-1, uuidBuf, serverId, userEpub, userEpubLen, s3)
         else parseUserEpubFile uuidBuf uuidBufLen s3
       }
   }"

section \<open>Secrets\<close>

text \<open>Writing \<^verbatim>\<open>n\<close> bytes and the test that all were written.\<close>

definition put :: "file_desc \<Rightarrow> byte list \<Rightarrow> os \<Rightarrow> bool \<times> file_desc \<times> os" where
  "put fd d s = (case write_all fd d s of (ret, fd1, s1) \<Rightarrow> (ret = int (length d), fd1, s1))"

definition writeDmsgToTempFile :: "buf \<Rightarrow> u32 \<Rightarrow> u32 \<Rightarrow> buf \<Rightarrow> u32 \<Rightarrow> os \<Rightarrow> (int \<times> os) option" where
  "writeDmsgToTempFile uuidBuf uuidBufLen serverId dMsg dMsgLen s =
    (case (uuidBuf, dMsg) of
       (Some u, Some m) \<Rightarrow>
         if uuidBufLen < 32 \<or> serverId = 0 \<or> dMsgLen = 0 then Some (-1, s)
         else (case open_trunc TEMPSECFILEPATH s of
             (None, s1) \<Rightarrow> Some (-1, s1)
           | (Some fd, s1) \<Rightarrow> do {
               u \<leftarrow> rd 32 u;
               case put fd u s1 of (ok, fd, s2) \<Rightarrow>
                 if \<not> ok then Some (-1, s2)
                 else (case put fd (u32_le serverId) s2 of (ok, fd, s3) \<Rightarrow>
                   if \<not> ok then Some (-1, s3)
                   else (case put fd (u32_le dMsgLen) s3 of (ok, fd, s4) \<Rightarrow>
                     if \<not> ok then Some (-1, s4)
                     else do {
                       m \<leftarrow> rd (unat dMsgLen) m;
                       case write_all fd m s4 of (ret, fd, s5) \<Rightarrow> Some (if word_of_int ret \<noteq> dMsgLen then -1 else 0, s5)
                     }))
             })
     | _ \<Rightarrow> Some (-1, s))"

definition checkTempSec :: "os \<Rightarrow> int"
  where "checkTempSec s = access TEMPSECFILEPATH s"

definition mvTempSecToDownloadDir :: "buf \<Rightarrow> u32 \<Rightarrow> u32 \<Rightarrow> os \<Rightarrow> (int \<times> os) option" where
  "mvTempSecToDownloadDir uuidBuf uuidBufLen serverId s =
    (case uuidBuf of None \<Rightarrow> Some (-1, s)
     | Some u \<Rightarrow>
         if uuidBufLen < 32 \<or> serverId = 0 then Some (-1, s)
         else (case os_malloc (word_of_nat (length SECDOWNLOADDIR + 43)) s of
             (None, s1) \<Rightarrow> Some (-1, s1)
           | (Some p, s1) \<Rightarrow> do {
               path \<leftarrow> strncat (replicate (length SECDOWNLOADDIR + 43) 0) SECDOWNLOADDIR (length SECDOWNLOADDIR);
               path \<leftarrow> wr (length SECDOWNLOADDIR) (sprintf_05d serverId @ [0x2d, 0]) path;
               u \<leftarrow> rd 32 u;
               path \<leftarrow> wr (length SECDOWNLOADDIR + 6) u path;
               path \<leftarrow> strncat path (str ''.sec'') 4;
               case rename_file TEMPSECFILEPATH (c_str path) s1 of (ret, s2) \<Rightarrow>
                 do { s3 \<leftarrow> os_free p s2; Some (ret, s3) }
             }))"

text \<open>\<^verbatim>\<open>free\<close> of a pointer that may be \<^verbatim>\<open>NULL\<close>, and the bytes of a block as an argument.\<close>

definition free_ptr :: "byte list ptr \<Rightarrow> os \<Rightarrow> os option"
  where "free_ptr p s = (case p of NULL \<Rightarrow> Some s | Ptr b d \<Rightarrow> os_free b s)"

definition ptr_buf :: "byte list ptr \<Rightarrow> buf"
  where "ptr_buf p = (case p of NULL \<Rightarrow> None | Ptr b d \<Rightarrow> Some d)"

definition secret_genSecFile :: "shell \<Rightarrow> buf \<Rightarrow> u32 \<Rightarrow> buf \<Rightarrow> u32 \<Rightarrow> u32 \<Rightarrow> os \<Rightarrow> (int \<times> os) option" where
  "secret_genSecFile sh secretBuf secretBufLen uuidBuf uuidBufLen serverId s = do {
     (ret, r1, n1, s1) \<leftarrow> user_en_enc_and_en64 sh secretBuf secretBufLen s;
     if ret = -1 then Some (-1, s1)
     else do {
       (ret, r2, n2, s2) \<leftarrow> spc_en_enc_and_en64 sh (ptr_buf r1) n1 s1;
       s3 \<leftarrow> free_ptr r1 s2;
       if ret = -1 then Some (-1, s3)
       else do {
         (ret, s4) \<leftarrow> writeDmsgToTempFile uuidBuf uuidBufLen serverId (ptr_buf r2) n2 s3;
         s5 \<leftarrow> free_ptr r2 s4;
         if ret = -1 \<or> checkTempSec s5 = -1 then Some (-1, s5)
         else mvTempSecToDownloadDir uuidBuf uuidBufLen serverId s5
       }
     }
   }"

section \<open>The three commands\<close>

type_synonym rand_fun = "u32 \<Rightarrow> nat \<Rightarrow> nat"

definition spc_update_satpub :: "u32 \<Rightarrow> byte list \<Rightarrow> os \<Rightarrow> net \<Rightarrow> (os \<times> net) option" where
  "spc_update_satpub serverId uuid s n = do {
     (ret, info, s1) \<leftarrow> server_getServerInfo zero_info serverId s;
     if ret \<noteq> 0 then Some (s1, n)
     else do {
       (ret, s2, n1) \<leftarrow> seed_makeSeed (server_id info) (ucast (server_start info)) (Some uuid) 32 s1 n;
       if ret \<noteq> 0 then Some (s2, n1)
       else do {
         (ret, s3) \<leftarrow> server_setServerInfo (info\<lparr>server_start := server_start info + 10\<rparr>) s2;
         Some (s3, n1)
       }
     }
   }"

definition spc_update_secret :: "shell \<Rightarrow> rand_fun \<Rightarrow> u32 \<Rightarrow> u32 \<Rightarrow> buf \<Rightarrow> u32 \<Rightarrow> byte list \<Rightarrow> os \<Rightarrow> os option" where
  "spc_update_secret sh rand time serverId userEpub userEpubLen uuid s = do {
     (ret, info, s1) \<leftarrow> server_getServerInfo zero_info serverId s;
     if ret \<noteq> 0 then Some s1
     else do {
       (ret, b) \<leftarrow> hotp_getNewSecret rand (Some (replicate 17 0)) 17 time;
       if ret \<noteq> 0 then Some s1
       else do {
         secretBuf \<leftarrow> b;
         secret \<leftarrow> rd 16 secretBuf;
         (ret, s2) \<leftarrow> buffer_to_pem USEREPUBPEMFILEPATH userEpub userEpubLen s1;
         if ret = -1 then Some s2
         else do {
           (ret, s3) \<leftarrow> secret_genSecFile sh (Some secretBuf) 16 (Some uuid) 32 (server_id info) s2;
           if ret = -1 then Some s3
           else do {
             (ret, s4) \<leftarrow> server_setServerInfo (info\<lparr>server_secret := secret, server_counter := 1\<rparr>) s3;
             Some s4
           }
         }
       }
     }
   }"

definition spc_init_server :: "shell \<Rightarrow> rand_fun \<Rightarrow> u32 \<Rightarrow> byte list \<Rightarrow> buf \<Rightarrow> u32 \<Rightarrow> os \<Rightarrow> net \<Rightarrow> (os \<times> net) option" where
  "spc_init_server sh rand time uuid userEpub userEpubLen s n =
    (case server_getNewInfo zero_info s of (ret, info, s1) \<Rightarrow>
       if ret \<noteq> 0 then Some (s1, n)
       else do {
         (ret, n1) \<leftarrow> tcp_gen_new_keystore (server_id info) n;
         if ret = -1 then Some (s1, n1)
         else do {
           (ret, b) \<leftarrow> hotp_getNewSecret rand (Some (replicate 17 0)) 17 time;
           if ret \<noteq> 0 then Some (s1, n1)
           else do {
             secretBuf \<leftarrow> b;
             secret \<leftarrow> rd 16 secretBuf;
             let info = info\<lparr>server_secret := secret\<rparr>;
             (ret, s2) \<leftarrow> server_initNewServer info s1;
             if ret \<noteq> 0 then Some (s2, n1)
             else do {
               (ret, s3, n2) \<leftarrow> seed_makeSeed (server_id info) (ucast (server_start info)) (Some uuid) 32 s2 n1;
               if ret \<noteq> 0 then Some (s3, n2)
               else do {
                 let info = info\<lparr>server_start := server_start info + 10\<rparr>;
                 (ret, s4) \<leftarrow> buffer_to_pem USEREPUBPEMFILEPATH userEpub userEpubLen s3;
                 if ret = -1 then Some (s4, n2)
                 else do {
                   (ret, s5) \<leftarrow> secret_genSecFile sh (Some secretBuf) 16 (Some uuid) 32 (server_id info) s4;
                   if ret = -1 then Some (s5, n2)
                   else do { (ret, s6) \<leftarrow> server_setServerInfo info s5; Some (s6, n2) }
                 }
               }
             }
           }
         }
       })"

section \<open>All commands\<close>

definition do_one_cmd :: "dir_ops \<Rightarrow> shell \<Rightarrow> rand_fun \<Rightarrow> u32 \<Rightarrow> os \<Rightarrow> net \<Rightarrow> (os \<times> net) option" where
  "do_one_cmd ds sh rand time s n = do {
     (ret, uuid, serverId, userEpub, userEpubLen, s1) \<leftarrow> server_parseCmdFile ds (replicate 33 0) 32 0 NULL 0 s;
     (s2, n1) \<leftarrow> (if ret = -1 then Some (s1, n)
       else if serverId = 0 \<and> userEpubLen \<noteq> 0 \<and> userEpub \<noteq> NULL
         then spc_init_server sh rand time uuid (ptr_buf userEpub) userEpubLen s1 n
       else if serverId \<noteq> 0 \<and> userEpubLen \<noteq> 0 \<and> userEpub \<noteq> NULL
         then do { s2 \<leftarrow> spc_update_secret sh rand time serverId (ptr_buf userEpub) userEpubLen uuid s1; Some (s2, n) }
       else if serverId \<noteq> 0 \<and> userEpubLen = 0 then spc_update_satpub serverId uuid s1 n
       else Some (s1, n));
     s3 \<leftarrow> free_ptr userEpub s2;
     Some (s3, n1)
   }"

fun do_cmd_loop :: "dir_ops \<Rightarrow> shell \<Rightarrow> rand_fun \<Rightarrow> (nat \<Rightarrow> u32) \<Rightarrow> nat \<Rightarrow> os \<Rightarrow> net \<Rightarrow> (os \<times> net) option" where
  "do_cmd_loop ds sh rand time 0 s n = Some (s, n)"
| "do_cmd_loop ds sh rand time (Suc k) s n = do {
     (s1, n1) \<leftarrow> do_one_cmd ds sh rand (time k) s n;
     do_cmd_loop ds sh rand time k s1 n1
   }"

definition spc_do_cmd :: "dir_ops \<Rightarrow> shell \<Rightarrow> rand_fun \<Rightarrow> (nat \<Rightarrow> u32) \<Rightarrow> os \<Rightarrow> net \<Rightarrow> (os \<times> net) option" where
  "spc_do_cmd ds sh rand time s n = do { ret \<leftarrow> server_countCmdFile ds s; do_cmd_loop ds sh rand time (nat ret) s n }"

end
