(* ===== verification/Upload_Checks.thy ===== *)
theory Upload_Checks
  imports Upload_Correct
begin

text \<open>The checks of an upload before it is unpacked: a wrong checksum stops it, and reading the signature writes
  beyond a block.\<close>

definition uploaded :: "dir_ops \<Rightarrow> os \<Rightarrow> byte list \<Rightarrow> byte list \<Rightarrow> byte list \<Rightarrow> bool" where
  "uploaded ds s b f c \<longleftrightarrow> (\<exists>es. dir_read ds UPLOADDIR s = Some es \<and> find_tail DATAFILETAIL es = Some (Some (b @ DATAFILETAIL))) \<and>
     dir_stale ds (b @ DATAFILETAIL) = Some 37 \<and> length b = 32 \<and> 0 \<notin> set b \<and>
     files s (UPLOADDIR @ b @ DATAFILETAIL) = Some f \<and> files s (UPLOADDIR @ b @ CHECKFILETAIL) = Some c"

text \<open>What \<^verbatim>\<open>md5sum\<close> prints for a file begins with 32 characters; it changes nothing.\<close>

definition md5_ok :: "shell \<Rightarrow> (byte list \<Rightarrow> byte list) \<Rightarrow> bool" where
  "md5_ok sh md5sum \<longleftrightarrow> (\<forall>f. length (md5sum f) = 32 \<and> 0 \<notin> set (md5sum f)) \<and>
     (\<forall>s path f. files s path = Some f \<longrightarrow> (\<exists>rest. sh_popen sh (str ''md5sum '' @ path) s = (Some (md5sum f @ rest), s)))"

definition check_file :: "byte list \<Rightarrow> byte list \<Rightarrow> byte \<Rightarrow> u32 \<Rightarrow> byte list \<Rightarrow> byte list"
  where "check_file hdr md5 tag n r = hdr @ 0xba # u32_le 32 @ md5 @ tag # u32_le n @ r"

lemma tails [simp]:
  "length DATAFILETAIL = 5" "length CHECKFILETAIL = 9" "0 \<notin> set DATAFILETAIL" "0 \<notin> set CHECKFILETAIL" "0 \<notin> set UPLOADDIR" "length UPLOADDIR = 20"
  by (simp_all add: DATAFILETAIL_def CHECKFILETAIL_def UPLOADDIR_def str_def)

lemma getCheckFileName_ok:
  assumes "no_oom (hp s)" "heap_ok (hp s)" "length b = 32" "0 \<notin> set b"
  shows "\<exists>s'. getCheckFileName (Some ((b @ DATAFILETAIL) @ [0])) 37 (Some (replicate 42 0)) 41 s =
    Some (0, Some ((b @ CHECKFILETAIL) @ [0]), s') \<and> after s (files s) s'"
proof -
  have a: "after (s\<lparr>hp := alloc 1 (hp s)\<rparr>) (files s) (s\<lparr>hp := alloc 1 (hp s)\<rparr>)" using assms(1,2) alloc_ok [of "hp s" 1] by (simp add: after_def)
  note f = after_alloc [OF this assms(2)]
  have 1: "strncat (replicate 47 0) ((b @ DATAFILETAIL) @ [0]) 37 = Some ((b @ DATAFILETAIL) @ replicate 10 0)"
    using strncat_app [of "[]" "b @ DATAFILETAIL" 47 "[0]" 37] assms(3,4) by simp
  have 2: "rd 5 (drop 32 ((b @ DATAFILETAIL) @ replicate 10 0)) = Some DATAFILETAIL" using assms(3) by (simp add: rd_def)
  have 3: "wr 32 CHECKFILETAIL ((b @ DATAFILETAIL) @ replicate 10 0) = Some (b @ CHECKFILETAIL @ replicate 6 0)"
    using wr_app [of b 32 CHECKFILETAIL "DATAFILETAIL @ replicate 10 0"] assms(3) by (simp add: numeral_eq_Suc)
  have 4: "upd_ub 41 0 (b @ CHECKFILETAIL @ replicate 6 0) = Some ((b @ CHECKFILETAIL) @ 0 # replicate 5 0)"
    using assms(3) by (simp add: upd_ub_def list_update_append replicate_Suc [symmetric] numeral_eq_Suc)
  have 5: "strlen ((b @ CHECKFILETAIL) @ 0 # replicate 5 0) = Some 41"
    using strlen_app [of "b @ CHECKFILETAIL" "replicate 5 0"] assms(3,4) by simp
  have 6: "wr 0 (replicate 41 0) (replicate 42 0) = Some (replicate 42 (0 :: byte))" by (simp add: wr_def numeral_eq_Suc)
  have 7: "rd 41 ((b @ CHECKFILETAIL) @ 0 # replicate 5 0) = Some (b @ CHECKFILETAIL)" using assms(3) by (simp add: rd_def)
  have 8: "wr 0 (b @ CHECKFILETAIL) (replicate 42 0) = Some ((b @ CHECKFILETAIL) @ [0])" using assms(3) by (simp add: wr_def numeral_eq_Suc)
  show ?thesis
    using 1 2 3 4 5 6 7 8 f os_malloc_ok [OF assms(1)] by (simp add: getCheckFileName_def)
qed

lemma upload_path_ok:
  assumes "no_oom (hp s)" "length name = n" "n < 2 ^ 16" "0 \<notin> set name"
  shows "upload_path (name @ [0]) (word_of_nat n) s = Some (Some (calls (hp s), UPLOADDIR @ name), s\<lparr>hp := alloc 1 (hp s)\<rparr>)"
proof -
  have u: "unat (word_of_nat n :: u32) = n" using assms(3) by (intro unat_u32_len) simp
  have 1: "strncat (replicate (Suc (20 + n)) 0) UPLOADDIR 20 = Some (UPLOADDIR @ replicate (Suc n) 0)"
    using strncat_app [of "[]" UPLOADDIR "Suc (20 + n)" "[]" 20] by simp
  have 2: "strncat (UPLOADDIR @ replicate (Suc n) 0) (name @ [0]) n = Some (UPLOADDIR @ name @ [0])"
    using strncat_app [of UPLOADDIR name "Suc n" "[0]" n] assms(2,4) by simp
  have 3: "c_str (UPLOADDIR @ name @ [0]) = UPLOADDIR @ name" using c_str_app [of "UPLOADDIR @ name" "[]"] assms(4) by simp
  show ?thesis using 1 2 3 os_malloc_ok [OF assms(1)] by (simp add: upload_path_def u)
qed

lemma open_check_ok:
  assumes s: "disk_ok s" "no_oom (hp s)" "heap_ok (hp s)" and n: "length name = 41" "0 \<notin> set name" and f: "files s (UPLOADDIR @ name) = Some c"
  shows "\<exists>s'. open_check (name @ [0]) 41 s = Some (Some \<lparr>fd_path = UPLOADDIR @ name, fd_off = 0\<rparr>, s') \<and> after s (files s) s'"
proof -
  let ?s1 = "s\<lparr>hp := alloc 1 (hp s)\<rparr>"
  let ?s2 = "steps ?s1 (Suc (io_calls s))"
  have "after ?s1 (files s) ?s2" using s(2,3) alloc_ok [of "hp s" 1] by (simp add: after_def)
  note g = after_alloc [OF this s(3)]
  have p: "upload_path (name @ [0]) 41 s = Some (Some (calls (hp s), UPLOADDIR @ name), ?s1)"
    using upload_path_ok [OF s(2) n(1) _ n(2)] by simp
  have o: "open_existing (UPLOADDIR @ name) ?s1 = (Some \<lparr>fd_path = UPLOADDIR @ name, fd_off = 0\<rparr>, ?s2)"
    using open_existing_disk [of ?s1 "UPLOADDIR @ name" c] s(1) f by simp
  have "access (UPLOADDIR @ name) ?s1 = 0" using access_upd [of ?s1] f by simp
  then show ?thesis using p o g(2,3) by (simp add: open_check_def)
qed

lemma read_head_ok:
  assumes "disk_ok s" "files s p = Some (pre @ tag # u32_le n @ post)"
  shows "read_head (length pre) tag \<lparr>fd_path = p, fd_off = off\<rparr> s =
    (Some n, \<lparr>fd_path = p, fd_off = length pre + 5\<rparr>, steps s (Suc (Suc (io_calls s))))"
proof -
  have r1: "read_into \<lparr>fd_path = p, fd_off = length pre\<rparr> [0] s = (1, [tag], \<lparr>fd_path = p, fd_off = Suc (length pre)\<rparr>, steps s (Suc (io_calls s)))"
    using read_into_disk [of s p _ pre "[tag]" "u32_le n @ post" "length pre" "[0]"] assms by simp
  have r2: "read_into \<lparr>fd_path = p, fd_off = Suc (length pre)\<rparr> (u32_le 0) (steps s i) =
      (4, u32_le n, \<lparr>fd_path = p, fd_off = length pre + 5\<rparr>, steps s (Suc i))" for i
    using read_into_disk [of "steps s i" p _ "pre @ [tag]" "u32_le n" post "Suc (length pre)" "u32_le 0"] assms by simp
  show ?thesis using r1 r2 by (simp add: read_head_def lseek_def wire_simps)
qed

lemma getMd5_ok:
  assumes s: "disk_ok s" "no_oom (hp s)" "heap_ok (hp s)" and n: "length name = 41" "0 \<notin> set name"
    and f: "files s (UPLOADDIR @ name) = Some (check_file hdr md5 tag n r)" "length hdr = 9" "length md5 = 32"
  shows "\<exists>s'. getMd5 (Some (name @ [0])) 41 (Some (replicate 33 0)) 32 s = Some (0, Some (md5 @ [0]), s') \<and> after s (files s) s'"
proof -
  let ?p = "UPLOADDIR @ name" and ?r = "tag # u32_le n @ r"
  obtain s1 where s1: "open_check (name @ [0]) 41 s = Some (Some \<lparr>fd_path = ?p, fd_off = 0\<rparr>, s1)" "after s (files s) s1"
    using open_check_ok [OF s n f(1)] by blast
  note t = afterD [OF s1(2)]
  have d: "disk_ok s1" "files s1 ?p = Some (hdr @ 0xba # u32_le 32 @ (md5 @ ?r))" using s(1) t f(1) by (simp_all add: check_file_def)
  have h: "read_head 9 0xba \<lparr>fd_path = ?p, fd_off = 0\<rparr> s1 = (Some 32, \<lparr>fd_path = ?p, fd_off = 14\<rparr>, steps s1 (Suc (Suc (io_calls s1))))"
    using read_head_ok [OF d, of 0] f(2) by simp
  have m: "read_into \<lparr>fd_path = ?p, fd_off = 14\<rparr> (replicate 32 0) (steps s1 i) = (32, md5, \<lparr>fd_path = ?p, fd_off = 46\<rparr>, steps s1 (Suc i))" for i
    using read_into_disk [of "steps s1 i" ?p _ "hdr @ 0xba # u32_le 32" md5 ?r 14 "replicate 32 0"] d f(2,3) by simp
  have w: "wr 0 md5 (replicate 33 0) = Some (md5 @ [0])" using f(3) by (simp add: wr_def numeral_eq_Suc)
  show ?thesis using s1 h m w by (simp add: getMd5_def)
qed

lemma genMd5_ok:
  assumes s: "no_oom (hp s)" "heap_ok (hp s)" and n: "length name = 37" "0 \<notin> set name" and sh: "md5_ok sh md5sum"
    and f: "files s (UPLOADDIR @ name) = Some f"
  shows "\<exists>s'. genMd5 sh (Some (name @ [0])) 37 (Some (replicate 33 0)) 32 s = Some (0, Some (md5sum f @ [0]), s') \<and> after s (files s) s'"
proof -
  let ?p = "UPLOADDIR @ name" and ?m = "str ''md5sum ''" and ?h = "hp s"
  let ?s1 = "s\<lparr>hp := alloc 1 ?h\<rparr>"
  let ?s2 = "s\<lparr>hp := alloc 1 (alloc 1 ?h)\<rparr>"
  let ?s3 = "s\<lparr>hp := (alloc 1 (alloc 1 ?h))\<lparr>live := live (alloc 1 (alloc 1 ?h)) - {calls ?h}\<rparr>\<rparr>"
  let ?s4 = "?s3\<lparr>hp := (hp ?s3)\<lparr>live := live (hp ?s3) - {Suc (calls ?h)}\<rparr>\<rparr>"
  have p: "upload_path (name @ [0]) 37 s = Some (Some (calls ?h, ?p), ?s1)" using upload_path_ok [OF s(1) n(1) _ n(2)] by simp
  have a: "access ?p ?s1 = 0" using access_upd [of ?s1] f by simp
  have m: "os_malloc z ?s1 = (Some (Suc (calls ?h)), ?s2)" for z
    using os_malloc_ok [of ?s1 z] alloc_ok(1) [OF s(1), of 1] by (simp add: calls_alloc)
  have c0: "0 \<notin> set ?m" "length ?m = 7" by (simp_all add: str_def)
  have c1: "strncat (replicate 69 0) ?m 7 = Some (?m @ replicate 62 0)"
    using strncat_app [of "[]" ?m 69 "[]" 7] c0 by simp
  have c2: "strncat (?m @ replicate 62 0) ?p 57 = Some (?m @ ?p @ replicate 5 0)"
    using strncat_app [of ?m ?p 62 "[]" 57] c0 n by simp
  have c3: "c_str (?m @ ?p @ replicate 5 0) = ?m @ ?p" using c_str_app [of "?m @ ?p" "replicate 4 0"] c0 n by (simp add: numeral_eq_Suc)
  have b1: "calls ?h \<in> live (hp ?s2)" by (simp add: alloc_def)
  have b2: "Suc (calls ?h) \<in> live (hp ?s3)" by (simp add: alloc_def)
  have "files ?s3 ?p = Some f" using f by simp
  then obtain rest where o: "sh_popen sh (?m @ ?p) ?s3 = (Some (md5sum f @ rest), ?s3)" using sh unfolding md5_ok_def by blast
  have l: "length (md5sum f) = 32" using sh by (simp add: md5_ok_def)
  have w1: "wr 0 (replicate 32 0) (replicate 33 0) = Some (replicate 33 (0 :: byte))" by (simp add: wr_def numeral_eq_Suc)
  have w2: "wr 0 (md5sum f) (replicate 33 0) = Some (md5sum f @ [0])" using l by (simp add: wr_def numeral_eq_Suc)
  have l57: "length ?p = 57" using n by simp
  have "genMd5 sh (Some (name @ [0])) 37 (Some (replicate 33 0)) 32 s = Some (0, Some (md5sum f @ [0]), ?s4)"
    using p a m c1 c2 c3 os_free_ok [OF b1] os_free_ok [OF b2] o l w1 w2 by (simp add: genMd5_def n(1))
  moreover have "after s (files s) ?s4" using s by (auto simp: after_def alloc_def no_oom_def heap_ok_def)
  ultimately show ?thesis by blast
qed

section \<open>The comparison of the checksums\<close>

lemma same_md5:
  assumes "length a = 32" "0 \<notin> set b" "length b = 32"
  shows "take 32 (c_str (a @ [0])) = take 32 (c_str (b @ [0])) \<longleftrightarrow> a = b"
proof -
  have b: "c_str (b @ [0]) = b" using c_str_app [OF assms(2), of "[]"] by simp
  show ?thesis
  proof (cases "0 \<in> set a")
    case True
    then have "length (takeWhile (\<lambda>x. x \<noteq> 0) a) < 32" using takeWhile_less_length [of 0 a "\<lambda>x. x \<noteq> 0"] assms(1) by simp
    moreover have "c_str (a @ [0]) = takeWhile (\<lambda>x. x \<noteq> 0) a" using True by (auto simp: c_str_def takeWhile_append)
    ultimately show ?thesis using b assms True by auto
  next
    case False
    then show ?thesis using b c_str_app [OF False, of "[]"] assms by simp
  qed
qed

text \<open>Up to the comparison.\<close>

lemma process_to_md5:
  assumes up: "uploaded ds s b f (check_file hdr md5 tag n r)" "length hdr = 9" "length md5 = 32" and sh: "md5_ok sh md5sum"
    and s: "disk_ok s" "no_oom (hp s)" "heap_ok (hp s)"
  shows "\<exists>s'. after (s\<lparr>hp := alloc 1 (hp s)\<rparr>) (files s) s' \<and> prepare_processDataFile ds sh eintr s =
    (if md5 \<noteq> md5sum f then do { s5 \<leftarrow> os_free (calls (hp s)) s'; Some (-1, s5) }
     else check_and_unpack sh eintr (calls (hp s)) ((b @ DATAFILETAIL) @ [0]) 37 ((b @ CHECKFILETAIL) @ [0]) (md5 @ [0]) s')"
proof -
  note u = up(1) [unfolded uploaded_def]
  let ?n = "b @ DATAFILETAIL" and ?c = "b @ CHECKFILETAIL" and ?s1 = "s\<lparr>hp := alloc 1 (hp s)\<rparr>"
  have b: "length b = 32" "0 \<notin> set b" using u by blast+
  then have n: "length ?n = 37" "0 \<notin> set ?n" "length ?c = 41" "0 \<notin> set ?c" by simp_all
  have s1: "disk_ok ?s1" "no_oom (hp ?s1)" "heap_ok (hp ?s1)" using s alloc_ok [of "hp s" 1] by simp_all
  have fd: "findDataFile ds UPLOADDIR s = Some (Ptr (calls (hp s)) (?n @ [0]), 37, ?s1)"
    using u os_malloc_ok [OF s(2)] by (auto simp: findDataFile_def)
  obtain s2 where s2: "getCheckFileName (Some (?n @ [0])) 37 (Some (replicate 42 0)) 41 ?s1 = Some (0, Some (?c @ [0]), s2)" "after ?s1 (files ?s1) s2"
    using getCheckFileName_ok [OF s1(2,3) b] by blast
  note t2 = afterD [OF s2(2)]
  have "disk_ok s2" "files s2 (UPLOADDIR @ ?c) = Some (check_file hdr md5 tag n r)" using s1(1) t2 u by simp_all
  from getMd5_ok [OF this(1) t2(4,5) n(3,4) this(2) up(2,3)] obtain s3 where
    s3: "getMd5 (Some (?c @ [0])) 41 (Some (replicate 33 0)) 32 s2 = Some (0, Some (md5 @ [0]), s3)" "after s2 (files s2) s3" by blast
  note t3 = afterD [OF s3(2)]
  have "files s3 (UPLOADDIR @ ?n) = Some f" using t3 t2 u by simp
  from genMd5_ok [OF t3(4,5) n(1,2) sh this] obtain s4 where
    s4: "genMd5 sh (Some (?n @ [0])) 37 (Some (replicate 33 0)) 32 s3 = Some (0, Some (md5sum f @ [0]), s4)" "after s3 (files s3) s4" by blast
  have l: "strlen (?n @ [0]) = Some 37" "strlen (?c @ [0]) = Some 41" using strlen_app [OF n(2), of "[]"] strlen_app [OF n(4), of "[]"] n by simp_all
  have a: "after ?s1 (files s) s4" using after_trans [OF after_trans [OF s2(2) s3(2)] s4(2)] t2(1) t3(1) by simp
  have "length (md5sum f) = 32" "0 \<notin> set (md5sum f)" using sh by (simp_all add: md5_ok_def)
  note m = same_md5 [OF up(3) this(2,1)]
  show ?thesis using a fd s2(1) s3(1) s4(1) l m by (intro exI [of _ s4]) (simp add: prepare_processDataFile_def del: append_assoc)
qed

text \<open>An upload whose checksum file holds another checksum than that of the data file is refused: -1 is returned, no
  file and no directory has changed, and the block with the name is freed.\<close>

lemma upload_rejected:
  assumes "uploaded ds s b f (check_file hdr md5 tag n r)" "length hdr = 9" "length md5 = 32" "md5_ok sh md5sum"
    and "disk_ok s" "no_oom (hp s)" "heap_ok (hp s)" and "md5 \<noteq> md5sum f"
  shows "\<exists>s'. prepare_processDataFile ds sh eintr s = Some (-1, s') \<and> files s' = files s \<and> dirs s' = dirs s \<and> heap_ok (hp s')"
proof -
  obtain s' where a: "after (s\<lparr>hp := alloc 1 (hp s)\<rparr>) (files s) s'"
    and p: "prepare_processDataFile ds sh eintr s = do { s5 \<leftarrow> os_free (calls (hp s)) s'; Some (-1, s5) }"
    using process_to_md5 [OF assms(1-7), of eintr] assms(8) by auto
  note f = after_alloc [OF a assms(7)]
  show ?thesis using p f(2) afterD(1,2,5) [OF f(3)] by simp
qed

text \<open>C20: An upload that passes the comparison of the checksums and has a signature makes the program write one byte
  beyond the block of the signature, so that its further behaviour is undefined.\<close>

theorem upload_overflows:
  assumes "uploaded ds s b f (check_file hdr md5 0xca n r)" "length hdr = 9" "length md5 = 32" "md5_ok sh md5sum"
    and "disk_ok s" "no_oom (hp s)" "heap_ok (hp s)" and "md5 = md5sum f" "0 < n" "n \<le> 1024"
  shows "prepare_processDataFile ds sh eintr s = None"
proof -
  obtain s' where a: "after (s\<lparr>hp := alloc 1 (hp s)\<rparr>) (files s) s'"
    and p: "prepare_processDataFile ds sh eintr s =
      check_and_unpack sh eintr (calls (hp s)) ((b @ DATAFILETAIL) @ [0]) 37 ((b @ CHECKFILETAIL) @ [0]) (md5 @ [0]) s'"
    using process_to_md5 [OF assms(1-7), of eintr] assms(8) by auto
  let ?c = "b @ CHECKFILETAIL" and ?p = "UPLOADDIR @ b @ CHECKFILETAIL"
  note u = assms(1) [unfolded uploaded_def]
  have b: "length ?c = 41" "0 \<notin> set ?c" using u by simp_all
  have l: "strlen (?c @ [0]) = Some 41" using strlen_app [OF b(2), of "[]"] b(1) by simp
  note t = afterD [OF a]
  have f: "files s' (UPLOADDIR @ ?c) = Some (check_file hdr md5 0xca n r)" "disk_ok s'" using u t assms(5) by simp_all
  obtain s1 where s1: "open_check (?c @ [0]) 41 s' = Some (Some \<lparr>fd_path = ?p, fd_off = 0\<rparr>, s1)" "after s' (files s') s1"
    using open_check_ok [OF f(2) t(4,5) b f(1)] by blast
  note t1 = afterD [OF s1(2)]
  have d: "disk_ok s1" "files s1 ?p = Some ((hdr @ 0xba # u32_le 32 @ md5) @ 0xca # u32_le n @ r)"
    using f t1 by (simp_all add: check_file_def)
  have h: "read_head 46 0xca \<lparr>fd_path = ?p, fd_off = 0\<rparr> s1 = (Some n, \<lparr>fd_path = ?p, fd_off = 51\<rparr>, steps s1 (Suc (Suc (io_calls s1))))"
    using read_head_ok [OF d, of 0] assms(2,3) by simp
  have m: "os_malloc z (steps s1 i) = (Some (calls (hp s1)), (steps s1 i)\<lparr>hp := alloc 1 (hp s1)\<rparr>)" for z i
    using os_malloc_ok [of "steps s1 i" z] t1(4) by simp
  have n: "n \<noteq> 0" "\<not> n > 1024" using assms(9,10) by auto
  have "wr 0 (replicate (Suc (unat n)) 0) (replicate (unat n) (0 :: byte)) = None" by (simp add: wr_def)
  then have "getSig (Some (?c @ [0])) 41 s' = None" using s1(1) h m n by (simp add: getSig_def)
  then show ?thesis using p l by (simp add: check_and_unpack_def)
qed

section \<open>An upload\<close>

definition demo_base :: "byte list" where "demo_base = replicate 32 0x41"
definition demo_ds :: dir_ops where
  "demo_ds = \<lparr>dir_read = \<lambda>p s. Some [([1, 0, 0, 0, 2, 0, 0, 0, 16, 0, 4], [0x2e]), ([], demo_base @ DATAFILETAIL)], dir_stale = \<lambda>n. Some (length n)\<rparr>"

definition sum_shell :: shell
  where "sum_shell = \<lparr>sh_system = \<lambda>c s. s, sh_popen = \<lambda>c s. (map_option (\<lambda>f. replicate 32 (if f = [] then 1 else 2)) (files s (drop 7 c)), s)\<rparr>"

definition check_disk :: "byte \<Rightarrow> os" where
  "check_disk x = upload_disk\<lparr>files := [UPLOADDIR @ demo_base @ DATAFILETAIL \<mapsto> [1],
     UPLOADDIR @ demo_base @ CHECKFILETAIL \<mapsto> check_file (replicate 9 0) (replicate 32 x) 0xca 5 []]\<rparr>"

lemma sum_shell_ok: "md5_ok sum_shell (\<lambda>f. replicate 32 (if f = [] then 1 else 2))"
  by (simp add: md5_ok_def sum_shell_def str_def)

lemma check_disk_uploaded: "uploaded demo_ds (check_disk x) demo_base [1] (check_file (replicate 9 0) (replicate 32 x) 0xca 5 [])"
proof -
  have "DATAFILETAIL \<noteq> CHECKFILETAIL" by (rule contrapos_nn [of "length DATAFILETAIL = length CHECKFILETAIL"]) simp_all
  moreover have "has_tail DATAFILETAIL ([1, 0, 0, 0, 2, 0, 0, 0, 16, 0, 4], [0x2e]) = Some False"
    by (simp add: has_tail_def DATAFILETAIL_def str_def)
  moreover have "has_tail DATAFILETAIL ([], demo_base @ DATAFILETAIL) = Some True" by (simp add: has_tail_def demo_base_def)
  ultimately show ?thesis by (simp add: uploaded_def demo_ds_def check_disk_def) (simp add: demo_base_def)
qed

lemma upload_overflows_witness: "prepare_processDataFile demo_ds sum_shell (\<lambda>_. False) (check_disk 2) = None"
  by (rule upload_overflows [OF check_disk_uploaded _ _ sum_shell_ok]) (simp_all add: check_disk_def upload_disk_def disk_ok_def)

end
