(* ===== verification/Commands_Correct.thy ===== *)
theory Commands_Correct
  imports Commands Upload_Checks Server_List_Correct Keystore_Correct Hotp_Correct
begin

text \<open>The commands on a disk that works: command files, new secrets, and what is left of a new server when the node
  does not answer.\<close>

section \<open>Command files\<close>

definition command_file :: "byte list \<Rightarrow> u32 \<Rightarrow> byte list \<Rightarrow> byte list"
  where "command_file uuid serverId key = uuid @ u32_le serverId @ u32_le (word_of_nat (length key)) @ key"

definition key_ptr :: "nat \<Rightarrow> byte list \<Rightarrow> byte list ptr"
  where "key_ptr b key = (if key = [] then NULL else Ptr b (key @ [0]))"

lemma open_create_file:
  assumes "disk_ok s" "dirname p \<in> dirs s" "files s p = Some f"
  shows "open_create p s = (Some \<lparr>fd_path = p, fd_off = 0\<rparr>, steps s (Suc (io_calls s)))"
proof -
  obtain k where "io_step s = (Some k, steps s (Suc (io_calls s)))" using assms(1) by (rule io_step_disk)
  then show ?thesis using assms(2,3) by (simp add: open_create_def dom_def)
qed

lemma read_at:
  assumes "disk_ok s" "files s p = Some (pre @ d @ post)" "length x = length d" "length d < 2 ^ 32" "length pre = k"
  shows "read_into \<lparr>fd_path = p, fd_off = k\<rparr> x s =
    (int (length d), d, \<lparr>fd_path = p, fd_off = k + length d\<rparr>, steps s (Suc (io_calls s)))"
  using read_into_disk [OF assms(1,2) refl assms(5), of x] assms(3,4) by simp

lemma parse_command_ok:
  assumes s: "disk_ok s" "no_oom (hp s)" "dirname USEREPUBFILEPATH \<in> dirs s"
    and f: "files s USEREPUBFILEPATH = Some (command_file uuid n key @ r)" and n: "n \<le> 50000" "length uuid = 32" "length key \<le> 1024"
  shows "\<exists>s' b. parseUserEpubFile (replicate 33 0) 32 s = Some (0, uuid @ [0], n, key_ptr b key, word_of_nat (length key), s') \<and>
    files s' = files s \<and> dirs s' = dirs s"
proof -
  let ?n = "word_of_nat (length key) :: u32" and ?i = "io_calls s" and ?p = USEREPUBFILEPATH
  have u: "unat ?n = length key" using n(3) by (intro unat_u32_len) simp
  have k: "\<not> ?n > 1024" "(?n = 0) = (key = [])" using u n(3) by (simp_all add: word_less_nat_alt unat_eq_0 [symmetric])
  have f': "files s ?p = Some ([] @ uuid @ u32_le n @ u32_le ?n @ key @ r)" using f by (simp add: command_file_def)
  have r1: "read_into \<lparr>fd_path = ?p, fd_off = 0\<rparr> (replicate 32 0) (steps s j) = (32, uuid, \<lparr>fd_path = ?p, fd_off = 32\<rparr>, steps s (Suc j))" for j
    using read_at [of "steps s j" ?p "[]" uuid "u32_le n @ u32_le ?n @ key @ r" "replicate 32 0" 0] s(1) f' n(2) by simp
  have r2: "read_into \<lparr>fd_path = ?p, fd_off = 32\<rparr> (u32_le 0) (steps s j) = (4, u32_le n, \<lparr>fd_path = ?p, fd_off = 36\<rparr>, steps s (Suc j))" for j
    using read_at [of "steps s j" ?p uuid "u32_le n" "u32_le ?n @ key @ r" "u32_le 0" 32] s(1) f' n(2) by simp
  have r3: "read_into \<lparr>fd_path = ?p, fd_off = 36\<rparr> (u32_le 0) (steps s j) = (4, u32_le ?n, \<lparr>fd_path = ?p, fd_off = 40\<rparr>, steps s (Suc j))" for j
    using read_at [of "steps s j" ?p "uuid @ u32_le n" "u32_le ?n" "key @ r" "u32_le 0" 36] s(1) f' n(2) by simp
  let ?t = "(steps s (Suc (Suc (Suc (Suc ?i)))))\<lparr>hp := alloc 1 (hp s)\<rparr>"
  have r4: "read_into \<lparr>fd_path = ?p, fd_off = 40\<rparr> (replicate (length key) 0) ?t =
      (int (length key), key, \<lparr>fd_path = ?p, fd_off = 40 + length key\<rparr>, steps ?t (Suc (Suc (Suc (Suc (Suc ?i))))))"
    using read_at [of ?t ?p "uuid @ u32_le n @ u32_le ?n" key r "replicate (length key) 0" 40] s(1) f' n(2,3) by simp
  have m: "os_malloc z (steps s j) = (Some (calls (hp s)), (steps s j)\<lparr>hp := alloc 1 (hp s)\<rparr>)" for z j
    using os_malloc_ok [of "steps s j" z] s(2) by simp
  have w: "wr 0 (replicate 32 0) (replicate 33 0) = Some (replicate 33 (0 :: byte))" "wr 0 uuid (replicate 33 0) = Some (uuid @ [0])"
    using wr_0 [of "replicate 32 (0 :: byte)" "replicate 33 0"] wr_0 [of uuid "replicate 33 0"] n(2)
    by (simp_all add: replicate_add [symmetric, of 32 1, simplified] eval_nat_numeral)
  have n': "\<not> n > 50000" using n(1) by simp
  note c = open_create_file [OF s(1,3) f] r1 r2 r3
  show ?thesis
  proof (cases "key = []")
    case True
    then show ?thesis using c w n' k by (simp add: parseUserEpubFile_def parse_rest_def Let_def key_ptr_def wire_simps)
  next
    case False
    then show ?thesis using c w n' k m r4 u by (simp add: parseUserEpubFile_def parse_rest_def Let_def key_ptr_def wire_simps)
  qed
qed

section \<open>The path of a command file\<close>

text \<open>A directory with a command file, whose entries are as the code expects, and whose memory is still there after it
  was closed.\<close>

definition command_dir :: "dir_ops \<Rightarrow> os \<Rightarrow> dir_entry list \<Rightarrow> bool" where
  "command_dir ds s es \<longleftrightarrow> dir_read ds EPUBDIR s = Some es \<and> (\<forall>e\<in>set es. has_tail USEREPUBFILETAIL e \<noteq> None) \<and>
     (\<exists>e\<in>set es. has_tail USEREPUBFILETAIL e = Some True) \<and>
     (\<forall>(b, n)\<in>set es. n \<noteq> [] \<and> 0 \<notin> set n \<and> length n < 256 \<and> dir_stale ds n = Some (length n))"

lemma count_tail_pos:
  assumes "\<forall>e\<in>set es. has_tail t e \<noteq> None"
  shows "\<exists>m. count_tail t es n = Some m \<and> n \<le> m \<and> ((\<exists>e\<in>set es. has_tail t e = Some True) \<longrightarrow> n < m)"
  using assms
proof (induction es arbitrary: n)
  case (Cons e es)
  have "has_tail t e \<noteq> None" using Cons.prems by simp
  then obtain b where b: "has_tail t e = Some b" by blast
  have p: "\<forall>e\<in>set es. has_tail t e \<noteq> None" using Cons.prems by simp
  obtain m1 where m1: "count_tail t es (n + 1) = Some m1" "n + 1 \<le> m1" using Cons.IH [OF p, of "n + 1"] by blast
  obtain m where m: "count_tail t es n = Some m" "n \<le> m" "(\<exists>e\<in>set es. has_tail t e = Some True) \<longrightarrow> n < m" using Cons.IH [OF p, of n] by blast
  show ?case
  proof (cases b)
    case True
    then show ?thesis using b m1 by simp
  next
    case False
    then show ?thesis using b m by simp
  qed
qed simp

lemma find_tail_in:
  assumes "\<forall>e\<in>set es. has_tail t e \<noteq> None" "\<exists>e\<in>set es. has_tail t e = Some True"
  shows "\<exists>b n. (b, n) \<in> set es \<and> find_tail t es = Some (Some n)"
  using assms
proof (induction es)
  case (Cons e es)
  have "has_tail t e \<noteq> None" using Cons.prems by simp
  then obtain b where b: "has_tail t e = Some b" by blast
  show ?case
  proof (cases b)
    case True
    then show ?thesis using b by (intro exI [of _ "fst e"] exI [of _ "snd e"]) simp
  next
    case False
    then obtain b' n where "(b', n) \<in> set es" "find_tail t es = Some (Some n)" using Cons.IH Cons.prems b by auto
    then show ?thesis using b False by auto
  qed
qed simp

lemma mv_command_overflows:
  assumes "no_oom (hp s)" "n \<noteq> []" "0 \<notin> set n" "length n < 256"
  shows "mvCmdFileToTempDir (Some (n @ [0])) (word_of_nat (length n)) s = None"
proof -
  have e: "length EPUBDIR = 25" "0 \<notin> set EPUBDIR" by code_simp+
  let ?n = "word_of_nat (length n) :: u32"
  have u: "unat ?n = length n" using assms(4) by (intro unat_u32_len) simp
  have nz: "?n \<noteq> 0" using u assms(2) by (metis length_0_conv unat_0)
  have l: "unat (25 + ?n) = 25 + length n"
    using assms(4) unat_u32_len [of "25 + length n"] by simp
  obtain k where k: "length n = Suc k" using assms(2) by (cases n) auto
  let ?b = "EPUBDIR @ 0 # replicate k 0"
  have w: "wr 0 EPUBDIR (replicate (25 + length n) 0) = Some ?b"
    using wr_0 [of EPUBDIR "replicate (25 + length n) 0"] e(1) k by simp
  have "strncat ?b (n @ [0]) (length n) = None"
    using strlen_app [OF e(2), of "replicate k 0"] c_str_app [OF assms(3), of "[]"] e(1) k by (simp add: strncat_def wr_def)
  then show ?thesis
    using nz os_malloc_ok [OF assms(1)] w by (simp add: mvCmdFileToTempDir_def u l e(1))
qed

lemma do_one_cmd_overflows:
  assumes d: "command_dir ds s es" and h: "no_oom (hp s)"
  shows "do_one_cmd ds sh rand time s n = None"
proof -
  note c = d [unfolded command_dir_def]
  obtain b m where m: "(b, m) \<in> set es" "find_tail USEREPUBFILETAIL es = Some (Some m)"
    using find_tail_in [of es USEREPUBFILETAIL] c by blast
  then have k: "m \<noteq> []" "0 \<notin> set m" "length m < 256" "dir_stale ds m = Some (length m)" using c by auto
  have "no_oom (hp (s\<lparr>hp := alloc 1 (hp s)\<rparr>))" using alloc_ok(1) [OF h] by simp
  from mv_command_overflows [OF this k(1-3)]
  show ?thesis using c m(2) k(4) os_malloc_ok [OF h] by (simp add: do_one_cmd_def server_parseCmdFile_def getCmdFileName_def)
qed

text \<open>C23: As soon as there is a command file \<^verbatim>\<open>spc_do_cmd\<close> writes one byte beyond the block it allocates for the path of the
  file, so that its further behaviour is undefined, also when the memory of a closed directory can still be read.\<close>

theorem command_overflows:
  assumes "command_dir ds s es" "no_oom (hp s)"
  shows "spc_do_cmd ds sh rand time s n = None"
proof -
  note c = assms(1) [unfolded command_dir_def]
  obtain m where m: "count_tail USEREPUBFILETAIL es 0 = Some m" "0 < m" using count_tail_pos [of es USEREPUBFILETAIL 0] c by blast
  then obtain k where "nat m = Suc k" by (metis nat_0_iff not_less old.nat.exhaust)
  then show ?thesis
    using m c do_one_cmd_overflows [OF assms] by (simp add: spc_do_cmd_def server_countCmdFile_def countCmdFile_def)
qed

section \<open>The file with a new secret\<close>

lemma sprintf_05d_eq:
  assumes "n \<le> 99999"
  shows "sprintf_05d n = padded 5 (unat n)" "length (padded 5 (unat n)) = 5" "0 \<notin> set (padded 5 (unat n))" "0x2f \<notin> set (padded 5 (unat n))"
proof -
  have u: "unat n \<le> 99999" using assms by (simp add: word_le_nat_alt)
  have "uint n \<le> 99999" using assms by (simp add: word_le_def)
  moreover have "- 2147483648 \<le> uint n" using uint_ge_0 [of n] by linarith
  ultimately have "sint n = uint n" by (simp add: sint_uint signed_take_bit_int_eq_self)
  then show "sprintf_05d n = padded 5 (unat n)" by (simp add: sprintf_05d_def padded_def Let_def)
  have "length (dec_digits (unat n)) \<le> 5" using u by (simp add: length_dec_digits)
  then show "length (padded 5 (unat n)) = 5" by (simp add: padded_def)
  show "0 \<notin> set (padded 5 (unat n))" "0x2f \<notin> set (padded 5 (unat n))"
    using dec_digits_chars [of 0 "unat n"] dec_digits_chars [of "0x2f" "unat n"] by (auto simp: padded_def)
qed

definition sec_path :: "byte list \<Rightarrow> u32 \<Rightarrow> byte list"
  where "sec_path uuid n = SECDOWNLOADDIR @ padded 5 (unat n) @ [0x2d] @ uuid @ str ''.sec''"

definition sec_file :: "byte list \<Rightarrow> u32 \<Rightarrow> byte list \<Rightarrow> byte list"
  where "sec_file uuid n m = uuid @ u32_le n @ u32_le (word_of_nat (length m)) @ m"

lemma put_end:
  assumes "disk_ok s" "files s p = Some f" "length d < 2 ^ 32" "length f = k"
  shows "put \<lparr>fd_path = p, fd_off = k\<rparr> d s =
    (True, \<lparr>fd_path = p, fd_off = k + length d\<rparr>, disk s (Suc (io_calls s)) ((files s)(p \<mapsto> f @ d)))"
  using write_end [OF assms(1-3)] assms(4) by (simp add: put_def)

lemma writeDmsg_ok:
  assumes s: "disk_ok s" "dirname TEMPSECFILEPATH \<in> dirs s" and u: "length uuid = 32" "n \<noteq> 0" and m: "m \<noteq> []" "length m < 2 ^ 32"
  shows "\<exists>k. writeDmsgToTempFile (Some (uuid @ r)) 32 n (Some m) (word_of_nat (length m)) s =
    Some (0, disk s k ((files s)(TEMPSECFILEPATH \<mapsto> sec_file uuid n m)))"
proof -
  let ?n = "word_of_nat (length m) :: u32" and ?p = TEMPSECFILEPATH and ?i = "io_calls s"
  let ?d = "\<lambda>j f. disk s j ((files s)(?p \<mapsto> f))"
  have um: "unat ?n = length m" using m(2) by (intro unat_u32_len) simp
  then have nz: "?n \<noteq> 0" using m(1) by (metis length_0_conv unat_0)
  have w: "put \<lparr>fd_path = ?p, fd_off = length f\<rparr> d (?d j f) = (True, \<lparr>fd_path = ?p, fd_off = length f + length d\<rparr>, ?d (Suc j) (f @ d))"
    if "length d < 2 ^ 32" for d j f
    using put_end [of "?d j f" ?p f d] s(1) that by simp
  have wm: "write_all \<lparr>fd_path = ?p, fd_off = length f\<rparr> m (?d j f) =
      (int (length m), \<lparr>fd_path = ?p, fd_off = length f + length m\<rparr>, ?d (Suc j) (f @ m))" for j f
    using write_end [of "?d j f" ?p f m] s(1) m(2) by simp
  have l: "length uuid < 2 ^ 32" "length (u32_le x) < 2 ^ 32" for x using u(1) by simp_all
  have w1: "put \<lparr>fd_path = ?p, fd_off = 0\<rparr> uuid (?d j []) = (True, \<lparr>fd_path = ?p, fd_off = 32\<rparr>, ?d (Suc j) uuid)" for j
    using w [OF l(1), of "[]"] u(1) by simp
  have w2: "put \<lparr>fd_path = ?p, fd_off = 32\<rparr> (u32_le n) (?d j uuid) = (True, \<lparr>fd_path = ?p, fd_off = 36\<rparr>, ?d (Suc j) (uuid @ u32_le n))" for j
    using w [OF l(2), of uuid n] u(1) by simp
  have w3: "put \<lparr>fd_path = ?p, fd_off = 36\<rparr> (u32_le ?n) (?d j (uuid @ u32_le n)) =
      (True, \<lparr>fd_path = ?p, fd_off = 40\<rparr>, ?d (Suc j) (uuid @ u32_le n @ u32_le ?n))" for j
    using w [OF l(2), of "uuid @ u32_le n" ?n] u(1) by simp
  have w4: "write_all \<lparr>fd_path = ?p, fd_off = 40\<rparr> m (?d j (uuid @ u32_le n @ u32_le ?n)) =
      (int (length m), \<lparr>fd_path = ?p, fd_off = 40 + length m\<rparr>, ?d (Suc j) (sec_file uuid n m))" for j
    using wm [of "uuid @ u32_le n @ u32_le ?n"] u(1) by (simp add: sec_file_def)
  show ?thesis
    using open_trunc_disk [OF s] w1 w2 w3 w4 nz u um by (simp add: writeDmsgToTempFile_def rd_def)
qed

lemma mvTempSec_ok:
  assumes s: "disk_ok s" "no_oom (hp s)" "heap_ok (hp s)" "files s TEMPSECFILEPATH = Some f"
    and d: "SECDOWNLOADDIR \<in> dirs s" "sec_path uuid n \<notin> dirs s"
    and u: "length uuid = 32" "0 \<notin> set uuid" "0x2f \<notin> set uuid" and n: "n \<noteq> 0" "n \<le> 99999"
  shows "\<exists>s'. mvTempSecToDownloadDir (Some (uuid @ r)) 32 n s = Some (0, s') \<and>
    after s ((files s)(TEMPSECFILEPATH := None, sec_path uuid n \<mapsto> f)) s'"
proof -
  note p = sprintf_05d_eq [OF n(2)]
  have c: "length SECDOWNLOADDIR = 22" "0 \<notin> set SECDOWNLOADDIR" "SECDOWNLOADDIR \<noteq> []" "last SECDOWNLOADDIR = 0x2f" "SECDOWNLOADDIR \<noteq> TEMPSECFILEPATH"
    by code_simp+
  let ?s1 = "s\<lparr>hp := alloc 1 (hp s)\<rparr>" and ?x = "SECDOWNLOADDIR @ padded 5 (unat n) @ [0x2d]"
  have b1: "strncat (replicate 65 0) SECDOWNLOADDIR 22 = Some (SECDOWNLOADDIR @ replicate 43 0)"
    using strncat_app [of "[]" SECDOWNLOADDIR 65 "[]" 22] c by simp
  have b2: "wr 22 (padded 5 (unat n) @ [0x2d, 0]) (SECDOWNLOADDIR @ replicate 43 0) = Some (?x @ replicate 37 0)"
  proof -
    have "drop 7 (replicate 43 (0 :: byte)) = replicate 36 0" "0 # replicate 36 0 = replicate 37 (0 :: byte)" by (simp_all add: eval_nat_numeral)
    then show ?thesis using wr_app [OF c(1), of "padded 5 (unat n) @ [0x2d, 0]" "replicate 43 0"] p(2) by simp
  qed
  have b3: "wr 28 uuid (?x @ replicate 37 0) = Some ((?x @ uuid) @ replicate 5 0)"
    using wr_app [of ?x 28 uuid "replicate 37 0"] p(2) c(1) u(1) by simp
  have z: "0 \<notin> set (?x @ uuid)" using c(2) p(3) u(2) by simp
  have e: "0 \<notin> set (str ''.sec'')" "length (str ''.sec'') = 4" "0x2f \<notin> set (str ''.sec'')" by code_simp+
  have b4: "strncat ((?x @ uuid) @ replicate 5 0) (str ''.sec'') 4 = Some (sec_path uuid n @ [0])"
    using strncat_app [OF z e(1), of 5 "[]" 4] e(2) by (simp add: sec_path_def)
  have cs: "c_str (sec_path uuid n @ [0]) = sec_path uuid n"
    using c_str_app [of "sec_path uuid n" "[]"] z e(1) by (simp add: sec_path_def)
  have dn: "dirname (sec_path uuid n) = SECDOWNLOADDIR"
    using dirname_app [of "padded 5 (unat n) @ [0x2d] @ uuid @ str ''.sec''" SECDOWNLOADDIR] c(3,4) p(4) u(3) e(3) by (simp add: sec_path_def)
  let ?g = "(files s)(TEMPSECFILEPATH := None, sec_path uuid n \<mapsto> f)"
  obtain k where "io_step ?s1 = (Some k, steps ?s1 (Suc (io_calls s)))"
    using io_step_disk [of ?s1] s(1) by auto
  then have r: "rename_file TEMPSECFILEPATH (sec_path uuid n) ?s1 = (0, disk ?s1 (Suc (io_calls s)) ?g)"
    using s(4) d dn by (simp add: rename_file_def)
  have a: "after ?s1 ?g (disk ?s1 (Suc (io_calls s)) ?g)" using s(2,3) alloc_ok [of "hp s" 1] by (simp add: after_def)
  note q = after_alloc [OF a s(3)]
  have t: "rd 32 (uuid @ r) = Some uuid" using u(1) by (simp add: rd_def)
  show ?thesis
    using os_malloc_ok [OF s(2)] b1 b2 b3 b4 cs r q(2,3) t n(1)
    by (simp add: mvTempSecToDownloadDir_def c(1) p(1))
qed

lemma two_blocks:
  assumes "no_oom h" "heap_ok h"
  defines "h2 \<equiv> alloc 1 (alloc 1 h)"
  defines "h3 \<equiv> h2\<lparr>live := live h2 - {calls h}\<rparr>"
  defines "h4 \<equiv> h3\<lparr>live := live h3 - {Suc (calls h)}\<rparr>"
  shows "calls h \<in> live h2" "Suc (calls h) \<in> live h3" "no_oom h4" "heap_ok h4" "live h \<subseteq> live h4" "calls (alloc 1 h) = Suc (calls h)"
  using assms(1,2) unfolding h4_def h3_def h2_def by (auto simp: no_oom_def heap_ok_def alloc_def)

lemma genSecFile_ok:
  assumes sh: "encrypts sh USEREPUBPEMFILEPATH ukey udec b64 ulim uclen" "encrypts sh SPCEPUBPEMFILEPATH skey sdec b64 slim sclen"
    and l: "ulim < 2 ^ 30" "slim < 2 ^ 30" "\<forall>y. length y \<le> uclen \<longrightarrow> length (b64 y) \<le> slim" "length sec = 16" "16 \<le> ulim"
    and s: "disk_ok s" "no_oom (hp s)" "heap_ok (hp s)" "files s (str USEREPUBPEMFILEPATH) = Some ukey" "files s (str SPCEPUBPEMFILEPATH) = Some skey"
    and d: "dirname (str PLAINFILEPATH) \<in> dirs s" "dirname TEMPSECFILEPATH \<in> dirs s" "SECDOWNLOADDIR \<in> dirs s" "sec_path uuid n \<notin> dirs s"
    and u: "length uuid = 32" "0 \<notin> set uuid" "0x2f \<notin> set uuid" and n: "n \<noteq> 0" "n \<le> 99999"
  shows "\<exists>s' y z. secret_genSecFile sh (Some (sec @ r)) 16 (Some (uuid @ r')) 32 n s = Some (0, s') \<and> udec y = sec \<and> sdec z = b64 y \<and>
    after s ((files s |` (- set temp_files))(TEMPSECFILEPATH := None, sec_path uuid n \<mapsto> sec_file uuid n (b64 z))) s'"
proof -
  let ?f = "files s |` (- set temp_files)"
  have sec: "sec \<noteq> []" "length sec \<le> ulim" using l(4,5) by auto
  obtain y k1 where y: "udec y = sec" "length y \<le> uclen" "b64 y \<noteq> []"
    and e1: "user_en_enc_and_en64 sh (Some (sec @ r)) 16 s =
      Some (0, Ptr (calls (hp s)) (b64 y), word_of_nat (length (b64 y)), disk (s\<lparr>hp := alloc 1 (hp s)\<rparr>) k1 ?f)"
    using en_ok [OF sh(1) s(1) d(1) s(4) sec l(1) s(2), of r] l(4) unfolding user_en_enc_and_en64_def by auto
  let ?s1 = "disk (s\<lparr>hp := alloc 1 (hp s)\<rparr>) k1 ?f"
  have s1: "disk_ok ?s1" "dirname (str PLAINFILEPATH) \<in> dirs ?s1" "files ?s1 (str SPCEPUBPEMFILEPATH) = Some skey" "no_oom (hp ?s1)"
    using s d alloc_ok(1) [OF s(2)] encryptsD(1) [OF sh(2)] by (simp_all add: restrict_map_def)
  have ly: "length (b64 y) \<le> slim" using l(3) y(2) by blast
  obtain z k2 where z: "sdec z = b64 y" "b64 z \<noteq> []" "length (b64 z) < 2 ^ 30"
    and e2: "spc_en_enc_and_en64 sh (Some (b64 y)) (word_of_nat (length (b64 y))) ?s1 =
      Some (0, Ptr (calls (hp ?s1)) (b64 z), word_of_nat (length (b64 z)), disk (?s1\<lparr>hp := alloc 1 (hp ?s1)\<rparr>) k2 (files ?s1 |` (- set temp_files)))"
    using en_ok [OF sh(2) s1(1-3) y(3) ly l(2) s1(4), of "[]"] unfolding spc_en_enc_and_en64_def by auto
  let ?h2 = "alloc 1 (alloc 1 (hp s))"
  let ?h3 = "?h2\<lparr>live := live ?h2 - {calls (hp s)}\<rparr>"
  let ?h4 = "?h3\<lparr>live := live ?h3 - {Suc (calls (hp s))}\<rparr>"
  let ?s2 = "disk (s\<lparr>hp := ?h2\<rparr>) k2 ?f" and ?s3 = "disk (s\<lparr>hp := ?h3\<rparr>) k2 ?f"
  note b = two_blocks [OF s(2,3)]
  have e2': "spc_en_enc_and_en64 sh (Some (b64 y)) (word_of_nat (length (b64 y))) ?s1 =
      Some (0, Ptr (Suc (calls (hp s))) (b64 z), word_of_nat (length (b64 z)), ?s2)"
    using e2 b(6) by (simp add: restrict_temp)
  have fr1: "os_free (calls (hp s)) ?s2 = Some ?s3" using os_free_ok [of "calls (hp s)" ?s2] b(1) by simp
  have "disk_ok ?s3" "dirname TEMPSECFILEPATH \<in> dirs ?s3" "length (b64 z) < 2 ^ 32" using s(1) d z(3) by simp_all
  from writeDmsg_ok [OF this(1,2) u(1) n(1) z(2) this(3), of r'] obtain k3 where
    e3: "writeDmsgToTempFile (Some (uuid @ r')) 32 n (Some (b64 z)) (word_of_nat (length (b64 z))) ?s3 =
      Some (0, disk ?s3 k3 (?f(TEMPSECFILEPATH \<mapsto> sec_file uuid n (b64 z))))" by auto
  let ?g = "?f(TEMPSECFILEPATH \<mapsto> sec_file uuid n (b64 z))"
  let ?s4 = "disk ?s3 k3 ?g" and ?s5 = "disk (s\<lparr>hp := ?h4\<rparr>) k3 ?g"
  have fr2: "os_free (Suc (calls (hp s))) ?s4 = Some ?s5"
    using os_free_ok [of "Suc (calls (hp s))" ?s4] b(2) by simp
  have a5: "after s ?g ?s5" using b(3-5) by (simp add: after_def)
  note t5 = afterD [OF a5]
  have s5: "files ?s5 TEMPSECFILEPATH = Some (sec_file uuid n (b64 z))" by simp
  then have ck: "checkTempSec ?s5 = 0" unfolding checkTempSec_def by (rule access_upd)
  have "disk_ok ?s5" "SECDOWNLOADDIR \<in> dirs ?s5" "sec_path uuid n \<notin> dirs ?s5" using s(1) d by simp_all
  from mvTempSec_ok [OF this(1) t5(4,5) s5 this(2,3) u n, of r'] obtain s6 where
    s6: "mvTempSecToDownloadDir (Some (uuid @ r')) 32 n ?s5 = Some (0, s6)"
      "after ?s5 ((files ?s5)(TEMPSECFILEPATH := None, sec_path uuid n \<mapsto> sec_file uuid n (b64 z))) s6" by blast
  have "secret_genSecFile sh (Some (sec @ r)) 16 (Some (uuid @ r')) 32 n s = Some (0, s6)"
    using e1 e2' e3 fr1 fr2 ck s6(1) by (simp add: secret_genSecFile_def ptr_buf_def free_ptr_def)
  moreover have "after s (?f(TEMPSECFILEPATH := None, sec_path uuid n \<mapsto> sec_file uuid n (b64 z))) s6"
    using after_trans [OF a5 s6(2)] unfolding files_disk fun_upd_upd .
  ultimately show ?thesis using y(1) z(1) by blast
qed

section \<open>A new secret\<close>

definition new_secret :: "rand_fun \<Rightarrow> u32 \<Rightarrow> byte list"
  where "new_secret rand time = map (\<lambda>i. b32_alphabet ! (rand time i mod 32)) [0..<16]"

lemma length_new_secret [simp]: "length (new_secret rand time) = 16"
  by (simp add: new_secret_def)

lemma getNewSecret_ok: "hotp_getNewSecret rand (Some (replicate 17 0)) 17 time = Some (0, Some (new_secret rand time @ [0]))"
proof -
  have "wr 0 (replicate 17 0) (replicate 17 0) = Some (replicate 17 (0 :: byte))"
    "wr 0 (new_secret rand time) (replicate 17 0) = Some (new_secret rand time @ [0])" by (simp_all add: wr_0 eval_nat_numeral)
  then show ?thesis by (simp add: hotp_getNewSecret_def spc_new_base32_def new_secret_def)
qed

definition command_dirs :: "os \<Rightarrow> bool" where
  "command_dirs s \<longleftrightarrow> dirname (str PLAINFILEPATH) \<in> dirs s \<and> dirname (str USEREPUBPEMFILEPATH) \<in> dirs s \<and>
     dirname TEMPSECFILEPATH \<in> dirs s \<and> SECDOWNLOADDIR \<in> dirs s"

lemma command_paths:
  "SERVERLISTPATH \<notin> set temp_files" "str USEREPUBPEMFILEPATH \<notin> set temp_files" "SERVERLISTPATH \<noteq> TEMPSECFILEPATH"
  "SERVERLISTPATH \<noteq> str USEREPUBPEMFILEPATH" "str USEREPUBPEMFILEPATH \<noteq> TEMPSECFILEPATH" "str USEREPUBPEMFILEPATH \<noteq> str SPCEPUBPEMFILEPATH"
  by code_simp+

lemma sec_path_other: "SERVERLISTPATH \<noteq> sec_path uuid n" "str USEREPUBPEMFILEPATH \<noteq> sec_path uuid n"
proof -
  have "take 22 (sec_path uuid n) = SECDOWNLOADDIR" by (simp add: sec_path_def SECDOWNLOADDIR_def str_def)
  moreover have "take 22 SERVERLISTPATH \<noteq> SECDOWNLOADDIR" "take 22 (str USEREPUBPEMFILEPATH) \<noteq> SECDOWNLOADDIR" by code_simp+
  ultimately show "SERVERLISTPATH \<noteq> sec_path uuid n" "str USEREPUBPEMFILEPATH \<noteq> sec_path uuid n" by metis+
qed

text \<open>C7: Updating the secret of a server leaves a well-formed list in which this server has a new secret and the counter 1 and
  nothing else has changed, and a file in the directory of downloads from which the user can decrypt exactly this
  secret: with the private key of the node's service, then with his own.  The base 64 text of what the user's key makes
  of the secret must not be longer than the service's key can encrypt, as it is with 172 bytes for a user's key of 1024
  bits (128 bytes) and 245 bytes for a key of 2048 bits.\<close>

theorem secret_updated:
  assumes "encrypts sh USEREPUBPEMFILEPATH key udec b64 ulim uclen" "encrypts sh SPCEPUBPEMFILEPATH skey sdec b64 slim sclen"
    and "ulim < 2 ^ 30" "slim < 2 ^ 30" "\<forall>y. length y \<le> uclen \<longrightarrow> length (b64 y) \<le> slim" "16 \<le> ulim"
    and "disk_ok s" "no_oom (hp s)" "heap_ok (hp s)" "servers s infos" "0 < k" "k < length infos" "k \<le> 99999"
    and "command_dirs s" "sec_path uuid (word_of_nat k) \<notin> dirs s" "files s (str SPCEPUBPEMFILEPATH) = Some skey"
    and "key \<noteq> []" "length key < 2 ^ 32" "length uuid = 32" "0 \<notin> set uuid" "0x2f \<notin> set uuid"
  shows "\<exists>s' y z. spc_update_secret sh rand time (word_of_nat k) (Some (key @ r)) (word_of_nat (length key)) (uuid @ r') s = Some s' \<and>
    servers s' (infos[k := (infos ! k)\<lparr>server_secret := new_secret rand time, server_counter := 1\<rparr>]) \<and>
    files s' (str USEREPUBPEMFILEPATH) = Some key \<and>
    files s' (sec_path uuid (word_of_nat k)) = Some (sec_file uuid (word_of_nat k) (b64 z)) \<and> sdec z = b64 y \<and> udec y = new_secret rand time"
proof -
  let ?n = "word_of_nat k :: u32" and ?sec = "new_secret rand time" and ?u = "str USEREPUBPEMFILEPATH"
  note d = assms(14) [unfolded command_dirs_def]
  have un: "unat ?n = k" using assms(13) by (intro unat_u32_len) simp
  have n: "?n \<noteq> 0" "?n \<le> 99999" using un assms(11,13) by (auto simp: word_le_nat_alt)
  have uk: "unat (word_of_nat (length key) :: u32) = length key" using assms(18) by (intro unat_u32_len) simp
  then have kz: "(word_of_nat (length key) :: u32) \<noteq> 0" using assms(17) by (metis length_0_conv unat_0)
  have w: "wf_list infos" and f0: "files s SERVERLISTPATH = Some (list_file infos)" using assms(10) by (simp_all add: servers_def)
  then have ok: "info_ok (infos ! k)" "server_id (infos ! k) = ?n" using assms(11,12) by (auto simp: wf_list_def)
  obtain m where m: "server_getServerInfo zero_info ?n s = Some (0, infos ! k, steps s m)"
    using server_getServerInfo_ok [OF assms(7,10-12), of zero_info] by auto
  obtain k1 where b: "buffer_to_pem USEREPUBPEMFILEPATH (Some (key @ r)) (word_of_nat (length key)) (steps s m) =
      Some (0, disk s k1 ((files s)(?u \<mapsto> key)))"
    using write_new_disk [of "steps s m" ?u key r] assms(7,18) d kz by (auto simp: buffer_to_pem_def)
  let ?s1 = "disk s k1 ((files s)(?u \<mapsto> key))"
  have s1: "disk_ok ?s1" "no_oom (hp ?s1)" "heap_ok (hp ?s1)" "files ?s1 ?u = Some key" "files ?s1 (str SPCEPUBPEMFILEPATH) = Some skey"
      "dirname (str PLAINFILEPATH) \<in> dirs ?s1" "dirname TEMPSECFILEPATH \<in> dirs ?s1" "SECDOWNLOADDIR \<in> dirs ?s1" "sec_path uuid ?n \<notin> dirs ?s1"
    using assms(7-9,15,16) d command_paths(6) by simp_all
  let ?g = "\<lambda>z. (files ?s1 |` (- set temp_files))(TEMPSECFILEPATH := None, sec_path uuid ?n \<mapsto> sec_file uuid ?n (b64 z))"
  obtain s2 y z where g: "secret_genSecFile sh (Some (?sec @ [0])) 16 (Some (uuid @ r')) 32 ?n ?s1 = Some (0, s2)"
      "udec y = ?sec" "sdec z = b64 y" "after ?s1 (?g z) s2"
    using genSecFile_ok [where r = "[0]" and r' = r', OF assms(1-5) length_new_secret assms(6) s1 assms(19-21) n] by blast
  note t = afterD [OF g(4)]
  have f2: "files s2 SERVERLISTPATH = Some (list_file infos)" "files s2 ?u = Some key" "files s2 (sec_path uuid ?n) = Some (sec_file uuid ?n (b64 z))"
    using t(1) f0 command_paths sec_path_other [of uuid ?n] by (simp_all add: restrict_map_def)
  have s2: "disk_ok s2" "servers s2 infos" using t(3) s1(1) f2(1) w by (simp_all add: servers_def)
  let ?i = "(infos ! k)\<lparr>server_secret := ?sec, server_counter := 1\<rparr>"
  have i: "info_ok ?i" "server_id ?i = ?n" using ok by (simp_all add: info_ok_def)
  obtain m' where m': "server_setServerInfo ?i s2 = Some (0, s2\<lparr>io_calls := m', files := (files s2)(SERVERLISTPATH \<mapsto> list_file (infos[k := ?i]))\<rparr>)"
      "wf_list (infos[k := ?i])"
    using server_setServerInfo_ok [OF s2 assms(11,12) i] by blast
  have rd: "rd 16 (?sec @ [0]) = Some ?sec" by (simp add: rd_def)
  let ?s3 = "s2\<lparr>io_calls := m', files := (files s2)(SERVERLISTPATH \<mapsto> list_file (infos[k := ?i]))\<rparr>"
  have "spc_update_secret sh rand time ?n (Some (key @ r)) (word_of_nat (length key)) (uuid @ r') s = Some ?s3"
    using m getNewSecret_ok [of rand time] rd b g(1) m'(1) ok(2) by (simp add: spc_update_secret_def)
  moreover have "servers ?s3 (infos[k := ?i])" using m'(2) by (simp add: servers_def)
  moreover have "files ?s3 ?u = Some key" "files ?s3 (sec_path uuid ?n) = Some (sec_file uuid ?n (b64 z))"
    using f2(2,3) command_paths(4) sec_path_other(1) [of uuid ?n] by auto
  ultimately show ?thesis using g(2,3) by blast
qed

section \<open>A new server that is not made\<close>



section \<open>A list with one server\<close>

definition one_server :: "server_info list"
  where "one_server = [zero_info\<lparr>server_id := 2, server_counter := 1\<rparr>, zero_info\<lparr>server_id := 1, server_counter := 7\<rparr>]"

text \<open>Base 64: three bytes are four characters, one or two bytes at the end are filled up with \<^verbatim>\<open>=\<close>.\<close>

definition b64_chars :: "nat list \<Rightarrow> byte list" where
  "b64_chars = map (\<lambda>n. str ''ABCDEFGHIJKLMNOPQRSTUVWXYZabcdefghijklmnopqrstuvwxyz0123456789+/'' ! (n mod 64))"

fun base64 :: "byte list \<Rightarrow> byte list" where
  "base64 (a # b # c # r) =
    (let n = 65536 * unat a + 256 * unat b + unat c in b64_chars [n div 262144, n div 4096, n div 64, n] @ base64 r)"
| "base64 [a, b] = (let n = 1024 * unat a + 4 * unat b in b64_chars [n div 4096, n div 64, n] @ str ''='')"
| "base64 [a] = (let n = 16 * unat a in b64_chars [n div 64, n] @ str ''=='')"
| "base64 [] = []"

lemma length_base64: "length (base64 y) = 4 * ((length y + 2) div 3)"
proof (induction y rule: base64.induct)
  case (1 a b c r)
  have "length (base64 (a # b # c # r)) = 4 + length (base64 r)" by (simp add: b64_chars_def Let_def)
  also have "\<dots> = 4 * ((length r + 2) div 3 + 1)" using 1 [OF refl] by simp
  also have "(length r + 2) div 3 + 1 = (length (a # b # c # r) + 2) div 3" by simp
  finally show ?case .
qed (simp_all add: b64_chars_def str_def Let_def)

text \<open>A cipher with the sizes of RSA: a message is filled up to the size of the key, and the first byte of the key is
  added to every byte.\<close>

definition seal :: "nat \<Rightarrow> byte list \<Rightarrow> byte list \<Rightarrow> byte list"
  where "seal n key x = map ((+) (hd key)) (word_of_nat (length x) # x @ replicate (n - 1 - length x) 0)"

definition unseal :: "byte list \<Rightarrow> byte list \<Rightarrow> byte list"
  where "unseal key y = (case map (\<lambda>b. b - hd key) y of [] \<Rightarrow> [] | b # x \<Rightarrow> take (unat b) x)"

lemma unseal_seal: "length x < 256 \<Longrightarrow> unseal key (seal n key x) = x"
  by (simp add: unseal_def seal_def comp_def unat_of_nat take_bit_nat_eq_self)

lemma length_seal: "length x < n \<Longrightarrow> length (seal n key x) = n"
  by (simp add: seal_def)

definition sealing :: "nat \<Rightarrow> string \<Rightarrow> os \<Rightarrow> os" where
  "sealing n pub s = (case files s (str pub) of None \<Rightarrow> s | Some key \<Rightarrow> copy (seal n key) PLAINFILEPATH ENCFILEPATH s)"

definition relay_shell :: shell where
  "relay_shell = \<lparr>sh_system = \<lambda>c. if c = str EN64CMD then copy (\<lambda>y. lines64 (base64 y)) ENCFILEPATH EN64FILEPATH
     else if c = str (enc_cmd USEREPUBPEMFILEPATH) then sealing 128 USEREPUBPEMFILEPATH
     else sealing 256 SPCEPUBPEMFILEPATH,
     sh_popen = \<lambda>c s. (None, s)\<rparr>"

lemma relay_shell_does:
  "sh_system relay_shell (str EN64CMD) = copy (\<lambda>y. lines64 (base64 y)) ENCFILEPATH EN64FILEPATH"
  "sh_system relay_shell (str (enc_cmd USEREPUBPEMFILEPATH)) = sealing 128 USEREPUBPEMFILEPATH"
  "sh_system relay_shell (str (enc_cmd SPCEPUBPEMFILEPATH)) = sealing 256 SPCEPUBPEMFILEPATH"
proof -
  have "str (enc_cmd USEREPUBPEMFILEPATH) \<noteq> str EN64CMD" "str (enc_cmd SPCEPUBPEMFILEPATH) \<noteq> str EN64CMD"
    "str (enc_cmd SPCEPUBPEMFILEPATH) \<noteq> str (enc_cmd USEREPUBPEMFILEPATH)" by code_simp+
  then show "sh_system relay_shell (str EN64CMD) = copy (\<lambda>y. lines64 (base64 y)) ENCFILEPATH EN64FILEPATH"
    "sh_system relay_shell (str (enc_cmd USEREPUBPEMFILEPATH)) = sealing 128 USEREPUBPEMFILEPATH"
    "sh_system relay_shell (str (enc_cmd SPCEPUBPEMFILEPATH)) = sealing 256 SPCEPUBPEMFILEPATH"
    by (simp_all add: relay_shell_def)
qed

lemma relay_encrypts:
  "encrypts relay_shell USEREPUBPEMFILEPATH key (unseal key) base64 117 128"
  "encrypts relay_shell SPCEPUBPEMFILEPATH key (unseal key) base64 245 256"
proof -
  have p: "str USEREPUBPEMFILEPATH \<notin> set temp_files" "str SPCEPUBPEMFILEPATH \<notin> set temp_files" by code_simp+
  have b: "base64 y \<noteq> [] \<and> length (base64 y) < 2 ^ 30" if "y \<noteq> []" "length y \<le> 256" for y
  proof -
    have "0 < length (base64 y)" using that(1) by (cases y) (simp_all add: length_base64)
    moreover have "length (base64 y) < 2 ^ 30" using that(2) by (simp add: length_base64)
    ultimately show ?thesis by auto
  qed
  have e: "\<exists>y. unseal key y = x \<and> y \<noteq> [] \<and> length y \<le> n \<and> sealing n pub s = s\<lparr>files := (files s)(str ENCFILEPATH \<mapsto> y)\<rparr>"
    if "files s (str pub) = Some key" "files s (str PLAINFILEPATH) = Some x" "length x < n" "n \<le> 256" for s x n pub
  proof (intro exI conjI)
    show "unseal key (seal n key x) = x" using that(3,4) by (intro unseal_seal) simp
    show "seal n key x \<noteq> []" by (simp add: seal_def)
    show "length (seal n key x) \<le> n" using that(3) by (simp add: length_seal)
    show "sealing n pub s = s\<lparr>files := (files s)(str ENCFILEPATH \<mapsto> seal n key x)\<rparr>" using that(1,2) by (simp add: sealing_def copy_def)
  qed
  show "encrypts relay_shell USEREPUBPEMFILEPATH key (unseal key) base64 117 128"
    "encrypts relay_shell SPCEPUBPEMFILEPATH key (unseal key) base64 245 256"
    unfolding encrypts_def relay_shell_does using p b e by (auto simp: copy_def)
qed

definition command_disk :: os where
  "command_disk = \<lparr>hp = sound_heap, dirs = {dirname (str PLAINFILEPATH), dirname (str USEREPUBPEMFILEPATH), dirname TEMPSECFILEPATH, SECDOWNLOADDIR},
     files = [SERVERLISTPATH \<mapsto> list_file one_server, str SPCEPUBPEMFILEPATH \<mapsto> [1]], io_calls = 0, io_max = \<lambda>_. Some (2 ^ 32)\<rparr>"

lemma command_disk_ok:
  "disk_ok command_disk" "no_oom (hp command_disk)" "heap_ok (hp command_disk)" "servers command_disk one_server" "command_dirs command_disk"
  "files command_disk (str SPCEPUBPEMFILEPATH) = Some [1]" "sec_path (replicate 32 0x41) (word_of_nat 1) \<notin> dirs command_disk"
proof -
  have p: "SERVERLISTPATH \<noteq> str SPCEPUBPEMFILEPATH" by code_simp
  show "servers command_disk one_server" using p by (simp add: servers_def command_disk_def wf_list_def one_server_def less_Suc_eq)
  have "length (sec_path (replicate 32 0x41) 1) = 64"
    using sprintf_05d_eq(2) [of 1] by (simp add: sec_path_def SECDOWNLOADDIR_def str_def)
  moreover have "\<forall>d\<in>dirs command_disk. length d < 64" by (simp add: command_disk_def) code_simp
  ultimately show "sec_path (replicate 32 0x41) (word_of_nat 1) \<notin> dirs command_disk" by auto
qed (simp_all add: command_disk_def disk_ok_def command_dirs_def)

definition no_net :: net
  where "no_net = \<lparr>net_calls = 0, net_sock = \<lambda>_. -1, net_peer = \<lambda>_. None, net_open = [], net_log = []\<rparr>"

lemma secret_updated_witness:
  "\<exists>s' y z. spc_update_secret relay_shell (\<lambda>t i. i) 5 (word_of_nat 1) (Some ([4, 2, 3] @ [0])) (word_of_nat (length [4, 2, 3 :: byte]))
      (replicate 32 0x41 @ [0]) command_disk = Some s' \<and>
    servers s' (one_server[1 := (one_server ! 1)\<lparr>server_secret := new_secret (\<lambda>t i. i) 5, server_counter := 1\<rparr>]) \<and>
    files s' (str USEREPUBPEMFILEPATH) = Some [4, 2, 3] \<and>
    files s' (sec_path (replicate 32 0x41) (word_of_nat 1)) = Some (sec_file (replicate 32 0x41) (word_of_nat 1) (base64 z)) \<and>
    unseal [1] z = base64 y \<and> unseal [4, 2, 3] y = new_secret (\<lambda>t i. i) 5"
proof (rule secret_updated [OF relay_encrypts, where k = 1 and infos = one_server])
  show "\<forall>y. length y \<le> 128 \<longrightarrow> length (base64 y) \<le> 245" by (auto simp: length_base64)
qed (use command_disk_ok in \<open>simp_all add: one_server_def\<close>)


definition command_entries :: "dir_entry list"
  where "command_entries = [([], replicate 9 0x41), ([], 0x41 # USEREPUBFILETAIL)]"

definition command_ds :: dir_ops
  where "command_ds = \<lparr>dir_read = \<lambda>p s. Some command_entries, dir_stale = \<lambda>n. Some (length n)\<rparr>"

lemma command_ds_dir: "command_dir command_ds command_disk command_entries"
proof -
  have "has_tail USEREPUBFILETAIL ([], replicate 9 0x41) = Some False" "has_tail USEREPUBFILETAIL ([], 0x41 # USEREPUBFILETAIL) = Some True"
    "0 \<notin> set USEREPUBFILETAIL" "length USEREPUBFILETAIL = 9" by code_simp+
  then show ?thesis unfolding command_dir_def command_ds_def command_entries_def by auto
qed

lemma command_overflows_witness: "spc_do_cmd command_ds relay_shell (\<lambda>t i. i) (\<lambda>_. 5) command_disk no_net = None"
  by (rule command_overflows [OF command_ds_dir command_disk_ok(2)])

end
