(* ===== verification/Node_Init.thy ===== *)
theory Node_Init
  imports Commands
begin

text \<open>
  The program that deploys the node (\<^verbatim>\<open>spcstart_dir\<close>), its part on keys (\<^verbatim>\<open>spcmodinit.c\<close>, \<^verbatim>\<open>spcmodnode.c\<close>): the exchange of the
  public keys of the node and the ground, and a check in two stages.  In the first stage each side sends the first half of
  an encrypted message, in the second one the second half; the node sends its second half only when the message of the
  ground decrypts to the agreed word.

  The functions of the three steps that find, move and name files differ in the names only; what they share is
  defined once.
\<close>

definition DEPLOYDIR :: "byte list" where "DEPLOYDIR = str ''/mnt/spcdata/prepare/deploy/''"
definition SPCEPUBFILETAIL :: "byte list" where "SPCEPUBFILETAIL = str ''.spcepub''"
definition SATEPUBFILETAIL :: "byte list" where "SATEPUBFILETAIL = str ''.satepub''"
definition SPCCS1FILETAIL :: "byte list" where "SPCCS1FILETAIL = str ''.spccs1''"
definition SATCS1FILETAIL :: "byte list" where "SATCS1FILETAIL = str ''.satcs1''"
definition SPCCS2FILETAIL :: "byte list" where "SPCCS2FILETAIL = str ''.spccs2''"
definition SATCS2FILETAIL :: "byte list" where "SATCS2FILETAIL = str ''.satcs2''"
definition SPCEPUBFILETEMPPATH :: "byte list" where "SPCEPUBFILETEMPPATH = str ''/mnt/spcdata/node/temp/spc.epub''"
definition TEMPEPUBFILEPATH :: "byte list" where "TEMPEPUBFILEPATH = str ''/mnt/spcdata/node/temp/epub.temp''"
definition TEMPSATEPUBFILEPATH :: "byte list" where "TEMPSATEPUBFILEPATH = str ''/mnt/spcdata/node/temp/temp.satepub''"
definition SPCCS1FILEPATH :: "byte list" where "SPCCS1FILEPATH = str ''/mnt/spcdata/node/temp/spc.cs1''"
definition TEMPSATCS1FILEPATH :: "byte list" where "TEMPSATCS1FILEPATH = str ''/mnt/spcdata/node/temp/temp.satcs1''"
definition SPCCS2FILEPATH :: "byte list" where "SPCCS2FILEPATH = str ''/mnt/spcdata/node/temp/spc.cs2''"
definition TEMPSATCS2FILEPATH :: "byte list" where "TEMPSATCS2FILEPATH = str ''/mnt/spcdata/node/temp/temp.satcs2''"
definition MSPCDATAFILEPATH :: "byte list" where "MSPCDATAFILEPATH = str ''/mnt/spcdata/node/mspc.data''"
definition SECRET :: "byte list" where "SECRET = str ''issnode''"
definition THEWORDS :: "byte list" where "THEWORDS = str ''spc''"

definition CREATESATEPRVPEMFILECMD :: "byte list" where "CREATESATEPRVPEMFILECMD = str (''openssl genrsa -out '' @ SATEPRVPEMFILEPATH @ '' 1024'')"
definition GENSATEPUBPEMFILECMD :: "byte list" where
  "GENSATEPUBPEMFILECMD = str (''openssl rsa -in '' @ SATEPRVPEMFILEPATH @ '' -pubout -out '' @ SATEPUBPEMFILEPATH)"
definition rm_cmd :: "string \<Rightarrow> byte list" where "rm_cmd p = str (''rm -f '' @ p)"

section \<open>The keys of the node\<close>

definition check_epub_pem_file :: "os \<Rightarrow> int"
  where "check_epub_pem_file s = (if access (str SATEPUBPEMFILEPATH) s = 0 then 1 else 0)"

definition create_epub_pem_file :: "shell \<Rightarrow> os \<Rightarrow> int \<times> os" where
  "create_epub_pem_file sh s =
    (let s1 = sh_system sh CREATESATEPRVPEMFILECMD s in
     if access (str SATEPRVPEMFILEPATH) s1 \<noteq> 0 then (-1, s1)
     else let s2 = sh_system sh GENSATEPUBPEMFILECMD s1 in
       (if access (str SATEPUBPEMFILEPATH) s2 \<noteq> 0 then -1 else 0, s2))"

definition rm_pem_files :: "shell \<Rightarrow> os \<Rightarrow> int \<times> os" where
  "rm_pem_files sh s =
    (let s1 = sh_system sh (rm_cmd SATEPUBPEMFILEPATH) s in
     if access (str SATEPUBPEMFILEPATH) s1 = 0 then (-1, s1)
     else let s2 = sh_system sh (rm_cmd SATEPRVPEMFILEPATH) s1 in
       if access (str SATEPRVPEMFILEPATH) s2 = 0 then (-1, s2)
       else let s3 = sh_system sh (rm_cmd SPCEPUBPEMFILEPATH) s2 in
         (if access (str SPCEPUBPEMFILEPATH) s3 = 0 then -1 else 0, s3))"

section \<open>What the steps share\<close>

definition count_files :: "dir_ops \<Rightarrow> byte list \<Rightarrow> byte list \<Rightarrow> os \<Rightarrow> int option" where
  "count_files ds tail dirPath s = (case dir_read ds dirPath s of None \<Rightarrow> Some (-1) | Some es \<Rightarrow> count_tail tail es 0)"

text \<open>The length is read from the entry after the directory was closed.\<close>

definition find_file :: "dir_ops \<Rightarrow> byte list \<Rightarrow> byte list \<Rightarrow> os \<Rightarrow> (byte list ptr \<times> u32 \<times> os) option" where
  "find_file ds tail dirPath s = (case dir_read ds dirPath s of
     None \<Rightarrow> Some (NULL, 0, s)
   | Some es \<Rightarrow> do {
       f \<leftarrow> find_tail tail es;
       case f of None \<Rightarrow> Some (NULL, 0, s)
       | Some name \<Rightarrow> (case os_malloc (word_of_nat (length name) + 1) s of
            (None, s1) \<Rightarrow> Some (NULL, 0, s1)
          | (Some p, s1) \<Rightarrow> do { n \<leftarrow> dir_stale ds name; Some (Ptr p (name @ [0]), word_of_nat n, s1) })
     })"

definition mv_deployed :: "byte list \<Rightarrow> buf \<Rightarrow> u32 \<Rightarrow> os \<Rightarrow> (int \<times> os) option" where
  "mv_deployed new fileName fileNameLen s =
    (case fileName of None \<Rightarrow> Some (-1, s)
     | Some name \<Rightarrow>
         if fileNameLen = 0 then Some (-1, s)
         else let n = word_of_nat (length DEPLOYDIR) + fileNameLen + 1 in
           (case os_malloc (ucast n) s of
             (None, s1) \<Rightarrow> Some (-1, s1)
           | (Some p, s1) \<Rightarrow> do {
               b \<leftarrow> wr 0 DEPLOYDIR (replicate (unat n) 0);
               b \<leftarrow> strncat b name (unat fileNameLen);
               case os_malloc (word_of_nat (length new + 1)) s1 of
                 (None, s2) \<Rightarrow> do { s3 \<leftarrow> os_free p s2; Some (-1, s3) }
               | (Some q, s2) \<Rightarrow> (case rename_file (c_str b) new s2 of (ret, s3) \<Rightarrow>
                   do { s4 \<leftarrow> os_free p s3; s5 \<leftarrow> os_free q s4; Some (ret, s5) })
             }))"

text \<open>The file for the ground gets its name, the identifier of the request with a tail.\<close>

definition gen_uuid_file :: "byte list \<Rightarrow> byte list \<Rightarrow> buf \<Rightarrow> u32 \<Rightarrow> os \<Rightarrow> (int \<times> os) option" where
  "gen_uuid_file temp tail uuid uuidLen s =
    (case uuid of None \<Rightarrow> Some (-1, s)
     | Some u \<Rightarrow>
         if uuidLen \<noteq> 32 then Some (-1, s)
         else let n = length SECDOWNLOADDIR + 32 + length tail + 1 in
           (case os_malloc (word_of_nat n) s of
             (None, s1) \<Rightarrow> Some (-1, s1)
           | (Some p, s1) \<Rightarrow> do {
               b \<leftarrow> wr 0 SECDOWNLOADDIR (replicate n 0);
               b \<leftarrow> strncat b u 32;
               b \<leftarrow> strncat b tail (length tail);
               case rename_file temp (c_str b) s1 of (ret, s2) \<Rightarrow> do { s3 \<leftarrow> os_free p s2; Some (ret, s3) }
             }))"

text \<open>Several \<^verbatim>\<open>write\<close> in a row, until one does not write all.  The files are opened without \<^verbatim>\<open>O_TRUNC\<close>.\<close>

fun put_all :: "file_desc \<Rightarrow> byte list list \<Rightarrow> os \<Rightarrow> int \<times> os" where
  "put_all fd [] s = (0, s)"
| "put_all fd (d # ds) s = (case put fd d s of (ok, fd1, s1) \<Rightarrow> if ok then put_all fd1 ds s1 else (-1, s1))"

text \<open>The identifier at the start of a file.\<close>

definition parse_uuid :: "byte list \<Rightarrow> buf \<Rightarrow> u32 \<Rightarrow> os \<Rightarrow> (int \<times> buf \<times> file_desc \<times> os) option" where
  "parse_uuid path uuidBuf uuidBufLen s =
    (case uuidBuf of None \<Rightarrow> Some (-1, uuidBuf, \<lparr>fd_path = path, fd_off = 0\<rparr>, s)
     | Some u \<Rightarrow>
         if uuidBufLen < 32 then Some (-1, uuidBuf, \<lparr>fd_path = path, fd_off = 0\<rparr>, s)
         else case open_existing path s of
             (None, s1) \<Rightarrow> Some (-1, uuidBuf, \<lparr>fd_path = path, fd_off = 0\<rparr>, s1)
           | (Some fd, s1) \<Rightarrow> do {
               u \<leftarrow> wr 0 (replicate 32 0) u;
               case read_into fd (replicate 32 0) s1 of (ret, d, fd, s2) \<Rightarrow> do {
                 u \<leftarrow> wr 0 d u;
                 Some (if ret \<noteq> 32 then -1 else 0, Some u, fd, s2)
               }
             })"

text \<open>A length and as many bytes, in a new block.\<close>

definition get_pem :: "string \<Rightarrow> u32 \<Rightarrow> os \<Rightarrow> (byte list ptr \<times> u32 \<times> os) option" where
  "get_pem path len_ptr s =
    (if access (str path) s \<noteq> 0 then Some (NULL, len_ptr, s)
     else case get_pem_key_buffer_len path 0 s of (ret, n, s1) \<Rightarrow>
       if ret = -1 then Some (NULL, len_ptr, s1)
       else (case os_malloc (ucast n) s1 of
           (None, s2) \<Rightarrow> Some (NULL, 0, s2)
         | (Some p, s2) \<Rightarrow> do {
             (ret, b, s3) \<leftarrow> pem_to_buffer path (Some (replicate (unat n) 0)) n s2;
             if ret = -1 then do { s4 \<leftarrow> os_free p s3; Some (NULL, 0, s4) }
             else do { d \<leftarrow> b; Some (Ptr p d, n, s3) }
           }))"

section \<open>The exchange of the public keys\<close>

definition countSpcEpubFile :: "dir_ops \<Rightarrow> byte list \<Rightarrow> os \<Rightarrow> int option"
  where "countSpcEpubFile ds = count_files ds SPCEPUBFILETAIL"

definition findSpcEpubFile :: "dir_ops \<Rightarrow> byte list \<Rightarrow> os \<Rightarrow> (byte list ptr \<times> u32 \<times> os) option"
  where "findSpcEpubFile ds = find_file ds SPCEPUBFILETAIL"

definition mvSpcEpubFileToTempDir :: "buf \<Rightarrow> u32 \<Rightarrow> os \<Rightarrow> (int \<times> os) option"
  where "mvSpcEpubFileToTempDir = mv_deployed SPCEPUBFILETEMPPATH"

definition checkSpcEpubFileInTempDir :: "os \<Rightarrow> int"
  where "checkSpcEpubFileInTempDir s = access SPCEPUBFILETEMPPATH s"

definition parseSpcEpubFile :: "buf \<Rightarrow> u32 \<Rightarrow> os \<Rightarrow> (int \<times> buf \<times> byte list ptr \<times> u32 \<times> os) option" where
  "parseSpcEpubFile uuidBuf uuidBufLen s = do {
     (ret, uuidBuf, fd, s1) \<leftarrow> parse_uuid SPCEPUBFILETEMPPATH uuidBuf uuidBufLen s;
     if ret \<noteq> 0 then Some (-1, uuidBuf, NULL, 0, s1)
     else case read_into fd (u32_le 0) s1 of (ret, l, fd, s2) \<Rightarrow>
       let n = le_u32 l in
       if ret \<noteq> 4 \<or> n > 2048 then Some (-1, uuidBuf, NULL, 0, s2)
       else (case os_malloc (ucast n) s2 of
           (None, s3) \<Rightarrow> Some (-1, uuidBuf, NULL, 0, s3)
         | (Some p, s3) \<Rightarrow> (case read_into fd (replicate (unat n) 0) s3 of (ret, k, fd, s4) \<Rightarrow>
             if ret \<noteq> int (unat n) then do { s5 \<leftarrow> os_free p s4; Some (-1, uuidBuf, NULL, 0, s5) }
             else Some (0, uuidBuf, Ptr p k, n, s4)))
   }"

definition saveSpcEpubToPemFile :: "buf \<Rightarrow> u32 \<Rightarrow> os \<Rightarrow> (int \<times> os) option" where
  "saveSpcEpubToPemFile spcEpub spcEpubLen s =
    (if spcEpub = None \<or> spcEpubLen = 0 then Some (-1, s) else buffer_to_pem SPCEPUBPEMFILEPATH spcEpub spcEpubLen s)"

text \<open>A length and bytes to a file that is made when it is not there.\<close>

definition save_with_len :: "byte list \<Rightarrow> buf \<Rightarrow> u32 \<Rightarrow> os \<Rightarrow> (int \<times> os) option" where
  "save_with_len path b n s =
    (case b of None \<Rightarrow> Some (-1, s)
     | Some b \<Rightarrow>
         if n = 0 then Some (-1, s)
         else (case open_create path s of
             (None, s1) \<Rightarrow> Some (-1, s1)
           | (Some fd, s1) \<Rightarrow> do { d \<leftarrow> rd (unat n) b; Some (put_all fd [u32_le n, d] s1) }))"

definition saveSatEpubToTempFile :: "buf \<Rightarrow> u32 \<Rightarrow> os \<Rightarrow> (int \<times> os) option"
  where "saveSatEpubToTempFile = save_with_len TEMPEPUBFILEPATH"

definition genTempSatEpubFile :: "buf \<Rightarrow> u32 \<Rightarrow> buf \<Rightarrow> u32 \<Rightarrow> os \<Rightarrow> (int \<times> os) option" where
  "genTempSatEpubFile uuid uuidLen satEpub satEpubLen s =
    (case (uuid, satEpub) of
       (Some u, Some b) \<Rightarrow>
         if uuidLen \<noteq> 32 \<or> satEpubLen = 0 then Some (-1, s)
         else (case open_create TEMPSATEPUBFILEPATH s of
             (None, s1) \<Rightarrow> Some (-1, s1)
           | (Some fd, s1) \<Rightarrow> do {
               u \<leftarrow> rd 32 u;
               d \<leftarrow> rd (unat satEpubLen) b;
               Some (put_all fd [u, u32_le satEpubLen, d] s1)
             })
     | _ \<Rightarrow> Some (-1, s))"

definition genUuidSatEpubFile :: "buf \<Rightarrow> u32 \<Rightarrow> os \<Rightarrow> (int \<times> os) option"
  where "genUuidSatEpubFile = gen_uuid_file TEMPSATEPUBFILEPATH SATEPUBFILETAIL"

definition init_checkSpcEpubFile :: "dir_ops \<Rightarrow> os \<Rightarrow> int option"
  where "init_checkSpcEpubFile ds s = do { ret \<leftarrow> countSpcEpubFile ds DEPLOYDIR s; Some (if ret = 1 then 0 else -1) }"

text \<open>\<^verbatim>\<open>init_exchangeEpub\<close> from the parsing of the file of the ground on; \<^verbatim>\<open>satEpub\<close> is in the block \<^verbatim>\<open>p\<close>.\<close>

definition exchange_rest :: "nat \<Rightarrow> byte list \<Rightarrow> u32 \<Rightarrow> os \<Rightarrow> (int \<times> os) option" where
  "exchange_rest p satEpub satEpubLen s = do {
     (ret, uuid, spcEpub, spcEpubLen, s1) \<leftarrow> parseSpcEpubFile (Some (replicate 33 0)) 32 s;
     if ret = -1 then do { s2 \<leftarrow> free_ptr spcEpub s1; s3 \<leftarrow> os_free p s2; Some (-1, s3) }
     else do {
       (ret, s2) \<leftarrow> saveSpcEpubToPemFile (ptr_buf spcEpub) spcEpubLen s1;
       s3 \<leftarrow> free_ptr spcEpub s2;
       if ret = -1 then do { s4 \<leftarrow> os_free p s3; Some (-1, s4) }
       else do {
         (ret, s4) \<leftarrow> genTempSatEpubFile uuid 32 (Some satEpub) satEpubLen s3;
         s5 \<leftarrow> os_free p s4;
         if ret = -1 then Some (-1, s5) else genUuidSatEpubFile uuid 32 s5
       }
     }
   }"

text \<open>\<^verbatim>\<open>init_exchangeEpub\<close> from the keys of the node on.\<close>

definition exchange_keys :: "shell \<Rightarrow> os \<Rightarrow> (int \<times> os) option" where
  "exchange_keys sh s = (case create_epub_pem_file sh s of (ret, s1) \<Rightarrow>
     if ret = -1 then Some (-1, s1)
     else case get_pem_key_buffer_len SATEPUBPEMFILEPATH 0 s1 of (ret, n, s2) \<Rightarrow>
       if ret = -1 then Some (-1, s2)
       else (case os_malloc (ucast n) s2 of
           (None, s3) \<Rightarrow> Some (-1, s3)
         | (Some p, s3) \<Rightarrow> do {
             (ret, b, s4) \<leftarrow> pem_to_buffer SATEPUBPEMFILEPATH (Some (replicate (unat n) 0)) n s3;
             if ret = -1 then do { s5 \<leftarrow> os_free p s4; Some (-1, s5) }
             else do {
               satEpub \<leftarrow> b;
               (ret, s5) \<leftarrow> saveSatEpubToTempFile (Some satEpub) n s4;
               if ret = -1 then do { s6 \<leftarrow> os_free p s5; Some (-1, s6) } else exchange_rest p satEpub n s5
             }
           }))"

definition init_exchangeEpub :: "dir_ops \<Rightarrow> shell \<Rightarrow> os \<Rightarrow> (int \<times> os) option" where
  "init_exchangeEpub ds sh s = do {
     (f, nameLen, s1) \<leftarrow> findSpcEpubFile ds DEPLOYDIR s;
     if f = NULL \<or> nameLen = 0 then do { s2 \<leftarrow> free_ptr f s1; Some (-1, s2) }
     else do {
       (ret, s2) \<leftarrow> mvSpcEpubFileToTempDir (ptr_buf f) nameLen s1;
       s3 \<leftarrow> free_ptr f s2;
       if ret = -1 then Some (-1, s3) else exchange_keys sh s3
     }
   }"

definition spc_init_node :: "dir_ops \<Rightarrow> shell \<Rightarrow> os \<Rightarrow> (int \<times> os) option" where
  "spc_init_node ds sh s = (case rm_pem_files sh s of (ret, s1) \<Rightarrow>
     if ret = -1 then Some (-1, s1)
     else do {
       ret \<leftarrow> init_checkSpcEpubFile ds s1;
       if ret = -1 then Some (-1, s1)
       else do { (ret, s2) \<leftarrow> init_exchangeEpub ds sh s1; Some (if ret = -1 then -1 else 0, s2) }
     })"

section \<open>The first stage\<close>

definition countUuidSpcCs1File :: "dir_ops \<Rightarrow> byte list \<Rightarrow> os \<Rightarrow> int option"
  where "countUuidSpcCs1File ds = count_files ds SPCCS1FILETAIL"

definition findUuidSpcCs1File :: "dir_ops \<Rightarrow> byte list \<Rightarrow> os \<Rightarrow> (byte list ptr \<times> u32 \<times> os) option"
  where "findUuidSpcCs1File ds = find_file ds SPCCS1FILETAIL"

definition mvUuidSpcCs1ToSpcCs1 :: "buf \<Rightarrow> u32 \<Rightarrow> os \<Rightarrow> (int \<times> os) option"
  where "mvUuidSpcCs1ToSpcCs1 = mv_deployed SPCCS1FILEPATH"

definition checkSpcCs1 :: "os \<Rightarrow> int"
  where "checkSpcCs1 s = access SPCCS1FILEPATH s"

definition getSpcEpub :: "u32 \<Rightarrow> os \<Rightarrow> (byte list ptr \<times> u32 \<times> os) option"
  where "getSpcEpub = get_pem SPCEPUBPEMFILEPATH"

definition init_getSpcEpub :: "u32 \<Rightarrow> os \<Rightarrow> (byte list ptr \<times> u32 \<times> os) option"
  where "init_getSpcEpub = getSpcEpub"

definition saveMspcToFile :: "buf \<Rightarrow> u32 \<Rightarrow> os \<Rightarrow> (int \<times> os) option"
  where "saveMspcToFile = save_with_len MSPCDATAFILEPATH"

definition parseSpcCs1 :: "buf \<Rightarrow> u32 \<Rightarrow> os \<Rightarrow> (int \<times> buf \<times> os) option" where
  "parseSpcCs1 uuidBuf uuidBufLen s = do {
     (ret, u, fd, s1) \<leftarrow> parse_uuid SPCCS1FILEPATH uuidBuf uuidBufLen s;
     Some (ret, u, s1)
   }"

text \<open>The first half.\<close>

definition genTempSatCs1 :: "buf \<Rightarrow> u32 \<Rightarrow> buf \<Rightarrow> u32 \<Rightarrow> os \<Rightarrow> (int \<times> os) option" where
  "genTempSatCs1 uuid uuidLen mSpc mSpcLen s =
    (case (uuid, mSpc) of
       (Some u, Some b) \<Rightarrow>
         if uuidLen \<noteq> 32 \<or> mSpcLen = 0 then Some (-1, s)
         else (case open_create TEMPSATCS1FILEPATH s of
             (None, s1) \<Rightarrow> Some (-1, s1)
           | (Some fd, s1) \<Rightarrow> do {
               u \<leftarrow> rd 32 u;
               d \<leftarrow> rd (unat (mSpcLen div 2)) b;
               Some (put_all fd [u, u32_le (mSpcLen div 2), d] s1)
             })
     | _ \<Rightarrow> Some (-1, s))"

definition genUuidSatCs1 :: "buf \<Rightarrow> u32 \<Rightarrow> os \<Rightarrow> (int \<times> os) option"
  where "genUuidSatCs1 = gen_uuid_file TEMPSATCS1FILEPATH SATCS1FILETAIL"

definition init_checkSpcCs1 :: "dir_ops \<Rightarrow> os \<Rightarrow> int option"
  where "init_checkSpcCs1 ds s = do { ret \<leftarrow> countUuidSpcCs1File ds DEPLOYDIR s; Some (if ret = 1 then 0 else -1) }"

definition init_cs1 :: "dir_ops \<Rightarrow> shell \<Rightarrow> os \<Rightarrow> (int \<times> os) option" where
  "init_cs1 ds sh s = do {
     (f, nameLen, s1) \<leftarrow> findUuidSpcCs1File ds DEPLOYDIR s;
     if f = NULL \<or> nameLen = 0 then do { s2 \<leftarrow> free_ptr f s1; Some (-1, s2) }
     else do {
       (ret, s2) \<leftarrow> mvUuidSpcCs1ToSpcCs1 (ptr_buf f) nameLen s1;
       s3 \<leftarrow> free_ptr f s2;
       if ret = -1 \<or> checkSpcCs1 s3 = -1 \<or> access (str SPCEPUBPEMFILEPATH) s3 \<noteq> 0 then Some (-1, s3)
       else do {
         (ret, mSpc, mSpcLen, s4) \<leftarrow> spc_en_enc_and_en64 sh (Some SECRET) 7 s3;
         if ret = -1 then Some (-1, s4)
         else do {
           (ret, s5) \<leftarrow> saveMspcToFile (ptr_buf mSpc) mSpcLen s4;
           if ret = -1 then do { s6 \<leftarrow> free_ptr mSpc s5; Some (-1, s6) }
           else do {
             (ret, uuid, s6) \<leftarrow> parseSpcCs1 (Some (replicate 33 0)) 32 s5;
             if ret = -1 then do { s7 \<leftarrow> free_ptr mSpc s6; Some (-1, s7) }
             else do {
               (ret, s7) \<leftarrow> genTempSatCs1 uuid 32 (ptr_buf mSpc) mSpcLen s6;
               s8 \<leftarrow> free_ptr mSpc s7;
               if ret = -1 then Some (-1, s8) else genUuidSatCs1 uuid 32 s8
             }
           }
         }
       }
     }
   }"

definition spc_cs_1 :: "dir_ops \<Rightarrow> shell \<Rightarrow> os \<Rightarrow> (int \<times> os) option" where
  "spc_cs_1 ds sh s = do {
     ret \<leftarrow> init_checkSpcCs1 ds s;
     if ret = -1 then Some (-1, s)
     else do { (ret, s1) \<leftarrow> init_cs1 ds sh s; Some (if ret = -1 then -1 else 0, s1) }
   }"

section \<open>The second stage\<close>

definition countUuidSpcCs2File :: "dir_ops \<Rightarrow> byte list \<Rightarrow> os \<Rightarrow> int option"
  where "countUuidSpcCs2File ds = count_files ds SPCCS2FILETAIL"

definition findUuidSpcCs2File :: "dir_ops \<Rightarrow> byte list \<Rightarrow> os \<Rightarrow> (byte list ptr \<times> u32 \<times> os) option"
  where "findUuidSpcCs2File ds = find_file ds SPCCS2FILETAIL"

definition mvUuidSpcCs2ToSpcCs2 :: "buf \<Rightarrow> u32 \<Rightarrow> os \<Rightarrow> (int \<times> os) option"
  where "mvUuidSpcCs2ToSpcCs2 = mv_deployed SPCCS2FILEPATH"

definition checkSpcCs2 :: "os \<Rightarrow> int"
  where "checkSpcCs2 s = access SPCCS2FILEPATH s"

text \<open>The length of one half, behind the identifier.\<close>

definition half_len :: "byte list \<Rightarrow> os \<Rightarrow> (u32 \<times> file_desc) option \<times> os" where
  "half_len path s = (case open_existing path s of
     (None, s1) \<Rightarrow> (None, s1)
   | (Some fd, s1) \<Rightarrow> (case read_into (lseek fd 32) (u32_le 0) s1 of (ret, l, fd, s2) \<Rightarrow>
       (if ret \<noteq> 4 \<or> le_u32 l = 0 then None else Some (le_u32 l, fd), s2)))"

text \<open>\<^verbatim>\<open>read\<close> of \<^verbatim>\<open>n\<close> bytes to a position of the buffer; a length above the range of \<^verbatim>\<open>ssize_t\<close> is refused.\<close>

definition read_half :: "file_desc \<Rightarrow> nat \<Rightarrow> u32 \<Rightarrow> byte list \<Rightarrow> os \<Rightarrow> (int \<times> byte list \<times> os) option" where
  "read_half fd off n b s =
    (if sint n < 0 then Some (-1, b, s)
     else case read_fd fd (unat n) s of
         (None, fd1, s1) \<Rightarrow> Some (-1, b, s1)
       | (Some d, fd1, s1) \<Rightarrow> do { b' \<leftarrow> wr off d b; Some (int (length d), b', s1) })"

text \<open>\<^verbatim>\<open>_getMsat\<close>: both halves in one block.  The sum of the lengths is a 32-bit word, the results of
  \<^verbatim>\<open>read\<close> are compared as such, and the block is not freed on an error.\<close>

definition getMsat :: "os \<Rightarrow> (byte list ptr \<times> u32 \<times> os) option" where
  "getMsat s = (case half_len SPCCS1FILEPATH s of
     (None, s1) \<Rightarrow> Some (NULL, 0, s1)
   | (Some (up, fd1), s1) \<Rightarrow> (case half_len SPCCS2FILEPATH s1 of
         (None, s2) \<Rightarrow> Some (NULL, 0, s2)
       | (Some (down, fd2), s2) \<Rightarrow> (case os_malloc (ucast (up + down)) s2 of
             (None, s3) \<Rightarrow> Some (NULL, 0, s3)
           | (Some p, s3) \<Rightarrow> do {
               (ret, b, s4) \<leftarrow> read_half fd1 0 up (replicate (unat (up + down)) 0) s3;
               if word_of_int ret \<noteq> up then Some (NULL, 0, s4)
               else do {
                 (ret, b, s5) \<leftarrow> read_half fd2 (unat up) down b s4;
                 if word_of_int ret \<noteq> down then Some (NULL, 0, s5) else Some (Ptr p b, up + down, s5)
               }
             })))"

definition getSatEpub :: "u32 \<Rightarrow> os \<Rightarrow> (byte list ptr \<times> u32 \<times> os) option"
  where "getSatEpub = get_pem SATEPUBPEMFILEPATH"

definition checkMsg :: "buf \<Rightarrow> u32 \<Rightarrow> int option" where
  "checkMsg msg msgLen =
    (case msg of None \<Rightarrow> Some (-1)
     | Some m \<Rightarrow>
         if msgLen = 0 then Some (-1)
         else if msgLen \<noteq> word_of_nat (length THEWORDS) then Some 1
         else do { d \<leftarrow> rd (length THEWORDS) m; Some (if d \<noteq> THEWORDS then 1 else 0) })"

definition parseSpcCs2 :: "buf \<Rightarrow> u32 \<Rightarrow> os \<Rightarrow> (int \<times> buf \<times> os) option" where
  "parseSpcCs2 uuidBuf uuidBufLen s = do {
     (ret, u, fd, s1) \<leftarrow> parse_uuid SPCCS2FILEPATH uuidBuf uuidBufLen s;
     Some (ret, u, s1)
   }"

definition getMspc :: "os \<Rightarrow> (byte list ptr \<times> u32 \<times> os) option" where
  "getMspc s = (case open_existing MSPCDATAFILEPATH s of
     (None, s1) \<Rightarrow> Some (NULL, 0, s1)
   | (Some fd, s1) \<Rightarrow> (case read_into fd (u32_le 0) s1 of (ret, l, fd, s2) \<Rightarrow>
       let n = le_u32 l in
       if ret \<noteq> 4 \<or> n > 1024 \<or> n = 0 then Some (NULL, 0, s2)
       else (case os_malloc (ucast n) s2 of
           (None, s3) \<Rightarrow> Some (NULL, 0, s3)
         | (Some p, s3) \<Rightarrow> (case read_into fd (replicate (unat n) 0) s3 of (ret, k, fd, s4) \<Rightarrow>
             if ret \<noteq> int (unat n) then Some (NULL, 0, s4) else Some (Ptr p k, n, s4)))))"

text \<open>The second half, or a length of 0 when the check failed.\<close>

definition genTempSatCs2 :: "buf \<Rightarrow> u32 \<Rightarrow> buf \<Rightarrow> u32 \<Rightarrow> os \<Rightarrow> (int \<times> os) option" where
  "genTempSatCs2 uuid uuidLen mSpc mSpcLen s =
    (case uuid of None \<Rightarrow> Some (-1, s)
     | Some u \<Rightarrow>
         if uuidLen \<noteq> 32 \<or> (mSpc = None) \<noteq> (mSpcLen = 0) then Some (-1, s)
         else (case open_create TEMPSATCS2FILEPATH s of
             (None, s1) \<Rightarrow> Some (-1, s1)
           | (Some fd, s1) \<Rightarrow> do {
               u \<leftarrow> rd 32 u;
               case mSpc of None \<Rightarrow> Some (put_all fd [u, u32_le 0] s1)
               | Some b \<Rightarrow> do {
                   let n = mSpcLen - mSpcLen div 2;
                   d \<leftarrow> rd (unat n) (drop (unat (mSpcLen div 2)) b);
                   Some (put_all fd [u, u32_le n, d] s1)
                 }
             }))"

definition genUuidSatCs2 :: "buf \<Rightarrow> u32 \<Rightarrow> os \<Rightarrow> (int \<times> os) option"
  where "genUuidSatCs2 = gen_uuid_file TEMPSATCS2FILEPATH SATCS2FILETAIL"

definition init_checkSpcCs2 :: "dir_ops \<Rightarrow> os \<Rightarrow> int option"
  where "init_checkSpcCs2 ds s = do { ret \<leftarrow> countUuidSpcCs2File ds DEPLOYDIR s; Some (if ret = 1 then 0 else -1) }"

text \<open>\<^verbatim>\<open>init_cs2\<close> after the check: the reply.\<close>

definition cs2_reply :: "int \<Rightarrow> os \<Rightarrow> (int \<times> os) option" where
  "cs2_reply check s = do {
     (ret, uuid, s1) \<leftarrow> parseSpcCs2 (Some (replicate 33 0)) 33 s;
     if ret = -1 then Some (-1, s1)
     else do {
       (ret, s2) \<leftarrow> (if check \<noteq> 0 then genTempSatCs2 uuid 32 None 0 s1
         else do {
           (mSpc, n, s2) \<leftarrow> getMspc s1;
           if mSpc = NULL \<or> n = 0 then do { s3 \<leftarrow> free_ptr mSpc s2; Some (-1, s3) }
           else do {
             (ret, s3) \<leftarrow> genTempSatCs2 uuid 32 (ptr_buf mSpc) n s2;
             s4 \<leftarrow> free_ptr mSpc s3;
             Some (ret, s4)
           }
         });
       if ret = -1 then Some (-1, s2) else genUuidSatCs2 uuid 32 s2
     }
   }"

text \<open>\<^verbatim>\<open>init_cs2\<close> from the halves of the message on.\<close>

definition cs2_check :: "shell \<Rightarrow> os \<Rightarrow> (int \<times> os) option" where
  "cs2_check sh s = do {
     (mSat, mSatLen, s1) \<leftarrow> getMsat s;
     if mSat = NULL \<or> mSatLen = 0 then do { s2 \<leftarrow> free_ptr mSat s1; Some (-1, s2) }
     else do {
       (ret, mSatDe, n, s2) \<leftarrow> sat_de_de64_and_dec sh (ptr_buf mSat) mSatLen s1;
       s3 \<leftarrow> free_ptr mSat s2;
       if ret = -1 then Some (-1, s3)
       else do {
         check \<leftarrow> checkMsg (ptr_buf mSatDe) n;
         s4 \<leftarrow> free_ptr mSatDe s3;
         if check = -1 then Some (-1, s4) else cs2_reply check s4
       }
     }
   }"

definition init_cs2 :: "dir_ops \<Rightarrow> shell \<Rightarrow> os \<Rightarrow> (int \<times> os) option" where
  "init_cs2 ds sh s = do {
     (f, nameLen, s1) \<leftarrow> findUuidSpcCs2File ds DEPLOYDIR s;
     if f = NULL \<or> nameLen = 0 then do { s2 \<leftarrow> free_ptr f s1; Some (-1, s2) }
     else do {
       (ret, s2) \<leftarrow> mvUuidSpcCs2ToSpcCs2 (ptr_buf f) nameLen s1;
       s3 \<leftarrow> free_ptr f s2;
       if ret = -1 \<or> checkSpcCs1 s3 = -1 \<or> checkSpcCs2 s3 = -1 then Some (-1, s3) else cs2_check sh s3
     }
   }"

definition spc_cs_2 :: "dir_ops \<Rightarrow> shell \<Rightarrow> os \<Rightarrow> (int \<times> os) option" where
  "spc_cs_2 ds sh s = do {
     ret \<leftarrow> init_checkSpcCs2 ds s;
     if ret = -1 then Some (-1, s)
     else do { (ret, s1) \<leftarrow> init_cs2 ds sh s; Some (if ret = -1 then -1 else 0, s1) }
   }"

end
