(* ===== verification/Node_Start.thy ===== *)
theory Node_Start
  imports Node_Init Trash File_Ops
begin

text \<open>
  The two programs of the node: \<^verbatim>\<open>spcstart\<close> (\<^verbatim>\<open>spcstart.c\<close>) puts the file of a deployment and its checksum in the
  directory of deployments and runs the step on keys that the command names; \<^verbatim>\<open>spcstartwork\<close>
  (\<^verbatim>\<open>spc_start_work.c\<close>) unpacks an upload and works on its parts: the files to keep, the transactions and the commands.

  The calls of the upgrade scripts are inside \<^verbatim>\<open>#if BASIC7TEST\<close>, a macro of a header that \<^verbatim>\<open>spcstart.c\<close> does not
  include: they are not compiled, and so not in the model, but the lines of the commands are put together.
\<close>

definition PATHBUFFERSIZE :: nat where "PATHBUFFERSIZE = 1024"
definition NAMEBUFFERSIZE :: nat where "NAMEBUFFERSIZE = 50"
definition PREPAREDIRTAIL :: "byte list" where "PREPAREDIRTAIL = str ''prepare/''"
definition DEPLOYDIRTAIL :: "byte list" where "DEPLOYDIRTAIL = str ''deploy/''"
definition DATAFILENAME :: "byte list" where "DATAFILENAME = str ''spc.data''"

section \<open>The file of a deployment\<close>

definition getCmd :: "byte list \<Rightarrow> os \<Rightarrow> int \<times> os" where
  "getCmd dPath s = (case open_existing (c_str dPath) s of
     (None, s1) \<Rightarrow> (-1, s1)
   | (Some fd, s1) \<Rightarrow> (case read_into (lseek fd 9) [0] s1 of (ret, head, fd, s2) \<Rightarrow>
       if ret \<noteq> 1 \<or> head \<noteq> [0xaa] then (-1, s2)
       else case read_into fd [0] s2 of (ret, cmd, fd, s3) \<Rightarrow>
         (if ret \<noteq> 1 \<or> hd cmd > 0xaa \<or> hd cmd < 0xa1 then -1 else uint (hd cmd) - 0xa0, s3)))"

text \<open>\<^verbatim>\<open>open\<close> with \<^verbatim>\<open>O_WRONLY | O_CREAT\<close> fails on a directory.\<close>

definition open_deploy :: "byte list \<Rightarrow> os \<Rightarrow> file_desc option \<times> os" where
  "open_deploy p s = (if p \<in> dirs s then (None, snd (io_step s)) else open_create p s)"

text \<open>One turn of the loop: as many bytes are read and written, or it ends with an error.\<close>

definition copy_block :: "nat \<Rightarrow> file_desc \<Rightarrow> file_desc \<Rightarrow> os \<Rightarrow> bool \<times> file_desc \<times> file_desc \<times> os" where
  "copy_block n dFd fFd s = (case read_into dFd (replicate n 0) s of (ret, b, dFd, s1) \<Rightarrow>
     if ret \<noteq> int n then (False, dFd, fFd, s1)
     else case put fFd b s1 of (ok, fFd, s2) \<Rightarrow> (ok, dFd, fFd, s2))"

primrec copy_blocks :: "nat \<Rightarrow> file_desc \<Rightarrow> file_desc \<Rightarrow> os \<Rightarrow> bool \<times> file_desc \<times> file_desc \<times> os" where
  "copy_blocks 0 dFd fFd s = (True, dFd, fFd, s)"
| "copy_blocks (Suc k) dFd fFd s = (case copy_block PATHBUFFERSIZE dFd fFd s of (ok, dFd, fFd, s1) \<Rightarrow>
     if ok then copy_blocks k dFd fFd s1 else (False, dFd, fFd, s1))"

definition copy_data :: "nat \<Rightarrow> file_desc \<Rightarrow> file_desc \<Rightarrow> os \<Rightarrow> int \<times> os" where
  "copy_data datLen dFd fFd s = (case copy_blocks (datLen div PATHBUFFERSIZE) dFd fFd s of (ok, dFd, fFd, s1) \<Rightarrow>
     if \<not> ok then (-1, s1)
     else if datLen mod PATHBUFFERSIZE = 0 then (0, s1)
     else case copy_block (datLen mod PATHBUFFERSIZE) dFd fFd s1 of (ok, dFd, fFd, s2) \<Rightarrow> (if ok then 0 else -1, s2))"

text \<open>\<^verbatim>\<open>_genFile\<close> from the checksum file on.  The buffer \<^verbatim>\<open>fPath\<close> holds the directory at first, then the path of the
  checksum file, then that of the file, and at last the blocks of the data.\<close>

definition genFile_write :: "byte list \<Rightarrow> nat \<Rightarrow> byte list \<Rightarrow> byte list \<Rightarrow> file_desc \<Rightarrow> os \<Rightarrow> (int \<times> os) option" where
  "genFile_write fPath fPathLen fileName md5buffer dFd s = do {
     fPath \<leftarrow> strncat fPath (str ''checksum'') 8;
     case open_deploy (c_str fPath) s of
       (None, s1) \<Rightarrow> Some (-1, s1)
     | (Some cFd, s1) \<Rightarrow> do {
         dir \<leftarrow> rd fPathLen fPath;
         let fPath = dir @ replicate (PATHBUFFERSIZE - fPathLen) 0;
         case put_all cFd [md5buffer, str ''  '', dir, fileName, [0x0a]] s1 of (ret, s2) \<Rightarrow>
           if ret \<noteq> 0 then Some (-1, s2)
           else do {
             fPath \<leftarrow> strncat fPath fileName (length fileName);
             case open_deploy (c_str fPath) s2 of
               (None, s3) \<Rightarrow> Some (-1, s3)
             | (Some fFd, s3) \<Rightarrow> (case read_into dFd (u32_le 0) s3 of (ret, datLen, dFd, s4) \<Rightarrow>
                 if ret \<noteq> 4 then Some (-1, s4) else Some (copy_data (unat (le_u32 datLen)) dFd fFd s4))
           }
       }
   }"

definition genFile :: "byte list \<Rightarrow> byte list \<Rightarrow> nat \<Rightarrow> os \<Rightarrow> (int \<times> os) option" where
  "genFile dPath fPath fPathLen s = (case open_existing (c_str dPath) s of
     (None, s1) \<Rightarrow> Some (-1, s1)
   | (Some dFd, s1) \<Rightarrow> (case read_into (lseek dFd 11) [0] s1 of (ret, head, dFd, s2) \<Rightarrow>
       if ret \<noteq> 1 \<or> head \<noteq> [0xbb] then Some (-1, s2)
       else case read_into dFd (u32_le 0) s2 of (ret, l, dFd, s3) \<Rightarrow>
         let nameLen = unat (le_u32 l) in
         if ret \<noteq> 4 \<or> nameLen > NAMEBUFFERSIZE then Some (-1, s3)
         else case read_into dFd (replicate nameLen 0) s3 of (ret, fileName, dFd, s4) \<Rightarrow>
           if ret \<noteq> int nameLen then Some (-1, s4)
           else case read_into dFd (replicate 32 0) s4 of (ret, md5buffer, dFd, s5) \<Rightarrow>
             if ret \<noteq> 32 then Some (-1, s5) else genFile_write fPath fPathLen fileName md5buffer dFd s5))"

section \<open>The program of deployments\<close>

text \<open>The argument of the program at the start of a cleared buffer, and strings after it.\<close>

fun strncats :: "byte list \<Rightarrow> byte list list \<Rightarrow> byte list option" where
  "strncats b [] = Some b"
| "strncats b (x # xs) = do { b \<leftarrow> strncat b x (length x); strncats b xs }"

definition work_path :: "byte list \<Rightarrow> byte list list \<Rightarrow> byte list option"
  where "work_path arg tails = do { b \<leftarrow> wr 0 arg (replicate PATHBUFFERSIZE 0); strncats b tails }"

definition upgrade_script :: "int \<Rightarrow> byte list" where
  "upgrade_script cmd =
    (if cmd = 1 then str ''script/sLinuxAppUpgrade.sh''
     else if cmd = 2 then str ''script/sLinuxScriptUpgrade.sh''
     else if cmd = 3 then str ''script/sSpcOsUpgrade.sh''
     else if cmd = 4 then str ''script/sSpcOsRecovery.sh''
     else if cmd = 5 then str ''script/sSpcAppUpgrade.sh''
     else if cmd = 6 then str ''script/sSpcScriptUpgrade.sh''
     else str ''script/sSpcLibUpgrade.sh'')"

definition script_line :: "int \<Rightarrow> byte list \<Rightarrow> byte list option" where
  "script_line cmd arg = do {
     b \<leftarrow> work_path arg [];
     n \<leftarrow> strlen b;
     l \<leftarrow> strncats (replicate PATHBUFFERSIZE 0) [take n b, upgrade_script cmd, str '' ''];
     strncat l b n
   }"

definition run_command :: "int \<Rightarrow> byte list \<Rightarrow> dir_ops \<Rightarrow> shell \<Rightarrow> os \<Rightarrow> os option" where
  "run_command cmd arg ds sh s =
    (if 1 \<le> cmd \<and> cmd \<le> 7 then do { l \<leftarrow> script_line cmd arg; Some s }
     else if cmd = 8 then do { (ret, s1) \<leftarrow> spc_init_node ds sh s; Some s1 }
     else if cmd = 9 then do { (ret, s1) \<leftarrow> spc_cs_1 ds sh s; Some s1 }
     else if cmd = 10 then do { (ret, s1) \<leftarrow> spc_cs_2 ds sh s; Some s1 }
     else Some s)"

definition spcstart_main :: "byte list list \<Rightarrow> dir_ops \<Rightarrow> shell \<Rightarrow> os \<Rightarrow> (int \<times> os) option" where
  "spcstart_main args ds sh s = (case args of
     [arg] \<Rightarrow> do {
       buffer1 \<leftarrow> work_path arg [PREPAREDIRTAIL, DATAFILENAME];
       buffer2 \<leftarrow> work_path arg [PREPAREDIRTAIL, DEPLOYDIRTAIL];
       case getCmd buffer1 s of (cmd, s1) \<Rightarrow> do {
         s2 \<leftarrow> (if cmd \<noteq> 4 then do {
             n \<leftarrow> strlen buffer2;
             (ret, s2) \<leftarrow> genFile buffer1 buffer2 n s1;
             Some s2
           } else Some s1);
         _ \<leftarrow> work_path arg [];
         s3 \<leftarrow> run_command cmd arg ds sh s2;
         Some (0, s3)
       }
     }
   | _ \<Rightarrow> Some (-1, s))"

section \<open>The program of uploads\<close>

definition CLEANUPLOADDIRCMD :: "byte list" where "CLEANUPLOADDIRCMD = str ''rm -f /mnt/spcdata/upload/*''"
definition CLEANTXFILESDIRCMD :: "byte list" where "CLEANTXFILESDIRCMD = str ''rm -f /mnt/spcdata/transaction/txfiles/*''"

definition spc_start_work :: "dir_ops \<Rightarrow> shell \<Rightarrow> (nat \<Rightarrow> bool) \<Rightarrow> otp_ops \<Rightarrow> cipher \<Rightarrow> dir_list \<Rightarrow> rand_fun \<Rightarrow> (nat \<Rightarrow> u32)
    \<Rightarrow> parse_state \<Rightarrow> os \<Rightarrow> net \<Rightarrow> (int \<times> parse_state \<times> os \<times> net) option" where
  "spc_start_work ds sh eintr ops aes ls rand time g s n = do {
     ret \<leftarrow> prepare_checkDataFile ds s;
     if ret = -1 then Some (-1, g, s, n)
     else do {
       (ret, s1) \<leftarrow> prepare_processDataFile ds sh eintr s;
       if ret = -1 then Some (-1, g, s1, n)
       else do {
         s2 \<leftarrow> spc_do_keep sh s1;
         (g, s3, n) \<leftarrow> spc_start_mission ops aes ls g s2 n;
         (s4, n) \<leftarrow> spc_do_cmd ds sh rand time s3 n;
         Some (0, g, sh_system sh CLEANTXFILESDIRCMD (sh_system sh CLEANUPLOADDIRCMD s4), n)
       }
     }
   }"

definition spcstartwork_main :: "dir_ops \<Rightarrow> shell \<Rightarrow> (nat \<Rightarrow> bool) \<Rightarrow> otp_ops \<Rightarrow> cipher \<Rightarrow> dir_list \<Rightarrow> rand_fun \<Rightarrow> (nat \<Rightarrow> u32)
    \<Rightarrow> parse_state \<Rightarrow> os \<Rightarrow> net \<Rightarrow> (int \<times> parse_state \<times> os \<times> net) option" where
  "spcstartwork_main ds sh eintr ops aes ls rand time g s n = do {
     (ret, g, s, n) \<leftarrow> spc_start_work ds sh eintr ops aes ls rand time g s n;
     Some (0, g, s, n)
   }"

end
