(* ===== verification/Node_Init_Correct.thy ===== *)
theory Node_Init_Correct
  imports Node_Init Commands_Correct
begin

text \<open>The two stages of the check and the exchange of keys on a disk that works.\<close>

section \<open>Finding, moving and naming files\<close>

text \<open>The directory of deployments with one file of the step.\<close>

definition deployed :: "dir_ops \<Rightarrow> os \<Rightarrow> byte list \<Rightarrow> byte list \<Rightarrow> bool" where
  "deployed ds s tail name \<longleftrightarrow> name \<noteq> [] \<and> 0 \<notin> set name \<and> 0x2f \<notin> set name \<and> length name < 256 \<and> dir_stale ds name = Some (length name) \<and>
     (\<exists>es. dir_read ds DEPLOYDIR s = Some es \<and> find_tail tail es = Some (Some name) \<and> count_tail tail es 0 = Some 1)"

lemma deployedD:
  assumes "deployed ds s tail name"
  shows "name \<noteq> []" "0 \<notin> set name" "0x2f \<notin> set name" "length name < 256" "count_files ds tail DEPLOYDIR s = Some 1"
    "no_oom (hp s) \<Longrightarrow> find_file ds tail DEPLOYDIR s =
      Some (Ptr (calls (hp s)) (name @ [0]), word_of_nat (length name), s\<lparr>hp := alloc 1 (hp s)\<rparr>)"
    "(word_of_nat (length name) :: u32) \<noteq> 0"
proof -
  show l: "name \<noteq> []" "length name < 256" using assms by (simp_all add: deployed_def)
  have "unat (word_of_nat (length name) :: u32) = length name" using l(2) by (intro unat_u32_len) simp
  then show "(word_of_nat (length name) :: u32) \<noteq> 0" using l(1) by (metis length_0_conv unat_0)
qed (use assms in \<open>auto simp: deployed_def count_files_def find_file_def os_malloc_ok simp del: One_nat_def\<close>)

lemma deploy_dir: "length DEPLOYDIR = 28" "0 \<notin> set DEPLOYDIR" "DEPLOYDIR \<noteq> []" "last DEPLOYDIR = 0x2f"
  by code_simp+

lemma rename_ok:
  assumes "disk_ok s" "files s old = Some f" "dirname new \<in> dirs s" "new \<notin> dirs s"
  shows "rename_file old new s = (0, disk s (Suc (io_calls s)) ((files s)(old := None, new \<mapsto> f)))"
proof -
  obtain k where "io_step s = (Some k, steps s (Suc (io_calls s)))" using assms(1) by (rule io_step_disk)
  then show ?thesis using assms(2-4) by (simp add: rename_file_def)
qed

lemma mv_deployed_ok:
  assumes s: "disk_ok s" "no_oom (hp s)" "heap_ok (hp s)" "files s (DEPLOYDIR @ name) = Some f"
    and n: "name \<noteq> []" "0 \<notin> set name" "length name < 256" and d: "dirname new \<in> dirs s" "new \<notin> dirs s"
  shows "\<exists>s'. mv_deployed new (Some (name @ [0])) (word_of_nat (length name)) s = Some (0, s') \<and>
    after s ((files s)(DEPLOYDIR @ name := None, new \<mapsto> f)) s'"
proof -
  let ?n = "word_of_nat (length name) :: u32" and ?h2 = "alloc 1 (alloc 1 (hp s))"
  have u: "unat ?n = length name" using n(3) by (intro unat_u32_len) simp
  have nz: "?n \<noteq> 0" using u n(1) by (metis length_0_conv unat_0)
  have l: "unat (29 + ?n) = 29 + length name" using n(3) unat_u32_len [of "29 + length name"] by simp
  have w: "wr 0 DEPLOYDIR (replicate (29 + length name) 0) = Some (DEPLOYDIR @ replicate (Suc (length name)) 0)"
    using wr_0 [of DEPLOYDIR "replicate (29 + length name) 0"] deploy_dir(1) by simp
  have c: "strncat (DEPLOYDIR @ replicate (Suc (length name)) 0) (name @ [0]) (length name) = Some (DEPLOYDIR @ name @ [0])"
    using strncat_app [OF deploy_dir(2) n(2), of "Suc (length name)" "[0]" "length name"] by simp
  have cs: "c_str (DEPLOYDIR @ name @ [0]) = DEPLOYDIR @ name"
    using c_str_app [of "DEPLOYDIR @ name" "[]"] deploy_dir(2) n(2) by simp
  let ?g = "(files s)(DEPLOYDIR @ name := None, new \<mapsto> f)"
  let ?s2 = "s\<lparr>hp := ?h2\<rparr>" 
  let ?h3 = "?h2\<lparr>live := live ?h2 - {calls (hp s)}\<rparr>"
  let ?h4 = "?h3\<lparr>live := live ?h3 - {Suc (calls (hp s))}\<rparr>"
  note b = two_blocks [OF s(2,3)]
  have r: "rename_file (DEPLOYDIR @ name) new ?s2 = (0, disk ?s2 (Suc (io_calls s)) ?g)"
    using rename_ok [of ?s2 "DEPLOYDIR @ name" f new] s d by simp
  have f1: "os_free (calls (hp s)) (disk ?s2 (Suc (io_calls s)) ?g) = Some (disk (s\<lparr>hp := ?h3\<rparr>) (Suc (io_calls s)) ?g)"
    using os_free_ok [of "calls (hp s)" "disk ?s2 (Suc (io_calls s)) ?g"] b(1) by simp
  have f2: "os_free (Suc (calls (hp s))) (disk (s\<lparr>hp := ?h3\<rparr>) (Suc (io_calls s)) ?g) = Some (disk (s\<lparr>hp := ?h4\<rparr>) (Suc (io_calls s)) ?g)"
    using os_free_ok [of "Suc (calls (hp s))" "disk (s\<lparr>hp := ?h3\<rparr>) (Suc (io_calls s)) ?g"] b(2) by simp
  have m1: "os_malloc z s = (Some (calls (hp s)), s\<lparr>hp := alloc 1 (hp s)\<rparr>)" for z using s(2) by (rule os_malloc_ok)
  have m2: "os_malloc z (s\<lparr>hp := alloc 1 (hp s)\<rparr>) = (Some (Suc (calls (hp s))), ?s2)" for z
    using os_malloc_ok [of "s\<lparr>hp := alloc 1 (hp s)\<rparr>"] alloc_ok(1) [OF s(2)] b(6) by simp
  have "mv_deployed new (Some (name @ [0])) ?n s = Some (0, disk (s\<lparr>hp := ?h4\<rparr>) (Suc (io_calls s)) ?g)"
    using nz m1 m2 w c cs r f1 f2 by (simp add: mv_deployed_def Let_def u l deploy_dir(1) add.commute [of _ 1])
  moreover have "after s ?g (disk (s\<lparr>hp := ?h4\<rparr>) (Suc (io_calls s)) ?g)" using b(3-5) by (simp add: after_def)
  ultimately show ?thesis by blast
qed

definition uuid_ok :: "byte list \<Rightarrow> bool"
  where "uuid_ok uuid \<longleftrightarrow> length uuid = 32 \<and> 0 \<notin> set uuid \<and> 0x2f \<notin> set uuid"

definition down_path :: "byte list \<Rightarrow> byte list \<Rightarrow> byte list"
  where "down_path uuid tail = SECDOWNLOADDIR @ uuid @ tail"

lemma gen_uuid_file_ok:
  assumes s: "disk_ok s" "no_oom (hp s)" "heap_ok (hp s)" "files s temp = Some f"
    and u: "uuid_ok uuid" and t: "0 \<notin> set tail" "0x2f \<notin> set tail" and d: "SECDOWNLOADDIR \<in> dirs s" "down_path uuid tail \<notin> dirs s"
  shows "\<exists>s'. gen_uuid_file temp tail (Some (uuid @ [0])) 32 s = Some (0, s') \<and>
    after s ((files s)(temp := None, down_path uuid tail \<mapsto> f)) s'"
proof -
  have c: "length SECDOWNLOADDIR = 22" "0 \<notin> set SECDOWNLOADDIR" "SECDOWNLOADDIR \<noteq> []" "last SECDOWNLOADDIR = 0x2f" by code_simp+
  note u = u [unfolded uuid_ok_def]
  let ?s1 = "s\<lparr>hp := alloc 1 (hp s)\<rparr>" and ?k = "length tail"
  have w: "wr 0 SECDOWNLOADDIR (replicate (55 + ?k) 0) = Some (SECDOWNLOADDIR @ replicate (33 + ?k) 0)"
    using wr_0 [of SECDOWNLOADDIR "replicate (55 + ?k) 0"] c(1) by simp
  have b1: "strncat (SECDOWNLOADDIR @ replicate (33 + ?k) 0) (uuid @ [0]) 32 = Some ((SECDOWNLOADDIR @ uuid) @ replicate (Suc ?k) 0)"
    using strncat_app [OF c(2), of uuid "33 + ?k" "[0]" 32] u by simp
  have z: "0 \<notin> set (SECDOWNLOADDIR @ uuid)" using c(2) u by simp
  have b2: "strncat ((SECDOWNLOADDIR @ uuid) @ replicate (Suc ?k) 0) tail ?k = Some (down_path uuid tail @ [0])"
    using strncat_app [OF z t(1), of "Suc ?k" "[]" ?k] by (simp add: down_path_def)
  have cs: "c_str (down_path uuid tail @ [0]) = down_path uuid tail"
    using c_str_app [of "down_path uuid tail" "[]"] z t(1) by (simp add: down_path_def)
  have dn: "dirname (down_path uuid tail) = SECDOWNLOADDIR"
    using dirname_app [of "uuid @ tail" SECDOWNLOADDIR] c(3,4) u t(2) by (simp add: down_path_def)
  let ?g = "(files s)(temp := None, down_path uuid tail \<mapsto> f)"
  have r: "rename_file temp (down_path uuid tail) ?s1 = (0, disk ?s1 (Suc (io_calls s)) ?g)"
    using rename_ok [of ?s1 temp f "down_path uuid tail"] s d dn by simp
  have a: "after ?s1 ?g (disk ?s1 (Suc (io_calls s)) ?g)" using s(2,3) alloc_ok [of "hp s" 1] by (simp add: after_def)
  note q = after_alloc [OF a s(3)]
  have e: "22 + 32 + ?k + 1 = 55 + ?k" by simp
  show ?thesis
    using os_malloc_ok [OF s(2)] w b1 b2 cs r q(2,3) by (simp only: gen_uuid_file_def c(1) e Let_def option.case) simp
qed

section \<open>Writing and reading\<close>

abbreviation old_bytes :: "byte list \<Rightarrow> os \<Rightarrow> byte list"
  where "old_bytes p s \<equiv> (case files s p of None \<Rightarrow> [] | Some f \<Rightarrow> f)"

lemma open_create_any:
  assumes "disk_ok s" "dirname p \<in> dirs s"
  shows "open_create p s = (Some \<lparr>fd_path = p, fd_off = 0\<rparr>, disk s (Suc (io_calls s)) ((files s)(p \<mapsto> old_bytes p s)))"
proof -
  obtain k where "io_step s = (Some k, steps s (Suc (io_calls s)))" using assms(1) by (rule io_step_disk)
  then show ?thesis using assms(2) by (cases "files s p") (simp_all add: open_create_def dom_def fun_upd_idem)
qed

lemma overlay_app: "overlay (length pre) d (pre @ f) = pre @ d @ drop (length d) f"
  by (cases "d = []") (simp_all add: overlay_def)

lemma put_ok:
  assumes "disk_ok s" "length d < 2 ^ 32"
  shows "put \<lparr>fd_path = p, fd_off = length pre\<rparr> d (disk s j ((files s)(p \<mapsto> pre @ f))) =
    (True, \<lparr>fd_path = p, fd_off = length (pre @ d)\<rparr>, disk s (Suc j) ((files s)(p \<mapsto> (pre @ d) @ drop (length d) f)))"
  using write_all_disk [of "disk s j ((files s)(p \<mapsto> pre @ f))" p "pre @ f" d "length pre"] assms by (simp add: put_def overlay_app)

lemma put_all_ok:
  assumes "disk_ok s" "\<forall>d\<in>set ds. length d < 2 ^ 32"
  shows "\<exists>k. put_all \<lparr>fd_path = p, fd_off = length pre\<rparr> ds (disk s j ((files s)(p \<mapsto> pre @ f))) =
    (0, disk s k ((files s)(p \<mapsto> pre @ concat ds @ drop (length (concat ds)) f)))"
  using assms
proof (induction ds arbitrary: pre f j)
  case (Cons d ds)
  then have l: "length d < 2 ^ 32" "\<forall>d\<in>set ds. length d < 2 ^ 32" by simp_all
  obtain k where "put_all \<lparr>fd_path = p, fd_off = length (pre @ d)\<rparr> ds (disk s (Suc j) ((files s)(p \<mapsto> (pre @ d) @ drop (length d) f))) =
      (0, disk s k ((files s)(p \<mapsto> (pre @ d) @ concat ds @ drop (length (concat ds)) (drop (length d) f))))"
    using Cons.IH [where pre = "pre @ d" and j = "Suc j" and f = "drop (length d) f", OF Cons.prems(1) l(2)] by blast
  then have "put_all \<lparr>fd_path = p, fd_off = length pre\<rparr> (d # ds) (disk s j ((files s)(p \<mapsto> pre @ f))) =
      (0, disk s k ((files s)(p \<mapsto> pre @ concat (d # ds) @ drop (length (concat (d # ds))) f)))"
    using put_ok [where pre = pre and j = j and f = f, OF Cons.prems(1) l(1)] by (simp add: add.commute)
  then show ?case by blast
qed auto

lemma write_frame:
  assumes "disk_ok s" "dirname p \<in> dirs s" "\<forall>d\<in>set ds. length d < 2 ^ 32"
  shows "\<exists>fd s1 k. open_create p s = (Some fd, s1) \<and>
    put_all fd ds s1 = (0, disk s k ((files s)(p \<mapsto> concat ds @ drop (length (concat ds)) (old_bytes p s))))"
  using open_create_any [OF assms(1,2)] put_all_ok [where pre = "[]" and p = p and j = "Suc (io_calls s)" and f = "old_bytes p s", OF assms(1,3)] by auto

lemma parse_uuid_ok:
  assumes "disk_ok s" "files s p = Some (uuid @ r)" "length uuid = 32" "32 \<le> n"
  shows "parse_uuid p (Some (replicate 33 0)) n s =
    Some (0, Some (uuid @ [0]), \<lparr>fd_path = p, fd_off = 32\<rparr>, steps s (Suc (Suc (io_calls s))))"
proof -
  have "files (steps s (Suc (io_calls s))) p = Some ([] @ uuid @ r)" using assms(2) by simp
  from read_at [OF _ this, of "replicate 32 0" 0]
  have "read_into \<lparr>fd_path = p, fd_off = 0\<rparr> (replicate 32 0) (steps s (Suc (io_calls s))) =
      (32, uuid, \<lparr>fd_path = p, fd_off = 32\<rparr>, steps s (Suc (Suc (io_calls s))))"
    using assms(1,3) by simp
  moreover have "wr 0 (replicate 32 0) (replicate 33 0) = Some (replicate 33 (0 :: byte))" "wr 0 uuid (replicate 33 0) = Some (uuid @ [0])"
    using wr_0 [of "replicate 32 (0 :: byte)" "replicate 33 0"] wr_0 [of uuid "replicate 33 0"] assms(3)
    by (simp_all add: eval_nat_numeral)
  ultimately show ?thesis using open_existing_disk [OF assms(1,2)] assms(4) by (simp add: parse_uuid_def)
qed

section \<open>Paths\<close>

definition node_paths :: "byte list list" where
  "node_paths = [SPCEPUBFILETEMPPATH, TEMPEPUBFILEPATH, TEMPSATEPUBFILEPATH, SPCCS1FILEPATH, TEMPSATCS1FILEPATH, SPCCS2FILEPATH,
     TEMPSATCS2FILEPATH, MSPCDATAFILEPATH, str SPCEPUBPEMFILEPATH, str SATEPUBPEMFILEPATH, str SATEPRVPEMFILEPATH]"

lemma node_paths_ok:
  "distinct node_paths" "\<forall>p\<in>set node_paths. p \<notin> set temp_files \<and> take 28 p \<noteq> DEPLOYDIR \<and> take 22 p \<noteq> SECDOWNLOADDIR"
  by code_simp+

lemma node_path_other:
  assumes "p \<in> set node_paths"
  shows "p \<notin> set temp_files" "p \<noteq> DEPLOYDIR @ name" "DEPLOYDIR @ name \<noteq> p" "p \<noteq> down_path uuid tail" "down_path uuid tail \<noteq> p"
proof -
  have "take 28 (DEPLOYDIR @ name) = DEPLOYDIR" "take 22 (down_path uuid tail) = SECDOWNLOADDIR"
    using deploy_dir(1) by (simp_all add: down_path_def SECDOWNLOADDIR_def str_def)
  then show "p \<notin> set temp_files" "p \<noteq> DEPLOYDIR @ name" "DEPLOYDIR @ name \<noteq> p" "p \<noteq> down_path uuid tail" "down_path uuid tail \<noteq> p"
    using assms node_paths_ok(2) by metis+
qed

lemma node_path_mem:
  "SPCEPUBFILETEMPPATH \<in> set node_paths" "TEMPEPUBFILEPATH \<in> set node_paths" "TEMPSATEPUBFILEPATH \<in> set node_paths"
  "SPCCS1FILEPATH \<in> set node_paths" "TEMPSATCS1FILEPATH \<in> set node_paths" "SPCCS2FILEPATH \<in> set node_paths"
  "TEMPSATCS2FILEPATH \<in> set node_paths" "MSPCDATAFILEPATH \<in> set node_paths" "str SPCEPUBPEMFILEPATH \<in> set node_paths"
  "str SATEPUBPEMFILEPATH \<in> set node_paths" "str SATEPRVPEMFILEPATH \<in> set node_paths"
  by (simp_all add: node_paths_def)

lemmas node_path_simps = node_path_mem [THEN node_path_other(1)] node_path_mem [THEN node_path_other(2)] node_path_mem [THEN node_path_other(3)]
  node_path_mem [THEN node_path_other(4)] node_path_mem [THEN node_path_other(5)]
  node_paths_ok(1) [unfolded node_paths_def, simplified] node_paths_ok(1) [THEN distinct_rev [THEN iffD2], unfolded node_paths_def, simplified]

definition node_dirs :: "os \<Rightarrow> bool" where
  "node_dirs s \<longleftrightarrow> dirname (str PLAINFILEPATH) \<in> dirs s \<and> dirname SPCCS1FILEPATH \<in> dirs s \<and> dirname MSPCDATAFILEPATH \<in> dirs s \<and>
     SECDOWNLOADDIR \<in> dirs s \<and> set node_paths \<inter> dirs s = {}"

lemma node_dirsD:
  assumes "node_dirs s"
  shows "dirname (str PLAINFILEPATH) \<in> dirs s" "dirname SPCCS1FILEPATH \<in> dirs s" "dirname TEMPSATCS1FILEPATH \<in> dirs s"
    "dirname SPCCS2FILEPATH \<in> dirs s" "dirname TEMPSATCS2FILEPATH \<in> dirs s" "dirname MSPCDATAFILEPATH \<in> dirs s" "SECDOWNLOADDIR \<in> dirs s"
    "p \<in> set node_paths \<Longrightarrow> p \<notin> dirs s"
proof -
  have "dirname TEMPSATCS1FILEPATH = dirname SPCCS1FILEPATH" "dirname SPCCS2FILEPATH = dirname SPCCS1FILEPATH"
    "dirname TEMPSATCS2FILEPATH = dirname SPCCS1FILEPATH" by code_simp+
  then show "dirname (str PLAINFILEPATH) \<in> dirs s" "dirname SPCCS1FILEPATH \<in> dirs s" "dirname TEMPSATCS1FILEPATH \<in> dirs s"
    "dirname SPCCS2FILEPATH \<in> dirs s" "dirname TEMPSATCS2FILEPATH \<in> dirs s" "dirname MSPCDATAFILEPATH \<in> dirs s" "SECDOWNLOADDIR \<in> dirs s"
    "p \<in> set node_paths \<Longrightarrow> p \<notin> dirs s"
    using assms by (auto simp: node_dirs_def)
qed

section \<open>The first stage\<close>

text \<open>A message in two halves; each half is sent with the identifier of the request and its length.\<close>

definition half_frame :: "byte list \<Rightarrow> byte list \<Rightarrow> byte list"
  where "half_frame uuid h = uuid @ u32_le (word_of_nat (length h)) @ h"

definition first_half :: "byte list \<Rightarrow> byte list" where "first_half m = take (length m div 2) m"
definition second_half :: "byte list \<Rightarrow> byte list" where "second_half m = drop (length m div 2) m"

lemma halves: "first_half m @ second_half m = m"
  by (simp add: first_half_def second_half_def)

lemma half_words:
  assumes "length m < 2 ^ 30"
  shows "unat (word_of_nat (length m) :: u32) = length m" "word_of_nat (length m) div (2 :: u32) = word_of_nat (length (first_half m))"
    "unat (word_of_nat (length (first_half m)) :: u32) = length (first_half m)"
    "word_of_nat (length m) - word_of_nat (length (first_half m)) = (word_of_nat (length (second_half m)) :: u32)"
    "unat (word_of_nat (length (second_half m)) :: u32) = length (second_half m)"
proof -
  show u: "unat (word_of_nat (length m) :: u32) = length m" using assms by (intro unat_u32_len) simp
  have f: "length (first_half m) = length m div 2" by (simp add: first_half_def)
  show v: "unat (word_of_nat (length (first_half m)) :: u32) = length (first_half m)" using assms f by (intro unat_u32_len) simp
  show "word_of_nat (length m) div (2 :: u32) = word_of_nat (length (first_half m))"
    by (rule word_unat_eq_iff [THEN iffD2]) (simp only: unat_div u v, simp add: f)
  have "length m = length (first_half m) + length (second_half m)" by (metis halves length_append)
  then show "word_of_nat (length m) - word_of_nat (length (first_half m)) = (word_of_nat (length (second_half m)) :: u32)" by simp
  show "unat (word_of_nat (length (second_half m)) :: u32) = length (second_half m)"
    using assms by (intro unat_u32_len) (simp add: second_half_def)
qed

lemma genTempSatCs1_ok:
  assumes s: "disk_ok s" "dirname TEMPSATCS1FILEPATH \<in> dirs s" "files s TEMPSATCS1FILEPATH = None"
    and u: "length uuid = 32" and m: "m \<noteq> []" "length m < 2 ^ 30"
  shows "\<exists>k. genTempSatCs1 (Some (uuid @ [0])) 32 (Some m) (word_of_nat (length m)) s =
    Some (0, disk s k ((files s)(TEMPSATCS1FILEPATH \<mapsto> half_frame uuid (first_half m))))"
proof -
  note w = half_words [OF m(2)]
  have nz: "(word_of_nat (length m) :: u32) \<noteq> 0" using w(1) m(1) by (metis length_0_conv unat_0)
  have r: "rd 32 (uuid @ [0]) = Some uuid" "rd (length (first_half m)) m = Some (first_half m)"
    using u by (simp_all add: rd_def first_half_def)
  have l: "\<forall>d\<in>set [uuid, u32_le (word_of_nat (length (first_half m))), first_half m]. length d < 2 ^ 32"
    using u m(2) by (simp add: first_half_def)
  obtain fd s1 k where "open_create TEMPSATCS1FILEPATH s = (Some fd, s1)"
    "put_all fd [uuid, u32_le (word_of_nat (length (first_half m))), first_half m] s1 =
      (0, disk s k ((files s)(TEMPSATCS1FILEPATH \<mapsto> half_frame uuid (first_half m))))"
    using write_frame [OF s(1,2) l] s(3) by (auto simp: half_frame_def)
  then show ?thesis using nz r w by (simp add: genTempSatCs1_def del: put_all.simps)
qed

lemma save_with_len_ok:
  assumes s: "disk_ok s" "dirname p \<in> dirs s" and m: "m \<noteq> []" "length m < 2 ^ 30"
  shows "\<exists>k t. save_with_len p (Some m) (word_of_nat (length m)) s =
    Some (0, disk s k ((files s)(p \<mapsto> u32_le (word_of_nat (length m)) @ m @ t)))"
proof -
  note w = half_words [OF m(2)]
  have nz: "(word_of_nat (length m) :: u32) \<noteq> 0" using w(1) m(1) by (metis length_0_conv unat_0)
  have l: "\<forall>d\<in>set [u32_le (word_of_nat (length m)), m]. length d < 2 ^ 32" using m(2) by simp
  from write_frame [OF s l] obtain fd s1 k where
    "open_create p s = (Some fd, s1)" "put_all fd [u32_le (word_of_nat (length m)), m] s1 =
      (0, disk s k ((files s)(p \<mapsto> concat [u32_le (word_of_nat (length m)), m] @ drop (length (concat [u32_le (word_of_nat (length m)), m])) (old_bytes p s))))"
    by blast
  then show ?thesis using nz w(1) by (simp add: save_with_len_def rd_def del: put_all.simps) blast
qed


definition stage_one :: "dir_ops \<Rightarrow> os \<Rightarrow> byte list \<Rightarrow> byte list \<Rightarrow> byte list \<Rightarrow> bool" where
  "stage_one ds s name uuid r \<longleftrightarrow> deployed ds s SPCCS1FILETAIL name \<and> files s (DEPLOYDIR @ name) = Some (uuid @ r) \<and> uuid_ok uuid \<and>
     node_dirs s \<and> files s TEMPSATCS1FILEPATH = None \<and> down_path uuid SATCS1FILETAIL \<notin> dirs s \<and> str SPCEPUBPEMFILEPATH \<in> dom (files s)"

lemma spc_cs_1_ok:
  assumes sh: "encrypts sh SPCEPUBPEMFILEPATH skey sdec b64 slim clen" "7 \<le> slim" "slim < 2 ^ 30"
    and s: "disk_ok s" "no_oom (hp s)" "heap_ok (hp s)" "files s (str SPCEPUBPEMFILEPATH) = Some skey" and st: "stage_one ds s name uuid r"
  shows "\<exists>s' z t. spc_cs_1 ds sh s = Some (0, s') \<and> sdec z = SECRET \<and> b64 z \<noteq> [] \<and> length z \<le> clen \<and>
    after s (((files s)(DEPLOYDIR @ name := None, SPCCS1FILEPATH \<mapsto> uuid @ r) |` (- set temp_files))
      (MSPCDATAFILEPATH \<mapsto> u32_le (word_of_nat (length (b64 z))) @ b64 z @ t, TEMPSATCS1FILEPATH := None,
       down_path uuid SATCS1FILETAIL \<mapsto> half_frame uuid (first_half (b64 z)))) s'"
proof -
  note st = st [unfolded stage_one_def] and np = node_path_simps
  have dp: "deployed ds s SPCCS1FILETAIL name" using st by blast
  note n = deployedD [OF dp] and d = node_dirsD [of s]
  have nd: "node_dirs s" using st by blast
  note d = node_dirsD [OF nd]
  let ?F1 = "(files s)(DEPLOYDIR @ name := None, SPCCS1FILEPATH \<mapsto> uuid @ r)"
  let ?s1 = "s\<lparr>hp := alloc 1 (hp s)\<rparr>"
  have s1: "disk_ok ?s1" "no_oom (hp ?s1)" "heap_ok (hp ?s1)" "files ?s1 (DEPLOYDIR @ name) = Some (uuid @ r)"
      "dirname SPCCS1FILEPATH \<in> dirs ?s1" "SPCCS1FILEPATH \<notin> dirs ?s1"
    using s st d(2) d(8) [OF node_path_mem(4)] alloc_ok [of "hp s" 1] by simp_all
  obtain s2 where s2: "mvUuidSpcCs1ToSpcCs1 (Some (name @ [0])) (word_of_nat (length name)) ?s1 = Some (0, s2)" "after ?s1 ?F1 s2"
    using mv_deployed_ok [OF s1(1-4) n(1,2,4) s1(5,6)] unfolding mvUuidSpcCs1ToSpcCs1_def by auto
  note q2 = after_alloc [OF s2(2) s(3)]
  let ?s3 = "s2\<lparr>hp := (hp s2)\<lparr>live := live (hp s2) - {calls (hp s)}\<rparr>\<rparr>"
  note t3 = afterD [OF q2(3)]
  have s3: "disk_ok ?s3" "dirname (str PLAINFILEPATH) \<in> dirs ?s3" "files ?s3 (str SPCEPUBPEMFILEPATH) = Some skey"
    using t3 s st d(1) by (simp_all add: np)
  have ck: "checkSpcCs1 ?s3 \<noteq> -1" "access (str SPCEPUBPEMFILEPATH) ?s3 = 0"
    using t3(1) access_upd [OF s3(3)] by (simp_all add: checkSpcCs1_def access_def)
  have sec: "SECRET \<noteq> []" "length SECRET \<le> slim" "length SECRET = 7" using sh(2) by (simp_all add: SECRET_def str_def)
  let ?F2 = "?F1 |` (- set temp_files)"
  obtain z k where z: "sdec z = SECRET" "b64 z \<noteq> []" "length (b64 z) < 2 ^ 30" "length z \<le> clen"
    and e: "spc_en_enc_and_en64 sh (Some SECRET) 7 ?s3 =
      Some (0, Ptr (calls (hp ?s3)) (b64 z), word_of_nat (length (b64 z)), disk (?s3\<lparr>hp := alloc 1 (hp ?s3)\<rparr>) k ?F2)"
    using en_ok [OF sh(1) s3 sec(1,2) sh(3) t3(4), of "[]"] t3(1) sec(3) unfolding spc_en_enc_and_en64_def by auto
  let ?m = "b64 z" and ?s4 = "disk (?s3\<lparr>hp := alloc 1 (hp ?s3)\<rparr>) k ?F2"
  have s4: "disk_ok ?s4" "dirname MSPCDATAFILEPATH \<in> dirs ?s4" using s3(1) t3(2) d(6) by simp_all
  obtain k5 t where s5: "saveMspcToFile (Some ?m) (word_of_nat (length ?m)) ?s4 =
      Some (0, disk ?s4 k5 (?F2(MSPCDATAFILEPATH \<mapsto> u32_le (word_of_nat (length ?m)) @ ?m @ t)))"
    using save_with_len_ok [OF s4 z(2,3)] unfolding saveMspcToFile_def files_disk by blast
  let ?F3 = "?F2(MSPCDATAFILEPATH \<mapsto> u32_le (word_of_nat (length ?m)) @ ?m @ t)"
  let ?s5 = "disk ?s4 k5 ?F3"
  have u: "length uuid = 32" using st by (simp add: uuid_ok_def)
  have s5': "disk_ok ?s5" "files ?s5 SPCCS1FILEPATH = Some (uuid @ r)" using s4(1) by (simp_all add: restrict_map_def np)
  have p: "parseSpcCs1 (Some (replicate 33 0)) 32 ?s5 = Some (0, Some (uuid @ [0]), steps ?s5 (Suc (Suc k5)))"
    using parse_uuid_ok [OF s5' u, of 32] by (simp add: parseSpcCs1_def)
  let ?s6 = "steps ?s5 (Suc (Suc k5))"
  have s6: "disk_ok ?s6" "dirname TEMPSATCS1FILEPATH \<in> dirs ?s6" "files ?s6 TEMPSATCS1FILEPATH = None"
    using s5'(1) t3(2) d(3) st by (simp_all add: restrict_map_def np)
  have f6: "files ?s6 = ?F3" by simp
  obtain k7 where s7: "genTempSatCs1 (Some (uuid @ [0])) 32 (Some ?m) (word_of_nat (length ?m)) ?s6 =
      Some (0, disk ?s6 k7 (?F3(TEMPSATCS1FILEPATH \<mapsto> half_frame uuid (first_half ?m))))"
    using genTempSatCs1_ok [OF s6 u z(2,3)] unfolding f6 by blast
  let ?F4 = "?F3(TEMPSATCS1FILEPATH \<mapsto> half_frame uuid (first_half ?m))"
  let ?s7 = "disk ?s6 k7 ?F4"
  have a7: "after (?s3\<lparr>hp := alloc 1 (hp ?s3)\<rparr>) ?F4 ?s7" using alloc_ok [of "hp ?s3" 1] t3(4,5) by (simp add: after_def)
  note q7 = after_alloc [OF a7 t3(5)]
  let ?s8 = "?s7\<lparr>hp := (hp ?s7)\<lparr>live := live (hp ?s7) - {calls (hp ?s3)}\<rparr>\<rparr>"
  note t8 = afterD [OF q7(3)]
  have tl: "0 \<notin> set SATCS1FILETAIL" "0x2f \<notin> set SATCS1FILETAIL" by code_simp+
  have s8: "disk_ok ?s8" "files ?s8 TEMPSATCS1FILEPATH = Some (half_frame uuid (first_half ?m))" "uuid_ok uuid"
      "SECDOWNLOADDIR \<in> dirs ?s8" "down_path uuid SATCS1FILETAIL \<notin> dirs ?s8"
    using s3(1) t3(2) t8(2) d(7) st by simp_all
  obtain s9 where s9: "genUuidSatCs1 (Some (uuid @ [0])) 32 ?s8 = Some (0, s9)"
      "after ?s8 (?F4(TEMPSATCS1FILEPATH := None, down_path uuid SATCS1FILETAIL \<mapsto> half_frame uuid (first_half ?m))) s9"
    using gen_uuid_file_ok [OF s8(1) t8(4,5) s8(2,3) tl s8(4,5)] unfolding genUuidSatCs1_def t8(1) by blast
  have "init_checkSpcCs1 ds s = Some 0" using n(5) by (simp add: init_checkSpcCs1_def countUuidSpcCs1File_def)
  moreover have "findUuidSpcCs1File ds DEPLOYDIR s = Some (Ptr (calls (hp s)) (name @ [0]), word_of_nat (length name), ?s1)"
    using n(6) [OF s(2)] unfolding findUuidSpcCs1File_def .
  moreover have "(word_of_nat (length name) :: u32) \<noteq> 0"
    using n(7) .
  ultimately have "spc_cs_1 ds sh s = Some (0, s9)"
    using s2(1) q2(2) ck e s5 p s7 q7(2) s9(1) by (simp add: spc_cs_1_def init_cs1_def free_ptr_def ptr_buf_def)
  moreover have "after s (?F4(TEMPSATCS1FILEPATH := None, down_path uuid SATCS1FILETAIL \<mapsto> half_frame uuid (first_half ?m))) s9"
    using after_trans [OF q2(3) after_trans [OF q7(3) s9(2)]] .
  ultimately show ?thesis using z(1,2,4) unfolding fun_upd_upd by blast
qed

section \<open>The second stage\<close>

lemma half_len_at:
  assumes "disk_ok s" "files s p = Some (u @ u32_le n @ r)" "length u = 32" "n \<noteq> 0"
  shows "half_len p s = (Some (n, \<lparr>fd_path = p, fd_off = 36\<rparr>), steps s (Suc (Suc (io_calls s))))"
proof -
  have "files (steps s (Suc (io_calls s))) p = Some (u @ u32_le n @ r)" using assms(2) by simp
  from read_at [OF _ this, of "u32_le 0" 32]
  have "read_into \<lparr>fd_path = p, fd_off = 32\<rparr> (u32_le 0) (steps s (Suc (io_calls s))) =
      (4, u32_le n, \<lparr>fd_path = p, fd_off = 36\<rparr>, steps s (Suc (Suc (io_calls s))))"
    using assms(1,3) by simp
  then show ?thesis using open_existing_disk [OF assms(1,2)] assms(4) by (simp add: half_len_def lseek_def wire_simps)
qed

lemma half_len_ok:
  assumes "disk_ok s" "files s p = Some (half_frame u a @ r)" "length u = 32" "a \<noteq> []" "length a < 2 ^ 30"
  shows "half_len p s = (Some (word_of_nat (length a), \<lparr>fd_path = p, fd_off = 36\<rparr>), steps s (Suc (Suc (io_calls s))))"
proof -
  have "unat (word_of_nat (length a) :: u32) = length a" using assms(5) by (intro unat_u32_len) simp
  then have "(word_of_nat (length a) :: u32) \<noteq> 0" using assms(4) by (metis length_0_conv unat_0)
  then show ?thesis using half_len_at [of s p u "word_of_nat (length a)" "a @ r"] assms(1-3) by (simp add: half_frame_def)
qed

lemma read_half_ok:
  assumes s: "disk_ok s" "files s p = Some (half_frame u a @ r)" "length u = 32" "length a < 2 ^ 30" and b: "length pre = k"
  shows "read_half \<lparr>fd_path = p, fd_off = 36\<rparr> k (word_of_nat (length a)) (pre @ replicate (length a) 0 @ post) s =
    Some (int (length a), pre @ a @ post, steps s (Suc (io_calls s)))"
proof -
  let ?n = "word_of_nat (length a) :: u32"
  have u: "unat ?n = length a" using s(4) by (intro unat_u32_len) simp
  then have "uint ?n < 2 ^ 30" using s(4) by (simp add: uint_nat)
  moreover have "- 2147483648 \<le> uint ?n" using uint_ge_0 [of ?n] by linarith
  ultimately have sn: "sint ?n = uint ?n" by (simp only: sint_uint) (simp add: signed_take_bit_int_eq_self)
  have f: "files s p = Some ((u @ u32_le ?n) @ a @ r)" using s(2) by (simp add: half_frame_def)
  have l: "length a < 2 ^ 32" using s(4) by simp
  have "read_fd \<lparr>fd_path = p, fd_off = 36\<rparr> (length a) s = (Some a, \<lparr>fd_path = p, fd_off = 36 + length a\<rparr>, steps s (Suc (io_calls s)))"
    using read_fd_disk [OF s(1) f l] s(3) by simp
  moreover have "wr k a (pre @ replicate (length a) 0 @ post) = Some (pre @ a @ post)"
    using wr_app [OF b, of a "replicate (length a) 0 @ post"] by simp
  ultimately show ?thesis unfolding read_half_def u sn by (simp del: of_nat_eq_0_iff)
qed

lemma getMsat_ok:
  assumes s: "disk_ok s" "no_oom (hp s)" and f1: "files s SPCCS1FILEPATH = Some (half_frame u1 a @ r1)" "length u1 = 32" "a \<noteq> []"
    and f2: "files s SPCCS2FILEPATH = Some (half_frame u2 b @ r2)" "length u2 = 32" "b \<noteq> []" and l: "length (a @ b) < 2 ^ 30"
  shows "\<exists>k. getMsat s = Some (Ptr (calls (hp s)) (a @ b), word_of_nat (length (a @ b)), steps (s\<lparr>hp := alloc 1 (hp s)\<rparr>) k)"
proof -
  let ?i = "Suc (Suc (io_calls s))" and ?s = "s\<lparr>hp := alloc 1 (hp s)\<rparr>" and ?n = "\<lambda>x. word_of_nat (length x) :: u32"
  have la: "length a < 2 ^ 30" "length b < 2 ^ 30" using l by simp_all
  have u: "unat (?n (a @ b)) = length (a @ b)" "unat (?n a) = length a" "unat (?n b) = length b"
    using l by (intro unat_u32_len; simp)+
  have h1: "half_len SPCCS1FILEPATH s = (Some (?n a, \<lparr>fd_path = SPCCS1FILEPATH, fd_off = 36\<rparr>), steps s ?i)"
    by (rule half_len_ok [OF s(1) f1(1,2,3) la(1)])
  have "disk_ok (steps s ?i)" "files (steps s ?i) SPCCS2FILEPATH = Some (half_frame u2 b @ r2)" using s(1) f2(1) by simp_all
  from half_len_ok [OF this f2(2,3) la(2)]
  have h2: "half_len SPCCS2FILEPATH (steps s ?i) = (Some (?n b, \<lparr>fd_path = SPCCS2FILEPATH, fd_off = 36\<rparr>), steps s (Suc (Suc ?i)))" by simp
  have m: "os_malloc z (steps s j) = (Some (calls (hp s)), steps ?s j)" for z j using os_malloc_ok [of "steps s j" z] s(2) by simp
  have sum: "?n a + ?n b = ?n (a @ b)" by simp
  have "disk_ok (steps ?s j)" "files (steps ?s j) SPCCS1FILEPATH = Some (half_frame u1 a @ r1)" for j using s(1) f1(1) by simp_all
  from read_half_ok [OF this f1(2) la(1), of "[]" 0 "replicate (length b) 0"]
  have r1: "read_half \<lparr>fd_path = SPCCS1FILEPATH, fd_off = 36\<rparr> 0 (?n a) (replicate (length (a @ b)) 0) (steps ?s j) =
      Some (int (length a), a @ replicate (length b) 0, steps ?s (Suc j))" for j by (simp add: replicate_add)
  have "disk_ok (steps ?s j)" "files (steps ?s j) SPCCS2FILEPATH = Some (half_frame u2 b @ r2)" for j using s(1) f2(1) by simp_all
  from read_half_ok [OF this f2(2) la(2), of a "length a" "[]"]
  have r2: "read_half \<lparr>fd_path = SPCCS2FILEPATH, fd_off = 36\<rparr> (length a) (?n b) (a @ replicate (length b) 0) (steps ?s j) =
      Some (int (length b), a @ b, steps ?s (Suc j))" for j by simp
  have "getMsat s = Some (Ptr (calls (hp s)) (a @ b), ?n (a @ b), steps ?s (Suc (Suc (Suc (Suc ?i)))))"
    unfolding getMsat_def h1 prod.case option.case h2 m sum u r1 using r2 by simp
  then show ?thesis by blast
qed

lemma getMspc_ok:
  assumes s: "disk_ok s" "no_oom (hp s)" "files s MSPCDATAFILEPATH = Some (u32_le (word_of_nat (length m)) @ m @ t)"
    and m: "m \<noteq> []" "length m \<le> 1024"
  shows "\<exists>k. getMspc s = Some (Ptr (calls (hp s)) m, word_of_nat (length m), steps (s\<lparr>hp := alloc 1 (hp s)\<rparr>) k)"
proof -
  let ?n = "word_of_nat (length m) :: u32" and ?p = MSPCDATAFILEPATH and ?s = "s\<lparr>hp := alloc 1 (hp s)\<rparr>"
  have u: "unat ?n = length m" using m(2) by (intro unat_u32_len) simp
  then have n: "?n \<noteq> 0" "\<not> ?n > 1024" using m by (auto simp: word_less_nat_alt)
  have r1: "read_into \<lparr>fd_path = ?p, fd_off = 0\<rparr> (u32_le 0) (steps s j) = (4, u32_le ?n, \<lparr>fd_path = ?p, fd_off = 4\<rparr>, steps s (Suc j))" for j
    using read_at [of "steps s j" ?p "[]" "u32_le ?n" "m @ t" "u32_le 0" 0] s(1,3) by simp
  have r2: "read_into \<lparr>fd_path = ?p, fd_off = 4\<rparr> (replicate (length m) 0) (steps ?s j) =
      (int (length m), m, \<lparr>fd_path = ?p, fd_off = 4 + length m\<rparr>, steps ?s (Suc j))" for j
    using read_at [of "steps ?s j" ?p "u32_le ?n" m t "replicate (length m) 0" 4] s(1,3) m(2) by simp
  have ml: "os_malloc z (steps s j) = (Some (calls (hp s)), steps ?s j)" for z j using os_malloc_ok [of "steps s j" z] s(2) by simp
  show ?thesis
    using open_existing_disk [OF s(1,3)] r1 r2 ml n u by (simp add: getMspc_def Let_def wire_simps)
qed

lemma genTempSatCs2_ok:
  assumes s: "disk_ok s" "dirname TEMPSATCS2FILEPATH \<in> dirs s" "files s TEMPSATCS2FILEPATH = None" and u: "length uuid = 32"
  shows "\<exists>k. genTempSatCs2 (Some (uuid @ [0])) 32 None 0 s = Some (0, disk s k ((files s)(TEMPSATCS2FILEPATH \<mapsto> uuid @ u32_le 0)))"
    "m \<noteq> [] \<Longrightarrow> length m < 2 ^ 30 \<Longrightarrow> \<exists>k. genTempSatCs2 (Some (uuid @ [0])) 32 (Some m) (word_of_nat (length m)) s =
      Some (0, disk s k ((files s)(TEMPSATCS2FILEPATH \<mapsto> half_frame uuid (second_half m))))"
proof -
  have r: "rd 32 (uuid @ [0]) = Some uuid" using u by (simp add: rd_def)
  have "\<forall>d\<in>set [uuid, u32_le 0]. length d < 2 ^ 32" using u by simp
  from write_frame [OF s(1,2) this] s(3) obtain fd s1 k where "open_create TEMPSATCS2FILEPATH s = (Some fd, s1)"
    "put_all fd [uuid, u32_le 0] s1 = (0, disk s k ((files s)(TEMPSATCS2FILEPATH \<mapsto> uuid @ u32_le 0)))" by auto
  then show "\<exists>k. genTempSatCs2 (Some (uuid @ [0])) 32 None 0 s = Some (0, disk s k ((files s)(TEMPSATCS2FILEPATH \<mapsto> uuid @ u32_le 0)))"
    using r by (simp add: genTempSatCs2_def del: put_all.simps)
  assume m: "m \<noteq> []" "length m < 2 ^ 30"
  note w = half_words [OF m(2)]
  have nz: "(word_of_nat (length m) :: u32) \<noteq> 0" using w(1) m(1) by (metis length_0_conv unat_0)
  let ?h = "second_half m"
  have q: "rd (length ?h) (drop (length (first_half m)) m) = Some ?h"
  proof -
    have "drop (length (first_half m)) m = ?h" by (metis halves append_eq_conv_conj)
    then show ?thesis by (simp add: rd_def)
  qed
  have "\<forall>d\<in>set [uuid, u32_le (word_of_nat (length ?h)), ?h]. length d < 2 ^ 32" using u m(2) by (simp add: second_half_def)
  from write_frame [OF s(1,2) this] s(3) obtain fd s1 k where "open_create TEMPSATCS2FILEPATH s = (Some fd, s1)"
    "put_all fd [uuid, u32_le (word_of_nat (length ?h)), ?h] s1 =
      (0, disk s k ((files s)(TEMPSATCS2FILEPATH \<mapsto> half_frame uuid ?h)))" by (auto simp: half_frame_def)
  then show "\<exists>k. genTempSatCs2 (Some (uuid @ [0])) 32 (Some m) (word_of_nat (length m)) s =
      Some (0, disk s k ((files s)(TEMPSATCS2FILEPATH \<mapsto> half_frame uuid ?h)))"
    using r q nz unfolding genTempSatCs2_def w(2) Let_def w(3-5) by (simp del: put_all.simps)
qed

lemma cs2_reply_ok:
  assumes s: "disk_ok s" "no_oom (hp s)" "heap_ok (hp s)" and f: "files s SPCCS2FILEPATH = Some (uuid @ r)" "uuid_ok uuid"
    and d: "node_dirs s" "files s TEMPSATCS2FILEPATH = None" "down_path uuid SATCS2FILETAIL \<notin> dirs s"
    and m: "files s MSPCDATAFILEPATH = Some (u32_le (word_of_nat (length m)) @ m @ t)" "m \<noteq> []" "length m \<le> 1024"
  defines "reply \<equiv> \<lambda>check. if check = 0 then half_frame uuid (second_half m) else uuid @ u32_le 0"
  shows "\<exists>s'. cs2_reply check s = Some (0, s') \<and>
    after s ((files s)(TEMPSATCS2FILEPATH := None, down_path uuid SATCS2FILETAIL \<mapsto> reply check)) s'"
proof -
  note dd = node_dirsD [OF d(1)] and np = node_path_simps
  have u: "length uuid = 32" using f(2) by (simp add: uuid_ok_def)
  let ?s1 = "steps s (Suc (Suc (io_calls s)))" and ?T = TEMPSATCS2FILEPATH
  have p: "parseSpcCs2 (Some (replicate 33 0)) 33 s = Some (0, Some (uuid @ [0]), ?s1)"
    using parse_uuid_ok [OF s(1) f(1) u, of 33] by (simp add: parseSpcCs2_def)
  have tl: "0 \<notin> set SATCS2FILETAIL" "0x2f \<notin> set SATCS2FILETAIL" by code_simp+
  have last: "\<exists>s'. genUuidSatCs2 (Some (uuid @ [0])) 32 s2 = Some (0, s') \<and>
      after s ((files s)(?T := None, down_path uuid SATCS2FILETAIL \<mapsto> x)) s'"
    if a: "after s ((files s)(?T \<mapsto> x)) s2" for s2 x
  proof -
    note t = afterD [OF a]
    have s2: "disk_ok s2" "no_oom (hp s2)" "heap_ok (hp s2)" "files s2 ?T = Some x" "SECDOWNLOADDIR \<in> dirs s2" "down_path uuid SATCS2FILETAIL \<notin> dirs s2"
      using t s(1) dd(7) d(3) by simp_all
    from gen_uuid_file_ok [OF s2(1-4) f(2) tl s2(5,6)] obtain s' where
      "genUuidSatCs2 (Some (uuid @ [0])) 32 s2 = Some (0, s')" "after s2 ((files s2)(?T := None, down_path uuid SATCS2FILETAIL \<mapsto> x)) s'"
      unfolding genUuidSatCs2_def by blast
    then show ?thesis using after_trans [OF a, of _ s'] unfolding t(1) fun_upd_upd by blast
  qed
  show ?thesis
  proof (cases "check = 0")
    case False
    have s1: "disk_ok ?s1" "dirname ?T \<in> dirs ?s1" "files ?s1 ?T = None" using s(1) dd(5) d(2) by simp_all
    from genTempSatCs2_ok(1) [OF s1 u] obtain k where
      g: "genTempSatCs2 (Some (uuid @ [0])) 32 None 0 ?s1 = Some (0, disk ?s1 k ((files s)(?T \<mapsto> uuid @ u32_le 0)))" by auto
    have "after s ((files s)(?T \<mapsto> uuid @ u32_le 0)) (disk ?s1 k ((files s)(?T \<mapsto> uuid @ u32_le 0)))"
      using s(2,3) by (simp add: after_def)
    from last [OF this] show ?thesis using p g False by (auto simp: cs2_reply_def reply_def)
  next
    case True
    have m1: "disk_ok ?s1" "no_oom (hp ?s1)" "files ?s1 MSPCDATAFILEPATH = Some (u32_le (word_of_nat (length m)) @ m @ t)"
      using s m(1) by simp_all
    let ?s = "s\<lparr>hp := alloc 1 (hp s)\<rparr>"
    obtain k where k: "getMspc ?s1 = Some (Ptr (calls (hp s)) m, word_of_nat (length m), steps ?s k)"
      using getMspc_ok [OF m1 m(2,3)] by auto
    have s2: "disk_ok (steps ?s k)" "dirname ?T \<in> dirs (steps ?s k)" "files (steps ?s k) ?T = None" using s(1) dd(5) d(2) by simp_all
    have l: "length m < 2 ^ 30" using m(3) by simp
    let ?F = "(files s)(?T \<mapsto> half_frame uuid (second_half m))"
    obtain j where g: "genTempSatCs2 (Some (uuid @ [0])) 32 (Some m) (word_of_nat (length m)) (steps ?s k) = Some (0, disk ?s j ?F)"
      using genTempSatCs2_ok(2) [OF s2 u m(2) l] by auto
    have "after ?s ?F (disk ?s j ?F)" using alloc_ok [of "hp s" 1] s(2,3) by (simp add: after_def)
    note q = after_alloc [OF this s(3)]
    have "unat (word_of_nat (length m) :: u32) = length m" using l by (intro unat_u32_len) simp
    then have nz: "(word_of_nat (length m) :: u32) \<noteq> 0" using m(2) by (metis length_0_conv unat_0)
    obtain s' where s': "genUuidSatCs2 (Some (uuid @ [0])) 32 ((disk ?s j ?F)\<lparr>hp := (hp (disk ?s j ?F))\<lparr>live := live (hp (disk ?s j ?F)) - {calls (hp s)}\<rparr>\<rparr>) = Some (0, s')"
        "after s ((files s)(?T := None, down_path uuid SATCS2FILETAIL \<mapsto> half_frame uuid (second_half m))) s'"
      using last [OF q(3)] by blast
    have "cs2_reply check s = Some (0, s')"
      using p k g nz q(2) s'(1) True by (simp add: cs2_reply_def free_ptr_def ptr_buf_def)
    then show ?thesis using s'(2) True unfolding reply_def by auto
  qed
qed

definition stage_two :: "dir_ops \<Rightarrow> os \<Rightarrow> byte list \<Rightarrow> byte list \<Rightarrow> byte list \<Rightarrow> byte list \<Rightarrow> byte list \<Rightarrow> bool" where
  "stage_two ds s name uuid a b m \<longleftrightarrow> deployed ds s SPCCS2FILETAIL name \<and> uuid_ok uuid \<and> a \<noteq> [] \<and> b \<noteq> [] \<and>
     (\<exists>r. files s (DEPLOYDIR @ name) = Some (half_frame uuid b @ r)) \<and>
     (\<exists>u r. files s SPCCS1FILEPATH = Some (half_frame u a @ r) \<and> length u = 32) \<and>
     (\<exists>t. files s MSPCDATAFILEPATH = Some (u32_le (word_of_nat (length m)) @ m @ t)) \<and> m \<noteq> [] \<and> length m \<le> 1024 \<and>
     node_dirs s \<and> files s TEMPSATCS2FILEPATH = None \<and> down_path uuid SATCS2FILETAIL \<notin> dirs s \<and> str SATEPRVPEMFILEPATH \<in> dom (files s)"

lemma checkMsg_ok:
  assumes "x \<noteq> []" "length x < 2 ^ 30"
  shows "checkMsg (Some x) (word_of_nat (length x)) = Some (if x = THEWORDS then 0 else 1)"
proof -
  let ?n = "word_of_nat (length x) :: u32"
  have t: "length THEWORDS = 3" by (simp add: THEWORDS_def str_def)
  have u: "unat ?n = length x" using assms(2) by (intro unat_u32_len) simp
  then have nz: "?n \<noteq> 0" using assms(1) by (metis length_0_conv unat_0)
  have e: "(?n = 3) = (length x = 3)" unfolding word_unat_eq_iff u by simp
  show ?thesis using nz e by (auto simp: checkMsg_def t rd_def)
qed

text \<open>The file of the second stage is moved to its place.\<close>

lemma cs2_start:
  assumes s: "disk_ok s" "no_oom (hp s)" "heap_ok (hp s)" "node_dirs s"
    and f: "deployed ds s SPCCS2FILETAIL name" "files s (DEPLOYDIR @ name) = Some g" "SPCCS1FILEPATH \<in> dom (files s)"
  shows "\<exists>s'. spc_cs_2 ds sh s = do { (ret, s1) \<leftarrow> cs2_check sh s'; Some (if ret = -1 then -1 else 0, s1) } \<and>
    after s ((files s)(DEPLOYDIR @ name := None, SPCCS2FILEPATH \<mapsto> g)) s'"
proof -
  note n = deployedD [OF f(1)] and d = node_dirsD [OF s(4)] and np = node_path_simps
  let ?F1 = "(files s)(DEPLOYDIR @ name := None, SPCCS2FILEPATH \<mapsto> g)"
  let ?s1 = "s\<lparr>hp := alloc 1 (hp s)\<rparr>"
  have s1: "disk_ok ?s1" "no_oom (hp ?s1)" "heap_ok (hp ?s1)" "files ?s1 (DEPLOYDIR @ name) = Some g"
      "dirname SPCCS2FILEPATH \<in> dirs ?s1" "SPCCS2FILEPATH \<notin> dirs ?s1"
    using s f d(4) d(8) [OF node_path_mem(6)] alloc_ok [of "hp s" 1] by simp_all
  obtain s2 where s2: "mvUuidSpcCs2ToSpcCs2 (Some (name @ [0])) (word_of_nat (length name)) ?s1 = Some (0, s2)" "after ?s1 ?F1 s2"
    using mv_deployed_ok [OF s1(1-4) n(1,2,4) s1(5,6)] unfolding mvUuidSpcCs2ToSpcCs2_def by auto
  note q2 = after_alloc [OF s2(2) s(3)]
  obtain s3 where o3: "os_free (calls (hp s)) s2 = Some s3" and a3: "after s ?F1 s3" using q2(2,3) by blast
  have "files s3 SPCCS2FILEPATH = Some g" "SPCCS1FILEPATH \<in> dom (files s3)" using afterD(1) [OF a3] f(3) by (auto simp: np)
  then have ck: "checkSpcCs1 s3 \<noteq> -1" "checkSpcCs2 s3 \<noteq> -1"
    using access_upd [of s3] access_file [of SPCCS1FILEPATH s3] by (simp_all add: checkSpcCs1_def checkSpcCs2_def)
  have "init_checkSpcCs2 ds s = Some 0" using n(5) by (simp add: init_checkSpcCs2_def countUuidSpcCs2File_def)
  moreover have "findUuidSpcCs2File ds DEPLOYDIR s = Some (Ptr (calls (hp s)) (name @ [0]), word_of_nat (length name), ?s1)"
    using n(6) [OF s(2)] unfolding findUuidSpcCs2File_def .
  ultimately have "spc_cs_2 ds sh s = do { (ret, s1) \<leftarrow> cs2_check sh s3; Some (if ret = -1 then -1 else 0, s1) }"
    using n(7) s2(1) o3 ck by (simp add: spc_cs_2_def init_cs2_def free_ptr_def ptr_buf_def)
  then show ?thesis using a3 by blast
qed

lemma spc_cs_2_ok:
  assumes o: "openssl_ok sh dec b64 lim" and s: "disk_ok s" "no_oom (hp s)" "heap_ok (hp s)" and st: "stage_two ds s name uuid a b m"
    and y: "a @ b = b64 y" "length (b64 y) < 2 ^ 30" "dec y \<noteq> []" "length (dec y) < 2 ^ 30"
  shows "\<exists>s'. spc_cs_2 ds sh s = Some (0, s') \<and>
    files s' (down_path uuid SATCS2FILETAIL) = Some (if dec y = THEWORDS then half_frame uuid (second_half m) else uuid @ u32_le 0)"
proof -
  note st = st [unfolded stage_two_def] and np = node_path_simps
  have nd: "node_dirs s" and uo: "uuid_ok uuid" using st by blast+
  then have u: "length uuid = 32" by (simp add: uuid_ok_def)
  obtain u1 r1 r2 t where f: "files s (DEPLOYDIR @ name) = Some (half_frame uuid b @ r2)" "files s SPCCS1FILEPATH = Some (half_frame u1 a @ r1)"
    "length u1 = 32" "files s MSPCDATAFILEPATH = Some (u32_le (word_of_nat (length m)) @ m @ t)" using st by blast
  let ?F1 = "(files s)(DEPLOYDIR @ name := None, SPCCS2FILEPATH \<mapsto> half_frame uuid b @ r2)"
  obtain s3 where start: "spc_cs_2 ds sh s = do { (ret, s1) \<leftarrow> cs2_check sh s3; Some (if ret = -1 then -1 else 0, s1) }" and a3: "after s ?F1 s3"
    using cs2_start [OF s nd _ f(1), of ds sh] st f(2) by blast
  note t3 = afterD [OF a3]
  have s3: "disk_ok s3" "files s3 SPCCS1FILEPATH = Some (half_frame u1 a @ r1)" "files s3 SPCCS2FILEPATH = Some (half_frame uuid b @ r2)"
    using t3 s(1) f(2) by (simp_all add: np)
  have ab: "a \<noteq> []" "b \<noteq> []" "length (a @ b) < 2 ^ 30" using st y(1,2) by auto
  obtain k4 where s4: "getMsat s3 = Some (Ptr (calls (hp s3)) (b64 y), word_of_nat (length (b64 y)), steps (s3\<lparr>hp := alloc 1 (hp s3)\<rparr>) k4)"
    using getMsat_ok [OF s3(1) t3(4) s3(2) f(3) ab(1) s3(3) u ab(2,3)] unfolding y(1) by blast
  let ?s4 = "steps (s3\<lparr>hp := alloc 1 (hp s3)\<rparr>) k4"
  obtain F where F: "F = ?F1 |` (- set temp_files)" by blast
  have yn: "b64 y \<noteq> []" using ab(1) y(1) by auto
  then have "unat (word_of_nat (length (b64 y)) :: u32) = length (b64 y)" using y(2) by (intro unat_u32_len) simp
  then have nz: "(word_of_nat (length (b64 y)) :: u32) \<noteq> 0" using yn by (metis length_0_conv unat_0)
  have h4: "disk_ok ?s4" "dirname (str PLAINFILEPATH) \<in> dirs ?s4" "str SATEPRVPEMFILEPATH \<in> dom (files ?s4)" "no_oom (hp ?s4)"
    using s3(1) t3 node_dirsD(1) [OF nd] st alloc_ok [of "hp s3" 1] by (auto simp: np)
  note b = two_blocks [OF t3(4,5)]
  let ?h2 = "alloc 1 (alloc 1 (hp s3))"
  let ?h3 = "?h2\<lparr>live := live ?h2 - {calls (hp s3)}\<rparr>"
  let ?h4 = "?h3\<lparr>live := live ?h3 - {Suc (calls (hp s3))}\<rparr>"
  have f4: "files ?s4 |` (- set temp_files) = F" using t3(1) F by simp
  obtain k5 where e: "sat_de_de64_and_dec sh (Some (b64 y)) (word_of_nat (length (b64 y))) ?s4 =
      Some (0, Ptr (calls (hp ?s4)) (dec y), word_of_nat (length (dec y)), disk (?s4\<lparr>hp := alloc 1 (hp ?s4)\<rparr>) k5 F)"
    using sat_de_ok [OF o h4(1-3) yn y(2,3,4) h4(4)] unfolding f4 by blast
  have e4: "calls (hp ?s4) = Suc (calls (hp s3))" "\<And>g. disk (?s4\<lparr>hp := alloc 1 (hp ?s4)\<rparr>) k5 g = disk (s3\<lparr>hp := ?h2\<rparr>) k5 g"
    using b(6) by simp_all
  note s5 = e [unfolded e4]
  let ?s5 = "disk (s3\<lparr>hp := ?h2\<rparr>) k5 F" and ?s6 = "disk (s3\<lparr>hp := ?h3\<rparr>) k5 F" and ?s7 = "disk (s3\<lparr>hp := ?h4\<rparr>) k5 F"
  have fr: "os_free (calls (hp s3)) ?s5 = Some ?s6" "os_free (Suc (calls (hp s3))) ?s6 = Some ?s7"
    using os_free_ok [of "calls (hp s3)" ?s5] os_free_ok [of "Suc (calls (hp s3))" ?s6] b(1,2) by simp_all
  let ?c = "if dec y = THEWORDS then 0 else 1 :: int"
  have "after s3 F ?s7" using b(3-5) by (simp add: after_def)
  then obtain s7 where o7: "os_free (Suc (calls (hp s3))) ?s6 = Some s7" and a7: "after s3 F s7" using fr(2) by blast
  note t7 = afterD [OF a7]
  have F2: "F p = ?F1 p" if "p \<in> set node_paths" for p using node_path_other(1) [OF that] by (simp add: restrict_map_def F)
  have F1: "?F1 SPCCS2FILEPATH = Some (uuid @ u32_le (word_of_nat (length b)) @ b @ r2)" "?F1 TEMPSATCS2FILEPATH = None"
    "?F1 MSPCDATAFILEPATH = Some (u32_le (word_of_nat (length m)) @ m @ t)" using st f(4) by (simp_all add: np half_frame_def)
  have s7: "disk_ok s7" "no_oom (hp s7)" "heap_ok (hp s7)" "files s7 SPCCS2FILEPATH = Some (uuid @ u32_le (word_of_nat (length b)) @ b @ r2)"
      "node_dirs s7" "files s7 TEMPSATCS2FILEPATH = None" "down_path uuid SATCS2FILETAIL \<notin> dirs s7"
      "files s7 MSPCDATAFILEPATH = Some (u32_le (word_of_nat (length m)) @ m @ t)" "m \<noteq> []" "length m \<le> 1024"
    unfolding t7(1) F2 [OF node_path_mem(6)] F2 [OF node_path_mem(7)] F2 [OF node_path_mem(8)] F1
    using s3(1) t7(2-5) t3(2) st nd by (simp_all add: node_dirs_def)
  from cs2_reply_ok [OF s7(1-4) uo s7(5-10), of ?c] obtain s8 where
    s8: "cs2_reply ?c s7 = Some (0, s8)" "after s7 ((files s7)(TEMPSATCS2FILEPATH := None,
      down_path uuid SATCS2FILETAIL \<mapsto> if ?c = 0 then half_frame uuid (second_half m) else uuid @ u32_le 0)) s8" by blast
  have f8: "files s8 (down_path uuid SATCS2FILETAIL) = Some (if ?c = 0 then half_frame uuid (second_half m) else uuid @ u32_le 0)"
    using afterD(1) [OF s8(2)] by simp
  have c1: "?c \<noteq> -1" by simp
  have "cs2_check sh s3 = Some (0, s8)"
    using s4 nz s5 fr(1) o7 checkMsg_ok [OF y(3,4)] s8(1) c1
    by (simp add: cs2_check_def free_ptr_def ptr_buf_def split del: if_split)
  then have "spc_cs_2 ds sh s = Some (0, s8)" using start by simp
  moreover have "(?c = 0) = (dec y = THEWORDS)" by simp
  ultimately show ?thesis using f8 by auto
qed

section \<open>Both stages\<close>

text \<open>A file from the ground in the directory of deployments.\<close>

definition arrives :: "byte list \<Rightarrow> byte list \<Rightarrow> os \<Rightarrow> os"
  where "arrives name d s = s\<lparr>files := (files s)(DEPLOYDIR @ name \<mapsto> d)\<rparr>"

text \<open>C4: the check of the keys in two stages.  The node answers the first file of the ground, with the first half of an
  encrypted message, by the first half of its own secret, encrypted for the ground and kept on the disk.  Then it
  answers the second file by the second half of the same message if the two halves of the ground decrypt to the agreed
  word, and by a length of 0 otherwise.\<close>

theorem interlock:
  assumes e: "encrypts sh SPCEPUBPEMFILEPATH skey sdec b64 slim clen" "7 \<le> slim" "slim < 2 ^ 30" "\<forall>z. length z \<le> clen \<longrightarrow> length (b64 z) \<le> 1024"
    and o: "openssl_ok sh dec b64 lim" and s: "disk_ok s" "no_oom (hp s)" "heap_ok (hp s)" "files s (str SPCEPUBPEMFILEPATH) = Some skey"
    and one: "stage_one ds s name1 uuid1 (u32_le (word_of_nat (length a)) @ a @ r)"
    and two: "\<forall>t. DEPLOYDIR @ name2 \<in> dom (files t) \<longrightarrow> deployed ds t SPCCS2FILETAIL name2" "uuid_ok uuid2" "a \<noteq> []" "b \<noteq> []"
      "files s TEMPSATCS2FILEPATH = None" "down_path uuid2 SATCS2FILETAIL \<notin> dirs s" "str SATEPRVPEMFILEPATH \<in> dom (files s)"
    and y: "a @ b = b64 y" "length (b64 y) < 2 ^ 30" "dec y \<noteq> []" "length (dec y) < 2 ^ 30"
  shows "\<exists>s1 s2 z. sdec z = SECRET \<and> spc_cs_1 ds sh s = Some (0, s1) \<and>
    files s1 (down_path uuid1 SATCS1FILETAIL) = Some (half_frame uuid1 (first_half (b64 z))) \<and>
    spc_cs_2 ds sh (arrives name2 (half_frame uuid2 b) s1) = Some (0, s2) \<and>
    files s2 (down_path uuid2 SATCS2FILETAIL) =
      Some (if dec y = THEWORDS then half_frame uuid2 (second_half (b64 z)) else uuid2 @ u32_le 0)"
proof -
  note st = one [unfolded stage_one_def] and np = node_path_simps
  obtain s1 z t where c1: "spc_cs_1 ds sh s = Some (0, s1)" and z: "sdec z = SECRET" "b64 z \<noteq> []" "length z \<le> clen"
    and a1: "after s (((files s)(DEPLOYDIR @ name1 := None, SPCCS1FILEPATH \<mapsto> uuid1 @ u32_le (word_of_nat (length a)) @ a @ r) |` (- set temp_files))
      (MSPCDATAFILEPATH \<mapsto> u32_le (word_of_nat (length (b64 z))) @ b64 z @ t, TEMPSATCS1FILEPATH := None,
       down_path uuid1 SATCS1FILETAIL \<mapsto> half_frame uuid1 (first_half (b64 z)))) s1"
    using spc_cs_1_ok [OF e(1-3) s one] by blast
  note t1 = afterD [OF a1]
  let ?g = "half_frame uuid2 b"
  let ?s = "arrives name2 ?g s1"
  have fs: "files ?s = (files s1)(DEPLOYDIR @ name2 \<mapsto> ?g)" "hp ?s = hp s1" "dirs ?s = dirs s" "disk_ok ?s"
    using t1(2,3) s(1) by (simp_all add: arrives_def disk_ok_def)
  have g: "files ?s SPCCS1FILEPATH = Some (half_frame uuid1 a @ r)"
    "files ?s MSPCDATAFILEPATH = Some (u32_le (word_of_nat (length (b64 z))) @ b64 z @ t)"
    "files ?s TEMPSATCS2FILEPATH = None" "str SATEPRVPEMFILEPATH \<in> dom (files ?s)"
    unfolding fs t1(1) using two(5,7) by (auto simp: np half_frame_def restrict_map_def)
  have "files ?s (DEPLOYDIR @ name2) = Some (half_frame uuid2 b @ [])" unfolding fs by simp
  moreover have "length uuid1 = 32" "node_dirs s" using st by (simp_all add: uuid_ok_def)
  moreover have "node_dirs ?s" using \<open>node_dirs s\<close> fs(3) by (simp add: node_dirs_def)
  moreover have "deployed ds ?s SPCCS2FILETAIL name2" using two(1) fs(1) by simp
  ultimately have "stage_two ds ?s name2 uuid2 a b (b64 z)"
    unfolding stage_two_def using g two z(2,3) e(4) fs(3) by blast
  moreover have "disk_ok ?s" "no_oom (hp ?s)" "heap_ok (hp ?s)" using fs t1(4,5) by simp_all
  ultimately obtain s2 where "spc_cs_2 ds sh ?s = Some (0, s2)"
    "files s2 (down_path uuid2 SATCS2FILETAIL) = Some (if dec y = THEWORDS then half_frame uuid2 (second_half (b64 z)) else uuid2 @ u32_le 0)"
    using spc_cs_2_ok [OF o _ _ _ _ y] by blast
  then show ?thesis using c1 z(1) t1(1) by auto
qed


section \<open>The sum of two lengths\<close>

lemma overflow_read:
  assumes s: "disk_ok s" "no_oom (hp s)" and f1: "files s SPCCS1FILEPATH = Some (u1 @ u32_le up @ a)" "length u1 = 32"
    and f2: "files s SPCCS2FILEPATH = Some (u2 @ u32_le down @ b)" "length u2 = 32"
    and w: "up + down < up" "down \<noteq> 0" "length a = unat up" "length a < 2 ^ 31"
  shows "getMsat s = None"
proof -
  let ?i = "Suc (Suc (io_calls s))" and ?s = "s\<lparr>hp := alloc 1 (hp s)\<rparr>"
  have nz: "up \<noteq> 0" using w(1) by auto
  have h1: "half_len SPCCS1FILEPATH s = (Some (up, \<lparr>fd_path = SPCCS1FILEPATH, fd_off = 36\<rparr>), steps s ?i)"
    by (rule half_len_at [OF s(1) f1 nz])
  have "disk_ok (steps s ?i)" "files (steps s ?i) SPCCS2FILEPATH = Some (u2 @ u32_le down @ b)" using s(1) f2(1) by simp_all
  from half_len_at [OF this f2(2) w(2)]
  have h2: "half_len SPCCS2FILEPATH (steps s ?i) = (Some (down, \<lparr>fd_path = SPCCS2FILEPATH, fd_off = 36\<rparr>), steps s (Suc (Suc ?i)))" by simp
  have m: "os_malloc z (steps s j) = (Some (calls (hp s)), steps ?s j)" for z j using os_malloc_ok [of "steps s j" z] s(2) by simp
  have "int (unat up) < int (2 ^ 31)" using w(4) unfolding w(3) of_nat_less_iff .
  then have "uint up < 2 ^ 31" by simp
  moreover have "- 2147483648 \<le> uint up" using uint_ge_0 [of up] by linarith
  ultimately have sn: "sint up = uint up" by (simp only: sint_uint) (simp add: signed_take_bit_int_eq_self)
  have f: "files (steps ?s j) SPCCS1FILEPATH = Some ((u1 @ u32_le up) @ a @ [])" "disk_ok (steps ?s j)" for j using f1(1) s(1) by simp_all
  have l: "length a < 2 ^ 32" using w(4) by simp
  have n: "\<not> sint up < 0" using sn by simp
  have w0: "wr 0 a (replicate (unat (up + down)) 0) = None" using w(1,3) by (simp only: wr_def word_less_nat_alt length_replicate) simp
  have "read_half \<lparr>fd_path = SPCCS1FILEPATH, fd_off = 36\<rparr> 0 up (replicate (unat (up + down)) 0) (steps ?s j) = None" for j
  proof -
    have "read_fd \<lparr>fd_path = SPCCS1FILEPATH, fd_off = 36\<rparr> (unat up) (steps ?s j) =
        (Some a, \<lparr>fd_path = SPCCS1FILEPATH, fd_off = 36 + unat up\<rparr>, steps ?s (Suc j))"
      using read_fd_disk [OF f(2,1) l, of j] f1(2) w(3) by simp
    then show ?thesis unfolding read_half_def if_not_P [OF n] using w0 by simp
  qed
  then show ?thesis unfolding getMsat_def h1 prod.case option.case h2 m by simp
qed

text \<open>C22: the second stage adds the lengths that both files claim as 32-bit words.  When the sum wraps, the block is too
  short for the first half, and the node writes behind it before anything was decrypted.\<close>

theorem halves_overflow:
  assumes s: "disk_ok s" "no_oom (hp s)" "heap_ok (hp s)" "node_dirs s"
    and f: "deployed ds s SPCCS2FILETAIL name" "files s (DEPLOYDIR @ name) = Some (u2 @ u32_le down @ b)" "length u2 = 32"
      "files s SPCCS1FILEPATH = Some (u1 @ u32_le up @ a)" "length u1 = 32"
    and w: "up + down < up" "down \<noteq> 0" "length a = unat up" "length a < 2 ^ 31"
  shows "spc_cs_2 ds sh s = None"
proof -
  have "SPCCS1FILEPATH \<in> dom (files s)" using f(4) by blast
  from cs2_start [OF s f(1,2) this] obtain s' where
    c: "spc_cs_2 ds sh s = do { (ret, s1) \<leftarrow> cs2_check sh s'; Some (if ret = -1 then -1 else 0, s1) }"
    and a': "after s ((files s)(DEPLOYDIR @ name := None, SPCCS2FILEPATH \<mapsto> u2 @ u32_le down @ b)) s'" by blast
  note t = afterD [OF a']
  have "getMsat s' = None"
    by (rule overflow_read [OF _ t(4) _ f(5) _ f(3) w]) (use t(1,3) s(1) f(4) in \<open>simp_all add: node_path_simps\<close>)
  then show ?thesis using c by (simp add: cs2_check_def)
qed


section \<open>A node with both files of the ground\<close>

definition stage_dir :: dir_ops where
  "stage_dir = \<lparr>dir_read = \<lambda>p s. Some [(replicate 19 0, SPCCS1FILETAIL), (replicate 19 0, SPCCS2FILETAIL)], dir_stale = \<lambda>n. Some (length n)\<rparr>"

lemma stage_deployed: "tail \<in> {SPCCS1FILETAIL, SPCCS2FILETAIL} \<Longrightarrow> deployed stage_dir s tail tail"
proof -
  let ?es = "[(replicate 19 0, SPCCS1FILETAIL), (replicate 19 0, SPCCS2FILETAIL)]"
  have "\<forall>t\<in>{SPCCS1FILETAIL, SPCCS2FILETAIL}. t \<noteq> [] \<and> 0 \<notin> set t \<and> 0x2f \<notin> set t \<and> length t < 256 \<and>
      find_tail t ?es = Some (Some t) \<and> count_tail t ?es 0 = Some 1" by code_simp
  moreover assume "tail \<in> {SPCCS1FILETAIL, SPCCS2FILETAIL}"
  ultimately show ?thesis by (auto simp: deployed_def stage_dir_def)
qed

definition node_shell :: shell where
  "node_shell = \<lparr>sh_system = \<lambda>c.
     if c = str (enc_cmd SATEPUBPEMFILEPATH) \<or> c = str (enc_cmd SPCEPUBPEMFILEPATH) then copy (\<lambda>x. x) PLAINFILEPATH ENCFILEPATH
     else if c = str EN64CMD then copy lines64 ENCFILEPATH EN64FILEPATH
     else if c = str DE64CMD then copy unlines64 EN64FILEPATH ENCFILEPATH
     else copy (\<lambda>x. x) ENCFILEPATH PLAINFILEPATH,
     sh_popen = \<lambda>c s. (None, s)\<rparr>"

lemma node_commands:
  "distinct [str (enc_cmd SATEPUBPEMFILEPATH), str (enc_cmd SPCEPUBPEMFILEPATH), str EN64CMD, str DE64CMD, str SATDECCMD]"
  "str SPCEPUBPEMFILEPATH \<notin> set temp_files"
  by code_simp+

lemma node_shell_does:
  "sh_system node_shell (str (enc_cmd SATEPUBPEMFILEPATH)) = copy (\<lambda>x. x) PLAINFILEPATH ENCFILEPATH"
  "sh_system node_shell (str (enc_cmd SPCEPUBPEMFILEPATH)) = copy (\<lambda>x. x) PLAINFILEPATH ENCFILEPATH"
  "sh_system node_shell (str EN64CMD) = copy lines64 ENCFILEPATH EN64FILEPATH"
  "sh_system node_shell (str DE64CMD) = copy unlines64 EN64FILEPATH ENCFILEPATH"
  "sh_system node_shell (str SATDECCMD) = copy (\<lambda>x. x) ENCFILEPATH PLAINFILEPATH"
  using node_commands(1) by (simp_all add: node_shell_def) (metis | simp)+

lemma node_shell_ok: "openssl_ok node_shell (\<lambda>x. x) (\<lambda>x. x) 100" "encrypts node_shell SPCEPUBPEMFILEPATH [1] (\<lambda>x. x) (\<lambda>x. x) 100 100"
  using node_commands(2) by (simp_all add: openssl_ok_def encrypts_def node_shell_does copy_def)

definition node_disk :: "byte list \<Rightarrow> byte list \<Rightarrow> os" where
  "node_disk g1 g2 = \<lparr>hp = sound_heap, dirs = {dirname (str PLAINFILEPATH), dirname SPCCS1FILEPATH, dirname MSPCDATAFILEPATH, SECDOWNLOADDIR},
     files = [DEPLOYDIR @ SPCCS1FILETAIL \<mapsto> g1, DEPLOYDIR @ SPCCS2FILETAIL \<mapsto> g2, SPCCS1FILEPATH \<mapsto> g1, str SPCEPUBPEMFILEPATH \<mapsto> [1], str SATEPRVPEMFILEPATH \<mapsto> [2]],
     io_calls = 0, io_max = \<lambda>_. Some (2 ^ 32)\<rparr>"

lemma node_disk_ok:
  "disk_ok (node_disk g1 g2)" "no_oom (hp (node_disk g1 g2))" "heap_ok (hp (node_disk g1 g2))" "node_dirs (node_disk g1 g2)"
  "length uuid = 32 \<Longrightarrow> tail \<in> {SATCS1FILETAIL, SATCS2FILETAIL} \<Longrightarrow> down_path uuid tail \<notin> dirs (node_disk g1 g2)"
  "SPCCS1FILETAIL \<noteq> SPCCS2FILETAIL"
proof -
  have "\<forall>p\<in>set node_paths. p \<noteq> dirname (str PLAINFILEPATH) \<and> p \<noteq> dirname SPCCS1FILEPATH \<and> p \<noteq> dirname MSPCDATAFILEPATH \<and> p \<noteq> SECDOWNLOADDIR"
    by code_simp
  then have d: "\<forall>p\<in>set node_paths. p \<notin> dirs (node_disk g1 g2)" by (simp add: node_disk_def)
  then show "node_dirs (node_disk g1 g2)" by (auto simp: node_dirs_def node_disk_def)
  assume "length uuid = 32" "tail \<in> {SATCS1FILETAIL, SATCS2FILETAIL}"
  moreover have "length (dirname (str PLAINFILEPATH)) < 54 \<and> length (dirname SPCCS1FILEPATH) < 54 \<and> length (dirname MSPCDATAFILEPATH) < 54"
    by code_simp
  then have "\<forall>d\<in>dirs (node_disk g1 g2). length d < 54" by (simp add: node_disk_def SECDOWNLOADDIR_def str_def)
  ultimately show "down_path uuid tail \<notin> dirs (node_disk g1 g2)" by (auto simp: down_path_def SECDOWNLOADDIR_def str_def)
next
  show "SPCCS1FILETAIL \<noteq> SPCCS2FILETAIL" by code_simp
qed (simp_all add: node_disk_def disk_ok_def)

lemma interlock_witness:
  "\<exists>s1 s2 z. z = SECRET \<and> spc_cs_1 stage_dir node_shell (node_disk (half_frame (replicate 32 0x41) [0x73]) []) = Some (0, s1) \<and>
    files s1 (down_path (replicate 32 0x41) SATCS1FILETAIL) = Some (half_frame (replicate 32 0x41) (first_half z)) \<and>
    spc_cs_2 stage_dir node_shell (arrives SPCCS2FILETAIL (half_frame (replicate 32 0x42) [0x70, 0x63]) s1) = Some (0, s2) \<and>
    files s2 (down_path (replicate 32 0x42) SATCS2FILETAIL) =
      Some (if [0x73, 0x70, 0x63] = THEWORDS then half_frame (replicate 32 0x42) (second_half z) else replicate 32 0x42 @ u32_le 0)"
proof (rule interlock [OF node_shell_ok(2) _ _ _ node_shell_ok(1) node_disk_ok(1-3), where a = "[0x73]" and r = "[]"])
  let ?s = "node_disk (half_frame (replicate 32 0x41) [0x73]) []"
  have "files ?s (DEPLOYDIR @ SPCCS1FILETAIL) = Some (half_frame (replicate 32 0x41) [0x73])" "str SPCEPUBPEMFILEPATH \<in> dom (files ?s)"
    "files ?s TEMPSATCS1FILEPATH = None" "uuid_ok (replicate 32 0x41)"
    using node_disk_ok(6) by (simp_all add: node_disk_def node_path_simps uuid_ok_def)
  then show "stage_one stage_dir ?s SPCCS1FILETAIL (replicate 32 0x41) (u32_le (word_of_nat (length [0x73 :: byte])) @ [0x73] @ [])"
    using stage_deployed node_disk_ok by (simp add: stage_one_def half_frame_def)
  show "\<forall>t. DEPLOYDIR @ SPCCS2FILETAIL \<in> dom (files t) \<longrightarrow> deployed stage_dir t SPCCS2FILETAIL SPCCS2FILETAIL"
    using stage_deployed by simp
  show "files ?s TEMPSATCS2FILEPATH = None" "str SATEPRVPEMFILEPATH \<in> dom (files ?s)" "files ?s (str SPCEPUBPEMFILEPATH) = Some [1]"
    by (simp_all add: node_disk_def node_path_simps)
qed (simp_all add: uuid_ok_def node_disk_ok(5))

lemma halves_overflow_witness:
  "spc_cs_2 stage_dir node_shell (node_disk (replicate 32 0x41 @ u32_le 3 @ [1, 2, 3]) (replicate 32 0x42 @ u32_le 0xFFFFFFFF @ [4])) = None"
  by (rule halves_overflow [OF node_disk_ok(1-4) stage_deployed [of SPCCS2FILETAIL], where up = 3 and a = "[1, 2, 3]" and down = "0xFFFFFFFF" and
      b = "[4]" and ?u1.0 = "replicate 32 0x41" and ?u2.0 = "replicate 32 0x42"])
    (simp_all add: node_disk_def node_path_simps node_disk_ok(6))

end
