(* ===== verification/Node_Start_Correct.thy ===== *)
theory Node_Start_Correct
  imports Node_Start Node_Init_Correct Upload_Checks
begin

text \<open>The file of a deployment reaches its directory whole, and an upload that is refused starts nothing.\<close>

section \<open>Copying\<close>

lemma copy_block_ok:
  assumes s: "disk_ok s" and f: "p \<noteq> q" "files s p = Some (pre @ d @ post)" and l: "length d < 2 ^ 32"
  shows "copy_block (length d) \<lparr>fd_path = p, fd_off = length pre\<rparr> \<lparr>fd_path = q, fd_off = length w\<rparr> (disk s j ((files s)(q \<mapsto> w @ f))) =
    (True, \<lparr>fd_path = p, fd_off = length (pre @ d)\<rparr>, \<lparr>fd_path = q, fd_off = length (w @ d)\<rparr>,
     disk s (Suc (Suc j)) ((files s)(q \<mapsto> (w @ d) @ drop (length d) f)))"
proof -
  let ?s = "disk s j ((files s)(q \<mapsto> w @ f))"
  have g: "disk_ok ?s" "files ?s p = Some (pre @ d @ post)" using s f by simp_all
  have "read_into \<lparr>fd_path = p, fd_off = length pre\<rparr> (replicate (length d) 0) ?s =
      (int (length d), d, \<lparr>fd_path = p, fd_off = length pre + length d\<rparr>, disk s (Suc j) ((files s)(q \<mapsto> w @ f)))"
    using read_at [OF g, of "replicate (length d) 0" "length pre"] l by simp
  then show ?thesis using put_ok [OF s l, where p = q and pre = w and j = "Suc j" and f = f] by (simp add: copy_block_def)
qed

lemma copy_blocks_ok:
  assumes "disk_ok s" "p \<noteq> q" "files s p = Some (pre @ d @ post)" "length d = k * PATHBUFFERSIZE"
  shows "\<exists>i. copy_blocks k \<lparr>fd_path = p, fd_off = length pre\<rparr> \<lparr>fd_path = q, fd_off = length w\<rparr> (disk s j ((files s)(q \<mapsto> w @ f))) =
    (True, \<lparr>fd_path = p, fd_off = length (pre @ d)\<rparr>, \<lparr>fd_path = q, fd_off = length (w @ d)\<rparr>,
     disk s i ((files s)(q \<mapsto> (w @ d) @ drop (length d) f)))"
  using assms(3,4)
proof (induction k arbitrary: pre d w f j)
  case (Suc k)
  define b e where "b = take PATHBUFFERSIZE d" and "e = drop PATHBUFFERSIZE d"
  have d: "d = b @ e" "length b = PATHBUFFERSIZE" "length e = k * PATHBUFFERSIZE" using Suc.prems(2) by (simp_all add: b_def e_def)
  have l: "length b < 2 ^ 32" unfolding d(2) by (simp add: PATHBUFFERSIZE_def)
  have p: "files s p = Some (pre @ b @ e @ post)" "files s p = Some ((pre @ b) @ e @ post)" using Suc.prems(1) d(1) by simp_all
  note one = copy_block_ok [OF assms(1,2) p(1) l, where w = w and j = j and f = f, unfolded d(2)]
  obtain i where "copy_blocks k \<lparr>fd_path = p, fd_off = length (pre @ b)\<rparr> \<lparr>fd_path = q, fd_off = length (w @ b)\<rparr>
      (disk s (Suc (Suc j)) ((files s)(q \<mapsto> (w @ b) @ drop PATHBUFFERSIZE f))) =
    (True, \<lparr>fd_path = p, fd_off = length ((pre @ b) @ e)\<rparr>, \<lparr>fd_path = q, fd_off = length ((w @ b) @ e)\<rparr>,
     disk s i ((files s)(q \<mapsto> ((w @ b) @ e) @ drop (length e) (drop PATHBUFFERSIZE f))))"
    using Suc.IH [OF p(2) d(3), where w = "w @ b" and j = "Suc (Suc j)" and f = "drop PATHBUFFERSIZE f"] by blast
  then have "copy_blocks (Suc k) \<lparr>fd_path = p, fd_off = length pre\<rparr> \<lparr>fd_path = q, fd_off = length w\<rparr> (disk s j ((files s)(q \<mapsto> w @ f))) =
    (True, \<lparr>fd_path = p, fd_off = length (pre @ d)\<rparr>, \<lparr>fd_path = q, fd_off = length (w @ d)\<rparr>,
     disk s i ((files s)(q \<mapsto> (w @ d) @ drop (length d) f)))"
    using one d by (simp add: add.commute)
  then show ?case by blast
qed simp

lemma copy_data_ok:
  assumes s: "disk_ok s" and f: "p \<noteq> q" "files s p = Some (pre @ d @ post)"
  shows "\<exists>i. copy_data (length d) \<lparr>fd_path = p, fd_off = length pre\<rparr> \<lparr>fd_path = q, fd_off = 0\<rparr> (disk s j ((files s)(q \<mapsto> f))) =
    (0, disk s i ((files s)(q \<mapsto> d @ drop (length d) f)))"
proof -
  define b e where "b = take (length d div PATHBUFFERSIZE * PATHBUFFERSIZE) d" and "e = drop (length d div PATHBUFFERSIZE * PATHBUFFERSIZE) d"
  have d: "d = b @ e" "length b = length d div PATHBUFFERSIZE * PATHBUFFERSIZE" "length e = length d mod PATHBUFFERSIZE"
    by (simp_all add: b_def e_def min_absorb2 minus_div_mult_eq_mod div_times_less_eq_dividend)
  have l: "length e < 2 ^ 32" unfolding d(3) by (simp add: PATHBUFFERSIZE_def less_trans [OF mod_less_divisor])
  have g: "files s p = Some (pre @ b @ e @ post)" "files s p = Some ((pre @ b) @ e @ post)" using f(2) d(1) by simp_all
  obtain i where i: "copy_blocks (length d div PATHBUFFERSIZE) \<lparr>fd_path = p, fd_off = length pre\<rparr> \<lparr>fd_path = q, fd_off = 0\<rparr> (disk s j ((files s)(q \<mapsto> f))) =
    (True, \<lparr>fd_path = p, fd_off = length (pre @ b)\<rparr>, \<lparr>fd_path = q, fd_off = length b\<rparr>, disk s i ((files s)(q \<mapsto> b @ drop (length b) f)))"
    using copy_blocks_ok [OF s f(1) g(1) d(2), where w = "[]" and j = j and f = f] by auto
  note last = copy_block_ok [OF s f(1) g(2) l, where w = b and j = i and f = "drop (length b) f"]
  show ?thesis
  proof (cases "e = []")
    case True
    then have "length d mod PATHBUFFERSIZE = 0" "b = d" using d by simp_all
    then show ?thesis using i by (auto simp: copy_data_def)
  next
    case False
    then have "length d mod PATHBUFFERSIZE \<noteq> 0" using d(3) by (metis length_0_conv)
    moreover have "(b @ e) @ drop (length e) (drop (length b) f) = d @ drop (length d) f" using d(1) by (simp add: add.commute)
    ultimately show ?thesis using i last unfolding copy_data_def d(3) by auto
  qed
qed

section \<open>Paths in a buffer\<close>

lemma strncats_ok:
  assumes "0 \<notin> set xs" "\<forall>t\<in>set tails. 0 \<notin> set t" "length (concat tails) < m"
  shows "strncats (xs @ replicate m 0) tails = Some (xs @ concat tails @ replicate (m - length (concat tails)) 0)"
  using assms
proof (induction tails arbitrary: xs m)
  case (Cons t tails)
  then have t: "0 \<notin> set t" "length t < m" "length (concat tails) < m - length t" by simp_all
  have "strncat (xs @ replicate m 0) t (length t) = Some ((xs @ t) @ replicate (m - length t) 0)"
    using strncat_app [OF Cons.prems(1) t(1,2), of "[]" "length t"] by simp
  then show ?case using Cons.IH [of "xs @ t" "m - length t"] Cons.prems t by simp
qed simp

lemma work_path_ok:
  assumes "0 \<notin> set arg" "\<forall>t\<in>set tails. 0 \<notin> set t" "length arg + length (concat tails) < PATHBUFFERSIZE"
  shows "work_path arg tails = Some (arg @ concat tails @ replicate (PATHBUFFERSIZE - length arg - length (concat tails)) 0)"
proof -
  have "wr 0 arg (replicate PATHBUFFERSIZE 0) = Some (arg @ replicate (PATHBUFFERSIZE - length arg) 0)"
    using wr_0 [of arg "replicate PATHBUFFERSIZE 0"] assms(3) by simp
  then show ?thesis using strncats_ok [OF assms(1,2), of "PATHBUFFERSIZE - length arg"] assms(3) by (simp add: work_path_def)
qed

lemma padded:
  assumes "0 \<notin> set p" "length p < n"
  shows "c_str (p @ replicate (n - length p) 0) = p" "strlen (p @ replicate (n - length p) 0) = Some (length p)"
proof -
  obtain k where "n - length p = Suc k" using assms(2) by (metis Suc_diff_Suc)
  then show "c_str (p @ replicate (n - length p) 0) = p" "strlen (p @ replicate (n - length p) 0) = Some (length p)"
    using c_str_app [OF assms(1)] strlen_app [OF assms(1)] by simp_all
qed

section \<open>The file of a deployment\<close>

definition deploy_file :: "byte list \<Rightarrow> byte \<Rightarrow> byte list \<Rightarrow> byte list \<Rightarrow> byte list \<Rightarrow> byte list \<Rightarrow> byte list" where
  "deploy_file hdr c name md5 d r =
     hdr @ [0xaa, c, 0xbb] @ u32_le (word_of_nat (length name)) @ name @ md5 @ u32_le (word_of_nat (length d)) @ d @ r"

definition checksum_line :: "byte list \<Rightarrow> byte list \<Rightarrow> byte list \<Rightarrow> byte list"
  where "checksum_line md5 dir name = md5 @ str ''  '' @ dir @ name @ [0x0a]"

text \<open>A file that is written from the start and not cut keeps what was behind.\<close>

definition over_old :: "byte list \<Rightarrow> byte list \<Rightarrow> os \<Rightarrow> byte list"
  where "over_old d p s = d @ drop (length d) (old_bytes p s)"

lemma read_seg:
  assumes "disk_ok s" "files s p = Some g" "drop k g = d @ post" "k \<le> length g" "length x = length d" "length d < 2 ^ 32"
  shows "read_into \<lparr>fd_path = p, fd_off = k\<rparr> x s = (int (length d), d, \<lparr>fd_path = p, fd_off = k + length d\<rparr>, steps s (Suc (io_calls s)))"
proof -
  have "files s p = Some (take k g @ d @ post)" using assms(2,3) by (metis append_take_drop_id)
  then show ?thesis using read_at [OF assms(1) _ assms(5,6), of p "take k g" post k] assms(4) by simp
qed

lemma getCmd_ok:
  assumes "disk_ok s" "files s (c_str path) = Some (deploy_file hdr c name md5 d r)" "length hdr = 9"
  shows "getCmd path s = (if c > 0xaa \<or> c < 0xa1 then -1 else uint c - 0xa0, steps s (Suc (Suc (Suc (io_calls s)))))"
proof -
  let ?p = "c_str path" and ?g = "deploy_file hdr c name md5 d r"
  have g: "drop 9 ?g = [0xaa] @ drop 10 ?g" "drop 10 ?g = [c] @ drop 11 ?g" "9 \<le> length ?g" "10 \<le> length ?g"
    using assms(3) by (simp_all add: deploy_file_def)
  have s: "disk_ok (steps s j)" "files (steps s j) ?p = Some ?g" for j using assms(1,2) by simp_all
  show ?thesis
    using open_existing_disk [OF assms(1,2)] read_seg [OF s g(1,3), of "[0]"] read_seg [OF s g(2,4), of "[0]"]
    by (simp add: getCmd_def lseek_def)
qed

lemma open_deploy_ok:
  assumes "disk_ok s" "dirname p \<in> dirs s" "p \<notin> dirs s"
  shows "open_deploy p s = (Some \<lparr>fd_path = p, fd_off = 0\<rparr>, disk s (Suc (io_calls s)) ((files s)(p \<mapsto> old_bytes p s)))"
  using open_create_any [OF assms(1,2)] assms(3) by (simp add: open_deploy_def)


lemma genFile_write_ok:
  assumes s: "disk_ok s" "files s p = Some g" "drop k g = u32_le (word_of_nat (length d)) @ d @ r" "k \<le> length g" "length d < 2 ^ 32"
    and n: "length name \<le> 50" "0 \<notin> set name" "0x2f \<notin> set name" "name \<noteq> str ''checksum''" "length md5 = 32"
    and dir: "0 \<notin> set dir" "length dir < 900" "dir \<noteq> []" "last dir = 0x2f" "dir \<in> dirs s" "dir @ name \<notin> dirs s" "dir @ str ''checksum'' \<notin> dirs s"
    and p: "p \<noteq> dir @ name" "p \<noteq> dir @ str ''checksum''"
  defines "F \<equiv> (files s)(dir @ str ''checksum'' \<mapsto> over_old (checksum_line md5 dir name) (dir @ str ''checksum'') s,
      dir @ name \<mapsto> over_old d (dir @ name) s)"
  shows "\<exists>i. genFile_write (dir @ replicate (PATHBUFFERSIZE - length dir) 0) (length dir) name md5 \<lparr>fd_path = p, fd_off = k\<rparr> s =
    Some (0, disk s i F)"
proof -
  let ?c = "str ''checksum''" and ?z = "PATHBUFFERSIZE - length dir"
  have c: "length ?c = 8" "0 \<notin> set ?c" "0x2f \<notin> set ?c" by (simp_all add: str_def)
  have z: "8 < ?z" "length name < ?z" using dir(2) n(1) by (simp_all add: PATHBUFFERSIZE_def)
  have b1: "strncat (dir @ replicate ?z 0) ?c 8 = Some ((dir @ ?c) @ replicate (PATHBUFFERSIZE - length (dir @ ?c)) 0)"
    using strncat_app [OF dir(1) c(2), of ?z "[]" 8] c(1) z by simp
  have b2: "strncat (dir @ replicate ?z 0) name (length name) = Some ((dir @ name) @ replicate (PATHBUFFERSIZE - length (dir @ name)) 0)"
    using strncat_app [OF dir(1) n(2), of ?z "[]" "length name"] z by simp
  have cs: "c_str ((dir @ ?c) @ replicate (PATHBUFFERSIZE - length (dir @ ?c)) 0) = dir @ ?c"
    "c_str ((dir @ name) @ replicate (PATHBUFFERSIZE - length (dir @ name)) 0) = dir @ name"
    using padded(1) [of "dir @ ?c" PATHBUFFERSIZE] padded(1) [of "dir @ name" PATHBUFFERSIZE] dir(1) c n(2) z by auto
  have dn: "dirname (dir @ ?c) = dir" "dirname (dir @ name) = dir" using dirname_app c(3) n(3) dir(3,4) by blast+
  let ?line = "[md5, str ''  '', dir, name, [0x0a]]"
  let ?F1 = "(files s)(dir @ ?c \<mapsto> over_old (checksum_line md5 dir name) (dir @ ?c) s)"
  have l: "\<forall>d\<in>set ?line. length d < 2 ^ 32" using n(1,5) dir(2) by (simp add: str_def)
  have o1: "open_deploy (dir @ ?c) s = (Some \<lparr>fd_path = dir @ ?c, fd_off = 0\<rparr>, disk s (Suc (io_calls s)) ((files s)(dir @ ?c \<mapsto> old_bytes (dir @ ?c) s)))"
    using open_deploy_ok [OF s(1)] dn(1) dir(5,7) by simp
  have "checksum_line md5 dir name = concat ?line" by (simp add: checksum_line_def)
  then obtain i where w: "put_all \<lparr>fd_path = dir @ ?c, fd_off = 0\<rparr> ?line
      (disk s (Suc (io_calls s)) ((files s)(dir @ ?c \<mapsto> old_bytes (dir @ ?c) s))) = (0, disk s i ?F1)"
    using put_all_ok [OF s(1) l, where p = "dir @ ?c" and pre = "[]" and j = "Suc (io_calls s)" and f = "old_bytes (dir @ ?c) s"]
    unfolding over_old_def by auto
  have o2: "open_deploy (dir @ name) (disk s i ?F1) =
      (Some \<lparr>fd_path = dir @ name, fd_off = 0\<rparr>, disk s (Suc i) (?F1(dir @ name \<mapsto> old_bytes (dir @ name) s)))"
    using open_deploy_ok [of "disk s i ?F1" "dir @ name"] s(1) dn(2) dir(5,6) n(4) by simp
  let ?s3 = "disk s (Suc i) (?F1(dir @ name \<mapsto> old_bytes (dir @ name) s))"
  have s3: "disk_ok ?s3" "files ?s3 p = Some g" using s(1,2) p by simp_all
  have r: "read_into \<lparr>fd_path = p, fd_off = k\<rparr> (u32_le 0) ?s3 =
      (4, u32_le (word_of_nat (length d)), \<lparr>fd_path = p, fd_off = k + 4\<rparr>, disk s (Suc (Suc i)) (?F1(dir @ name \<mapsto> old_bytes (dir @ name) s)))"
    using read_seg [OF s3 s(3,4), of "u32_le 0"] by simp
  have "drop k g = u32_le (word_of_nat (length d)) @ d @ r" by (rule s(3))
  then have "g = (take k g @ u32_le (word_of_nat (length d))) @ d @ r" by (metis append.assoc append_take_drop_id)
  moreover have "length (take k g @ u32_le (word_of_nat (length d))) = k + 4" using s(4) by simp
  ultimately obtain pre where pre: "g = pre @ d @ r" "length pre = k + 4" by blast
  have s1: "disk_ok (disk s j ?F1)" "files (disk s j ?F1) p = Some (pre @ d @ r)" for j using s(1,2) p(2) pre(1) by simp_all
  have un: "unat (word_of_nat (length d) :: u32) = length d" using s(5) by (intro unat_u32_len) simp
  obtain i2 where "copy_data (length d) \<lparr>fd_path = p, fd_off = k + 4\<rparr> \<lparr>fd_path = dir @ name, fd_off = 0\<rparr>
      (disk s (Suc (Suc i)) (?F1(dir @ name \<mapsto> old_bytes (dir @ name) s))) = (0, disk s i2 F)"
    using copy_data_ok [OF s1(1) p(1) s1(2), where j = "Suc (Suc i)" and f = "old_bytes (dir @ name) s"] pre(2)
    by (auto simp: F_def over_old_def)
  then show ?thesis
    using b1 b2 cs o1 w o2 r un by (simp add: genFile_write_def rd_def wire_simps del: put_all.simps append_assoc)
qed

lemma genFile_ok:
  assumes s: "disk_ok s" "files s p = Some (deploy_file hdr c name md5 d r)" "length hdr = 9" "length d < 2 ^ 32" and cp: "c_str path = p"
    and n: "length name \<le> 50" "0 \<notin> set name" "0x2f \<notin> set name" "name \<noteq> str ''checksum''" "length md5 = 32"
    and dir: "0 \<notin> set dir" "length dir < 900" "dir \<noteq> []" "last dir = 0x2f" "dir \<in> dirs s" "dir @ name \<notin> dirs s" "dir @ str ''checksum'' \<notin> dirs s"
    and p: "p \<noteq> dir @ name" "p \<noteq> dir @ str ''checksum''"
  shows "\<exists>i. genFile path (dir @ replicate (PATHBUFFERSIZE - length dir) 0) (length dir) s =
    Some (0, disk s i ((files s)(dir @ str ''checksum'' \<mapsto> over_old (checksum_line md5 dir name) (dir @ str ''checksum'') s,
      dir @ name \<mapsto> over_old d (dir @ name) s)))"
proof -
  let ?g = "deploy_file hdr c name md5 d r" and ?n = "length name"
  have un: "unat (word_of_nat ?n :: u32) = ?n" using n(1) by (intro unat_u32_len) simp
  let ?t = "u32_le (word_of_nat (length d)) @ d @ r"
  have a1: "drop 16 ?g = name @ md5 @ ?t" using s(3) by (simp add: deploy_file_def)
  have a2: "drop (16 + ?n) ?g = md5 @ ?t" using arg_cong [OF a1, of "drop ?n"] by (simp add: add.commute)
  have a3: "drop (48 + ?n) ?g = ?t" using arg_cong [OF a2, of "drop 32"] n(5) by (simp add: add.commute)
  have g: "drop 11 ?g = [0xbb] @ drop 12 ?g" "drop 12 ?g = u32_le (word_of_nat ?n) @ drop 16 ?g" "drop 16 ?g = name @ drop (16 + ?n) ?g"
      "drop (16 + ?n) ?g = md5 @ drop (48 + ?n) ?g" "drop (48 + ?n) ?g = ?t"
    using s(3) a1 a2 a3 by (simp_all add: deploy_file_def)
  have l: "48 + ?n \<le> length ?g" "11 \<le> length ?g" "12 \<le> length ?g" "16 \<le> length ?g" "16 + ?n \<le> length ?g"
    using s(3) n(5) by (simp_all add: deploy_file_def)
  have s': "disk_ok (steps s j)" "files (steps s j) p = Some ?g" for j using s(1,2) by simp_all
  have z: "length name < 2 ^ 32" "length md5 < 2 ^ 32" using n(1,5) by simp_all
  have r1: "read_into \<lparr>fd_path = p, fd_off = 11\<rparr> [0] (steps s j) = (1, [0xbb], \<lparr>fd_path = p, fd_off = 12\<rparr>, steps s (Suc j))" for j
    using read_seg [OF s' g(1) l(2), of "[0]"] by simp
  have r2: "read_into \<lparr>fd_path = p, fd_off = 12\<rparr> (u32_le 0) (steps s j) =
      (4, u32_le (word_of_nat ?n), \<lparr>fd_path = p, fd_off = 16\<rparr>, steps s (Suc j))" for j
    using read_seg [OF s' g(2) l(3), of "u32_le 0"] by simp
  have r3: "read_into \<lparr>fd_path = p, fd_off = 16\<rparr> (replicate ?n 0) (steps s j) =
      (int ?n, name, \<lparr>fd_path = p, fd_off = 16 + ?n\<rparr>, steps s (Suc j))" for j
    using read_seg [OF s' g(3) l(4) _ z(1), of "replicate ?n 0"] by simp
  have r4: "read_into \<lparr>fd_path = p, fd_off = 16 + ?n\<rparr> (replicate 32 0) (steps s j) =
      (32, md5, \<lparr>fd_path = p, fd_off = 48 + ?n\<rparr>, steps s (Suc j))" for j
    using read_seg [OF s' g(4) l(5) _ z(2), of "replicate 32 0"] n(5) by simp
  have d: "dir \<in> dirs (steps s j)" "dir @ name \<notin> dirs (steps s j)" "dir @ str ''checksum'' \<notin> dirs (steps s j)" for j using dir(5-7) by simp_all
  let ?j = "Suc (Suc (Suc (Suc (Suc (io_calls s)))))"
  obtain i where i: "genFile_write (dir @ replicate (PATHBUFFERSIZE - length dir) 0) (length dir) name md5 \<lparr>fd_path = p, fd_off = 48 + ?n\<rparr> (steps s ?j) =
      Some (0, disk (steps s ?j) i ((files s)(dir @ str ''checksum'' \<mapsto> over_old (checksum_line md5 dir name) (dir @ str ''checksum'') (steps s ?j),
        dir @ name \<mapsto> over_old d (dir @ name) (steps s ?j))))"
    using genFile_write_ok [OF s' g(5) l(1) s(4) n dir(1-4) d p, of ?j] by auto
  have "genFile path (dir @ replicate (PATHBUFFERSIZE - length dir) 0) (length dir) s =
      genFile_write (dir @ replicate (PATHBUFFERSIZE - length dir) 0) (length dir) name md5 \<lparr>fd_path = p, fd_off = 48 + ?n\<rparr> (steps s ?j)"
    using open_existing_disk [OF s(1,2)] r1 r2 r3 r4 un n(1)
    by (simp add: genFile_def cp lseek_def wire_simps Let_def NAMEBUFFERSIZE_def del: append_assoc)
  then show ?thesis using i by (auto simp: over_old_def)
qed

section \<open>The program of deployments\<close>

definition key_step :: "byte \<Rightarrow> dir_ops \<Rightarrow> shell \<Rightarrow> os \<Rightarrow> (int \<times> os) option" where
  "key_step c ds sh s =
    (if c = 0xa8 then spc_init_node ds sh s else if c = 0xa9 then spc_cs_1 ds sh s else if c = 0xaa then spc_cs_2 ds sh s else Some (0, s))"

lemma upgrade_script_len: "length (upgrade_script cmd) \<le> 30" "0 \<notin> set (upgrade_script cmd)"
  by (simp_all add: upgrade_script_def str_def)

lemma script_line_ok:
  assumes "0 \<notin> set arg" "length arg \<le> 490"
  shows "\<exists>l. script_line cmd arg = Some l"
proof -
  let ?z = "PATHBUFFERSIZE - length arg"
  have z: "length arg < PATHBUFFERSIZE" using assms(2) by (simp add: PATHBUFFERSIZE_def)
  have w: "work_path arg [] = Some (arg @ replicate ?z 0)" using work_path_ok [OF assms(1), of "[]"] z by simp
  let ?t = "[arg, upgrade_script cmd, str '' '']"
  have t: "\<forall>t\<in>set ?t. 0 \<notin> set t" "length (concat ?t) < PATHBUFFERSIZE"
    using assms upgrade_script_len [of cmd] by (simp_all add: str_def PATHBUFFERSIZE_def)
  have a: "strncats (replicate PATHBUFFERSIZE 0) ?t = Some (concat ?t @ replicate (PATHBUFFERSIZE - length (concat ?t)) 0)"
    using strncats_ok [of "[]", OF _ t] by simp
  have e: "0 \<notin> set (concat ?t)" "length arg < PATHBUFFERSIZE - length (concat ?t)"
    using t(1) assms upgrade_script_len [of cmd] by (simp_all add: str_def PATHBUFFERSIZE_def)
  have h: "replicate ?z 0 = [] \<or> hd (replicate ?z (0 :: byte)) = 0" by (cases ?z) simp_all
  from strncat_app [OF e(1) assms(1) e(2) h order_refl] a w padded(2) [OF assms(1) z]
  show ?thesis by (simp add: script_line_def del: concat.simps strncats.simps)
qed

lemma run_command_ok:
  assumes "0 \<notin> set arg" "length arg \<le> 490"
  shows "run_command (if c > 0xaa \<or> c < 0xa1 then -1 else uint c - 0xa0) arg ds sh s = do { (ret, s1) \<leftarrow> key_step c ds sh s; Some s1 }"
proof -
  have w: "(c = 0xa8) = (uint c = 168)" "(c = 0xa9) = (uint c = 169)" "(c = 0xaa) = (uint c = 170)" "(c > 0xaa) = (uint c > 170)" "(c < 0xa1) = (uint c < 161)"
    by (simp_all add: word_uint_eq_iff word_less_def)
  obtain l where "script_line (uint c - 160) arg = Some l" using script_line_ok [OF assms] by blast
  then show ?thesis unfolding run_command_def key_step_def w by auto
qed

text \<open>C6: The program of deployments puts the data of the file that came in the directory of deployments, under the name the
  file gives, with a line for \<^verbatim>\<open>md5sum\<close> beside it, whatever the command is, also one that is not known, with one
  exception: for the command to recover the image (\<^verbatim>\<open>0xa4\<close>) no file is written at all.  An older file that was longer
  keeps its end.  Then the step on keys is made if the command names one; the other commands do nothing more.\<close>

theorem spcstart_deploys:
  assumes s: "disk_ok s" "files s (arg @ PREPAREDIRTAIL @ DATAFILENAME) = Some (deploy_file hdr c name md5 d r)"
    and l: "length hdr = 9" "length md5 = 32" "length d < 2 ^ 32"
    and n: "length name \<le> 50" "0 \<notin> set name" "0x2f \<notin> set name" "name \<noteq> str ''checksum''" and arg: "0 \<notin> set arg" "length arg \<le> 490"
    and dir: "dir = arg @ PREPAREDIRTAIL @ DEPLOYDIRTAIL" "dir \<in> dirs s" "dir @ name \<notin> dirs s" "dir @ str ''checksum'' \<notin> dirs s"
  shows "\<exists>i. spcstart_main [arg] ds sh s = do {
    (ret, s') \<leftarrow> key_step c ds sh (disk s i (if c = 0xa4 then files s else
      (files s)(dir @ str ''checksum'' \<mapsto> over_old (checksum_line md5 dir name) (dir @ str ''checksum'') s,
        dir @ name \<mapsto> over_old d (dir @ name) s)));
    Some (0, s') }"
proof -
  let ?p = "arg @ PREPAREDIRTAIL @ DATAFILENAME"
  have t: "0 \<notin> set PREPAREDIRTAIL" "0 \<notin> set DATAFILENAME" "0 \<notin> set DEPLOYDIRTAIL" "length PREPAREDIRTAIL = 8" "length DATAFILENAME = 8"
    "length DEPLOYDIRTAIL = 7" "DEPLOYDIRTAIL \<noteq> []" "last DEPLOYDIRTAIL = 0x2f" "hd DATAFILENAME \<noteq> hd DEPLOYDIRTAIL" "DATAFILENAME \<noteq> []" by code_simp+
  have z: "length ?p < PATHBUFFERSIZE" "length dir < PATHBUFFERSIZE" "0 \<notin> set ?p" "0 \<notin> set dir" "length dir < 900" "dir \<noteq> []" "last dir = 0x2f"
    using t arg by (simp_all add: dir(1) PATHBUFFERSIZE_def)
  have b: "work_path arg [PREPAREDIRTAIL, DATAFILENAME] = Some (?p @ replicate (PATHBUFFERSIZE - length ?p) 0)"
    "work_path arg [PREPAREDIRTAIL, DEPLOYDIRTAIL] = Some (dir @ replicate (PATHBUFFERSIZE - length dir) 0)"
    "work_path arg [] = Some (arg @ replicate (PATHBUFFERSIZE - length arg) 0)"
    using work_path_ok [OF arg(1), of "[PREPAREDIRTAIL, DATAFILENAME]"] work_path_ok [OF arg(1), of "[PREPAREDIRTAIL, DEPLOYDIRTAIL]"]
      work_path_ok [OF arg(1), of "[]"] t z arg(2) by (simp_all add: dir(1) PATHBUFFERSIZE_def)
  note cp = padded(1) [OF z(3,1)] and sl = padded(2) [OF z(4,2)]
  have ne: "?p \<noteq> dir @ x" for x
  proof
    assume "?p = dir @ x"
    then have "hd DATAFILENAME = hd (DEPLOYDIRTAIL @ x)" by (simp add: dir(1))
    then show False using t(7,9) by simp
  qed
  let ?s1 = "steps s (Suc (Suc (Suc (io_calls s))))"
  have s1: "disk_ok ?s1" "files ?s1 ?p = Some (deploy_file hdr c name md5 d r)" using s by simp_all
  have s1d: "dir \<in> dirs ?s1" "dir @ name \<notin> dirs ?s1" "dir @ str ''checksum'' \<notin> dirs ?s1" using dir by simp_all
  obtain i where i: "genFile (?p @ replicate (PATHBUFFERSIZE - length ?p) 0) (dir @ replicate (PATHBUFFERSIZE - length dir) 0) (length dir) ?s1 =
      Some (0, disk s i ((files s)(dir @ str ''checksum'' \<mapsto> over_old (checksum_line md5 dir name) (dir @ str ''checksum'') s,
        dir @ name \<mapsto> over_old d (dir @ name) s)))"
    using genFile_ok [OF s1 l(1,3) cp n l(2) z(4-7) s1d ne ne] by (auto simp: over_old_def)
  have g: "getCmd (?p @ replicate (PATHBUFFERSIZE - length ?p) 0) s = (if c > 0xaa \<or> c < 0xa1 then -1 else uint c - 0xa0, ?s1)"
    using getCmd_ok [OF s(1), of "?p @ replicate (PATHBUFFERSIZE - length ?p) 0"] s(2) l(1) unfolding cp by blast
  have c4: "(if c > 0xaa \<or> c < 0xa1 then -1 else uint c - 0xa0) = 4 \<longleftrightarrow> c = 0xa4"
    by (auto simp: word_uint_eq_iff word_less_def)
  show ?thesis
  proof (cases "c = 0xa4")
    case True
    have "?s1 = disk s (Suc (Suc (Suc (io_calls s)))) (files s)" by simp
    then show ?thesis
      using b g run_command_ok [OF arg, of c ds sh] True
      by (intro exI [of _ "Suc (Suc (Suc (io_calls s)))"]) (simp add: spcstart_main_def case_prod_unfold)
  next
    case False
    then show ?thesis
      using b g sl i c4 run_command_ok [OF arg, of c ds sh] by (intro exI [of _ i]) (simp add: spcstart_main_def case_prod_unfold)
  qed
qed

text \<open>C12: Nothing is done for an upload whose checksum is not the one of its checksum file: no file is moved to the trash,
  no transaction is signed, no command is carried out, and the node is not asked.\<close>

theorem bad_upload_starts_nothing:
  assumes "uploaded ds s b f (check_file hdr md5 tag k r)" "length hdr = 9" "length md5 = 32" "md5_ok sh md5sum"
    and "disk_ok s" "no_oom (hp s)" "heap_ok (hp s)" and "md5 \<noteq> md5sum f" and "prepare_checkDataFile ds s \<noteq> None"
  shows "\<exists>s'. spc_start_work ds sh eintr ops aes ls rand time g s n = Some (-1, g, s', n) \<and> files s' = files s \<and> dirs s' = dirs s"
proof -
  obtain s1 where "prepare_processDataFile ds sh eintr s = Some (-1, s1)" "files s1 = files s" "dirs s1 = dirs s"
    using upload_rejected [OF assms(1-8)] by blast
  moreover obtain v where "prepare_checkDataFile ds s = Some v" using assms(9) by blast
  ultimately show ?thesis by (cases "v = -1") (simp_all add: spc_start_work_def)
qed

section \<open>A deployment and a bad upload\<close>

definition deploy_disk :: "byte list \<Rightarrow> os" where
  "deploy_disk arg = node_disk [] []
     \<lparr>dirs := {arg @ PREPAREDIRTAIL @ DEPLOYDIRTAIL},
      files := [arg @ PREPAREDIRTAIL @ DATAFILENAME \<mapsto> deploy_file (replicate 9 0) 0xa1 [0x61] (replicate 32 0x30) [1, 2, 3] []]\<rparr>"

lemma spcstart_deploys_witness:
  "\<exists>i. spcstart_main [[0x2f]] stage_dir node_shell (deploy_disk [0x2f]) = do {
    (ret, s') \<leftarrow> key_step 0xa1 stage_dir node_shell (disk (deploy_disk [0x2f]) i ((files (deploy_disk [0x2f]))
      (([0x2f] @ PREPAREDIRTAIL @ DEPLOYDIRTAIL) @ str ''checksum'' \<mapsto>
         over_old (checksum_line (replicate 32 0x30) ([0x2f] @ PREPAREDIRTAIL @ DEPLOYDIRTAIL) [0x61])
           (([0x2f] @ PREPAREDIRTAIL @ DEPLOYDIRTAIL) @ str ''checksum'') (deploy_disk [0x2f]),
       ([0x2f] @ PREPAREDIRTAIL @ DEPLOYDIRTAIL) @ [0x61] \<mapsto>
         over_old [1, 2, 3] (([0x2f] @ PREPAREDIRTAIL @ DEPLOYDIRTAIL) @ [0x61]) (deploy_disk [0x2f]))));
    Some (0, s') }"
  by (rule spcstart_deploys [where hdr = "replicate 9 0" and r = "[]" and c = "0xa1", simplified])
    (use node_disk_ok(1) [of "[]" "[]"] in \<open>simp_all add: deploy_disk_def disk_ok_def str_def\<close>)

lemma bad_upload_starts_nothing_witness:
  "\<forall>ops aes ls rand time g n. \<exists>s'. spc_start_work demo_ds sum_shell (\<lambda>_. False) ops aes ls rand time g (check_disk 7) n = Some (-1, g, s', n) \<and>
    files s' = files (check_disk 7) \<and> dirs s' = dirs (check_disk 7)"
proof -
  have "has_tail DATAFILETAIL ([1, 0, 0, 0, 2, 0, 0, 0, 16, 0, 4], [0x2e]) \<noteq> None" "has_tail DATAFILETAIL ([], demo_base @ DATAFILETAIL) \<noteq> None"
    by (simp_all add: has_tail_def)
  then have "prepare_checkDataFile demo_ds (check_disk 7) \<noteq> None"
    by (auto simp: prepare_checkDataFile_def countDataFile_def demo_ds_def)
  then show ?thesis
    using bad_upload_starts_nothing [OF check_disk_uploaded _ _ sum_shell_ok, of 7]
    by (simp add: check_disk_def upload_disk_def disk_ok_def)
qed

end
