(* ===== verification/Node_Keys.thy ===== *)
theory Node_Keys
  imports Node_Init_Correct
begin

text \<open>The exchange of the public keys (\<^verbatim>\<open>spc_init_node\<close>) on a disk and with programs that work.\<close>

section \<open>Reading a key\<close>

lemma pem_read_ok:
  assumes "disk_ok s" "files s (str p) = Some x" "x \<noteq> []" "length x < 2 ^ 30"
  shows "get_pem_key_buffer_len p n s = (0, word_of_nat (length x), steps s (Suc (io_calls s)))"
    "pem_to_buffer p (Some (replicate (length x) 0)) (word_of_nat (length x)) s = Some (0, Some x, steps s (Suc (Suc (io_calls s))))"
proof -
  have u: "unat (word_of_nat (length x) :: u32) = length x" using assms(4) by (intro unat_u32_len) simp
  then have nz: "(word_of_nat (length x) :: u32) \<noteq> 0" using assms(3) by (metis length_0_conv unat_0)
  have a: "access (str p) s = 0" using assms(2) by (simp add: access_def dom_def)
  note o = open_existing_disk [OF assms(1,2)]
  show "get_pem_key_buffer_len p n s = (0, word_of_nat (length x), steps s (Suc (io_calls s)))"
    using a o nz assms(2) by (simp add: get_pem_key_buffer_len_def Let_def)
  have s1: "disk_ok (steps s (Suc (io_calls s)))" "files (steps s (Suc (io_calls s))) (str p) = Some ([] @ x @ [])" using assms(1,2) by simp_all
  have "read_fd \<lparr>fd_path = str p, fd_off = 0\<rparr> (length x) (steps s (Suc (io_calls s))) =
      (Some x, \<lparr>fd_path = str p, fd_off = length x\<rparr>, steps s (Suc (Suc (io_calls s))))"
    using read_fd_disk [OF s1] assms(4) by simp
  moreover have "wr 0 x (replicate (length x) 0) = Some x" using wr_0 [of x "replicate (length x) 0"] by simp
  ultimately show "pem_to_buffer p (Some (replicate (length x) 0)) (word_of_nat (length x)) s = Some (0, Some x, steps s (Suc (Suc (io_calls s))))"
    using a o nz by (simp add: pem_to_buffer_def u)
qed

lemma parseSpcEpubFile_ok:
  assumes s: "disk_ok s" "no_oom (hp s)" "files s SPCEPUBFILETEMPPATH = Some (half_frame uuid key @ r)"
    and u: "length uuid = 32" "length key \<le> 2048"
  shows "\<exists>k. parseSpcEpubFile (Some (replicate 33 0)) 32 s =
    Some (0, Some (uuid @ [0]), Ptr (calls (hp s)) key, word_of_nat (length key), steps (s\<lparr>hp := alloc 1 (hp s)\<rparr>) k)"
proof -
  let ?n = "word_of_nat (length key) :: u32" and ?p = SPCEPUBFILETEMPPATH and ?s = "s\<lparr>hp := alloc 1 (hp s)\<rparr>"
  have un: "unat ?n = length key" using u(2) by (intro unat_u32_len) simp
  then have n: "\<not> ?n > 2048" using u(2) by (simp add: word_less_nat_alt)
  have f: "files s ?p = Some (uuid @ u32_le ?n @ key @ r)" "files s ?p = Some ((uuid @ u32_le ?n) @ key @ r)"
    using s(3) by (simp_all add: half_frame_def)
  have d: "disk_ok (steps s j)" "files (steps s j) ?p = Some (uuid @ u32_le ?n @ key @ r)" "disk_ok (steps ?s j)"
    "files (steps ?s j) ?p = Some ((uuid @ u32_le ?n) @ key @ r)" for j using s(1) f by simp_all
  have r1: "read_into \<lparr>fd_path = ?p, fd_off = 32\<rparr> (u32_le 0) (steps s j) = (4, u32_le ?n, \<lparr>fd_path = ?p, fd_off = 36\<rparr>, steps s (Suc j))" for j
    using read_at [OF d(1,2), of "u32_le 0" 32] u(1) by simp
  have r2: "read_into \<lparr>fd_path = ?p, fd_off = 36\<rparr> (replicate (length key) 0) (steps ?s j) =
      (int (length key), key, \<lparr>fd_path = ?p, fd_off = 36 + length key\<rparr>, steps ?s (Suc j))" for j
    using read_at [OF d(3,4), of "replicate (length key) 0" 36] u by simp
  have m: "os_malloc z (steps s j) = (Some (calls (hp s)), steps ?s j)" for z j using os_malloc_ok [of "steps s j" z] s(2) by simp
  show ?thesis
    using parse_uuid_ok [OF s(1) f(1) u(1), of 32] r1 r2 m n un by (simp add: parseSpcEpubFile_def wire_simps Let_def)
qed

lemma genTempSatEpubFile_ok:
  assumes s: "disk_ok s" "dirname TEMPSATEPUBFILEPATH \<in> dirs s" "files s TEMPSATEPUBFILEPATH = None"
    and u: "length uuid = 32" and x: "x \<noteq> []" "length x < 2 ^ 30"
  shows "\<exists>k. genTempSatEpubFile (Some (uuid @ [0])) 32 (Some x) (word_of_nat (length x)) s =
    Some (0, disk s k ((files s)(TEMPSATEPUBFILEPATH \<mapsto> half_frame uuid x)))"
proof -
  have un: "unat (word_of_nat (length x) :: u32) = length x" using x(2) by (intro unat_u32_len) simp
  then have nz: "(word_of_nat (length x) :: u32) \<noteq> 0" using x(1) by (metis length_0_conv unat_0)
  have r: "rd 32 (uuid @ [0]) = Some uuid" "rd (length x) x = Some x" using u by (simp_all add: rd_def)
  have l: "\<forall>d\<in>set [uuid, u32_le (word_of_nat (length x)), x]. length d < 2 ^ 32" using u x(2) by simp
  obtain fd s1 k where "open_create TEMPSATEPUBFILEPATH s = (Some fd, s1)" "put_all fd [uuid, u32_le (word_of_nat (length x)), x] s1 =
      (0, disk s k ((files s)(TEMPSATEPUBFILEPATH \<mapsto> half_frame uuid x)))"
    using write_frame [OF s(1,2) l] s(3) by (auto simp: half_frame_def)
  then show ?thesis using nz r un by (simp add: genTempSatEpubFile_def del: put_all.simps)
qed

section \<open>The exchange\<close>

definition key_dirs :: "os \<Rightarrow> bool" where
  "key_dirs s \<longleftrightarrow> node_dirs s \<and> dirname (str SPCEPUBPEMFILEPATH) \<in> dirs s"

lemma temp_dirs:
  "dirname SPCEPUBFILETEMPPATH = dirname SPCCS1FILEPATH" "dirname TEMPEPUBFILEPATH = dirname SPCCS1FILEPATH"
  "dirname TEMPSATEPUBFILEPATH = dirname SPCCS1FILEPATH" "0 \<notin> set SATEPUBFILETAIL" "0x2f \<notin> set SATEPUBFILETAIL"
  by code_simp+

lemma down_path_dir: "take 22 (down_path uuid tail) = SECDOWNLOADDIR" "length (down_path uuid tail) = 22 + length uuid + length tail"
  by (simp_all add: down_path_def SECDOWNLOADDIR_def str_def)

lemma deploy_not_down: "DEPLOYDIR @ name \<noteq> down_path uuid tail"
proof -
  have "take 22 (DEPLOYDIR @ name) = take 22 DEPLOYDIR" using deploy_dir(1) by simp
  moreover have "take 22 DEPLOYDIR \<noteq> SECDOWNLOADDIR" by code_simp
  ultimately show ?thesis using down_path_dir(1) by metis
qed

lemma exchange_rest_ok:
  assumes a: "after (s0\<lparr>hp := alloc 1 (hp s0)\<rparr>) F s" "heap_ok (hp s0)" "no_oom (hp s0)" and s: "disk_ok s0" "key_dirs s0"
    and f: "F SPCEPUBFILETEMPPATH = Some (half_frame uuid key @ r)" "F TEMPSATEPUBFILEPATH = None"
    and u: "uuid_ok uuid" "key \<noteq> []" "length key \<le> 2048" "down_path uuid SATEPUBFILETAIL \<notin> dirs s0" and x: "x \<noteq> []" "length x < 2 ^ 30"
  shows "\<exists>s'. exchange_rest (calls (hp s0)) x (word_of_nat (length x)) s = Some (0, s') \<and>
    after s0 (F(str SPCEPUBPEMFILEPATH \<mapsto> key, TEMPSATEPUBFILEPATH := None, down_path uuid SATEPUBFILETAIL \<mapsto> half_frame uuid x)) s'"
proof -
  note t = afterD [OF a(1)] and np = node_path_simps
  have d: "node_dirs s0" "dirname (str SPCEPUBPEMFILEPATH) \<in> dirs s" using s(2) t(2) by (simp_all add: key_dirs_def)
  note dd = node_dirsD [OF d(1)]
  have u32: "length uuid = 32" using u(1) by (simp add: uuid_ok_def)
  have un: "unat (word_of_nat (length key) :: u32) = length key" using u(3) by (intro unat_u32_len) simp
  then have nz: "(word_of_nat (length key) :: u32) \<noteq> 0" using u(2) by (metis length_0_conv unat_0)
  have s1: "disk_ok s" "files s SPCEPUBFILETEMPPATH = Some (half_frame uuid key @ r)" using t(1,3) s(1) f(1) by simp_all
  obtain k1 where p: "parseSpcEpubFile (Some (replicate 33 0)) 32 s =
      Some (0, Some (uuid @ [0]), Ptr (calls (hp s)) key, word_of_nat (length key), steps (s\<lparr>hp := alloc 1 (hp s)\<rparr>) k1)"
    using parseSpcEpubFile_ok [OF s1(1) t(4) s1(2) u32 u(3)] by blast
  let ?s2 = "steps (s\<lparr>hp := alloc 1 (hp s)\<rparr>) k1" and ?F1 = "F(str SPCEPUBPEMFILEPATH \<mapsto> key)"
  have s2: "disk_ok ?s2" "dirname (str SPCEPUBPEMFILEPATH) \<in> dirs ?s2" "length key < 2 ^ 32" using s1(1) d(2) u(3) by simp_all
  obtain k2 where w: "saveSpcEpubToPemFile (Some key) (word_of_nat (length key)) ?s2 = Some (0, disk ?s2 k2 ?F1)"
    using write_new_disk [OF s2, of "[]"] nz t(1) by (auto simp: saveSpcEpubToPemFile_def buffer_to_pem_def)
  have "after (s\<lparr>hp := alloc 1 (hp s)\<rparr>) ?F1 (disk ?s2 k2 ?F1)" using alloc_ok [of "hp s" 1] t(4,5) by (simp add: after_def)
  note q = after_alloc [OF this t(5)]
  obtain s3 where s3: "os_free (calls (hp s)) (disk ?s2 k2 ?F1) = Some s3" "after s ?F1 s3" using q(2,3) by blast
  note t3 = afterD [OF s3(2)]
  have g: "disk_ok s3" "dirname TEMPSATEPUBFILEPATH \<in> dirs s3" "files s3 TEMPSATEPUBFILEPATH = None"
    using s1(1) t3(1-3) t(2) dd(2) f(2) temp_dirs by (simp_all add: np)
  let ?F2 = "?F1(TEMPSATEPUBFILEPATH \<mapsto> half_frame uuid x)"
  obtain k4 where w4: "genTempSatEpubFile (Some (uuid @ [0])) 32 (Some x) (word_of_nat (length x)) s3 = Some (0, disk s3 k4 ?F2)"
    using genTempSatEpubFile_ok [OF g u32 x] unfolding t3(1) by blast
  have "after s3 ?F2 (disk s3 k4 ?F2)" using t3(4,5) by (simp add: after_def)
  note q4 = after_alloc [OF after_trans [OF a(1) after_trans [OF s3(2) this]] a(2)]
  obtain s5 where s5: "os_free (calls (hp s0)) (disk s3 k4 ?F2) = Some s5" "after s0 ?F2 s5" using q4(2,3) by blast
  note t5 = afterD [OF s5(2)]
  have h: "disk_ok s5" "files s5 TEMPSATEPUBFILEPATH = Some (half_frame uuid x)" "SECDOWNLOADDIR \<in> dirs s5" "down_path uuid SATEPUBFILETAIL \<notin> dirs s5"
    using s(1) t5(1-3) dd(7) u(4) by simp_all
  obtain s6 where s6: "genUuidSatEpubFile (Some (uuid @ [0])) 32 s5 = Some (0, s6)"
      "after s5 (?F2(TEMPSATEPUBFILEPATH := None, down_path uuid SATEPUBFILETAIL \<mapsto> half_frame uuid x)) s6"
    using gen_uuid_file_ok [OF h(1) t5(4,5) h(2) u(1) temp_dirs(4,5) h(3,4)] unfolding genUuidSatEpubFile_def t5(1) by blast
  have "exchange_rest (calls (hp s0)) x (word_of_nat (length x)) s = Some (0, s6)"
    using p w s3(1) w4 s5(1) s6(1) by (simp add: exchange_rest_def free_ptr_def ptr_buf_def)
  then show ?thesis using after_trans [OF s5(2) s6(2)] unfolding fun_upd_upd by blast
qed

text \<open>The programs: \<^verbatim>\<open>rm\<close> removes a file, and \<^verbatim>\<open>openssl\<close> makes a private key and the public key that belongs to it.\<close>

definition keygen_ok :: "shell \<Rightarrow> (byte list \<Rightarrow> byte list) \<Rightarrow> bool" where
  "keygen_ok sh pub \<longleftrightarrow>
     (\<forall>p\<in>{SATEPUBPEMFILEPATH, SATEPRVPEMFILEPATH, SPCEPUBPEMFILEPATH}. \<forall>s. sh_system sh (rm_cmd p) s = s\<lparr>files := (files s)(str p := None)\<rparr>) \<and>
     (\<forall>s. \<exists>k. sh_system sh CREATESATEPRVPEMFILECMD s = s\<lparr>files := (files s)(str SATEPRVPEMFILEPATH \<mapsto> k)\<rparr> \<and> pub k \<noteq> [] \<and> length (pub k) < 2 ^ 30) \<and>
     (\<forall>s k. files s (str SATEPRVPEMFILEPATH) = Some k \<longrightarrow>
        sh_system sh GENSATEPUBPEMFILECMD s = s\<lparr>files := (files s)(str SATEPUBPEMFILEPATH \<mapsto> pub k)\<rparr>)"

lemma keygen_okD:
  assumes "keygen_ok sh pub"
  shows "p \<in> {SATEPUBPEMFILEPATH, SATEPRVPEMFILEPATH, SPCEPUBPEMFILEPATH} \<Longrightarrow> sh_system sh (rm_cmd p) s = s\<lparr>files := (files s)(str p := None)\<rparr>"
    "\<exists>k. sh_system sh CREATESATEPRVPEMFILECMD s = s\<lparr>files := (files s)(str SATEPRVPEMFILEPATH \<mapsto> k)\<rparr> \<and> pub k \<noteq> [] \<and> length (pub k) < 2 ^ 30"
    "files s (str SATEPRVPEMFILEPATH) = Some k \<Longrightarrow>
       sh_system sh GENSATEPUBPEMFILECMD s = s\<lparr>files := (files s)(str SATEPUBPEMFILEPATH \<mapsto> pub k)\<rparr>"
  using assms by (auto simp: keygen_ok_def)

lemma rm_pem_files_ok:
  assumes "keygen_ok sh pub" "node_dirs s"
  shows "rm_pem_files sh s = (0, s\<lparr>files := (files s)(str SATEPUBPEMFILEPATH := None, str SATEPRVPEMFILEPATH := None, str SPCEPUBPEMFILEPATH := None)\<rparr>)"
proof -
  have "str p \<notin> dirs s" if "p \<in> {SATEPUBPEMFILEPATH, SATEPRVPEMFILEPATH, SPCEPUBPEMFILEPATH}" for p
    using node_dirsD(8) [OF assms(2)] node_path_mem(9-11) that by blast
  then show ?thesis using keygen_okD(1) [OF assms(1)] by (simp add: rm_pem_files_def Let_def access_def)
qed

lemma create_epub_pem_file_ok:
  assumes "keygen_ok sh pub"
  shows "\<exists>k. create_epub_pem_file sh s = (0, s\<lparr>files := (files s)(str SATEPRVPEMFILEPATH \<mapsto> k, str SATEPUBPEMFILEPATH \<mapsto> pub k)\<rparr>) \<and>
    pub k \<noteq> [] \<and> length (pub k) < 2 ^ 30"
proof -
  obtain k where "sh_system sh CREATESATEPRVPEMFILECMD s = s\<lparr>files := (files s)(str SATEPRVPEMFILEPATH \<mapsto> k)\<rparr>" "pub k \<noteq> []" "length (pub k) < 2 ^ 30"
    using keygen_okD(2) [OF assms] by blast
  moreover have "sh_system sh GENSATEPUBPEMFILECMD (s\<lparr>files := (files s)(str SATEPRVPEMFILEPATH \<mapsto> k)\<rparr>) =
      s\<lparr>files := (files s)(str SATEPRVPEMFILEPATH \<mapsto> k, str SATEPUBPEMFILEPATH \<mapsto> pub k)\<rparr>"
    using keygen_okD(3) [OF assms, of "s\<lparr>files := (files s)(str SATEPRVPEMFILEPATH \<mapsto> k)\<rparr>" k] by simp
  ultimately show ?thesis by (auto simp: create_epub_pem_file_def Let_def access_def)
qed

lemma exchange_keys_ok:
  assumes sh: "keygen_ok sh pub" and s: "disk_ok s" "no_oom (hp s)" "heap_ok (hp s)" "key_dirs s"
    and f: "files s SPCEPUBFILETEMPPATH = Some (half_frame uuid key @ r)" "files s TEMPSATEPUBFILEPATH = None"
    and u: "uuid_ok uuid" "key \<noteq> []" "length key \<le> 2048" "down_path uuid SATEPUBFILETAIL \<notin> dirs s"
  shows "\<exists>s' k x. exchange_keys sh s = Some (0, s') \<and>
    after s ((files s)(str SATEPRVPEMFILEPATH \<mapsto> k, str SATEPUBPEMFILEPATH \<mapsto> pub k, TEMPEPUBFILEPATH \<mapsto> x,
      str SPCEPUBPEMFILEPATH \<mapsto> key, TEMPSATEPUBFILEPATH := None, down_path uuid SATEPUBFILETAIL \<mapsto> half_frame uuid (pub k))) s'"
proof -
  have nd: "node_dirs s" using s(4) by (simp add: key_dirs_def)
  note np = node_path_simps and dd = node_dirsD [OF nd]
  obtain k where k: "create_epub_pem_file sh s = (0, s\<lparr>files := (files s)(str SATEPRVPEMFILEPATH \<mapsto> k, str SATEPUBPEMFILEPATH \<mapsto> pub k)\<rparr>)"
      "pub k \<noteq> []" "length (pub k) < 2 ^ 30"
    using create_epub_pem_file_ok [OF sh] by blast
  let ?F2 = "(files s)(str SATEPRVPEMFILEPATH \<mapsto> k, str SATEPUBPEMFILEPATH \<mapsto> pub k)" and ?n = "word_of_nat (length (pub k)) :: u32"
  define s5 where "s5 = s\<lparr>files := ?F2\<rparr>"
  have h5: "files s5 = ?F2" "hp s5 = hp s" "dirs s5 = dirs s" "disk_ok s5" "after s ?F2 s5"
    using s(1-3) by (simp_all add: s5_def after_def)
  have un: "unat ?n = length (pub k)" using k(3) by (intro unat_u32_len) simp
  have p5: "files s5 (str SATEPUBPEMFILEPATH) = Some (pub k)" using h5(1) by simp
  note g5 = pem_read_ok(1) [OF h5(4) p5 k(2,3), of 0]
  have m5: "os_malloc z (steps s5 j) = (Some (calls (hp s5)), steps (s5\<lparr>hp := alloc 1 (hp s5)\<rparr>) j)" for z j
    using os_malloc_ok [of "steps s5 j" z] s(2) h5(2) by simp
  let ?s6 = "steps (s5\<lparr>hp := alloc 1 (hp s5)\<rparr>) (Suc (io_calls s5))"
  have s6: "disk_ok ?s6" "files ?s6 (str SATEPUBPEMFILEPATH) = Some (pub k)" using h5(4) p5 by simp_all
  note g6 = pem_read_ok(2) [OF s6 k(2,3)]
  let ?s7 = "steps ?s6 (Suc (Suc (io_calls ?s6)))"
  have s7: "disk_ok ?s7" "dirname TEMPEPUBFILEPATH \<in> dirs ?s7" using h5(3,4) dd(2) temp_dirs by simp_all
  obtain k8 t where s8: "saveSatEpubToTempFile (Some (pub k)) ?n ?s7 = Some (0, disk ?s7 k8 (?F2(TEMPEPUBFILEPATH \<mapsto> u32_le ?n @ pub k @ t)))"
    using save_with_len_ok [OF s7 k(2,3)] h5(1) unfolding saveSatEpubToTempFile_def by auto
  let ?F3 = "?F2(TEMPEPUBFILEPATH \<mapsto> u32_le ?n @ pub k @ t)"
  have a8: "after (s5\<lparr>hp := alloc 1 (hp s5)\<rparr>) ?F3 (disk ?s7 k8 ?F3)" using alloc_ok [of "hp s5" 1] s(2,3) h5(2) by (simp add: after_def)
  have s5': "heap_ok (hp s5)" "no_oom (hp s5)" "disk_ok s5" "key_dirs s5" "down_path uuid SATEPUBFILETAIL \<notin> dirs s5"
    using h5 s u(4) by (simp_all add: key_dirs_def node_dirs_def)
  have f8: "?F3 SPCEPUBFILETEMPPATH = Some (half_frame uuid key @ r)" "?F3 TEMPSATEPUBFILEPATH = None" using f by (simp_all add: np)
  obtain s9 where s9: "exchange_rest (calls (hp s5)) (pub k) ?n (disk ?s7 k8 ?F3) = Some (0, s9)"
      "after s5 (?F3(str SPCEPUBPEMFILEPATH \<mapsto> key, TEMPSATEPUBFILEPATH := None, down_path uuid SATEPUBFILETAIL \<mapsto> half_frame uuid (pub k))) s9"
    using exchange_rest_ok [OF a8 s5'(1-4) f8 u(1-3) s5'(5) k(2,3)] by blast
  have "exchange_keys sh s = Some (0, s9)"
    using k(1) g5 m5 g6 un s8 s9(1) by (simp add: exchange_keys_def s5_def [symmetric] del: fun_upd_apply)
  then show ?thesis using after_trans [OF h5(5) s9(2)] by blast
qed

text \<open>C5: The exchange of the keys: whatever keys the node had, it ends with the key that came from the ground as the key of the
  ground, with a new pair of keys of its own, and with a file for the ground that holds the identifier of the request
  and the new public key.\<close>

theorem keys_exchanged:
  assumes sh: "keygen_ok sh pub" and s: "disk_ok s" "no_oom (hp s)" "heap_ok (hp s)" "key_dirs s"
    and ds: "\<forall>t. DEPLOYDIR @ name \<in> dom (files t) \<longrightarrow> deployed ds t SPCEPUBFILETAIL name"
    and f: "files s (DEPLOYDIR @ name) = Some (half_frame uuid key @ r)" "files s TEMPSATEPUBFILEPATH = None"
    and u: "uuid_ok uuid" "key \<noteq> []" "length key \<le> 2048" "down_path uuid SATEPUBFILETAIL \<notin> dirs s"
  shows "\<exists>s' k. spc_init_node ds sh s = Some (0, s') \<and> files s' (str SPCEPUBPEMFILEPATH) = Some key \<and>
    files s' (str SATEPRVPEMFILEPATH) = Some k \<and> files s' (str SATEPUBPEMFILEPATH) = Some (pub k) \<and>
    files s' (down_path uuid SATEPUBFILETAIL) = Some (half_frame uuid (pub k)) \<and> files s' (DEPLOYDIR @ name) = None"
proof -
  have nd: "node_dirs s" using s(4) by (simp add: key_dirs_def)
  note np = node_path_simps and dd = node_dirsD [OF nd]
  let ?F0 = "(files s)(str SATEPUBPEMFILEPATH := None, str SATEPRVPEMFILEPATH := None, str SPCEPUBPEMFILEPATH := None)"
  define s1 where "s1 = s\<lparr>files := ?F0\<rparr>"
  have rm: "rm_pem_files sh s = (0, s1)" unfolding s1_def by (rule rm_pem_files_ok [OF sh nd])
  have h1: "files s1 = ?F0" "hp s1 = hp s" "dirs s1 = dirs s" "disk_ok s1" using s(1) by (simp_all add: s1_def)
  have f1: "files s1 (DEPLOYDIR @ name) = Some (half_frame uuid key @ r)" using f(1) h1(1) by (simp add: np)
  then have dp: "deployed ds s1 SPCEPUBFILETAIL name" using ds by blast
  note n = deployedD [OF dp]
  let ?s2 = "s1\<lparr>hp := alloc 1 (hp s1)\<rparr>" and ?F1 = "?F0(DEPLOYDIR @ name := None, SPCEPUBFILETEMPPATH \<mapsto> half_frame uuid key @ r)"
  have s2: "disk_ok ?s2" "no_oom (hp ?s2)" "heap_ok (hp ?s2)" "files ?s2 (DEPLOYDIR @ name) = Some (half_frame uuid key @ r)"
      "dirname SPCEPUBFILETEMPPATH \<in> dirs ?s2" "SPCEPUBFILETEMPPATH \<notin> dirs ?s2"
    using h1 s f1 dd(2) dd(8) [OF node_path_mem(1)] temp_dirs alloc_ok [of "hp s" 1] by simp_all
  obtain s3 where s3: "mvSpcEpubFileToTempDir (Some (name @ [0])) (word_of_nat (length name)) ?s2 = Some (0, s3)" "after ?s2 ?F1 s3"
    using mv_deployed_ok [OF s2(1-4) n(1,2,4) s2(5,6)] h1(1) unfolding mvSpcEpubFileToTempDir_def by auto
  have "heap_ok (hp s1)" using s(3) h1(2) by simp
  note q3 = after_alloc [OF s3(2) this]
  obtain s4 where s4: "os_free (calls (hp s1)) s3 = Some s4" "after s1 ?F1 s4" using q3(2,3) by blast
  note t4 = afterD [OF s4(2)]
  have h4: "disk_ok s4" "key_dirs s4" "files s4 SPCEPUBFILETEMPPATH = Some (half_frame uuid key @ r)" "files s4 TEMPSATEPUBFILEPATH = None"
      "down_path uuid SATEPUBFILETAIL \<notin> dirs s4"
    using t4 h1 s(4) u(4) f(2) by (simp_all add: np key_dirs_def node_dirs_def)
  obtain s9 k x where s9: "exchange_keys sh s4 = Some (0, s9)" "after s4 ((files s4)(str SATEPRVPEMFILEPATH \<mapsto> k, str SATEPUBPEMFILEPATH \<mapsto> pub k,
      TEMPEPUBFILEPATH \<mapsto> x, str SPCEPUBPEMFILEPATH \<mapsto> key, TEMPSATEPUBFILEPATH := None, down_path uuid SATEPUBFILETAIL \<mapsto> half_frame uuid (pub k))) s9"
    using exchange_keys_ok [OF sh h4(1) t4(4,5) h4(2-4) u(1-3) h4(5)] by blast
  have "init_exchangeEpub ds sh s1 = Some (0, s9)"
    using n(6,7) h1(2) s(2) s3(1) s4(1) s9(1) by (simp add: init_exchangeEpub_def findSpcEpubFile_def free_ptr_def ptr_buf_def)
  then have "spc_init_node ds sh s = Some (0, s9)"
    using rm n(5) by (simp add: spc_init_node_def init_checkSpcEpubFile_def countSpcEpubFile_def)
  then show ?thesis using afterD(1) [OF s9(2)] t4(1) deploy_not_down by (intro exI [of _ s9] exI [of _ k]) (simp add: np)
qed

section \<open>A node that gets its keys\<close>

definition key_dir :: dir_ops
  where "key_dir = \<lparr>dir_read = \<lambda>p s. Some [(replicate 19 0, SPCEPUBFILETAIL)], dir_stale = \<lambda>n. Some (length n)\<rparr>"

definition put_file :: "string \<Rightarrow> byte list option \<Rightarrow> os \<Rightarrow> os"
  where "put_file p d s = s\<lparr>files := (files s)(str p := d)\<rparr>"

definition key_shell :: shell where
  "key_shell = \<lparr>sh_system = \<lambda>c s.
     if c = rm_cmd SATEPUBPEMFILEPATH then put_file SATEPUBPEMFILEPATH None s
     else if c = rm_cmd SATEPRVPEMFILEPATH then put_file SATEPRVPEMFILEPATH None s
     else if c = rm_cmd SPCEPUBPEMFILEPATH then put_file SPCEPUBPEMFILEPATH None s
     else if c = CREATESATEPRVPEMFILECMD then put_file SATEPRVPEMFILEPATH (Some [7]) s
     else put_file SATEPUBPEMFILEPATH (map_option (\<lambda>k. 1 # k) (files s (str SATEPRVPEMFILEPATH))) s,
     sh_popen = \<lambda>c s. (None, s)\<rparr>"

lemma key_commands:
  "distinct [rm_cmd SATEPUBPEMFILEPATH, rm_cmd SATEPRVPEMFILEPATH, rm_cmd SPCEPUBPEMFILEPATH, CREATESATEPRVPEMFILECMD, GENSATEPUBPEMFILECMD]"
  by code_simp

lemma key_shell_does:
  "sh_system key_shell (rm_cmd SATEPUBPEMFILEPATH) s = put_file SATEPUBPEMFILEPATH None s"
  "sh_system key_shell (rm_cmd SATEPRVPEMFILEPATH) s = put_file SATEPRVPEMFILEPATH None s"
  "sh_system key_shell (rm_cmd SPCEPUBPEMFILEPATH) s = put_file SPCEPUBPEMFILEPATH None s"
  "sh_system key_shell CREATESATEPRVPEMFILECMD s = put_file SATEPRVPEMFILEPATH (Some [7]) s"
  "sh_system key_shell GENSATEPUBPEMFILECMD s = put_file SATEPUBPEMFILEPATH (map_option (\<lambda>k. 1 # k) (files s (str SATEPRVPEMFILEPATH))) s"
  using key_commands by (simp_all add: key_shell_def) (metis | simp)+

lemma key_shell_ok: "keygen_ok key_shell ((#) 1)"
  by (simp add: keygen_ok_def key_shell_does put_file_def) (intro allI exI [of _ "[7]"], simp)

definition key_disk :: os where
  "key_disk = (node_disk [] [])
     \<lparr>dirs := insert (dirname (str SPCEPUBPEMFILEPATH)) (dirs (node_disk [] [])),
      files := [DEPLOYDIR @ SPCEPUBFILETAIL \<mapsto> half_frame (replicate 32 0x41) [1, 2, 3]]\<rparr>"

lemma keys_exchanged_witness:
  "\<exists>s' k. spc_init_node key_dir key_shell key_disk = Some (0, s') \<and> files s' (str SPCEPUBPEMFILEPATH) = Some [1, 2, 3] \<and>
    files s' (str SATEPRVPEMFILEPATH) = Some k \<and> files s' (str SATEPUBPEMFILEPATH) = Some (1 # k) \<and>
    files s' (down_path (replicate 32 0x41) SATEPUBFILETAIL) = Some (half_frame (replicate 32 0x41) (1 # k)) \<and>
    files s' (DEPLOYDIR @ SPCEPUBFILETAIL) = None"
proof (rule keys_exchanged [OF key_shell_ok, where r = "[]"])
  have p: "\<forall>p\<in>set node_paths. p \<noteq> dirname (str SPCEPUBPEMFILEPATH)" by code_simp
  then show "key_dirs key_disk" using node_disk_ok(4) [of "[]" "[]"] by (auto simp: key_dirs_def node_dirs_def key_disk_def)
  have "length (dirname (str PLAINFILEPATH)) < 54 \<and> length (dirname SPCCS1FILEPATH) < 54 \<and> length (dirname MSPCDATAFILEPATH) < 54 \<and>
      length (dirname (str SPCEPUBPEMFILEPATH)) < 54 \<and> length SECDOWNLOADDIR < 54" by code_simp
  then have "\<forall>d\<in>dirs key_disk. length d < 54" by (simp add: key_disk_def node_disk_def)
  moreover have "\<not> length (down_path (replicate 32 0x41) SATEPUBFILETAIL) < 54" by (simp add: down_path_dir)
  ultimately show "down_path (replicate 32 0x41) SATEPUBFILETAIL \<notin> dirs key_disk" by blast
  show "\<forall>t. DEPLOYDIR @ SPCEPUBFILETAIL \<in> dom (files t) \<longrightarrow> deployed key_dir t SPCEPUBFILETAIL SPCEPUBFILETAIL"
  proof -
    have "SPCEPUBFILETAIL \<noteq> [] \<and> 0 \<notin> set SPCEPUBFILETAIL \<and> 0x2f \<notin> set SPCEPUBFILETAIL \<and> length SPCEPUBFILETAIL < 256 \<and>
        find_tail SPCEPUBFILETAIL [(replicate 19 0, SPCEPUBFILETAIL)] = Some (Some SPCEPUBFILETAIL) \<and>
        count_tail SPCEPUBFILETAIL [(replicate 19 0, SPCEPUBFILETAIL)] 0 = Some 1" by code_simp
    then show ?thesis by (simp add: deployed_def key_dir_def)
  qed
  show "disk_ok key_disk" "no_oom (hp key_disk)" "heap_ok (hp key_disk)" using node_disk_ok(1-3) [of "[]" "[]"] by (simp_all add: key_disk_def disk_ok_def)
  show "files key_disk (DEPLOYDIR @ SPCEPUBFILETAIL) = Some (half_frame (replicate 32 0x41) [1, 2, 3] @ [])" "files key_disk TEMPSATEPUBFILEPATH = None"
    by (simp_all add: key_disk_def node_path_simps)
qed (simp_all add: uuid_ok_def)

end
