(* ===== verification/Spec2Isabelle.thy ===== *)
theory Spec2Isabelle
imports Serialize_Correct Sha256_Correct Script_Correct Key_Correct Server_Correct Client_Correct File_Ops_Correct Envelope_Correct
  Upload_Correct Trash_Correct Commands_Correct Node_Start_Correct Node_Keys
begin

text \<open>
  Verification of the transaction signer of the SpaceChain Callisto Spacenode.

  \<^bold>\<open>The program.\<close>  The node keeps key pairs and signs Bitcoin transactions of two-of-three
  multisignature wallets for clients on the ground.  A daemon on the SpaceChain side
  (\<^verbatim>\<open>src/Spacechain_os_part/spc\<close>) accepts a connection, reads a command of 16 bytes and runs one of
  three handlers: make a key store for a user, make a key pair in it, or sign a transaction.  For
  the third it receives a partial transaction, parses it into structures on the heap, signs each
  input with the key pair named by the command, writes the signed transaction into a buffer and
  sends it back.  The wallet library next to it (\<^verbatim>\<open>src/Spacechain_os_part\<close>, from Trezor) gives the
  hashes, the curve and the derivation of keys.

  On the Linux side (\<^verbatim>\<open>src/Linux_os_part/spcstartwork_dir\<close>) a program works through the files sent
  up to the satellite.  A transaction file names a server on the ground, has a check block and the
  encrypted transactions.  The file is accepted when one of the next five one-time passwords of that server
  decrypts the check block to its number; then each transaction is decrypted, sent to the node for signing
  and its result appended to a result file, and the counter of the server moves behind the password.
  What is sent up comes as one upload: a list of files to keep, the transaction files, and command files, which
  make a server or change the secret or the keys of one.  A second program (\<^verbatim>\<open>src/Linux_os_part/spcstart_dir\<close>)
  deploys the node: it writes the file of a deployment to its place and, by the command with it, exchanges the
  public keys with the ground or makes one of the two stages of a check of them.

  \<^bold>\<open>Theories.\<close>  Each component has a theory with its definitions, named as in the code, and one
  or more theories with its lemmas and properties (\<^verbatim>\<open>.._Correct\<close>, \<^verbatim>\<open>.._Store\<close>, \<^verbatim>\<open>.._Theorems\<close>).
    \<^item> \<^verbatim>\<open>Spc_Prelude\<close>: machine words, buffers, pointers, the heap, and lemmas on them; it models
      no code of its own.  \<^verbatim>\<open>Wire_Format\<close>: the abstract transactions (\<^verbatim>\<open>ptx\<close>, \<^verbatim>\<open>stx\<close>) and their
      encodings, the specification the parser and the writer are proved against.
    \<^item> \<^verbatim>\<open>Spc_Tools\<close>: \<^verbatim>\<open>spctools.c\<close>, hexadecimal text, reversal, variable length integers.
    \<^item> \<^verbatim>\<open>Deserialize\<close>, \<^verbatim>\<open>Deserialize_Correct\<close>: \<^verbatim>\<open>spcdeserialize.c\<close>, the parser and the functions
      that free what it built.
    \<^item> \<^verbatim>\<open>Serialize\<close>, \<^verbatim>\<open>Serialize_Correct\<close>: \<^verbatim>\<open>spcserialize.c\<close>, the length and bytes of a signed
      transaction.
    \<^item> \<^verbatim>\<open>Sha256\<close>, \<^verbatim>\<open>Sha256_Spec\<close>, \<^verbatim>\<open>Sha256_Correct\<close>: SHA-256 of \<^verbatim>\<open>sha2.c\<close> and \<^verbatim>\<open>spcsha256d.c\<close>,
      against FIPS 180-4, which \<^verbatim>\<open>Sha256_Spec\<close> states without the code.
    \<^item> \<^verbatim>\<open>Script\<close>, \<^verbatim>\<open>Script_Correct\<close>: \<^verbatim>\<open>spcscript.c\<close>, scripts as lists of items.
    \<^item> \<^verbatim>\<open>Key_Derive\<close>, \<^verbatim>\<open>Key_Correct\<close>: \<^verbatim>\<open>spckeyget.c\<close> and the parts of \<^verbatim>\<open>bip32.c\<close> and \<^verbatim>\<open>ecdsa.c\<close>
      it reaches: the layout of extended keys, double derivation, DER signatures.
    \<^item> \<^verbatim>\<open>Sign\<close>, \<^verbatim>\<open>Bip143\<close>, \<^verbatim>\<open>Sign_Witness\<close>, \<^verbatim>\<open>Sign_Correct\<close>, \<^verbatim>\<open>Sign_Theorems\<close>: \<^verbatim>\<open>spcsign.c\<close>; the
      message signed is that of BIP 143, the new witness holds the two signatures in the order of
      the keys, and the whole transaction is signed input by input.
    \<^item> \<^verbatim>\<open>Keystore\<close>, \<^verbatim>\<open>Keystore_Correct\<close>, \<^verbatim>\<open>Keystore_Store\<close>: \<^verbatim>\<open>spckeystore.c\<close>; the files implement a
      map from users to lists of key pairs.  The contract is the locale \<^verbatim>\<open>key_store\<close>, interpreted on
      the functions of the file as \<^verbatim>\<open>spc_store\<close>.  On a disk that fails a save is all or nothing unless
      the header is torn when the low byte of the count carries.
    \<^item> \<^verbatim>\<open>Key_Gen\<close>: \<^verbatim>\<open>spcxkeygen.c\<close>, making a key pair.
    \<^item> \<^verbatim>\<open>Moscp\<close>, \<^verbatim>\<open>Moscp_Correct\<close>: \<^verbatim>\<open>spcmoscp.c\<close>, commands and data over a stream.
    \<^item> \<^verbatim>\<open>Server\<close>, \<^verbatim>\<open>Tx_Life\<close>, \<^verbatim>\<open>Server_Correct\<close>: \<^verbatim>\<open>spcserverops_s.c\<close>, \<^verbatim>\<open>spctxops_s.c\<close> and the loop
      of \<^verbatim>\<open>server.c\<close>; \<^verbatim>\<open>Tx_Life\<close> follows the blocks of a transaction from the parser through the
      signer to \<^verbatim>\<open>free_tx\<close>.
    \<^item> \<^verbatim>\<open>Client\<close>, \<^verbatim>\<open>Client_Correct\<close>: the requests of the Linux side (\<^verbatim>\<open>spcserverops_c.c\<close>, \<^verbatim>\<open>spctxops_c.c\<close>,
      \<^verbatim>\<open>spctcpc.c\<close>); client and node together sign a transaction.
    \<^item> \<^verbatim>\<open>Sign_Data\<close>, \<^verbatim>\<open>Sign_Data_Correct\<close>: \<^verbatim>\<open>spcmodsign.c\<close>, the frame of a decrypted transaction and
      that of its result.
    \<^item> \<^verbatim>\<open>Server_List\<close>, \<^verbatim>\<open>Server_List_Correct\<close>: \<^verbatim>\<open>spcmodserver.c\<close>, the list of servers with secrets and
      counters.
    \<^item> \<^verbatim>\<open>Tx_File\<close>, \<^verbatim>\<open>Tx_File_Correct\<close>: \<^verbatim>\<open>spcmodparse.c\<close>, reading transaction files and writing result
      files; the formats are \<^verbatim>\<open>tx_file\<close> and \<^verbatim>\<open>res_file\<close>.
    \<^item> \<^verbatim>\<open>Hotp\<close>, \<^verbatim>\<open>Hotp_Correct\<close>: \<^verbatim>\<open>spcmodhotp.c\<close> with the parts of \<^verbatim>\<open>otp.c\<close> and \<^verbatim>\<open>base32.c\<close> it reaches,
      against RFC 4226.
    \<^item> \<^verbatim>\<open>Mission\<close>, \<^verbatim>\<open>Mission_Correct\<close>, \<^verbatim>\<open>Mission_Theorems\<close>: \<^verbatim>\<open>start_sign_tx_file\<close> of
      \<^verbatim>\<open>spc_start_mission.c\<close>; the loops implement the function \<^verbatim>\<open>results\<close> on the answers of the node.

    \<^item> \<^verbatim>\<open>Sys_Files\<close>: calls of the C library on strings and files; it models no code of its own.
    \<^item> \<^verbatim>\<open>File_Ops\<close>, \<^verbatim>\<open>File_Ops_Correct\<close>: \<^verbatim>\<open>spcmodfileops.c\<close>, the files of a mission, and the loop of
      \<^verbatim>\<open>spc_start_mission\<close>.
    \<^item> \<^verbatim>\<open>Envelope\<close>, \<^verbatim>\<open>Envelope_Correct\<close>: \<^verbatim>\<open>spcrsa.c\<close>, \<^verbatim>\<open>spcpem.c\<close> and \<^verbatim>\<open>spcvsig.c\<close>, encryption and
      signatures by commands of \<^verbatim>\<open>openssl\<close>.
    \<^item> \<^verbatim>\<open>Upload\<close>, \<^verbatim>\<open>Upload_Correct\<close>, \<^verbatim>\<open>Upload_Checks\<close>: \<^verbatim>\<open>spcmodprepare.c\<close>, the data file from the ground, its
      checks and how it is unpacked; the format is \<^verbatim>\<open>data_file\<close>.
    \<^item> \<^verbatim>\<open>Trash\<close>, \<^verbatim>\<open>Trash_Correct\<close>: \<^verbatim>\<open>spcmodtrash.c\<close> and \<^verbatim>\<open>spc_do_keep.c\<close>, the files to keep.
    \<^item> \<^verbatim>\<open>Seed\<close>: \<^verbatim>\<open>spcmodseed.c\<close>, ten new key pairs for a server.
    \<^item> \<^verbatim>\<open>Commands\<close>, \<^verbatim>\<open>Commands_Correct\<close>: the commands from the ground (\<^verbatim>\<open>spc_do_cmd.c\<close>, \<^verbatim>\<open>spc_init_server.c\<close>,
      \<^verbatim>\<open>spc_update_secret.c\<close>, \<^verbatim>\<open>spc_update_satpub.c\<close>, \<^verbatim>\<open>spcmodsecret.c\<close>) and the rest of \<^verbatim>\<open>spcmodserver.c\<close>.
    \<^item> \<^verbatim>\<open>Node_Init\<close>, \<^verbatim>\<open>Node_Init_Correct\<close>, \<^verbatim>\<open>Node_Keys\<close>: \<^verbatim>\<open>spcmodinit.c\<close>, \<^verbatim>\<open>spcmodnode.c\<close>, \<^verbatim>\<open>spc_init_node.c\<close>,
      \<^verbatim>\<open>spc_cs_1.c\<close> and \<^verbatim>\<open>spc_cs_2.c\<close> of \<^verbatim>\<open>spcstart_dir\<close>, the check of the keys in two stages and their exchange.
      Functions that differ in a name of a file only are one definition with that name as an argument.
    \<^item> \<^verbatim>\<open>Node_Start\<close>, \<^verbatim>\<open>Node_Start_Correct\<close>: the two programs, \<^verbatim>\<open>spcstart.c\<close> and \<^verbatim>\<open>spc_start_work.c\<close> with its \<^verbatim>\<open>main.c\<close>;
      they call the parts above in their order.

  \<^bold>\<open>Representation.\<close>  A C integer is a word of its width (\<^verbatim>\<open>byte\<close>, \<^verbatim>\<open>u16\<close>, \<^verbatim>\<open>u32\<close>, \<^verbatim>\<open>u64\<close>), return
  codes are integers, a struct is a record, \<^verbatim>\<open>buf\<close> is a pointer to bytes (\<^verbatim>\<open>None\<close> for \<^verbatim>\<open>NULL\<close>) whose
  list is what may be read or written from the pointer on.  The heap records which blocks are
  allocated, the calls of \<^verbatim>\<open>malloc\<close> so far and which of them fail; a block pointer carries its name
  and contents.  The value \<^verbatim>\<open>None\<close> of a function is undefined behaviour: an access outside a
  buffer, a block freed twice or not allocated.  Every theorem that a function gives \<^verbatim>\<open>Some\<close> thus says
  that it returns and is memory safe on that input.  In \<^verbatim>\<open>Moscp\<close> and \<^verbatim>\<open>Server\<close> \<^verbatim>\<open>None\<close> also is a call
  that never returns.  Out parameters are returned with the result.  The operating system is the
  record \<^verbatim>\<open>os\<close>: directories, files, the heap, and for every call of \<^verbatim>\<open>read\<close> and \<^verbatim>\<open>write\<close> whether it fails
  and how many bytes it transfers at most.  A connection \<^verbatim>\<open>conn\<close> has the bytes the peer sends, the
  bytes sent to it, and sizes and failures of the single transfers; they are arbitrary, so a property
  over all connections holds for every way TCP cuts the stream.  On the Linux side \<^verbatim>\<open>net\<close> gives the
  result of every \<^verbatim>\<open>socket\<close> and \<^verbatim>\<open>connect\<close>, and \<^verbatim>\<open>parse_state\<close> is the two global variables of
  \<^verbatim>\<open>spcmodparse.c\<close>.  That program runs on a 32-bit system: \<^verbatim>\<open>sizeof\<close> is a 32-bit word, an offset of \<^verbatim>\<open>lseek\<close>
  or a length of \<^verbatim>\<open>read\<close> that is negative as a signed number is refused.

  \<^bold>\<open>Parameters.\<close>  The arithmetic of the curve and Base58 (\<^verbatim>\<open>curve_ops\<close>) and the wallet functions of
  key generation (\<^verbatim>\<open>keygen_ops\<close>) are records of functions the definitions take as arguments, the random
  words of a new seed an argument; so are AES in CBC mode (\<^verbatim>\<open>cipher\<close>), the keyed hash of libgcrypt
  (\<^verbatim>\<open>otp_ops\<close>), the numbers of \<^verbatim>\<open>rand\<close> and the values of \<^verbatim>\<open>time\<close>, the contents of
  a directory (\<^verbatim>\<open>dir_list\<close>, \<^verbatim>\<open>dir_ops\<close>), whether a failed call was only interrupted (\<^verbatim>\<open>eintr\<close>) and the effect of a command of the shell (\<^verbatim>\<open>shell\<close>).  What the theorems need of them are named hypotheses, met by the
  concrete functions of the witnesses.

  \<^bold>\<open>Bounds.\<close>  Buffers are shorter than \<^verbatim>\<open>2 ^ 60\<close> bytes, so that 64-bit counters do not wrap; the
  server refuses data above 102400 bytes and a result must stay below \<^verbatim>\<open>2 ^ 31\<close>, the range of the
  \<^verbatim>\<open>int\<close> that counts the bytes sent.  A key store holds fewer than \<^verbatim>\<open>2 ^ 32 - 1\<close> pairs; above 65536 the
  index returned wraps, which is a theorem of its own.  The loop that counts the items of a script
  takes fuel; each round consumes at least one byte, so the length of the script is enough.  The loop that
  finds the number of digits of a user takes ten rounds, one for each power of ten.  The loops over the
  transactions of a file terminate by the number of transactions that remain, also when the file
  claims none (a number of 0 wraps).  The length of a secret in base 32 is computed in floating point by
  the code; \<^verbatim>\<open>b32_size\<close> rounds as IEEE 754 does.  The loop over the files of a mission
  is a \<^verbatim>\<open>partial_function\<close>, since a file that cannot be removed is met again.  All other
  loops recurse on a counter or terminate by a measure, except the receiving loop, whose termination is
  the theorem \<^verbatim>\<open>recv_cmd_returns\<close>.

  \<^bold>\<open>Not modelled.\<close>  Output by \<^verbatim>\<open>printf\<close>, also the functions that only print; the set-up of the listening socket; the
  test programs; \<^verbatim>\<open>base64.c\<close> and the functions of \<^verbatim>\<open>otp.c\<close> and \<^verbatim>\<open>base32.c\<close> that nothing calls; the calls of the upgrade
  scripts in \<^verbatim>\<open>spcstart.c\<close>, which are not compiled; the copies of \<^verbatim>\<open>spcmodinit.c\<close> and \<^verbatim>\<open>spcmodnode.c\<close> in
  \<^verbatim>\<open>spcstartwork_dir\<close>, which nothing calls, and those of \<^verbatim>\<open>spcrsa.c\<close> and \<^verbatim>\<open>spcpem.c\<close> in \<^verbatim>\<open>spcstart_dir\<close>, which differ
  from the ones modelled in comments and an unused variable; the headers of libraries (\<^verbatim>\<open>adrvLibs\<close>); the arithmetic of the vendored
  wallet library beyond what is listed above.
\<close>

end
